(* ===== verification/Prelude.thy ===== *)
theory Prelude
  imports Main Complex_Main
begin

text \<open>
  What every component of the development shares: the identifiers, instants and amounts of
  the database, the application errors and the result type that carries them, the reading
  and writing of a table, and the environment (clock and identifier source) of an operation.

  A table of the database is the list of its rows in creation order.  \<open>find\<close> is
  Prisma's \<open>findUnique\<close> and \<open>findFirst\<close>, \<open>filter\<close> is \<open>findMany\<close>, and
  \<open>update_where\<close> is \<open>update\<close> and \<open>updateMany\<close>.
\<close>

section \<open>Collections of hints\<close>

named_theorems row_simps "what reading a table after a write returns"
named_theorems inv_intros "every operation keeps the invariant"

section \<open>Basic types\<close>

type_synonym ident = string
type_synonym time = int
type_synonym decimal = rat

text \<open>
  The environment of one operation: the clock \<open>Date.now()\<close> and the successive results of
  \<open>randomUUID()\<close> and of the database's \<open>uuid()\<close> default.
\<close>

record env =
  env_now :: time
  env_uuid :: "nat \<Rightarrow> ident"

text \<open>
  The classes of \<open>src/shared/utils/AppError.ts\<close>, with the message they carry (the text
  of the template; interpolated values are left out), plus a plain \<open>Error\<close> and the two
  database errors the code can meet (a violated unique index, a missing row) and the errors of the
  Paystack client (\<open>PaystackErrorCode\<close> and message).
\<close>

datatype app_error =
    BadRequestError string
  | UnauthorizedError string
  | ForbiddenError string
  | NotFoundError string
  | ConflictError string
  | ValidationError string
  | PlainError string
  | UniqueViolation string
  | ForeignKeyViolation string
  | RecordNotFound string
  | PaystackFailure string string

text \<open>The \<open>statusCode\<close> each class passes to the \<open>AppError\<close> constructor.\<close>

fun statusCode :: "app_error \<Rightarrow> nat option" where
  "statusCode (BadRequestError m) = Some 400"
| "statusCode (UnauthorizedError m) = Some 401"
| "statusCode (ForbiddenError m) = Some 403"
| "statusCode (NotFoundError m) = Some 404"
| "statusCode (ConflictError m) = Some 409"
| "statusCode (ValidationError m) = Some 422"
| "statusCode (PlainError m) = None"
| "statusCode (UniqueViolation m) = None"
| "statusCode (ForeignKeyViolation m) = None"
| "statusCode (RecordNotFound m) = None"
| "statusCode (PaystackFailure c m) = None"

text \<open>\<open>error.message\<close>; a Paystack error carries a code beside it.\<close>

fun errorMessage :: "app_error \<Rightarrow> string" where
  "errorMessage (BadRequestError m) = m"
| "errorMessage (UnauthorizedError m) = m"
| "errorMessage (ForbiddenError m) = m"
| "errorMessage (NotFoundError m) = m"
| "errorMessage (ConflictError m) = m"
| "errorMessage (ValidationError m) = m"
| "errorMessage (PlainError m) = m"
| "errorMessage (UniqueViolation m) = m"
| "errorMessage (ForeignKeyViolation m) = m"
| "errorMessage (RecordNotFound m) = m"
| "errorMessage (PaystackFailure c m) = m"

text \<open>A JSON column, and what JavaScript's \<open>typeof\<close> and property access see of it.\<close>

datatype json =
    JUndefined
  | JNull
  | JBool bool
  | JNumber rat
  | JString string
  | JArray "json list"
  | JObject "(string \<times> json) list"

fun jget :: "json \<Rightarrow> string \<Rightarrow> json" where
  "jget (JObject kvs) k = (case map_of kvs k of None \<Rightarrow> JUndefined | Some v \<Rightarrow> v)"
| "jget j k = JUndefined"

type_synonym 'a res = "app_error + 'a"

definition ok :: "'a res \<Rightarrow> bool" where
  "ok r = (case r of Inl e \<Rightarrow> False | Inr v \<Rightarrow> True)"

lemma ok_simps [simp]: "\<not> ok (Inl e)" "ok (Inr v)"
  by (simp_all add: ok_def)

lemma ok_E: "ok r \<Longrightarrow> (\<And>v. r = Inr v \<Longrightarrow> P) \<Longrightarrow> P"
  by (cases r) auto

text \<open>
  \<open>prisma.$transaction\<close>: the body runs on the current state; when it throws, every write
  it made is rolled back.
\<close>

definition transaction :: "('s \<Rightarrow> 'a res \<times> 's) \<Rightarrow> 's \<Rightarrow> 'a res \<times> 's" where
  "transaction body s = (case body s of (Inl e, s') \<Rightarrow> (Inl e, s) | (Inr v, s') \<Rightarrow> (Inr v, s'))"

lemma transaction_error_rolls_back: "transaction body s = (Inl e, s') \<Longrightarrow> s' = s"
  by (auto simp: transaction_def split: prod.splits sum.splits)

lemma transaction_ok: "body s = (Inr v, s') \<Longrightarrow> transaction body s = (Inr v, s')"
  by (simp add: transaction_def)

lemma transaction_fail: "body s = (Inl e, s') \<Longrightarrow> transaction body s = (Inl e, s)"
  by (simp add: transaction_def)

section \<open>Tables\<close>

definition update_where :: "('a \<Rightarrow> bool) \<Rightarrow> ('a \<Rightarrow> 'a) \<Rightarrow> 'a list \<Rightarrow> 'a list" where
  "update_where p f xs = map (\<lambda>x. if p x then f x else x) xs"

definition count_where :: "('a \<Rightarrow> bool) \<Rightarrow> 'a list \<Rightarrow> nat" where
  "count_where p xs = length (filter p xs)"

definition sum_where :: "('a \<Rightarrow> bool) \<Rightarrow> ('a \<Rightarrow> decimal) \<Rightarrow> 'a list \<Rightarrow> decimal" where
  "sum_where p f xs = sum_list (map f (filter p xs))"

lemma update_where_Nil [row_simps, simp]: "update_where p f [] = []"
  by (simp add: update_where_def)

lemma update_where_Cons [row_simps]:
  "update_where p f (x # xs) = (if p x then f x else x) # update_where p f xs"
  by (simp add: update_where_def)

lemma update_where_append [row_simps]:
  "update_where p f (xs @ ys) = update_where p f xs @ update_where p f ys"
  by (simp add: update_where_def)

lemma length_update_where [simp]: "length (update_where p f xs) = length xs"
  by (simp add: update_where_def)

lemma set_update_where: "set (update_where p f xs) = (\<lambda>x. if p x then f x else x) ` set xs"
  by (simp add: update_where_def)

lemma update_where_no_match: "(\<And>x. x \<in> set xs \<Longrightarrow> \<not> p x) \<Longrightarrow> update_where p f xs = xs"
  by (induction xs) (auto simp: row_simps)

text \<open>A write that leaves \<open>g\<close> of every row alone leaves it alone in the table.\<close>

lemma update_where_twice:
  "(\<And>x. p (g x) = p x) \<Longrightarrow> update_where p f (update_where p g xs) = update_where p (\<lambda>x. f (g x)) xs"
  by (simp add: update_where_def comp_def)

lemma map_find_update_where:
  "(\<And>x. p (f x) = p x) \<Longrightarrow> (\<And>x. g (f x) = g x) \<Longrightarrow>
     map_option g (find p (update_where q f xs)) = map_option g (find p xs)"
  by (induction xs) (auto simp: update_where_Cons)

lemma map_update_where:
  "(\<And>x. p x \<Longrightarrow> g (f x) = g x) \<Longrightarrow> map g (update_where p f xs) = map g xs"
  by (induction xs) (auto simp: row_simps)

lemma filter_update_where:
  "(\<And>x. p x \<Longrightarrow> q (f x) = q x) \<Longrightarrow> filter q (update_where p f xs) = update_where p f (filter q xs)"
  by (induction xs) (auto simp: row_simps)

lemma filter_update_where_disjoint:
  "(\<And>x. p x \<Longrightarrow> \<not> q x) \<Longrightarrow> (\<And>x. p x \<Longrightarrow> \<not> q (f x)) \<Longrightarrow> filter q (update_where p f xs) = filter q xs"
  by (induction xs) (auto simp: row_simps)

lemma find_update_where:
  assumes "\<And>x. p x \<Longrightarrow> q (f x) = q x"
  shows "find q (update_where p f xs) = map_option (\<lambda>x. if p x then f x else x) (find q xs)"
  using assms by (induction xs) (auto simp: row_simps)

lemma find_set: "find p xs = Some x \<Longrightarrow> x \<in> set xs \<and> p x"
  by (metis find_Some_iff nth_mem)

lemma find_none: "find p xs = None \<Longrightarrow> x \<in> set xs \<Longrightarrow> \<not> p x"
  by (simp add: find_None_iff)

lemma find_append:
  "find p (xs @ ys) = (case find p xs of None \<Rightarrow> find p ys | Some x \<Rightarrow> Some x)"
  by (induction xs) auto

lemma find_unique_key:
  assumes "distinct (map k xs)" "x \<in> set xs"
  shows "find (\<lambda>y. k y = k x) xs = Some x"
  using assms by (induction xs) (auto simp: rev_image_eqI)

lemma filter_update_where_inside:
  "(\<And>x. x \<in> set xs \<Longrightarrow> p x \<Longrightarrow> q (f x) = q x) \<Longrightarrow> (\<And>x. x \<in> set xs \<Longrightarrow> p x \<Longrightarrow> \<not> q x) \<Longrightarrow> filter q (update_where p f xs) = filter q xs"
  by (induction xs) (auto simp: row_simps)

lemma at_most_one:
  assumes "distinct (map k xs)" "\<And>x. x \<in> set (filter p xs) \<Longrightarrow> k x = a"
  shows "length (filter p xs) \<le> 1"
proof -
  have "distinct (map k (filter p xs))" using assms(1) by (rule distinct_map_filter)
  moreover have "set (map k (filter p xs)) \<subseteq> {a}" using assms(2) by auto
  ultimately show ?thesis using card_mono[of "{a}" "set (map k (filter p xs))"] distinct_card[of "map k (filter p xs)"] by simp
qed

lemma filter_map_single:
  "distinct xs \<Longrightarrow> a \<in> set xs \<Longrightarrow> (\<And>x. x \<in> set xs \<Longrightarrow> Q (h x) \<longleftrightarrow> x = a) \<Longrightarrow> filter Q (map h xs) = [h a]"
proof (induction xs)
  case (Cons x xs)
  show ?case
  proof (cases "x = a")
    case True
    then have "filter Q (map h xs) = []" using Cons.prems by (auto simp: filter_empty_conv)
    then show ?thesis using True Cons.prems(3)[of x] by simp
  next
    case False
    then show ?thesis using Cons.IH Cons.prems by simp
  qed
qed simp

text \<open>Sums over a table and over one row of it.\<close>

lemma sum_where_Nil [simp]: "sum_where p f [] = 0"
  by (simp add: sum_where_def)

lemma sum_where_Cons: "sum_where p f (x # xs) = (if p x then f x else 0) + sum_where p f xs"
  by (simp add: sum_where_def)

lemma sum_where_append: "sum_where p f (xs @ ys) = sum_where p f xs + sum_where p f ys"
  by (simp add: sum_where_def)

lemma sum_where_nonneg: "(\<And>x. x \<in> set xs \<Longrightarrow> 0 \<le> f x) \<Longrightarrow> 0 \<le> sum_where p f xs"
  by (induction xs) (auto simp: sum_where_Cons)

lemma sum_where_cong:
  "(\<And>x. x \<in> set xs \<Longrightarrow> p x = q x) \<Longrightarrow> (\<And>x. x \<in> set xs \<Longrightarrow> p x \<Longrightarrow> f x = g x)
    \<Longrightarrow> sum_where p f xs = sum_where q g xs"
  by (induction xs) (auto simp: sum_where_Cons)

section \<open>Decimal text\<close>

fun show_nat :: "nat \<Rightarrow> string" where
  "show_nat n =
     (if n < 10 then [char_of (48 + n)] else show_nat (n div 10) @ [char_of (48 + n mod 10)])"

declare show_nat.simps [simp del]

definition padStart :: "nat \<Rightarrow> char \<Rightarrow> string \<Rightarrow> string" where
  "padStart n c s = replicate (n - length s) c @ s"

lemma length_padStart: "length (padStart n c s) = max n (length s)"
  by (simp add: padStart_def)

text \<open>\<open>data.companyId || null\<close>: the empty string is falsy, too.\<close>

definition or_null :: "ident option \<Rightarrow> ident option" where
  "or_null x = (case x of None \<Rightarrow> None | Some s \<Rightarrow> (if s = [] then None else Some s))"

section \<open>Writing one row of a keyed table\<close>

lemma update_where_key_split:
  assumes "distinct (map k xs)" "x \<in> set xs"
  obtains ys zs where "xs = ys @ x # zs" "update_where (\<lambda>y. k y = k x) g xs = ys @ g x # zs"
proof -
  obtain ys zs where xs: "xs = ys @ x # zs" using assms(2) by (meson split_list)
  have "update_where (\<lambda>y. k y = k x) g ys = ys" "update_where (\<lambda>y. k y = k x) g zs = zs"
    using assms(1) unfolding xs by (auto intro!: update_where_no_match simp: rev_image_eqI)
  then have "update_where (\<lambda>y. k y = k x) g xs = ys @ g x # zs"
    unfolding xs by (simp add: update_where_append update_where_Cons)
  with xs show ?thesis by (rule that)
qed

lemma sum_where_update_key:
  assumes "distinct (map k xs)" "x \<in> set xs"
  shows "sum_where p f (update_where (\<lambda>y. k y = k x) g xs) =
    sum_where p f xs - (if p x then f x else 0) + (if p (g x) then f (g x) else 0)"
proof -
  obtain ys zs where "xs = ys @ x # zs" "update_where (\<lambda>y. k y = k x) g xs = ys @ g x # zs"
    using update_where_key_split[OF assms] by blast
  then show ?thesis by (simp add: sum_where_append sum_where_Cons)
qed

lemma update_where_key_other:
  "x \<in> set xs \<Longrightarrow> k x \<noteq> v \<Longrightarrow> x \<in> set (update_where (\<lambda>y. k y = v) g xs)"
  by (force simp: set_update_where image_iff)

lemma foldl_invariant:
  assumes "P z" "\<And>z x. x \<in> set xs \<Longrightarrow> P z \<Longrightarrow> P (f z x)"
  shows "P (foldl f z xs)"
  using assms by (induction xs arbitrary: z) auto

end
