(* ===== verification/Ledger.thy ===== *)
theory Ledger
  imports Prelude
begin

text \<open>
  The double-entry ledger: \<open>LedgerService.recordTransaction\<close>
  (\<open>src/core/services/ledger.service.ts\<close>), the manual corrections built on it
  (\<open>ledger-correction.service.ts\<close>) and the reconciliation worker
  (\<open>src/job-workers/ledger-reconciliation.worker.ts\<close>).  The state is the tables
  \<open>LedgerAccount\<close>, \<open>FinancialTransaction\<close> and \<open>JournalEntry\<close> with the next values
  of their \<open>autoincrement()\<close> keys.
\<close>

section \<open>Data\<close>

datatype AccountType = ASSET | LIABILITY | REVENUE | EXPENSE | EQUITY

record ledger_account =
  la_id :: nat
  la_name :: string
  la_type :: AccountType
  la_balance :: decimal
  la_companyId :: "ident option"
  la_lastReconciledAt :: "time option"

record financial_tx =
  ft_id :: nat
  ft_reference :: string
  ft_description :: string

record journal_entry =
  je_transactionId :: nat
  je_ledgerAccountId :: nat
  je_debit :: decimal
  je_credit :: decimal
  je_reference :: string

record ledger =
  lg_accounts :: "ledger_account list"
  lg_transactions :: "financial_tx list"
  lg_journal :: "journal_entry list"
  lg_nextAccount :: nat
  lg_nextTransaction :: nat

definition empty_ledger :: ledger where
  "empty_ledger = \<lparr>lg_accounts = [], lg_transactions = [], lg_journal = [],
     lg_nextAccount = 1, lg_nextTransaction = 1\<rparr>"

text \<open>One element of \<open>data.entries\<close>; an absent \<open>debit\<close> or \<open>credit\<close> is \<open>None\<close>.\<close>

record ledger_entry =
  le_accountName :: string
  le_accountType :: AccountType
  le_debit :: "decimal option"
  le_credit :: "decimal option"

definition debit_entry :: "string \<Rightarrow> AccountType \<Rightarrow> decimal \<Rightarrow> ledger_entry" where
  "debit_entry n t d = \<lparr>le_accountName = n, le_accountType = t, le_debit = Some d, le_credit = None\<rparr>"

definition credit_entry :: "string \<Rightarrow> AccountType \<Rightarrow> decimal \<Rightarrow> ledger_entry" where
  "credit_entry n t c = \<lparr>le_accountName = n, le_accountType = t, le_debit = None, le_credit = Some c\<rparr>"

text \<open>\<open>entry.debit || 0\<close>.\<close>

definition or_zero :: "decimal option \<Rightarrow> decimal" where
  "or_zero x = (case x of None \<Rightarrow> 0 | Some d \<Rightarrow> d)"

lemma or_zero_simps [simp]: "or_zero None = 0" "or_zero (Some d) = d"
  by (simp_all add: or_zero_def)

section \<open>Recording a transaction\<close>

definition totalDebits :: "ledger_entry list \<Rightarrow> decimal" where
  "totalDebits es = foldl (\<lambda>acc e. acc + or_zero (le_debit e)) 0 es"

definition totalCredits :: "ledger_entry list \<Rightarrow> decimal" where
  "totalCredits es = foldl (\<lambda>acc e. acc + or_zero (le_credit e)) 0 es"

text \<open>The parent row: created on first use of the reference, else only re-described.\<close>

definition upsert_transaction :: "string \<Rightarrow> string \<Rightarrow> ledger \<Rightarrow> financial_tx \<times> ledger" where
  "upsert_transaction ref descr l =
     (case find (\<lambda>t. ft_reference t = ref) (lg_transactions l) of
        Some t \<Rightarrow>
          (let t' = t\<lparr>ft_description := descr\<rparr> in
           (t', l\<lparr>lg_transactions :=
              update_where (\<lambda>t. ft_reference t = ref) (ft_description_update (\<lambda>_. descr)) (lg_transactions l)\<rparr>))
      | None \<Rightarrow>
          (let t = \<lparr>ft_id = lg_nextTransaction l, ft_reference = ref, ft_description = descr\<rparr> in
           (t, l\<lparr>lg_transactions := lg_transactions l @ [t],
                 lg_nextTransaction := Suc (lg_nextTransaction l)\<rparr>)))"

text \<open>\<open>findFirst\<close> by name and company, or \<open>create\<close> with balance 0.\<close>

definition find_account :: "ident option \<Rightarrow> string \<Rightarrow> ledger \<Rightarrow> ledger_account option" where
  "find_account cid n l = find (\<lambda>a. la_name a = n \<and> la_companyId a = cid) (lg_accounts l)"

definition get_account ::
  "ident option \<Rightarrow> string \<Rightarrow> AccountType \<Rightarrow> ledger \<Rightarrow> ledger_account \<times> ledger" where
  "get_account cid n ty l =
     (case find_account cid n l of
        Some a \<Rightarrow> (a, l)
      | None \<Rightarrow>
          (let a = \<lparr>la_id = lg_nextAccount l, la_name = n, la_type = ty, la_balance = 0,
                    la_companyId = cid, la_lastReconciledAt = None\<rparr> in
           (a, l\<lparr>lg_accounts := lg_accounts l @ [a], lg_nextAccount := Suc (lg_nextAccount l)\<rparr>)))"

text \<open>The account-type-aware balance change.\<close>

fun balanceChange :: "AccountType \<Rightarrow> decimal \<Rightarrow> decimal \<Rightarrow> decimal" where
  "balanceChange ASSET d c = d - c"
| "balanceChange EXPENSE d c = d - c"
| "balanceChange LIABILITY d c = c - d"
| "balanceChange EQUITY d c = c - d"
| "balanceChange REVENUE d c = c - d"

definition lineRef :: "string \<Rightarrow> string \<Rightarrow> nat \<Rightarrow> ident \<Rightarrow> string" where
  "lineRef ref name index uuid =
     ref @ ''_'' @ name @ ''_'' @ padStart 3 CHR ''0'' (show_nat index) @ ''_'' @ take 8 uuid"

definition add_journal :: "journal_entry \<Rightarrow> ledger \<Rightarrow> ledger" where
  "add_journal j l = l\<lparr>lg_journal := lg_journal l @ [j]\<rparr>"

definition increment_balance :: "nat \<Rightarrow> decimal \<Rightarrow> ledger \<Rightarrow> ledger" where
  "increment_balance aid d l =
     l\<lparr>lg_accounts :=
         update_where (\<lambda>a. la_id a = aid) (\<lambda>a. a\<lparr>la_balance := la_balance a + d\<rparr>) (lg_accounts l)\<rparr>"

text \<open>One turn of the loop over \<open>data.entries.entries()\<close>.\<close>

definition post_entry ::
  "string \<Rightarrow> ident option \<Rightarrow> (nat \<Rightarrow> ident) \<Rightarrow> nat \<Rightarrow> nat \<Rightarrow> ledger_entry \<Rightarrow> ledger \<Rightarrow> ledger" where
  "post_entry ref cid uuid tid i e l =
     (let (a, l1) = get_account cid (le_accountName e) (le_accountType e) l;
          d = or_zero (le_debit e); c = or_zero (le_credit e);
          l2 = add_journal \<lparr>je_transactionId = tid, je_ledgerAccountId = la_id a,
                 je_debit = d, je_credit = c,
                 je_reference = lineRef ref (le_accountName e) i (uuid i)\<rparr> l1
      in increment_balance (la_id a) (balanceChange (la_type a) d c) l2)"

fun post_entries ::
  "string \<Rightarrow> ident option \<Rightarrow> (nat \<Rightarrow> ident) \<Rightarrow> nat \<Rightarrow> nat \<Rightarrow> ledger_entry list \<Rightarrow> ledger \<Rightarrow> ledger" where
  "post_entries ref cid uuid tid i [] l = l"
| "post_entries ref cid uuid tid i (e # es) l =
     post_entries ref cid uuid tid (Suc i) es (post_entry ref cid uuid tid i e l)"

definition recordTransaction ::
  "(nat \<Rightarrow> ident) \<Rightarrow> string \<Rightarrow> string \<Rightarrow> ident option \<Rightarrow> ledger_entry list \<Rightarrow> ledger
     \<Rightarrow> financial_tx res \<times> ledger" where
  "recordTransaction uuid ref descr companyId es l =
     (if totalDebits es \<noteq> totalCredits es
      then (Inl (PlainError ''Unbalanced Ledger Transaction''), l)
      else
        (let (t, l1) = upsert_transaction ref descr l in
         (Inr t, post_entries ref (or_null companyId) uuid (ft_id t) 0 es l1)))"

section \<open>Manual corrections\<close>

text \<open>
  \<open>postManualCorrection\<close>: the same balance test, answered with a 400 error, then a
  transaction under the reference \<open>CORR-<uuid>\<close>.
\<close>

definition postManualCorrection ::
  "(nat \<Rightarrow> ident) \<Rightarrow> ident \<Rightarrow> string \<Rightarrow> ident option \<Rightarrow> ledger_entry list \<Rightarrow> ledger
     \<Rightarrow> string res \<times> ledger" where
  "postManualCorrection uuid newId descr companyId es l =
     (if totalDebits es \<noteq> totalCredits es
      then (Inl (BadRequestError ''Correction is not balanced''), l)
      else
        (let ref = ''CORR-'' @ newId in
         case recordTransaction uuid ref descr companyId es l of
           (Inl e, l') \<Rightarrow> (Inl e, l')
         | (Inr t, l') \<Rightarrow> (Inr ref, l')))"

section \<open>Reconciliation\<close>

definition entries_of :: "ledger \<Rightarrow> nat \<Rightarrow> journal_entry list" where
  "entries_of l aid = filter (\<lambda>j. je_ledgerAccountId j = aid) (lg_journal l)"

definition computeCanonicalBalance :: "AccountType \<Rightarrow> journal_entry list \<Rightarrow> decimal" where
  "computeCanonicalBalance ty js =
     foldl (\<lambda>sum j. (case ty of
         ASSET \<Rightarrow> sum + je_debit j - je_credit j
       | EXPENSE \<Rightarrow> sum + je_debit j - je_credit j
       | LIABILITY \<Rightarrow> sum + je_credit j - je_debit j
       | EQUITY \<Rightarrow> sum + je_credit j - je_debit j
       | REVENUE \<Rightarrow> sum + je_credit j - je_debit j)) 0 js"

text \<open>The record written to the cache for each account.\<close>

record reconciliation_result =
  rr_accountId :: nat
  rr_accountName :: string
  rr_companyId :: "ident option"
  rr_storedBalance :: decimal
  rr_computedBalance :: decimal
  rr_discrepancy :: bool
  rr_corrected :: bool
  rr_reconciledAt :: time

record reconciliation_summary =
  rs_totalAccounts :: nat
  rs_discrepancies :: nat
  rs_reconciledAt :: time

definition reconcile_account :: "time \<Rightarrow> ledger \<Rightarrow> ledger_account \<Rightarrow> reconciliation_result" where
  "reconcile_account now l a =
     (let computed = computeCanonicalBalance (la_type a) (entries_of l (la_id a));
          bad = (computed \<noteq> la_balance a)
      in \<lparr>rr_accountId = la_id a, rr_accountName = la_name a, rr_companyId = la_companyId a,
          rr_storedBalance = la_balance a, rr_computedBalance = computed,
          rr_discrepancy = bad, rr_corrected = bad, rr_reconciledAt = now\<rparr>)"

text \<open>
  The update of one account: its balance and the time of the run when it had drifted, the time
  alone otherwise.
\<close>

definition write_back :: "reconciliation_result \<Rightarrow> ledger \<Rightarrow> ledger" where
  "write_back r l =
     l\<lparr>lg_accounts := update_where (\<lambda>b. la_id b = rr_accountId r)
         (if rr_discrepancy r
          then (\<lambda>b. b\<lparr>la_balance := rr_computedBalance r, la_lastReconciledAt := Some (rr_reconciledAt r)\<rparr>)
          else (\<lambda>b. b\<lparr>la_lastReconciledAt := Some (rr_reconciledAt r)\<rparr>)) (lg_accounts l)\<rparr>"

text \<open>
  The job: the accounts and their entries are read once (\<open>l0\<close>), then each account is
  compared and written back in turn.
\<close>

fun reconcile_loop ::
  "time \<Rightarrow> ledger \<Rightarrow> ledger_account list \<Rightarrow> ledger \<Rightarrow> ledger \<times> reconciliation_result list" where
  "reconcile_loop now l0 [] l = (l, [])"
| "reconcile_loop now l0 (a # as) l =
     (let r = reconcile_account now l0 a;
          (l', rs) = reconcile_loop now l0 as (write_back r l)
      in (l', r # rs))"

definition reconcile ::
  "time \<Rightarrow> ledger \<Rightarrow> ledger \<times> reconciliation_result list \<times> reconciliation_summary" where
  "reconcile now l =
     (let (l', rs) = reconcile_loop now l (lg_accounts l) l in
      (l', rs, \<lparr>rs_totalAccounts = length (lg_accounts l),
                rs_discrepancies = count_where rr_discrepancy rs, rs_reconciledAt = now\<rparr>))"

section \<open>Sums of entries\<close>

lemma totalDebits_sum: "totalDebits es = sum_list (map (or_zero \<circ> le_debit) es)"
proof -
  have "foldl (\<lambda>acc e. acc + or_zero (le_debit e)) z es = z + sum_list (map (or_zero \<circ> le_debit) es)" for z
    by (induction es arbitrary: z) (auto simp: add.assoc)
  then show ?thesis by (simp add: totalDebits_def)
qed

lemma totalCredits_sum: "totalCredits es = sum_list (map (or_zero \<circ> le_credit) es)"
proof -
  have "foldl (\<lambda>acc e. acc + or_zero (le_credit e)) z es = z + sum_list (map (or_zero \<circ> le_credit) es)" for z
    by (induction es arbitrary: z) (auto simp: add.assoc)
  then show ?thesis by (simp add: totalCredits_def)
qed

lemma canonical_sum:
  "computeCanonicalBalance ty js = sum_list (map (\<lambda>j. balanceChange ty (je_debit j) (je_credit j)) js)"
proof -
  have "foldl (\<lambda>sum j. (case ty of ASSET \<Rightarrow> sum + je_debit j - je_credit j
       | EXPENSE \<Rightarrow> sum + je_debit j - je_credit j
       | LIABILITY \<Rightarrow> sum + je_credit j - je_debit j
       | EQUITY \<Rightarrow> sum + je_credit j - je_debit j
       | REVENUE \<Rightarrow> sum + je_credit j - je_debit j)) z js
     = z + sum_list (map (\<lambda>j. balanceChange ty (je_debit j) (je_credit j)) js)" for z
    by (induction js arbitrary: z) (cases ty; simp add: algebra_simps)+
  then show ?thesis by (simp add: computeCanonicalBalance_def)
qed

lemma totals_simps [simp]:
  "totalDebits [] = 0" "totalCredits [] = 0"
  "totalDebits (e # es) = or_zero (le_debit e) + totalDebits es"
  "totalCredits (e # es) = or_zero (le_credit e) + totalCredits es"
  "totalDebits (es @ fs) = totalDebits es + totalDebits fs"
  "totalCredits (es @ fs) = totalCredits es + totalCredits fs"
  by (simp_all add: totalDebits_sum totalCredits_sum)

lemma leg_simps [simp]:
  "le_debit (debit_entry n t d) = Some d" "le_credit (debit_entry n t d) = None"
  "le_debit (credit_entry n t d) = None" "le_credit (credit_entry n t d) = Some d"
  "le_accountName (debit_entry n t d) = n" "le_accountName (credit_entry n t d) = n"
  "le_accountType (debit_entry n t d) = t" "le_accountType (credit_entry n t d) = t"
  by (simp_all add: debit_entry_def credit_entry_def)

section \<open>The invariant of the books\<close>

text \<open>
  Account keys are distinct and below the next key; there is one account per name and company;
  every journal line names an account; every stored balance is the one its lines give.
\<close>

definition books_ok :: "ledger \<Rightarrow> bool" where
  "books_ok l \<longleftrightarrow>
     distinct (map la_id (lg_accounts l)) \<and>
     (\<forall>a \<in> set (lg_accounts l). la_id a < lg_nextAccount l) \<and>
     distinct (map (\<lambda>a. (la_name a, la_companyId a)) (lg_accounts l)) \<and>
     (\<forall>j \<in> set (lg_journal l). je_ledgerAccountId j \<in> la_id ` set (lg_accounts l)) \<and>
     (\<forall>a \<in> set (lg_accounts l).
        la_balance a = computeCanonicalBalance (la_type a) (entries_of l (la_id a)))"

text \<open>Over the whole journal, debits equal credits.\<close>

definition trial_balanced :: "ledger \<Rightarrow> bool" where
  "trial_balanced l \<longleftrightarrow> sum_list (map je_debit (lg_journal l)) = sum_list (map je_credit (lg_journal l))"

definition line_net :: "journal_entry \<Rightarrow> decimal" where
  "line_net j = je_debit j - je_credit j"

text \<open>The net debit position of an account, by company and name.\<close>

definition net_debit :: "ledger \<Rightarrow> ident option \<Rightarrow> string \<Rightarrow> decimal" where
  "net_debit l cid n =
     (case find_account cid n l of None \<Rightarrow> 0
      | Some a \<Rightarrow> sum_list (map line_net (entries_of l (la_id a))))"

definition entries_net :: "string \<Rightarrow> ledger_entry list \<Rightarrow> decimal" where
  "entries_net n es =
     sum_list (map (\<lambda>e. or_zero (le_debit e) - or_zero (le_credit e)) (filter (\<lambda>e. le_accountName e = n) es))"

lemma entries_net_simps [simp]:
  "entries_net n [] = 0"
  "entries_net n (e # es) =
     (if le_accountName e = n then or_zero (le_debit e) - or_zero (le_credit e) else 0) + entries_net n es"
  "entries_net n (es @ fs) = entries_net n es + entries_net n fs"
  by (simp_all add: entries_net_def)

lemma books_ok_empty: "books_ok empty_ledger"
  by (simp add: books_ok_def empty_ledger_def)

section \<open>Opening an account\<close>

lemma find_account_some:
  "find_account cid n l = Some a \<Longrightarrow> a \<in> set (lg_accounts l) \<and> la_name a = n \<and> la_companyId a = cid"
  unfolding find_account_def by (drule find_set) simp

lemma find_account_unique:
  assumes "books_ok l" "a \<in> set (lg_accounts l)"
  shows "find_account (la_companyId a) (la_name a) l = Some a"
proof -
  have "find (\<lambda>b. (la_name b, la_companyId b) = (la_name a, la_companyId a)) (lg_accounts l) = Some a"
    using assms by (intro find_unique_key) (auto simp: books_ok_def)
  then show ?thesis by (simp add: find_account_def)
qed

lemma entries_of_fresh:
  assumes "books_ok l" "\<not> aid < lg_nextAccount l"
  shows "entries_of l aid = []"
proof -
  have "je_ledgerAccountId j < lg_nextAccount l" if "j \<in> set (lg_journal l)" for j
    using assms(1) that by (force simp: books_ok_def)
  with assms(2) show ?thesis by (auto simp: entries_of_def filter_empty_conv)
qed

lemma get_account_found [simp]:
  "find_account cid n l = Some a \<Longrightarrow> get_account cid n ty l = (a, l)"
  by (simp add: get_account_def)

definition new_account :: "ident option \<Rightarrow> string \<Rightarrow> AccountType \<Rightarrow> ledger \<Rightarrow> ledger_account" where
  "new_account cid n ty l = \<lparr>la_id = lg_nextAccount l, la_name = n, la_type = ty, la_balance = 0,
     la_companyId = cid, la_lastReconciledAt = None\<rparr>"

definition open_account :: "ident option \<Rightarrow> string \<Rightarrow> AccountType \<Rightarrow> ledger \<Rightarrow> ledger" where
  "open_account cid n ty l = l\<lparr>lg_accounts := lg_accounts l @ [new_account cid n ty l],
     lg_nextAccount := Suc (lg_nextAccount l)\<rparr>"

lemma get_account_new [simp]:
  "find_account cid n l = None \<Longrightarrow>
     get_account cid n ty l = (new_account cid n ty l, open_account cid n ty l)"
  by (simp add: get_account_def new_account_def open_account_def Let_def)

lemma entries_of_open [simp]: "entries_of (open_account cid n ty l) aid = entries_of l aid"
  by (simp add: entries_of_def open_account_def)

lemma books_ok_open:
  assumes "books_ok l" "find_account cid n l = None"
  shows "books_ok (open_account cid n ty l)"
proof -
  have fresh: "(n, cid) \<notin> (\<lambda>a. (la_name a, la_companyId a)) ` set (lg_accounts l)"
    using assms(2) unfolding find_account_def by (auto simp: find_None_iff)
  have no_entries: "entries_of l (lg_nextAccount l) = []"
    using assms(1) by (rule entries_of_fresh) simp
  have accts: "lg_accounts (open_account cid n ty l) = lg_accounts l @ [new_account cid n ty l]"
    and nxt: "lg_nextAccount (open_account cid n ty l) = Suc (lg_nextAccount l)"
    and jrn: "lg_journal (open_account cid n ty l) = lg_journal l"
    and new: "la_id (new_account cid n ty l) = lg_nextAccount l"
      "la_balance (new_account cid n ty l) = 0"
      "(la_name (new_account cid n ty l), la_companyId (new_account cid n ty l)) = (n, cid)"
    by (simp_all add: open_account_def new_account_def)
  show ?thesis
    using assms(1) fresh no_entries unfolding books_ok_def accts nxt jrn
    by (auto simp: new canonical_sum less_Suc_eq)
qed

lemma find_account_open:
  assumes "find_account cid n l = None"
  shows "find_account cid' n' (open_account cid n ty l) =
     (if cid' = cid \<and> n' = n then Some (new_account cid n ty l) else find_account cid' n' l)"
  using assms
  by (auto simp: find_account_def open_account_def new_account_def find_append split: option.splits)

lemma net_debit_open:
  assumes "books_ok l" "find_account cid n l = None"
  shows "net_debit (open_account cid n ty l) cid' n' = net_debit l cid' n'"
proof -
  have "entries_of l (la_id (new_account cid n ty l)) = []"
    using assms(1) by (rule entries_of_fresh) (simp add: new_account_def)
  then show ?thesis
    by (simp add: net_debit_def find_account_open[OF assms(2)] assms(2) split: option.splits)
qed

text \<open>What \<open>get_account\<close> gives the loop body.\<close>

lemma get_account_spec:
  assumes "books_ok l" "get_account cid n ty l = (a, l1)"
  shows "books_ok l1" "a \<in> set (lg_accounts l1)" "la_name a = n" "la_companyId a = cid"
    "lg_journal l1 = lg_journal l" "net_debit l1 cid' n' = net_debit l cid' n'"
    "lg_transactions l1 = lg_transactions l"
proof -
  show "books_ok l1" "a \<in> set (lg_accounts l1)" "la_name a = n" "la_companyId a = cid"
    "lg_journal l1 = lg_journal l" "net_debit l1 cid' n' = net_debit l cid' n'"
    "lg_transactions l1 = lg_transactions l"
    using assms
    by (cases "find_account cid n l";
        auto simp: books_ok_open net_debit_open dest: find_account_some;
        simp add: open_account_def new_account_def)+
qed

section \<open>Posting a line\<close>

definition post_line :: "ledger_account \<Rightarrow> journal_entry \<Rightarrow> ledger \<Rightarrow> ledger" where
  "post_line a j l =
     increment_balance (la_id a) (balanceChange (la_type a) (je_debit j) (je_credit j)) (add_journal j l)"

lemma post_entry_eq:
  "post_entry ref cid uuid tid i e l =
     (case get_account cid (le_accountName e) (le_accountType e) l of (a, l1) \<Rightarrow>
        post_line a \<lparr>je_transactionId = tid, je_ledgerAccountId = la_id a,
           je_debit = or_zero (le_debit e), je_credit = or_zero (le_credit e),
           je_reference = lineRef ref (le_accountName e) i (uuid i)\<rparr> l1)"
  by (simp add: post_entry_def post_line_def Let_def split: prod.splits)

lemma post_line_fields [simp]:
  "lg_journal (post_line a j l) = lg_journal l @ [j]"
  "lg_transactions (post_line a j l) = lg_transactions l"
  "lg_nextAccount (post_line a j l) = lg_nextAccount l"
  "lg_accounts (post_line a j l) = update_where (\<lambda>b. la_id b = la_id a)
     (\<lambda>b. b\<lparr>la_balance := la_balance b + balanceChange (la_type a) (je_debit j) (je_credit j)\<rparr>) (lg_accounts l)"
  by (simp_all add: post_line_def increment_balance_def add_journal_def)

lemma map_key_post_line [simp]:
  "map la_id (lg_accounts (post_line a j l)) = map la_id (lg_accounts l)"
  "map (\<lambda>a. (la_name a, la_companyId a)) (lg_accounts (post_line a j l))
     = map (\<lambda>a. (la_name a, la_companyId a)) (lg_accounts l)"
  by (simp_all, rule map_update_where, simp, rule map_update_where, simp)

lemma books_ok_post_line:
  assumes ok: "books_ok l" and a: "a \<in> set (lg_accounts l)" and j: "je_ledgerAccountId j = la_id a"
  shows "books_ok (post_line a j l)"
proof -
  have ids: "distinct (map la_id (lg_accounts l))" using ok by (simp add: books_ok_def)
  have same: "b = a" if "b \<in> set (lg_accounts l)" "la_id b = la_id a" for b
    using ids a that by (metis distinct_map inj_on_eq_iff)
  have img: "la_id ` set (lg_accounts (post_line a j l)) = la_id ` set (lg_accounts l)"
    using map_key_post_line(1)[of a j l] by (metis list.set_map)
  have ent: "entries_of (post_line a j l) aid = entries_of l aid @ (if aid = la_id a then [j] else [])" for aid
    using j by (simp add: entries_of_def)
  have bal: "la_balance b = computeCanonicalBalance (la_type b) (entries_of (post_line a j l) (la_id b))"
    if b_in: "b \<in> set (lg_accounts (post_line a j l))" for b
  proof -
    obtain c where c: "c \<in> set (lg_accounts l)"
      and b: "b = (if la_id c = la_id a
        then c\<lparr>la_balance := la_balance c + balanceChange (la_type a) (je_debit j) (je_credit j)\<rparr> else c)"
      using b_in by (auto simp: set_update_where)
    have "la_balance c = computeCanonicalBalance (la_type c) (entries_of l (la_id c))"
      using ok c by (simp add: books_ok_def)
    with b same[OF c] show ?thesis
      by (cases "la_id c = la_id a") (simp_all add: ent canonical_sum)
  qed
  have lt: "\<forall>b \<in> set (lg_accounts (post_line a j l)). la_id b < lg_nextAccount (post_line a j l)"
  proof
    fix b assume "b \<in> set (lg_accounts (post_line a j l))"
    then have "la_id b \<in> la_id ` set (lg_accounts l)" by (metis imageI img)
    then show "la_id b < lg_nextAccount (post_line a j l)" using ok by (auto simp: books_ok_def)
  qed
  have jrn: "\<forall>k \<in> set (lg_journal (post_line a j l)).
      je_ledgerAccountId k \<in> la_id ` set (lg_accounts (post_line a j l))"
    unfolding img using ok a j by (auto simp: books_ok_def)
  show ?thesis
    unfolding books_ok_def
    using ok bal lt jrn map_key_post_line[of a j l] by (simp only: books_ok_def) blast
qed

lemma net_debit_post_line:
  assumes ok: "books_ok l" and a: "a \<in> set (lg_accounts l)" and j: "je_ledgerAccountId j = la_id a"
  shows "net_debit (post_line a j l) cid n =
    net_debit l cid n + (if la_name a = n \<and> la_companyId a = cid then line_net j else 0)"
proof -
  have fa: "find_account cid n (post_line a j l) = map_option
      (\<lambda>b. if la_id b = la_id a
        then b\<lparr>la_balance := la_balance b + balanceChange (la_type a) (je_debit j) (je_credit j)\<rparr> else b)
      (find_account cid n l)"
    unfolding find_account_def post_line_fields(4) by (rule find_update_where) simp
  have ent: "entries_of (post_line a j l) aid = entries_of l aid @ (if aid = la_id a then [j] else [])" for aid
    using j by (simp add: entries_of_def)
  have own: "find_account cid n l = Some a" if "la_name a = n" "la_companyId a = cid"
    using find_account_unique[OF ok a] that by simp
  have other: "la_id b \<noteq> la_id a"
    if "find_account cid n l = Some b" "\<not> (la_name a = n \<and> la_companyId a = cid)" for b
    using that ok a by (auto simp: books_ok_def dest!: find_account_some inj_onD[OF iffD1[OF distinct_map, THEN conjunct2]])
  show ?thesis
  proof (cases "la_name a = n \<and> la_companyId a = cid")
    case True
    with own show ?thesis by (simp add: net_debit_def fa ent)
  next
    case False
    with other show ?thesis
      by (cases "find_account cid n l") (auto simp: net_debit_def fa ent)
  qed
qed

section \<open>Posting all lines\<close>

lemma post_entry_spec:
  assumes "books_ok l"
  shows "books_ok (post_entry ref cid uuid tid i e l)"
    "net_debit (post_entry ref cid uuid tid i e l) cid' n = net_debit l cid' n +
       (if le_accountName e = n \<and> cid = cid' then or_zero (le_debit e) - or_zero (le_credit e) else 0)"
    "sum_list (map line_net (lg_journal (post_entry ref cid uuid tid i e l))) =
       sum_list (map line_net (lg_journal l)) + or_zero (le_debit e) - or_zero (le_credit e)"
    "lg_transactions (post_entry ref cid uuid tid i e l) = lg_transactions l"
proof -
  obtain a l1 where g: "get_account cid (le_accountName e) (le_accountType e) l = (a, l1)" by force
  note spec = get_account_spec[OF assms g]
  show "books_ok (post_entry ref cid uuid tid i e l)"
    unfolding post_entry_eq g prod.case by (rule books_ok_post_line[OF spec(1,2)]) simp
  show "net_debit (post_entry ref cid uuid tid i e l) cid' n = net_debit l cid' n +
       (if le_accountName e = n \<and> cid = cid' then or_zero (le_debit e) - or_zero (le_credit e) else 0)"
    unfolding post_entry_eq g prod.case
    by (subst net_debit_post_line[OF spec(1,2)]) (simp_all add: spec line_net_def)
  show "sum_list (map line_net (lg_journal (post_entry ref cid uuid tid i e l))) =
       sum_list (map line_net (lg_journal l)) + or_zero (le_debit e) - or_zero (le_credit e)"
    by (simp add: post_entry_eq g spec line_net_def)
  show "lg_transactions (post_entry ref cid uuid tid i e l) = lg_transactions l"
    by (simp add: post_entry_eq g spec)
qed

lemma post_entries_spec:
  assumes "books_ok l"
  shows "books_ok (post_entries ref cid uuid tid i es l)"
    "net_debit (post_entries ref cid uuid tid i es l) cid' n =
       net_debit l cid' n + (if cid = cid' then entries_net n es else 0)"
    "sum_list (map line_net (lg_journal (post_entries ref cid uuid tid i es l))) =
       sum_list (map line_net (lg_journal l)) + totalDebits es - totalCredits es"
    "lg_transactions (post_entries ref cid uuid tid i es l) = lg_transactions l"
  using assms
  by (induction es arbitrary: i l) (auto simp: post_entry_spec)

lemma upsert_transaction_frame:
  assumes "upsert_transaction ref descr l = (t, l1)"
  shows "lg_accounts l1 = lg_accounts l" "lg_journal l1 = lg_journal l"
    "lg_nextAccount l1 = lg_nextAccount l"
  using assms by (auto simp: upsert_transaction_def Let_def split: option.splits)

lemma books_ok_cong:
  "lg_accounts l1 = lg_accounts l \<Longrightarrow> lg_journal l1 = lg_journal l \<Longrightarrow> lg_nextAccount l1 = lg_nextAccount l
    \<Longrightarrow> books_ok l1 = books_ok l"
  by (simp add: books_ok_def entries_of_def)

lemma net_debit_cong:
  "lg_accounts l1 = lg_accounts l \<Longrightarrow> lg_journal l1 = lg_journal l \<Longrightarrow> net_debit l1 cid n = net_debit l cid n"
  by (simp add: net_debit_def find_account_def entries_of_def split: option.splits)

text \<open>The ledger after \<open>recordTransaction\<close>, whatever it answered.\<close>

definition posted ::
  "(nat \<Rightarrow> ident) \<Rightarrow> string \<Rightarrow> string \<Rightarrow> ident option \<Rightarrow> ledger_entry list \<Rightarrow> ledger \<Rightarrow> ledger" where
  "posted uuid ref descr cid es l = snd (recordTransaction uuid ref descr cid es l)"

lemma recordTransaction_ok_iff:
  "ok (fst (recordTransaction uuid ref descr cid es l)) \<longleftrightarrow> totalDebits es = totalCredits es"
  by (simp add: recordTransaction_def split: prod.splits)

lemma posted_rejected [simp]:
  "totalDebits es \<noteq> totalCredits es \<Longrightarrow> posted uuid ref descr cid es l = l"
  by (simp add: posted_def recordTransaction_def)

lemma posted_spec:
  assumes "books_ok l" "totalDebits es = totalCredits es"
  shows "books_ok (posted uuid ref descr cid es l)"
    "net_debit (posted uuid ref descr cid es l) cid' n =
       net_debit l cid' n + (if or_null cid = cid' then entries_net n es else 0)"
    "sum_list (map line_net (lg_journal (posted uuid ref descr cid es l))) =
       sum_list (map line_net (lg_journal l))"
proof -
  obtain t l1 where u: "upsert_transaction ref descr l = (t, l1)" by force
  note fr = upsert_transaction_frame[OF u]
  have ok1: "books_ok l1" using assms(1) books_ok_cong[OF fr] by simp
  have p: "posted uuid ref descr cid es l = post_entries ref (or_null cid) uuid (ft_id t) 0 es l1"
    using assms(2) by (simp add: posted_def recordTransaction_def u)
  show "books_ok (posted uuid ref descr cid es l)"
    unfolding p by (rule post_entries_spec[OF ok1])
  show "net_debit (posted uuid ref descr cid es l) cid' n =
       net_debit l cid' n + (if or_null cid = cid' then entries_net n es else 0)"
    unfolding p post_entries_spec(2)[OF ok1] using net_debit_cong[OF fr(1,2)] by simp
  show "sum_list (map line_net (lg_journal (posted uuid ref descr cid es l))) =
       sum_list (map line_net (lg_journal l))"
    unfolding p post_entries_spec(3)[OF ok1] using fr assms(2) by simp
qed

lemma books_ok_posted [inv_intros]: "books_ok l \<Longrightarrow> books_ok (posted uuid ref descr cid es l)"
  by (cases "totalDebits es = totalCredits es") (auto simp: posted_spec)

lemma line_net_sum: "sum_list (map line_net js) = sum_list (map je_debit js) - sum_list (map je_credit js)"
  by (induction js) (auto simp: line_net_def)

lemma trial_balanced_iff: "trial_balanced l \<longleftrightarrow> sum_list (map line_net (lg_journal l)) = 0"
  by (auto simp: trial_balanced_def line_net_sum)

lemma trial_balanced_posted [inv_intros]:
  assumes "books_ok l" "trial_balanced l"
  shows "trial_balanced (posted uuid ref descr cid es l)"
  using assms
  by (cases "totalDebits es = totalCredits es") (auto simp: trial_balanced_iff posted_spec)

section \<open>The interface other components use\<close>

text \<open>
  What a component that moves money relies on: posting keeps the invariant, an unbalanced
  posting changes nothing, and a balanced one moves the net position of each account of its
  company by exactly its entries.  \<open>'k\<close> is whatever labels a posting (reference,
  description, identifiers).
\<close>

locale ledger_book =
  fixes inv :: "'b \<Rightarrow> bool"
    and post :: "'k \<Rightarrow> ident option \<Rightarrow> ledger_entry list \<Rightarrow> 'b \<Rightarrow> 'b"
    and net :: "'b \<Rightarrow> ident option \<Rightarrow> string \<Rightarrow> decimal"
  assumes inv_post: "inv b \<Longrightarrow> inv (post k c es b)"
    and post_unbalanced: "totalDebits es \<noteq> totalCredits es \<Longrightarrow> post k c es b = b"
    and net_post: "inv b \<Longrightarrow> totalDebits es = totalCredits es \<Longrightarrow>
      net (post k c es b) c' n = net b c' n + (if or_null c = c' then entries_net n es else 0)"
begin

lemma net_two_legs:
  assumes "inv b"
  shows "net (post k c [debit_entry A tA x, credit_entry B tB x] b) c' n =
    net b c' n + (if or_null c = c' then (if n = A then x else 0) - (if n = B then x else 0) else 0)"
  using net_post[OF assms, of "[debit_entry A tA x, credit_entry B tB x]"] by auto

lemma net_two_legs_other:
  assumes "inv b" "n \<noteq> A" "n \<noteq> B"
  shows "net (post k c [debit_entry A tA x, credit_entry B tB x] b) c' n = net b c' n"
  using net_two_legs[OF assms(1)] assms(2,3) by simp

text \<open>A transfer followed by its reversal leaves every position where it was.\<close>

lemma net_reversal:
  assumes "inv b"
  shows "net (post k' c [debit_entry B tB' x, credit_entry A tA' x]
           (post k c [debit_entry A tA x, credit_entry B tB x] b)) c' n = net b c' n"
  using net_two_legs[OF inv_post[OF assms]] net_two_legs[OF assms] by auto

text \<open>Two transfers \<open>A \<rightarrow> B\<close> and \<open>B \<rightarrow> C\<close> net out to one transfer from \<open>A\<close> to \<open>C\<close>.\<close>

lemma net_chain:
  assumes "inv b"
  shows "net (post k' c [debit_entry B tB' x, credit_entry C tC x]
           (post k c [debit_entry A tA x, credit_entry B tB x] b)) c' n =
    net b c' n + (if or_null c = c' then (if n = A then x else 0) - (if n = C then x else 0) else 0)"
  using net_two_legs[OF inv_post[OF assms]] net_two_legs[OF assms] by auto

end

type_synonym posting_label = "(nat \<Rightarrow> ident) \<times> string \<times> string"

fun post_labelled :: "posting_label \<Rightarrow> ident option \<Rightarrow> ledger_entry list \<Rightarrow> ledger \<Rightarrow> ledger" where
  "post_labelled (uuid, ref, descr) c es l = posted uuid ref descr c es l"

interpretation lb: ledger_book books_ok post_labelled net_debit
proof (unfold_locales, goal_cases)
  case (1 b k c es)
  then show ?case by (cases k) (simp add: books_ok_posted)
next
  case (2 es k c b)
  then show ?case by (cases k) simp
next
  case (3 b es k c c' n)
  then show ?case by (cases k) (simp add: posted_spec)
qed

section \<open>Reconciliation\<close>

lemma distinct_find: "distinct (map la_id as) \<Longrightarrow> a \<in> set as \<Longrightarrow> b \<in> set as \<Longrightarrow> la_id a = la_id b \<Longrightarrow> a = b"
  by (metis distinct_map inj_on_eq_iff)

lemma write_back_frame [simp]:
  "lg_journal (write_back r l) = lg_journal l" "lg_nextAccount (write_back r l) = lg_nextAccount l"
  "lg_transactions (write_back r l) = lg_transactions l"
  "entries_of (write_back r l) aid = entries_of l aid"
  by (simp_all add: write_back_def entries_of_def)

definition reconciled_row :: "time \<Rightarrow> ledger \<Rightarrow> ledger_account \<Rightarrow> ledger_account" where
  "reconciled_row now l a =
     a\<lparr>la_balance := computeCanonicalBalance (la_type a) (entries_of l (la_id a)),
       la_lastReconciledAt := Some now\<rparr>"

lemma write_back_accounts:
  assumes "distinct (map la_id (xs @ a # ys))" "lg_accounts l = xs @ a # ys"
  shows "lg_accounts (write_back (reconcile_account now l0 a) l) = xs @ reconciled_row now l0 a # ys"
  using assms
  by (auto simp: write_back_def reconcile_account_def Let_def update_where_append update_where_Cons
      reconciled_row_def image_iff intro!: update_where_no_match)

lemma reconcile_loop_spec:
  assumes "distinct (map la_id (xs @ as))" "lg_accounts l = xs @ as" "reconcile_loop now l0 as l = (l', rs)"
  shows "lg_accounts l' = xs @ map (reconciled_row now l0) as \<and> lg_journal l' = lg_journal l
    \<and> lg_nextAccount l' = lg_nextAccount l \<and> lg_transactions l' = lg_transactions l
    \<and> rs = map (reconcile_account now l0) as"
  using assms
proof (induction as arbitrary: xs l l' rs)
  case Nil
  then show ?case by simp
next
  case (Cons a as)
  let ?l = "write_back (reconcile_account now l0 a) l"
  obtain rs' where rec: "reconcile_loop now l0 as ?l = (l', rs')"
    and rs: "rs = reconcile_account now l0 a # rs'"
    using Cons.prems(3) by (auto simp: Let_def split: prod.splits)
  have acc: "lg_accounts ?l = (xs @ [reconciled_row now l0 a]) @ as"
    using write_back_accounts[OF Cons.prems(1,2)] by simp
  have "distinct (map la_id ((xs @ [reconciled_row now l0 a]) @ as))"
    using Cons.prems(1) by (simp add: reconciled_row_def)
  from Cons.IH[OF this acc rec] rs show ?case by simp
qed

lemma reconcile_spec:
  assumes "distinct (map la_id (lg_accounts l))" "reconcile now l = (l', rs, sm)"
  shows "lg_accounts l' = map (reconciled_row now l) (lg_accounts l)" "lg_journal l' = lg_journal l"
    "lg_nextAccount l' = lg_nextAccount l" "lg_transactions l' = lg_transactions l"
    "rs = map (reconcile_account now l) (lg_accounts l)"
    "rs_discrepancies sm = count_where rr_discrepancy rs" "rs_totalAccounts sm = length (lg_accounts l)"
proof -
  obtain l1 rs1 where r: "reconcile_loop now l (lg_accounts l) l = (l1, rs1)" by force
  have e: "l' = l1" "rs = rs1" and s: "rs_discrepancies sm = count_where rr_discrepancy rs"
    "rs_totalAccounts sm = length (lg_accounts l)"
    using assms(2) by (auto simp: reconcile_def r)
  from reconcile_loop_spec[of "[]", simplified, OF assms(1) refl r] e s
  show "lg_accounts l' = map (reconciled_row now l) (lg_accounts l)" "lg_journal l' = lg_journal l"
    "lg_nextAccount l' = lg_nextAccount l" "lg_transactions l' = lg_transactions l"
    "rs = map (reconcile_account now l) (lg_accounts l)"
    "rs_discrepancies sm = count_where rr_discrepancy rs" "rs_totalAccounts sm = length (lg_accounts l)"
    by auto
qed

lemma reconciled_row_simps [simp]:
  "la_id (reconciled_row now l a) = la_id a" "la_name (reconciled_row now l a) = la_name a"
  "la_type (reconciled_row now l a) = la_type a" "la_companyId (reconciled_row now l a) = la_companyId a"
  "la_balance (reconciled_row now l a) = computeCanonicalBalance (la_type a) (entries_of l (la_id a))"
  by (simp_all add: reconciled_row_def)

lemma books_ok_reconcile [inv_intros]:
  assumes "books_ok l"
  shows "books_ok (fst (reconcile now l))"
proof -
  obtain l' rs sm where r: "reconcile now l = (l', rs, sm)" by (cases "reconcile now l") auto
  have d: "distinct (map la_id (lg_accounts l))" using assms by (simp add: books_ok_def)
  note spec = reconcile_spec[OF d r]
  have ent: "entries_of l' aid = entries_of l aid" for aid by (simp add: entries_of_def spec)
  have "books_ok l'"
    using assms unfolding books_ok_def spec ent by (auto simp: comp_def image_image)
  then show ?thesis by (simp add: r)
qed

section \<open>The accounting equation\<close>

fun debit_normal :: "AccountType \<Rightarrow> bool" where
  "debit_normal ASSET = True"
| "debit_normal EXPENSE = True"
| "debit_normal LIABILITY = False"
| "debit_normal EQUITY = False"
| "debit_normal REVENUE = False"

lemma balanceChange_net: "balanceChange ty d c = (if debit_normal ty then d - c else - (d - c))"
  by (cases ty) auto

lemma canonical_net:
  "computeCanonicalBalance ty js =
     (if debit_normal ty then sum_list (map line_net js) else - sum_list (map line_net js))"
proof -
  have l: "line_net = (\<lambda>j. je_debit j - je_credit j)" by (auto simp: line_net_def)
  show ?thesis
    by (induction js) (auto simp: canonical_sum balanceChange_net l)
qed

lemma sum_list_single:
  "distinct (map k as) \<Longrightarrow> v \<in> k ` set as \<Longrightarrow>
     sum_list (map (\<lambda>a. if k a = v then x else 0) as) = (x :: decimal)"
proof (induction as)
  case (Cons a as)
  show ?case
  proof (cases "k a = v")
    case True
    with Cons.prems(1) have m: "map (\<lambda>a. if k a = v then x else 0) as = map (\<lambda>a. 0) as"
      by (auto simp: image_iff)
    have "sum_list (map (\<lambda>a. if k a = v then x else 0) as) = 0" by (subst m) simp
    with True show ?thesis by simp
  next
    case False
    with Cons show ?thesis by auto
  qed
qed simp

lemma sum_by_account:
  assumes "distinct (map la_id as)" "\<forall>j \<in> set js. je_ledgerAccountId j \<in> la_id ` set as"
  shows "sum_list (map (\<lambda>a. sum_list (map line_net (filter (\<lambda>j. je_ledgerAccountId j = la_id a) js))) as)
    = sum_list (map line_net js)"
  using assms(2)
proof (induction js)
  case (Cons j js)
  have "sum_list (map (\<lambda>a. sum_list (map line_net (filter (\<lambda>i. je_ledgerAccountId i = la_id a) (j # js)))) as)
    = sum_list (map (\<lambda>a. (if la_id a = je_ledgerAccountId j then line_net j else 0)
        + sum_list (map line_net (filter (\<lambda>i. je_ledgerAccountId i = la_id a) js))) as)"
    by (rule arg_cong[where f = sum_list], rule map_cong) auto
  also have "\<dots> = line_net j + sum_list (map line_net js)"
    using Cons sum_list_single[OF assms(1)] by (simp add: sum_list_addf)
  finally show ?case by simp
qed simp

definition debit_side :: "ledger \<Rightarrow> decimal" where
  "debit_side l = sum_where (\<lambda>a. debit_normal (la_type a)) la_balance (lg_accounts l)"

definition credit_side :: "ledger \<Rightarrow> decimal" where
  "credit_side l = sum_where (\<lambda>a. \<not> debit_normal (la_type a)) la_balance (lg_accounts l)"

lemma sides_difference:
  assumes "books_ok l"
  shows "debit_side l - credit_side l = sum_list (map line_net (lg_journal l))"
proof -
  have "sum_where (\<lambda>a. debit_normal (la_type a)) la_balance as - sum_where (\<lambda>a. \<not> debit_normal (la_type a)) la_balance as
      = sum_list (map (\<lambda>a. if debit_normal (la_type a) then la_balance a else - la_balance a) as)" for as
    by (induction as) (auto simp: sum_where_Cons)
  then have "debit_side l - credit_side l =
      sum_list (map (\<lambda>a. if debit_normal (la_type a) then la_balance a else - la_balance a) (lg_accounts l))"
    by (simp add: debit_side_def credit_side_def)
  also have "\<dots> = sum_list (map (\<lambda>a. sum_list (map line_net (entries_of l (la_id a)))) (lg_accounts l))"
    using assms by (intro arg_cong[where f = sum_list] map_cong) (auto simp: books_ok_def canonical_net)
  also have "\<dots> = sum_list (map line_net (lg_journal l))"
    unfolding entries_of_def using assms by (intro sum_by_account) (auto simp: books_ok_def)
  finally show ?thesis .
qed

section \<open>Every history of the ledger\<close>

text \<open>The writes the ledger sees: a posting, a manual correction, a reconciliation run.\<close>

inductive ledger_step :: "ledger \<Rightarrow> ledger \<Rightarrow> bool" where
  by_posting: "ledger_step l (snd (recordTransaction uuid ref descr cid es l))"
| by_correction: "ledger_step l (snd (postManualCorrection uuid newId descr cid es l))"
| by_reconciliation: "ledger_step l (fst (reconcile now l))"

inductive ledger_reachable :: "ledger \<Rightarrow> bool" where
  init: "ledger_reachable empty_ledger"
| step: "ledger_reachable l \<Longrightarrow> ledger_step l l' \<Longrightarrow> ledger_reachable l'"

lemma correction_posts:
  "snd (postManualCorrection uuid newId descr cid es l) = posted uuid (''CORR-'' @ newId) descr cid es l"
  by (auto simp: postManualCorrection_def posted_def recordTransaction_def Let_def split: prod.splits sum.splits)

lemma reconcile_journal:
  "books_ok l \<Longrightarrow> lg_journal (fst (reconcile now l)) = lg_journal l"
  using reconcile_spec(2)[of l now] by (cases "reconcile now l") (auto simp: books_ok_def)

lemma ledger_step_keeps:
  "ledger_step l l' \<Longrightarrow> books_ok l \<Longrightarrow> trial_balanced l \<Longrightarrow> books_ok l' \<and> trial_balanced l'"
proof (induction rule: ledger_step.induct)
  case (by_posting l uuid ref descr cid es)
  then show ?case using books_ok_posted trial_balanced_posted by (simp add: posted_def)
next
  case (by_correction l uuid newId descr cid es)
  then show ?case by (simp add: correction_posts books_ok_posted trial_balanced_posted)
next
  case (by_reconciliation l now)
  then show ?case by (simp add: books_ok_reconcile trial_balanced_def reconcile_journal)
qed

lemma ledger_reachable_keeps: "ledger_reachable l \<Longrightarrow> books_ok l \<and> trial_balanced l"
proof (induction rule: ledger_reachable.induct)
  case init
  show ?case by (rule conjI, rule books_ok_empty, simp add: trial_balanced_def empty_ledger_def)
next
  case (step l l')
  then show ?case by (blast dest: ledger_step_keeps)
qed

section \<open>References and drift\<close>

lemma upsert_transaction_find:
  assumes "upsert_transaction ref descr l = (t, l1)"
  shows "find (\<lambda>t. ft_reference t = ref) (lg_transactions l1) \<noteq> None"
    "find (\<lambda>t. ft_reference t = ref) (lg_transactions l) \<noteq> None \<Longrightarrow>
       length (lg_transactions l1) = length (lg_transactions l)"
  using assms
  by (auto simp: upsert_transaction_def Let_def find_append find_update_where split: option.splits)

lemma posted_has_reference:
  assumes "books_ok l" "totalDebits es = totalCredits es"
  shows "find (\<lambda>t. ft_reference t = ref) (lg_transactions (posted uuid ref descr cid es l)) \<noteq> None"
proof -
  obtain t l1 where u: "upsert_transaction ref descr l = (t, l1)" by force
  have "books_ok l1" using assms(1) books_ok_cong[OF upsert_transaction_frame[OF u]] by simp
  then show ?thesis
    using upsert_transaction_find(1)[OF u] assms(2)
    by (simp add: posted_def recordTransaction_def u post_entries_spec(4))
qed

lemma posted_known_reference:
  assumes "books_ok l" "totalDebits es = totalCredits es"
    and "find (\<lambda>t. ft_reference t = ref) (lg_transactions l) \<noteq> None"
  shows "length (lg_transactions (posted uuid ref descr cid es l)) = length (lg_transactions l)"
proof -
  obtain t l1 where u: "upsert_transaction ref descr l = (t, l1)" by force
  have "books_ok l1" using assms(1) books_ok_cong[OF upsert_transaction_frame[OF u]] by simp
  then show ?thesis
    using upsert_transaction_find(2)[OF u assms(3)] assms(2)
    by (simp add: posted_def recordTransaction_def u post_entries_spec(4))
qed

lemma count_discrepancies:
  "count_where rr_discrepancy (map (reconcile_account t k) as) = count_where
     (\<lambda>a. la_balance a \<noteq> computeCanonicalBalance (la_type a) (entries_of k (la_id a))) as"
  by (induction as) (auto simp: count_where_def reconcile_account_def Let_def)

section \<open>Properties\<close>

text \<open>C6: In every ledger reachable by postings, manual corrections and reconciliation runs,
  each stored balance is the one its journal lines give, debits equal credits over the
  journal, and the accounting equation holds: the balances of assets and expenses sum to
  those of liabilities, equity and revenue.\<close>

theorem ledger_accounting_equation:
  assumes "ledger_reachable l"
  shows "books_ok l \<and> trial_balanced l \<and> debit_side l = credit_side l"
  using ledger_reachable_keeps[OF assms] sides_difference[of l] by (auto simp: trial_balanced_iff)

text \<open>A payment of 100 posted to the empty ledger.\<close>

definition sample_entries :: "ledger_entry list" where
  "sample_entries =
     [debit_entry ''PAYSTACK_CLEARING'' ASSET 100, credit_entry ''MERCHANT_PAYABLE'' LIABILITY 100]"

definition sample_posting :: ledger where
  "sample_posting = snd (recordTransaction (\<lambda>i. ''0123456789'') ''ref'' ''payment'' (Some ''co'')
     sample_entries empty_ledger)"

theorem ledger_accounting_equation_witness:
  "debit_side sample_posting = credit_side sample_posting \<and> debit_side sample_posting = 100"
proof -
  have "ledger_reachable sample_posting"
    unfolding sample_posting_def by (rule ledger_reachable.step[OF ledger_reachable.init ledger_step.by_posting])
  from ledger_accounting_equation[OF this] have "debit_side sample_posting = credit_side sample_posting"
    by blast
  moreover have "debit_side sample_posting = 100"
    by code_simp
  ultimately show ?thesis by blast
qed

text \<open>C7: \<open>recordTransaction\<close> answers with an error exactly when debits and credits differ,
  and then no row is written; otherwise the net position of each account of the posting's
  company moves by exactly the entries that name it and no other account moves.\<close>

theorem recordTransaction_moves_exactly_its_entries:
  assumes "books_ok l"
  shows "case recordTransaction uuid ref descr cid es l of
      (Inl e, l') \<Rightarrow> totalDebits es \<noteq> totalCredits es \<and> l' = l
    | (Inr t, l') \<Rightarrow> totalDebits es = totalCredits es \<and> books_ok l' \<and> ft_reference t = ref \<and>
        (\<forall>c n. net_debit l' c n = net_debit l c n + (if or_null cid = c then entries_net n es else 0))"
proof -
  obtain r l' where rt: "recordTransaction uuid ref descr cid es l = (r, l')" by force
  have l': "l' = posted uuid ref descr cid es l" by (simp add: posted_def rt)
  have bal: "ok r \<longleftrightarrow> totalDebits es = totalCredits es"
    using recordTransaction_ok_iff[of uuid ref descr cid es l] by (simp add: rt)
  have ref: "ft_reference t = ref" if "r = Inr t" for t
    using rt that by (auto simp: recordTransaction_def upsert_transaction_def Let_def
        split: if_splits prod.splits option.splits dest!: find_set)
  show ?thesis
    using bal ref posted_spec[OF assms] l' by (cases r) (auto simp: rt)
qed

theorem recordTransaction_moves_exactly_its_entries_witness:
  "net_debit sample_posting (Some ''co'') ''PAYSTACK_CLEARING'' = 100 \<and>
   net_debit sample_posting (Some ''co'') ''MERCHANT_PAYABLE'' = -100"
proof -
  have n: "net_debit empty_ledger c n = 0" for c n
    by (simp add: net_debit_def find_account_def empty_ledger_def)
  show ?thesis
    using recordTransaction_moves_exactly_its_entries[OF books_ok_empty, where uuid = "\<lambda>i. ''0123456789''"
        and ref = "''ref''" and descr = "''payment''" and cid = "Some ''co''" and es = sample_entries]
    by (auto simp: sample_posting_def sample_entries_def n or_null_def split: prod.splits sum.splits)
qed

text \<open>
  A reconciliation run repairs any drift: whatever the stored balances were, afterwards
  every account holds its canonical balance, the journal is untouched, the summary counts
  exactly the accounts that had drifted, and a second run finds none.\<close>

theorem reconcile_repairs_and_is_idempotent:
  assumes "distinct (map la_id (lg_accounts l))" and "reconcile now l = (l', rs, sm)"
  shows "(\<forall>a \<in> set (lg_accounts l').
        la_balance a = computeCanonicalBalance (la_type a) (entries_of l' (la_id a))) \<and>
      lg_journal l' = lg_journal l \<and>
      rs_discrepancies sm = count_where
        (\<lambda>a. la_balance a \<noteq> computeCanonicalBalance (la_type a) (entries_of l (la_id a))) (lg_accounts l) \<and>
      rs_discrepancies (snd (snd (reconcile now' l'))) = 0"
proof -
  note spec = reconcile_spec[OF assms]
  have ent: "entries_of l' aid = entries_of l aid" for aid by (simp add: entries_of_def spec)
  have canonical: "\<forall>a \<in> set (lg_accounts l').
      la_balance a = computeCanonicalBalance (la_type a) (entries_of l' (la_id a))"
    unfolding ent spec by auto
  have d': "distinct (map la_id (lg_accounts l'))"
    unfolding spec(1) using assms(1) by (simp add: comp_def)
  obtain l2 rs2 sm2 where r2: "reconcile now' l' = (l2, rs2, sm2)" by (cases "reconcile now' l'") auto
  note spec2 = reconcile_spec[OF d' r2]
  have "rs_discrepancies sm2 = 0"
    unfolding spec2(5,6) count_discrepancies
    using canonical by (auto simp: count_where_def filter_empty_conv)
  then show ?thesis
    using canonical spec(2) by (simp add: r2 spec(5,6) count_discrepancies)
qed

text \<open>A ledger whose only account drifted from 100 to 70.\<close>

definition drifted_ledger :: ledger where
  "drifted_ledger = empty_ledger\<lparr>
     lg_accounts := [\<lparr>la_id = 1, la_name = ''BANK'', la_type = ASSET, la_balance = 70, la_companyId = None,
                     la_lastReconciledAt = None\<rparr>],
     lg_journal := [\<lparr>je_transactionId = 1, je_ledgerAccountId = 1, je_debit = 100, je_credit = 0,
                    je_reference = ''r''\<rparr>]\<rparr>"

theorem reconcile_repairs_and_is_idempotent_witness:
  "rs_discrepancies (snd (snd (reconcile 5 drifted_ledger))) = 1 \<and>
   rs_discrepancies (snd (snd (reconcile 6 (fst (reconcile 5 drifted_ledger))))) = 0"
proof -
  obtain l' rs sm where r: "reconcile 5 drifted_ledger = (l', rs, sm)" by (cases "reconcile 5 drifted_ledger") auto
  have d: "distinct (map la_id (lg_accounts drifted_ledger))"
    by (simp add: drifted_ledger_def)
  have one: "count_where (\<lambda>a. la_balance a \<noteq>
      computeCanonicalBalance (la_type a) (entries_of drifted_ledger (la_id a))) (lg_accounts drifted_ledger) = 1"
    by (simp add: drifted_ledger_def count_where_def entries_of_def computeCanonicalBalance_def)
  show ?thesis
    using reconcile_repairs_and_is_idempotent[OF d r, of 6] one by (simp add: r)
qed

text \<open>
  A reference is not an idempotency key: posting the same reference again keeps one
  parent row but posts every line a second time, so each net position moves again by the
  same entries.\<close>

theorem recordTransaction_reference_posts_again:
  assumes "books_ok l" "totalDebits es = totalCredits es"
  shows "(case recordTransaction uuid ref descr cid es l of (r1, l1) \<Rightarrow>
      case recordTransaction uuid' ref descr cid es l1 of (r2, l2) \<Rightarrow>
        ok r1 \<and> ok r2 \<and> length (lg_transactions l2) = length (lg_transactions l1) \<and>
        (\<forall>n. net_debit l2 (or_null cid) n = net_debit l (or_null cid) n + 2 * entries_net n es))"
proof -
  obtain r1 l1 where r1: "recordTransaction uuid ref descr cid es l = (r1, l1)" by force
  obtain r2 l2 where r2: "recordTransaction uuid' ref descr cid es l1 = (r2, l2)" by force
  have l1: "l1 = posted uuid ref descr cid es l" and l2: "l2 = posted uuid' ref descr cid es l1"
    by (simp_all add: posted_def r1 r2)
  have ok: "ok r1" "ok r2"
    using recordTransaction_ok_iff[of uuid ref descr cid es l] recordTransaction_ok_iff[of uuid' ref descr cid es l1]
      assms(2) by (simp_all add: r1 r2)
  have b1: "books_ok l1" unfolding l1 by (rule posted_spec[OF assms])
  have "find (\<lambda>t. ft_reference t = ref) (lg_transactions l1) \<noteq> None"
    unfolding l1 by (rule posted_has_reference[OF assms])
  then have len: "length (lg_transactions l2) = length (lg_transactions l1)"
    unfolding l2 by (rule posted_known_reference[OF b1 assms(2)])
  have "net_debit l2 (or_null cid) n = net_debit l (or_null cid) n + 2 * entries_net n es" for n
    using posted_spec(2)[OF b1 assms(2)] posted_spec(2)[OF assms] by (simp add: l1 l2)
  with ok len show ?thesis by (simp add: r1 r2)
qed

theorem recordTransaction_reference_posts_again_witness:
  "net_debit (snd (recordTransaction (\<lambda>i. ''x'') ''ref'' ''payment'' (Some ''co'')
     sample_entries
     (snd (recordTransaction (\<lambda>i. ''x'') ''ref'' ''payment'' (Some ''co'')
       sample_entries empty_ledger))))
     (Some ''co'') ''PAYSTACK_CLEARING'' = 200"
proof -
  have n: "net_debit empty_ledger c n = 0" for c n
    by (simp add: net_debit_def find_account_def empty_ledger_def)
  show ?thesis
    using recordTransaction_reference_posts_again[OF books_ok_empty, of sample_entries,
        where uuid = "\<lambda>i. ''x''" and ref = "''ref''" and descr = "''payment''" and cid = "Some ''co''"
        and uuid' = "\<lambda>i. ''x''"]
    by (auto simp: sample_entries_def n or_null_def split: prod.splits)
qed

end
