(* ===== verification/Database.thy ===== *)
theory Database
  imports Ledger
begin

text \<open>
  The database the services work on: the enumerations and tables of
  \<open>prisma/schema.prisma\<close> that the financial core reads or writes, as datatypes with the
  schema's constructors, row records and one state record \<open>db\<close>.  A column the modelled
  code neither reads nor uses in a guard is left out.  \<open>redisKeys\<close> are the keys the reminder jobs
  set in Redis, each with the instant it expires.  \<open>outbox\<close> lists the effects that leave
  the database (domain events, internal notifications, queued jobs) in the order the code
  issues them.
\<close>

section \<open>Enumerations\<close>

datatype Role = SUPER_ADMIN | ADMIN | COMPANY | MARKETER | CUSTOMER

datatype KycOnboardingStatus = PENDING_KYC | KYC_SUBMITTED | APPROVED | EXPIRED | EXPIRING | CANCELLED

datatype SubscriptionInterval = WEEKLY | MONTHLY | YEARLY

datatype SubscriptionStatus = PENDING | ACTIVE | GRACE_PERIOD | RESTRICTED | EXPIRED | CANCELLED

datatype ProductStatus = DRAFT | PUBLISHED | SOLD_OUT | ARCHIVED

datatype KycApplicationStatus = PENDING | APPROVAL_PROCESSING | APPROVED | REJECTED

datatype OnboardingStatus = PENDING | PAYMENT_INITIALIZED | PAID | COMPLETED | FAILED

datatype ReminderOffsetOption = TWO_DAYS | THREE_DAYS | SEVEN_DAYS

datatype InstallmentStatus = PENDING | DUE | OVERDUE | DEFAULTED | PAID | VOIDED

datatype PaymentStatus = PENDING | SUCCESS | FAILED

datatype PaymentIntentType = INSTALLMENT | ONBOARDING | SUBSCRIPTION

datatype PaymentInitStatus =
  INITIALIZING | INITIALIZED | PENDING | PROCESSING | SUCCESS | FAILED | EXPIRED | CANCELLED

datatype CommissionStatus = ACTIVE | PARTIALLY_RESERVED | RESERVED | PAID | FROZEN

datatype CommissionAllocationStatus = RESERVED | PAID | RELEASED

datatype CommissionPayoutStatus =
    PENDING_ADMIN_APPROVAL
  | PENDING_COMPANY_APPROVAL
  | APPROVED
  | REJECTED
  | TRANSFER_INITIATED
  | PAID
  | TRANSFER_FAILED
  | TRANSFER_REVERSED

datatype FinancingStatus =
    PENDING_ACTIVATION
  | ACTIVE
  | COMPLETED
  | DEFAULTED
  | CANCELLED
  | REJECTED
  | RESTRUCTURED
  | WRITTEN_OFF

datatype MerchantSettlementStatus =
    GENERATED
  | APPROVED
  | TRANSFER_INITIATED
  | TRANSFER_SUCCESS
  | TRANSFER_FAILED
  | TRANSFER_REVERSED

datatype CompanyStatus = ACTIVE | SUSPENDED

datatype ApprovalAction = TOGGLE_ACTIVE | SOFT_DELETE

datatype ApprovalStatus = PENDING | APPROVED | REJECTED

datatype SettlementAuditActor = SYSTEM | SCHEDULER | WORKER | WEBHOOK | USER

section \<open>Rows\<close>

record user_row =
  u_userId :: ident
  u_email :: string
  u_name :: "string option"
  u_role :: Role
  u_companyId :: "ident option"
  u_createdById :: "ident option"
  u_referredByMarketerId :: "ident option"
  u_referralCode :: "string option"
  u_password :: string
  u_active :: bool
  u_forcePasswordChange :: bool
  u_deletedAt :: "time option"
  u_createdAt :: time

record company_row =
  co_companyId :: ident
  co_name :: string
  co_plan :: string
  co_publicSignupCode :: "string option"
  co_status :: CompanyStatus
  co_suspendedAt :: "time option"
  co_suspendedReason :: "string option"
  co_suspendedById :: "ident option"
  co_createdAt :: time

record reminder_settings =
  reminder3DayEnabled :: bool
  reminder3DayOffset :: ReminderOffsetOption
  reminder1DayEnabled :: bool
  reminder1DayOffset :: ReminderOffsetOption
  reminderDueTodayEnabled :: bool
  reminderRecurringOverdueEnabled :: bool
  reminderOverdue3DayEnabled :: bool
  reminderOverdue3DayOffset :: ReminderOffsetOption
  reminderOverdue7DayEnabled :: bool
  reminderOverdue7DayOffset :: ReminderOffsetOption

record commission_row =
  cm_commissionId :: ident
  cm_userId :: ident
  cm_paymentId :: "ident option"
  cm_amount :: decimal
  cm_status :: CommissionStatus
  cm_reservedAmount :: decimal
  cm_createdAt :: time

record allocation_row =
  al_allocationId :: ident
  al_payoutId :: ident
  al_commissionId :: ident
  al_allocatedAmount :: decimal
  al_status :: CommissionAllocationStatus

record payout_row =
  po_payoutId :: ident
  po_userId :: ident
  po_companyId :: ident
  po_transferCode :: "string option"
  po_amount :: decimal
  po_status :: CommissionPayoutStatus
  po_adminApprovedById :: "ident option"
  po_adminApprovedAt :: "time option"
  po_companyApprovedById :: "ident option"
  po_companyApprovedAt :: "time option"
  po_paidAt :: "time option"
  po_marketerBankAccountId :: "nat option"
  po_transferInitiatedAt :: "time option"
  po_transferCompletedAt :: "time option"
  po_transferFailedAt :: "time option"
  po_transferFailReason :: "string option"
  po_transferInitiatedById :: "ident option"

record marketer_bank_row =
  mb_id :: nat
  mb_accountId :: ident
  mb_userId :: ident
  mb_bankName :: string
  mb_bankCode :: string
  mb_accountName :: string
  mb_accountNumber :: string
  mb_isPrimary :: bool
  mb_recipientCode :: "string option"
  mb_isVerified :: bool
  mb_createdAt :: time

record product_row =
  pr_productId :: ident
  pr_companyId :: "ident option"
  pr_name :: string
  pr_slug :: string
  pr_stockQuantity :: int
  pr_commissionRate :: "decimal option"
  pr_status :: ProductStatus
  pr_description :: "string option"
  pr_price :: decimal
  pr_minPrice :: "decimal option"
  pr_maxPrice :: "decimal option"
  pr_categoryId :: ident
  pr_createdAt :: time

record variant_row =
  va_variantId :: ident
  va_productId :: ident
  va_sku :: string
  va_stockQuantity :: int
  va_isActive :: bool
  va_price :: decimal
  va_size :: "string option"
  va_color :: "string list"
  va_createdAt :: time

record installment_plan_row =
  ip_planId :: ident
  ip_productId :: ident
  ip_durationMonths :: nat
  ip_interestPercentage :: decimal
  ip_active :: bool

record kyc_row =
  ka_kycApplicationId :: ident
  ka_userId :: "ident option"
  ka_onboardingSessionId :: "ident option"
  ka_productId :: ident
  ka_installmentPlanId :: ident
  ka_variantId :: ident
  ka_idType :: string
  ka_idNumber :: string
  ka_status :: KycApplicationStatus
  ka_marketerApproved :: bool
  ka_marketerApprovedAt :: "time option"
  ka_adminApproved :: bool
  ka_adminApprovedAt :: "time option"
  ka_rejectionReason :: "string option"
  ka_legalHold :: bool
  ka_isUnderFraudReview :: bool
  ka_createdAt :: time

record session_row =
  os_sessionId :: ident
  os_name :: string
  os_email :: string
  os_passwordHash :: string
  os_marketerId :: "ident option"
  os_companyId :: "ident option"
  os_status :: KycOnboardingStatus
  os_expiresAt :: time
  os_completedAt :: "time option"

record document_row =
  da_assetId :: ident
  da_kycApplicationId :: ident
  da_cloudinaryPublicId :: string
  da_secureUrl :: string
  da_fileSize :: int
  da_mimeType :: string
  da_fileHash :: string
  da_isDeleted :: bool
  da_scheduledDeletionAt :: time
  da_deletedAt :: "time option"

record kyc_audit_row =
  kt_kycApplicationId :: ident
  kt_action :: string
  kt_fileHash :: string
  kt_performedById :: "ident option"
  kt_outcome :: string

record referral_row =
  rf_marketerId :: ident
  rf_referralCode :: string

record contract_row =
  fc_contractId :: ident
  fc_kycApplicationId :: ident
  fc_userId :: "ident option"
  fc_productId :: ident
  fc_variantId :: "ident option"
  fc_approvedProductPrice :: decimal
  fc_approvedInterestPercentage :: decimal
  fc_approvedDurationMonths :: nat
  fc_principal :: decimal
  fc_interest :: decimal
  fc_totalFinanced :: decimal
  fc_status :: FinancingStatus
  fc_activatedAt :: "time option"
  fc_rejectedAt :: "time option"
  fc_completedAt :: "time option"
  fc_restructuredAt :: "time option"
  fc_restructuredById :: "ident option"
  fc_writtenOffAt :: "time option"
  fc_writtenOffById :: "ident option"
  fc_writeOffReason :: "string option"

record installment_row =
  in_installmentId :: ident
  in_financingContractId :: ident
  in_dueDate :: time
  in_amount :: decimal
  in_sequence :: nat
  in_status :: InstallmentStatus
  in_paidAt :: "time option"

record payment_row =
  pm_paymentId :: ident
  pm_installmentId :: ident
  pm_amount :: decimal
  pm_status :: PaymentStatus
  pm_providerReference :: "string option"
  pm_idempotencyKey :: "string option"
  pm_createdAt :: time

record intent_row =
  pi_intentId :: ident
  pi_type :: PaymentIntentType
  pi_reference :: "string option"
  pi_authorizationUrl :: "string option"
  pi_status :: PaymentInitStatus
  pi_amount :: decimal
  pi_customerId :: "ident option"
  pi_companyId :: "ident option"
  pi_installmentId :: "ident option"
  pi_onboardingId :: "ident option"
  pi_subscriptionId :: "ident option"
  pi_planId :: "ident option"
  pi_reservationKey :: string
  pi_idempotencyKey :: string
  pi_expiresAt :: time
  pi_initializationPayload :: json
  pi_recoveryClaimedAt :: "time option"
  pi_recoveryAttempts :: nat
  pi_lastRecoveryError :: "string option"
  pi_createdAt :: time
  pi_updatedAt :: time

record company_bank_row =
  cb_id :: nat
  cb_accountId :: ident
  cb_companyId :: ident
  cb_bankName :: string
  cb_bankCode :: string
  cb_accountName :: string
  cb_accountNumber :: string
  cb_isPrimary :: bool
  cb_recipientCode :: "string option"
  cb_isVerified :: bool
  cb_createdAt :: time

record settlement_row =
  ms_settlementId :: ident
  ms_companyId :: ident
  ms_periodStart :: time
  ms_periodEnd :: time
  ms_amount :: decimal
  ms_status :: MerchantSettlementStatus
  ms_transferCode :: "string option"
  ms_companyBankAccountId :: "nat option"
  ms_approvedAt :: "time option"
  ms_transferQueuedAt :: "time option"
  ms_transferInitiatedAt :: "time option"
  ms_transferCodeReceivedAt :: "time option"
  ms_webhookReceivedAt :: "time option"
  ms_transferCompletedAt :: "time option"
  ms_transferFailedAt :: "time option"
  ms_transferFailReason :: "string option"
  ms_lastRetryAt :: "time option"
  ms_retryCount :: nat
  ms_retryInitiatedById :: "ident option"

record settlement_line_row =
  sl_settlementId :: ident
  sl_installmentId :: ident
  sl_grossAmount :: decimal
  sl_commissionDeducted :: decimal
  sl_netAmount :: decimal

record settlement_audit_row =
  sa_settlementId :: ident
  sa_action :: string
  sa_actorType :: SettlementAuditActor
  sa_performedById :: "ident option"
  sa_outcome :: string

record subscription_plan_row =
  sp_planId :: ident
  sp_name :: string
  sp_price :: decimal
  sp_discountPrice :: "decimal option"
  sp_interval :: SubscriptionInterval
  sp_active :: bool
  sp_gracePeriodDays :: int
  sp_createdAt :: time

record subscription_row =
  su_subscriptionId :: ident
  su_companyId :: ident
  su_planId :: ident
  su_status :: SubscriptionStatus
  su_startDate :: "time option"
  su_endDate :: "time option"
  su_createdAt :: time

record onboarding_intent_row =
  oi_intentId :: ident
  oi_email :: string
  oi_companyName :: string
  oi_adminName :: string
  oi_passwordHash :: string
  oi_planId :: ident
  oi_paymentReference :: "string option"
  oi_status :: OnboardingStatus

record category_row =
  ca_categoryId :: ident
  ca_name :: string
  ca_slug :: string
  ca_description :: "string option"

record product_image_row =
  im_id :: nat
  im_imageId :: ident
  im_productId :: ident
  im_imageUrl :: string
  im_altText :: "string option"
  im_isPrimary :: bool
  im_sortOrder :: int
  im_cloudinaryPublicId :: "string option"

record variant_image_row =
  vi_variantId :: ident
  vi_imageId :: nat
  vi_isPrimary :: bool
  vi_sortOrder :: int

record user_session_row =
  us_sessionId :: ident
  us_userId :: ident
  us_tokenHash :: string
  us_createdAt :: time
  us_expiresAt :: time
  us_revoked :: bool

record password_reset_row =
  rs_id :: nat
  rs_userId :: ident
  rs_otpHash :: string
  rs_expiresAt :: time
  rs_attempts :: nat
  rs_used :: bool
  rs_createdAt :: time

record approval_row =
  ar_requestId :: ident
  ar_companyId :: ident
  ar_requestedById :: ident
  ar_targetUserId :: ident
  ar_action :: ApprovalAction
  ar_reason :: "string option"
  ar_status :: ApprovalStatus
  ar_reviewReason :: "string option"
  ar_reviewedAt :: "time option"
  ar_createdAt :: time

section \<open>Effects and state\<close>

datatype effect =
    Event string ident
  | Notify string ident
  | Job string ident

record db =
  users :: "user_row list"
  commissions :: "commission_row list"
  allocations :: "allocation_row list"
  payouts :: "payout_row list"
  marketerBanks :: "marketer_bank_row list"
  products :: "product_row list"
  kycApplications :: "kyc_row list"
  contracts :: "contract_row list"
  installments :: "installment_row list"
  payments :: "payment_row list"
  intents :: "intent_row list"
  companyBanks :: "company_bank_row list"
  settlements :: "settlement_row list"
  settlementLines :: "settlement_line_row list"
  settlementAudit :: "settlement_audit_row list"
  companies :: "company_row list"
  reminderSettings :: "(ident \<times> reminder_settings) list"
  variants :: "variant_row list"
  installmentPlans :: "installment_plan_row list"
  sessions :: "session_row list"
  documents :: "document_row list"
  kycAudit :: "kyc_audit_row list"
  referrals :: "referral_row list"
  subscriptionPlans :: "subscription_plan_row list"
  subscriptions :: "subscription_row list"
  onboardingIntents :: "onboarding_intent_row list"
  categories :: "category_row list"
  productImages :: "product_image_row list"
  variantImages :: "variant_image_row list"
  userSessions :: "user_session_row list"
  passwordResets :: "password_reset_row list"
  approvalRequests :: "approval_row list"
  redisKeys :: "(string \<times> time) list"
  book :: ledger
  outbox :: "effect list"

definition empty_db :: db where
  "empty_db = \<lparr>users = [], commissions = [], allocations = [], payouts = [], marketerBanks = [],
     products = [], kycApplications = [], contracts = [], installments = [], payments = [], intents = [],
     companyBanks = [], settlements = [], settlementLines = [], settlementAudit = [],
     companies = [], reminderSettings = [], variants = [], installmentPlans = [], sessions = [], documents = [],
     kycAudit = [], referrals = [], subscriptionPlans = [], subscriptions = [], onboardingIntents = [],
     categories = [], productImages = [], variantImages = [], userSessions = [], passwordResets = [], approvalRequests = [],
     redisKeys = [], book = empty_ledger, outbox = []\<rparr>"

definition emit :: "effect \<Rightarrow> db \<Rightarrow> db" where
  "emit e s = s\<lparr>outbox := outbox s @ [e]\<rparr>"

definition find_user :: "ident \<Rightarrow> db \<Rightarrow> user_row option" where
  "find_user uid s = find (\<lambda>u. u_userId u = uid) (users s)"

definition find_payout :: "ident \<Rightarrow> db \<Rightarrow> payout_row option" where
  "find_payout pid s = find (\<lambda>p. po_payoutId p = pid) (payouts s)"

definition find_commission :: "ident \<Rightarrow> db \<Rightarrow> commission_row option" where
  "find_commission cid s = find (\<lambda>c. cm_commissionId c = cid) (commissions s)"

definition find_installment :: "ident \<Rightarrow> db \<Rightarrow> installment_row option" where
  "find_installment iid s = find (\<lambda>i. in_installmentId i = iid) (installments s)"

definition find_contract :: "ident \<Rightarrow> db \<Rightarrow> contract_row option" where
  "find_contract cid s = find (\<lambda>c. fc_contractId c = cid) (contracts s)"

definition find_intent :: "ident \<Rightarrow> db \<Rightarrow> intent_row option" where
  "find_intent iid s = find (\<lambda>i. pi_intentId i = iid) (intents s)"

definition find_settlement :: "ident \<Rightarrow> db \<Rightarrow> settlement_row option" where
  "find_settlement sid s = find (\<lambda>m. ms_settlementId m = sid) (settlements s)"

definition update_payout :: "ident \<Rightarrow> (payout_row \<Rightarrow> payout_row) \<Rightarrow> db \<Rightarrow> db" where
  "update_payout pid f s = s\<lparr>payouts := update_where (\<lambda>p. po_payoutId p = pid) f (payouts s)\<rparr>"

definition update_commission :: "ident \<Rightarrow> (commission_row \<Rightarrow> commission_row) \<Rightarrow> db \<Rightarrow> db" where
  "update_commission cid f s =
     s\<lparr>commissions := update_where (\<lambda>c. cm_commissionId c = cid) f (commissions s)\<rparr>"

definition update_allocation :: "ident \<Rightarrow> (allocation_row \<Rightarrow> allocation_row) \<Rightarrow> db \<Rightarrow> db" where
  "update_allocation aid f s =
     s\<lparr>allocations := update_where (\<lambda>a. al_allocationId a = aid) f (allocations s)\<rparr>"

definition update_settlement :: "ident \<Rightarrow> (settlement_row \<Rightarrow> settlement_row) \<Rightarrow> db \<Rightarrow> db" where
  "update_settlement sid f s =
     s\<lparr>settlements := update_where (\<lambda>m. ms_settlementId m = sid) f (settlements s)\<rparr>"

text \<open>\<open>LedgerService.recordTransaction(\<dots>, tx)\<close> on the ledger tables of the database.\<close>

definition record_in_book ::
  "(nat \<Rightarrow> ident) \<Rightarrow> string \<Rightarrow> string \<Rightarrow> ident option \<Rightarrow> ledger_entry list \<Rightarrow> db \<Rightarrow> unit res \<times> db" where
  "record_in_book uuid ref descr cid es s =
     (case recordTransaction uuid ref descr cid es (book s) of
        (Inl e, l) \<Rightarrow> (Inl e, s\<lparr>book := l\<rparr>)
      | (Inr t, l) \<Rightarrow> (Inr (), s\<lparr>book := l\<rparr>))"

lemma record_in_book_balanced:
  assumes "totalDebits es = totalCredits es"
  shows "record_in_book uuid ref descr cid es s = (Inr (), s\<lparr>book := posted uuid ref descr cid es (book s)\<rparr>)"
  using assms by (simp add: record_in_book_def posted_def recordTransaction_def split: prod.splits)

section \<open>Reading after writing\<close>

lemma emit_simps [simp]:
  "users (emit e s) = users s" "commissions (emit e s) = commissions s"
  "allocations (emit e s) = allocations s" "payouts (emit e s) = payouts s"
  "marketerBanks (emit e s) = marketerBanks s" "products (emit e s) = products s"
  "contracts (emit e s) = contracts s" "installments (emit e s) = installments s"
  "payments (emit e s) = payments s" "intents (emit e s) = intents s"
  "companyBanks (emit e s) = companyBanks s" "settlements (emit e s) = settlements s"
  "settlementLines (emit e s) = settlementLines s" "settlementAudit (emit e s) = settlementAudit s"
  "kycApplications (emit e s) = kycApplications s" "companies (emit e s) = companies s"
  "reminderSettings (emit e s) = reminderSettings s" "variants (emit e s) = variants s"
  "installmentPlans (emit e s) = installmentPlans s" "sessions (emit e s) = sessions s"
  "documents (emit e s) = documents s" "kycAudit (emit e s) = kycAudit s" "referrals (emit e s) = referrals s"
  "subscriptionPlans (emit e s) = subscriptionPlans s" "subscriptions (emit e s) = subscriptions s"
  "onboardingIntents (emit e s) = onboardingIntents s" "categories (emit e s) = categories s"
  "productImages (emit e s) = productImages s" "variantImages (emit e s) = variantImages s"
  "userSessions (emit e s) = userSessions s" "passwordResets (emit e s) = passwordResets s"
  "approvalRequests (emit e s) = approvalRequests s" "redisKeys (emit e s) = redisKeys s"
  "book (emit e s) = book s" "outbox (emit e s) = outbox s @ [e]"
  by (simp_all add: emit_def)

lemma update_payout_simps [simp]:
  "users (update_payout i f s) = users s" "commissions (update_payout i f s) = commissions s"
  "allocations (update_payout i f s) = allocations s" "book (update_payout i f s) = book s"
  "marketerBanks (update_payout i f s) = marketerBanks s" "outbox (update_payout i f s) = outbox s"
  "installments (update_payout i f s) = installments s" "settlements (update_payout i f s) = settlements s"
  "payouts (update_payout i f s) = update_where (\<lambda>p. po_payoutId p = i) f (payouts s)"
  by (simp_all add: update_payout_def)

lemma update_commission_simps [simp]:
  "users (update_commission i f s) = users s" "payouts (update_commission i f s) = payouts s"
  "allocations (update_commission i f s) = allocations s" "book (update_commission i f s) = book s"
  "marketerBanks (update_commission i f s) = marketerBanks s" "outbox (update_commission i f s) = outbox s"
  "installments (update_commission i f s) = installments s" "settlements (update_commission i f s) = settlements s"
  "commissions (update_commission i f s) = update_where (\<lambda>c. cm_commissionId c = i) f (commissions s)"
  by (simp_all add: update_commission_def)

lemma update_allocation_simps [simp]:
  "users (update_allocation i f s) = users s" "payouts (update_allocation i f s) = payouts s"
  "commissions (update_allocation i f s) = commissions s" "book (update_allocation i f s) = book s"
  "marketerBanks (update_allocation i f s) = marketerBanks s" "outbox (update_allocation i f s) = outbox s"
  "installments (update_allocation i f s) = installments s" "settlements (update_allocation i f s) = settlements s"
  "allocations (update_allocation i f s) = update_where (\<lambda>a. al_allocationId a = i) f (allocations s)"
  by (simp_all add: update_allocation_def)

lemma find_payout_update:
  "(\<And>p. po_payoutId (f p) = po_payoutId p) \<Longrightarrow>
     find_payout i (update_payout j f s) = map_option (\<lambda>p. if po_payoutId p = j then f p else p) (find_payout i s)"
  unfolding find_payout_def update_payout_simps by (rule find_update_where) simp

lemma find_payout_id: "find_payout i s = Some p \<Longrightarrow> po_payoutId p = i"
  unfolding find_payout_def by (drule find_set) simp

lemma find_user_id: "find_user i s = Some u \<Longrightarrow> u_userId u = i"
  unfolding find_user_def by (drule find_set) simp

end
