(* ===== verification/Commission.thy ===== *)
theory Commission
  imports Database
begin

text \<open>
  Commission payouts: \<open>src/core/services/commission.service.ts\<close> with the status helpers of
  \<open>src/shared/utils/helpers/commission-helper.ts\<close> and \<open>commission-eligibility.ts\<close>.  A payout
  request reserves the marketer's oldest commissions first, is approved by an admin and the
  company, and is then handed to the transfer worker.
\<close>

section \<open>Status helpers\<close>

definition deriveReservationStatus :: "decimal \<Rightarrow> decimal \<Rightarrow> CommissionStatus" where
  "deriveReservationStatus reservedAmount totalAmount =
     (if reservedAmount = 0 then CommissionStatus.ACTIVE
      else if reservedAmount < totalAmount then CommissionStatus.PARTIALLY_RESERVED
      else CommissionStatus.RESERVED)"

definition derivePostPaymentStatus :: "decimal \<Rightarrow> decimal \<Rightarrow> decimal \<Rightarrow> CommissionStatus" where
  "derivePostPaymentStatus totalAmount reservedAmount totalPaid =
     (if totalAmount \<le> totalPaid then CommissionStatus.PAID
      else if reservedAmount = 0 then CommissionStatus.ACTIVE
      else if reservedAmount < totalAmount - totalPaid then CommissionStatus.PARTIALLY_RESERVED
      else CommissionStatus.RESERVED)"

definition isCommissionEligible :: "Role option \<Rightarrow> bool" where
  "isCommissionEligible role = (case role of None \<Rightarrow> False | Some r \<Rightarrow> r \<in> {MARKETER, ADMIN})"

section \<open>Requesting a payout\<close>

text \<open>The rows locked by the raw query: open commissions with something left, oldest first.\<close>

definition lockedCommissions :: "ident \<Rightarrow> db \<Rightarrow> commission_row list" where
  "lockedCommissions userId s =
     sort_key cm_createdAt
       (filter (\<lambda>c. cm_userId c = userId \<and>
                    cm_status c \<notin> {CommissionStatus.PAID, CommissionStatus.FROZEN} \<and>
                    cm_reservedAmount c < cm_amount c) (commissions s))"

definition totalAvailable :: "commission_row list \<Rightarrow> decimal" where
  "totalAvailable cs = foldl (\<lambda>acc c. acc + (cm_amount c - cm_reservedAmount c)) 0 cs"

record allocation_entry =
  ae_commissionId :: ident
  ae_toAllocate :: decimal
  ae_currentReserved :: decimal
  ae_totalAmount :: decimal

text \<open>The greedy loop; \<open>break\<close> ends the recursion, \<open>continue\<close> skips a row.\<close>

fun allocationPlan :: "decimal \<Rightarrow> commission_row list \<Rightarrow> allocation_entry list" where
  "allocationPlan remaining [] = []"
| "allocationPlan remaining (c # cs) =
     (if remaining \<le> 0 then []
      else
        (let available = cm_amount c - cm_reservedAmount c in
         if available \<le> 0 then allocationPlan remaining cs
         else
           (let toAllocate = min remaining available in
            \<lparr>ae_commissionId = cm_commissionId c, ae_toAllocate = toAllocate,
             ae_currentReserved = cm_reservedAmount c, ae_totalAmount = cm_amount c\<rparr>
            # allocationPlan (remaining - toAllocate) cs)))"

text \<open>Writing one entry of the plan: the allocation row and the commission it draws on.\<close>

definition applyEntry :: "ident \<Rightarrow> ident \<Rightarrow> allocation_entry \<Rightarrow> db \<Rightarrow> db" where
  "applyEntry payoutId newId e s =
     (let s1 = s\<lparr>allocations := allocations s @
            [\<lparr>al_allocationId = newId, al_payoutId = payoutId, al_commissionId = ae_commissionId e,
              al_allocatedAmount = ae_toAllocate e, al_status = CommissionAllocationStatus.RESERVED\<rparr>]\<rparr>;
          newReservedAmount = ae_currentReserved e + ae_toAllocate e
      in update_commission (ae_commissionId e)
           (\<lambda>c. c\<lparr>cm_reservedAmount := newReservedAmount,
                  cm_status := deriveReservationStatus newReservedAmount (ae_totalAmount e)\<rparr>) s1)"

fun applyPlan :: "ident \<Rightarrow> (nat \<Rightarrow> ident) \<Rightarrow> nat \<Rightarrow> allocation_entry list \<Rightarrow> db \<Rightarrow> db" where
  "applyPlan payoutId uuid i [] s = s"
| "applyPlan payoutId uuid i (e # es) s =
     applyPlan payoutId uuid (Suc i) es (applyEntry payoutId (uuid i) e s)"

definition in_progress :: "CommissionPayoutStatus set" where
  "in_progress = {PENDING_ADMIN_APPROVAL, PENDING_COMPANY_APPROVAL, CommissionPayoutStatus.APPROVED,
     CommissionPayoutStatus.TRANSFER_INITIATED}"

definition new_payout :: "env \<Rightarrow> ident \<Rightarrow> ident \<Rightarrow> decimal \<Rightarrow> CommissionPayoutStatus \<Rightarrow> payout_row" where
  "new_payout e userId companyId amount status =
     \<lparr>po_payoutId = env_uuid e 0, po_userId = userId, po_companyId = companyId, po_transferCode = None,
      po_amount = amount, po_status = status, po_adminApprovedById = None, po_adminApprovedAt = None,
      po_companyApprovedById = None, po_companyApprovedAt = None, po_paidAt = None,
      po_marketerBankAccountId = None, po_transferInitiatedAt = None, po_transferCompletedAt = None,
      po_transferFailedAt = None, po_transferFailReason = None, po_transferInitiatedById = None\<rparr>"

text \<open>The transaction body, once the guards have passed.\<close>

definition reservePayout ::
  "env \<Rightarrow> user_row \<Rightarrow> ident \<Rightarrow> Role \<Rightarrow> decimal \<Rightarrow> db \<Rightarrow> payout_row res \<times> db" where
  "reservePayout e user companyId creatorRole amount s =
     (let cs = lockedCommissions (u_userId user) s in
      if totalAvailable cs < amount
      then (Inl (BadRequestError ''Insufficient available balance.''), s)
      else
        (let plan = allocationPlan amount cs;
             status = (if creatorRole = COMPANY \<or> u_role user = ADMIN
                       then PENDING_COMPANY_APPROVAL else PENDING_ADMIN_APPROVAL);
             request = new_payout e (u_userId user) companyId amount status;
             s1 = s\<lparr>payouts := payouts s @ [request]\<rparr>
         in (Inr request, applyPlan (po_payoutId request) (env_uuid e) 1 plan s1)))"

definition creatorRoleOf :: "user_row \<Rightarrow> db \<Rightarrow> Role option" where
  "creatorRoleOf user s = Option.bind (u_createdById user) (\<lambda>c. map_option u_role (find_user c s))"

definition requestPayout :: "env \<Rightarrow> ident \<Rightarrow> decimal \<Rightarrow> db \<Rightarrow> payout_row res \<times> db" where
  "requestPayout e userId amount s =
     (case find_user userId s of
        None \<Rightarrow> (Inl (NotFoundError ''User not found''), s)
      | Some user \<Rightarrow>
     (case or_null (u_companyId user) of
        None \<Rightarrow> (Inl (BadRequestError ''User has no associated company''), s)
      | Some companyId \<Rightarrow>
      if amount \<le> 0 then (Inl (BadRequestError ''Requested amount must be greater than zero''), s)
      else if find (\<lambda>p. po_userId p = userId \<and> po_status p \<in> in_progress) (payouts s) \<noteq> None
      then (Inl (BadRequestError ''You already have a payout in progress''), s)
      else
     (case creatorRoleOf user s of
        None \<Rightarrow> (Inl (BadRequestError ''Marketer has no creator relationship configured''), s)
      | Some creatorRole \<Rightarrow>
     (case transaction (reservePayout e user companyId creatorRole amount) s of
        (Inl err, s') \<Rightarrow> (Inl err, s')
      | (Inr request, s') \<Rightarrow>
          (Inr request,
           emit (if creatorRole = COMPANY
                 then Notify ''COMMISSION_REQUEST_APPROVAL'' (po_payoutId request)
                 else Notify ''COMMISSION_TRANSFER_REQUEST'' (po_payoutId request)) s')))))"

section \<open>Approvals\<close>

definition adminApprovePayout :: "env \<Rightarrow> ident \<Rightarrow> ident \<Rightarrow> db \<Rightarrow> unit res \<times> db" where
  "adminApprovePayout e payoutId adminId s =
     (case find_user adminId s of
        None \<Rightarrow> (Inl (ForbiddenError ''Only admins can approve''), s)
      | Some admin \<Rightarrow>
      if u_role admin \<noteq> ADMIN then (Inl (ForbiddenError ''Only admins can approve''), s)
      else
     (case find (\<lambda>p. po_payoutId p = payoutId \<and> po_status p = PENDING_ADMIN_APPROVAL) (payouts s) of
        None \<Rightarrow> (Inl (NotFoundError ''Payout request not found''), s)
      | Some payout \<Rightarrow>
      if Some (po_companyId payout) \<noteq> u_companyId admin
      then (Inl (ForbiddenError ''This payout does not belong to your company''), s)
      else
        (Inr (), emit (Notify ''COMMISSION_REQUEST_APPROVAL'' payoutId)
           (update_payout payoutId
             (\<lambda>p. p\<lparr>po_status := PENDING_COMPANY_APPROVAL, po_adminApprovedById := Some adminId,
                    po_adminApprovedAt := Some (env_now e)\<rparr>) s))))"

definition companyApprovePayout :: "env \<Rightarrow> ident \<Rightarrow> ident \<Rightarrow> db \<Rightarrow> unit res \<times> db" where
  "companyApprovePayout e payoutId companyUserId s =
     (case find_user companyUserId s of
        None \<Rightarrow> (Inl (ForbiddenError ''Only company accounts can approve payouts''), s)
      | Some approver \<Rightarrow>
      if u_role approver \<noteq> COMPANY
      then (Inl (ForbiddenError ''Only company accounts can approve payouts''), s)
      else
     (case find_payout payoutId s of
        None \<Rightarrow> (Inl (NotFoundError ''Payout request not found''), s)
      | Some payout \<Rightarrow>
      if Some (po_companyId payout) \<noteq> u_companyId approver
      then (Inl (ForbiddenError ''This payout does not belong to your company''), s)
      else if po_status payout \<noteq> PENDING_COMPANY_APPROVAL
      then (Inl (BadRequestError ''Payout is not awaiting company approval''), s)
      else
        (Inr (), emit (Notify ''COMMISSION_REQUEST_APPROVAL'' payoutId)
           (update_payout payoutId
             (\<lambda>p. p\<lparr>po_status := CommissionPayoutStatus.APPROVED, po_companyApprovedById := Some companyUserId,
                    po_companyApprovedAt := Some (env_now e)\<rparr>) s))))"

section \<open>Handing a payout to the transfer worker\<close>

definition allowedStatuses :: "CommissionPayoutStatus set" where
  "allowedStatuses = {CommissionPayoutStatus.APPROVED, CommissionPayoutStatus.TRANSFER_FAILED,
     CommissionPayoutStatus.TRANSFER_REVERSED}"

definition primaryBank :: "ident \<Rightarrow> db \<Rightarrow> marketer_bank_row option" where
  "primaryBank userId s =
     (case sort_key mb_createdAt (filter (\<lambda>b. mb_userId b = userId \<and> mb_isPrimary b) (marketerBanks s)) of
        [] \<Rightarrow> None | b # bs \<Rightarrow> Some b)"

text \<open>
  The pair of writes every handler makes for one allocation: the allocation's status, and the
  reserved amount and status of the commission it draws on.
\<close>

definition rewriteAllocation ::
  "CommissionAllocationStatus \<Rightarrow> decimal \<Rightarrow> CommissionStatus \<Rightarrow> allocation_row \<Rightarrow> db \<Rightarrow> db" where
  "rewriteAllocation to newReserved newStatus a s =
     update_commission (al_commissionId a)
       (\<lambda>c. c\<lparr>cm_reservedAmount := newReserved, cm_status := newStatus\<rparr>)
       (update_allocation (al_allocationId a) (\<lambda>b. b\<lparr>al_status := to\<rparr>) s)"

text \<open>
  A retry after \<open>TRANSFER_FAILED\<close>: every released allocation of the payout is reserved again
  on the commission as it was read (\<open>include: { commission: true }\<close>).
\<close>

definition reReserve :: "db \<Rightarrow> allocation_row \<Rightarrow> db \<Rightarrow> db" where
  "reReserve s0 a s =
     (case find_commission (al_commissionId a) s0 of
        None \<Rightarrow> s
      | Some c \<Rightarrow>
          (let newReservedAmount = cm_reservedAmount c + al_allocatedAmount a in
           rewriteAllocation CommissionAllocationStatus.RESERVED newReservedAmount
             (deriveReservationStatus newReservedAmount (cm_amount c)) a s))"

definition reReserveReleased :: "ident \<Rightarrow> db \<Rightarrow> db" where
  "reReserveReleased payoutId s =
     update_payout payoutId
       (\<lambda>p. p\<lparr>po_status := CommissionPayoutStatus.APPROVED, po_transferFailReason := None\<rparr>)
       (foldl (\<lambda>t a. reReserve s a t) s
         (filter (\<lambda>a. al_payoutId a = payoutId \<and> al_status a = CommissionAllocationStatus.RELEASED)
           (allocations s)))"

definition startTransfer :: "env \<Rightarrow> ident \<Rightarrow> ident \<Rightarrow> marketer_bank_row \<Rightarrow> db \<Rightarrow> db" where
  "startTransfer e payoutId companyUserId bank s =
     emit (Job ''process-transfer'' payoutId)
       (emit (Event ''COMMISSION_TRANSFER_INITIATED'' payoutId)
         (update_payout payoutId
           (\<lambda>p. p\<lparr>po_status := CommissionPayoutStatus.TRANSFER_INITIATED,
                  po_marketerBankAccountId := Some (mb_id bank),
                  po_transferInitiatedAt := Some (env_now e),
                  po_transferInitiatedById := Some companyUserId,
                  po_transferCode := None, po_transferFailedAt := None,
                  po_transferFailReason := None\<rparr>) s))"

definition initiateTransfer :: "env \<Rightarrow> ident \<Rightarrow> ident \<Rightarrow> db \<Rightarrow> unit res \<times> db" where
  "initiateTransfer e payoutId companyUserId s =
     (case find_user companyUserId s of
        None \<Rightarrow> (Inl (ForbiddenError ''Only company accounts can initiate transfers''), s)
      | Some initiator \<Rightarrow>
      if u_role initiator \<noteq> COMPANY
      then (Inl (ForbiddenError ''Only company accounts can initiate transfers''), s)
      else
     (case find_payout payoutId s of
        None \<Rightarrow> (Inl (NotFoundError ''Payout request not found''), s)
      | Some payout \<Rightarrow>
      if Some (po_companyId payout) \<noteq> u_companyId initiator
      then (Inl (ForbiddenError ''This payout does not belong to your company''), s)
      else if po_status payout \<notin> allowedStatuses
      then (Inl (BadRequestError ''Cannot initiate transfer.''), s)
      else
     (case primaryBank (po_userId payout) s of
        None \<Rightarrow> (Inl (BadRequestError ''Marketer has no primary bank account.''), s)
      | Some bank \<Rightarrow>
         (let s1 = (if po_status payout = CommissionPayoutStatus.TRANSFER_FAILED
                    then reReserveReleased payoutId s else s);
              s2 = (if po_status payout = CommissionPayoutStatus.TRANSFER_REVERSED
                    then update_payout payoutId (\<lambda>p. p\<lparr>po_status := CommissionPayoutStatus.APPROVED\<rparr>) s1
                    else s1)
          in (Inr (), startTransfer e payoutId companyUserId bank s2)))))"

section \<open>Bulk transfers\<close>

text \<open>The validation of one id: \<open>None\<close> when it may be initiated.\<close>

definition bulkIssue :: "user_row \<Rightarrow> db \<Rightarrow> ident \<Rightarrow> string option" where
  "bulkIssue initiator s i =
     (case find_payout i s of
        None \<Rightarrow> Some ''not found''
      | Some payout \<Rightarrow>
          if Some (po_companyId payout) \<noteq> u_companyId initiator
          then Some ''does not belong to your company''
          else if po_status payout \<notin> allowedStatuses
          then Some ''status is not APPROVED, TRANSFER_FAILED, or TRANSFER_REVERSED''
          else if find (\<lambda>b. mb_userId b = po_userId payout \<and> mb_isPrimary b) (marketerBanks s) = None
          then Some ''marketer has no primary bank account''
          else None)"

text \<open>The second loop: a payout whose initiation throws is reported and the loop goes on.\<close>

fun bulkLoop :: "env \<Rightarrow> ident \<Rightarrow> ident list \<Rightarrow> db \<Rightarrow> (ident \<times> bool) list \<times> db" where
  "bulkLoop e companyUserId [] s = ([], s)"
| "bulkLoop e companyUserId (i # is) s =
     (let (r, s') = initiateTransfer e i companyUserId s;
          (rs, s'') = bulkLoop e companyUserId is s'
      in ((i, ok r) # rs, s''))"

record bulk_result =
  br_total :: nat
  br_succeeded :: nat
  br_failed :: nat
  br_results :: "(ident \<times> bool) list"

definition initiateBulkTransfer :: "env \<Rightarrow> ident list \<Rightarrow> ident \<Rightarrow> db \<Rightarrow> bulk_result res \<times> db" where
  "initiateBulkTransfer e payoutIds companyUserId s =
     (if payoutIds = [] then (Inl (BadRequestError ''payoutIds must not be empty''), s)
      else
        (let uniqueIds = rev (remdups (rev payoutIds)) in
         case find_user companyUserId s of
           None \<Rightarrow> (Inl (ForbiddenError ''Only company accounts can initiate transfers''), s)
         | Some initiator \<Rightarrow>
             if u_role initiator \<noteq> COMPANY
             then (Inl (ForbiddenError ''Only company accounts can initiate transfers''), s)
             else if \<exists>i \<in> set uniqueIds. bulkIssue initiator s i \<noteq> None
             then (Inl (BadRequestError ''Bulk transfer validation failed''), s)
             else
               (let (rs, s') = bulkLoop e companyUserId uniqueIds s in
                (Inr \<lparr>br_total = length uniqueIds, br_succeeded = count_where snd rs,
                      br_failed = count_where (\<lambda>r. \<not> snd r) rs, br_results = rs\<rparr>, s'))))"

section \<open>The greedy plan\<close>

definition allocated :: "allocation_entry list \<Rightarrow> decimal" where
  "allocated es = sum_list (map ae_toAllocate es)"

lemma totalAvailable_sum: "totalAvailable cs = sum_list (map (\<lambda>c. cm_amount c - cm_reservedAmount c) cs)"
proof -
  have "foldl (\<lambda>acc c. acc + (cm_amount c - cm_reservedAmount c)) z cs
      = z + sum_list (map (\<lambda>c. cm_amount c - cm_reservedAmount c) cs)" for z
    by (induction cs arbitrary: z) (simp_all add: add.assoc)
  then show ?thesis by (simp add: totalAvailable_def)
qed

lemma totalAvailable_nonneg:
  "\<forall>c \<in> set cs. cm_reservedAmount c < cm_amount c \<Longrightarrow> 0 \<le> totalAvailable cs"
  unfolding totalAvailable_sum by (rule sum_list_nonneg) auto

lemma allocationPlan_done [simp]: "remaining \<le> 0 \<Longrightarrow> allocationPlan remaining cs = []"
  by (cases cs) auto

lemma allocationPlan_sum:
  assumes "0 \<le> remaining" "\<forall>c \<in> set cs. cm_reservedAmount c < cm_amount c" "remaining \<le> totalAvailable cs"
  shows "allocated (allocationPlan remaining cs) = remaining"
  using assms
proof (induction cs arbitrary: remaining)
  case Nil
  then show ?case by (simp add: totalAvailable_sum allocated_def)
next
  case (Cons c cs)
  let ?av = "cm_amount c - cm_reservedAmount c"
  have av: "0 < ?av" using Cons.prems(2) by simp
  show ?case
  proof (cases "0 < remaining")
    case True
    have "allocated (allocationPlan (remaining - min remaining ?av) cs) = remaining - min remaining ?av"
      using Cons.prems totalAvailable_nonneg[of cs]
      by (intro Cons.IH) (auto simp: totalAvailable_sum min_def)
    with av True show ?thesis by (simp add: Let_def allocated_def)
  next
    case False
    with Cons.prems(1) show ?thesis by (simp add: allocated_def)
  qed
qed

lemma allocationPlan_entries:
  "e \<in> set (allocationPlan remaining cs) \<Longrightarrow>
     \<exists>c \<in> set cs. ae_commissionId e = cm_commissionId c \<and> ae_currentReserved e = cm_reservedAmount c \<and>
       ae_totalAmount e = cm_amount c \<and> 0 < ae_toAllocate e \<and>
       ae_currentReserved e + ae_toAllocate e \<le> cm_amount c"
  by (induction cs arbitrary: remaining) (auto simp: Let_def min_def not_le split: if_splits)

text \<open>First in, first out: the plan draws on a prefix of the rows and drains all but the last.\<close>

lemma allocationPlan_fifo:
  assumes "\<forall>c \<in> set cs. cm_reservedAmount c < cm_amount c"
  shows "\<exists>n \<le> length cs. map ae_commissionId (allocationPlan remaining cs) = map cm_commissionId (take n cs) \<and>
    (\<forall>i. Suc i < n \<longrightarrow>
      ae_toAllocate (allocationPlan remaining cs ! i) = cm_amount (cs ! i) - cm_reservedAmount (cs ! i))"
  using assms
proof (induction cs arbitrary: remaining)
  case Nil
  then show ?case by simp
next
  case (Cons c cs)
  let ?av = "cm_amount c - cm_reservedAmount c"
  have av: "0 < ?av" using Cons.prems by simp
  show ?case
  proof (cases "0 < remaining")
    case False
    then show ?thesis by (intro exI[of _ 0]) simp
  next
    case True
    let ?rest = "allocationPlan (remaining - min remaining ?av) cs"
    obtain n where n: "n \<le> length cs" "map ae_commissionId ?rest = map cm_commissionId (take n cs)"
      "\<forall>i. Suc i < n \<longrightarrow> ae_toAllocate (?rest ! i) = cm_amount (cs ! i) - cm_reservedAmount (cs ! i)"
      using Cons.IH[of "remaining - min remaining ?av"] Cons.prems by auto
    have plan: "allocationPlan remaining (c # cs) = \<lparr>ae_commissionId = cm_commissionId c,
        ae_toAllocate = min remaining ?av, ae_currentReserved = cm_reservedAmount c,
        ae_totalAmount = cm_amount c\<rparr> # ?rest"
      using True av by (simp add: Let_def)
    have head: "min remaining ?av = ?av" if "0 < n"
    proof (rule ccontr)
      assume "min remaining ?av \<noteq> ?av"
      then have "remaining - min remaining ?av = 0" by (simp add: min_def split: if_splits)
      with n(2) have "take n cs = []" by simp
      with that n(1) show False by simp
    qed
    have drained: "ae_toAllocate (allocationPlan remaining (c # cs) ! i)
        = cm_amount ((c # cs) ! i) - cm_reservedAmount ((c # cs) ! i)" if "Suc i < Suc n" for i
      using that head n(3) unfolding plan by (cases i) auto
    show ?thesis
    proof (intro exI[of _ "Suc n"] conjI allI impI)
      show "map ae_commissionId (allocationPlan remaining (c # cs)) = map cm_commissionId (take (Suc n) (c # cs))"
        unfolding plan using n(2) by simp
    qed (use n(1) in simp, rule drained)
  qed
qed

section \<open>The reservation invariant\<close>

definition reserved_total :: "db \<Rightarrow> ident \<Rightarrow> decimal" where
  "reserved_total s cid =
     sum_where (\<lambda>a. al_commissionId a = cid \<and> al_status a = CommissionAllocationStatus.RESERVED)
       al_allocatedAmount (allocations s)"

definition paid_total :: "db \<Rightarrow> ident \<Rightarrow> decimal" where
  "paid_total s cid =
     sum_where (\<lambda>a. al_commissionId a = cid \<and> al_status a = CommissionAllocationStatus.PAID)
       al_allocatedAmount (allocations s)"

text \<open>
  Keys are unique; an allocation names a commission, is positive, and is the only one of its
  payout on that commission; and each commission's \<open>reservedAmount\<close> is the sum of its
  allocations in state \<open>RESERVED\<close>.
\<close>

definition keys_ok :: "db \<Rightarrow> bool" where
  "keys_ok s \<longleftrightarrow>
     distinct (map po_payoutId (payouts s)) \<and>
     distinct (map cm_commissionId (commissions s)) \<and>
     distinct (map al_allocationId (allocations s)) \<and>
     distinct (map (\<lambda>a. (al_payoutId a, al_commissionId a)) (allocations s)) \<and>
     (\<forall>a \<in> set (allocations s). al_commissionId a \<in> cm_commissionId ` set (commissions s) \<and>
        al_payoutId a \<in> po_payoutId ` set (payouts s) \<and> 0 < al_allocatedAmount a)"

definition reservations_ok :: "db \<Rightarrow> bool" where
  "reservations_ok s \<longleftrightarrow> keys_ok s \<and>
     (\<forall>c \<in> set (commissions s). cm_reservedAmount c = reserved_total s (cm_commissionId c))"

lemma find_commission_key:
  "keys_ok s \<Longrightarrow> c \<in> set (commissions s) \<Longrightarrow> find_commission (cm_commissionId c) s = Some c"
  unfolding find_commission_def keys_ok_def by (rule find_unique_key) auto

lemma find_commission_set:
  "find_commission i s = Some c \<Longrightarrow> c \<in> set (commissions s) \<and> cm_commissionId c = i"
  unfolding find_commission_def by (drule find_set) simp

lemma find_commission_exists:
  assumes "keys_ok s" "a \<in> set (allocations s)"
  obtains c where "find_commission (al_commissionId a) s = Some c"
proof -
  obtain c where c: "c \<in> set (commissions s)" "cm_commissionId c = al_commissionId a"
    using assms by (auto simp: keys_ok_def)
  show ?thesis using that find_commission_key[OF assms(1) c(1)] c(2) by simp
qed

text \<open>Operations that touch neither commissions nor allocations keep it.\<close>

lemma reservations_ok_cong:
  assumes "commissions t = commissions s" "allocations t = allocations s"
    and "map po_payoutId (payouts t) = map po_payoutId (payouts s)"
  shows "reservations_ok t = reservations_ok s" "keys_ok t = keys_ok s"
proof -
  have "po_payoutId ` set (payouts t) = po_payoutId ` set (payouts s)"
    using assms(3) by (metis list.set_map)
  then show "keys_ok t = keys_ok s" using assms by (simp add: keys_ok_def)
  then show "reservations_ok t = reservations_ok s"
    using assms by (simp add: reservations_ok_def reserved_total_def)
qed

lemma reservations_ok_update_payout [simp]:
  assumes "\<And>p. po_payoutId (f p) = po_payoutId p"
  shows "reservations_ok (update_payout i f s) = reservations_ok s"
    "keys_ok (update_payout i f s) = keys_ok s"
  by (rule reservations_ok_cong; simp add: map_update_where assms)+

lemma reservations_ok_emit [simp]:
  "reservations_ok (emit x s) = reservations_ok s" "keys_ok (emit x s) = keys_ok s"
  by (rule reservations_ok_cong; simp)+

section \<open>Rewriting allocations\<close>

lemma rewriteAllocation_simps [simp]:
  "payouts (rewriteAllocation to r st a s) = payouts s"
  "users (rewriteAllocation to r st a s) = users s"
  "book (rewriteAllocation to r st a s) = book s"
  "outbox (rewriteAllocation to r st a s) = outbox s"
  "marketerBanks (rewriteAllocation to r st a s) = marketerBanks s"
  "allocations (rewriteAllocation to r st a s) =
     update_where (\<lambda>b. al_allocationId b = al_allocationId a) (\<lambda>b. b\<lparr>al_status := to\<rparr>) (allocations s)"
  "commissions (rewriteAllocation to r st a s) = update_where (\<lambda>c. cm_commissionId c = al_commissionId a)
     (\<lambda>c. c\<lparr>cm_reservedAmount := r, cm_status := st\<rparr>) (commissions s)"
  by (simp_all add: rewriteAllocation_def)

lemma keys_ok_rewrite [simp]: "keys_ok (rewriteAllocation to r st a s) = keys_ok s"
proof -
  let ?s = "rewriteAllocation to r st a s"
  have maps: "map cm_commissionId (commissions ?s) = map cm_commissionId (commissions s)"
    "map al_allocationId (allocations ?s) = map al_allocationId (allocations s)"
    "map (\<lambda>a. (al_payoutId a, al_commissionId a)) (allocations ?s)
      = map (\<lambda>a. (al_payoutId a, al_commissionId a)) (allocations s)"
    "map (\<lambda>a. (al_commissionId a, al_payoutId a, al_allocatedAmount a)) (allocations ?s)
      = map (\<lambda>a. (al_commissionId a, al_payoutId a, al_allocatedAmount a)) (allocations s)"
    by (simp_all add: map_update_where)
  have img: "cm_commissionId ` set (commissions ?s) = cm_commissionId ` set (commissions s)"
    using maps(1) by (metis list.set_map)
  have rows: "(\<forall>a \<in> set (allocations ?s). P (al_commissionId a) (al_payoutId a) (al_allocatedAmount a)) =
      (\<forall>a \<in> set (allocations s). P (al_commissionId a) (al_payoutId a) (al_allocatedAmount a))" for P
    unfolding rewriteAllocation_simps set_update_where ball_simps(9) by (rule ball_cong[OF refl]) simp
  show ?thesis
    unfolding keys_ok_def maps img rows
    by (simp add: rows[of "\<lambda>c p x. c \<in> cm_commissionId ` set (commissions s) \<and>
        p \<in> po_payoutId ` set (payouts s) \<and> 0 < x"] del: rewriteAllocation_simps(6,7))
qed

definition held :: "CommissionAllocationStatus \<Rightarrow> allocation_row \<Rightarrow> decimal" where
  "held st a = (if st = CommissionAllocationStatus.RESERVED then al_allocatedAmount a else 0)"

lemma reserved_total_rewrite:
  assumes "keys_ok s" "a \<in> set (allocations s)"
  shows "reserved_total (rewriteAllocation to r st a s) cid =
    reserved_total s cid + (if al_commissionId a = cid then held to a - held (al_status a) a else 0)"
proof -
  have d: "distinct (map al_allocationId (allocations s))" using assms(1) by (simp add: keys_ok_def)
  show ?thesis
    unfolding reserved_total_def rewriteAllocation_simps sum_where_update_key[OF d assms(2)]
    by (auto simp: held_def)
qed

lemma find_commission_rewrite:
  "find_commission cid (rewriteAllocation to r st a s) =
     map_option (\<lambda>c. if cm_commissionId c = al_commissionId a
       then c\<lparr>cm_reservedAmount := r, cm_status := st\<rparr> else c) (find_commission cid s)"
  unfolding find_commission_def rewriteAllocation_simps by (rule find_update_where) simp

lemma reservations_ok_rewrite:
  assumes ok: "reservations_ok s" and a: "a \<in> set (allocations s)"
    and c: "find_commission (al_commissionId a) s = Some c"
    and r: "r = cm_reservedAmount c + held to a - held (al_status a) a"
  shows "reservations_ok (rewriteAllocation to r st a s)"
proof -
  have keys: "keys_ok s" using ok by (simp add: reservations_ok_def)
  have "cm_reservedAmount d = reserved_total (rewriteAllocation to r st a s) (cm_commissionId d)"
    if "d \<in> set (commissions (rewriteAllocation to r st a s))" for d
  proof -
    obtain b where b: "b \<in> set (commissions s)"
      and d: "d = (if cm_commissionId b = al_commissionId a
        then b\<lparr>cm_reservedAmount := r, cm_status := st\<rparr> else b)"
      using \<open>d \<in> _\<close> by (auto simp: set_update_where)
    have bal: "cm_reservedAmount b = reserved_total s (cm_commissionId b)"
      using ok b by (simp add: reservations_ok_def)
    have "b = c" if "cm_commissionId b = al_commissionId a"
      using find_commission_key[OF keys b] c that by simp
    with bal d r show ?thesis
      by (cases "cm_commissionId b = al_commissionId a")
        (auto simp: reserved_total_rewrite[OF keys a])
  qed
  with keys show ?thesis by (simp add: reservations_ok_def)
qed

text \<open>
  The contract of the handlers' loops: the step for an allocation in state \<open>src\<close> writes it
  and its commission as \<open>rewriteAllocation\<close> does, moving it to \<open>dst\<close> and the reserved
  amount, read from the snapshot \<open>s0\<close>, by the difference.  Under it a whole loop over the
  allocations of one payout keeps the reservation invariant, and every one of them ends in
  state \<open>dst\<close>.
\<close>

locale allocation_loop =
  fixes src dst :: CommissionAllocationStatus
    and step :: "db \<Rightarrow> allocation_row \<Rightarrow> db \<Rightarrow> db"
  assumes step_eq: "al_status a = src \<Longrightarrow> find_commission (al_commissionId a) s0 = Some c \<Longrightarrow>
      \<exists>st. step s0 a s = rewriteAllocation dst (cm_reservedAmount c + held dst a - held src a) st a s"
begin

lemma loop_keeps:
  assumes "reservations_ok s" "distinct (map al_commissionId as)" "distinct (map al_allocationId as)"
    and "\<forall>a \<in> set as. a \<in> set (allocations s) \<and> al_status a = src \<and>
      (\<exists>c. find_commission (al_commissionId a) s = Some c \<and> find_commission (al_commissionId a) s0 = Some c)"
  shows "reservations_ok (foldl (\<lambda>t a. step s0 a t) s as) \<and>
    payouts (foldl (\<lambda>t a. step s0 a t) s as) = payouts s \<and>
    book (foldl (\<lambda>t a. step s0 a t) s as) = book s \<and>
    users (foldl (\<lambda>t a. step s0 a t) s as) = users s \<and>
    outbox (foldl (\<lambda>t a. step s0 a t) s as) = outbox s \<and>
    allocations (foldl (\<lambda>t a. step s0 a t) s as) =
      update_where (\<lambda>b. al_allocationId b \<in> al_allocationId ` set as) (\<lambda>b. b\<lparr>al_status := dst\<rparr>) (allocations s)"
  using assms
proof (induction as arbitrary: s)
  case Nil
  then show ?case by (simp add: update_where_no_match)
next
  case (Cons a as)
  obtain c where c: "find_commission (al_commissionId a) s = Some c"
      "find_commission (al_commissionId a) s0 = Some c"
    and a: "a \<in> set (allocations s)" "al_status a = src"
    using Cons.prems(4) by auto
  obtain st where st: "step s0 a s = rewriteAllocation dst (cm_reservedAmount c + held dst a - held src a) st a s"
    using step_eq[OF a(2) c(2)] by blast
  let ?s = "step s0 a s"
  have ok: "reservations_ok ?s"
    unfolding st by (rule reservations_ok_rewrite[OF Cons.prems(1) a(1) c(1)]) (simp add: a(2))
  have rest: "b \<in> set (allocations ?s) \<and> al_status b = src \<and>
      (\<exists>c. find_commission (al_commissionId b) ?s = Some c \<and> find_commission (al_commissionId b) s0 = Some c)"
    if "b \<in> set as" for b
  proof -
    have "al_allocationId b \<noteq> al_allocationId a" "al_commissionId b \<noteq> al_commissionId a"
      using Cons.prems(2,3) that by (auto simp: image_iff)
    moreover obtain d where "find_commission (al_commissionId b) s = Some d"
        "find_commission (al_commissionId b) s0 = Some d" "b \<in> set (allocations s)" "al_status b = src"
      using Cons.prems(4) \<open>b \<in> set as\<close> by auto
    ultimately show ?thesis
      by (auto simp: st find_commission_rewrite update_where_key_other dest: find_commission_set)
  qed
  have "update_where (\<lambda>b. al_allocationId b \<in> al_allocationId ` set as) (\<lambda>b. b\<lparr>al_status := dst\<rparr>)
      (update_where (\<lambda>b. al_allocationId b = al_allocationId a) (\<lambda>b. b\<lparr>al_status := dst\<rparr>) (allocations s))
    = update_where (\<lambda>b. al_allocationId b \<in> al_allocationId ` set (a # as)) (\<lambda>b. b\<lparr>al_status := dst\<rparr>) (allocations s)"
    by (auto simp: update_where_def)
  then show ?case
    using Cons.IH[OF ok] Cons.prems(2,3) rest by (simp add: st)
qed

text \<open>The loop as the handlers start it: snapshot and state agree, one payout's allocations.\<close>

lemma payout_loop_keeps:
  fixes pid :: ident
  assumes "reservations_ok s" and "commissions s0 = commissions s" "allocations s0 = allocations s"
  defines "as \<equiv> filter (\<lambda>a. al_payoutId a = pid \<and> al_status a = src) (allocations s0)"
  shows "reservations_ok (foldl (\<lambda>t a. step s0 a t) s as) \<and>
    payouts (foldl (\<lambda>t a. step s0 a t) s as) = payouts s \<and>
    book (foldl (\<lambda>t a. step s0 a t) s as) = book s \<and>
    users (foldl (\<lambda>t a. step s0 a t) s as) = users s \<and>
    outbox (foldl (\<lambda>t a. step s0 a t) s as) = outbox s \<and>
    allocations (foldl (\<lambda>t a. step s0 a t) s as) =
      update_where (\<lambda>b. al_payoutId b = pid \<and> al_status b = src) (\<lambda>b. b\<lparr>al_status := dst\<rparr>) (allocations s)"
proof -
  have keys: "keys_ok s" using assms(1) by (simp add: reservations_ok_def)
  have dk: "distinct (map (\<lambda>a. (al_payoutId a, al_commissionId a)) as)"
    using keys by (auto simp: as_def keys_ok_def assms(3) distinct_map intro: inj_on_subset)
  then have dc: "distinct (map al_commissionId as)"
    unfolding distinct_map by (auto simp: as_def inj_on_def)
  have da: "distinct (map al_allocationId as)"
    using keys by (auto simp: as_def keys_ok_def assms(3) distinct_map intro: inj_on_subset)
  have rows: "\<forall>a \<in> set as. a \<in> set (allocations s) \<and> al_status a = src \<and>
      (\<exists>c. find_commission (al_commissionId a) s = Some c \<and> find_commission (al_commissionId a) s0 = Some c)"
    using find_commission_exists[OF keys] by (auto simp: as_def assms(3) find_commission_def assms(2))
  have inj: "inj_on al_allocationId (set (allocations s))" using keys by (simp add: keys_ok_def distinct_map)
  have same: "b \<in> set (allocations s) \<Longrightarrow>
      (al_allocationId b \<in> al_allocationId ` set as) = (al_payoutId b = pid \<and> al_status b = src)" for b
    using inj by (auto simp: as_def assms(3) dest: inj_onD)
  have "update_where (\<lambda>b. al_allocationId b \<in> al_allocationId ` set as) (\<lambda>b. b\<lparr>al_status := dst\<rparr>) (allocations s)
    = update_where (\<lambda>b. al_payoutId b = pid \<and> al_status b = src) (\<lambda>b. b\<lparr>al_status := dst\<rparr>) (allocations s)"
    unfolding update_where_def by (rule map_cong) (auto simp: same)
  with loop_keeps[OF assms(1) dc da rows] show ?thesis by simp
qed

end

interpretation retry: allocation_loop CommissionAllocationStatus.RELEASED CommissionAllocationStatus.RESERVED reReserve
  by unfold_locales (auto simp: reReserve_def Let_def held_def)

section \<open>Every operation keeps the reservation invariant\<close>

text \<open>Identifiers drawn during an operation are new and distinct.\<close>

definition fresh_uuids :: "env \<Rightarrow> db \<Rightarrow> bool" where
  "fresh_uuids e s \<longleftrightarrow> inj (env_uuid e) \<and>
     (\<forall>i. env_uuid e i \<notin> po_payoutId ` set (payouts s) \<and> env_uuid e i \<notin> al_allocationId ` set (allocations s))"

definition new_allocation :: "ident \<Rightarrow> ident \<Rightarrow> allocation_entry \<Rightarrow> allocation_row" where
  "new_allocation payoutId newId x =
     \<lparr>al_allocationId = newId, al_payoutId = payoutId, al_commissionId = ae_commissionId x,
      al_allocatedAmount = ae_toAllocate x, al_status = CommissionAllocationStatus.RESERVED\<rparr>"

lemma applyEntry_simps [simp]:
  "allocations (applyEntry p i x s) = allocations s @ [new_allocation p i x]"
  "payouts (applyEntry p i x s) = payouts s" "users (applyEntry p i x s) = users s"
  "book (applyEntry p i x s) = book s" "outbox (applyEntry p i x s) = outbox s"
  "commissions (applyEntry p i x s) = update_where (\<lambda>c. cm_commissionId c = ae_commissionId x)
     (\<lambda>c. c\<lparr>cm_reservedAmount := ae_currentReserved x + ae_toAllocate x,
            cm_status := deriveReservationStatus (ae_currentReserved x + ae_toAllocate x) (ae_totalAmount x)\<rparr>)
     (commissions s)"
  by (simp_all add: applyEntry_def Let_def new_allocation_def)

lemma reservations_ok_applyEntry:
  assumes ok: "reservations_ok s" and c: "find_commission (ae_commissionId x) s = Some c"
    and snap: "ae_currentReserved x = cm_reservedAmount c" and pos: "0 < ae_toAllocate x"
    and new: "i \<notin> al_allocationId ` set (allocations s)" and p: "p \<in> po_payoutId ` set (payouts s)"
    and pair: "(p, ae_commissionId x) \<notin> (\<lambda>a. (al_payoutId a, al_commissionId a)) ` set (allocations s)"
  shows "reservations_ok (applyEntry p i x s)"
proof -
  have keys: "keys_ok s" using ok by (simp add: reservations_ok_def)
  have ids: "map cm_commissionId (commissions (applyEntry p i x s)) = map cm_commissionId (commissions s)"
    by (simp add: map_update_where)
  have img: "cm_commissionId ` set (commissions (applyEntry p i x s)) = cm_commissionId ` set (commissions s)"
    using ids by (metis list.set_map)
  have xc: "ae_commissionId x \<in> cm_commissionId ` set (commissions s)"
    using find_commission_set[OF c] by (metis imageI)
  have keys': "keys_ok (applyEntry p i x s)"
    using keys new p pair pos xc unfolding keys_ok_def ids img
    by (auto simp: new_allocation_def)
  have tot: "reserved_total (applyEntry p i x s) cid =
      reserved_total s cid + (if ae_commissionId x = cid then ae_toAllocate x else 0)" for cid
    by (simp add: reserved_total_def sum_where_append sum_where_Cons new_allocation_def)
  have "cm_reservedAmount d = reserved_total (applyEntry p i x s) (cm_commissionId d)"
    if d_in: "d \<in> set (commissions (applyEntry p i x s))" for d
  proof -
    obtain b where b: "b \<in> set (commissions s)" and d: "cm_commissionId d = cm_commissionId b"
      "cm_reservedAmount d = (if cm_commissionId b = ae_commissionId x
        then ae_currentReserved x + ae_toAllocate x else cm_reservedAmount b)"
      using d_in by (auto simp: set_update_where split: if_splits)
    have bal: "cm_reservedAmount b = reserved_total s (cm_commissionId b)"
      using ok b by (simp add: reservations_ok_def)
    have "b = c" if "cm_commissionId b = ae_commissionId x"
      using find_commission_key[OF keys b] c that by simp
    with bal d snap show ?thesis by (auto simp: tot)
  qed
  with keys' show ?thesis by (simp add: reservations_ok_def)
qed

lemma find_commission_applyEntry:
  "cid \<noteq> ae_commissionId x \<Longrightarrow> find_commission cid (applyEntry p i x s) = find_commission cid s"
  unfolding find_commission_def applyEntry_simps
  by (subst find_update_where, simp, cases "find (\<lambda>c. cm_commissionId c = cid) (commissions s)")
    (auto dest!: find_set)

lemma applyPlan_keeps:
  assumes "reservations_ok s" "distinct (map ae_commissionId xs)" "p \<in> po_payoutId ` set (payouts s)"
    and "inj uuid" "\<forall>j \<ge> i. uuid j \<notin> al_allocationId ` set (allocations s)"
    and "\<forall>x \<in> set xs. 0 < ae_toAllocate x \<and>
      (p, ae_commissionId x) \<notin> (\<lambda>a. (al_payoutId a, al_commissionId a)) ` set (allocations s) \<and>
      (\<exists>c. find_commission (ae_commissionId x) s = Some c \<and> ae_currentReserved x = cm_reservedAmount c)"
  shows "reservations_ok (applyPlan p uuid i xs s) \<and>
    payouts (applyPlan p uuid i xs s) = payouts s \<and> users (applyPlan p uuid i xs s) = users s \<and>
    book (applyPlan p uuid i xs s) = book s \<and> outbox (applyPlan p uuid i xs s) = outbox s \<and>
    (\<exists>ys. allocations (applyPlan p uuid i xs s) = allocations s @ ys \<and>
      map al_commissionId ys = map ae_commissionId xs \<and> map al_allocatedAmount ys = map ae_toAllocate xs \<and>
      (\<forall>y \<in> set ys. al_payoutId y = p \<and> al_status y = CommissionAllocationStatus.RESERVED))"
  using assms
proof (induction xs arbitrary: i s)
  case Nil
  then show ?case by simp
next
  case (Cons x xs)
  let ?s = "applyEntry p (uuid i) x s"
  obtain c where c: "find_commission (ae_commissionId x) s = Some c" "ae_currentReserved x = cm_reservedAmount c"
    using Cons.prems(6) by auto
  have ok: "reservations_ok ?s"
    using Cons.prems by (intro reservations_ok_applyEntry[OF _ c]) auto
  have new: "\<forall>j \<ge> Suc i. uuid j \<notin> al_allocationId ` set (allocations ?s)"
    using Cons.prems(4,5) by (auto simp: new_allocation_def dest: injD)
  have rest: "\<forall>y \<in> set xs. 0 < ae_toAllocate y \<and>
      (p, ae_commissionId y) \<notin> (\<lambda>a. (al_payoutId a, al_commissionId a)) ` set (allocations ?s) \<and>
      (\<exists>c. find_commission (ae_commissionId y) ?s = Some c \<and> ae_currentReserved y = cm_reservedAmount c)"
  proof
    fix y assume y: "y \<in> set xs"
    then have "ae_commissionId y \<noteq> ae_commissionId x" using Cons.prems(2) by (auto simp: image_iff)
    with Cons.prems(6) y show "0 < ae_toAllocate y \<and>
      (p, ae_commissionId y) \<notin> (\<lambda>a. (al_payoutId a, al_commissionId a)) ` set (allocations ?s) \<and>
      (\<exists>c. find_commission (ae_commissionId y) ?s = Some c \<and> ae_currentReserved y = cm_reservedAmount c)"
      by (auto simp: find_commission_applyEntry new_allocation_def)
  qed
  from Cons.IH[OF ok _ _ Cons.prems(4) new rest] Cons.prems(2,3)
  obtain ys where ys: "reservations_ok (applyPlan p uuid (Suc i) xs ?s)"
    "payouts (applyPlan p uuid (Suc i) xs ?s) = payouts s" "users (applyPlan p uuid (Suc i) xs ?s) = users s"
    "book (applyPlan p uuid (Suc i) xs ?s) = book s" "outbox (applyPlan p uuid (Suc i) xs ?s) = outbox s"
    "allocations (applyPlan p uuid (Suc i) xs ?s) = (allocations s @ [new_allocation p (uuid i) x]) @ ys"
    "map al_commissionId ys = map ae_commissionId xs" "map al_allocatedAmount ys = map ae_toAllocate xs"
    "\<forall>y \<in> set ys. al_payoutId y = p \<and> al_status y = CommissionAllocationStatus.RESERVED"
    by auto
  then show ?case
    by (intro conjI exI[of _ "new_allocation p (uuid i) x # ys"]) (auto simp: new_allocation_def)
qed

lemma lockedCommissions_set:
  "set (lockedCommissions uid s) = {c \<in> set (commissions s). cm_userId c = uid \<and>
     cm_status c \<notin> {CommissionStatus.PAID, CommissionStatus.FROZEN} \<and> cm_reservedAmount c < cm_amount c}"
  by (auto simp: lockedCommissions_def)

lemma lockedCommissions_distinct:
  "keys_ok s \<Longrightarrow> distinct (map cm_commissionId (lockedCommissions uid s))"
  by (auto simp: lockedCommissions_def keys_ok_def distinct_map distinct_filter intro: inj_on_subset)

lemma reservePayout_spec:
  assumes ok: "reservations_ok s" and fresh: "fresh_uuids e s" and amt: "0 < amount"
    and res: "reservePayout e user companyId creatorRole amount s = (Inr request, s')"
  shows "reservations_ok s'" "payouts s' = payouts s @ [request]" "users s' = users s" "book s' = book s"
    "po_payoutId request = env_uuid e 0" "po_amount request = amount"
    "\<exists>ys. allocations s' = allocations s @ ys \<and> sum_list (map al_allocatedAmount ys) = amount \<and>
       map al_commissionId ys = map ae_commissionId (allocationPlan amount (lockedCommissions (u_userId user) s)) \<and>
       map al_allocatedAmount ys = map ae_toAllocate (allocationPlan amount (lockedCommissions (u_userId user) s)) \<and>
       (\<forall>y \<in> set ys. al_payoutId y = po_payoutId request \<and> al_status y = CommissionAllocationStatus.RESERVED)"
proof -
  let ?cs = "lockedCommissions (u_userId user) s"
  let ?plan = "allocationPlan amount ?cs"
  let ?s = "s\<lparr>payouts := payouts s @ [request]\<rparr>"
  have req: "po_payoutId request = env_uuid e 0" "po_amount request = amount" "amount \<le> totalAvailable ?cs"
    and s': "s' = applyPlan (env_uuid e 0) (env_uuid e) 1 ?plan ?s"
    using res by (auto simp: reservePayout_def Let_def new_payout_def split: if_splits)
  have keys: "keys_ok s" using ok by (simp add: reservations_ok_def)
  have keys1: "keys_ok ?s"
    using keys fresh by (auto simp: keys_ok_def fresh_uuids_def req)
  have ok1: "reservations_ok ?s"
    using ok keys1 by (simp add: reservations_ok_def reserved_total_def)
  obtain n where n: "map ae_commissionId ?plan = map cm_commissionId (take n ?cs)"
    using allocationPlan_fifo[of ?cs amount] by (auto simp: lockedCommissions_set)
  have dist: "distinct (map ae_commissionId ?plan)"
    unfolding n take_map[symmetric] by (intro distinct_take lockedCommissions_distinct keys)
  have unused: "env_uuid e 0 \<notin> al_payoutId ` set (allocations s)"
    using keys fresh by (force simp: keys_ok_def fresh_uuids_def)
  have rows: "\<forall>x \<in> set ?plan. 0 < ae_toAllocate x \<and>
      (env_uuid e 0, ae_commissionId x) \<notin> (\<lambda>a. (al_payoutId a, al_commissionId a)) ` set (allocations ?s) \<and>
      (\<exists>c. find_commission (ae_commissionId x) ?s = Some c \<and> ae_currentReserved x = cm_reservedAmount c)"
  proof
    fix x assume "x \<in> set ?plan"
    then obtain c where c: "c \<in> set ?cs" "ae_commissionId x = cm_commissionId c"
      "ae_currentReserved x = cm_reservedAmount c" "0 < ae_toAllocate x"
      using allocationPlan_entries by blast
    then have "find_commission (cm_commissionId c) s = Some c"
      using find_commission_key[OF keys] by (simp add: lockedCommissions_set)
    then show "0 < ae_toAllocate x \<and>
      (env_uuid e 0, ae_commissionId x) \<notin> (\<lambda>a. (al_payoutId a, al_commissionId a)) ` set (allocations ?s) \<and>
      (\<exists>c. find_commission (ae_commissionId x) ?s = Some c \<and> ae_currentReserved x = cm_reservedAmount c)"
      using c unused by (auto simp: find_commission_def)
  qed
  have uu: "inj (env_uuid e)" "\<forall>j \<ge> 1. env_uuid e j \<notin> al_allocationId ` set (allocations ?s)"
    using fresh by (auto simp: fresh_uuids_def)
  have pid: "env_uuid e 0 \<in> po_payoutId ` set (payouts ?s)" by (simp add: req)
  note keeps = applyPlan_keeps[OF ok1 dist pid uu rows, folded s']
  have sum: "allocated ?plan = amount"
    using amt req(3) by (intro allocationPlan_sum) (auto simp: lockedCommissions_set)
  show "reservations_ok s'" "payouts s' = payouts s @ [request]" "users s' = users s" "book s' = book s"
    "po_payoutId request = env_uuid e 0" "po_amount request = amount"
    using keeps req by auto
  obtain ys where ys: "allocations s' = allocations s @ ys" "map al_commissionId ys = map ae_commissionId ?plan"
    "map al_allocatedAmount ys = map ae_toAllocate ?plan"
    "\<forall>y \<in> set ys. al_payoutId y = env_uuid e 0 \<and> al_status y = CommissionAllocationStatus.RESERVED"
    using keeps by auto
  then show "\<exists>ys. allocations s' = allocations s @ ys \<and> sum_list (map al_allocatedAmount ys) = amount \<and>
       map al_commissionId ys = map ae_commissionId ?plan \<and>
       map al_allocatedAmount ys = map ae_toAllocate ?plan \<and>
       (\<forall>y \<in> set ys. al_payoutId y = po_payoutId request \<and> al_status y = CommissionAllocationStatus.RESERVED)"
    using sum by (intro exI[of _ ys]) (simp add: allocated_def req)
qed

text \<open>A successful request went through every guard and the transaction.\<close>

lemma requestPayout_success:
  assumes "requestPayout e userId amount s = (Inr request, s')"
  obtains user companyId creatorRole t where
    "find_user userId s = Some user" "or_null (u_companyId user) = Some companyId" "0 < amount"
    "find (\<lambda>p. po_userId p = userId \<and> po_status p \<in> in_progress) (payouts s) = None"
    "creatorRoleOf user s = Some creatorRole"
    "reservePayout e user companyId creatorRole amount s = (Inr request, t)"
    "commissions s' = commissions t" "allocations s' = allocations t" "payouts s' = payouts t"
    "users s' = users t" "book s' = book t"
  using assms
  by (auto simp: requestPayout_def transaction_def split: option.splits if_splits prod.splits sum.splits)

lemma requestPayout_failure: "requestPayout e userId amount s = (Inl err, s') \<Longrightarrow> s' = s"
  by (auto simp: requestPayout_def transaction_def split: option.splits if_splits prod.splits sum.splits)

lemma reservations_ok_requestPayout [inv_intros]:
  assumes "reservations_ok s" "fresh_uuids e s"
  shows "reservations_ok (snd (requestPayout e userId amount s))"
proof (cases "requestPayout e userId amount s")
  case (Pair r s')
  show ?thesis
  proof (cases r)
    case (Inl err)
    with Pair requestPayout_failure assms(1) show ?thesis by fastforce
  next
    case (Inr request)
    with Pair have "requestPayout e userId amount s = (Inr request, s')" by simp
    then obtain user companyId creatorRole t where
      t: "0 < amount" "reservePayout e user companyId creatorRole amount s = (Inr request, t)"
      "commissions s' = commissions t" "allocations s' = allocations t" "payouts s' = payouts t"
      by (rule requestPayout_success)
    have "reservations_ok t" by (rule reservePayout_spec(1)[OF assms t(1,2)])
    with t(3-5) Pair show ?thesis by (simp add: reservations_ok_cong(1)[of s' t])
  qed
qed

lemma reservations_ok_adminApprove [inv_intros]:
  "reservations_ok s \<Longrightarrow> reservations_ok (snd (adminApprovePayout e pid uid s))"
  by (auto simp: adminApprovePayout_def split: option.splits)

lemma reservations_ok_companyApprove [inv_intros]:
  "reservations_ok s \<Longrightarrow> reservations_ok (snd (companyApprovePayout e pid uid s))"
  by (auto simp: companyApprovePayout_def split: option.splits)

lemma reservations_ok_reReserveReleased:
  "reservations_ok s \<Longrightarrow> reservations_ok (reReserveReleased pid s)"
  using retry.payout_loop_keeps[OF _ refl refl, of s pid] by (simp add: reReserveReleased_def)

lemma reservations_ok_initiateTransfer [inv_intros]:
  "reservations_ok s \<Longrightarrow> reservations_ok (snd (initiateTransfer e pid uid s))"
  by (auto simp: initiateTransfer_def startTransfer_def Let_def reservations_ok_reReserveReleased split: option.splits)

lemma reservations_ok_bulkLoop:
  "reservations_ok s \<Longrightarrow> reservations_ok (snd (bulkLoop e uid is s))"
proof (induction "is" arbitrary: s)
  case (Cons i "is")
  have "reservations_ok (snd (initiateTransfer e i uid s))"
    by (rule reservations_ok_initiateTransfer[OF Cons.prems])
  from Cons.IH[OF this] show ?case by (simp add: split_beta Let_def)
qed simp

lemma reservations_ok_bulk [inv_intros]:
  "reservations_ok s \<Longrightarrow> reservations_ok (snd (initiateBulkTransfer e ids uid s))"
  using reservations_ok_bulkLoop by (auto simp: initiateBulkTransfer_def Let_def split_beta split: option.splits)

end
