(* ===== verification/JsNumber.thy ===== *)
theory JsNumber
  imports Prelude "HOL-Library.Log_Nat"
begin

text \<open>
  JavaScript numbers, as far as the money code uses them.  A finite \<open>Number\<close> is the rational
  it denotes; an operation rounds the exact result to the nearest binary64 value, ties to even
  (53 significant bits).  Amounts of this program are far from the limits of the exponent, so
  overflow and subnormal values are left out.  \<open>Number(decimal)\<close> is \<open>fl\<close>, \<open>Math.round\<close>
  and \<open>Math.floor\<close> are \<open>jsRound\<close> and \<open>floor\<close>.
\<close>

section \<open>Rounding to binary64\<close>

text \<open>The exponent of a non-zero value: \<open>2 powi fexp x \<le> \<bar>x\<bar> < 2 powi (fexp x + 1)\<close>.\<close>

definition fexp :: "rat \<Rightarrow> int" where
  "fexp x =
     (let (n, d) = quotient_of \<bar>x\<bar>;
          e = int (floorlog 2 (nat n)) - int (floorlog 2 (nat d))
      in if 2 powi e \<le> \<bar>x\<bar> then e else e - 1)"

text \<open>The distance of neighbouring values around \<open>x\<close>.\<close>

definition ulp :: "rat \<Rightarrow> rat" where
  "ulp x = 2 powi (fexp x - 52)"

definition roundHalfEven :: "rat \<Rightarrow> int" where
  "roundHalfEven x =
     (let f = \<lfloor>x\<rfloor>; r = x - of_int f in
      if r < 1/2 then f else if 1/2 < r then f + 1 else if even f then f else f + 1)"

definition fl :: "rat \<Rightarrow> rat" where
  "fl x = (if x = 0 then 0 else of_int (roundHalfEven (x / ulp x)) * ulp x)"

definition jsMul :: "rat \<Rightarrow> rat \<Rightarrow> rat" where
  "jsMul a b = fl (a * b)"

definition jsDiv :: "rat \<Rightarrow> rat \<Rightarrow> rat" where
  "jsDiv a b = fl (a / b)"

definition jsRound :: "rat \<Rightarrow> int" where
  "jsRound x = \<lfloor>x + 1/2\<rfloor>"

text \<open>\<open>Number(amount) * 100\<close>, the conversion from naira to kobo used before every Paystack call.\<close>

definition toKobo :: "decimal \<Rightarrow> rat" where
  "toKobo amount = jsMul (fl amount) 100"

section \<open>Error bounds\<close>

lemma roundHalfEven_error: "\<bar>of_int (roundHalfEven x) - x\<bar> \<le> 1/2"
proof -
  have "0 \<le> x - of_int \<lfloor>x\<rfloor>" "x - of_int \<lfloor>x\<rfloor> < 1"
    using of_int_floor_le[of x] floor_correct[of x] by linarith+
  then show ?thesis
    using of_int_floor_le[of x] by (simp add: roundHalfEven_def Let_def abs_if) linarith
qed

lemma roundHalfEven_int [simp]: "roundHalfEven (of_int k) = k"
  by (simp add: roundHalfEven_def)

lemma ulp_pos [simp]: "0 < ulp x"
  by (simp add: ulp_def)

lemma floorlog_rat_bounds:
  assumes "0 < n"
  shows "2 powi (int (floorlog 2 n) - 1) \<le> (of_nat n :: rat)" "(of_nat n :: rat) < 2 powi int (floorlog 2 n)"
proof -
  have b: "2 ^ (floorlog 2 n - 1) \<le> n \<and> n < 2 ^ floorlog 2 n"
    using floorlog_bounds[of n 2] assms by simp
  have f: "0 < floorlog 2 n" using assms floorlog_eq_zero_iff[of 2 n] by linarith
  have "(2::rat) powi (int (floorlog 2 n) - 1) = of_nat (2 ^ (floorlog 2 n - 1))"
    using f by (simp add: power_int_def nat_diff_distrib)
  also have "\<dots> \<le> of_nat n" using b by (simp only: of_nat_le_iff)
  finally show "2 powi (int (floorlog 2 n) - 1) \<le> (of_nat n :: rat)" .
  have "(of_nat n :: rat) < of_nat (2 ^ floorlog 2 n)" using b by (simp only: of_nat_less_iff)
  then show "(of_nat n :: rat) < 2 powi int (floorlog 2 n)" by (simp add: power_int_def)
qed

lemma fexp_bounds:
  assumes "x \<noteq> 0"
  shows "2 powi fexp x \<le> \<bar>x\<bar>" "\<bar>x\<bar> < 2 powi (fexp x + 1)"
proof -
  obtain n d where q: "quotient_of \<bar>x\<bar> = (n, d)" by force
  have d: "0 < d" and x: "\<bar>x\<bar> = of_int n / of_int d"
    using quotient_of_denom_pos[OF q] quotient_of_div[OF q] by auto
  have "0 < (of_int n :: rat) / of_int d" using assms x by (metis zero_less_abs_iff)
  then have n: "0 < n" using d by (simp add: zero_less_divide_iff)
  let ?a = "floorlog 2 (nat n)" and ?b = "floorlog 2 (nat d)"
  have nb: "2 powi (int ?a - 1) \<le> (of_int n :: rat)" "(of_int n :: rat) < 2 powi int ?a"
    using floorlog_rat_bounds[of "nat n"] n by simp_all
  have db: "2 powi (int ?b - 1) \<le> (of_int d :: rat)" "(of_int d :: rat) < 2 powi int ?b"
    using floorlog_rat_bounds[of "nat d"] d by simp_all
  have upper: "\<bar>x\<bar> < 2 powi (int ?a - int ?b + 1)"
  proof -
    have "\<bar>x\<bar> < 2 powi int ?a / 2 powi (int ?b - 1)"
      unfolding x using nb(2) db(1) n d by (intro frac_less) auto
    then show ?thesis by (simp add: power_int_diff power_int_add)
  qed
  have lower: "2 powi (int ?a - int ?b - 1) \<le> \<bar>x\<bar>"
  proof -
    have "2 powi (int ?a - 1) / 2 powi int ?b \<le> \<bar>x\<bar>"
      unfolding x using nb(1) db(2) n d by (intro frac_le) auto
    then show ?thesis by (simp add: power_int_diff)
  qed
  show "2 powi fexp x \<le> \<bar>x\<bar>" using lower by (simp add: fexp_def q Let_def)
  show "\<bar>x\<bar> < 2 powi (fexp x + 1)" using upper by (simp add: fexp_def q Let_def)
qed

lemma fl_abs_error: "\<bar>fl x - x\<bar> \<le> ulp x / 2"
proof (cases "x = 0")
  case False
  have nz: "ulp x \<noteq> 0" using ulp_pos[of x] by linarith
  have "fl x - x = (of_int (roundHalfEven (x / ulp x)) - x / ulp x) * ulp x"
    using False nz by (simp add: fl_def left_diff_distrib)
  then have "\<bar>fl x - x\<bar> = \<bar>of_int (roundHalfEven (x / ulp x)) - x / ulp x\<bar> * ulp x"
    by (simp add: abs_mult less_imp_le)
  also have "\<dots> \<le> 1/2 * ulp x"
    by (intro mult_right_mono roundHalfEven_error less_imp_le ulp_pos)
  finally show ?thesis by simp
qed (simp add: fl_def less_imp_le)

text \<open>The relative error of one rounding is at most half an ulp of 1.\<close>

lemma fl_rel_error: "\<bar>fl x - x\<bar> \<le> \<bar>x\<bar> / 2 ^ 53"
proof (cases "x = 0")
  case False
  have "ulp x / 2 = 2 powi fexp x / 2 ^ 53"
    by (simp add: ulp_def power_int_diff)
  then show ?thesis
    using fl_abs_error[of x] fexp_bounds(1)[OF False] by simp
qed (simp add: fl_def)

lemma fl_exact: "x = of_int k * ulp x \<Longrightarrow> fl x = x"
proof (cases "x = 0")
  case False
  assume x: "x = of_int k * ulp x"
  then have "x / ulp x = of_int k" using ulp_pos[of x] by (metis less_irrefl nonzero_mult_div_cancel_right)
  then have "fl x = of_int k * ulp x" using False by (simp add: fl_def)
  with x show ?thesis by simp
qed (simp add: fl_def)

text \<open>Whole numbers below \<open>2 ^ 53\<close> are values.\<close>

lemma fl_int:
  assumes "\<bar>k\<bar> < 2 ^ 53"
  shows "fl (of_int k) = of_int k"
proof (cases "k = 0")
  case False
  let ?x = "of_int k :: rat"
  have "(2::rat) powi fexp ?x \<le> \<bar>?x\<bar>" using fexp_bounds(1)[of ?x] False by simp
  also have "\<dots> < of_int (2 ^ 53)" using assms by (simp only: of_int_abs[symmetric] of_int_less_iff)
  finally have "(2::rat) powi fexp ?x < 2 powi 53" by simp
  then have "fexp ?x < 53" by (intro power_int_le_imp_less_exp[of 2]) auto
  then have e: "fexp ?x \<le> 52" by simp
  have "?x = of_int (k * 2 ^ nat (52 - fexp ?x)) * ulp ?x"
    using e by (simp add: ulp_def power_int_diff power_int_def field_simps flip: power_add)
  then show ?thesis by (rule fl_exact)
qed (simp add: fl_def)

section \<open>Kobo amounts\<close>

text \<open>Whole-naira amounts convert exactly.\<close>

lemma toKobo_whole:
  assumes "\<bar>k\<bar> * 100 < 2 ^ 53"
  shows "toKobo (of_int k) = of_int (k * 100)"
proof -
  have "fl (of_int k) = of_int k" using assms by (intro fl_int) linarith
  moreover have "fl (of_int (k * 100)) = of_int (k * 100)"
    using assms by (intro fl_int) (simp add: abs_mult)
  ultimately show ?thesis by (simp add: toKobo_def jsMul_def)
qed

lemma powi_le_abs: "(2::rat) powi e \<le> \<bar>x\<bar> \<Longrightarrow> x \<noteq> 0"
  using zero_less_power_int[of "2::rat" e] by (metis abs_zero leD zero_less_numeral)

lemma fexp_unique:
  assumes "2 powi e \<le> \<bar>x\<bar>" "\<bar>x\<bar> < 2 powi (e + 1)"
  shows "fexp x = e"
proof -
  have "x \<noteq> 0" using assms(1) by (rule powi_le_abs)
  note b = fexp_bounds[OF this]
  have "\<not> fexp x < e"
  proof
    assume "fexp x < e"
    then have "(2::rat) powi (fexp x + 1) \<le> 2 powi e" by (intro power_int_increasing) auto
    with b(2) assms(1) show False by linarith
  qed
  moreover have "\<not> e < fexp x"
  proof
    assume "e < fexp x"
    then have "(2::rat) powi (e + 1) \<le> 2 powi fexp x" by (intro power_int_increasing) auto
    with b(1) assms(2) show False by linarith
  qed
  ultimately show ?thesis by linarith
qed

text \<open>An amount that does not: 19.99 naira is sent as 1998.99\<dots> kobo.\<close>

lemma roundHalfEven_close:
  assumes "\<bar>x - of_int m\<bar> < 1/2"
  shows "roundHalfEven x = m"
proof -
  have "\<bar>(of_int (roundHalfEven x) :: rat) - of_int m\<bar> < 1"
    using roundHalfEven_error[of x] assms by linarith
  then have "\<bar>roundHalfEven x - m\<bar> < 1"
    by (metis of_int_abs of_int_diff of_int_less_1_iff)
  then show ?thesis by simp
qed

text \<open>How a rounding is evaluated: give the exponent and the significand.\<close>

lemma fl_eqI:
  assumes "2 powi e \<le> \<bar>x\<bar>" "\<bar>x\<bar> < 2 powi (e + 1)" "\<bar>x / 2 powi (e - 52) - of_int m\<bar> < 1/2"
  shows "fl x = of_int m * 2 powi (e - 52)"
proof -
  have "x \<noteq> 0" using assms(1) by (rule powi_le_abs)
  with assms(3) show ?thesis
    by (simp add: fl_def ulp_def fexp_unique[OF assms(1,2)] roundHalfEven_close)
qed

lemma fl_1999: "fl (1999/100) = 5626684784446013 / 2 ^ 48"
  using fl_eqI[of 4 "1999/100" 5626684784446013] by (simp add: power_int_def field_simps)

lemma toKobo_1999: "toKobo (1999/100) = 1999 - 1 / 2 ^ 42"
  using fl_eqI[of 10 "fl (1999/100) * 100" 8791694975696895]
  by (simp add: toKobo_def jsMul_def fl_1999 power_int_def field_simps)

text \<open>
  The error of two roundings stays below half a kobo, so \<open>Math.round(x * 100)\<close> gives back the
  number of kobo of any amount with two decimals below \<open>2 ^ 50\<close> kobo.
\<close>

lemma toKobo_error:
  assumes "0 \<le> n" "n < 2 ^ 50"
  shows "\<bar>toKobo (of_int n / 100) - of_int n\<bar> < 1/2"
proof -
  let ?x = "of_int n / 100 :: rat"
  have "(of_int n :: rat) < of_int (2 ^ 50)" using assms(2) by (simp only: of_int_less_iff)
  then have n: "0 \<le> (of_int n :: rat)" "of_int n < (2 ^ 50 :: rat)" using assms(1) by simp_all
  have e1: "\<bar>fl ?x - ?x\<bar> \<le> ?x / 2 ^ 53" using fl_rel_error[of ?x] n(1) by simp
  let ?y = "fl ?x * 100"
  have "?y - of_int n = (fl ?x - ?x) * 100" by (simp add: left_diff_distrib)
  then have "\<bar>?y - of_int n\<bar> = \<bar>fl ?x - ?x\<bar> * 100" by (simp only: abs_mult abs_numeral)
  then have y: "\<bar>?y - of_int n\<bar> \<le> of_int n / 2 ^ 53" using e1 by simp
  have "\<bar>?y\<bar> \<le> 2 * of_int n"
  proof -
    have "of_int n / 2 ^ 53 \<le> (of_int n :: rat)" using n(1) by (simp add: field_simps)
    with y n(1) show ?thesis by linarith
  qed
  then have "\<bar>fl ?y - ?y\<bar> \<le> 2 * of_int n / 2 ^ 53"
    using fl_rel_error[of ?y] by (simp add: field_simps)
  then have "\<bar>fl ?y - of_int n\<bar> \<le> 3 * of_int n / 2 ^ 53"
    using y by linarith
  also have "\<dots> < 1/2" using n(2) by simp
  finally show ?thesis by (simp add: toKobo_def jsMul_def)
qed

lemma jsRound_close: "\<bar>x - of_int n\<bar> < 1/2 \<Longrightarrow> jsRound x = n"
  unfolding jsRound_def abs_less_iff by (rule floor_unique) linarith+

lemma jsRound_toKobo:
  "0 \<le> n \<Longrightarrow> n < 2 ^ 50 \<Longrightarrow> jsRound (toKobo (of_int n / 100)) = n"
  by (rule jsRound_close[OF toKobo_error])

text \<open>\<open>Math.floor(T / m)\<close> on whole numbers is integer division, rounding included.\<close>

lemma floor_jsDiv:
  assumes "0 \<le> T" "T < 2 ^ 53" "0 < m"
  shows "\<lfloor>jsDiv (of_int T) (of_int m)\<rfloor> = T div m"
proof (cases "m dvd T")
  case True
  then obtain k where k: "T = m * k" by blast
  have "0 \<le> k" using assms k by (metis zero_le_mult_iff not_less)
  moreover have "k \<le> T" unfolding k using assms(3) \<open>0 \<le> k\<close> by (simp add: mult_le_cancel_right1)
  ultimately have "fl (of_int k) = of_int k" using assms(2) by (intro fl_int) linarith
  then show ?thesis using assms(3) by (simp add: jsDiv_def k)
next
  case False
  let ?q = "of_int T / of_int m :: rat" and ?k = "T div m"
  have m: "0 < (of_int m :: rat)" using assms(3) by simp
  have r: "1 \<le> T mod m" "T mod m \<le> m - 1"
    using False assms(3) pos_mod_sign[of m T] pos_mod_bound[of m T] unfolding dvd_eq_mod_eq_0 by linarith+
  have T: "(of_int T :: rat) = of_int m * of_int ?k + of_int (T mod m)"
    by (metis mult_div_mod_eq of_int_add of_int_mult)
  have q: "?q = of_int ?k + of_int (T mod m) / of_int m" unfolding T using m by (simp add: field_simps)
  have lo: "of_int ?k + 1 / of_int m \<le> ?q" unfolding q using r(1) m by (simp add: divide_right_mono)
  have "(of_int (T mod m) :: rat) \<le> of_int (m - 1)" using r(2) by (simp only: of_int_le_iff)
  then have "of_int (T mod m) / of_int m \<le> (of_int m - 1) / (of_int m :: rat)"
    using m by (intro divide_right_mono) auto
  then have hi: "?q \<le> of_int ?k + 1 - 1 / of_int m" unfolding q using m by (simp add: diff_divide_distrib)
  have "\<bar>fl ?q - ?q\<bar> \<le> ?q / 2 ^ 53" using fl_rel_error[of ?q] assms m by simp
  moreover have "?q / 2 ^ 53 < 1 / of_int m"
  proof -
    have "(of_int T :: rat) < 2 ^ 53" using assms(2) by (metis of_int_less_iff of_int_numeral of_int_power)
    then show ?thesis using m by (simp add: field_simps)
  qed
  ultimately have "of_int ?k \<le> fl ?q" "fl ?q < of_int ?k + 1"
    using lo hi by (auto simp: abs_le_iff)
  then show ?thesis by (simp add: jsDiv_def floor_eq_iff)
qed

end
