(* ===== verification/PayoutTransfer.thy ===== *)
theory PayoutTransfer
  imports Commission JsNumber
begin

text \<open>
  Sending a commission payout and hearing back: the transfer worker
  (\<open>src/job-workers/transfer.worker.ts\<close>) and the \<open>transfer.*\<close> webhooks of
  \<open>src/core/services/webhook-processor.service.ts\<close> for references that name a payout.
  Paystack is a parameter: \<open>createRecipient\<close> and \<open>sendTransfer\<close> answer each call with a code
  or an error.
\<close>

section \<open>The transfer worker\<close>

datatype transfer_result = Skipped | Processed

definition truthy :: "string option \<Rightarrow> string option" where
  "truthy x = or_null x"

definition bankOfPayout :: "payout_row \<Rightarrow> db \<Rightarrow> marketer_bank_row option" where
  "bankOfPayout p s = Option.bind (po_marketerBankAccountId p) (\<lambda>i. find (\<lambda>b. mb_id b = i) (marketerBanks s))"

text \<open>The recipient code of the account, created and stored on first use.\<close>

definition recipientFor ::
  "(marketer_bank_row \<Rightarrow> string res) \<Rightarrow> marketer_bank_row \<Rightarrow> db \<Rightarrow> string res \<times> db" where
  "recipientFor createRecipient bank s =
     (case truthy (mb_recipientCode bank) of
        Some code \<Rightarrow> (Inr code, s)
      | None \<Rightarrow>
          (case createRecipient bank of
             Inl err \<Rightarrow> (Inl err, s)
           | Inr code \<Rightarrow>
               (Inr code, s\<lparr>marketerBanks := update_where (\<lambda>b. mb_accountId b = mb_accountId bank)
                   (\<lambda>b. b\<lparr>mb_recipientCode := Some code\<rparr>) (marketerBanks s)\<rparr>)))"

definition initEntries :: "payout_row \<Rightarrow> ledger_entry list" where
  "initEntries p = [debit_entry ''COMMISSION_PAYABLE'' LIABILITY (po_amount p),
     credit_entry ''PAYOUTS_IN_TRANSIT'' ASSET (po_amount p)]"

definition recordInitiated :: "env \<Rightarrow> payout_row \<Rightarrow> string \<Rightarrow> db \<Rightarrow> unit res \<times> db" where
  "recordInitiated e p code s =
     record_in_book (env_uuid e) (''TRANSFER_INIT_'' @ po_payoutId p) ''Transfer initiated'' (Some (po_companyId p))
       (initEntries p)
       (update_payout (po_payoutId p) (\<lambda>q. q\<lparr>po_transferCode := Some code\<rparr>) s)"

definition processTransfer ::
  "(marketer_bank_row \<Rightarrow> string res) \<Rightarrow> (rat \<Rightarrow> string \<Rightarrow> ident \<Rightarrow> string res) \<Rightarrow> env \<Rightarrow> ident \<Rightarrow> db
     \<Rightarrow> transfer_result res \<times> db" where
  "processTransfer createRecipient sendTransfer e payoutId s =
     (case find_payout payoutId s of
        None \<Rightarrow> (Inl (PlainError ''Payout not found''), s)
      | Some payout \<Rightarrow>
      if po_status payout \<noteq> CommissionPayoutStatus.TRANSFER_INITIATED then (Inr Skipped, s)
      else
     (case bankOfPayout payout s of
        None \<Rightarrow> (Inl (PlainError ''No bank account linked to payout''), s)
      | Some bank \<Rightarrow>
     (case recipientFor createRecipient bank s of
        (Inl err, s1) \<Rightarrow> (Inl err, s1)
      | (Inr recipientCode, s1) \<Rightarrow>
      if truthy (po_transferCode payout) \<noteq> None then (Inr Processed, s1)
      else
     (case sendTransfer (toKobo (po_amount payout)) recipientCode (po_payoutId payout) of
        Inl err \<Rightarrow> (Inl err, s1)
      | Inr code \<Rightarrow>
     (case transaction (recordInitiated e payout code) s1 of
        (Inl err, s2) \<Rightarrow> (Inl err, s2)
      | (Inr u, s2) \<Rightarrow> (Inr Processed, s2))))))"

text \<open>The \<open>failed\<close> listener: after the last attempt the payout is marked failed.\<close>

definition onTransferFailed :: "env \<Rightarrow> ident \<Rightarrow> string \<Rightarrow> nat \<Rightarrow> nat option \<Rightarrow> db \<Rightarrow> unit res \<times> db" where
  "onTransferFailed e payoutId message attemptsMade attempts s =
     (if attemptsMade < (case attempts of None \<Rightarrow> 3 | Some n \<Rightarrow> n) then (Inr (), s)
      else
     (case find_payout payoutId s of
        None \<Rightarrow> (Inl (PlainError ''Payout not found''), s)
      | Some payout \<Rightarrow>
         (Inr (), emit (Event ''COMMISSION_TRANSFER_FAILED'' payoutId)
            (update_payout payoutId
              (\<lambda>p. p\<lparr>po_status := CommissionPayoutStatus.TRANSFER_FAILED,
                     po_transferFailedAt := Some (env_now e), po_transferFailReason := Some message\<rparr>) s))))"

section \<open>The webhooks\<close>

definition settleAllocation :: "db \<Rightarrow> allocation_row \<Rightarrow> db \<Rightarrow> db" where
  "settleAllocation s0 a s =
     (case find_commission (al_commissionId a) s0 of
        None \<Rightarrow> s
      | Some c \<Rightarrow>
          (let newReservedAmount = cm_reservedAmount c - al_allocatedAmount a;
               totalPaid = paid_total
                 (update_allocation (al_allocationId a) (\<lambda>b. b\<lparr>al_status := CommissionAllocationStatus.PAID\<rparr>) s)
                 (al_commissionId a)
           in rewriteAllocation CommissionAllocationStatus.PAID newReservedAmount
                (derivePostPaymentStatus (cm_amount c) newReservedAmount totalPaid) a s))"

definition releaseAllocation :: "db \<Rightarrow> allocation_row \<Rightarrow> db \<Rightarrow> db" where
  "releaseAllocation s0 a s =
     (case find_commission (al_commissionId a) s0 of
        None \<Rightarrow> s
      | Some c \<Rightarrow>
          (let newReservedAmount = cm_reservedAmount c - al_allocatedAmount a
           in rewriteAllocation CommissionAllocationStatus.RELEASED newReservedAmount
                (deriveReservationStatus newReservedAmount (cm_amount c)) a s))"

definition restoreAllocation :: "db \<Rightarrow> allocation_row \<Rightarrow> db \<Rightarrow> db" where
  "restoreAllocation s0 a s =
     (case find_commission (al_commissionId a) s0 of
        None \<Rightarrow> s
      | Some c \<Rightarrow>
          (let newReservedAmount = cm_reservedAmount c + al_allocatedAmount a
           in rewriteAllocation CommissionAllocationStatus.RESERVED newReservedAmount
                (deriveReservationStatus newReservedAmount (cm_amount c)) a s))"

text \<open>The loop over the payout's allocations, those in another state skipped by \<open>continue\<close>.\<close>

definition forAllocations ::
  "ident \<Rightarrow> CommissionAllocationStatus \<Rightarrow> (db \<Rightarrow> allocation_row \<Rightarrow> db \<Rightarrow> db) \<Rightarrow> db \<Rightarrow> db \<Rightarrow> db" where
  "forAllocations payoutId st step s0 s =
     foldl (\<lambda>t a. step s0 a t) s
       (filter (\<lambda>a. al_payoutId a = payoutId \<and> al_status a = st) (allocations s0))"

definition successEntries :: "payout_row \<Rightarrow> ledger_entry list" where
  "successEntries p = [debit_entry ''PAYOUTS_IN_TRANSIT'' ASSET (po_amount p),
     credit_entry ''BANK_SETTLED'' ASSET (po_amount p)]"

definition failedEntries :: "payout_row \<Rightarrow> ledger_entry list" where
  "failedEntries p = [debit_entry ''PAYOUTS_IN_TRANSIT'' ASSET (po_amount p),
     credit_entry ''COMMISSION_PAYABLE'' LIABILITY (po_amount p)]"

definition reversedEntries :: "payout_row \<Rightarrow> ledger_entry list" where
  "reversedEntries p = [debit_entry ''BANK_SETTLED'' ASSET (po_amount p),
     credit_entry ''COMMISSION_PAYABLE'' LIABILITY (po_amount p)]"

definition payoutTransferSuccess :: "env \<Rightarrow> ident \<Rightarrow> db \<Rightarrow> unit res \<times> db" where
  "payoutTransferSuccess e payoutId s =
     (case find_payout payoutId s of
        None \<Rightarrow> (Inr (), s)
      | Some payout \<Rightarrow>
      if po_status payout = CommissionPayoutStatus.PAID then (Inr (), s)
      else
     (case transaction (\<lambda>s1.
         record_in_book (env_uuid e) (''TRANSFER_SUCCESS_'' @ payoutId) ''Transfer confirmed''
           (Some (po_companyId payout)) (successEntries payout)
           (forAllocations payoutId CommissionAllocationStatus.RESERVED settleAllocation s
             (update_payout payoutId
               (\<lambda>p. p\<lparr>po_status := CommissionPayoutStatus.PAID, po_paidAt := Some (env_now e),
                      po_transferCompletedAt := Some (env_now e)\<rparr>) s1))) s of
        (Inl err, s') \<Rightarrow> (Inl err, s')
      | (Inr u, s') \<Rightarrow> (Inr (), emit (Event ''COMMISSION_TRANSFER_SUCCESS'' payoutId) s')))"

definition payoutTransferFailed :: "env \<Rightarrow> ident \<Rightarrow> string option \<Rightarrow> db \<Rightarrow> unit res \<times> db" where
  "payoutTransferFailed e payoutId reason s =
     (case find_payout payoutId s of
        None \<Rightarrow> (Inr (), s)
      | Some payout \<Rightarrow>
      if po_status payout = CommissionPayoutStatus.TRANSFER_FAILED then (Inr (), s)
      else
     (case transaction (\<lambda>s1.
         record_in_book (env_uuid e) (''TRANSFER_FAILED_'' @ payoutId) ''Transfer failed''
           (Some (po_companyId payout)) (failedEntries payout)
           (forAllocations payoutId CommissionAllocationStatus.RESERVED releaseAllocation s
             (update_payout payoutId
               (\<lambda>p. p\<lparr>po_status := CommissionPayoutStatus.TRANSFER_FAILED,
                      po_transferFailedAt := Some (env_now e),
                      po_transferFailReason :=
                        Some (case reason of None \<Rightarrow> ''Transfer failed'' | Some m \<Rightarrow> m)\<rparr>) s1))) s of
        (Inl err, s') \<Rightarrow> (Inl err, s')
      | (Inr u, s') \<Rightarrow> (Inr (), emit (Event ''COMMISSION_TRANSFER_FAILED'' payoutId) s')))"

definition payoutTransferReversed :: "env \<Rightarrow> ident \<Rightarrow> db \<Rightarrow> unit res \<times> db" where
  "payoutTransferReversed e payoutId s =
     (case find_payout payoutId s of
        None \<Rightarrow> (Inr (), s)
      | Some payout \<Rightarrow>
      if po_status payout = CommissionPayoutStatus.TRANSFER_REVERSED then (Inr (), s)
      else
     (case transaction (\<lambda>s1.
         record_in_book (env_uuid e) (''TRANSFER_REVERSED_'' @ payoutId) ''Transfer reversed''
           (Some (po_companyId payout)) (reversedEntries payout)
           (forAllocations payoutId CommissionAllocationStatus.PAID restoreAllocation s
             (update_payout payoutId
               (\<lambda>p. p\<lparr>po_status := CommissionPayoutStatus.TRANSFER_REVERSED,
                      po_transferFailedAt := Some (env_now e),
                      po_transferFailReason := Some ''Transfer reversed by Paystack''\<rparr>) s1))) s of
        (Inl err, s') \<Rightarrow> (Inl err, s')
      | (Inr u, s') \<Rightarrow> (Inr (), emit (Event ''COMMISSION_TRANSFER_REVERSED'' payoutId) s')))"

section \<open>The loops keep the reservations\<close>

interpretation settle: allocation_loop CommissionAllocationStatus.RESERVED CommissionAllocationStatus.PAID settleAllocation
  by unfold_locales (auto simp: settleAllocation_def Let_def held_def)

interpretation release: allocation_loop CommissionAllocationStatus.RESERVED CommissionAllocationStatus.RELEASED releaseAllocation
  by unfold_locales (auto simp: releaseAllocation_def Let_def held_def)

interpretation restore: allocation_loop CommissionAllocationStatus.PAID CommissionAllocationStatus.RESERVED restoreAllocation
  by unfold_locales (auto simp: restoreAllocation_def Let_def held_def)

text \<open>What one handler leaves behind: the two legs it posts always balance.\<close>

lemma entries_balanced [simp]:
  "totalDebits (initEntries p) = totalCredits (initEntries p)"
  "totalDebits (successEntries p) = totalCredits (successEntries p)"
  "totalDebits (failedEntries p) = totalCredits (failedEntries p)"
  "totalDebits (reversedEntries p) = totalCredits (reversedEntries p)"
  by (simp_all add: initEntries_def successEntries_def failedEntries_def reversedEntries_def)

lemma reservations_ok_book [simp]:
  "reservations_ok (s\<lparr>book := b\<rparr>) = reservations_ok s" "keys_ok (s\<lparr>book := b\<rparr>) = keys_ok s"
  by (rule reservations_ok_cong; simp)+

lemma webhook_result:
  assumes "find_payout pid s = Some p" "po_status p \<noteq> st" "totalDebits es = totalCredits es"
  shows "(case transaction (\<lambda>s1. record_in_book u ref d c es (F s1)) s of
        (Inl err, s') \<Rightarrow> (Inl err, s') | (Inr v, s') \<Rightarrow> (Inr (), emit x s'))
    = (Inr (), emit x ((F s)\<lparr>book := posted u ref d c es (book (F s))\<rparr>))"
  using assms(3) by (simp add: transaction_def record_in_book_balanced)

lemma payout_loops_keep:
  assumes "reservations_ok s" "\<And>p. po_payoutId (f p) = po_payoutId p"
  shows "reservations_ok (forAllocations pid CommissionAllocationStatus.RESERVED settleAllocation s (update_payout pid f s))"
    "reservations_ok (forAllocations pid CommissionAllocationStatus.RESERVED releaseAllocation s (update_payout pid f s))"
    "reservations_ok (forAllocations pid CommissionAllocationStatus.PAID restoreAllocation s (update_payout pid f s))"
  unfolding forAllocations_def
  using settle.payout_loop_keeps[of "update_payout pid f s" s pid]
    release.payout_loop_keeps[of "update_payout pid f s" s pid]
    restore.payout_loop_keeps[of "update_payout pid f s" s pid] assms
  by simp_all

lemma reservations_ok_success [inv_intros]:
  assumes "reservations_ok s"
  shows "reservations_ok (snd (payoutTransferSuccess e pid s))"
  using assms
  by (auto simp: payoutTransferSuccess_def webhook_result payout_loops_keep split: option.splits)

lemma reservations_ok_failed [inv_intros]:
  assumes "reservations_ok s"
  shows "reservations_ok (snd (payoutTransferFailed e pid reason s))"
  using assms
  by (auto simp: payoutTransferFailed_def webhook_result payout_loops_keep split: option.splits)

lemma reservations_ok_reversed [inv_intros]:
  assumes "reservations_ok s"
  shows "reservations_ok (snd (payoutTransferReversed e pid s))"
  using assms
  by (auto simp: payoutTransferReversed_def webhook_result payout_loops_keep split: option.splits)

lemma recipientFor_frame:
  "recipientFor cr bank s = (r, s1) \<Longrightarrow>
     commissions s1 = commissions s \<and> allocations s1 = allocations s \<and> payouts s1 = payouts s \<and>
     users s1 = users s \<and> book s1 = book s"
  by (auto simp: recipientFor_def split: option.splits sum.splits)

lemma recordInitiated_result:
  "transaction (recordInitiated e p code) s =
     (Inr (), (update_payout (po_payoutId p) (\<lambda>q. q\<lparr>po_transferCode := Some code\<rparr>) s)
        \<lparr>book := posted (env_uuid e) (''TRANSFER_INIT_'' @ po_payoutId p) ''Transfer initiated''
          (Some (po_companyId p)) (initEntries p) (book s)\<rparr>)"
  by (simp add: transaction_def recordInitiated_def record_in_book_balanced)

lemma reservations_ok_worker [inv_intros]:
  assumes "reservations_ok s"
  shows "reservations_ok (snd (processTransfer cr st e pid s))"
proof -
  have fr: "reservations_ok s1" if "recipientFor cr bank s = (r, s1)" for bank r s1
    using recipientFor_frame[OF that] assms reservations_ok_cong(1)[of s1 s] by simp
  show ?thesis
    using assms fr
    by (auto simp: processTransfer_def recordInitiated_result split: option.splits prod.splits sum.splits)
qed

lemma reservations_ok_workerFailed [inv_intros]:
  "reservations_ok s \<Longrightarrow> reservations_ok (snd (onTransferFailed e pid m n k s))"
  by (auto simp: onTransferFailed_def split: option.splits)

end
