(* ===== verification/PayoutLifecycle.thy ===== *)
theory PayoutLifecycle
  imports PayoutTransfer
begin

text \<open>
  The life of a commission payout across the API, the transfer worker and the webhooks, as a
  step relation over the handlers of \<open>Commission\<close> and \<open>PayoutTransfer\<close>, and the properties
  that hold in every reachable state: the reservation invariant and the approvals every
  transfer went through.
\<close>

section \<open>Steps\<close>

text \<open>
  A commission row as the payment worker inserts it (nothing reserved, open).  The worker and
  its \<open>failed\<close> listener run only for a job that was queued; Paystack reports only on a
  payout whose transfer job was queued.
\<close>

definition queued :: "ident \<Rightarrow> db \<Rightarrow> bool" where
  "queued pid s \<longleftrightarrow> Job ''process-transfer'' pid \<in> set (outbox s)"

inductive payout_step :: "db \<Rightarrow> db \<Rightarrow> bool" where
  accrue: "cm_commissionId c \<notin> cm_commissionId ` set (commissions s) \<Longrightarrow> cm_reservedAmount c = 0 \<Longrightarrow>
    payout_step s (s\<lparr>commissions := commissions s @ [c]\<rparr>)"
| request: "fresh_uuids e s \<Longrightarrow> payout_step s (snd (requestPayout e uid amount s))"
| admin: "payout_step s (snd (adminApprovePayout e pid uid s))"
| company: "payout_step s (snd (companyApprovePayout e pid uid s))"
| initiate: "payout_step s (snd (initiateTransfer e pid uid s))"
| worker: "queued pid s \<Longrightarrow> payout_step s (snd (processTransfer cr st e pid s))"
| worker_failed: "queued pid s \<Longrightarrow> payout_step s (snd (onTransferFailed e pid m n k s))"
| succeeded: "queued pid s \<Longrightarrow> payout_step s (snd (payoutTransferSuccess e pid s))"
| failed: "queued pid s \<Longrightarrow> payout_step s (snd (payoutTransferFailed e pid reason s))"
| reversed: "queued pid s \<Longrightarrow> payout_step s (snd (payoutTransferReversed e pid s))"

definition payout_start :: "db \<Rightarrow> bool" where
  "payout_start s \<longleftrightarrow> commissions s = [] \<and> allocations s = [] \<and> payouts s = [] \<and> outbox s = [] \<and>
     book s = empty_ledger"

inductive payout_reachable :: "db \<Rightarrow> bool" where
  start: "payout_start s \<Longrightarrow> payout_reachable s"
| step: "payout_reachable s \<Longrightarrow> payout_step s s' \<Longrightarrow> payout_reachable s'"

lemma reservations_ok_accrue:
  assumes ok: "reservations_ok s" and new: "cm_commissionId c \<notin> cm_commissionId ` set (commissions s)"
    and zero: "cm_reservedAmount c = 0"
  shows "reservations_ok (s\<lparr>commissions := commissions s @ [c]\<rparr>)"
proof -
  have none: "al_commissionId a \<noteq> cm_commissionId c" if "a \<in> set (allocations s)" for a
  proof -
    have "al_commissionId a \<in> cm_commissionId ` set (commissions s)"
      using ok that by (simp add: reservations_ok_def keys_ok_def)
    with new show ?thesis by metis
  qed
  have "filter (\<lambda>a. al_commissionId a = cm_commissionId c \<and> al_status a = CommissionAllocationStatus.RESERVED)
      (allocations s) = []"
    using none by (auto simp: filter_empty_conv)
  then have "reserved_total s (cm_commissionId c) = 0"
    by (simp add: reserved_total_def sum_where_def)
  then show ?thesis
    using ok new zero by (auto simp: reservations_ok_def keys_ok_def reserved_total_def)
qed

lemma payout_step_keeps_reservations: "payout_step s s' \<Longrightarrow> reservations_ok s \<Longrightarrow> reservations_ok s'"
  by (induction rule: payout_step.induct) (auto intro: inv_intros reservations_ok_accrue)

lemma reachable_reservations: "payout_reachable s \<Longrightarrow> reservations_ok s"
proof (induction rule: payout_reachable.induct)
  case (start s)
  then show ?case by (simp add: payout_start_def reservations_ok_def keys_ok_def)
qed (rule payout_step_keeps_reservations)

section \<open>Approvals\<close>

definition company_approved :: "db \<Rightarrow> payout_row \<Rightarrow> bool" where
  "company_approved s p \<longleftrightarrow> (\<exists>u \<in> set (users s). po_companyApprovedById p = Some (u_userId u) \<and>
     u_role u = COMPANY \<and> u_companyId u = Some (po_companyId p))"

definition admin_approved :: "db \<Rightarrow> payout_row \<Rightarrow> bool" where
  "admin_approved s p \<longleftrightarrow> (\<exists>u \<in> set (users s). po_adminApprovedById p = Some (u_userId u) \<and>
     u_role u = ADMIN \<and> u_companyId u = Some (po_companyId p))"

text \<open>A requester who is an admin, or whom a company account created, skips the admin.\<close>

definition skips_admin :: "db \<Rightarrow> payout_row \<Rightarrow> bool" where
  "skips_admin s p \<longleftrightarrow> (\<exists>u. find_user (po_userId p) s = Some u \<and>
     (u_role u = ADMIN \<or> creatorRoleOf u s = Some COMPANY))"

definition approvals_ok :: "db \<Rightarrow> bool" where
  "approvals_ok s \<longleftrightarrow>
     (\<forall>p \<in> set (payouts s).
        (po_status p \<notin> {PENDING_ADMIN_APPROVAL, PENDING_COMPANY_APPROVAL} \<or> queued (po_payoutId p) s
           \<longrightarrow> company_approved s p) \<and>
        (po_status p \<noteq> PENDING_ADMIN_APPROVAL \<or> queued (po_payoutId p) s
           \<longrightarrow> admin_approved s p \<or> skips_admin s p)) \<and>
     (\<forall>pid. queued pid s \<longrightarrow> pid \<in> po_payoutId ` set (payouts s))"

lemma approvals_users:
  assumes "users t = users s"
  shows "company_approved t p = company_approved s p" "admin_approved t p = admin_approved s p"
    "skips_admin t p = skips_admin s p"
  using assms by (simp_all add: company_approved_def admin_approved_def skips_admin_def find_user_def creatorRoleOf_def)

lemma approvals_fields:
  assumes "po_companyApprovedById q = po_companyApprovedById p" "po_adminApprovedById q = po_adminApprovedById p"
    "po_companyId q = po_companyId p" "po_userId q = po_userId p"
  shows "company_approved s q = company_approved s p" "admin_approved s q = admin_approved s p"
    "skips_admin s q = skips_admin s p"
  using assms by (simp_all add: company_approved_def admin_approved_def skips_admin_def)

text \<open>
  The one shape of every handler after the request: it rewrites the rows of one payout and
  queues at most a job for that payout.
\<close>

lemma approvals_ok_update:
  assumes ok: "approvals_ok s" and users: "users t = users s"
    and rows: "payouts t = update_where (\<lambda>p. po_payoutId p = pid) f (payouts s)"
    and jobs: "\<And>i. queued i t \<Longrightarrow> queued i s \<or> i = pid"
    and found: "pid \<in> po_payoutId ` set (payouts s)"
    and key: "\<And>p. po_payoutId (f p) = po_payoutId p"
    and new: "\<And>p. p \<in> set (payouts s) \<Longrightarrow> po_payoutId p = pid \<Longrightarrow>
      (po_status (f p) \<notin> {PENDING_ADMIN_APPROVAL, PENDING_COMPANY_APPROVAL} \<or> queued pid t
           \<longrightarrow> company_approved s (f p)) \<and>
      (po_status (f p) \<noteq> PENDING_ADMIN_APPROVAL \<or> queued pid t \<longrightarrow> admin_approved s (f p) \<or> skips_admin s (f p))"
  shows "approvals_ok t"
proof -
  have ids: "map po_payoutId (payouts t) = map po_payoutId (payouts s)"
    unfolding rows by (rule map_update_where) (rule key)
  then have ids: "po_payoutId ` set (payouts t) = po_payoutId ` set (payouts s)"
    by (metis list.set_map)
  have each: "(po_status q \<notin> {PENDING_ADMIN_APPROVAL, PENDING_COMPANY_APPROVAL} \<or> queued (po_payoutId q) t
           \<longrightarrow> company_approved s q) \<and>
        (po_status q \<noteq> PENDING_ADMIN_APPROVAL \<or> queued (po_payoutId q) t
           \<longrightarrow> admin_approved s q \<or> skips_admin s q)" if q: "q \<in> set (payouts t)" for q
  proof -
    obtain p where p: "p \<in> set (payouts s)" "q = (if po_payoutId p = pid then f p else p)"
      using q unfolding rows set_update_where by auto
    show ?thesis
    proof (cases "po_payoutId p = pid")
      case True
      with p new[OF p(1) True] key show ?thesis by simp
    next
      case False
      with p ok jobs[of "po_payoutId p"] show ?thesis by (auto simp: approvals_ok_def)
    qed
  qed
  have "pid' \<in> po_payoutId ` set (payouts t)" if "queued pid' t" for pid'
    using jobs[OF that] found ok unfolding ids approvals_ok_def by blast
  with each show ?thesis unfolding approvals_ok_def approvals_users[OF users] by blast
qed

lemma queued_emit [simp]:
  "queued i (emit (Notify k j) s) = queued i s" "queued i (emit (Event k j) s) = queued i s"
  "queued i (emit (Job k j) s) \<longleftrightarrow> k = ''process-transfer'' \<and> i = j \<or> queued i s"
  by (auto simp: queued_def)

lemma queued_outbox: "outbox t = outbox s \<Longrightarrow> queued i t = queued i s"
  by (simp add: queued_def)

lemma approvals_ok_cong:
  assumes "payouts t = payouts s" "users t = users s" "\<And>i. queued i t = queued i s"
  shows "approvals_ok t = approvals_ok s"
  unfolding approvals_ok_def approvals_users[OF assms(2)] assms(1,3) ..

lemma find_payout_in: "find_payout i s = Some p \<Longrightarrow> p \<in> set (payouts s) \<and> i \<in> po_payoutId ` set (payouts s)"
  unfolding find_payout_def by (drule find_set) auto

lemma find_unique_row:
  "reservations_ok s \<Longrightarrow> find_payout i s = Some p \<Longrightarrow> q \<in> set (payouts s) \<Longrightarrow> po_payoutId q = i \<Longrightarrow> q = p"
  using find_unique_key[of po_payoutId "payouts s" q]
  by (auto simp: reservations_ok_def keys_ok_def find_payout_def)

lemma approvals_ok_adminApprove:
  assumes "approvals_ok s" "reservations_ok s"
  shows "approvals_ok (snd (adminApprovePayout e pid uid s))"
proof (cases "ok (fst (adminApprovePayout e pid uid s))")
  case False
  with assms show ?thesis by (auto simp: adminApprovePayout_def split: option.splits)
next
  case True
  let ?f = "\<lambda>p. p\<lparr>po_status := PENDING_COMPANY_APPROVAL, po_adminApprovedById := Some uid,
    po_adminApprovedAt := Some (env_now e)\<rparr>"
  obtain u p where u: "find_user uid s = Some u" "u_role u = ADMIN" "Some (po_companyId p) = u_companyId u"
    and p: "find (\<lambda>p. po_payoutId p = pid \<and> po_status p = PENDING_ADMIN_APPROVAL) (payouts s) = Some p"
    and s': "snd (adminApprovePayout e pid uid s) =
      emit (Notify ''COMMISSION_REQUEST_APPROVAL'' pid) (update_payout pid ?f s)"
    using True by (auto simp: adminApprovePayout_def split: option.splits if_splits)
  have pin: "p \<in> set (payouts s)" "po_payoutId p = pid" "po_status p = PENDING_ADMIN_APPROVAL"
    using find_set[OF p] by auto
  have same: "q = p" if "q \<in> set (payouts s)" "po_payoutId q = pid" for q
    using assms(2) that pin by (auto simp: reservations_ok_def keys_ok_def distinct_map dest: inj_onD)
  have adm: "admin_approved s (?f p)"
    using u find_user_id[OF u(1)] find_set[of _ "users s" u] unfolding admin_approved_def find_user_def
    by (intro bexI[of _ u]) auto
  show ?thesis
    unfolding s'
  proof (rule approvals_ok_update[OF assms(1), where pid = pid and f = ?f])
    fix q assume q: "q \<in> set (payouts s)" "po_payoutId q = pid"
    then have "q = p" by (rule same)
    moreover have "queued pid s \<Longrightarrow> company_approved s p"
      using assms(1) pin by (auto simp: approvals_ok_def)
    ultimately show "(po_status (?f q) \<notin> {PENDING_ADMIN_APPROVAL, PENDING_COMPANY_APPROVAL} \<or>
        queued pid (emit (Notify ''COMMISSION_REQUEST_APPROVAL'' pid) (update_payout pid ?f s))
           \<longrightarrow> company_approved s (?f q)) \<and>
      (po_status (?f q) \<noteq> PENDING_ADMIN_APPROVAL \<or>
        queued pid (emit (Notify ''COMMISSION_REQUEST_APPROVAL'' pid) (update_payout pid ?f s))
           \<longrightarrow> admin_approved s (?f q) \<or> skips_admin s (?f q))"
      using adm by (simp add: queued_outbox[of "update_payout pid ?f s" s] company_approved_def)
  qed (use pin in \<open>auto simp: queued_outbox[of "update_payout pid _ s" s]\<close>)
qed

lemma approvals_ok_companyApprove:
  assumes "approvals_ok s" "reservations_ok s"
  shows "approvals_ok (snd (companyApprovePayout e pid uid s))"
proof (cases "ok (fst (companyApprovePayout e pid uid s))")
  case False
  with assms show ?thesis by (auto simp: companyApprovePayout_def split: option.splits)
next
  case True
  let ?f = "\<lambda>p. p\<lparr>po_status := CommissionPayoutStatus.APPROVED, po_companyApprovedById := Some uid,
    po_companyApprovedAt := Some (env_now e)\<rparr>"
  obtain u p where u: "find_user uid s = Some u" "u_role u = COMPANY" "Some (po_companyId p) = u_companyId u"
    and p: "find_payout pid s = Some p" "po_status p = PENDING_COMPANY_APPROVAL"
    and s': "snd (companyApprovePayout e pid uid s) =
      emit (Notify ''COMMISSION_REQUEST_APPROVAL'' pid) (update_payout pid ?f s)"
    using True by (auto simp: companyApprovePayout_def split: option.splits if_splits)
  have com: "company_approved s (?f p)"
    using u find_user_id[OF u(1)] find_set[of _ "users s" u] unfolding company_approved_def find_user_def
    by (intro bexI[of _ u]) auto
  have adm: "admin_approved s p \<or> skips_admin s p"
    using assms(1) find_payout_in[OF p(1)] p(2) by (auto simp: approvals_ok_def)
  show ?thesis
    unfolding s'
  proof (rule approvals_ok_update[OF assms(1), where pid = pid and f = ?f])
    fix q assume q: "q \<in> set (payouts s)" "po_payoutId q = pid"
    then have "q = p" by (rule find_unique_row[OF assms(2) p(1)])
    with com adm show "(po_status (?f q) \<notin> {PENDING_ADMIN_APPROVAL, PENDING_COMPANY_APPROVAL} \<or>
        queued pid (emit (Notify ''COMMISSION_REQUEST_APPROVAL'' pid) (update_payout pid ?f s))
           \<longrightarrow> company_approved s (?f q)) \<and>
      (po_status (?f q) \<noteq> PENDING_ADMIN_APPROVAL \<or>
        queued pid (emit (Notify ''COMMISSION_REQUEST_APPROVAL'' pid) (update_payout pid ?f s))
           \<longrightarrow> admin_approved s (?f q) \<or> skips_admin s (?f q))"
      by (simp add: admin_approved_def skips_admin_def)
  qed (use find_payout_in[OF p(1)] in \<open>auto simp: queued_outbox[of "update_payout pid _ s" s]\<close>)
qed

text \<open>
  From the initiation on, handlers no longer touch the approvals of the payout they rewrite.
\<close>

lemma approvals_ok_transfer:
  assumes "approvals_ok s" "users t = users s"
    and "payouts t = update_where (\<lambda>p. po_payoutId p = pid) f (payouts s)"
    and "\<And>i. queued i t \<Longrightarrow> queued i s \<or> i = pid"
    and p: "find_payout pid s = Some p" "reservations_ok s"
      "po_status p \<notin> {PENDING_ADMIN_APPROVAL, PENDING_COMPANY_APPROVAL} \<or> queued pid s"
    and f: "\<And>q. po_payoutId (f q) = po_payoutId q" "\<And>q. po_companyApprovedById (f q) = po_companyApprovedById q"
      "\<And>q. po_adminApprovedById (f q) = po_adminApprovedById q"
      "\<And>q. po_companyId (f q) = po_companyId q" "\<And>q. po_userId (f q) = po_userId q"
  shows "approvals_ok t"
proof (rule approvals_ok_update[OF assms(1-4) _ f(1)])
  show "pid \<in> po_payoutId ` set (payouts s)" using find_payout_in[OF p(1)] by simp
  fix q assume q: "q \<in> set (payouts s)" "po_payoutId q = pid"
  then have "q = p" by (rule find_unique_row[OF p(2,1)])
  with p(3) assms(1) q have "company_approved s q \<and> (admin_approved s q \<or> skips_admin s q)"
    by (auto simp: approvals_ok_def)
  then show "(po_status (f q) \<notin> {PENDING_ADMIN_APPROVAL, PENDING_COMPANY_APPROVAL} \<or> queued pid t
           \<longrightarrow> company_approved s (f q)) \<and>
      (po_status (f q) \<noteq> PENDING_ADMIN_APPROVAL \<or> queued pid t \<longrightarrow> admin_approved s (f q) \<or> skips_admin s (f q))"
    using approvals_fields[of "f q" q s] f by simp
qed

lemma reReserveReleased_frame:
  assumes "reservations_ok s"
  shows "payouts (reReserveReleased pid s) = update_where (\<lambda>p. po_payoutId p = pid)
      (\<lambda>p. p\<lparr>po_status := CommissionPayoutStatus.APPROVED, po_transferFailReason := None\<rparr>) (payouts s)"
    "users (reReserveReleased pid s) = users s" "outbox (reReserveReleased pid s) = outbox s"
    "book (reReserveReleased pid s) = book s"
  using retry.payout_loop_keeps[OF assms refl refl, of pid] by (simp_all add: reReserveReleased_def)

definition started :: "env \<Rightarrow> ident \<Rightarrow> marketer_bank_row \<Rightarrow> payout_row \<Rightarrow> payout_row" where
  "started e companyUserId bank p =
     p\<lparr>po_status := CommissionPayoutStatus.TRANSFER_INITIATED, po_marketerBankAccountId := Some (mb_id bank),
       po_transferInitiatedAt := Some (env_now e), po_transferInitiatedById := Some companyUserId,
       po_transferCode := None, po_transferFailedAt := None, po_transferFailReason := None\<rparr>"

lemma initiateTransfer_effect:
  assumes r: "reservations_ok s" and ok: "ok (fst (initiateTransfer e pid uid s))"
  shows "\<exists>p bank. find_payout pid s = Some p \<and> po_status p \<in> allowedStatuses \<and>
    primaryBank (po_userId p) s = Some bank \<and>
    payouts (snd (initiateTransfer e pid uid s)) =
      update_where (\<lambda>p. po_payoutId p = pid) (started e uid bank) (payouts s) \<and>
    users (snd (initiateTransfer e pid uid s)) = users s \<and> book (snd (initiateTransfer e pid uid s)) = book s \<and>
    outbox (snd (initiateTransfer e pid uid s)) =
      outbox s @ [Event ''COMMISSION_TRANSFER_INITIATED'' pid, Job ''process-transfer'' pid]"
proof -
  obtain u p bank where u: "find_user uid s = Some u" "u_role u = COMPANY" "Some (po_companyId p) = u_companyId u"
    and p: "find_payout pid s = Some p" "po_status p \<in> allowedStatuses"
      "primaryBank (po_userId p) s = Some bank"
    using ok by (auto simp: initiateTransfer_def split: option.splits if_splits)
  let ?s1 = "if po_status p = CommissionPayoutStatus.TRANSFER_FAILED then reReserveReleased pid s else s"
  let ?s2 = "if po_status p = CommissionPayoutStatus.TRANSFER_REVERSED
    then update_payout pid (\<lambda>p. p\<lparr>po_status := CommissionPayoutStatus.APPROVED\<rparr>) ?s1 else ?s1"
  have s': "snd (initiateTransfer e pid uid s) = startTransfer e pid uid bank ?s2"
    using p u by (simp add: initiateTransfer_def Let_def)
  have "payouts (startTransfer e pid uid bank ?s2) =
      update_where (\<lambda>p. po_payoutId p = pid) (started e uid bank) (payouts s)"
    by (simp add: startTransfer_def started_def[abs_def] reReserveReleased_frame[OF r] update_where_twice comp_def)
  then show ?thesis
    unfolding s' using p by (simp add: startTransfer_def reReserveReleased_frame[OF r])
qed

lemma initiateTransfer_refused: "\<not> ok (fst (initiateTransfer e pid uid s)) \<Longrightarrow> snd (initiateTransfer e pid uid s) = s"
  by (auto simp: initiateTransfer_def Let_def split: option.splits if_splits)

lemma approvals_ok_initiate:
  assumes "approvals_ok s" "reservations_ok s"
  shows "approvals_ok (snd (initiateTransfer e pid uid s))"
proof (cases "ok (fst (initiateTransfer e pid uid s))")
  case False
  with assms show ?thesis by (simp add: initiateTransfer_refused)
next
  case True
  from initiateTransfer_effect[OF assms(2) True] obtain p bank where
    p: "find_payout pid s = Some p" "po_status p \<in> allowedStatuses"
    and t: "payouts (snd (initiateTransfer e pid uid s)) =
      update_where (\<lambda>p. po_payoutId p = pid) (started e uid bank) (payouts s)"
      "users (snd (initiateTransfer e pid uid s)) = users s"
      "outbox (snd (initiateTransfer e pid uid s)) =
        outbox s @ [Event ''COMMISSION_TRANSFER_INITIATED'' pid, Job ''process-transfer'' pid]"
    by blast
  have st: "po_status p \<notin> {PENDING_ADMIN_APPROVAL, PENDING_COMPANY_APPROVAL} \<or> queued pid s"
    using p(2) by (auto simp: allowedStatuses_def)
  show ?thesis
    by (rule approvals_ok_transfer[OF assms(1) t(2,1) _ p(1) assms(2) st])
      (auto simp: queued_def t(3) started_def)
qed

text \<open>The worker writes at most the transfer code of its payout; a listener its status.\<close>

lemma processTransfer_payouts:
  "\<exists>f. payouts (snd (processTransfer cr st e pid s)) = update_where (\<lambda>p. po_payoutId p = pid) f (payouts s) \<and>
     (f = id \<or> (\<exists>c. f = po_transferCode_update (\<lambda>_. Some c)))" (is "\<exists>f. ?P f")
proof -
  have id: "xs = update_where p id xs" for p and xs :: "payout_row list"
    by (simp add: update_where_def cong: if_cong)
  show ?thesis
    unfolding processTransfer_def
    by (auto simp: recordInitiated_result id[symmetric] dest!: recipientFor_frame find_payout_id
        split: option.splits prod.splits sum.splits intro: exI[of _ id])
qed

lemma processTransfer_frame:
  "users (snd (processTransfer cr st e pid s)) = users s" "outbox (snd (processTransfer cr st e pid s)) = outbox s"
proof -
  have out: "outbox s1 = outbox s" if "recipientFor cr bank s = (r, s1)" for bank r s1
    using that by (auto simp: recipientFor_def split: option.splits sum.splits)
  show "users (snd (processTransfer cr st e pid s)) = users s" "outbox (snd (processTransfer cr st e pid s)) = outbox s"
    by (auto simp: processTransfer_def recordInitiated_result dest: recipientFor_frame out
        split: option.splits prod.splits sum.splits)
qed

lemma approvals_ok_worker:
  assumes "approvals_ok s" "reservations_ok s" "queued pid s"
  shows "approvals_ok (snd (processTransfer cr st e pid s))"
proof (cases "find_payout pid s")
  case None
  with assms(1) show ?thesis by (simp add: processTransfer_def)
next
  case (Some p)
  obtain f where t: "payouts (snd (processTransfer cr st e pid s)) = update_where (\<lambda>p. po_payoutId p = pid) f (payouts s)"
    and f: "f = id \<or> (\<exists>c. f = po_transferCode_update (\<lambda>_. Some c))"
    using processTransfer_payouts by blast
  have fs: "po_payoutId (f q) = po_payoutId q" "po_companyApprovedById (f q) = po_companyApprovedById q"
      "po_adminApprovedById (f q) = po_adminApprovedById q" "po_companyId (f q) = po_companyId q"
      "po_userId (f q) = po_userId q" for q
    using f by auto
  show ?thesis
    by (rule approvals_ok_transfer[OF assms(1) processTransfer_frame(1) t _ Some assms(2)])
      (use assms(3) in \<open>auto simp: queued_def processTransfer_frame fs\<close>)
qed

lemma approvals_ok_workerFailed:
  assumes "approvals_ok s" "reservations_ok s" "queued pid s"
  shows "approvals_ok (snd (onTransferFailed e pid m n k s))"
proof (cases "find_payout pid s")
  case None
  with assms(1) show ?thesis by (simp add: onTransferFailed_def)
next
  case (Some p)
  have "approvals_ok (emit (Event ''COMMISSION_TRANSFER_FAILED'' pid)
            (update_payout pid
              (\<lambda>p. p\<lparr>po_status := CommissionPayoutStatus.TRANSFER_FAILED,
                     po_transferFailedAt := Some (env_now e), po_transferFailReason := Some m\<rparr>) s))"
    by (rule approvals_ok_transfer[OF assms(1) _ _ _ Some assms(2), where f = "\<lambda>p.
        p\<lparr>po_status := CommissionPayoutStatus.TRANSFER_FAILED,
          po_transferFailedAt := Some (env_now e), po_transferFailReason := Some m\<rparr>"])
      (use assms(3) in \<open>auto simp: queued_outbox[of "update_payout pid _ s" s] queued_def\<close>)
  with assms(1) show ?thesis by (simp add: onTransferFailed_def Some)
qed

definition loop_of :: "CommissionAllocationStatus \<times> (db \<Rightarrow> allocation_row \<Rightarrow> db \<Rightarrow> db) \<Rightarrow> bool" where
  "loop_of x \<longleftrightarrow> x \<in> {(CommissionAllocationStatus.RESERVED, settleAllocation),
     (CommissionAllocationStatus.RESERVED, releaseAllocation), (CommissionAllocationStatus.PAID, restoreAllocation)}"

lemma forAllocations_frame:
  fixes pid :: ident
  assumes "reservations_ok s" "\<And>p. po_payoutId (f p) = po_payoutId p" "loop_of (st, step)"
  defines "t \<equiv> forAllocations pid st step s (update_payout pid f s)"
  shows "payouts t = update_where (\<lambda>p. po_payoutId p = pid) f (payouts s)" "users t = users s"
    "book t = book s" "outbox t = outbox s"
  using assms(3)
    settle.payout_loop_keeps[of "update_payout pid f s" s pid]
    release.payout_loop_keeps[of "update_payout pid f s" s pid]
    restore.payout_loop_keeps[of "update_payout pid f s" s pid] assms(1,2)
  unfolding t_def forAllocations_def loop_of_def by auto

lemma approvals_ok_webhook:
  assumes "approvals_ok s" "reservations_ok s" "queued pid s" "find_payout pid s = Some p"
    and "loop_of (st, step)"
    and f: "\<And>q. po_payoutId (f q) = po_payoutId q" "\<And>q. po_companyApprovedById (f q) = po_companyApprovedById q"
      "\<And>q. po_adminApprovedById (f q) = po_adminApprovedById q"
      "\<And>q. po_companyId (f q) = po_companyId q" "\<And>q. po_userId (f q) = po_userId q"
  shows "approvals_ok (emit (Event k i) ((forAllocations pid st step s (update_payout pid f s))\<lparr>book := b\<rparr>))"
  by (rule approvals_ok_transfer[OF assms(1) _ _ _ assms(4,2), where f = f])
    (use assms(3) f in \<open>auto simp: forAllocations_frame[OF assms(2) f(1) assms(5)] queued_def\<close>)

lemma approvals_ok_success:
  assumes "approvals_ok s" "reservations_ok s" "queued pid s"
  shows "approvals_ok (snd (payoutTransferSuccess e pid s))"
  using assms
  by (auto simp: payoutTransferSuccess_def webhook_result split: option.splits
      intro!: approvals_ok_webhook simp: loop_of_def)

lemma approvals_ok_failed:
  assumes "approvals_ok s" "reservations_ok s" "queued pid s"
  shows "approvals_ok (snd (payoutTransferFailed e pid reason s))"
  using assms
  by (auto simp: payoutTransferFailed_def webhook_result split: option.splits
      intro!: approvals_ok_webhook simp: loop_of_def)

lemma approvals_ok_reversed:
  assumes "approvals_ok s" "reservations_ok s" "queued pid s"
  shows "approvals_ok (snd (payoutTransferReversed e pid s))"
  using assms
  by (auto simp: payoutTransferReversed_def webhook_result split: option.splits
      intro!: approvals_ok_webhook simp: loop_of_def)

lemma applyPlan_frame [simp]:
  "payouts (applyPlan p u i xs s) = payouts s" "users (applyPlan p u i xs s) = users s"
  "outbox (applyPlan p u i xs s) = outbox s" "book (applyPlan p u i xs s) = book s"
  by (induction xs arbitrary: i s) auto

lemma requestPayout_row:
  assumes "requestPayout e uid amount s = (Inr r, s')"
  shows "payouts s' = payouts s @ [r]" "users s' = users s" "queued i s' = queued i s"
    "po_payoutId r = env_uuid e 0" "po_userId r = uid"
    "po_status r = PENDING_ADMIN_APPROVAL \<or> po_status r = PENDING_COMPANY_APPROVAL \<and> skips_admin s r"
  using assms
  by (auto simp: requestPayout_def transaction_def reservePayout_def Let_def new_payout_def skips_admin_def
      find_user_id queued_def split: option.splits if_splits prod.splits sum.splits)

lemma approvals_ok_request:
  assumes "approvals_ok s" "fresh_uuids e s"
  shows "approvals_ok (snd (requestPayout e uid amount s))"
proof (cases "requestPayout e uid amount s")
  case (Pair r s')
  show ?thesis
  proof (cases r)
    case (Inl err)
    with Pair requestPayout_failure assms(1) show ?thesis by fastforce
  next
    case (Inr request)
    with Pair have "requestPayout e uid amount s = (Inr request, s')" by simp
    note row = requestPayout_row[OF this]
    have "\<not> queued (env_uuid e 0) s"
      using assms by (auto simp: approvals_ok_def fresh_uuids_def)
    with assms(1) row(4,6) show ?thesis
      unfolding Pair snd_conv approvals_ok_def approvals_users[OF row(2)] row(1,3) by auto
  qed
qed

lemma payout_step_keeps_approvals: "payout_step s s' \<Longrightarrow> reservations_ok s \<Longrightarrow> approvals_ok s \<Longrightarrow> approvals_ok s'"
proof (induction rule: payout_step.induct)
  case (accrue c s)
  then show ?case by (subst approvals_ok_cong[of _ s]) (simp_all add: queued_def)
qed (simp_all add: approvals_ok_request approvals_ok_adminApprove approvals_ok_companyApprove approvals_ok_initiate
    approvals_ok_worker approvals_ok_workerFailed approvals_ok_success approvals_ok_failed approvals_ok_reversed)

lemma reachable_approvals: "payout_reachable s \<Longrightarrow> reservations_ok s \<and> approvals_ok s"
proof (induction rule: payout_reachable.induct)
  case (start s)
  then show ?case
    by (simp add: payout_start_def reservations_ok_def keys_ok_def approvals_ok_def queued_def)
qed (blast intro: payout_step_keeps_reservations payout_step_keeps_approvals)

section \<open>A sample company\<close>

text \<open>
  A company account, its admin, a marketer the admin created, and the marketer's bank account.
  \<open>sample_env k t\<close> is the environment of one call at time \<open>t\<close>, its identifiers starting with \<open>k\<close>.
\<close>

definition sample_env :: "char \<Rightarrow> time \<Rightarrow> env" where
  "sample_env k t = \<lparr>env_now = t, env_uuid = (\<lambda>i. k # replicate i CHR ''x'')\<rparr>"

definition sample_user :: "ident \<Rightarrow> Role \<Rightarrow> ident option \<Rightarrow> user_row" where
  "sample_user i r creator = \<lparr>u_userId = i, u_email = i @ ''@x.io'', u_name = None, u_role = r,
     u_companyId = Some ''co'', u_createdById = creator, u_referredByMarketerId = None,
     u_referralCode = None, u_password = '''', u_active = True, u_forcePasswordChange = False, u_deletedAt = None, u_createdAt = 0\<rparr>"

definition sample_bank :: marketer_bank_row where
  "sample_bank = \<lparr>mb_id = 1, mb_accountId = ''acc'', mb_userId = ''mk'', mb_bankName = ''Bank'', mb_bankCode = ''044'',
     mb_accountName = ''MK'', mb_accountNumber = ''0123456789'', mb_isPrimary = True,
     mb_recipientCode = Some ''RCP'', mb_isVerified = True, mb_createdAt = 1\<rparr>"

definition sample_db :: db where
  "sample_db = empty_db\<lparr>users := [sample_user ''cu'' COMPANY None, sample_user ''ad'' ADMIN (Some ''cu''),
       sample_user ''mk'' MARKETER (Some ''ad'')], marketerBanks := [sample_bank]\<rparr>"

definition sample_commission :: commission_row where
  "sample_commission = \<lparr>cm_commissionId = ''cm'', cm_userId = ''mk'', cm_paymentId = Some ''pay'', cm_amount = 100,
     cm_status = CommissionStatus.ACTIVE, cm_reservedAmount = 0, cm_createdAt = 1\<rparr>"

definition sample_accrued :: db where
  "sample_accrued = sample_db\<lparr>commissions := commissions sample_db @ [sample_commission]\<rparr>"

text \<open>The request of one payout and everything up to the queued transfer job.\<close>

definition sample_requested :: "decimal \<Rightarrow> db" where
  "sample_requested x = snd (requestPayout (sample_env CHR ''p'' 10) ''mk'' x sample_accrued)"

definition sample_queued :: "decimal \<Rightarrow> db" where
  "sample_queued x = snd (initiateTransfer (sample_env CHR ''i'' 13) ''p'' ''cu''
     (snd (companyApprovePayout (sample_env CHR ''c'' 12) ''p'' ''cu''
       (snd (adminApprovePayout (sample_env CHR ''a'' 11) ''p'' ''ad'' (sample_requested x))))))"

section \<open>The status machine\<close>

text \<open>
  The abstract life of one payout.  Before a transfer is queued it climbs the approvals;
  afterwards it is in flight or reported, and only a failed or reversed transfer may be
  started again.
\<close>

inductive status_move :: "CommissionPayoutStatus \<Rightarrow> CommissionPayoutStatus \<Rightarrow> bool" where
  admin_approves: "status_move PENDING_ADMIN_APPROVAL PENDING_COMPANY_APPROVAL"
| company_approves: "status_move PENDING_COMPANY_APPROVAL CommissionPayoutStatus.APPROVED"
| starts: "a \<in> allowedStatuses \<Longrightarrow> status_move a CommissionPayoutStatus.TRANSFER_INITIATED"
| reports: "a \<in> {CommissionPayoutStatus.TRANSFER_INITIATED, CommissionPayoutStatus.PAID,
      CommissionPayoutStatus.TRANSFER_FAILED, CommissionPayoutStatus.TRANSFER_REVERSED} \<Longrightarrow>
    b \<in> {CommissionPayoutStatus.PAID, CommissionPayoutStatus.TRANSFER_FAILED,
      CommissionPayoutStatus.TRANSFER_REVERSED} \<Longrightarrow> status_move a b"

inductive_simps status_move_from_paid: "status_move CommissionPayoutStatus.PAID b"

inductive_simps status_move_from_initiated: "status_move CommissionPayoutStatus.TRANSFER_INITIATED b"

definition in_flight :: "CommissionPayoutStatus set" where
  "in_flight = {CommissionPayoutStatus.TRANSFER_INITIATED, CommissionPayoutStatus.PAID,
     CommissionPayoutStatus.TRANSFER_FAILED, CommissionPayoutStatus.TRANSFER_REVERSED}"

definition flight_ok :: "db \<Rightarrow> bool" where
  "flight_ok s \<longleftrightarrow> (\<forall>p \<in> set (payouts s). queued (po_payoutId p) s \<longleftrightarrow> po_status p \<in> in_flight)"

text \<open>How one step changes the payout table: not at all, by a new row, or one row's status.\<close>

definition row_moves :: "db \<Rightarrow> db \<Rightarrow> bool" where
  "row_moves s s' \<longleftrightarrow> (\<exists>pid f. payouts s' = update_where (\<lambda>p. po_payoutId p = pid) f (payouts s) \<and>
     (\<forall>p \<in> set (payouts s). po_payoutId p = pid \<longrightarrow>
        po_payoutId (f p) = pid \<and> po_amount (f p) = po_amount p \<and> po_userId (f p) = po_userId p \<and>
        po_companyId (f p) = po_companyId p \<and>
        (po_status (f p) = po_status p \<or> status_move (po_status p) (po_status (f p))) \<and>
        (queued pid s' \<longleftrightarrow> po_status (f p) \<in> in_flight)) \<and>
     (\<forall>i. i \<noteq> pid \<longrightarrow> queued i s' = queued i s))"

lemma row_moves_flight:
  assumes "row_moves s s'" "flight_ok s"
  shows "flight_ok s'"
  using assms unfolding row_moves_def flight_ok_def
  by (auto simp: set_update_where split: if_splits)

lemma row_moves_row:
  assumes "row_moves s s'" "p \<in> set (payouts s)"
  shows "\<exists>q \<in> set (payouts s'). po_payoutId q = po_payoutId p \<and> po_amount q = po_amount p \<and>
    po_userId q = po_userId p \<and> po_companyId q = po_companyId p \<and>
    (po_status q = po_status p \<or> status_move (po_status p) (po_status q))"
proof -
  obtain pid f where f: "payouts s' = update_where (\<lambda>p. po_payoutId p = pid) f (payouts s)"
    "\<forall>p \<in> set (payouts s). po_payoutId p = pid \<longrightarrow>
        po_payoutId (f p) = pid \<and> po_amount (f p) = po_amount p \<and> po_userId (f p) = po_userId p \<and>
        po_companyId (f p) = po_companyId p \<and>
        (po_status (f p) = po_status p \<or> status_move (po_status p) (po_status (f p)))"
    using assms(1) unfolding row_moves_def by blast
  let ?q = "if po_payoutId p = pid then f p else p"
  have "?q \<in> set (payouts s')" unfolding f(1) set_update_where using assms(2) by blast
  then show ?thesis by (rule rev_bexI) (use f(2) assms(2) in auto)
qed

lemma row_moves_unchanged:
  assumes "payouts s' = payouts s" "\<And>i. queued i s' = queued i s" "flight_ok s"
  shows "row_moves s s'"
proof -
  have "payouts s = update_where (\<lambda>p. po_payoutId p = i) (\<lambda>p. p) (payouts s)" for i
    by (simp add: update_where_def)
  with assms show ?thesis
    unfolding row_moves_def by (intro exI[of _ "[]"] exI[of _ "\<lambda>p. p"]) (auto simp: flight_ok_def)
qed

lemma row_moves_refl: "flight_ok s \<Longrightarrow> row_moves s s"
  by (rule row_moves_unchanged) simp_all

text \<open>A handler that rewrites one row; the job queue knows the payout afterwards as it should.\<close>

lemma row_moves_update:
  assumes "payouts s' = update_where (\<lambda>p. po_payoutId p = pid) f (payouts s)" "reservations_ok s"
    and "find_payout pid s = Some p"
    and "po_payoutId (f p) = pid" "po_amount (f p) = po_amount p" "po_userId (f p) = po_userId p"
      "po_companyId (f p) = po_companyId p"
    and "po_status (f p) = po_status p \<or> status_move (po_status p) (po_status (f p))"
    and "queued pid s' \<longleftrightarrow> po_status (f p) \<in> in_flight" "\<And>i. i \<noteq> pid \<Longrightarrow> queued i s' = queued i s"
  shows "row_moves s s'"
  unfolding row_moves_def
  using assms(1,4-10) find_unique_row[OF assms(2,3)] by (intro exI[of _ pid] exI[of _ f]) auto

lemma flight_status:
  assumes "flight_ok s" "find_payout pid s = Some p"
  shows "queued pid s \<longleftrightarrow> po_status p \<in> in_flight"
  using assms find_payout_in[OF assms(2)] find_payout_id[OF assms(2)] by (auto simp: flight_ok_def)

lemma row_moves_adminApprove:
  assumes "flight_ok s" "reservations_ok s"
  shows "row_moves s (snd (adminApprovePayout e pid uid s))"
proof (cases "ok (fst (adminApprovePayout e pid uid s))")
  case False
  then show ?thesis
    using assms by (intro row_moves_unchanged) (auto simp: adminApprovePayout_def split: option.splits)
next
  case True
  let ?f = "\<lambda>p. p\<lparr>po_status := PENDING_COMPANY_APPROVAL, po_adminApprovedById := Some uid,
    po_adminApprovedAt := Some (env_now e)\<rparr>"
  obtain p where p: "find (\<lambda>p. po_payoutId p = pid \<and> po_status p = PENDING_ADMIN_APPROVAL) (payouts s) = Some p"
    and s': "snd (adminApprovePayout e pid uid s) =
      emit (Notify ''COMMISSION_REQUEST_APPROVAL'' pid) (update_payout pid ?f s)"
    using True by (auto simp: adminApprovePayout_def split: option.splits if_splits)
  have pin: "p \<in> set (payouts s)" "po_payoutId p = pid" "po_status p = PENDING_ADMIN_APPROVAL"
    using find_set[OF p] by auto
  have fp: "find_payout pid s = Some p"
    using assms(2) find_unique_key[of po_payoutId "payouts s" p] pin
    by (simp add: reservations_ok_def keys_ok_def find_payout_def)
  show ?thesis
    unfolding s' using flight_status[OF assms(1) fp] pin
    by (intro row_moves_update[OF _ assms(2) fp, where f = ?f])
      (auto simp: queued_outbox[of "update_payout pid _ s" s] in_flight_def intro: status_move.intros)
qed

lemma row_moves_companyApprove:
  assumes "flight_ok s" "reservations_ok s"
  shows "row_moves s (snd (companyApprovePayout e pid uid s))"
proof (cases "ok (fst (companyApprovePayout e pid uid s))")
  case False
  then show ?thesis
    using assms by (intro row_moves_unchanged) (auto simp: companyApprovePayout_def split: option.splits)
next
  case True
  let ?f = "\<lambda>p. p\<lparr>po_status := CommissionPayoutStatus.APPROVED, po_companyApprovedById := Some uid,
    po_companyApprovedAt := Some (env_now e)\<rparr>"
  obtain p where p: "find_payout pid s = Some p" "po_status p = PENDING_COMPANY_APPROVAL"
    and s': "snd (companyApprovePayout e pid uid s) =
      emit (Notify ''COMMISSION_REQUEST_APPROVAL'' pid) (update_payout pid ?f s)"
    using True by (auto simp: companyApprovePayout_def split: option.splits if_splits)
  show ?thesis
    unfolding s' using flight_status[OF assms(1) p(1)] find_payout_id[OF p(1)] p(2)
    by (intro row_moves_update[OF _ assms(2) p(1), where f = ?f])
      (auto simp: queued_outbox[of "update_payout pid _ s" s] in_flight_def intro: status_move.intros)
qed

lemma row_moves_initiate:
  assumes "flight_ok s" "reservations_ok s"
  shows "row_moves s (snd (initiateTransfer e pid uid s))"
proof (cases "ok (fst (initiateTransfer e pid uid s))")
  case False
  with assms show ?thesis by (simp add: initiateTransfer_refused row_moves_unchanged)
next
  case True
  from initiateTransfer_effect[OF assms(2) True] obtain p bank where
    p: "find_payout pid s = Some p" "po_status p \<in> allowedStatuses"
    and t: "payouts (snd (initiateTransfer e pid uid s)) =
      update_where (\<lambda>p. po_payoutId p = pid) (started e uid bank) (payouts s)"
      "outbox (snd (initiateTransfer e pid uid s)) =
        outbox s @ [Event ''COMMISSION_TRANSFER_INITIATED'' pid, Job ''process-transfer'' pid]"
    by blast
  show ?thesis
    by (rule row_moves_update[OF t(1) assms(2) p(1)])
      (use find_payout_id[OF p(1)] p(2) in
        \<open>auto simp: started_def in_flight_def queued_def t(2) intro: status_move.intros\<close>)
qed

lemma row_moves_worker:
  assumes "flight_ok s" "reservations_ok s"
  shows "row_moves s (snd (processTransfer cr st e pid s))"
proof (cases "find_payout pid s")
  case None
  with assms(1) show ?thesis by (simp add: processTransfer_def row_moves_unchanged)
next
  case (Some p)
  obtain f where t: "payouts (snd (processTransfer cr st e pid s)) = update_where (\<lambda>p. po_payoutId p = pid) f (payouts s)"
    and f: "f = id \<or> (\<exists>c. f = po_transferCode_update (\<lambda>_. Some c))"
    using processTransfer_payouts by blast
  show ?thesis
    by (rule row_moves_update[OF t assms(2) Some])
      (use f find_payout_id[OF Some] flight_status[OF assms(1) Some] in
        \<open>auto simp: queued_def processTransfer_frame\<close>)
qed

lemma row_moves_workerFailed:
  assumes "flight_ok s" "reservations_ok s" "queued pid s"
  shows "row_moves s (snd (onTransferFailed e pid m n k s))"
proof (cases "find_payout pid s")
  case None
  with assms(1) show ?thesis by (simp add: onTransferFailed_def row_moves_unchanged)
next
  case (Some p)
  let ?f = "\<lambda>p. p\<lparr>po_status := CommissionPayoutStatus.TRANSFER_FAILED,
      po_transferFailedAt := Some (env_now e), po_transferFailReason := Some m\<rparr>"
  have "row_moves s (emit (Event ''COMMISSION_TRANSFER_FAILED'' pid) (update_payout pid ?f s))"
    by (rule row_moves_update[OF _ assms(2) Some, where f = ?f])
      (use find_payout_id[OF Some] flight_status[OF assms(1) Some] assms(3) in
        \<open>auto simp: queued_outbox[of "update_payout pid _ s" s] in_flight_def intro: status_move.intros\<close>)
  with assms(1) show ?thesis by (simp add: onTransferFailed_def Some row_moves_unchanged)
qed

lemma row_moves_webhook:
  assumes "flight_ok s" "reservations_ok s" "queued pid s" "find_payout pid s = Some p" "loop_of (st, step)"
    and f: "\<And>q. po_payoutId (f q) = po_payoutId q" "\<And>q. po_amount (f q) = po_amount q"
      "\<And>q. po_companyId (f q) = po_companyId q" "\<And>q. po_userId (f q) = po_userId q"
    and to: "po_status (f p) \<in> {CommissionPayoutStatus.PAID, CommissionPayoutStatus.TRANSFER_FAILED,
      CommissionPayoutStatus.TRANSFER_REVERSED}"
  shows "row_moves s (emit (Event k i) ((forAllocations pid st step s (update_payout pid f s))\<lparr>book := b\<rparr>))"
  by (rule row_moves_update[OF _ assms(2,4), where f = f])
    (use find_payout_id[OF assms(4)] flight_status[OF assms(1,4)] assms(3) f to in
      \<open>auto simp: forAllocations_frame[OF assms(2) f(1) assms(5)] queued_def in_flight_def
        intro: status_move.intros\<close>)

lemma row_moves_webhooks:
  assumes "flight_ok s" "reservations_ok s" "queued pid s"
  shows "row_moves s (snd (payoutTransferSuccess e pid s))"
    "row_moves s (snd (payoutTransferFailed e pid reason s))"
    "row_moves s (snd (payoutTransferReversed e pid s))"
  using assms
  by (auto simp: payoutTransferSuccess_def payoutTransferFailed_def payoutTransferReversed_def webhook_result
      loop_of_def split: option.splits intro!: row_moves_webhook row_moves_refl)

text \<open>Every step but a request moves rows; a request appends one that is not queued.\<close>

lemma payout_step_rows:
  assumes "payout_step s s'" "reservations_ok s" "approvals_ok s" "flight_ok s"
  shows "row_moves s s' \<or> (\<exists>r. payouts s' = payouts s @ [r] \<and> (\<forall>i. queued i s' = queued i s) \<and>
    po_status r \<in> {PENDING_ADMIN_APPROVAL, PENDING_COMPANY_APPROVAL} \<and> \<not> queued (po_payoutId r) s)"
  using assms
proof (induction rule: payout_step.induct)
  case (accrue c s)
  then show ?case by (intro disjI1 row_moves_unchanged) (simp_all add: queued_def)
next
  case (request e s uid amount)
  show ?case
  proof (cases "requestPayout e uid amount s")
    case (Pair r s')
    show ?thesis
    proof (cases r)
      case (Inl err)
      with Pair requestPayout_failure request(4) show ?thesis by (fastforce intro: row_moves_refl)
    next
      case (Inr q)
      with Pair have "requestPayout e uid amount s = (Inr q, s')" by simp
      note row = requestPayout_row[OF this]
      have "\<not> queued (env_uuid e 0) s"
        using request(1,3) unfolding approvals_ok_def fresh_uuids_def by metis
      with row show ?thesis unfolding Pair by auto
    qed
  qed
qed (simp_all add: row_moves_adminApprove row_moves_companyApprove row_moves_initiate row_moves_worker
    row_moves_workerFailed row_moves_webhooks)

lemma reachable_flight: "payout_reachable s \<Longrightarrow> reservations_ok s \<and> approvals_ok s \<and> flight_ok s"
proof (induction rule: payout_reachable.induct)
  case (start s)
  then show ?case using payout_reachable.start reachable_approvals by (auto simp: payout_start_def flight_ok_def)
next
  case (step s s')
  have "row_moves s s' \<or> (\<exists>r. payouts s' = payouts s @ [r] \<and> (\<forall>i. queued i s' = queued i s) \<and>
    po_status r \<in> {PENDING_ADMIN_APPROVAL, PENDING_COMPANY_APPROVAL} \<and> \<not> queued (po_payoutId r) s)"
    using payout_step_rows[OF step(2)] step(3) by blast
  then have "flight_ok s'"
  proof (elim disjE exE)
    fix r assume "payouts s' = payouts s @ [r] \<and> (\<forall>i. queued i s' = queued i s) \<and>
      po_status r \<in> {PENDING_ADMIN_APPROVAL, PENDING_COMPANY_APPROVAL} \<and> \<not> queued (po_payoutId r) s"
    then have r: "payouts s' = payouts s @ [r]" "\<forall>i. queued i s' = queued i s"
        "po_status r \<in> {PENDING_ADMIN_APPROVAL, PENDING_COMPANY_APPROVAL}" "\<not> queued (po_payoutId r) s"
      by blast+
    have nf: "po_status r \<notin> in_flight" using r(3) by (auto simp: in_flight_def)
    from step(3) have "flight_ok s" by blast
    then show "flight_ok s'" by (simp add: flight_ok_def r(1,2,4) nf)
  qed (use row_moves_flight step(3) in blast)
  then show ?case using payout_reachable.step[OF step(1,2)] reachable_approvals by blast
qed

text \<open>The sample states are reachable.\<close>

lemma sample_env_inj: "inj (env_uuid (sample_env k t))"
  by (auto simp: sample_env_def inj_def)

lemma sample_accrued_reachable: "payout_reachable sample_accrued"
  unfolding sample_accrued_def
  by (rule payout_reachable.step[OF payout_reachable.start payout_step.accrue])
    (simp_all add: sample_db_def payout_start_def empty_db_def sample_commission_def)

lemma sample_accrued_fresh: "fresh_uuids (sample_env k t) sample_accrued"
  using sample_env_inj by (auto simp: fresh_uuids_def sample_accrued_def sample_db_def empty_db_def)

lemma sample_queued_reachable: "payout_reachable (sample_queued x)"
  unfolding sample_queued_def sample_requested_def
  by (intro payout_reachable.step[OF _ payout_step.initiate] payout_reachable.step[OF _ payout_step.company]
      payout_reachable.step[OF _ payout_step.admin] payout_reachable.step[OF _ payout_step.request]
      sample_accrued_reachable sample_accrued_fresh)

text \<open>What evaluates the handlers of the request and its approvals on a concrete database.\<close>

lemmas payout_runs = sample_queued_def sample_requested_def sample_accrued_def sample_db_def empty_db_def
  sample_commission_def sample_bank_def sample_user_def sample_env_def requestPayout_def adminApprovePayout_def
  companyApprovePayout_def initiateTransfer_def find_user_def find_payout_def or_null_def transaction_def
  reservePayout_def lockedCommissions_def totalAvailable_def creatorRoleOf_def new_payout_def applyEntry_def
  in_progress_def allowedStatuses_def primaryBank_def startTransfer_def update_payout_def update_commission_def
  emit_def deriveReservationStatus_def row_simps queued_def

lemma sample_queued_60:
  "queued ''p'' (sample_queued 60) \<and>
   map (\<lambda>p. (po_payoutId p, po_status p)) (payouts (sample_queued 60)) =
     [(''p'', CommissionPayoutStatus.TRANSFER_INITIATED)] \<and>
   commissions (sample_queued 60) =
     [sample_commission\<lparr>cm_status := CommissionStatus.PARTIALLY_RESERVED, cm_reservedAmount := 60\<rparr>]"
  by (simp add: payout_runs Let_def)

section \<open>Properties\<close>

text \<open>C1: In every state the payout handlers reach, the reserved amount stored on a commission
  is the sum of its allocations in state RESERVED, and identifiers stay unique.\<close>

theorem reserved_amount_is_the_sum_of_reserved_allocations:
  assumes "payout_reachable s" "c \<in> set (commissions s)"
  shows "cm_reservedAmount c = sum_where (\<lambda>a. al_commissionId a = cm_commissionId c \<and>
      al_status a = CommissionAllocationStatus.RESERVED) al_allocatedAmount (allocations s) \<and>
    distinct (map cm_commissionId (commissions s)) \<and> distinct (map po_payoutId (payouts s)) \<and>
    distinct (map al_allocationId (allocations s))"
  using reachable_reservations[OF assms(1)] assms(2)
  by (simp add: reservations_ok_def keys_ok_def reserved_total_def)

theorem reserved_amount_is_the_sum_of_reserved_allocations_witness:
  "sum_where (\<lambda>a. al_commissionId a = ''cm'' \<and> al_status a = CommissionAllocationStatus.RESERVED)
     al_allocatedAmount (allocations (sample_queued 60)) = 60"
  using reserved_amount_is_the_sum_of_reserved_allocations[OF sample_queued_reachable[of 60],
      of "sample_commission\<lparr>cm_status := CommissionStatus.PARTIALLY_RESERVED, cm_reservedAmount := 60\<rparr>"]
    sample_queued_60
  by (simp add: sample_commission_def)

text \<open>C2: Dual control: whenever a transfer job of a payout has been queued, a company account of
  the payout's company has approved it, and either an admin of that company approved it before
  or the requester is an admin or was created by a company account.  The same approvals stand
  behind every payout that has left the two approval states.\<close>

theorem transfers_are_approved:
  assumes "payout_reachable s" "queued pid s"
  shows "\<exists>p \<in> set (payouts s). po_payoutId p = pid \<and> company_approved s p \<and>
    (admin_approved s p \<or> skips_admin s p) \<and> po_status p \<in> in_flight"
proof -
  note r = reachable_flight[OF assms(1)]
  then obtain p where "p \<in> set (payouts s)" "po_payoutId p = pid"
    using assms(2) unfolding approvals_ok_def by blast
  with r assms(2) show ?thesis unfolding approvals_ok_def flight_ok_def by blast
qed

theorem transfers_are_approved_witness:
  "\<exists>p \<in> set (payouts (sample_queued 60)). po_payoutId p = ''p'' \<and> company_approved (sample_queued 60) p \<and>
    (admin_approved (sample_queued 60) p \<or> skips_admin (sample_queued 60) p) \<and> po_status p \<in> in_flight"
  using transfers_are_approved[OF sample_queued_reachable, of "''p''" 60] sample_queued_60 by blast

text \<open>C3: Refinement: every handler changes each payout row the way the abstract status machine
  allows: amount, owner and company never change, and the status stays or makes one of the
  machine's moves; so a paid payout is never started again unless a failure or reversal was
  reported after it was paid.\<close>

theorem payout_steps_refine_the_status_machine:
  assumes "payout_reachable s" "payout_step s s'" "p \<in> set (payouts s)"
  shows "\<exists>q \<in> set (payouts s'). po_payoutId q = po_payoutId p \<and> po_amount q = po_amount p \<and>
    po_userId q = po_userId p \<and> po_companyId q = po_companyId p \<and>
    (po_status q = po_status p \<or> status_move (po_status p) (po_status q)) \<and>
    (po_status p = CommissionPayoutStatus.PAID \<longrightarrow> po_status q \<noteq> CommissionPayoutStatus.TRANSFER_INITIATED)"
proof -
  have "\<exists>q \<in> set (payouts s'). po_payoutId q = po_payoutId p \<and> po_amount q = po_amount p \<and>
    po_userId q = po_userId p \<and> po_companyId q = po_companyId p \<and>
    (po_status q = po_status p \<or> status_move (po_status p) (po_status q))"
    using payout_step_rows[OF assms(2)] reachable_flight[OF assms(1)] row_moves_row[OF _ assms(3)] assms(3)
    by fastforce
  moreover have "b \<noteq> CommissionPayoutStatus.TRANSFER_INITIATED"
    if "status_move CommissionPayoutStatus.PAID b" for b
    using that by (auto simp: status_move_from_paid allowedStatuses_def)
  ultimately show ?thesis by fastforce
qed

theorem payout_steps_refine_the_status_machine_witness:
  "\<exists>q \<in> set (payouts (snd (payoutTransferSuccess (sample_env CHR ''s'' 14) ''p'' (sample_queued 60)))).
     po_payoutId q = ''p'' \<and> po_status q \<noteq> CommissionPayoutStatus.APPROVED"
proof -
  obtain p where p: "p \<in> set (payouts (sample_queued 60))" "po_payoutId p = ''p''"
      "po_status p = CommissionPayoutStatus.TRANSFER_INITIATED"
    using sample_queued_60 by (auto simp: map_eq_Cons_conv)
  have "payout_step (sample_queued 60) (snd (payoutTransferSuccess (sample_env CHR ''s'' 14) ''p'' (sample_queued 60)))"
    by (rule payout_step.succeeded) (simp add: sample_queued_60)
  from payout_steps_refine_the_status_machine[OF sample_queued_reachable this p(1)] p(2,3) show ?thesis
    by (auto simp: status_move_from_initiated allowedStatuses_def)
qed

end
