(* ===== verification/PayoutBooks.thy ===== *)
theory PayoutBooks
  imports PayoutLifecycle
begin

text \<open>
  What a commission transfer does to the ledger, what a webhook delivered twice does, and two
  histories in which a marketer is promised more than a commission is worth.  Rests on the
  interpretation \<open>lb\<close> of the double-entry contract for the ledger's model.
\<close>

section \<open>One transfer in the books\<close>

lemma payout_webhook_books:
  assumes "reservations_ok s" "find_payout pid s = Some p"
  shows "po_status p \<noteq> CommissionPayoutStatus.PAID \<Longrightarrow> book (snd (payoutTransferSuccess e pid s)) =
      post_labelled (env_uuid e, ''TRANSFER_SUCCESS_'' @ pid, ''Transfer confirmed'') (Some (po_companyId p))
        (successEntries p) (book s)"
    "po_status p \<noteq> CommissionPayoutStatus.TRANSFER_FAILED \<Longrightarrow> book (snd (payoutTransferFailed e pid reason s)) =
      post_labelled (env_uuid e, ''TRANSFER_FAILED_'' @ pid, ''Transfer failed'') (Some (po_companyId p))
        (failedEntries p) (book s)"
    "po_status p \<noteq> CommissionPayoutStatus.TRANSFER_REVERSED \<Longrightarrow> book (snd (payoutTransferReversed e pid s)) =
      post_labelled (env_uuid e, ''TRANSFER_REVERSED_'' @ pid, ''Transfer reversed'') (Some (po_companyId p))
        (reversedEntries p) (book s)"
  using assms
  by (simp_all add: payoutTransferSuccess_def payoutTransferFailed_def payoutTransferReversed_def webhook_result
      forAllocations_frame loop_of_def)

lemma find_payout_emit [simp]: "find_payout i (emit x s) = find_payout i s"
  by (simp add: find_payout_def)

lemma find_payout_book [simp]: "find_payout i (s\<lparr>book := b\<rparr>) = find_payout i s"
  by (simp add: find_payout_def)

lemma find_payout_for:
  assumes "reservations_ok s" "\<And>q. po_payoutId (f q) = po_payoutId q" "loop_of (st, step)" "find_payout pid s = Some p"
  shows "find_payout pid (forAllocations pid st step s (update_payout pid f s)) = Some (f p)"
  using assms find_payout_id[OF assms(4)] find_update_where[of "\<lambda>p. po_payoutId p = pid" "\<lambda>p. po_payoutId p = pid" f "payouts s"]
  by (simp add: find_payout_def forAllocations_frame)

text \<open>A first delivery leaves the status it reports.\<close>

lemma payout_webhook_row:
  assumes "reservations_ok s" "find_payout pid s = Some p"
  shows "\<exists>q. find_payout pid (snd (payoutTransferSuccess e pid s)) = Some q \<and>
      po_status q = CommissionPayoutStatus.PAID \<and> po_amount q = po_amount p \<and> po_companyId q = po_companyId p"
    "\<exists>q. find_payout pid (snd (payoutTransferFailed e pid reason s)) = Some q \<and>
      po_status q = CommissionPayoutStatus.TRANSFER_FAILED \<and> po_amount q = po_amount p \<and> po_companyId q = po_companyId p"
    "\<exists>q. find_payout pid (snd (payoutTransferReversed e pid s)) = Some q \<and>
      po_status q = CommissionPayoutStatus.TRANSFER_REVERSED \<and> po_amount q = po_amount p \<and> po_companyId q = po_companyId p"
  using assms
  by (auto simp: payoutTransferSuccess_def payoutTransferFailed_def payoutTransferReversed_def webhook_result
      find_payout_for loop_of_def)

lemma processTransfer_sends:
  assumes "find_payout pid s = Some p" "po_status p = CommissionPayoutStatus.TRANSFER_INITIATED"
    and "or_null (po_transferCode p) = None" "bankOfPayout p s = Some bank" "recipientFor cr bank s = (Inr rc, s0)"
    and "st (toKobo (po_amount p)) rc pid = Inr code"
  shows "processTransfer cr st e pid s = (Inr Processed,
    (update_payout pid (\<lambda>q. q\<lparr>po_transferCode := Some code\<rparr>) s0)
        \<lparr>book := post_labelled (env_uuid e, ''TRANSFER_INIT_'' @ pid, ''Transfer initiated'')
          (Some (po_companyId p)) (initEntries p) (book s)\<rparr>)"
  using assms find_payout_id[OF assms(1)] recipientFor_frame[OF assms(5)]
  by (simp add: processTransfer_def truthy_def recordInitiated_result)

text \<open>The account of the recipient keeps what the payout and the reservations are read from.\<close>

lemma recipientFor_keeps:
  assumes "recipientFor cr bank s = (r, s0)"
  shows "reservations_ok s0 = reservations_ok s" "find_payout pid s0 = find_payout pid s"
  using recipientFor_frame[OF assms] reservations_ok_cong(1)[of s0 s] by (simp_all add: find_payout_def)

text \<open>From here on postings are only used through the contract.\<close>

declare post_labelled.simps [simp del]

lemma reservations_ok_code [simp]:
  "reservations_ok ((update_payout pid (\<lambda>q. q\<lparr>po_transferCode := c\<rparr>) s)\<lparr>book := b\<rparr>) = reservations_ok s"
  by (subst reservations_ok_book) simp

lemma find_payout_code:
  "find_payout pid s = Some p \<Longrightarrow>
     find_payout pid ((update_payout pid (\<lambda>q. q\<lparr>po_transferCode := c\<rparr>) s)\<lparr>book := b\<rparr>)
       = Some (p\<lparr>po_transferCode := c\<rparr>)"
  using find_payout_id[of pid s p] by (simp add: find_payout_update)

section \<open>Properties\<close>

text \<open>C4: The books of one transfer that is not sent yet.  The worker sends it, to the recipient code stored with the account or
  to one it creates for the account's first transfer, and posts its initiation; when Paystack
  then reports a failure, every net position of every company is what it was before the
  transfer; when it reports success, the amount has moved from the company's commission
  payable to its settled bank and nothing stays in transit; when it reverses the successful
  transfer, every net position is again what it was before.\<close>

theorem transfer_books_net_out:
  assumes "reservations_ok s" "books_ok (book s)"
    and "find_payout pid s = Some p" "po_status p = CommissionPayoutStatus.TRANSFER_INITIATED"
    and "or_null (po_transferCode p) = None" "bankOfPayout p s = Some bank" "fst (recipientFor cr bank s) = Inr rc"
    and "st (toKobo (po_amount p)) rc pid = Inr code"
  shows "(case processTransfer cr st e pid s of (r, s1) \<Rightarrow>
      r = Inr Processed \<and>
      (\<forall>c n. net_debit (book (snd (payoutTransferFailed e2 pid reason s1))) c n = net_debit (book s) c n) \<and>
      (\<forall>c n. net_debit (book (snd (payoutTransferSuccess e2 pid s1))) c n = net_debit (book s) c n +
        (if or_null (Some (po_companyId p)) = c then
          (if n = ''COMMISSION_PAYABLE'' then po_amount p else 0) - (if n = ''BANK_SETTLED'' then po_amount p else 0)
         else 0)) \<and>
      (\<forall>c n. net_debit (book (snd (payoutTransferReversed e3 pid (snd (payoutTransferSuccess e2 pid s1))))) c n
        = net_debit (book s) c n))"
proof -
  define s1 where "s1 = snd (processTransfer cr st e pid s)"
  obtain s0 where s0: "recipientFor cr bank s = (Inr rc, s0)" using assms(7) by (cases "recipientFor cr bank s") simp
  have sent: "processTransfer cr st e pid s = (Inr Processed, s1)"
    and s1: "s1 = (update_payout pid (\<lambda>q. q\<lparr>po_transferCode := Some code\<rparr>) s0)
        \<lparr>book := post_labelled (env_uuid e, ''TRANSFER_INIT_'' @ pid, ''Transfer initiated'')
          (Some (po_companyId p)) (initEntries p) (book s)\<rparr>"
    using processTransfer_sends[where st = st, OF assms(3-6) s0 assms(8)] by (simp_all add: s1_def)
  have r1: "reservations_ok s1" unfolding s1 using assms(1) recipientFor_keeps(1)[OF s0] by simp
  have p1: "find_payout pid s1 = Some (p\<lparr>po_transferCode := Some code\<rparr>)"
    unfolding s1 by (rule find_payout_code) (simp add: recipientFor_keeps(2)[OF s0] assms(3))
  obtain q where q: "find_payout pid (snd (payoutTransferSuccess e2 pid s1)) = Some q"
      "po_status q = CommissionPayoutStatus.PAID" "po_amount q = po_amount p" "po_companyId q = po_companyId p"
    using payout_webhook_row(1)[OF r1 p1, of e2] by auto
  have b1: "book s1 = post_labelled (env_uuid e, ''TRANSFER_INIT_'' @ pid, ''Transfer initiated'')
      (Some (po_companyId p)) (initEntries p) (book s)"
    by (simp add: s1)
  have r2: "reservations_ok (snd (payoutTransferSuccess e2 pid s1))" by (rule reservations_ok_success[OF r1])
  note rv = payout_webhook_books(3)[OF r2 q(1), of e3, simplified q(2), simplified]
  have succ: "net_debit (book (snd (payoutTransferSuccess e2 pid s1))) c n = net_debit (book s) c n +
        (if or_null (Some (po_companyId p)) = c then
          (if n = ''COMMISSION_PAYABLE'' then po_amount p else 0) - (if n = ''BANK_SETTLED'' then po_amount p else 0)
         else 0)" for c n
    using payout_webhook_books(1)[OF r1 p1, of e2] assms(4) lb.net_chain[OF assms(2)]
    by (simp add: b1 successEntries_def initEntries_def)
  have fail: "net_debit (book (snd (payoutTransferFailed e2 pid reason s1))) c n = net_debit (book s) c n" for c n
    using payout_webhook_books(2)[OF r1 p1, of e2 reason] assms(4) lb.net_reversal[OF assms(2)]
    by (simp add: b1 failedEntries_def initEntries_def)
  have ok2: "books_ok (book (snd (payoutTransferSuccess e2 pid s1)))"
    using payout_webhook_books(1)[OF r1 p1, of e2] assms(4)
    by (simp add: b1 lb.inv_post assms(2))
  have undone: "net_debit (book (snd (payoutTransferReversed e3 pid (snd (payoutTransferSuccess e2 pid s1))))) c n
        = net_debit (book s) c n" for c n
    using succ[of c n] unfolding rv reversedEntries_def lb.net_two_legs[OF ok2] q(3,4) by simp
  show ?thesis using succ fail undone by (simp add: sent)
qed

text \<open>The first transfer to an account: its recipient is created by the job.\<close>

definition sample_new_account :: db where
  "sample_new_account = (sample_queued 60)\<lparr>marketerBanks := [sample_bank\<lparr>mb_recipientCode := None\<rparr>]\<rparr>"

theorem transfer_books_net_out_witness:
  "net_debit (book (snd (payoutTransferSuccess (sample_env CHR ''s'' 15) ''p''
     (snd (processTransfer (\<lambda>b. Inr ''RCP'') (\<lambda>k r i. if r = ''RCP'' then Inr ''TRF'' else Inl (PlainError ''recipient''))
       (sample_env CHR ''w'' 14) ''p'' sample_new_account))))) (Some ''co'') ''BANK_SETTLED'' = - 60"
proof -
  let ?bank = "sample_bank\<lparr>mb_recipientCode := None\<rparr>"
  have "\<exists>p. find_payout ''p'' sample_new_account = Some p \<and> po_status p = CommissionPayoutStatus.TRANSFER_INITIATED \<and>
      or_null (po_transferCode p) = None \<and> bankOfPayout p sample_new_account = Some ?bank \<and> po_amount p = 60 \<and>
      po_companyId p = ''co''" and b: "book sample_new_account = empty_ledger"
    by (simp_all add: sample_new_account_def payout_runs Let_def bankOfPayout_def)
  then obtain p where p: "find_payout ''p'' sample_new_account = Some p"
      "po_status p = CommissionPayoutStatus.TRANSFER_INITIATED" "or_null (po_transferCode p) = None"
      "bankOfPayout p sample_new_account = Some ?bank" and x: "po_amount p = 60" "po_companyId p = ''co''"
    by blast
  have res: "reservations_ok sample_new_account"
    using reachable_reservations[OF sample_queued_reachable, of 60] reservations_ok_cong(1)[of sample_new_account "sample_queued 60"]
    by (simp add: sample_new_account_def)
  have ok: "books_ok (book sample_new_account)" by (simp add: b books_ok_empty)
  have n: "net_debit empty_ledger c n = 0" for c n
    by (simp add: net_debit_def find_account_def empty_ledger_def)
  have rc: "fst (recipientFor (\<lambda>b. Inr ''RCP'') ?bank sample_new_account) = Inr ''RCP''"
    by (simp add: recipientFor_def truthy_def or_null_def)
  show ?thesis
    using transfer_books_net_out[OF res ok p rc, where st = "\<lambda>k r i. if r = ''RCP'' then Inr ''TRF'' else Inl (PlainError ''recipient'')"
          and code = "''TRF''" and e = "sample_env CHR ''w'' 14" and ?e2.0 = "sample_env CHR ''s'' 15"]
    by (simp add: x b n or_null_def split_beta)
qed

text \<open>
  A webhook delivered twice has the effect of one delivery.\<close>

theorem payout_webhooks_are_idempotent:
  assumes "reservations_ok s"
  shows "snd (payoutTransferSuccess e' pid (snd (payoutTransferSuccess e pid s))) = snd (payoutTransferSuccess e pid s) \<and>
    snd (payoutTransferFailed e' pid r' (snd (payoutTransferFailed e pid r s))) = snd (payoutTransferFailed e pid r s) \<and>
    snd (payoutTransferReversed e' pid (snd (payoutTransferReversed e pid s))) = snd (payoutTransferReversed e pid s)"
proof (cases "find_payout pid s")
  case None
  then show ?thesis by (simp add: payoutTransferSuccess_def payoutTransferFailed_def payoutTransferReversed_def)
next
  case (Some p)
  obtain q1 q2 q3 where
    "find_payout pid (snd (payoutTransferSuccess e pid s)) = Some q1" "po_status q1 = CommissionPayoutStatus.PAID"
    "find_payout pid (snd (payoutTransferFailed e pid r s)) = Some q2"
    "po_status q2 = CommissionPayoutStatus.TRANSFER_FAILED"
    "find_payout pid (snd (payoutTransferReversed e pid s)) = Some q3"
    "po_status q3 = CommissionPayoutStatus.TRANSFER_REVERSED"
    using payout_webhook_row[OF assms Some] by metis
  then show ?thesis
    by (simp add: payoutTransferSuccess_def[of e'] payoutTransferFailed_def[of e'] payoutTransferReversed_def[of e'])
qed

theorem payout_webhooks_are_idempotent_witness:
  "snd (payoutTransferSuccess (sample_env CHR ''t'' 15) ''p''
      (snd (payoutTransferSuccess (sample_env CHR ''s'' 14) ''p'' (sample_queued 60))))
    = snd (payoutTransferSuccess (sample_env CHR ''s'' 14) ''p'' (sample_queued 60))"
  using payout_webhooks_are_idempotent[OF reachable_reservations[OF sample_queued_reachable]] by blast

text \<open>C5: A granted request appends one payout of the requested amount and reserves exactly that
  amount, first in, first out: the new allocations draw on a prefix of the marketer's open
  commissions, oldest first, and drain every one of them but the last.\<close>

theorem requestPayout_reserves_oldest_first:
  assumes "reservations_ok s" "fresh_uuids e s" "requestPayout e uid amount s = (Inr r, s')"
  shows "0 < amount \<and> payouts s' = payouts s @ [r] \<and> po_amount r = amount \<and> po_userId r = uid \<and>
    (\<exists>cs ys n. set cs = {c \<in> set (commissions s). cm_userId c = uid \<and>
        cm_status c \<notin> {CommissionStatus.PAID, CommissionStatus.FROZEN} \<and> cm_reservedAmount c < cm_amount c} \<and>
      sorted (map cm_createdAt cs) \<and>
      allocations s' = allocations s @ ys \<and> sum_list (map al_allocatedAmount ys) = amount \<and>
      map al_commissionId ys = map cm_commissionId (take n cs) \<and>
      (\<forall>i. Suc i < length ys \<longrightarrow> al_allocatedAmount (ys ! i) = cm_amount (cs ! i) - cm_reservedAmount (cs ! i)) \<and>
      (\<forall>y \<in> set ys. al_payoutId y = po_payoutId r \<and> al_status y = CommissionAllocationStatus.RESERVED))"
proof -
  let ?cs = "lockedCommissions uid s"
  obtain user companyId creatorRole t where u: "find_user uid s = Some user" "0 < amount"
    "reservePayout e user companyId creatorRole amount s = (Inr r, t)"
    "allocations s' = allocations t" "payouts s' = payouts t"
    using assms(3) by (rule requestPayout_success)
  have uid: "u_userId user = uid" using find_user_id[OF u(1)] .
  note spec = reservePayout_spec[OF assms(1,2) u(2,3), unfolded uid]
  obtain ys where ys: "allocations t = allocations s @ ys" "sum_list (map al_allocatedAmount ys) = amount"
    "map al_commissionId ys = map ae_commissionId (allocationPlan amount ?cs)"
    "map al_allocatedAmount ys = map ae_toAllocate (allocationPlan amount ?cs)"
    "\<forall>y \<in> set ys. al_payoutId y = po_payoutId r \<and> al_status y = CommissionAllocationStatus.RESERVED"
    using spec(7) by blast
  obtain n where n: "n \<le> length ?cs" "map ae_commissionId (allocationPlan amount ?cs) = map cm_commissionId (take n ?cs)"
    "\<forall>i. Suc i < n \<longrightarrow> ae_toAllocate (allocationPlan amount ?cs ! i) = cm_amount (?cs ! i) - cm_reservedAmount (?cs ! i)"
    using allocationPlan_fifo[of ?cs amount] by (auto simp: lockedCommissions_set)
  have len: "length ys = n" "length (allocationPlan amount ?cs) = n"
    using arg_cong[OF n(2), of length] arg_cong[OF ys(4), of length] n(1) by simp_all
  have drained: "al_allocatedAmount (ys ! i) = cm_amount (?cs ! i) - cm_reservedAmount (?cs ! i)"
    if "Suc i < length ys" for i
    using arg_cong[OF ys(4), of "\<lambda>xs. xs ! i"] n(3) that len by simp
  have ids: "map al_commissionId ys = map cm_commissionId (take n ?cs)" using ys(3) n(2) by simp
  have srt: "sorted (map cm_createdAt ?cs)" by (simp add: lockedCommissions_def)
  show ?thesis
    using drained ids ys(1,2,5) spec(2,6) u(2,4,5) requestPayout_row(5)[OF assms(3)] srt
    by (intro conjI exI[of _ ?cs] exI[of _ ys] exI[of _ n]) (simp_all add: lockedCommissions_set)
qed

theorem requestPayout_reserves_oldest_first_witness:
  "\<exists>r s'. requestPayout (sample_env CHR ''p'' 10) ''mk'' 60 sample_accrued = (Inr r, s') \<and> po_amount r = 60 \<and>
     (\<exists>ys. allocations s' = ys \<and> sum_list (map al_allocatedAmount ys) = 60)"
proof -
  obtain r s' where r: "requestPayout (sample_env CHR ''p'' 10) ''mk'' 60 sample_accrued = (Inr r, s')"
    by (simp add: payout_runs Let_def)
  have "allocations sample_accrued = []" by (simp add: payout_runs)
  then show ?thesis
    using requestPayout_reserves_oldest_first[OF reachable_reservations[OF sample_accrued_reachable] sample_accrued_fresh r] r
    by auto
qed

text \<open>
  A payout is granted exactly when the user exists and has a company, the amount is positive,
  no payout of the user is in progress, the user has a creator, and the open commissions cover
  the amount; a refused request changes nothing.\<close>

theorem requestPayout_granted_iff:
  "(ok (fst (requestPayout e uid amount s)) \<longleftrightarrow>
     (\<exists>user. find_user uid s = Some user \<and> or_null (u_companyId user) \<noteq> None \<and> 0 < amount \<and>
        (\<nexists>p. p \<in> set (payouts s) \<and> po_userId p = uid \<and> po_status p \<in> in_progress) \<and>
        creatorRoleOf user s \<noteq> None \<and>
        amount \<le> (\<Sum>c\<leftarrow>lockedCommissions uid s. cm_amount c - cm_reservedAmount c))) \<and>
   (ok (fst (requestPayout e uid amount s)) \<or> snd (requestPayout e uid amount s) = s)"
proof -
  have none: "find (\<lambda>p. po_userId p = uid \<and> po_status p \<in> in_progress) (payouts s) = None \<longleftrightarrow>
      (\<nexists>p. p \<in> set (payouts s) \<and> po_userId p = uid \<and> po_status p \<in> in_progress)"
    by (auto simp: find_None_iff)
  have undo: "ok (fst (requestPayout e uid amount s)) \<or> snd (requestPayout e uid amount s) = s"
    using requestPayout_failure[of e uid amount s] by (cases "requestPayout e uid amount s") (auto simp: ok_def split: sum.splits)
  have no: "\<not> amount \<le> totalAvailable (lockedCommissions (u_userId user) s)"
    if "transaction (reservePayout e user cid role amount) s = (Inl err, t)" for user cid role err t
    using that by (auto simp: reservePayout_def transaction_def Let_def split: if_splits)
  have yes: "amount \<le> totalAvailable (lockedCommissions (u_userId user) s)"
    if "transaction (reservePayout e user cid role amount) s = (Inr v, t)" for user cid role v t
    using that by (auto simp: reservePayout_def transaction_def Let_def split: if_splits)
  have "ok (fst (requestPayout e uid amount s)) \<longleftrightarrow>
     (\<exists>user. find_user uid s = Some user \<and> or_null (u_companyId user) \<noteq> None \<and> 0 < amount \<and>
        find (\<lambda>p. po_userId p = uid \<and> po_status p \<in> in_progress) (payouts s) = None \<and>
        creatorRoleOf user s \<noteq> None \<and> amount \<le> totalAvailable (lockedCommissions uid s))"
    by (auto simp: requestPayout_def dest: find_user_id no yes split: option.splits prod.splits sum.splits)
  with undo none show ?thesis by (simp add: totalAvailable_sum)
qed

section \<open>Promising more than there is\<close>

text \<open>
  The sample marketer earns one commission of 100.  First history: 60 of it are paid out, then
  100 more are requested.  Second: a payout of 100 fails, a new one of 100 is requested, and the
  failed one is retried.  Third: a late failure report arrives after the payout was paid.
\<close>

definition sample_paid :: db where
  "sample_paid = snd (payoutTransferSuccess (sample_env CHR ''s'' 14) ''p'' (sample_queued 60))"

definition sample_overpaid :: db where
  "sample_overpaid = snd (requestPayout (sample_env CHR ''q'' 20) ''mk'' 100 sample_paid)"

definition sample_failed :: db where
  "sample_failed = snd (payoutTransferFailed (sample_env CHR ''f'' 14) ''p'' None (sample_queued 100))"

definition sample_overreserved :: db where
  "sample_overreserved = snd (initiateTransfer (sample_env CHR ''r'' 21) ''p'' ''cu''
     (snd (requestPayout (sample_env CHR ''q'' 20) ''mk'' 100 sample_failed)))"

definition sample_sent_again :: db where
  "sample_sent_again = snd (initiateTransfer (sample_env CHR ''r'' 21) ''p'' ''cu''
     (snd (payoutTransferFailed (sample_env CHR ''f'' 20) ''p'' None sample_paid)))"

lemmas webhook_runs = payoutTransferSuccess_def payoutTransferFailed_def record_in_book_balanced forAllocations_def
  settleAllocation_def releaseAllocation_def find_commission_def rewriteAllocation_def update_allocation_def
  paid_total_def reserved_total_def sum_where_def derivePostPaymentStatus_def reReserveReleased_def reReserve_def

lemma sample_reports:
  "queued ''p'' (sample_queued 100)" "queued ''p'' sample_paid"
  "map po_payoutId (payouts sample_paid) = [''p'']" "map al_allocationId (allocations sample_paid) = [''px'']"
  "map po_payoutId (payouts sample_failed) = [''p'']" "map al_allocationId (allocations sample_failed) = [''px'']"
  by (simp_all add: sample_paid_def sample_failed_def webhook_runs payout_runs Let_def)

lemma sample_fresh:
  assumes "map po_payoutId (payouts s) = [''p'']" "map al_allocationId (allocations s) = [''px'']"
  shows "fresh_uuids (sample_env CHR ''q'' t) s"
proof -
  have "po_payoutId ` set (payouts s) = {''p''}" "al_allocationId ` set (allocations s) = {''px''}"
    using assms by (metis list.set_map list.simps(15) list.set(1))+
  then show ?thesis using sample_env_inj by (simp add: fresh_uuids_def sample_env_def)
qed

lemma sample_paid_reachable: "payout_reachable sample_paid"
  unfolding sample_paid_def
  by (rule payout_reachable.step[OF sample_queued_reachable payout_step.succeeded]) (simp add: sample_queued_60)

text \<open>
  A partly paid commission is promised again in full: a reachable history pays 60 of a
  commission of 100 and then reserves 100 of the same commission, since availability only
  subtracts what is currently reserved.\<close>

theorem paid_commission_is_available_again:
  "payout_reachable sample_overpaid \<and> map cm_amount (commissions sample_overpaid) = [100] \<and>
   paid_total sample_overpaid ''cm'' = 60 \<and> reserved_total sample_overpaid ''cm'' = 100"
proof -
  have "payout_reachable sample_overpaid"
    unfolding sample_overpaid_def
    by (rule payout_reachable.step[OF sample_paid_reachable payout_step.request])
      (intro sample_fresh sample_reports)
  moreover have "map cm_amount (commissions sample_overpaid) = [100] \<and>
      paid_total sample_overpaid ''cm'' = 60 \<and> reserved_total sample_overpaid ''cm'' = 100"
    by (simp add: sample_overpaid_def sample_paid_def webhook_runs payout_runs Let_def)
  ultimately show ?thesis by blast
qed

text \<open>
  Retrying a failed transfer reserves its released amounts again without checking what is
  left: a reachable history reserves 200 of a commission of 100.\<close>

theorem retry_reserves_beyond_the_commission:
  "payout_reachable sample_overreserved \<and> map cm_amount (commissions sample_overreserved) = [100] \<and>
   map cm_reservedAmount (commissions sample_overreserved) = [200]"
proof -
  have "payout_reachable sample_failed"
    unfolding sample_failed_def
    by (rule payout_reachable.step[OF sample_queued_reachable payout_step.failed]) (rule sample_reports)
  then have "payout_reachable sample_overreserved"
    unfolding sample_overreserved_def
    by (intro payout_reachable.step[OF payout_reachable.step[OF _ payout_step.request] payout_step.initiate]
        sample_fresh sample_reports)
  moreover have "map cm_amount (commissions sample_overreserved) = [100] \<and>
      map cm_reservedAmount (commissions sample_overreserved) = [200]"
    by (simp add: sample_overreserved_def sample_failed_def webhook_runs payout_runs Let_def)
  ultimately show ?thesis by blast
qed

text \<open>
  A failure report that arrives after the success report is accepted and reopens a paid
  payout: in a reachable history the marketer's 60 are paid (the allocation stays PAID) and the
  same payout is queued for transfer a second time.\<close>

theorem late_failure_reopens_a_paid_payout:
  "payout_reachable sample_sent_again \<and> paid_total sample_sent_again ''cm'' = 60 \<and>
   map po_status (payouts sample_sent_again) = [CommissionPayoutStatus.TRANSFER_INITIATED] \<and>
   length (filter (\<lambda>x. x = Job ''process-transfer'' ''p'') (outbox sample_sent_again)) = 2"
proof -
  have "payout_reachable sample_sent_again"
    unfolding sample_sent_again_def
    by (intro payout_reachable.step[OF payout_reachable.step[OF sample_paid_reachable payout_step.failed]
          payout_step.initiate] sample_reports)
  moreover have "paid_total sample_sent_again ''cm'' = 60 \<and>
      map po_status (payouts sample_sent_again) = [CommissionPayoutStatus.TRANSFER_INITIATED] \<and>
      length (filter (\<lambda>x. x = Job ''process-transfer'' ''p'') (outbox sample_sent_again)) = 2"
    by (simp add: sample_sent_again_def sample_paid_def webhook_runs payout_runs Let_def)
  ultimately show ?thesis by blast
qed

end
