(* ===== verification/PaymentIntent.thy ===== *)
theory PaymentIntent
  imports Database JsNumber
begin

text \<open>
  Payment intents: \<open>src/core/services/payment-intent.service.ts\<close>, the payload check of
  \<open>src/shared/types/payment-intent-payload.types.ts\<close> and the recovery sweep of
  \<open>src/shared/job-workers/payment-recovery.worker.ts\<close>.  The database enforces unique
  identifiers, idempotency keys and references, and at most one active intent per reservation
  key (the partial index of the migrations); \<open>createIntent\<close> and \<open>transitionStatus\<close> answer a
  violation with \<open>UniqueViolation\<close>.  The Paystack client is a parameter.
\<close>

section \<open>The initialization payload\<close>

definition jsTrimEmpty :: "string \<Rightarrow> bool" where
  "jsTrimEmpty s = list_all (\<lambda>c. of_char c \<in> {9, 10, 11, 12, 13, 32 :: nat}) s"

definition typeofObject :: "json \<Rightarrow> bool" where
  "typeofObject j = (case j of JObject kvs \<Rightarrow> True | JArray xs \<Rightarrow> True | JNull \<Rightarrow> True | _ \<Rightarrow> False)"

definition assertValidInitializationPayload :: "json \<Rightarrow> unit res" where
  "assertValidInitializationPayload v =
     (if v = JNull \<or> \<not> typeofObject v
      then Inl (PlainError ''initializationPayload is missing or not an object'')
      else if (case jget v ''email'' of JString m \<Rightarrow> jsTrimEmpty m | _ \<Rightarrow> True)
      then Inl (PlainError ''initializationPayload.email must be a non-empty string'')
      else if (case jget v ''callbackUrl'' of JUndefined \<Rightarrow> False | JString u \<Rightarrow> False | _ \<Rightarrow> True)
      then Inl (PlainError ''initializationPayload.callbackUrl must be a string when present'')
      else if jget v ''metadata'' = JUndefined \<or> jget v ''metadata'' = JNull \<or> \<not> typeofObject (jget v ''metadata'')
      then Inl (PlainError ''initializationPayload.metadata must be an object'')
      else Inr ())"

section \<open>Statuses and keys\<close>

definition INTENT_EXPIRATION_MS :: time where
  "INTENT_EXPIRATION_MS = 10 * 60 * 1000"

definition ACTIVE_STATUSES :: "PaymentInitStatus set" where
  "ACTIVE_STATUSES = {INITIALIZING, INITIALIZED, PaymentInitStatus.PENDING, PROCESSING}"

definition TERMINAL_STATUSES :: "PaymentInitStatus set" where
  "TERMINAL_STATUSES = {PaymentInitStatus.SUCCESS, PaymentInitStatus.FAILED, EXPIRED,
     PaymentInitStatus.CANCELLED}"

record reserve_params =
  rp_type :: PaymentIntentType
  rp_amount :: decimal
  rp_customerId :: "ident option"
  rp_companyId :: "ident option"
  rp_installmentId :: "ident option"
  rp_onboardingId :: "ident option"
  rp_subscriptionId :: "ident option"
  rp_planId :: "ident option"
  rp_idempotencyKey :: "string option"
  rp_clientIdempotencyKey :: "string option"
  rp_payload :: json

text \<open>A template literal prints an absent value as \<open>undefined\<close>.\<close>

definition template :: "ident option \<Rightarrow> string" where
  "template x = (case x of None \<Rightarrow> ''undefined'' | Some s \<Rightarrow> s)"

definition buildReservationKey :: "reserve_params \<Rightarrow> string" where
  "buildReservationKey p =
     (case rp_type p of
        INSTALLMENT \<Rightarrow> ''INSTALLMENT:'' @ template (rp_installmentId p)
      | SUBSCRIPTION \<Rightarrow> ''SUBSCRIPTION:'' @ template (rp_companyId p)
      | ONBOARDING \<Rightarrow> ''ONBOARDING:'' @ template (rp_onboardingId p))"

definition getStatusMessage :: "PaymentInitStatus \<Rightarrow> string" where
  "getStatusMessage st =
     (case st of
        INITIALIZING \<Rightarrow> ''Payment initialization in progress''
      | INITIALIZED \<Rightarrow> ''Payment already initialized, complete the payment''
      | PaymentInitStatus.PENDING \<Rightarrow> ''Payment is being processed''
      | PROCESSING \<Rightarrow> ''Payment is being verified''
      | _ \<Rightarrow> ''Payment intent exists'')"

definition isUniqueReservationViolation :: "app_error \<Rightarrow> bool" where
  "isUniqueReservationViolation err = (err = UniqueViolation ''reservation_key'')"

section \<open>Reserving\<close>

definition new_intent :: "env \<Rightarrow> reserve_params \<Rightarrow> string \<Rightarrow> string \<Rightarrow> intent_row" where
  "new_intent e p reservationKey idempotencyKey =
     \<lparr>pi_intentId = env_uuid e 0, pi_type = rp_type p, pi_reference = None, pi_authorizationUrl = None,
      pi_status = INITIALIZING, pi_amount = rp_amount p, pi_customerId = rp_customerId p,
      pi_companyId = rp_companyId p, pi_installmentId = rp_installmentId p, pi_onboardingId = rp_onboardingId p,
      pi_subscriptionId = rp_subscriptionId p, pi_planId = rp_planId p, pi_reservationKey = reservationKey,
      pi_idempotencyKey = idempotencyKey, pi_expiresAt = env_now e + INTENT_EXPIRATION_MS,
      pi_initializationPayload = rp_payload p, pi_recoveryClaimedAt = None, pi_recoveryAttempts = 0,
      pi_lastRecoveryError = None, pi_createdAt = env_now e, pi_updatedAt = env_now e\<rparr>"

text \<open>\<open>prisma.paymentIntent.create\<close>: the unique indexes refuse a row.\<close>

definition createIntent :: "intent_row \<Rightarrow> db \<Rightarrow> intent_row res \<times> db" where
  "createIntent r s =
     (if \<exists>x \<in> set (intents s). pi_idempotencyKey x = pi_idempotencyKey r
      then (Inl (UniqueViolation ''idempotencyKey''), s)
      else if \<exists>x \<in> set (intents s). pi_status x \<in> ACTIVE_STATUSES \<and> pi_reservationKey x = pi_reservationKey r
      then (Inl (UniqueViolation ''reservation_key''), s)
      else (Inr r, s\<lparr>intents := intents s @ [r]\<rparr>))"

definition findByIdempotencyKey :: "string \<Rightarrow> db \<Rightarrow> intent_row option" where
  "findByIdempotencyKey k s = find (\<lambda>r. pi_idempotencyKey r = k) (intents s)"

text \<open>An empty client key is falsy, so it is not looked up, but \<open>??\<close> still keeps it as the key.\<close>

definition existingForClient :: "reserve_params \<Rightarrow> db \<Rightarrow> intent_row option" where
  "existingForClient p s =
     (case or_null (rp_clientIdempotencyKey p) of None \<Rightarrow> None | Some k \<Rightarrow> findByIdempotencyKey k s)"

record reservation =
  rv_intent :: intent_row
  rv_isExisting :: bool
  rv_message :: "string option"

definition existing_reservation :: "intent_row \<Rightarrow> reservation" where
  "existing_reservation r =
     \<lparr>rv_intent = r, rv_isExisting = True, rv_message = Some (getStatusMessage (pi_status r))\<rparr>"

text \<open>
  \<open>race b\<close> is what other requests do to the database between the refused \<open>create\<close> and the
  following \<open>findFirst\<close>, in the first attempt (\<open>b\<close>) and in the retry (\<open>\<not> b\<close>).
\<close>

definition reserveOnce ::
  "(bool \<Rightarrow> db \<Rightarrow> db) \<Rightarrow> env \<Rightarrow> reserve_params \<Rightarrow> bool \<Rightarrow> db \<Rightarrow> reservation res option \<times> db" where
  "reserveOnce race e p allowRetry s =
     (let reservationKey = buildReservationKey p in
      case existingForClient p s of
        Some r \<Rightarrow> (Some (Inr (existing_reservation r)), s)
      | None \<Rightarrow>
          (let idempotencyKey = (case rp_clientIdempotencyKey p of None \<Rightarrow> env_uuid e 1 | Some k \<Rightarrow> k) in
           case createIntent (new_intent e p reservationKey idempotencyKey) s of
             (Inr r, s') \<Rightarrow> (Some (Inr \<lparr>rv_intent = r, rv_isExisting = False, rv_message = None\<rparr>), s')
           | (Inl err, s') \<Rightarrow>
               if \<not> isUniqueReservationViolation err then (Some (Inl err), s')
               else
                 (let s'' = race allowRetry s' in
                  case find (\<lambda>r. pi_reservationKey r = reservationKey \<and> pi_status r \<in> ACTIVE_STATUSES) (intents s'') of
                    Some r \<Rightarrow> (Some (Inr (existing_reservation r)), s'')
                  | None \<Rightarrow> (None, s''))))"

definition reserveInternal ::
  "(bool \<Rightarrow> db \<Rightarrow> db) \<Rightarrow> env \<Rightarrow> reserve_params \<Rightarrow> db \<Rightarrow> reservation res \<times> db" where
  "reserveInternal race e p s =
     (case reserveOnce race e p True s of
        (Some r, s') \<Rightarrow> (r, s')
      | (None, s') \<Rightarrow>
          (case reserveOnce race e p False s' of
             (Some r, s'') \<Rightarrow> (r, s'')
           | (None, s'') \<Rightarrow> (Inl (ConflictError
               ''Unable to reserve payment intent because the reservation changed during processing.''), s'')))"

definition reserve :: "(bool \<Rightarrow> db \<Rightarrow> db) \<Rightarrow> env \<Rightarrow> reserve_params \<Rightarrow> db \<Rightarrow> reservation res \<times> db" where
  "reserve race e p s =
     (case assertValidInitializationPayload (rp_payload p) of
        Inl err \<Rightarrow> (Inl err, s)
      | Inr u \<Rightarrow> reserveInternal race e p s)"

section \<open>Guarded transitions\<close>

text \<open>
  \<open>updateMany\<close> with the guard \<open>status notIn TERMINAL_STATUSES\<close>; \<open>extra\<close> are the other columns
  of the update.  Prisma keeps \<open>updatedAt\<close>, the index on \<open>reference\<close> refuses a duplicate.
\<close>

definition non_terminal :: "intent_row \<Rightarrow> bool" where
  "non_terminal r = (pi_status r \<notin> TERMINAL_STATUSES)"

definition moved :: "env \<Rightarrow> PaymentInitStatus \<Rightarrow> (intent_row \<Rightarrow> intent_row) \<Rightarrow> intent_row \<Rightarrow> intent_row" where
  "moved e to extra r = (extra r)\<lparr>pi_status := to, pi_updatedAt := env_now e\<rparr>"

definition transitionStatus ::
  "env \<Rightarrow> ident \<Rightarrow> PaymentInitStatus \<Rightarrow> (intent_row \<Rightarrow> intent_row) \<Rightarrow> db \<Rightarrow> intent_row res \<times> db" where
  "transitionStatus e i to extra s =
     (let hit = (\<lambda>r. pi_intentId r = i \<and> non_terminal r);
          s' = s\<lparr>intents := update_where hit (moved e to extra) (intents s)\<rparr>
      in if count_where hit (intents s) = 0
      then (case find_intent i s of
              None \<Rightarrow> (Inl (NotFoundError ''Payment intent not found''), s)
            | Some current \<Rightarrow> (Inl (ConflictError ''Cannot transition intent: already in terminal state''), s))
      else if \<not> distinct (List.map_filter pi_reference (intents s'))
      then (Inl (UniqueViolation ''reference''), s)
      else
        (case find_intent i s' of
           None \<Rightarrow> (Inl (RecordNotFound ''PaymentIntent''), s')
         | Some r \<Rightarrow> (Inr r, s')))"

datatype cancel_result = Cancelled | NotCancelled string

definition cancel :: "env \<Rightarrow> ident \<Rightarrow> string option \<Rightarrow> db \<Rightarrow> cancel_result res \<times> db" where
  "cancel e i reason s =
     (case transitionStatus e i PaymentInitStatus.CANCELLED
        (\<lambda>r. r\<lparr>pi_authorizationUrl := (case reason of None \<Rightarrow> pi_authorizationUrl r | Some m \<Rightarrow> Some m),
               pi_recoveryClaimedAt := None\<rparr>) s of
        (Inr r, s') \<Rightarrow> (Inr Cancelled, s')
      | (Inl (NotFoundError m), s') \<Rightarrow> (Inr (NotCancelled ''Intent not found''), s')
      | (Inl (ConflictError m), s') \<Rightarrow> (Inr (NotCancelled ''Intent already terminal''), s')
      | (Inl err, s') \<Rightarrow> (Inl err, s'))"

definition markInitialized :: "env \<Rightarrow> ident \<Rightarrow> string \<Rightarrow> string \<Rightarrow> db \<Rightarrow> intent_row res \<times> db" where
  "markInitialized e i reference authorizationUrl s =
     transitionStatus e i INITIALIZED
       (\<lambda>r. r\<lparr>pi_reference := Some reference, pi_authorizationUrl := Some authorizationUrl,
              pi_recoveryClaimedAt := None\<rparr>) s"

definition markPending :: "env \<Rightarrow> ident \<Rightarrow> db \<Rightarrow> intent_row res \<times> db" where
  "markPending e i s = transitionStatus e i PaymentInitStatus.PENDING (\<lambda>r. r) s"

definition markProcessing :: "env \<Rightarrow> ident \<Rightarrow> db \<Rightarrow> intent_row res \<times> db" where
  "markProcessing e i s = transitionStatus e i PROCESSING (\<lambda>r. r) s"

definition markSuccess :: "env \<Rightarrow> ident \<Rightarrow> db \<Rightarrow> intent_row res \<times> db" where
  "markSuccess e i s = transitionStatus e i PaymentInitStatus.SUCCESS (\<lambda>r. r) s"

definition markFailed :: "env \<Rightarrow> ident \<Rightarrow> string option \<Rightarrow> db \<Rightarrow> intent_row res \<times> db" where
  "markFailed e i reason s =
     transitionStatus e i PaymentInitStatus.FAILED
       (\<lambda>r. r\<lparr>pi_recoveryClaimedAt := None,
              pi_lastRecoveryError := (case reason of None \<Rightarrow> pi_lastRecoveryError r | Some m \<Rightarrow> Some m)\<rparr>) s"

definition markExpired :: "env \<Rightarrow> ident \<Rightarrow> db \<Rightarrow> intent_row res \<times> db" where
  "markExpired e i s = transitionStatus e i EXPIRED (\<lambda>r. r\<lparr>pi_recoveryClaimedAt := None\<rparr>) s"

definition recordRecoveryFailure :: "env \<Rightarrow> ident \<Rightarrow> string \<Rightarrow> db \<Rightarrow> db" where
  "recordRecoveryFailure e i message s =
     s\<lparr>intents := update_where (\<lambda>r. pi_intentId r = i \<and> pi_status r = INITIALIZING)
         (\<lambda>r. r\<lparr>pi_recoveryClaimedAt := None, pi_lastRecoveryError := Some (take 2000 message),
                pi_updatedAt := env_now e\<rparr>) (intents s)\<rparr>"

definition staleIntent :: "time \<Rightarrow> intent_row \<Rightarrow> bool" where
  "staleIntent now r = (pi_status r \<in> {INITIALIZING, INITIALIZED} \<and> pi_expiresAt r < now)"

definition expireStale :: "env \<Rightarrow> db \<Rightarrow> (nat \<times> intent_row list) \<times> db" where
  "expireStale e s =
     ((count_where (staleIntent (env_now e)) (intents s), filter (staleIntent (env_now e)) (intents s)),
      s\<lparr>intents := update_where (staleIntent (env_now e))
          (\<lambda>r. r\<lparr>pi_status := EXPIRED, pi_recoveryClaimedAt := None, pi_updatedAt := env_now e\<rparr>) (intents s)\<rparr>)"

section \<open>Lookups\<close>

definition findByReference :: "string \<Rightarrow> db \<Rightarrow> intent_row option" where
  "findByReference ref s = find (\<lambda>r. pi_reference r = Some ref) (intents s)"

definition findByInstallment :: "ident \<Rightarrow> PaymentInitStatus set \<Rightarrow> db \<Rightarrow> intent_row option" where
  "findByInstallment i sts s = find (\<lambda>r. pi_installmentId r = Some i \<and> pi_status r \<in> sts) (intents s)"

definition findByCompany :: "ident \<Rightarrow> PaymentInitStatus set \<Rightarrow> db \<Rightarrow> intent_row option" where
  "findByCompany c sts s =
     find (\<lambda>r. pi_companyId r = Some c \<and> pi_type r = SUBSCRIPTION \<and> pi_status r \<in> sts) (intents s)"

definition findByOnboarding :: "ident \<Rightarrow> PaymentInitStatus set \<Rightarrow> db \<Rightarrow> intent_row option" where
  "findByOnboarding b sts s =
     find (\<lambda>r. pi_onboardingId r = Some b \<and> pi_type r = ONBOARDING \<and> pi_status r \<in> sts) (intents s)"

definition openStatuses :: "PaymentInitStatus set" where
  "openStatuses = {INITIALIZING, INITIALIZED, PaymentInitStatus.PENDING}"

text \<open>A \<open>break\<close> of the \<open>switch\<close> falls through to the idempotency key.\<close>

definition findActiveIntent :: "reserve_params \<Rightarrow> db \<Rightarrow> intent_row option" where
  "findActiveIntent p s =
     (let byKey = (case or_null (rp_idempotencyKey p) of None \<Rightarrow> None | Some k \<Rightarrow> findByIdempotencyKey k s)
      in case rp_type p of
           INSTALLMENT \<Rightarrow>
             (case or_null (rp_installmentId p) of None \<Rightarrow> byKey | Some i \<Rightarrow> findByInstallment i openStatuses s)
         | SUBSCRIPTION \<Rightarrow>
             (case or_null (rp_companyId p) of None \<Rightarrow> byKey | Some c \<Rightarrow> findByCompany c openStatuses s)
         | ONBOARDING \<Rightarrow>
             (case or_null (rp_onboardingId p) of None \<Rightarrow> byKey | Some b \<Rightarrow> findByOnboarding b openStatuses s))"

section \<open>Initializing with Paystack\<close>

definition mapMetadataType :: "PaymentIntentType \<Rightarrow> string" where
  "mapMetadataType ty =
     (case ty of
        INSTALLMENT \<Rightarrow> ''installment_payment''
      | ONBOARDING \<Rightarrow> ''onboarding_payment''
      | SUBSCRIPTION \<Rightarrow> ''company_subscription'')"

text \<open>The properties \<open>{ ...j }\<close> copies.\<close>

definition spread :: "json \<Rightarrow> (string \<times> json) list" where
  "spread j = (case j of JObject kvs \<Rightarrow> kvs | JArray xs \<Rightarrow> zip (map show_nat [0..<length xs]) xs | _ \<Rightarrow> [])"

record init_request =
  ir_email :: json
  ir_amountKobo :: rat
  ir_metadata :: json
  ir_callbackUrl :: json

record init_response =
  is_authorization_url :: string
  is_reference :: string
  is_access_code :: string

definition initRequest :: "intent_row \<Rightarrow> init_request" where
  "initRequest r =
     \<lparr>ir_email = jget (pi_initializationPayload r) ''email'', ir_amountKobo = toKobo (pi_amount r),
      ir_metadata = JObject ([(''paymentIntentId'', JString (pi_intentId r)),
          (''type'', JString (mapMetadataType (pi_type r)))]
          @ spread (jget (pi_initializationPayload r) ''metadata'')),
      ir_callbackUrl = jget (pi_initializationPayload r) ''callbackUrl''\<rparr>"

definition isTimeout :: "app_error \<Rightarrow> bool" where
  "isTimeout err = (case err of PaystackFailure code m \<Rightarrow> code = ''PAYSTACK_TIMEOUT'' | _ \<Rightarrow> False)"

text \<open>The \<open>catch\<close> branch, with \<open>markFailed\<close> itself able to throw.\<close>

definition initFailed :: "env \<Rightarrow> bool \<Rightarrow> ident \<Rightarrow> app_error \<Rightarrow> db \<Rightarrow> init_response res \<times> db" where
  "initFailed e markFailedOnError i err s =
     (let out = (Inl (if isTimeout err then BadRequestError ''Payment provider timeout, please retry'' else err))
      in if \<not> markFailedOnError then (out, s)
         else
           (case markFailed e i (Some (errorMessage err)) s of
              (Inl err2, s') \<Rightarrow> (Inl err2, s')
            | (Inr r, s') \<Rightarrow> (out, s')))"

definition initializePaystack ::
  "(init_request \<Rightarrow> init_response res) \<Rightarrow> env \<Rightarrow> ident \<Rightarrow> bool \<Rightarrow> db \<Rightarrow> init_response res \<times> db" where
  "initializePaystack provider e i markFailedOnError s =
     (case find_intent i s of
        None \<Rightarrow> (Inl (NotFoundError ''Payment intent not found''), s)
      | Some intent \<Rightarrow>
     (case assertValidInitializationPayload (pi_initializationPayload intent) of
        Inl err \<Rightarrow> (Inl err, s)
      | Inr u \<Rightarrow>
     (case provider (initRequest intent) of
        Inl err \<Rightarrow> initFailed e markFailedOnError i err s
      | Inr resp \<Rightarrow>
     (case markInitialized e i (is_reference resp) (is_authorization_url resp) s of
        (Inl err, s') \<Rightarrow> initFailed e markFailedOnError i err s'
      | (Inr r, s') \<Rightarrow> (Inr resp, s')))))"

section \<open>The recovery sweep\<close>

definition RECOVERY_STALE_THRESHOLD_MS :: time where
  "RECOVERY_STALE_THRESHOLD_MS = 5 * 60 * 1000"

definition RECOVERY_CLAIM_LEASE_MS :: time where
  "RECOVERY_CLAIM_LEASE_MS = 2 * 60 * 1000"

definition RECOVERY_BATCH_SIZE :: nat where
  "RECOVERY_BATCH_SIZE = 20"

definition claimable :: "time \<Rightarrow> intent_row \<Rightarrow> bool" where
  "claimable now r =
     (pi_status r = INITIALIZING \<and> pi_updatedAt r \<le> now - RECOVERY_STALE_THRESHOLD_MS \<and>
      (case pi_recoveryClaimedAt r of None \<Rightarrow> True | Some t \<Rightarrow> t \<le> now - RECOVERY_CLAIM_LEASE_MS))"

definition claimStaleIntents :: "env \<Rightarrow> db \<Rightarrow> (ident \<times> nat) list \<times> db" where
  "claimStaleIntents e s =
     (let ids = map pi_intentId (take RECOVERY_BATCH_SIZE
            (sort_key pi_updatedAt (filter (claimable (env_now e)) (intents s))));
          s' = s\<lparr>intents := update_where (\<lambda>r. pi_intentId r \<in> set ids)
            (\<lambda>r. r\<lparr>pi_recoveryClaimedAt := Some (env_now e), pi_recoveryAttempts := Suc (pi_recoveryAttempts r)\<rparr>)
            (intents s)\<rparr>
      in (map (\<lambda>r. (pi_intentId r, pi_recoveryAttempts r)) (filter (\<lambda>r. pi_intentId r \<in> set ids) (intents s')), s'))"

datatype recovery_result = Expired | Recovered | GaveUp | RetryScheduled | Skipped

text \<open>\<open>maxAttempts\<close> is the environment's \<open>PAYMENT_RECOVERY_MAX_ATTEMPTS\<close>, 5 by default.\<close>

definition recoverIntent ::
  "(init_request \<Rightarrow> init_response res) \<Rightarrow> nat \<Rightarrow> env \<Rightarrow> ident \<times> nat \<Rightarrow> db \<Rightarrow> recovery_result res \<times> db" where
  "recoverIntent provider maxAttempts e c s =
     (case find_intent (fst c) s of
        None \<Rightarrow> (Inr Skipped, s)
      | Some intent \<Rightarrow>
      if pi_status intent \<noteq> INITIALIZING then (Inr Skipped, s)
      else if pi_expiresAt intent < env_now e
      then (case markExpired e (fst c) s of (Inl err, s') \<Rightarrow> (Inl err, s') | (Inr r, s') \<Rightarrow> (Inr Expired, s'))
      else if maxAttempts < snd c
      then (case markFailed e (fst c) (Some ''Exceeded max recovery attempts'') s of
              (Inl err, s') \<Rightarrow> (Inl err, s') | (Inr r, s') \<Rightarrow> (Inr GaveUp, s'))
      else
        (case initializePaystack provider e (fst c) False s of
           (Inr resp, s') \<Rightarrow> (Inr Recovered, s')
         | (Inl err, s') \<Rightarrow> (Inr RetryScheduled, recordRecoveryFailure e (fst c) (errorMessage err) s')))"

text \<open>The sweep: an intent whose recovery throws is logged and the loop goes on.\<close>

definition runRecovery :: "(init_request \<Rightarrow> init_response res) \<Rightarrow> nat \<Rightarrow> env \<Rightarrow> db \<Rightarrow> db" where
  "runRecovery provider maxAttempts e s =
     (case claimStaleIntents e s of
        (claimed, s1) \<Rightarrow>
          snd (expireStale e (foldl (\<lambda>t c. snd (recoverIntent provider maxAttempts e c t)) s1 claimed)))"

section \<open>Machines with terminal rows\<close>

text \<open>
  The contract of a table whose every write is guarded by "not terminal": a step rewrites
  rows that are not terminal, keeps their key, and may append rows.  Then a terminal row never
  changes again and no key is ever lost, however many steps are made.
\<close>

locale guarded_table =
  fixes step :: "'d \<Rightarrow> 'd \<Rightarrow> bool"
    and rows :: "'d \<Rightarrow> 'r list"
    and terminal :: "'r \<Rightarrow> bool"
    and key :: "'r \<Rightarrow> 'k"
  assumes guarded: "step d d' \<Longrightarrow> \<exists>p f new. rows d' = update_where p f (rows d) @ new \<and>
      (\<forall>r \<in> set (rows d). p r \<longrightarrow> \<not> terminal r \<and> key (f r) = key r)"
begin

lemma terminal_step: "step d d' \<Longrightarrow> r \<in> set (rows d) \<Longrightarrow> terminal r \<Longrightarrow> r \<in> set (rows d')"
  by (drule guarded) (force simp: set_update_where)

lemma terminal_forever:
  assumes "step\<^sup>*\<^sup>* d d'" "r \<in> set (rows d)" "terminal r"
  shows "r \<in> set (rows d')"
  using assms by (induction rule: rtranclp_induct) (auto intro: terminal_step)

lemma keys_step:
  assumes "step d d'"
  shows "\<exists>ks. map key (rows d') = map key (rows d) @ ks"
proof -
  obtain p f new where u: "rows d' = update_where p f (rows d) @ new"
      "\<forall>r \<in> set (rows d). p r \<longrightarrow> \<not> terminal r \<and> key (f r) = key r"
    using guarded[OF assms] by blast
  have "map key (update_where p f (rows d)) = map key (rows d)"
    using u(2) by (auto simp: update_where_def)
  with u(1) show ?thesis by auto
qed

lemma keys_kept:
  assumes "step\<^sup>*\<^sup>* d d'"
  shows "\<exists>ks. map key (rows d') = map key (rows d) @ ks"
  using assms
proof (induction rule: rtranclp_induct)
  case (step y z)
  with keys_step[OF step(2)] show ?case by (metis append_assoc)
qed simp

end

section \<open>The index invariant\<close>

definition intents_ok :: "db \<Rightarrow> bool" where
  "intents_ok s \<longleftrightarrow>
     distinct (map pi_intentId (intents s)) \<and>
     distinct (map pi_idempotencyKey (intents s)) \<and>
     distinct (List.map_filter pi_reference (intents s)) \<and>
     distinct (map pi_reservationKey (filter (\<lambda>r. pi_status r \<in> ACTIVE_STATUSES) (intents s)))"

text \<open>
  What the operations do to the table: guarded rewrites that keep identifier, idempotency and
  reservation key, under which no duplicate reference appears.
\<close>

definition guarded_write :: "(intent_row \<Rightarrow> bool) \<Rightarrow> (intent_row \<Rightarrow> intent_row) \<Rightarrow> db \<Rightarrow> bool" where
  "guarded_write p f s \<longleftrightarrow>
     (\<forall>r. p r \<longrightarrow> non_terminal r) \<and>
     (\<forall>r. pi_intentId (f r) = pi_intentId r \<and> pi_idempotencyKey (f r) = pi_idempotencyKey r \<and>
        pi_reservationKey (f r) = pi_reservationKey r) \<and>
     distinct (List.map_filter pi_reference (update_where p f (intents s)))"

lemma non_terminal_active: "non_terminal r \<longleftrightarrow> pi_status r \<in> ACTIVE_STATUSES"
  by (cases "pi_status r") (auto simp: non_terminal_def TERMINAL_STATUSES_def ACTIVE_STATUSES_def)

lemma active_keys_update:
  assumes "\<forall>r. p r \<longrightarrow> q r" "\<forall>r. k (f r) = k r" "distinct (map k (filter q xs))"
  shows "distinct (map k (filter q (update_where p f xs)))"
proof -
  have sub: "k ` set (filter q (update_where p f ys)) \<subseteq> k ` set (filter q ys)" for ys
    using assms(1,2) by (induction ys) (auto simp: row_simps image_iff)
  from assms(3) show ?thesis
  proof (induction xs)
    case (Cons x xs)
    then have IH: "distinct (map k (filter q (update_where p f xs)))" by (simp split: if_splits)
    show ?case
    proof (cases "q x")
      case True
      with Cons.prems have "k x \<notin> k ` set (filter q xs)" by simp
      with sub[of xs] IH assms(2) show ?thesis by (auto simp: row_simps)
    next
      case False
      with assms(1) IH show ?thesis by (auto simp: row_simps)
    qed
  qed simp
qed

lemma intents_ok_guarded:
  assumes "intents_ok s" "guarded_write p f s" "intents t = update_where p f (intents s)"
  shows "intents_ok t"
proof -
  have "map pi_intentId (intents t) = map pi_intentId (intents s)"
    "map pi_idempotencyKey (intents t) = map pi_idempotencyKey (intents s)"
    using assms(2,3) by (simp_all add: guarded_write_def map_update_where)
  moreover have "distinct (map pi_reservationKey (filter (\<lambda>r. pi_status r \<in> ACTIVE_STATUSES) (intents t)))"
    unfolding assms(3) using assms(1,2)
    by (intro active_keys_update) (auto simp: guarded_write_def intents_ok_def non_terminal_active)
  ultimately show ?thesis
    using assms by (simp add: intents_ok_def guarded_write_def)
qed

lemma map_filter_update_where:
  "(\<And>x. p x \<Longrightarrow> g (f x) = g x) \<Longrightarrow> List.map_filter g (update_where p f xs) = List.map_filter g xs"
  by (induction xs) (auto simp: row_simps List.map_filter_def)

lemma guarded_write_I:
  assumes "\<And>r. p r \<Longrightarrow> non_terminal r"
    and "\<And>r. pi_intentId (f r) = pi_intentId r" "\<And>r. pi_idempotencyKey (f r) = pi_idempotencyKey r"
      "\<And>r. pi_reservationKey (f r) = pi_reservationKey r" "\<And>r. pi_reference (f r) = pi_reference r"
    and "intents_ok s"
  shows "guarded_write p f s"
  using assms by (simp add: guarded_write_def map_filter_update_where intents_ok_def)

text \<open>\<open>one_write s t\<close>: the operation made at most one guarded write to the intents.\<close>

definition one_write :: "db \<Rightarrow> db \<Rightarrow> bool" where
  "one_write s t \<longleftrightarrow> (\<exists>p f. guarded_write p f s \<and> intents t = update_where p f (intents s))"

lemma one_write_refl [simp]: "intents_ok s \<Longrightarrow> one_write s s"
  unfolding one_write_def
  by (intro exI[of _ "\<lambda>r. False"] exI[of _ "\<lambda>r. r"] conjI guarded_write_I) (simp_all add: update_where_def)

lemma intents_ok_one_write: "intents_ok s \<Longrightarrow> one_write s t \<Longrightarrow> intents_ok t"
  unfolding one_write_def using intents_ok_guarded by blast

lemma one_write_transition:
  assumes "intents_ok s"
    and "\<And>r. pi_intentId (extra r) = pi_intentId r" "\<And>r. pi_idempotencyKey (extra r) = pi_idempotencyKey r"
      "\<And>r. pi_reservationKey (extra r) = pi_reservationKey r"
  shows "one_write s (snd (transitionStatus e i to extra s))"
proof -
  let ?p = "\<lambda>r. pi_intentId r = i \<and> non_terminal r"
  have "distinct (List.map_filter pi_reference (update_where ?p (moved e to extra) (intents s))) \<Longrightarrow>
      guarded_write ?p (moved e to extra) s"
    using assms(2-4) by (simp add: guarded_write_def moved_def)
  then have "one_write s (s\<lparr>intents := update_where ?p (moved e to extra) (intents s)\<rparr>)"
    if "distinct (List.map_filter pi_reference (update_where ?p (moved e to extra) (intents s)))"
    using that unfolding one_write_def by (intro exI[of _ ?p] exI[of _ "moved e to extra"]) simp
  with assms(1) show ?thesis
    by (auto simp: transitionStatus_def Let_def split: option.splits)
qed

lemma one_write_marks:
  assumes "intents_ok s"
  shows "one_write s (snd (markInitialized e i ref url s))" "one_write s (snd (markPending e i s))"
    "one_write s (snd (markProcessing e i s))" "one_write s (snd (markSuccess e i s))"
    "one_write s (snd (markFailed e i reason s))" "one_write s (snd (markExpired e i s))"
    "one_write s (snd (cancel e i reason' s))"
proof -
  have c: "snd (cancel e i reason' s) = snd (transitionStatus e i PaymentInitStatus.CANCELLED
        (\<lambda>r. r\<lparr>pi_authorizationUrl := (case reason' of None \<Rightarrow> pi_authorizationUrl r | Some m \<Rightarrow> Some m),
               pi_recoveryClaimedAt := None\<rparr>) s)"
    by (simp add: cancel_def split: prod.splits sum.splits app_error.splits)
  show "one_write s (snd (cancel e i reason' s))"
    unfolding c by (rule one_write_transition[OF assms]) simp_all
qed (unfold markInitialized_def markPending_def markProcessing_def markSuccess_def markFailed_def markExpired_def,
    rule one_write_transition[OF assms]; simp)+

lemma one_write_plain:
  assumes "intents_ok s" "\<And>r. p r \<Longrightarrow> non_terminal r"
    and "\<And>r. pi_intentId (f r) = pi_intentId r" "\<And>r. pi_idempotencyKey (f r) = pi_idempotencyKey r"
      "\<And>r. pi_reservationKey (f r) = pi_reservationKey r" "\<And>r. pi_reference (f r) = pi_reference r"
  shows "one_write s (s\<lparr>intents := update_where p f (intents s)\<rparr>)"
  unfolding one_write_def using guarded_write_I[OF assms(2-6,1)] by (intro exI[of _ p] exI[of _ f]) simp

lemma one_write_expireStale: "intents_ok s \<Longrightarrow> one_write s (snd (expireStale e s))"
  unfolding expireStale_def snd_conv
  by (rule one_write_plain) (auto simp: staleIntent_def non_terminal_def TERMINAL_STATUSES_def)

lemma one_write_recordRecoveryFailure: "intents_ok s \<Longrightarrow> one_write s (recordRecoveryFailure e i m s)"
  unfolding recordRecoveryFailure_def
  by (rule one_write_plain) (auto simp: non_terminal_def TERMINAL_STATUSES_def)

text \<open>The claimed identifiers are those of rows still initializing.\<close>

lemma one_write_claim:
  assumes "intents_ok s"
  shows "one_write s (snd (claimStaleIntents e s))"
proof -
  let ?rs = "take RECOVERY_BATCH_SIZE (sort_key pi_updatedAt (filter (claimable (env_now e)) (intents s)))"
  let ?p = "\<lambda>r. pi_intentId r \<in> set (map pi_intentId ?rs)"
  let ?q = "\<lambda>r. ?p r \<and> non_terminal r"
  let ?f = "\<lambda>r. r\<lparr>pi_recoveryClaimedAt := Some (env_now e), pi_recoveryAttempts := Suc (pi_recoveryAttempts r)\<rparr>"
  have "?p r = ?q r" if "r \<in> set (intents s)" for r
  proof -
    have "non_terminal r" if p: "?p r"
    proof -
      obtain x where x: "x \<in> set ?rs" "pi_intentId x = pi_intentId r" using p by auto
      then have "x \<in> set (intents s)" "pi_status x = INITIALIZING"
        by (auto dest!: in_set_takeD simp: claimable_def)
      moreover have "x = r"
        using assms \<open>r \<in> _\<close> calculation(1) x(2) by (auto simp: intents_ok_def distinct_map dest: inj_onD)
      ultimately show ?thesis by (simp add: non_terminal_def TERMINAL_STATUSES_def)
    qed
    then show ?thesis by blast
  qed
  then have "intents (snd (claimStaleIntents e s)) = update_where ?q ?f (intents s)"
    by (simp add: claimStaleIntents_def Let_def update_where_def)
  moreover have "guarded_write ?q ?f s"
    using assms by (intro guarded_write_I) auto
  ultimately show ?thesis unfolding one_write_def by blast
qed

lemma transition_error: "transitionStatus e i to extra s = (Inl err, s') \<Longrightarrow>
    (\<And>r. pi_intentId (extra r) = pi_intentId r) \<Longrightarrow> s' = s"
proof -
  assume a: "transitionStatus e i to extra s = (Inl err, s')" and k: "\<And>r. pi_intentId (extra r) = pi_intentId r"
  show "s' = s"
  proof (cases "find_intent i s")
    case None
    then have "count_where (\<lambda>r. pi_intentId r = i \<and> non_terminal r) (intents s) = 0"
      by (auto simp: count_where_def find_intent_def find_None_iff filter_empty_conv)
    with a None show ?thesis by (simp add: transitionStatus_def Let_def)
  next
    case (Some r)
    then have "find_intent i (s\<lparr>intents := update_where (\<lambda>r. pi_intentId r = i \<and> non_terminal r)
        (moved e to extra) (intents s)\<rparr>) \<noteq> None"
      using find_update_where[of "\<lambda>r. pi_intentId r = i \<and> non_terminal r" "\<lambda>r. pi_intentId r = i"
          "moved e to extra" "intents s"] k
      by (simp add: find_intent_def moved_def)
    with a Some show ?thesis by (auto simp: transitionStatus_def Let_def split: if_splits option.splits)
  qed
qed

lemma one_write_initialize:
  assumes "intents_ok s"
  shows "one_write s (snd (initializePaystack pr e i flag s))"
proof -
  have err: "s' = s" if "markInitialized e i ref url s = (Inl err, s')" for ref url err s'
    using transition_error[OF that[unfolded markInitialized_def]] by simp
  have ini: "one_write s s'" if "markInitialized e i ref url s = (x, s')" for ref url x s'
    using one_write_marks(1)[OF assms, of e i ref url] that by simp
  have fl: "one_write s (snd (initFailed e flag i err s))" for err
    using one_write_marks(5)[OF assms] assms
    by (auto simp: initFailed_def Let_def split: prod.splits sum.splits) (metis snd_conv)+
  have both: "one_write s (snd (initFailed e flag i x s'))" if "markInitialized e i ref url s = (Inl x, s')" for ref url x s'
    using fl err[OF that] by simp
  show ?thesis
    using assms by (auto simp: initializePaystack_def fl split: option.splits sum.splits prod.splits intro: ini both)
qed

text \<open>A failed initialization without \<open>markFailedOnError\<close> writes nothing.\<close>

lemma initialize_error_silent:
  "initializePaystack pr e i False s = (Inl err, s') \<Longrightarrow> s' = s"
  by (auto simp: initializePaystack_def initFailed_def Let_def markInitialized_def dest: transition_error
      split: option.splits sum.splits prod.splits)

lemma one_write_recover:
  assumes "intents_ok s"
  shows "one_write s (snd (recoverIntent pr mx e c s))"
proof -
  have ini: "one_write s s'" if "initializePaystack pr e i False s = (x, s')" for i x s'
    using one_write_initialize[OF assms, of pr e i False] that by simp
  have marks: "one_write s s'" if "markExpired e i s = (x, s') \<or> markFailed e i r s = (x, s')" for i x s' r
    using one_write_marks(5,6)[OF assms, of e i] that by (metis snd_conv)
  have rec: "one_write s (recordRecoveryFailure e i m s')" if "initializePaystack pr e i False s = (Inl err, s')" for i m err s'
    using initialize_error_silent[OF that] one_write_recordRecoveryFailure[OF assms] by simp
  show ?thesis
    using assms
    by (auto simp: recoverIntent_def split: option.splits sum.splits prod.splits intro: ini marks rec)
qed

section \<open>Steps and reachable states\<close>

text \<open>
  Every operation as one step; \<open>reserve\<close> without interference, which interleaves as steps of
  other requests.  The identifier drawn for a new intent is new.
\<close>

inductive intent_step :: "db \<Rightarrow> db \<Rightarrow> bool" where
  reserves: "env_uuid e 0 \<notin> pi_intentId ` set (intents s) \<Longrightarrow>
    intent_step s (snd (reserve (\<lambda>b t. t) e p s))"
| cancels: "intent_step s (snd (cancel e i reason s))"
| initialized: "intent_step s (snd (markInitialized e i ref url s))"
| pending: "intent_step s (snd (markPending e i s))"
| processing: "intent_step s (snd (markProcessing e i s))"
| success: "intent_step s (snd (markSuccess e i s))"
| failed: "intent_step s (snd (markFailed e i reason s))"
| expired: "intent_step s (snd (markExpired e i s))"
| initializes: "intent_step s (snd (initializePaystack pr e i flag s))"
| failure: "intent_step s (recordRecoveryFailure e i m s)"
| claims: "intent_step s (snd (claimStaleIntents e s))"
| recovers: "intent_step s (snd (recoverIntent pr mx e c s))"
| sweeps: "intent_step s (snd (expireStale e s))"

definition appended :: "db \<Rightarrow> db \<Rightarrow> bool" where
  "appended s t \<longleftrightarrow> (\<exists>r. intents t = intents s @ [r] \<and> pi_status r = INITIALIZING)"

lemma reserveOnce_states:
  assumes "reserveOnce (\<lambda>b t. t) e p b s = (x, s')"
  shows "x \<noteq> None \<and> (intents s' = intents s \<or>
      (\<exists>k. createIntent (new_intent e p (buildReservationKey p) k) s = (Inr (new_intent e p (buildReservationKey p) k), s')))"
  using assms
  by (auto simp: reserveOnce_def Let_def createIntent_def isUniqueReservationViolation_def find_None_iff
      new_intent_def split: option.splits prod.splits sum.splits if_splits)

lemma reserve_quiet:
  "intents (snd (reserve (\<lambda>b t. t) e p s)) = intents s \<or>
   (\<exists>k. createIntent (new_intent e p (buildReservationKey p) k) s =
     (Inr (new_intent e p (buildReservationKey p) k), snd (reserve (\<lambda>b t. t) e p s)))"
proof -
  obtain x s' where o: "reserveOnce (\<lambda>b t. t) e p True s = (x, s')" by force
  from reserveOnce_states[OF this] obtain r where x: "x = Some r" by auto
  from reserveOnce_states[OF o] have "intents s' = intents s \<or>
      (\<exists>k. createIntent (new_intent e p (buildReservationKey p) k) s = (Inr (new_intent e p (buildReservationKey p) k), s'))"
    by simp
  then show ?thesis by (auto simp: reserve_def reserveInternal_def o x split: sum.splits)
qed

lemma intents_ok_create:
  assumes "intents_ok s" "createIntent r s = (Inr r, t)" "pi_intentId r \<notin> pi_intentId ` set (intents s)"
    "pi_reference r = None" "pi_status r = INITIALIZING"
  shows "intents_ok t \<and> appended s t"
proof -
  have t: "intents t = intents s @ [r]" "pi_idempotencyKey r \<notin> pi_idempotencyKey ` set (intents s)"
    "\<forall>x \<in> set (intents s). pi_status x \<in> ACTIVE_STATUSES \<longrightarrow> pi_reservationKey x \<noteq> pi_reservationKey r"
    using assms(2) by (auto simp: createIntent_def split: if_splits)
  have "pi_reservationKey r \<notin> pi_reservationKey ` set (filter (\<lambda>r. pi_status r \<in> ACTIVE_STATUSES) (intents s))"
    using t(3) by auto
  with t assms show ?thesis
    by (auto simp: intents_ok_def appended_def List.map_filter_def)
qed

lemma intent_step_cases:
  assumes "intent_step s t" "intents_ok s"
  shows "one_write s t \<or> intents_ok t \<and> appended s t"
  using assms
proof (induction rule: intent_step.induct)
  case (reserves e s p)
  from reserve_quiet[of e p s] show ?case
  proof
    assume "intents (snd (reserve (\<lambda>b t. t) e p s)) = intents s"
    then have "one_write s (snd (reserve (\<lambda>b t. t) e p s))"
      using one_write_refl[OF reserves(2)] by (simp add: one_write_def)
    then show ?case ..
  next
    assume "\<exists>k. createIntent (new_intent e p (buildReservationKey p) k) s =
     (Inr (new_intent e p (buildReservationKey p) k), snd (reserve (\<lambda>b t. t) e p s))"
    then show ?case
      using intents_ok_create[OF reserves(2)] reserves(1) by (auto simp: new_intent_def)
  qed
qed (simp_all add: one_write_marks one_write_initialize one_write_recordRecoveryFailure one_write_claim
    one_write_recover one_write_expireStale)

lemma intents_ok_step: "intent_step s t \<Longrightarrow> intents_ok s \<Longrightarrow> intents_ok t"
  using intent_step_cases intents_ok_one_write by blast

lemma intents_ok_steps: "intent_step\<^sup>*\<^sup>* s t \<Longrightarrow> intents_ok s \<Longrightarrow> intents_ok t"
  by (induction rule: rtranclp_induct) (auto intro: intents_ok_step)

definition ok_step :: "db \<Rightarrow> db \<Rightarrow> bool" where
  "ok_step s t \<longleftrightarrow> intents_ok s \<and> intent_step s t"

lemma ok_steps: "intent_step\<^sup>*\<^sup>* s t \<Longrightarrow> intents_ok s \<Longrightarrow> ok_step\<^sup>*\<^sup>* s t"
proof (induction rule: rtranclp_induct)
  case (step y z)
  then have "ok_step y z" by (simp add: ok_step_def intents_ok_steps)
  with step show ?case by (meson rtranclp.rtrancl_into_rtrancl)
qed simp

interpretation intent_table: guarded_table ok_step intents "\<lambda>r. \<not> non_terminal r" pi_intentId
proof (unfold_locales, unfold ok_step_def, elim conjE)
  fix s t assume "intents_ok s" "intent_step s t"
  then consider "one_write s t" | "appended s t" using intent_step_cases by blast
  then show "\<exists>p f new. intents t = update_where p f (intents s) @ new \<and>
      (\<forall>r \<in> set (intents s). p r \<longrightarrow> \<not> \<not> non_terminal r \<and> pi_intentId (f r) = pi_intentId r)"
  proof cases
    case 1
    then obtain p f where "guarded_write p f s" "intents t = update_where p f (intents s)"
      unfolding one_write_def by blast
    then show ?thesis by (intro exI[of _ p] exI[of _ f] exI[of _ "[]"]) (simp add: guarded_write_def)
  next
    case 2
    then show ?thesis
      unfolding appended_def
      by (intro exI[of _ "\<lambda>r. False"] exI[of _ "\<lambda>r. r"]) (auto simp: update_where_def)
  qed
qed

section \<open>What a reservation returns\<close>

definition reservation_good :: "env \<Rightarrow> reserve_params \<Rightarrow> db \<Rightarrow> reservation \<Rightarrow> bool" where
  "reservation_good e p s' v \<longleftrightarrow> rv_intent v \<in> set (intents s') \<and>
     (if rv_isExisting v
      then pi_reservationKey (rv_intent v) = buildReservationKey p \<and> pi_status (rv_intent v) \<in> ACTIVE_STATUSES \<or>
           Some (pi_idempotencyKey (rv_intent v)) = rp_clientIdempotencyKey p
      else pi_status (rv_intent v) = INITIALIZING \<and> pi_reservationKey (rv_intent v) = buildReservationKey p \<and>
           pi_amount (rv_intent v) = rp_amount p \<and>
           pi_expiresAt (rv_intent v) = env_now e + INTENT_EXPIRATION_MS \<and>
           (\<forall>x \<in> set (intents s'). pi_status x \<in> ACTIVE_STATUSES \<and>
              pi_reservationKey x = buildReservationKey p \<longrightarrow> x = rv_intent v))"

lemma reserveOnce_good:
  assumes "reserveOnce race e p b s = (Some (Inr v), s')"
  shows "reservation_good e p s' v"
  using assms
  by (auto simp: reserveOnce_def Let_def createIntent_def existing_reservation_def reservation_good_def new_intent_def
      existingForClient_def findByIdempotencyKey_def or_null_def dest!: find_set
      split: option.splits prod.splits sum.splits if_splits)

lemma reserveOnce_err:
  "reserveOnce race e p b s = (Some (Inl err), s') \<Longrightarrow> err = UniqueViolation ''idempotencyKey'' \<and> s' = s"
  by (auto simp: reserveOnce_def Let_def createIntent_def isUniqueReservationViolation_def
      split: option.splits prod.splits sum.splits if_splits)

lemma reserveOnce_raced:
  assumes "reserveOnce race e p b s = (None, s')"
  shows "\<exists>t. race b t \<noteq> t"
proof (rule ccontr)
  assume "\<nexists>t. race b t \<noteq> t"
  with assms show False
    by (auto simp: reserveOnce_def Let_def createIntent_def isUniqueReservationViolation_def find_None_iff
        new_intent_def split: option.splits prod.splits sum.splits if_splits)
qed

lemma reserve_state:
  assumes "reserveOnce race e p b s = (x, s')"
  shows "s' = s \<or> s' = race b s \<or> (\<exists>k. createIntent (new_intent e p (buildReservationKey p) k) s =
    (Inr (new_intent e p (buildReservationKey p) k), s'))"
  using assms
  by (auto simp: reserveOnce_def Let_def createIntent_def split: option.splits prod.splits sum.splits if_splits)

text \<open>A transition of an intent that is not terminal succeeds and leaves the moved row.\<close>

lemma transition_ok:
  assumes "find_intent i s = Some r" "non_terminal r" "\<And>r. pi_intentId (extra r) = pi_intentId r"
    and "distinct (List.map_filter pi_reference (update_where (\<lambda>r. pi_intentId r = i \<and> non_terminal r)
      (moved e to extra) (intents s)))"
  shows "\<exists>t. transitionStatus e i to extra s = (Inr (moved e to extra r), t) \<and>
    find_intent i t = Some (moved e to extra r)"
proof -
  let ?p = "\<lambda>r. pi_intentId r = i \<and> non_terminal r"
  have r: "r \<in> set (intents s)" "pi_intentId r = i" using assms(1) by (auto simp: find_intent_def dest: find_set)
  then have "count_where ?p (intents s) \<noteq> 0"
    using assms(2) by (auto simp: count_where_def filter_empty_conv)
  moreover have "find_intent i (s\<lparr>intents := update_where ?p (moved e to extra) (intents s)\<rparr>)
      = Some (moved e to extra r)"
    using find_update_where[of ?p "\<lambda>r. pi_intentId r = i" "moved e to extra" "intents s"] assms(1-3) r(2)
    by (simp add: find_intent_def moved_def)
  ultimately show ?thesis using assms(4) by (simp add: transitionStatus_def Let_def)
qed

lemma transition_same_reference:
  assumes "intents_ok s" "find_intent i s = Some r" "non_terminal r" "\<And>r. pi_intentId (extra r) = pi_intentId r"
    "\<And>r. pi_reference (extra r) = pi_reference r"
  shows "\<exists>t. transitionStatus e i to extra s = (Inr (moved e to extra r), t) \<and>
    find_intent i t = Some (moved e to extra r)"
  using assms(1)
  by (intro transition_ok[OF assms(2-4)]) (simp add: map_filter_update_where moved_def assms(5) intents_ok_def)

lemma find_recordRecoveryFailure:
  "find_intent i s = Some r \<Longrightarrow> pi_status r = INITIALIZING \<Longrightarrow>
    find_intent i (recordRecoveryFailure e i m s) = Some (r\<lparr>pi_recoveryClaimedAt := None,
      pi_lastRecoveryError := Some (take 2000 m), pi_updatedAt := env_now e\<rparr>)"
  using find_update_where[of "\<lambda>r. pi_intentId r = i \<and> pi_status r = INITIALIZING" "\<lambda>r. pi_intentId r = i"
      "\<lambda>r. r\<lparr>pi_recoveryClaimedAt := None, pi_lastRecoveryError := Some (take 2000 m), pi_updatedAt := env_now e\<rparr>"
      "intents s"] find_set[of "\<lambda>r. pi_intentId r = i" "intents s" r]
  by (simp add: find_intent_def recordRecoveryFailure_def)

section \<open>A sample payment\<close>

definition sample_payload :: json where
  "sample_payload = JObject [(''email'', JString ''a@x.io''), (''metadata'', JObject [(''sequence'', JNumber 1)])]"

definition sample_params :: reserve_params where
  "sample_params = \<lparr>rp_type = INSTALLMENT, rp_amount = 50, rp_customerId = Some ''cust'', rp_companyId = None,
     rp_installmentId = Some ''in1'', rp_onboardingId = None, rp_subscriptionId = None, rp_planId = None,
     rp_idempotencyKey = None, rp_clientIdempotencyKey = None, rp_payload = sample_payload\<rparr>"

definition sample_clock :: "char \<Rightarrow> time \<Rightarrow> env" where
  "sample_clock k t = \<lparr>env_now = t, env_uuid = (\<lambda>i. k # replicate i CHR ''x'')\<rparr>"

definition sample_reserved :: db where
  "sample_reserved = snd (reserve (\<lambda>b t. t) (sample_clock CHR ''a'' 1000) sample_params empty_db)"

definition sample_success :: db where
  "sample_success = snd (markSuccess (sample_clock CHR ''b'' 2000) ''a'' sample_reserved)"

lemmas intent_runs = sample_reserved_def sample_success_def sample_params_def sample_payload_def sample_clock_def
  empty_db_def reserve_def reserveInternal_def reserveOnce_def createIntent_def existingForClient_def
  or_null_def assertValidInitializationPayload_def typeofObject_def jsTrimEmpty_def buildReservationKey_def template_def
  new_intent_def ACTIVE_STATUSES_def TERMINAL_STATUSES_def INTENT_EXPIRATION_MS_def markSuccess_def
  transitionStatus_def moved_def non_terminal_def count_where_def find_intent_def List.map_filter_def row_simps

lemma sample_empty_ok: "intents_ok empty_db"
  by (simp add: intents_ok_def empty_db_def List.map_filter_def)

lemma sample_success_steps:
  "intent_step\<^sup>*\<^sup>* empty_db sample_reserved" "intent_step\<^sup>*\<^sup>* sample_reserved sample_success"
proof -
  have "intent_step empty_db sample_reserved"
    unfolding sample_reserved_def by (rule intent_step.reserves) (simp add: empty_db_def)
  then show "intent_step\<^sup>*\<^sup>* empty_db sample_reserved" by blast
  have "intent_step sample_reserved sample_success"
    unfolding sample_success_def by (rule intent_step.success)
  then show "intent_step\<^sup>*\<^sup>* sample_reserved sample_success" by blast
qed

lemma sample_success_row:
  "map (\<lambda>r. (pi_intentId r, pi_status r, pi_reservationKey r)) (intents sample_success)
     = [(''a'', PaymentInitStatus.SUCCESS, ''INSTALLMENT:in1'')]"
  by (simp add: intent_runs Let_def)

section \<open>Properties\<close>

text \<open>C8: However the operations interleave, at most one payment intent per reservation key is
  active, and identifiers, idempotency keys and references stay unique.\<close>

theorem one_active_intent_per_reservation:
  assumes "intents s = []" "intent_step\<^sup>*\<^sup>* s t" "x \<in> set (intents t)" "y \<in> set (intents t)"
    and "pi_status x \<in> ACTIVE_STATUSES" "pi_status y \<in> ACTIVE_STATUSES" "pi_reservationKey x = pi_reservationKey y"
  shows "x = y \<and> distinct (map pi_intentId (intents t)) \<and> distinct (map pi_idempotencyKey (intents t)) \<and>
    distinct (List.map_filter pi_reference (intents t))"
proof -
  have "intents_ok s" using assms(1) by (simp add: intents_ok_def List.map_filter_def)
  then have t: "intents_ok t" by (rule intents_ok_steps[OF assms(2)])
  then have "inj_on pi_reservationKey (set (filter (\<lambda>r. pi_status r \<in> ACTIVE_STATUSES) (intents t)))"
    by (simp add: intents_ok_def distinct_map)
  then have "x = y" using assms(3-7) by (auto dest: inj_onD)
  with t show ?thesis by (simp add: intents_ok_def)
qed

theorem one_active_intent_per_reservation_witness:
  "\<exists>x \<in> set (intents sample_reserved). pi_status x \<in> ACTIVE_STATUSES \<and>
     distinct (map pi_idempotencyKey (intents sample_reserved))"
proof -
  obtain x where x: "x \<in> set (intents sample_reserved)" "pi_status x \<in> ACTIVE_STATUSES"
    by (simp add: intent_runs Let_def)
  from one_active_intent_per_reservation[OF _ sample_success_steps(1) x(1,1,2,2) refl] x show ?thesis
    by (auto simp: empty_db_def)
qed

text \<open>C9: An intent that reached SUCCESS, FAILED, EXPIRED or CANCELLED is never changed again, by
  any sequence of operations of the service and the recovery sweep.\<close>

theorem terminal_intents_never_change:
  assumes "intents_ok s" "intent_step\<^sup>*\<^sup>* s t" "r \<in> set (intents s)" "pi_status r \<in> TERMINAL_STATUSES"
  shows "r \<in> set (intents t)"
  using intent_table.terminal_forever[OF ok_steps[OF assms(2,1)] assms(3)] assms(4)
  by (simp add: non_terminal_def)

theorem terminal_intents_never_change_witness:
  "\<exists>r \<in> set (intents (snd (cancel (sample_clock CHR ''c'' 3000) ''a'' None sample_success))).
     pi_status r = PaymentInitStatus.SUCCESS"
proof -
  obtain r where r: "r \<in> set (intents sample_success)" "pi_status r = PaymentInitStatus.SUCCESS"
    using sample_success_row by (auto simp: map_eq_Cons_conv)
  have ok: "intents_ok sample_success"
    by (rule intents_ok_steps[OF rtranclp_trans[OF sample_success_steps] sample_empty_ok])
  have "intent_step\<^sup>*\<^sup>* sample_success (snd (cancel (sample_clock CHR ''c'' 3000) ''a'' None sample_success))"
    using intent_step.cancels by blast
  from terminal_intents_never_change[OF ok this r(1)] r(2) show ?thesis
    by (auto simp: TERMINAL_STATUSES_def)
qed

text \<open>
  Whatever other requests do between the refused insert and the re-read, a reservation
  returns a new intent, then the only active one of its key and valid for ten minutes, or an
  existing one that is active for the same key or carries the client's idempotency key; it
  fails only on an invalid payload, on a duplicate idempotency key, or, with
  \<open>ConflictError\<close>, when another request interfered in both attempts.\<close>

theorem reserve_outcome:
  assumes "reserve race e p s = (x, s')"
  shows "(\<exists>v. x = Inr v \<and> reservation_good e p s' v) \<or>
    x = Inl (UniqueViolation ''idempotencyKey'') \<or>
    (\<exists>err. assertValidInitializationPayload (rp_payload p) = Inl err \<and> x = Inl err \<and> s' = s) \<or>
    (\<exists>m t u. x = Inl (ConflictError m) \<and> race True t \<noteq> t \<and> race False u \<noteq> u)"
proof (cases "assertValidInitializationPayload (rp_payload p)")
  case (Inl err)
  with assms show ?thesis by (simp add: reserve_def)
next
  case (Inr u)
  obtain x1 s1 where o1: "reserveOnce race e p True s = (x1, s1)" by force
  show ?thesis
  proof (cases x1)
    case (Some r1)
    with assms Inr o1 have "x = r1" "s' = s1" by (simp_all add: reserve_def reserveInternal_def)
    with Some o1 show ?thesis by (cases r1) (auto dest: reserveOnce_good reserveOnce_err)
  next
    case None
    obtain x2 s2 where o2: "reserveOnce race e p False s1 = (x2, s2)" by force
    obtain t where t: "race True t \<noteq> t" using reserveOnce_raced[of race e p True s s1] o1 None by auto
    show ?thesis
    proof (cases x2)
      case (Some r2)
      with assms Inr o1 o2 None have "x = r2" "s' = s2" by (simp_all add: reserve_def reserveInternal_def)
      with Some o2 show ?thesis by (cases r2) (auto dest: reserveOnce_good reserveOnce_err)
    next
      case n2: None
      obtain u where "race False u \<noteq> u" using reserveOnce_raced[of race e p False s1 s2] o2 n2 by auto
      with t assms Inr o1 o2 None n2 show ?thesis by (auto simp: reserve_def reserveInternal_def)
    qed
  qed
qed

theorem reserve_outcome_witness:
  "\<exists>v s'. reserve (\<lambda>b t. t) (sample_clock CHR ''d'' 1500) sample_params sample_reserved = (Inr v, s') \<and>
     rv_isExisting v \<and> reservation_good (sample_clock CHR ''d'' 1500) sample_params s' v"
proof -
  obtain v s' where v: "reserve (\<lambda>b t. t) (sample_clock CHR ''d'' 1500) sample_params sample_reserved = (Inr v, s')"
      "rv_isExisting v"
    by (simp add: intent_runs Let_def existing_reservation_def isUniqueReservationViolation_def)
  from reserve_outcome[OF v(1)] v show ?thesis by auto
qed

lemma initialize_leaves_initialized:
  assumes "find_intent i s = Some r" "non_terminal r" "initializePaystack pr e i False s = (Inr resp, t)"
  shows "pr (initRequest r) = Inr resp \<and> map_option pi_status (find_intent i t) = Some INITIALIZED \<and>
    Option.bind (find_intent i t) pi_reference = Some (is_reference resp)"
proof -
  obtain r' where m: "markInitialized e i (is_reference resp) (is_authorization_url resp) s = (Inr r', t)"
    and pr: "pr (initRequest r) = Inr resp"
    using assms(1,3) by (auto simp: initializePaystack_def initFailed_def Let_def split: sum.splits prod.splits if_splits)
  let ?x = "\<lambda>r. r\<lparr>pi_reference := Some (is_reference resp),
      pi_authorizationUrl := Some (is_authorization_url resp), pi_recoveryClaimedAt := None\<rparr>"
  have "distinct (List.map_filter pi_reference (update_where (\<lambda>r. pi_intentId r = i \<and> non_terminal r)
      (moved e INITIALIZED ?x) (intents s)))"
    using m by (auto simp: markInitialized_def transitionStatus_def Let_def split: if_splits option.splits)
  from transition_ok[OF assms(1,2) _ this] m
  have "find_intent i t = Some (moved e INITIALIZED ?x r)" by (auto simp: markInitialized_def)
  with pr show ?thesis by (simp add: moved_def)
qed

text \<open>C38: One recovery attempt of an initializing intent: an expired one is marked EXPIRED and one
  claimed too often is marked FAILED, both without asking Paystack; otherwise the stored
  payload is replayed, and the intent becomes INITIALIZED with the reference Paystack returned,
  or stays INITIALIZING with its claim released and the error kept, so that a later sweep can
  try again.\<close>

theorem recovery_outcome:
  assumes "intents_ok s" "find_intent i s = Some r" "pi_status r = INITIALIZING"
  shows "case recoverIntent pr mx e (i, n) s of (x, t) \<Rightarrow>
    (if pi_expiresAt r < env_now e
     then x = Inr Expired \<and> map_option pi_status (find_intent i t) = Some EXPIRED
     else if mx < n
     then x = Inr GaveUp \<and> map_option pi_status (find_intent i t) = Some PaymentInitStatus.FAILED
     else x = Inr Recovered \<and>
        (\<exists>resp. pr (initRequest r) = Inr resp \<and> map_option pi_status (find_intent i t) = Some INITIALIZED \<and>
           Option.bind (find_intent i t) pi_reference = Some (is_reference resp)) \<or>
      x = Inr RetryScheduled \<and>
        (\<exists>m. find_intent i t = Some (r\<lparr>pi_recoveryClaimedAt := None, pi_lastRecoveryError := Some (take 2000 m),
           pi_updatedAt := env_now e\<rparr>)))"
proof -
  have nt: "non_terminal r" using assms(3) by (simp add: non_terminal_def TERMINAL_STATUSES_def)
  note tr = transition_same_reference[OF assms(1,2) nt]
  consider (expired) "pi_expiresAt r < env_now e" | (gave_up) "\<not> pi_expiresAt r < env_now e" "mx < n"
    | (tried) "\<not> pi_expiresAt r < env_now e" "\<not> mx < n"
    by blast
  then show ?thesis
  proof cases
    case expired
    then show ?thesis
      using tr[of "\<lambda>r. r\<lparr>pi_recoveryClaimedAt := None\<rparr>" e EXPIRED] assms(2,3)
      by (auto simp: recoverIntent_def markExpired_def moved_def)
  next
    case gave_up
    then show ?thesis
      using tr[of "\<lambda>r. r\<lparr>pi_recoveryClaimedAt := None, pi_lastRecoveryError := Some ''Exceeded max recovery attempts''\<rparr>"
          e PaymentInitStatus.FAILED] assms(2,3)
      by (auto simp: recoverIntent_def markFailed_def moved_def)
  next
    case tried
    obtain y t where y: "initializePaystack pr e i False s = (y, t)" by force
    show ?thesis
    proof (cases y)
      case (Inl err)
      then have "t = s" using initialize_error_silent y by blast
      with Inl y tried assms(2,3) find_recordRecoveryFailure[OF assms(2,3)] show ?thesis
        by (auto simp: recoverIntent_def)
    next
      case (Inr resp)
      with Inr y tried assms(2,3) initialize_leaves_initialized[OF assms(2) nt, of pr e resp t] show ?thesis
        by (auto simp: recoverIntent_def)
    qed
  qed
qed

theorem recovery_outcome_witness:
  "\<exists>t. recoverIntent (\<lambda>q. Inl (PaystackFailure ''PAYSTACK_TIMEOUT'' ''late'')) 5 (sample_clock CHR ''e'' 302000)
     (''a'', 1) sample_reserved = (Inr RetryScheduled, t) \<and>
     map_option pi_status (find_intent ''a'' t) = Some INITIALIZING"
proof -
  obtain r where r: "find_intent ''a'' sample_reserved = Some r" "pi_status r = INITIALIZING" "pi_expiresAt r = 601000"
    by (simp add: intent_runs Let_def)
  from recovery_outcome[OF intents_ok_steps[OF sample_success_steps(1) sample_empty_ok] r(1,2),
      where pr = "\<lambda>q. Inl (PaystackFailure ''PAYSTACK_TIMEOUT'' ''late'')" and mx = 5 and n = 1
        and e = "sample_clock CHR ''e'' 302000"] r
  show ?thesis
    by (cases "recoverIntent (\<lambda>q. Inl (PaystackFailure ''PAYSTACK_TIMEOUT'' ''late'')) 5 (sample_clock CHR ''e'' 302000)
     (''a'', 1) sample_reserved") (auto simp: sample_clock_def)
qed

end
