(* ===== verification/PaymentWorker.thy ===== *)
theory PaymentWorker
  imports Commission PaymentIntent
begin

text \<open>
  Collecting an installment: the \<open>charge.success\<close> webhook for installment payments
  (\<open>WebhookProcessor.handleChargeSuccess\<close>) and the payment worker
  (\<open>src/job-workers/payment.worker.ts\<close>), which verifies the charge, marks the installment
  paid, accrues the referrer's commission, posts the ledger transaction and completes the
  contract.  Paystack's verification is a parameter.  Decimal arithmetic is exact; Decimal.js
  rounds to 20 significant digits, which no amount of this program needs.
\<close>

section \<open>The webhook\<close>

record charge =
  ch_reference :: string
  ch_amount :: rat
  ch_installmentId :: "ident option"

datatype webhook_result = Ignored string | Enqueued

definition handleInstallmentCharge :: "env \<Rightarrow> charge \<Rightarrow> db \<Rightarrow> webhook_result res \<times> db" where
  "handleInstallmentCharge e c s =
     (case or_null (ch_installmentId c) of
        None \<Rightarrow> (Inr (Ignored ''No installmentId found in webhook metadata''), s)
      | Some webhookInstallmentId \<Rightarrow>
     (case findByReference (ch_reference c) s of
        None \<Rightarrow> (Inr (Ignored ''No PaymentIntent found for reference''), s)
      | Some intent \<Rightarrow>
      if pi_installmentId intent \<noteq> Some webhookInstallmentId
      then (Inr (Ignored ''installmentId mismatch''), s)
      else if toKobo (pi_amount intent) \<noteq> ch_amount c
      then (Inr (Ignored ''amount mismatch''), s)
      else
     (case markProcessing e (pi_intentId intent) s of
        (Inl err, s') \<Rightarrow> (Inl err, s')
      | (Inr r, s') \<Rightarrow> (Inr Enqueued, emit (Job ''process-payment'' (ch_reference c)) s'))))"

section \<open>The worker\<close>

record verification =
  vf_status :: string
  vf_id :: "nat option"
  vf_gatewayRef :: "string option"

definition gatewayRef :: "verification \<Rightarrow> string \<Rightarrow> string" where
  "gatewayRef v reference =
     (case vf_id v of Some n \<Rightarrow> show_nat n
      | None \<Rightarrow> (case vf_gatewayRef v of Some g \<Rightarrow> g | None \<Rightarrow> reference))"

definition productOf :: "contract_row \<Rightarrow> db \<Rightarrow> product_row option" where
  "productOf c s = find (\<lambda>p. pr_productId p = fc_productId c) (products s)"

definition customerOf :: "contract_row \<Rightarrow> db \<Rightarrow> user_row option" where
  "customerOf c s = Option.bind (fc_userId c) (\<lambda>u. find_user u s)"

text \<open>The payment row: the pending one of this reference is settled, otherwise one is created.\<close>

definition pendingPayment :: "ident \<Rightarrow> string \<Rightarrow> db \<Rightarrow> payment_row option" where
  "pendingPayment installmentId reference s =
     find (\<lambda>p. pm_installmentId p = installmentId \<and> pm_idempotencyKey p = Some reference \<and>
            pm_status p = PaymentStatus.PENDING) (payments s)"

definition settlePayment ::
  "env \<Rightarrow> installment_row \<Rightarrow> string \<Rightarrow> string \<Rightarrow> db \<Rightarrow> ident res \<times> db" where
  "settlePayment e inst reference gref s =
     (case pendingPayment (in_installmentId inst) reference s of
        Some p \<Rightarrow>
          if \<exists>x \<in> set (payments s). pm_paymentId x \<noteq> pm_paymentId p \<and> pm_providerReference x = Some gref
          then (Inl (UniqueViolation ''providerReference''), s)
          else (Inr (pm_paymentId p),
            s\<lparr>payments := update_where (\<lambda>x. pm_paymentId x = pm_paymentId p)
                (\<lambda>x. x\<lparr>pm_status := PaymentStatus.SUCCESS, pm_providerReference := Some gref\<rparr>) (payments s)\<rparr>)
      | None \<Rightarrow>
          if \<exists>x \<in> set (payments s). pm_providerReference x = Some gref
          then (Inl (UniqueViolation ''providerReference''), s)
          else if \<exists>x \<in> set (payments s). pm_idempotencyKey x = Some reference
          then (Inl (UniqueViolation ''idempotencyKey''), s)
          else (Inr (env_uuid e 0),
            s\<lparr>payments := payments s @
                [\<lparr>pm_paymentId = env_uuid e 0, pm_installmentId = in_installmentId inst, pm_amount = in_amount inst,
                  pm_status = PaymentStatus.SUCCESS, pm_providerReference = Some gref,
                  pm_idempotencyKey = Some reference, pm_createdAt = env_now e\<rparr>]\<rparr>))"

definition payInstallment :: "env \<Rightarrow> ident \<Rightarrow> db \<Rightarrow> db" where
  "payInstallment e i s = s\<lparr>installments := update_where (\<lambda>x. in_installmentId x = i)
     (\<lambda>x. x\<lparr>in_status := InstallmentStatus.PAID, in_paidAt := Some (env_now e)\<rparr>) (installments s)\<rparr>"

definition commissionRateOf :: "contract_row \<Rightarrow> db \<Rightarrow> decimal" where
  "commissionRateOf c s = (case productOf c s of None \<Rightarrow> 0 | Some p \<Rightarrow> or_zero (pr_commissionRate p))"

text \<open>The referrer who earns a commission on this contract, if any.\<close>

definition earningReferrer :: "contract_row \<Rightarrow> db \<Rightarrow> ident option" where
  "earningReferrer c s =
     (case Option.bind (customerOf c s) (\<lambda>u. or_null (u_referredByMarketerId u)) of
        None \<Rightarrow> None
      | Some m \<Rightarrow>
          if isCommissionEligible (map_option u_role (find_user m s)) \<and> 0 < commissionRateOf c s
          then Some m else None)"

definition commissionAmountOf :: "contract_row \<Rightarrow> installment_row \<Rightarrow> db \<Rightarrow> decimal" where
  "commissionAmountOf c inst s =
     (case earningReferrer c s of None \<Rightarrow> 0 | Some m \<Rightarrow> in_amount inst * (commissionRateOf c s / 100))"

definition accrueCommission :: "env \<Rightarrow> contract_row \<Rightarrow> installment_row \<Rightarrow> ident \<Rightarrow> db \<Rightarrow> db" where
  "accrueCommission e c inst paymentId s =
     (case earningReferrer c s of
        None \<Rightarrow> s
      | Some m \<Rightarrow> s\<lparr>commissions := commissions s @
          [\<lparr>cm_commissionId = env_uuid e 1, cm_userId = m, cm_paymentId = Some paymentId,
            cm_amount = commissionAmountOf c inst s, cm_status = CommissionStatus.ACTIVE,
            cm_reservedAmount = 0, cm_createdAt = env_now e\<rparr>]\<rparr>)"

definition paymentEntries :: "decimal \<Rightarrow> decimal \<Rightarrow> ledger_entry list" where
  "paymentEntries amount commissionAmount =
     [debit_entry ''PAYSTACK_CLEARING'' ASSET amount, credit_entry ''CUSTOMER_RECEIVABLE'' ASSET amount]
     @ (if 0 < commissionAmount
        then [debit_entry ''COMMISSION_EXPENSE'' EXPENSE commissionAmount,
              credit_entry ''COMMISSION_PAYABLE'' LIABILITY commissionAmount] else [])
     @ (if 0 < amount - commissionAmount
        then [debit_entry ''MERCHANT_SETTLEMENT_EXPENSE'' EXPENSE (amount - commissionAmount),
              credit_entry ''MERCHANT_PAYABLE'' LIABILITY (amount - commissionAmount)] else [])"

text \<open>\<open>toFixed(2)\<close> rounds half away from zero; the percentage is only reported.\<close>

definition toFixed2 :: "decimal \<Rightarrow> decimal" where
  "toFixed2 x = (if x < 0 then - of_int \<lfloor>- x * 100 + 1/2\<rfloor> / 100 else of_int \<lfloor>x * 100 + 1/2\<rfloor> / 100)"

definition percentagePaid :: "ident \<Rightarrow> db \<Rightarrow> decimal" where
  "percentagePaid contractId s =
     (let totalFinanced = sum_where (\<lambda>i. in_financingContractId i = contractId) in_amount (installments s);
          totalPaid = sum_where (\<lambda>i. in_financingContractId i = contractId \<and> in_status i = InstallmentStatus.PAID)
            in_amount (installments s)
      in if totalFinanced = 0 then 0 else toFixed2 (totalPaid / totalFinanced * 100))"

definition nextPending :: "ident \<Rightarrow> db \<Rightarrow> installment_row option" where
  "nextPending contractId s =
     (case sort_key in_sequence (filter (\<lambda>i. in_financingContractId i = contractId \<and>
        in_status i = InstallmentStatus.PENDING) (installments s)) of [] \<Rightarrow> None | i # is \<Rightarrow> Some i)"

definition completeIfDone :: "env \<Rightarrow> ident \<Rightarrow> db \<Rightarrow> db" where
  "completeIfDone e contractId s =
     (if nextPending contractId s = None
      then s\<lparr>contracts := update_where (\<lambda>c. fc_contractId c = contractId)
             (\<lambda>c. c\<lparr>fc_status := FinancingStatus.COMPLETED, fc_completedAt := Some (env_now e)\<rparr>) (contracts s)\<rparr>
      else s)"

text \<open>\<open>markSuccess\<close> with a \<open>ConflictError\<close> (already terminal) swallowed.\<close>

definition markSuccessLenient :: "env \<Rightarrow> ident \<Rightarrow> db \<Rightarrow> unit res \<times> db" where
  "markSuccessLenient e i s =
     (case markSuccess e i s of
        (Inr r, s') \<Rightarrow> (Inr (), s')
      | (Inl (ConflictError m), s') \<Rightarrow> (Inr (), s')
      | (Inl err, s') \<Rightarrow> (Inl err, s'))"

record payment_outcome =
  oc_percentagePaid :: decimal
  oc_nextDueDate :: "time option"
  oc_financingStatus :: FinancingStatus
  oc_commission :: "ident option"

text \<open>The transaction of the worker.\<close>

definition collect ::
  "env \<Rightarrow> installment_row \<Rightarrow> contract_row \<Rightarrow> intent_row \<Rightarrow> string \<Rightarrow> string \<Rightarrow> db \<Rightarrow> payment_outcome res \<times> db" where
  "collect e inst contract intent reference gref s =
     (case settlePayment e inst reference gref s of
        (Inl err, s1) \<Rightarrow> (Inl err, s1)
      | (Inr paymentId, s1) \<Rightarrow>
     (let s2 = payInstallment e (in_installmentId inst) s1;
          commissionAmount = commissionAmountOf contract inst s2;
          s3 = accrueCommission e contract inst paymentId s2
      in case record_in_book (\<lambda>i. env_uuid e (i + 2)) reference ''Installment payment''
           (Option.bind (customerOf contract s) u_companyId)
           (paymentEntries (in_amount inst) commissionAmount) s3 of
        (Inl err, s4) \<Rightarrow> (Inl err, s4)
      | (Inr u, s4) \<Rightarrow>
     (let s5 = completeIfDone e (fc_contractId contract) s4
      in case markSuccessLenient e (pi_intentId intent) s5 of
        (Inl err, s6) \<Rightarrow> (Inl err, s6)
      | (Inr u, s6) \<Rightarrow>
          (Inr \<lparr>oc_percentagePaid = percentagePaid (fc_contractId contract) s4,
                oc_nextDueDate = map_option in_dueDate (nextPending (fc_contractId contract) s4),
                oc_financingStatus = (if nextPending (fc_contractId contract) s4 = None
                  then FinancingStatus.COMPLETED else fc_status contract),
                oc_commission = (if earningReferrer contract s = None then None else Some (env_uuid e 1))\<rparr>, s6))))"

datatype payment_job_result = AlreadyProcessed | Collected payment_outcome

definition processPayment ::
  "(string \<Rightarrow> verification res) \<Rightarrow> env \<Rightarrow> ident \<Rightarrow> string \<Rightarrow> db \<Rightarrow> payment_job_result res \<times> db" where
  "processPayment verify e installmentId reference s =
     (case find_installment installmentId s of
        None \<Rightarrow> (Inl (PlainError ''Installment not found''), s)
      | Some inst \<Rightarrow>
      if in_status inst = InstallmentStatus.PAID
      then (case findByReference reference s of
              None \<Rightarrow> (Inr AlreadyProcessed, s)
            | Some stale \<Rightarrow>
                (case markSuccessLenient e (pi_intentId stale) s of
                   (Inl err, s') \<Rightarrow> (Inl err, s') | (Inr u, s') \<Rightarrow> (Inr AlreadyProcessed, s')))
      else
     (case findByReference reference s of
        None \<Rightarrow> (Inl (PlainError ''PaymentIntent not found''), s)
      | Some intent \<Rightarrow>
     (case verify reference of
        Inl err \<Rightarrow> (Inl err, s)
      | Inr v \<Rightarrow>
      if vf_status v \<noteq> ''success'' then (Inl (PlainError ''Payment verification failed''), s)
      else
     (case find_contract (in_financingContractId inst) s of
        None \<Rightarrow> (Inl (PlainError ''Installment not found''), s)
      | Some contract \<Rightarrow>
     (case transaction (collect e inst contract intent reference (gatewayRef v reference)) s of
        (Inl err, s') \<Rightarrow> (Inl err, s')
      | (Inr r, s') \<Rightarrow>
          (let marketer = Option.bind (earningReferrer contract s) (\<lambda>m. find_user m s);
               s'' = (case (oc_commission r, marketer) of
                  (Some cid, Some m) \<Rightarrow> emit (Notify ''COMMISSION_ACCRUED'' cid) s'
                | _ \<Rightarrow> s')
           in (Inr (Collected r), emit (Event ''INSTALLMENT_PAID'' installmentId) s'')))))))"

definition onPaymentFailed :: "env \<Rightarrow> string \<Rightarrow> nat \<Rightarrow> nat option \<Rightarrow> db \<Rightarrow> db" where
  "onPaymentFailed e reference attemptsMade attempts s =
     (if Some attemptsMade \<noteq> attempts then s
      else
        (case findByReference reference s of
           None \<Rightarrow> s
         | Some intent \<Rightarrow> snd (markFailed e (pi_intentId intent) None s)))"

section \<open>What each step touches\<close>

lemma paymentEntries_balanced [simp]:
  "totalDebits (paymentEntries a c) = totalCredits (paymentEntries a c)"
  by (simp add: paymentEntries_def)

lemma paymentEntries_net:
  assumes "0 \<le> c" "c \<le> a"
  shows "entries_net n (paymentEntries a c) =
    (if n = ''PAYSTACK_CLEARING'' then a else 0) - (if n = ''CUSTOMER_RECEIVABLE'' then a else 0) +
    (if n = ''COMMISSION_EXPENSE'' then c else 0) - (if n = ''COMMISSION_PAYABLE'' then c else 0) +
    (if n = ''MERCHANT_SETTLEMENT_EXPENSE'' then a - c else 0) - (if n = ''MERCHANT_PAYABLE'' then a - c else 0)"
  using assms by (auto simp: paymentEntries_def not_less)

lemma transitionStatus_frame:
  assumes "transitionStatus e i to extra s = (x, t)"
  shows "users t = users s" "commissions t = commissions s" "allocations t = allocations s" "payouts t = payouts s"
    "products t = products s" "contracts t = contracts s" "installments t = installments s" "payments t = payments s"
    "book t = book s" "outbox t = outbox s"
  using assms by (auto simp: transitionStatus_def Let_def split: if_splits option.splits)

lemma markSuccessLenient_frame:
  assumes "markSuccessLenient e i s = (x, t)"
  shows "users t = users s" "commissions t = commissions s" "allocations t = allocations s" "payouts t = payouts s"
    "products t = products s" "contracts t = contracts s" "installments t = installments s" "payments t = payments s"
    "book t = book s" "outbox t = outbox s"
  using assms
  by (auto simp: markSuccessLenient_def markSuccess_def dest: transitionStatus_frame
      split: prod.splits sum.splits app_error.splits)

lemma settlePayment_frame:
  assumes "settlePayment e inst ref g s = (x, t)"
  shows "users t = users s" "commissions t = commissions s" "products t = products s" "contracts t = contracts s"
    "installments t = installments s" "book t = book s" "outbox t = outbox s" "intents t = intents s"
  using assms by (auto simp: settlePayment_def split: option.splits if_splits)

lemma completeIfDone_frame [simp]:
  "users (completeIfDone e c s) = users s" "commissions (completeIfDone e c s) = commissions s"
  "products (completeIfDone e c s) = products s" "installments (completeIfDone e c s) = installments s"
  "payments (completeIfDone e c s) = payments s" "book (completeIfDone e c s) = book s"
  by (simp_all add: completeIfDone_def)

lemma payInstallment_frame [simp]:
  "users (payInstallment e i s) = users s" "commissions (payInstallment e i s) = commissions s"
  "products (payInstallment e i s) = products s" "contracts (payInstallment e i s) = contracts s"
  "payments (payInstallment e i s) = payments s" "book (payInstallment e i s) = book s"
  by (simp_all add: payInstallment_def)

lemma accrueCommission_frame [simp]:
  "users (accrueCommission e c i p s) = users s" "products (accrueCommission e c i p s) = products s"
  "contracts (accrueCommission e c i p s) = contracts s" "payments (accrueCommission e c i p s) = payments s"
  "installments (accrueCommission e c i p s) = installments s" "book (accrueCommission e c i p s) = book s"
  by (simp_all add: accrueCommission_def split: option.splits)

lemma referrer_cong:
  assumes "users t = users s" "products t = products s"
  shows "earningReferrer c t = earningReferrer c s" "commissionAmountOf c i t = commissionAmountOf c i s"
    "customerOf c t = customerOf c s"
proof -
  have u: "find_user m t = find_user m s" for m using assms(1) by (simp add: find_user_def)
  show "customerOf c t = customerOf c s" by (simp add: customerOf_def u)
  then show e: "earningReferrer c t = earningReferrer c s"
    using assms(2) by (simp add: earningReferrer_def commissionRateOf_def productOf_def u cong: option.case_cong)
  show "commissionAmountOf c i t = commissionAmountOf c i s"
    using assms(2) by (simp add: commissionAmountOf_def commissionRateOf_def productOf_def e cong: option.case_cong)
qed

text \<open>Everything the transaction writes when it commits.\<close>

lemma collect_ok:
  assumes "collect e inst contract intent ref g s = (Inr r, s')"
  shows "installments s' = installments (payInstallment e (in_installmentId inst) s)"
    "book s' = post_labelled (\<lambda>i. env_uuid e (i + 2), ref, ''Installment payment'')
      (Option.bind (customerOf contract s) u_companyId)
      (paymentEntries (in_amount inst) (commissionAmountOf contract inst s)) (book s)"
    "map cm_amount (commissions s') = map cm_amount (commissions s) @
      (if earningReferrer contract s = None then [] else [commissionAmountOf contract inst s])"
    "contracts s' = contracts (completeIfDone e (fc_contractId contract) (payInstallment e (in_installmentId inst) s))"
    "users s' = users s" "products s' = products s"
proof -
  obtain paymentId s1 where s1: "settlePayment e inst ref g s = (Inr paymentId, s1)"
    using assms by (auto simp: collect_def split: prod.splits sum.splits)
  let ?s2 = "payInstallment e (in_installmentId inst) s1"
  let ?s3 = "accrueCommission e contract inst paymentId ?s2"
  let ?c = "commissionAmountOf contract inst ?s2"
  let ?l = "posted (\<lambda>i. env_uuid e (i + 2)) ref ''Installment payment'' (Option.bind (customerOf contract s) u_companyId)
      (paymentEntries (in_amount inst) ?c) (book s)"
  let ?s4 = "?s3\<lparr>book := ?l\<rparr>"
  note fr1 = settlePayment_frame[OF s1]
  have s4: "record_in_book (\<lambda>i. env_uuid e (i + 2)) ref ''Installment payment''
      (Option.bind (customerOf contract s) u_companyId) (paymentEntries (in_amount inst) ?c) ?s3 = (Inr (), ?s4)"
    by (simp add: record_in_book_balanced fr1)
  obtain x where s': "markSuccessLenient e (pi_intentId intent) (completeIfDone e (fc_contractId contract) ?s4) = (x, s')"
    using assms s4 by (auto simp: collect_def s1 Let_def split: prod.splits sum.splits)
  note fr = markSuccessLenient_frame[OF s']
  have ref: "commissionAmountOf contract inst ?s2 = commissionAmountOf contract inst s"
    "earningReferrer contract ?s2 = earningReferrer contract s"
    by (rule referrer_cong; simp add: fr1)+
  show "installments s' = installments (payInstallment e (in_installmentId inst) s)"
    by (simp add: fr(7) payInstallment_def fr1)
  show "book s' = post_labelled (\<lambda>i. env_uuid e (i + 2), ref, ''Installment payment'')
      (Option.bind (customerOf contract s) u_companyId)
      (paymentEntries (in_amount inst) (commissionAmountOf contract inst s)) (book s)"
    by (simp add: fr(9) ref post_labelled.simps)
  show "map cm_amount (commissions s') = map cm_amount (commissions s) @
      (if earningReferrer contract s = None then [] else [commissionAmountOf contract inst s])"
    by (simp add: fr(2) accrueCommission_def ref fr1 split: option.splits)
  show "contracts s' = contracts (completeIfDone e (fc_contractId contract) (payInstallment e (in_installmentId inst) s))"
    by (simp add: fr(6) completeIfDone_def nextPending_def payInstallment_def fr1)
  show "users s' = users s" "products s' = products s"
    by (simp_all add: fr(1,5) fr1)
qed

text \<open>The payment row the transaction settles, and the commission tied to it.\<close>

lemma collect_payment:
  assumes "collect e inst contract intent ref g s = (Inr r, s')"
  obtains pid s1 where "settlePayment e inst ref g s = (Inr pid, s1)" "payments s' = payments s1"
    "commissions s' = commissions s @ (case earningReferrer contract s of None \<Rightarrow> []
       | Some m \<Rightarrow> [\<lparr>cm_commissionId = env_uuid e 1, cm_userId = m, cm_paymentId = Some pid,
            cm_amount = commissionAmountOf contract inst s, cm_status = CommissionStatus.ACTIVE,
            cm_reservedAmount = 0, cm_createdAt = env_now e\<rparr>])"
proof -
  obtain pid s1 where s1: "settlePayment e inst ref g s = (Inr pid, s1)"
    using assms by (auto simp: collect_def split: prod.splits sum.splits)
  let ?s2 = "payInstallment e (in_installmentId inst) s1"
  let ?s3 = "accrueCommission e contract inst pid ?s2"
  note fr1 = settlePayment_frame[OF s1]
  have bal: "record_in_book u ref d c (paymentEntries a x) ?s3 = (Inr (), ?s3\<lparr>book := posted u ref d c (paymentEntries a x) (book ?s3)\<rparr>)"
    for u d c a x by (rule record_in_book_balanced) simp
  obtain x b where s': "markSuccessLenient e (pi_intentId intent) (completeIfDone e (fc_contractId contract) (?s3\<lparr>book := b\<rparr>)) = (x, s')"
    using assms bal by (auto simp: collect_def s1 Let_def split: prod.splits sum.splits)
  note fr = markSuccessLenient_frame[OF s']
  have ref: "commissionAmountOf contract inst ?s2 = commissionAmountOf contract inst s"
    "earningReferrer contract ?s2 = earningReferrer contract s"
    by (rule referrer_cong; simp add: fr1)+
  show thesis
  proof (rule that[OF s1])
    show "payments s' = payments s1" by (simp add: fr(8))
    show "commissions s' = commissions s @ (case earningReferrer contract s of None \<Rightarrow> []
       | Some m \<Rightarrow> [\<lparr>cm_commissionId = env_uuid e 1, cm_userId = m, cm_paymentId = Some pid,
            cm_amount = commissionAmountOf contract inst s, cm_status = CommissionStatus.ACTIVE,
            cm_reservedAmount = 0, cm_createdAt = env_now e\<rparr>])"
      by (simp add: fr(2) accrueCommission_def ref fr1 split: option.splits)
  qed
qed

lemma processPayment_collected:
  assumes "processPayment verify e iid ref s = (Inr (Collected r), s')"
  obtains inst contract intent g t where "find_installment iid s = Some inst" "in_status inst \<noteq> InstallmentStatus.PAID"
    "find_contract (in_financingContractId inst) s = Some contract"
    "collect e inst contract intent ref g s = (Inr r, t)"
    "installments s' = installments t" "book s' = book t" "commissions s' = commissions t" "contracts s' = contracts t"
    "payments s' = payments t"
  using assms
  by (auto simp: processPayment_def transaction_def Let_def split: option.splits if_splits prod.splits sum.splits)

section \<open>A sample contract\<close>

text \<open>
  A contract of two installments of 100 at a commission rate of 10: the first is due now, the
  second overdue.  The customer was referred by the marketer.
\<close>

definition sample_installment :: "ident \<Rightarrow> nat \<Rightarrow> InstallmentStatus \<Rightarrow> installment_row" where
  "sample_installment i n st = \<lparr>in_installmentId = i, in_financingContractId = ''fc'', in_dueDate = int n * 1000,
     in_amount = 100, in_sequence = n, in_status = st, in_paidAt = None\<rparr>"

definition sample_contract :: contract_row where
  "sample_contract = \<lparr>fc_contractId = ''fc'', fc_kycApplicationId = ''ka'', fc_userId = Some ''cust'', fc_productId = ''pr'',
     fc_variantId = None, fc_approvedProductPrice = 200, fc_approvedInterestPercentage = 0, fc_approvedDurationMonths = 2,
     fc_principal = 200, fc_interest = 0, fc_totalFinanced = 200, fc_status = FinancingStatus.ACTIVE,
     fc_activatedAt = Some 0, fc_rejectedAt = None, fc_completedAt = None, fc_restructuredAt = None,
     fc_restructuredById = None, fc_writtenOffAt = None, fc_writtenOffById = None, fc_writeOffReason = None\<rparr>"

definition sample_buyer :: "ident \<Rightarrow> Role \<Rightarrow> ident option \<Rightarrow> user_row" where
  "sample_buyer i r m = \<lparr>u_userId = i, u_email = i @ ''@x.io'', u_name = None, u_role = r, u_companyId = Some ''co'',
     u_createdById = None, u_referredByMarketerId = m, u_referralCode = None, u_password = '''', u_active = True, u_forcePasswordChange = False, u_deletedAt = None, u_createdAt = 0\<rparr>"

definition sample_intent :: "decimal \<Rightarrow> intent_row" where
  "sample_intent x = (new_intent (sample_clock CHR ''a'' 1000) (sample_params\<lparr>rp_amount := x\<rparr>) ''INSTALLMENT:in1'' ''k'')
     \<lparr>pi_status := INITIALIZED, pi_reference := Some ''ref''\<rparr>"

definition sample_product :: product_row where
  "sample_product = \<lparr>pr_productId = ''pr'', pr_companyId = Some ''co'', pr_name = ''Phone'', pr_slug = ''phone'',
     pr_stockQuantity = 1, pr_commissionRate = Some 10, pr_status = PUBLISHED, pr_description = None, pr_price = 200,
     pr_minPrice = None, pr_maxPrice = None, pr_categoryId = ''ca'', pr_createdAt = 0\<rparr>"

definition sample_sale :: "decimal \<Rightarrow> db" where
  "sample_sale x = empty_db\<lparr>users := [sample_buyer ''cust'' CUSTOMER (Some ''mk''), sample_buyer ''mk'' MARKETER None],
     products := [sample_product],
     contracts := [sample_contract],
     installments := [sample_installment ''in1'' 1 InstallmentStatus.DUE, sample_installment ''in2'' 2 OVERDUE],
     intents := [sample_intent x]\<rparr>"

definition sample_verify :: "string \<Rightarrow> verification res" where
  "sample_verify ref = Inr \<lparr>vf_status = ''success'', vf_id = None, vf_gatewayRef = None\<rparr>"

definition sample_job :: "payment_job_result res \<times> db" where
  "sample_job = processPayment sample_verify (sample_clock CHR ''w'' 5000) ''in1'' ''ref'' (sample_sale 100)"

lemmas sale_runs = sample_job_def sample_sale_def sample_product_def sample_verify_def sample_intent_def sample_buyer_def sample_contract_def
  sample_installment_def processPayment_def find_installment_def findByReference_def find_contract_def gatewayRef_def
  transaction_def collect_def settlePayment_def pendingPayment_def payInstallment_def completeIfDone_def
  nextPending_def record_in_book_balanced markSuccessLenient_def earningReferrer_def customerOf_def commissionRateOf_def
  productOf_def find_user_def isCommissionEligible_def commissionAmountOf_def accrueCommission_def
  emit_def intent_runs

lemma sample_job_ok:
  "\<exists>r s'. sample_job = (Inr (Collected r), s') \<and> oc_financingStatus r = FinancingStatus.COMPLETED \<and>
     map (\<lambda>i. (in_installmentId i, in_status i)) (installments s') =
       [(''in1'', InstallmentStatus.PAID), (''in2'', OVERDUE)] \<and>
     map fc_status (contracts s') = [FinancingStatus.COMPLETED]"
  by (simp add: sale_runs Let_def)

section \<open>Properties\<close>

text \<open>C10: A collected installment: the installment becomes PAID, and the books of the customer's
  company gain the cash, lose the receivable, and owe the referrer the commission (the
  product's rate in percent of the installment, nothing without an eligible referrer) and the
  merchant the whole rest, so that the two liabilities add up to the cash collected; the
  marketer's commission row carries the same amount.\<close>

theorem collected_payment_is_shared:
  assumes "processPayment verify e iid ref s = (Inr (Collected r), s')"
    and "books_ok (book s)" "find_installment iid s = Some inst"
    and "find_contract (in_financingContractId inst) s = Some contract"
    and "0 \<le> commissionRateOf contract s" "commissionRateOf contract s \<le> 100" "0 \<le> in_amount inst"
  shows "(let A = in_amount inst; C = commissionAmountOf contract inst s;
      co = or_null (Option.bind (customerOf contract s) u_companyId) in
    map_option in_status (find_installment iid s') = Some InstallmentStatus.PAID \<and> books_ok (book s') \<and>
    0 \<le> C \<and> C \<le> A \<and>
    net_debit (book s') co ''PAYSTACK_CLEARING'' = net_debit (book s) co ''PAYSTACK_CLEARING'' + A \<and>
    net_debit (book s') co ''CUSTOMER_RECEIVABLE'' = net_debit (book s) co ''CUSTOMER_RECEIVABLE'' - A \<and>
    net_debit (book s') co ''COMMISSION_PAYABLE'' = net_debit (book s) co ''COMMISSION_PAYABLE'' - C \<and>
    net_debit (book s') co ''MERCHANT_PAYABLE'' = net_debit (book s) co ''MERCHANT_PAYABLE'' - (A - C) \<and>
    (\<forall>c n. c \<noteq> co \<longrightarrow> net_debit (book s') c n = net_debit (book s) c n) \<and>
    map cm_amount (commissions s') =
      map cm_amount (commissions s) @ (if earningReferrer contract s = None then [] else [C]))"
proof -
  let ?C = "commissionAmountOf contract inst s"
  obtain intent g t where t: "collect e inst contract intent ref g s = (Inr r, t)"
    "installments s' = installments t" "book s' = book t" "commissions s' = commissions t"
    using assms(1,3,4) by (elim processPayment_collected) auto
  note c = collect_ok[OF t(1)]
  have C0: "0 \<le> ?C" "?C \<le> in_amount inst"
    using assms(5-7) mult_left_mono[of "commissionRateOf contract s / 100" 1 "in_amount inst"]
    by (auto simp: commissionAmountOf_def split: option.splits)
  have paid: "map_option in_status (find_installment iid s') = Some InstallmentStatus.PAID"
    using assms(3) find_set[of _ "installments s" inst]
    by (simp add: find_installment_def t(2) c(1) payInstallment_def find_update_where)
  have bal: "totalDebits (paymentEntries a x) = totalCredits (paymentEntries a x)" for a x by simp
  have net: "net_debit (book s') co n = net_debit (book s) co n +
      (if or_null (Option.bind (customerOf contract s) u_companyId) = co
       then entries_net n (paymentEntries (in_amount inst) ?C) else 0)" for co n
    unfolding t(3) c(2) by (rule lb.net_post[OF assms(2) bal])
  have "books_ok (book s')" unfolding t(3) c(2) by (rule lb.inv_post[OF assms(2)])
  with C0 paid c(3) show ?thesis
    by (simp add: Let_def net paymentEntries_net[OF C0] t(4))
qed

theorem collected_payment_is_shared_witness:
  "net_debit (book (snd sample_job)) (Some ''co'') ''COMMISSION_PAYABLE'' = - 10 \<and>
   net_debit (book (snd sample_job)) (Some ''co'') ''MERCHANT_PAYABLE'' = - 90"
proof -
  obtain r s' where job: "sample_job = (Inr (Collected r), s')" using sample_job_ok by blast
  have n: "net_debit empty_ledger c n = 0" for c n
    by (simp add: net_debit_def find_account_def empty_ledger_def)
  have f: "find_installment ''in1'' (sample_sale 100) = Some (sample_installment ''in1'' 1 InstallmentStatus.DUE)"
    "find_contract (in_financingContractId (sample_installment ''in1'' 1 InstallmentStatus.DUE)) (sample_sale 100)
      = Some sample_contract"
    "commissionRateOf sample_contract (sample_sale 100) = 10" "book (sample_sale 100) = empty_ledger"
    "commissionAmountOf sample_contract (sample_installment ''in1'' 1 InstallmentStatus.DUE) (sample_sale 100) = 10"
    "customerOf sample_contract (sample_sale 100) = Some (sample_buyer ''cust'' CUSTOMER (Some ''mk''))"
    "in_amount (sample_installment ''in1'' 1 InstallmentStatus.DUE) = 100"
    by (simp_all add: sale_runs)
  show ?thesis
    using collected_payment_is_shared[OF job[unfolded sample_job_def] _ f(1,2)] n
    by (simp add: f books_ok_empty Let_def job sample_buyer_def or_null_def del: One_nat_def)
qed

text \<open>C11: The worker collects an installment once: whatever payment job runs for it after a
  collection, no payment, commission, ledger line or contract changes any more.\<close>

theorem installment_is_collected_once:
  assumes "processPayment verify e iid ref s = (Inr (Collected r), s')"
  shows "case processPayment verify' e' iid ref' s' of (x, t) \<Rightarrow>
    (\<forall>r'. x \<noteq> Inr (Collected r')) \<and> payments t = payments s' \<and> installments t = installments s' \<and>
    commissions t = commissions s' \<and> contracts t = contracts s' \<and> book t = book s'"
proof -
  from assms obtain inst contract intent g t where t: "find_installment iid s = Some inst"
    "collect e inst contract intent ref g s = (Inr r, t)" "installments s' = installments t"
    by (elim processPayment_collected) auto
  then obtain x where "find_installment iid s' = Some x" "in_status x = InstallmentStatus.PAID"
    using find_set[of "\<lambda>i. in_installmentId i = iid" "installments s" inst] collect_ok(1)[OF t(2)]
    by (simp add: find_installment_def payInstallment_def find_update_where)
  then show ?thesis
    by (auto simp: processPayment_def dest: markSuccessLenient_frame split: option.splits prod.splits sum.splits)
qed

theorem installment_is_collected_once_witness:
  "book (snd (processPayment sample_verify (sample_clock CHR ''z'' 6000) ''in1'' ''ref'' (snd sample_job)))
     = book (snd sample_job)"
proof -
  obtain r s' where job: "sample_job = (Inr (Collected r), s')" using sample_job_ok by blast
  from installment_is_collected_once[OF job[unfolded sample_job_def], of sample_verify "sample_clock CHR ''z'' 6000" "''ref''"]
  show ?thesis by (simp add: job split_beta)
qed

lemma nextPending_none:
  "nextPending cid s = None \<longleftrightarrow> filter (\<lambda>i. in_financingContractId i = cid \<and>
     in_status i = InstallmentStatus.PENDING) (installments s) = []"
proof -
  have c: "(case ys of [] \<Rightarrow> None | y # zs \<Rightarrow> Some y) = None \<longleftrightarrow> ys = []" for ys :: "installment_row list"
    by (cases ys) auto
  have srt: "sort_key in_sequence xs = [] \<longleftrightarrow> xs = []" for xs by (metis length_0_conv length_sort)
  show ?thesis unfolding nextPending_def c srt ..
qed

text \<open>The status of the contract after a collection.\<close>

lemma collected_contract_status:
  assumes "processPayment verify e iid ref s = (Inr (Collected r), s')"
    and "find_installment iid s = Some inst" "find_contract (in_financingContractId inst) s = Some contract"
  shows "map_option fc_status (find_contract (fc_contractId contract) s') =
    Some (if \<exists>i \<in> set (installments s'). in_financingContractId i = fc_contractId contract \<and>
               in_status i = InstallmentStatus.PENDING
          then fc_status contract else FinancingStatus.COMPLETED)"
proof -
  obtain intent g t where t: "collect e inst contract intent ref g s = (Inr r, t)"
    "installments s' = installments t" "contracts s' = contracts t"
    using assms by (elim processPayment_collected) auto
  note c = collect_ok[OF t(1)]
  let ?p = "payInstallment e (in_installmentId inst) s"
  have key: "fc_contractId contract = in_financingContractId inst"
    using assms(3) find_set unfolding find_contract_def by fast
  have none: "nextPending (fc_contractId contract) ?p = None \<longleftrightarrow>
      \<not> (\<exists>i \<in> set (installments s'). in_financingContractId i = fc_contractId contract \<and>
           in_status i = InstallmentStatus.PENDING)"
    unfolding t(2) c(1) nextPending_none by (auto simp: filter_empty_conv)
  have found: "find (\<lambda>x. fc_contractId x = fc_contractId contract) (contracts s) = Some contract"
    using assms(3) by (simp add: find_contract_def key)
  have upd: "find (\<lambda>x. fc_contractId x = fc_contractId contract)
      (update_where (\<lambda>x. fc_contractId x = fc_contractId contract)
        (\<lambda>c. c\<lparr>fc_status := FinancingStatus.COMPLETED, fc_completedAt := Some (env_now e)\<rparr>) (contracts s))
    = Some (contract\<lparr>fc_status := FinancingStatus.COMPLETED, fc_completedAt := Some (env_now e)\<rparr>)"
    by (subst find_update_where) (simp_all add: found)
  show ?thesis
  proof (cases "nextPending (fc_contractId contract) ?p = None")
    case True
    then have "contracts s' = update_where (\<lambda>x. fc_contractId x = fc_contractId contract)
        (\<lambda>c. c\<lparr>fc_status := FinancingStatus.COMPLETED, fc_completedAt := Some (env_now e)\<rparr>) (contracts s)"
      by (simp add: t(3) c(4) completeIfDone_def)
    note rows = this
    have np: "\<not> (\<exists>i \<in> set (installments s'). in_financingContractId i = fc_contractId contract \<and>
        in_status i = InstallmentStatus.PENDING)"
      using True none by blast
    show ?thesis unfolding if_not_P[OF np] find_contract_def rows upd by simp
  next
    case False
    then have "contracts s' = contracts s" unfolding t(3) c(4) completeIfDone_def if_not_P[OF False] by simp
    note rows = this
    have np: "\<exists>i \<in> set (installments s'). in_financingContractId i = fc_contractId contract \<and>
        in_status i = InstallmentStatus.PENDING"
      using False unfolding none by (rule notnotD)
    show ?thesis unfolding if_P[OF np] find_contract_def rows found by simp
  qed
qed

text \<open>
  A collection completes the contract exactly when no installment of it is PENDING any
  more; installments that are DUE or OVERDUE are not looked at.  In the witness the second
  installment of the contract is overdue and unpaid when the contract becomes COMPLETED.\<close>

theorem contract_completes_when_nothing_is_pending:
  assumes "processPayment verify e iid ref s = (Inr (Collected r), s')"
    and "find_installment iid s = Some inst" "find_contract (in_financingContractId inst) s = Some contract"
  shows "map_option fc_status (find_contract (fc_contractId contract) s') =
    Some (if \<exists>i \<in> set (installments s'). in_financingContractId i = fc_contractId contract \<and>
               in_status i = InstallmentStatus.PENDING
          then fc_status contract else FinancingStatus.COMPLETED)"
  using assms by (rule collected_contract_status)

theorem contract_completes_when_nothing_is_pending_witness:
  "map_option fc_status (find_contract ''fc'' (snd sample_job)) = Some FinancingStatus.COMPLETED \<and>
   map (\<lambda>i. (in_installmentId i, in_status i)) (installments (snd sample_job)) =
     [(''in1'', InstallmentStatus.PAID), (''in2'', OVERDUE)]"
proof -
  obtain r s' where job: "sample_job = (Inr (Collected r), s')"
    and rows: "map (\<lambda>i. (in_installmentId i, in_status i)) (installments s') =
      [(''in1'', InstallmentStatus.PAID), (''in2'', OVERDUE)]"
    using sample_job_ok by auto
  have f: "find_installment ''in1'' (sample_sale 100) = Some (sample_installment ''in1'' 1 InstallmentStatus.DUE)"
    "find_contract (in_financingContractId (sample_installment ''in1'' 1 InstallmentStatus.DUE)) (sample_sale 100)
      = Some sample_contract"
    "fc_contractId sample_contract = ''fc''"
    by (simp_all add: sale_runs)
  have "\<not> (\<exists>i \<in> set (installments s'). in_status i = InstallmentStatus.PENDING)"
    using rows by (auto simp: map_eq_Cons_conv)
  with contract_completes_when_nothing_is_pending[OF job[unfolded sample_job_def] f(1,2)] rows show ?thesis
    by (auto simp: f job simp del: One_nat_def)
qed

text \<open>
  The webhook enqueues a charge exactly when its metadata names an installment, an intent
  has its reference, that intent is for the same installment and not terminal, and the charged
  kobo equal the intent's amount as JavaScript converts it; in every other case it changes
  nothing.\<close>

theorem charge_is_enqueued_iff:
  assumes "intents_ok s"
  shows "(fst (handleInstallmentCharge e c s) = Inr Enqueued \<longleftrightarrow>
      (\<exists>i intent. ch_installmentId c = Some i \<and> i \<noteq> [] \<and> findByReference (ch_reference c) s = Some intent \<and>
         pi_installmentId intent = Some i \<and> toKobo (pi_amount intent) = ch_amount c \<and>
         pi_status intent \<notin> TERMINAL_STATUSES)) \<and>
    (fst (handleInstallmentCharge e c s) = Inr Enqueued \<or> snd (handleInstallmentCharge e c s) = s)"
    (is "(?l \<longleftrightarrow> ?r) \<and> ?same")
proof -
  have find: "find_intent (pi_intentId intent) s = Some intent"
    if "findByReference (ch_reference c) s = Some intent" for intent
    using that assms find_set[of _ "intents s" intent] find_unique_key[of pi_intentId "intents s" intent]
    by (auto simp: findByReference_def find_intent_def intents_ok_def)
  have mark: "(\<exists>r t. markProcessing e (pi_intentId intent) s = (Inr r, t)) \<longleftrightarrow> non_terminal intent"
    if f: "findByReference (ch_reference c) s = Some intent" for intent
  proof
    assume "non_terminal intent"
    with transition_same_reference[OF assms find[OF f], of "\<lambda>r. r" e PROCESSING]
    show "\<exists>r t. markProcessing e (pi_intentId intent) s = (Inr r, t)" by (auto simp: markProcessing_def)
  next
    assume m: "\<exists>r t. markProcessing e (pi_intentId intent) s = (Inr r, t)"
    show "non_terminal intent"
    proof (rule ccontr)
      assume n: "\<not> non_terminal intent"
      have "x = intent" if "x \<in> set (intents s)" "pi_intentId x = pi_intentId intent" for x
      proof -
        have "find (\<lambda>y. pi_intentId y = pi_intentId x) (intents s) = Some x"
          using assms that(1) by (intro find_unique_key) (simp_all add: intents_ok_def)
        then have "Some x = Some intent"
          using find[OF f] unfolding find_intent_def that(2) by (rule trans[OF sym])
        then show ?thesis by simp
      qed
      with n have "count_where (\<lambda>r. pi_intentId r = pi_intentId intent \<and> non_terminal r) (intents s) = 0"
        by (auto simp: count_where_def filter_empty_conv)
      with m show False by (auto simp: markProcessing_def transitionStatus_def Let_def split: option.splits)
    qed
  qed
  have same: ?same
    by (auto simp: handleInstallmentCharge_def markProcessing_def dest: transition_error
        split: option.splits if_splits prod.splits sum.splits)
  have "?l \<Longrightarrow> ?r"
  proof -
    assume l: ?l
    then obtain i intent r t where i: "or_null (ch_installmentId c) = Some i"
      "findByReference (ch_reference c) s = Some intent" "pi_installmentId intent = Some i"
      "toKobo (pi_amount intent) = ch_amount c" "markProcessing e (pi_intentId intent) s = (Inr r, t)"
      by (auto simp: handleInstallmentCharge_def split: option.splits if_splits prod.splits sum.splits)
    moreover have "non_terminal intent" using mark[OF i(2)] i(5) by blast
    ultimately show ?r by (auto simp: or_null_def non_terminal_def split: option.splits if_splits)
  qed
  moreover have "?r \<Longrightarrow> ?l"
  proof -
    assume ?r
    then obtain i intent where i: "ch_installmentId c = Some i" "i \<noteq> []"
      "findByReference (ch_reference c) s = Some intent" "pi_installmentId intent = Some i"
      "toKobo (pi_amount intent) = ch_amount c" "non_terminal intent"
      by (auto simp: non_terminal_def)
    with mark[OF i(3)] obtain r t where "markProcessing e (pi_intentId intent) s = (Inr r, t)" by auto
    with i show ?l by (simp add: handleInstallmentCharge_def or_null_def)
  qed
  ultimately show ?thesis using same by blast
qed

theorem charge_is_enqueued_iff_witness:
  "fst (handleInstallmentCharge (sample_clock CHR ''h'' 3000)
     \<lparr>ch_reference = ''ref'', ch_amount = 10000, ch_installmentId = Some ''in1''\<rparr> (sample_sale 100)) = Inr Enqueued"
proof -
  have "intents_ok (sample_sale 100)" by (simp add: intents_ok_def sample_sale_def List.map_filter_def)
  moreover have "findByReference ''ref'' (sample_sale 100) = Some (sample_intent 100)"
    "pi_installmentId (sample_intent 100) = Some ''in1''" "pi_amount (sample_intent 100) = 100"
    "pi_status (sample_intent 100) \<notin> TERMINAL_STATUSES"
    by (simp_all add: sale_runs)
  moreover have "toKobo 100 = 10000" using toKobo_whole[of 100] by simp
  ultimately show ?thesis
    using charge_is_enqueued_iff[of "sample_sale 100" "sample_clock CHR ''h'' 3000"
        "\<lparr>ch_reference = ''ref'', ch_amount = 10000, ch_installmentId = Some ''in1''\<rparr>"]
    by simp
qed

text \<open>
  An intent of 19.99 can never be collected: \<open>Number(amount) * 100\<close> is
  \<open>1998.9999999999998\<close>, and Paystack reports whole kobo, so the amount check refuses every
  possible charge of this intent, the correct 1999 included.\<close>

theorem cents_charge_is_never_enqueued:
  assumes "\<And>r. r \<in> set (intents s) \<Longrightarrow> pi_reference r = Some (ch_reference c) \<Longrightarrow> pi_amount r = 1999/100"
    and "ch_amount c = of_int kobo"
  shows "fst (handleInstallmentCharge e c s) \<noteq> Inr Enqueued \<and> snd (handleInstallmentCharge e c s) = s"
proof -
  have ne: "toKobo (1999/100) \<noteq> of_int kobo"
  proof
    assume "toKobo (1999/100) = of_int kobo"
    then have "of_int ((1999 - kobo) * 2 ^ 42) = (of_int 1 :: rat)"
      by (simp add: toKobo_1999 field_simps)
    then have one: "(1999 - kobo) * 2 ^ 42 = 1" unfolding of_int_eq_iff .
    have "even ((1999 - kobo) * 2 ^ 42)" by simp
    then have "even (1 :: int)" unfolding one .
    then show False by simp
  qed
  have "toKobo (pi_amount r) \<noteq> ch_amount c" if f: "findByReference (ch_reference c) s = Some r" for r
  proof -
    have "pi_amount r = 1999/100"
      using f assms(1) unfolding findByReference_def by (auto dest!: find_set)
    then show ?thesis using ne assms(2) by (simp only: not_False_eq_True)
  qed
  then show ?thesis by (auto simp: handleInstallmentCharge_def split: option.splits)
qed

theorem cents_charge_is_never_enqueued_witness:
  "fst (handleInstallmentCharge (sample_clock CHR ''h'' 3000)
     \<lparr>ch_reference = ''ref'', ch_amount = 1999, ch_installmentId = Some ''in1''\<rparr> (sample_sale (1999/100)))
    \<noteq> Inr Enqueued"
  using cents_charge_is_never_enqueued[of "sample_sale (1999/100)"
      "\<lparr>ch_reference = ''ref'', ch_amount = 1999, ch_installmentId = Some ''in1''\<rparr>" 1999 "sample_clock CHR ''h'' 3000"]
  by (simp add: sample_sale_def sample_intent_def new_intent_def sample_params_def)

end
