(* ===== verification/JsDate.thy ===== *)
theory JsDate
  imports Prelude
begin

text \<open>
  JavaScript dates as the scheduling code uses them, after the definitions of the language
  standard: an instant is milliseconds since 1970, and the getters and setters work on the
  local time, here at a fixed offset \<open>tz\<close> from UTC.  Months count from 0.
\<close>

section \<open>Days, years and months\<close>

definition msPerDay :: int where
  "msPerDay = 24 * 60 * 60 * 1000"

definition DayFromYear :: "int \<Rightarrow> int" where
  "DayFromYear y = 365 * (y - 1970) + (y - 1969) div 4 - (y - 1901) div 100 + (y - 1601) div 400"

definition leap :: "int \<Rightarrow> bool" where
  "leap y = (y mod 4 = 0 \<and> (y mod 100 \<noteq> 0 \<or> y mod 400 = 0))"

text \<open>The largest year that starts on or before the day: an estimate, corrected by one.\<close>

definition YearFromDay :: "int \<Rightarrow> int" where
  "YearFromDay d =
     (let y = 1970 + (d * 400) div 146097 in
      if DayFromYear (y + 1) \<le> d then y + 1 else if d < DayFromYear y then y - 1 else y)"

text \<open>The day within the year on which a month starts.\<close>

definition monthStart :: "bool \<Rightarrow> int \<Rightarrow> int" where
  "monthStart lp m =
     (if m \<le> 0 then 0 else if m = 1 then 31 else
      (if m = 2 then 59 else if m = 3 then 90 else if m = 4 then 120 else if m = 5 then 151
       else if m = 6 then 181 else if m = 7 then 212 else if m = 8 then 243 else if m = 9 then 273
       else if m = 10 then 304 else if m = 11 then 334 else 365) + (if lp then 1 else 0))"

definition daysInMonth :: "int \<Rightarrow> int \<Rightarrow> int" where
  "daysInMonth y m = monthStart (leap y) (m + 1) - monthStart (leap y) m"

definition monthOfDay :: "bool \<Rightarrow> int \<Rightarrow> int" where
  "monthOfDay lp n =
     (if n < monthStart lp 1 then 0 else if n < monthStart lp 2 then 1 else if n < monthStart lp 3 then 2
      else if n < monthStart lp 4 then 3 else if n < monthStart lp 5 then 4 else if n < monthStart lp 6 then 5
      else if n < monthStart lp 7 then 6 else if n < monthStart lp 8 then 7 else if n < monthStart lp 9 then 8
      else if n < monthStart lp 10 then 9 else if n < monthStart lp 11 then 10 else 11)"

definition MonthFromDay :: "int \<Rightarrow> int" where
  "MonthFromDay d = monthOfDay (leap (YearFromDay d)) (d - DayFromYear (YearFromDay d))"

definition DateFromDay :: "int \<Rightarrow> int" where
  "DateFromDay d = d - DayFromYear (YearFromDay d) - monthStart (leap (YearFromDay d)) (MonthFromDay d) + 1"

definition MakeDay :: "int \<Rightarrow> int \<Rightarrow> int \<Rightarrow> int" where
  "MakeDay year month date =
     (let ym = year + month div 12; mn = month mod 12
      in DayFromYear ym + monthStart (leap ym) mn + date - 1)"

section \<open>The calendar is consistent\<close>

lemma int_div_step:
  fixes k n :: int
  assumes "0 < n"
  shows "(k + 1) div n = k div n + (if (k + 1) mod n = 0 then 1 else 0)"
proof (cases "k mod n = n - 1")
  case True
  have "n * (k div n + 1) = n * (k div n) + n" by (simp add: distrib_left)
  with mult_div_mod_eq[of n k] True have "k + 1 = n * (k div n + 1) + 0" by linarith
  then have "(k + 1) div n = k div n + 1" "(k + 1) mod n = 0"
    using assms by (metis int_div_pos_eq order_refl, metis int_mod_pos_eq order_refl)
  then show ?thesis by simp
next
  case False
  have r: "0 \<le> k mod n + 1" "k mod n + 1 < n" using False assms pos_mod_bound[of n k] pos_mod_sign[of n k] by linarith+
  have "k + 1 = n * (k div n) + (k mod n + 1)" using mult_div_mod_eq[of n k] by linarith
  then have "(k + 1) div n = k div n" "(k + 1) mod n = k mod n + 1"
    using r by (metis int_div_pos_eq, metis int_mod_pos_eq)
  moreover have "k mod n + 1 \<noteq> 0" using pos_mod_sign[OF assms, of k] by linarith
  ultimately show ?thesis by simp
qed

lemma int_div_bounds:
  fixes z n :: int
  assumes "0 < n"
  shows "n * (z div n) \<le> z \<and> z < n * (z div n) + n"
  using mult_div_mod_eq[of n z] pos_mod_bound[OF assms, of z] pos_mod_sign[OF assms, of z] by linarith

lemma DayFromYear_step: "DayFromYear (y + 1) = DayFromYear y + (if leap y then 366 else 365)"
proof -
  have e: "y - 1969 + 1 = y + (- 492) * 4" "y - 1901 + 1 = y + (- 19) * 100" "y - 1601 + 1 = y + (- 4) * 400" by simp_all
  have d: "(y - 1969 + 1) mod 4 = y mod 4" "(y - 1901 + 1) mod 100 = y mod 100" "(y - 1601 + 1) mod 400 = y mod 400"
    unfolding e by (rule mod_mult_self1)+
  have c: "y mod 400 = 0 \<Longrightarrow> y mod 100 = 0" "y mod 100 = 0 \<Longrightarrow> y mod 4 = 0"
    using dvd_trans[of 100 400 y] dvd_trans[of 4 100 y] by (simp_all add: mod_eq_0_iff_dvd)
  have s: "y + 1 - k = y - k + 1" for k by simp
  have st: "(y + 1 - 1969) div 4 = (y - 1969) div 4 + (if y mod 4 = 0 then 1 else 0)"
    "(y + 1 - 1901) div 100 = (y - 1901) div 100 + (if y mod 100 = 0 then 1 else 0)"
    "(y + 1 - 1601) div 400 = (y - 1601) div 400 + (if y mod 400 = 0 then 1 else 0)"
    unfolding s d[symmetric] by (rule int_div_step, rule zero_less_numeral)+
  show ?thesis
    unfolding DayFromYear_def st leap_def using c
    by (cases "y mod 4 = 0"; cases "y mod 100 = 0"; cases "y mod 400 = 0"; simp)
qed

lemma DayFromYear_mono: "y \<le> z \<Longrightarrow> DayFromYear y \<le> DayFromYear z"
proof (induction "nat (z - y)" arbitrary: z)
  case (Suc n)
  then have "DayFromYear y \<le> DayFromYear (z - 1)" by simp
  also have "\<dots> \<le> DayFromYear z" using DayFromYear_step[of "z - 1"] by simp
  finally show ?case .
qed simp

lemma DayFromYear_approx:
  "146097 * (y - 1970) - 600 \<le> 400 * DayFromYear y" "400 * DayFromYear y \<le> 146097 * (y - 1970) + 600"
proof -
  define a b c where abc: "a = (y - 1969) div 4" "b = (y - 1901) div 100" "c = (y - 1601) div 400"
  have r: "4 * a \<le> y - 1969" "y - 1969 < 4 * a + 4" "100 * b \<le> y - 1901" "y - 1901 < 100 * b + 100"
    "400 * c \<le> y - 1601" "y - 1601 < 400 * c + 400"
    unfolding abc using int_div_bounds[of 4 "y - 1969"] int_div_bounds[of 100 "y - 1901"] int_div_bounds[of 400 "y - 1601"]
    by simp_all
  show "146097 * (y - 1970) - 600 \<le> 400 * DayFromYear y" "400 * DayFromYear y \<le> 146097 * (y - 1970) + 600"
    unfolding DayFromYear_def abc[symmetric] using r by (simp_all add: algebra_simps)
qed

lemma YearFromDay: "DayFromYear (YearFromDay d) \<le> d \<and> d < DayFromYear (YearFromDay d + 1)"
proof -
  define y where "y = 1970 + (d * 400) div 146097"
  have q: "146097 * (y - 1970) \<le> d * 400" "d * 400 < 146097 * (y - 1970) + 146097"
    using int_div_bounds[of 146097 "d * 400"] unfolding y_def by simp_all
  have lo: "DayFromYear (y - 1) \<le> d" using q DayFromYear_approx[of "y - 1"] by (simp add: algebra_simps)
  have hi: "d < DayFromYear (y + 2)" using q DayFromYear_approx[of "y + 2"] by (simp add: algebra_simps)
  show ?thesis
    using lo hi by (simp add: YearFromDay_def Let_def y_def[symmetric] not_le not_less add.commute)
qed

lemma YearFromDay_unique:
  assumes "DayFromYear y \<le> d" "d < DayFromYear (y + 1)"
  shows "YearFromDay d = y"
proof (rule ccontr)
  assume "YearFromDay d \<noteq> y"
  then consider "YearFromDay d + 1 \<le> y" | "y + 1 \<le> YearFromDay d" by linarith
  then show False
    using DayFromYear_mono YearFromDay[of d] assms by cases (meson leD le_less_trans less_le_trans)+
qed

text \<open>A valid date is read back from the day it makes.\<close>

lemma month_cases:
  fixes m :: int
  assumes "0 \<le> m" "m \<le> 11"
  shows "m = 0 \<or> m = 1 \<or> m = 2 \<or> m = 3 \<or> m = 4 \<or> m = 5 \<or> m = 6 \<or> m = 7 \<or> m = 8 \<or> m = 9 \<or> m = 10 \<or> m = 11"
  using assms by presburger

lemma daysInMonth_bounds: "0 \<le> m \<Longrightarrow> m \<le> 11 \<Longrightarrow> 28 \<le> daysInMonth y m \<and> daysInMonth y m \<le> 31"
  unfolding daysInMonth_def
  by (drule (1) month_cases, elim disjE; cases "leap y"; simp add: monthStart_def)

lemma monthOfDay_range: "0 \<le> monthOfDay lp n \<and> monthOfDay lp n \<le> 11"
  by (simp add: monthOfDay_def)

lemma monthOfDay_start:
  assumes "0 \<le> n" "n < (if lp then 366 else 365)"
  shows "monthStart lp (monthOfDay lp n) \<le> n \<and> n < monthStart lp (monthOfDay lp n + 1)"
proof -
  have st: "monthStart lp 0 = 0" "monthStart lp 12 = (if lp then 366 else 365)" by (simp_all add: monthStart_def)
  consider "n < monthStart lp 1" | "monthStart lp 1 \<le> n" "n < monthStart lp 2"
    | "monthStart lp 2 \<le> n" "n < monthStart lp 3" | "monthStart lp 3 \<le> n" "n < monthStart lp 4"
    | "monthStart lp 4 \<le> n" "n < monthStart lp 5" | "monthStart lp 5 \<le> n" "n < monthStart lp 6"
    | "monthStart lp 6 \<le> n" "n < monthStart lp 7" | "monthStart lp 7 \<le> n" "n < monthStart lp 8"
    | "monthStart lp 8 \<le> n" "n < monthStart lp 9" | "monthStart lp 9 \<le> n" "n < monthStart lp 10"
    | "monthStart lp 10 \<le> n" "n < monthStart lp 11" | "monthStart lp 11 \<le> n"
    by linarith
  then show ?thesis
    using assms st by cases (cases lp; simp add: monthOfDay_def; simp add: monthStart_def)+
qed

lemma monthStart_mono: "m \<le> k \<Longrightarrow> monthStart lp m \<le> monthStart lp k"
proof (induction "nat (k - m)" arbitrary: k)
  case (Suc n)
  then have "monthStart lp m \<le> monthStart lp (k - 1)" by simp
  also have "\<dots> \<le> monthStart lp k" by (simp add: monthStart_def)
  finally show ?case .
qed simp

lemma monthOfDay_unique:
  assumes "0 \<le> m" "m \<le> 11" "monthStart lp m \<le> n" "n < monthStart lp (m + 1)"
  shows "monthOfDay lp n = m"
proof (rule ccontr)
  assume ne: "monthOfDay lp n \<noteq> m"
  have "0 \<le> n" using assms(3) monthStart_mono[of 0 m lp] assms(1) by (simp add: monthStart_def)
  moreover have "n < (if lp then 366 else 365)"
    using assms(2,4) monthStart_mono[of "m + 1" 12 lp] by (simp add: monthStart_def split: if_splits)
  ultimately have st: "monthStart lp (monthOfDay lp n) \<le> n" "n < monthStart lp (monthOfDay lp n + 1)"
    using monthOfDay_start by blast+
  from ne consider "monthOfDay lp n + 1 \<le> m" | "m + 1 \<le> monthOfDay lp n" by linarith
  then show False
  proof cases
    case 1
    from monthStart_mono[OF this, of lp] st assms(3) show False by linarith
  next
    case 2
    from monthStart_mono[OF this, of lp] st assms(4) show False by linarith
  qed
qed

lemma MakeDay_read_back:
  assumes "0 \<le> m" "m \<le> 11" "1 \<le> k" "k \<le> daysInMonth y m"
  shows "YearFromDay (MakeDay y m k) = y" "MonthFromDay (MakeDay y m k) = m" "DateFromDay (MakeDay y m k) = k"
proof -
  let ?d = "MakeDay y m k"
  have d: "?d = DayFromYear y + monthStart (leap y) m + k - 1"
    using assms by (simp add: MakeDay_def Let_def)
  have r: "0 \<le> monthStart (leap y) m + k - 1" "monthStart (leap y) m + k - 1 < (if leap y then 366 else 365)"
    using month_cases[OF assms(1,2)] assms(3,4) unfolding daysInMonth_def
    by (elim disjE; cases "leap y"; simp add: monthStart_def)+
  show y: "YearFromDay ?d = y"
    by (rule YearFromDay_unique) (use r d DayFromYear_step[of y] in auto)
  show m: "MonthFromDay ?d = m"
    unfolding MonthFromDay_def y
    by (rule monthOfDay_unique[OF assms(1,2)]) (use d assms(3,4) in \<open>auto simp: daysInMonth_def\<close>)
  show "DateFromDay ?d = k"
    unfolding DateFromDay_def y m by (simp add: d)
qed

text \<open>Every day is a valid date, and makes itself.\<close>

lemma MonthFromDay_range: "0 \<le> MonthFromDay d \<and> MonthFromDay d \<le> 11"
  by (simp add: MonthFromDay_def monthOfDay_range)

lemma DateFromDay_range: "1 \<le> DateFromDay d \<and> DateFromDay d \<le> daysInMonth (YearFromDay d) (MonthFromDay d)"
proof -
  let ?y = "YearFromDay d"
  have "0 \<le> d - DayFromYear ?y" "d - DayFromYear ?y < (if leap ?y then 366 else 365)"
    using YearFromDay[of d] DayFromYear_step[of ?y] by auto
  from monthOfDay_start[OF this] show ?thesis by (simp add: DateFromDay_def daysInMonth_def MonthFromDay_def)
qed

lemma MakeDay_of_parts: "MakeDay (YearFromDay d) (MonthFromDay d) (DateFromDay d) = d"
  using MonthFromDay_range[of d] by (simp add: MakeDay_def Let_def DateFromDay_def)

section \<open>Local time\<close>

definition localDay :: "int \<Rightarrow> time \<Rightarrow> int" where
  "localDay tz t = (t + tz) div msPerDay"

definition timeInDay :: "int \<Rightarrow> time \<Rightarrow> int" where
  "timeInDay tz t = (t + tz) mod msPerDay"

definition atDay :: "int \<Rightarrow> int \<Rightarrow> int \<Rightarrow> time" where
  "atDay tz d tod = d * msPerDay + tod - tz"

definition getFullYear :: "int \<Rightarrow> time \<Rightarrow> int" where
  "getFullYear tz t = YearFromDay (localDay tz t)"

definition getMonth :: "int \<Rightarrow> time \<Rightarrow> int" where
  "getMonth tz t = MonthFromDay (localDay tz t)"

definition getDate :: "int \<Rightarrow> time \<Rightarrow> int" where
  "getDate tz t = DateFromDay (localDay tz t)"

definition setDate :: "int \<Rightarrow> time \<Rightarrow> int \<Rightarrow> time" where
  "setDate tz t date = atDay tz (MakeDay (getFullYear tz t) (getMonth tz t) date) (timeInDay tz t)"

definition setMonth :: "int \<Rightarrow> time \<Rightarrow> int \<Rightarrow> time" where
  "setMonth tz t month = atDay tz (MakeDay (getFullYear tz t) month (getDate tz t)) (timeInDay tz t)"

definition newDate :: "int \<Rightarrow> int \<Rightarrow> int \<Rightarrow> int \<Rightarrow> time" where
  "newDate tz year month date = atDay tz (MakeDay year month date) 0"

definition setHours0 :: "int \<Rightarrow> time \<Rightarrow> time" where
  "setHours0 tz t = atDay tz (localDay tz t) 0"

lemma timeInDay_range: "0 \<le> timeInDay tz t \<and> timeInDay tz t < msPerDay"
  by (simp add: timeInDay_def msPerDay_def)

lemma localDay_atDay [simp]: "0 \<le> tod \<Longrightarrow> tod < msPerDay \<Longrightarrow> localDay tz (atDay tz d tod) = d"
  by (simp add: localDay_def atDay_def msPerDay_def)

lemma timeInDay_atDay [simp]: "0 \<le> tod \<Longrightarrow> tod < msPerDay \<Longrightarrow> timeInDay tz (atDay tz d tod) = tod"
  by (simp add: timeInDay_def atDay_def msPerDay_def)

lemma date_at_MakeDay:
  assumes "0 \<le> m" "m \<le> 11" "1 \<le> k" "k \<le> daysInMonth y m" "0 \<le> tod" "tod < msPerDay"
  shows "getFullYear tz (atDay tz (MakeDay y m k) tod) = y" "getMonth tz (atDay tz (MakeDay y m k) tod) = m"
    "getDate tz (atDay tz (MakeDay y m k) tod) = k"
  using assms MakeDay_read_back[OF assms(1-4)] by (simp_all add: getFullYear_def getMonth_def getDate_def)

lemma getMonth_range: "0 \<le> getMonth tz t" "getMonth tz t \<le> 11"
  using MonthFromDay_range by (simp_all add: getMonth_def)

lemma getDate_range: "1 \<le> getDate tz t" "getDate tz t \<le> daysInMonth (getFullYear tz t) (getMonth tz t)"
  using DateFromDay_range by (simp_all add: getDate_def getFullYear_def getMonth_def)

text \<open>Day 0 of a month is the last day of the month before.\<close>

lemma MakeDay_carry: "MakeDay y (m + 12 * k) d = MakeDay (y + k) m d"
  by (simp add: MakeDay_def Let_def add.assoc)

lemma MakeDay_last:
  assumes "0 \<le> m" "m \<le> 11"
  shows "MakeDay y (m + 1) 0 = MakeDay y m (daysInMonth y m)"
proof (cases "m = 11")
  case True
  have "MakeDay y 12 0 = MakeDay (y + 1) 0 0" using MakeDay_carry[of y 0 1 0] by simp
  with True show ?thesis
    using DayFromYear_step[of y] by (simp add: MakeDay_def daysInMonth_def monthStart_def)
next
  case False
  with assms show ?thesis by (simp add: MakeDay_def daysInMonth_def)
qed

lemma getDate_last:
  assumes "0 \<le> m" "m \<le> 11"
  shows "getDate tz (newDate tz y (m + 1) 0) = daysInMonth y m"
  using daysInMonth_bounds[OF assms, of y] assms
  by (simp add: newDate_def MakeDay_last[OF assms] date_at_MakeDay msPerDay_def)

end
