(* ===== verification/Installments.thy ===== *)
theory Installments
  imports PaymentIntent PaymentWorker JsDate
begin

text \<open>
  Installments: the eligibility rules of \<open>src/core/services/installment-eligibility.helper.ts\<close>
  and \<open>src/core/services/installment.service.ts\<close>: the schedule of a contract, access to it,
  and starting the payment of an installment.  \<open>tz\<close> is the server's offset from UTC.
\<close>

section \<open>Eligibility\<close>

definition PAYMENT_WINDOW_DAYS :: int where
  "PAYMENT_WINDOW_DAYS = 3"

datatype EligibilityState = AVAILABLE | TOO_EARLY | WAITING_FOR_PREVIOUS | PAID | CONTRACT_COMPLETED

datatype PaymentStatusLabel = Upcoming | DueToday | Overdue | Paid

record marker =
  mk_installmentId :: ident
  mk_sequence :: nat
  mk_dueDate :: time

record eligibility =
  el_installmentId :: ident
  el_canPay :: bool
  el_state :: EligibilityState
  el_reason :: "string option"
  el_isNextInstallment :: bool
  el_paymentWindowStarted :: bool
  el_availableFrom :: "time option"
  el_daysUntilDue :: int
  el_daysOverdue :: int
  el_isOverdue :: bool
  el_isDueToday :: bool
  el_isUpcoming :: bool
  el_paymentStatusLabel :: PaymentStatusLabel

definition waitingForPrevious :: "nat \<Rightarrow> string" where
  "waitingForPrevious n = ''Please settle Installment '' @ show_nat n @ '' first.''"

definition tooEarly :: string where
  "tooEarly = ''This installment will become available for payment 3 days before its due date.''"

definition contractCompleted :: string where
  "contractCompleted = ''All installments for this financing contract have already been paid.''"

text \<open>The quotient is a whole number of days, so the division of numbers is exact.\<close>

definition diffInCalendarDays :: "int \<Rightarrow> time \<Rightarrow> time \<Rightarrow> int" where
  "diffInCalendarDays tz date reference =
     jsRound (of_int (setHours0 tz date - setHours0 tz reference) / of_int msPerDay)"

definition availableFromDate :: "int \<Rightarrow> time \<Rightarrow> time" where
  "availableFromDate tz dueDate =
     (let d = setHours0 tz dueDate in setDate tz d (getDate tz d - PAYMENT_WINDOW_DAYS))"

definition computeInstallmentEligibility ::
  "int \<Rightarrow> installment_row \<Rightarrow> marker option \<Rightarrow> time \<Rightarrow> eligibility" where
  "computeInstallmentEligibility tz inst nextUnpaid referenceDate =
     (let isPaid = (in_status inst = InstallmentStatus.PAID);
          diffDays = diffInCalendarDays tz (in_dueDate inst) referenceDate;
          isOverdue = (\<not> isPaid \<and> diffDays < 0);
          isDueToday = (diffDays = 0);
          base = \<lparr>el_installmentId = in_installmentId inst, el_canPay = False, el_state = EligibilityState.PAID,
            el_reason = None, el_isNextInstallment = False, el_paymentWindowStarted = False,
            el_availableFrom = None, el_daysUntilDue = diffDays,
            el_daysOverdue = (if isOverdue then \<bar>diffDays\<bar> else 0), el_isOverdue = isOverdue,
            el_isDueToday = isDueToday, el_isUpcoming = (0 < diffDays),
            el_paymentStatusLabel = (if isPaid then Paid else if isOverdue then Overdue
              else if isDueToday then DueToday else Upcoming)\<rparr>
      in if isPaid then base
         else
           (case nextUnpaid of
              None \<Rightarrow> base\<lparr>el_state := CONTRACT_COMPLETED, el_reason := Some contractCompleted\<rparr>
            | Some m \<Rightarrow>
                if in_installmentId inst \<noteq> mk_installmentId m
                then base\<lparr>el_state := WAITING_FOR_PREVIOUS, el_reason := Some (waitingForPrevious (mk_sequence m))\<rparr>
                else
                  (let started = (diffDays \<le> PAYMENT_WINDOW_DAYS);
                       b = base\<lparr>el_isNextInstallment := True, el_paymentWindowStarted := started,
                         el_availableFrom := Some (availableFromDate tz (in_dueDate inst))\<rparr>
                   in if started then b\<lparr>el_canPay := True, el_state := AVAILABLE\<rparr>
                      else b\<lparr>el_state := TOO_EARLY, el_reason := Some tooEarly\<rparr>)))"

definition markerOf :: "installment_row \<Rightarrow> marker" where
  "markerOf i = \<lparr>mk_installmentId = in_installmentId i, mk_sequence = in_sequence i, mk_dueDate = in_dueDate i\<rparr>"

definition firstUnpaid :: "installment_row list \<Rightarrow> installment_row option" where
  "firstUnpaid is = find (\<lambda>i. in_status i \<noteq> InstallmentStatus.PAID) (sort_key in_sequence is)"

definition computeContractInstallmentEligibility ::
  "int \<Rightarrow> installment_row list \<Rightarrow> time \<Rightarrow> (ident \<times> eligibility) list" where
  "computeContractInstallmentEligibility tz is referenceDate =
     map (\<lambda>i. (in_installmentId i,
           computeInstallmentEligibility tz i (map_option markerOf (firstUnpaid is)) referenceDate))
       (sort_key in_sequence is)"

definition getNextPayableInstallment ::
  "int \<Rightarrow> installment_row list \<Rightarrow> time \<Rightarrow> (installment_row \<times> eligibility) option" where
  "getNextPayableInstallment tz is referenceDate =
     (case firstUnpaid is of
        None \<Rightarrow> None
      | Some i \<Rightarrow> Some (i, computeInstallmentEligibility tz i (Some (markerOf i)) referenceDate))"

section \<open>The schedule\<close>

definition addMonthsClamped :: "int \<Rightarrow> time \<Rightarrow> int \<Rightarrow> time" where
  "addMonthsClamped tz date monthsToAdd =
     (let originalDay = getDate tz date;
          r1 = setDate tz date 1;
          r2 = setMonth tz r1 (getMonth tz r1 + monthsToAdd);
          lastDay = getDate tz (newDate tz (getFullYear tz r2) (getMonth tz r2 + 1) 0)
      in setDate tz r2 (min originalDay lastDay))"

record schedule_entry =
  se_financingContractId :: ident
  se_amount :: decimal
  se_dueDate :: time
  se_sequence :: nat
  se_status :: InstallmentStatus

text \<open>
  \<open>totalAmount\<close> is a JavaScript number, always finite here; the loop index runs below \<open>months\<close>.
\<close>

definition generateInstallmentSchedule ::
  "int \<Rightarrow> ident \<Rightarrow> rat \<Rightarrow> int \<Rightarrow> time \<Rightarrow> schedule_entry list res" where
  "generateInstallmentSchedule tz financingContractId totalAmount months firstPaymentDate =
     (if months \<le> 0 then Inl (PlainError ''Months must be greater than 0'')
      else if totalAmount \<le> 0 then Inl (PlainError ''totalAmount must be a positive finite number'')
      else
        (let totalInCents = jsRound (jsMul totalAmount 100);
             baseAmountInCents = \<lfloor>jsDiv (of_int totalInCents) (of_int months)\<rfloor>;
             remainder = totalInCents mod months
         in Inr (map (\<lambda>i.
              \<lparr>se_financingContractId = financingContractId,
               se_amount = of_int (if int i = months - 1 then baseAmountInCents + remainder else baseAmountInCents) / 100,
               se_dueDate = addMonthsClamped tz firstPaymentDate (int i),
               se_sequence = i + 1, se_status = InstallmentStatus.PENDING\<rparr>) [0..<nat months])))"

section \<open>Reading a contract\<close>

definition contractInstallments :: "ident \<Rightarrow> db \<Rightarrow> installment_row list" where
  "contractInstallments cid s = filter (\<lambda>i. in_financingContractId i = cid) (installments s)"

definition nextUnpaidOf :: "installment_row \<Rightarrow> db \<Rightarrow> marker option" where
  "nextUnpaidOf inst s =
     (if in_status inst = InstallmentStatus.PAID then None
      else map_option markerOf (firstUnpaid (contractInstallments (in_financingContractId inst) s)))"

definition assertInstallmentIsPayable :: "int \<Rightarrow> env \<Rightarrow> installment_row \<Rightarrow> db \<Rightarrow> eligibility res" where
  "assertInstallmentIsPayable tz e inst s =
     (let el = computeInstallmentEligibility tz inst (nextUnpaidOf inst s) (env_now e) in
      if el_state el = CONTRACT_COMPLETED then Inl (BadRequestError contractCompleted)
      else if \<not> el_canPay el
      then Inl (BadRequestError (case el_reason el of None \<Rightarrow> ''This installment is not currently payable.'' | Some m \<Rightarrow> m))
      else Inr el)"

text \<open>
  \<open>contract.user?.companyId\<close> is \<open>undefined\<close> without a user and \<open>null\<close> for a user without a
  company; an absent company of the caller is \<open>undefined\<close>.
\<close>

definition assertContractAccess ::
  "ident \<Rightarrow> ident \<Rightarrow> Role \<Rightarrow> ident option \<Rightarrow> db \<Rightarrow> unit res" where
  "assertContractAccess financingContractId callerId callerRole callerCompanyId s =
     (case find_contract financingContractId s of
        None \<Rightarrow> Inl (NotFoundError ''Financing contract not found'')
      | Some contract \<Rightarrow>
          if callerRole = CUSTOMER
          then (if fc_userId contract \<noteq> Some callerId
                then Inl (NotFoundError ''Financing contract not found'') else Inr ())
          else if callerRole = SUPER_ADMIN then Inr ()
          else if (case customerOf contract s of
                     None \<Rightarrow> callerCompanyId \<noteq> None
                   | Some u \<Rightarrow> u_companyId u = None \<or> u_companyId u \<noteq> callerCompanyId)
          then Inl (NotFoundError ''Financing contract not found'') else Inr ())"

definition getCustomerInstallments ::
  "ident \<Rightarrow> ident \<Rightarrow> Role \<Rightarrow> ident option \<Rightarrow> db \<Rightarrow> installment_row list res" where
  "getCustomerInstallments cid callerId callerRole callerCompanyId s =
     (case assertContractAccess cid callerId callerRole callerCompanyId s of
        Inl err \<Rightarrow> Inl err
      | Inr u \<Rightarrow> Inr (sort_key in_dueDate (contractInstallments cid s)))"

text \<open>\<open>distinct\<close> on the contract keeps the first row of the lowest sequence.\<close>

definition getFinancedProducts ::
  "ident \<Rightarrow> ident \<Rightarrow> Role \<Rightarrow> ident option \<Rightarrow> db \<Rightarrow> installment_row list res" where
  "getFinancedProducts cid callerId callerRole callerCompanyId s =
     (case assertContractAccess cid callerId callerRole callerCompanyId s of
        Inl err \<Rightarrow> Inl err
      | Inr u \<Rightarrow> Inr (take 1 (sort_key in_sequence (contractInstallments cid s))))"

definition calculateProgressPercentage ::
  "ident \<Rightarrow> ident \<Rightarrow> Role \<Rightarrow> ident option \<Rightarrow> db \<Rightarrow> (rat \<times> rat \<times> rat) res" where
  "calculateProgressPercentage cid callerId callerRole callerCompanyId s =
     (case assertContractAccess cid callerId callerRole callerCompanyId s of
        Inl err \<Rightarrow> Inl err
      | Inr u \<Rightarrow>
     (case find_contract cid s of
        None \<Rightarrow> Inl (NotFoundError ''Financing contract not found'')
      | Some contract \<Rightarrow>
          (let totalFinanced = fl (fc_totalFinanced contract);
               totalPaid = fl (sum_where (\<lambda>i. in_financingContractId i = cid \<and> in_status i = InstallmentStatus.PAID)
                 in_amount (installments s))
           in Inr (totalFinanced, totalPaid,
                if totalFinanced = 0 then 0 else fl (toFixed2 (jsMul (jsDiv totalPaid totalFinanced) 100))))))"

definition getInstallmentById :: "int \<Rightarrow> env \<Rightarrow> ident \<Rightarrow> db \<Rightarrow> (installment_row \<times> eligibility) option" where
  "getInstallmentById tz e installmentId s =
     (case find_installment installmentId s of
        None \<Rightarrow> None
      | Some inst \<Rightarrow> Some (inst, computeInstallmentEligibility tz inst (nextUnpaidOf inst s) (env_now e)))"

section \<open>The customer's list\<close>

definition MAX_PAGE_LIMIT :: int where
  "MAX_PAGE_LIMIT = 100"

definition DEFAULT_PAGE_LIMIT :: int where
  "DEFAULT_PAGE_LIMIT = 10"

datatype sort_order = Asc | Desc

record page_params =
  pp_page :: "int option"
  pp_limit :: "int option"
  pp_sortOrder :: "sort_order option"

record pagination =
  pg_total :: int
  pg_totalPages :: int
  pg_currentPage :: int
  pg_limit :: int
  pg_hasNextPage :: bool
  pg_hasPreviousPage :: bool

definition ofCustomer :: "ident \<Rightarrow> db \<Rightarrow> installment_row list" where
  "ofCustomer userId s =
     filter (\<lambda>i. \<exists>c \<in> set (contracts s). fc_contractId c = in_financingContractId i \<and> fc_userId c = Some userId)
       (installments s)"

text \<open>The smallest unpaid sequence of a contract, a group of \<open>groupBy\<close>.\<close>

definition minUnpaidSequence :: "ident \<Rightarrow> db \<Rightarrow> nat option" where
  "minUnpaidSequence cid s =
     (case map in_sequence (filter (\<lambda>i. in_status i \<noteq> InstallmentStatus.PAID) (contractInstallments cid s)) of
        [] \<Rightarrow> None
      | n # ns \<Rightarrow> Some (foldl min n ns))"

text \<open>The rows at those sequences, keyed by contract; a later entry replaces an earlier one.\<close>

definition nextUnpaidByContract :: "ident list \<Rightarrow> db \<Rightarrow> ident \<Rightarrow> marker option" where
  "nextUnpaidByContract contractIds s =
     (let rows = filter (\<lambda>i. \<exists>cid \<in> set contractIds. in_financingContractId i = cid \<and>
            minUnpaidSequence cid s = Some (in_sequence i)) (installments s)
      in map_of (rev (map (\<lambda>i. (in_financingContractId i, markerOf i)) rows)))"

definition getRelatedCustomersInstallments ::
  "int \<Rightarrow> env \<Rightarrow> ident \<Rightarrow> page_params \<Rightarrow> db \<Rightarrow> (installment_row \<times> eligibility) list \<times> pagination" where
  "getRelatedCustomersInstallments tz e userId ps s =
     (let page = max 1 (case pp_page ps of None \<Rightarrow> 1 | Some p \<Rightarrow> p);
          limit = min MAX_PAGE_LIMIT (max 1 (case pp_limit ps of None \<Rightarrow> DEFAULT_PAGE_LIMIT | Some l \<Rightarrow> l));
          skip = (page - 1) * limit;
          all = ofCustomer userId s;
          ordered = (case pp_sortOrder ps of
              Some Desc \<Rightarrow> sort_key (\<lambda>i. - in_dueDate i) all | _ \<Rightarrow> sort_key in_dueDate all);
          found = take (nat limit) (drop (nat skip) ordered);
          total = int (length all);
          marker = nextUnpaidByContract (remdups (map in_financingContractId found)) s;
          totalPages = \<lceil>(of_int total / of_int limit :: rat)\<rceil>
      in (map (\<lambda>i. (i, computeInstallmentEligibility tz i (marker (in_financingContractId i)) (env_now e))) found,
          \<lparr>pg_total = total, pg_totalPages = totalPages, pg_currentPage = page, pg_limit = limit,
           pg_hasNextPage = (page < totalPages), pg_hasPreviousPage = (1 < page)\<rparr>))"

section \<open>Starting a payment\<close>

datatype payment_start =
    ExistingPayment string string
  | StartedPayment init_response rat ident time

definition applicationOf :: "contract_row \<Rightarrow> db \<Rightarrow> kyc_row option" where
  "applicationOf c s = find (\<lambda>k. ka_kycApplicationId k = fc_kycApplicationId c) (kycApplications s)"

definition applicant :: "contract_row \<Rightarrow> db \<Rightarrow> user_row option" where
  "applicant c s = Option.bind (applicationOf c s) (\<lambda>k. Option.bind (ka_userId k) (\<lambda>u. find_user u s))"

definition applicationProduct :: "contract_row \<Rightarrow> db \<Rightarrow> product_row option" where
  "applicationProduct c s =
     Option.bind (applicationOf c s) (\<lambda>k. find (\<lambda>p. pr_productId p = ka_productId k) (products s))"

definition installmentParams :: "env \<Rightarrow> string \<Rightarrow> installment_row \<Rightarrow> user_row \<Rightarrow> product_row \<Rightarrow> reserve_params" where
  "installmentParams e frontend inst customer product =
     \<lparr>rp_type = INSTALLMENT, rp_amount = in_amount inst, rp_customerId = Some (u_userId customer),
      rp_companyId = None, rp_installmentId = Some (in_installmentId inst), rp_onboardingId = None,
      rp_subscriptionId = None, rp_planId = Some (pr_productId product),
      rp_idempotencyKey = Some (env_uuid e 2), rp_clientIdempotencyKey = None,
      rp_payload = JObject
        [(''email'', JString (u_email customer)),
         (''callbackUrl'', JString (frontend @ ''/customer/installments'')),
         (''metadata'', JObject
            [(''installmentId'', JString (in_installmentId inst)),
             (''financingContractId'', JString (in_financingContractId inst)),
             (''productId'', JString (pr_productId product)),
             (''sequence'', JNumber (of_nat (in_sequence inst)))])]\<rparr>"

text \<open>
  \<open>frontend\<close> is the environment's \<open>FRONTEND_URL\<close>; \<open>race\<close> and \<open>provider\<close> are the other
  requests and Paystack.
\<close>

definition initializeInstallmentPayment ::
  "int \<Rightarrow> string \<Rightarrow> (bool \<Rightarrow> db \<Rightarrow> db) \<Rightarrow> (init_request \<Rightarrow> init_response res) \<Rightarrow> env \<Rightarrow> ident \<Rightarrow> ident \<Rightarrow> db \<Rightarrow>
    payment_start res \<times> db" where
  "initializeInstallmentPayment tz frontend race provider e installmentId customerId s =
     (case find_installment installmentId s of
        None \<Rightarrow> (Inl (NotFoundError ''Installment not found''), s)
      | Some inst \<Rightarrow>
     (case find_contract (in_financingContractId inst) s of
        None \<Rightarrow> (Inl (NotFoundError ''Installment not found''), s)
      | Some contract \<Rightarrow>
      if fc_userId contract \<noteq> Some customerId
      then (Inl (UnauthorizedError ''You are not authorized to pay for this installment''), s)
      else if in_status inst = InstallmentStatus.PAID
      then (Inl (BadRequestError ''This installment has already been settled''), s)
      else if fc_status contract \<noteq> FinancingStatus.ACTIVE \<and> fc_status contract \<noteq> FinancingStatus.DEFAULTED
      then (Inl (BadRequestError ''Payments are not allowed for contract status''), s)
      else
     (case assertInstallmentIsPayable tz e inst s of
        Inl err \<Rightarrow> (Inl err, s)
      | Inr el \<Rightarrow>
     (case applicant contract s of
        None \<Rightarrow> (Inl (BadRequestError ''No customer with a valid email is linked to this contract''), s)
      | Some customer \<Rightarrow>
      if u_email customer = ''''
      then (Inl (BadRequestError ''No customer with a valid email is linked to this contract''), s)
      else
     (case applicationProduct contract s of
        None \<Rightarrow> (Inl (BadRequestError ''No product is linked to this contract''), s)
      | Some product \<Rightarrow>
     (case reserve race e (installmentParams e frontend inst customer product) s of
        (Inl err, s1) \<Rightarrow> (Inl err, s1)
      | (Inr v, s1) \<Rightarrow>
          (let intent = rv_intent v in
           if rv_isExisting v
           then (if pi_status intent = INITIALIZED \<or> pi_status intent = PaymentInitStatus.PENDING
                 then (Inr (ExistingPayment (case pi_authorizationUrl intent of None \<Rightarrow> '''' | Some u \<Rightarrow> u)
                         (case pi_reference intent of None \<Rightarrow> '''' | Some r \<Rightarrow> r)), s1)
                 else (Inl (BadRequestError ''Payment intent cannot be re-initialized''), s1))
           else
             (case initializePaystack provider e (pi_intentId intent) True s1 of
                (Inl err, s2) \<Rightarrow> (Inl err, s2)
              | (Inr resp, s2) \<Rightarrow>
             (case markPending e (pi_intentId intent) s2 of
                (Inl err, s3) \<Rightarrow> (Inl err, s3)
              | (Inr r, s3) \<Rightarrow>
                  (Inr (StartedPayment resp (fl (in_amount inst)) (in_installmentId inst) (in_dueDate inst)), s3))))))))))"

section \<open>Days and months\<close>

lemma jsRound_int [simp]: "jsRound (of_int n) = n"
  by (rule jsRound_close) simp

lemma diffInCalendarDays_eq: "diffInCalendarDays tz d r = localDay tz d - localDay tz r"
proof -
  have "setHours0 tz d - setHours0 tz r = (localDay tz d - localDay tz r) * msPerDay"
    by (simp add: setHours0_def atDay_def left_diff_distrib)
  then have "of_int (setHours0 tz d - setHours0 tz r) / of_int msPerDay = (of_int (localDay tz d - localDay tz r) :: rat)"
    by (simp only: of_int_mult) (simp add: msPerDay_def)
  then show ?thesis by (simp only: diffInCalendarDays_def jsRound_int)
qed

text \<open>The month after \<open>k\<close> steps, counted from year 0.\<close>

definition monthIndex :: "int \<Rightarrow> time \<Rightarrow> int" where
  "monthIndex tz t = getFullYear tz t * 12 + getMonth tz t"

lemma MakeDay_normal: "MakeDay y n d = MakeDay (y + n div 12) (n mod 12) d"
  using MakeDay_carry[of y "n mod 12" "n div 12" d] by simp

lemma setMonth_first:
  assumes "getDate tz t = 1"
  shows "getFullYear tz (setMonth tz t n) = getFullYear tz t + n div 12"
    "getMonth tz (setMonth tz t n) = n mod 12"
    "timeInDay tz (setMonth tz t n) = timeInDay tz t"
proof -
  let ?y = "getFullYear tz t + n div 12" and ?m = "n mod 12"
  have m: "0 \<le> ?m" "?m \<le> 11" using pos_mod_bound[of 12 n] by auto
  have e: "setMonth tz t n = atDay tz (MakeDay ?y ?m 1) (timeInDay tz t)"
    by (simp add: setMonth_def assms MakeDay_normal[of _ n])
  have d: "1 \<le> daysInMonth ?y ?m" using daysInMonth_bounds[OF m, of ?y] by linarith
  note r = date_at_MakeDay[OF m _ d timeInDay_range[THEN conjunct1] timeInDay_range[THEN conjunct2]]
  show "getFullYear tz (setMonth tz t n) = ?y" "getMonth tz (setMonth tz t n) = ?m"
    unfolding e by (rule r; simp)+
  show "timeInDay tz (setMonth tz t n) = timeInDay tz t"
    unfolding e using timeInDay_range[of tz t] by simp
qed

lemma setDate_valid:
  assumes "1 \<le> k" "k \<le> daysInMonth (getFullYear tz t) (getMonth tz t)"
  shows "getFullYear tz (setDate tz t k) = getFullYear tz t" "getMonth tz (setDate tz t k) = getMonth tz t"
    "getDate tz (setDate tz t k) = k" "timeInDay tz (setDate tz t k) = timeInDay tz t"
proof -
  note r = date_at_MakeDay[OF getMonth_range assms timeInDay_range[THEN conjunct1] timeInDay_range[THEN conjunct2]]
  show "getFullYear tz (setDate tz t k) = getFullYear tz t" "getMonth tz (setDate tz t k) = getMonth tz t"
    "getDate tz (setDate tz t k) = k"
    unfolding setDate_def by (rule r)+
  show "timeInDay tz (setDate tz t k) = timeInDay tz t"
    unfolding setDate_def using timeInDay_range[of tz t] by simp
qed

lemma addMonthsClamped_date:
  fixes tz t k
  defines "y \<equiv> getFullYear tz t + (getMonth tz t + k) div 12" and "m \<equiv> (getMonth tz t + k) mod 12"
  shows "getFullYear tz (addMonthsClamped tz t k) = y" "getMonth tz (addMonthsClamped tz t k) = m"
    "getDate tz (addMonthsClamped tz t k) = min (getDate tz t) (daysInMonth y m)"
    "timeInDay tz (addMonthsClamped tz t k) = timeInDay tz t"
proof -
  let ?r1 = "setDate tz t 1"
  have d1: "1 \<le> daysInMonth (getFullYear tz t) (getMonth tz t)"
    using getDate_range[of tz t] by linarith
  note r1 = setDate_valid[OF order_refl d1]
  let ?r2 = "setMonth tz ?r1 (getMonth tz t + k)"
  have r2: "getFullYear tz ?r2 = y" "getMonth tz ?r2 = m" "timeInDay tz ?r2 = timeInDay tz t"
    using setMonth_first[OF r1(3)] r1 by (simp_all add: y_def m_def)
  have m: "0 \<le> m" "m \<le> 11" unfolding m_def using pos_mod_bound[of 12 "getMonth tz t + k"] by auto
  let ?k = "min (getDate tz t) (daysInMonth y m)"
  have e: "addMonthsClamped tz t k = setDate tz ?r2 ?k"
    by (simp add: addMonthsClamped_def Let_def r1 r2 getDate_last[OF m])
  have k: "1 \<le> ?k" "?k \<le> daysInMonth (getFullYear tz ?r2) (getMonth tz ?r2)"
    using getDate_range(1)[of tz t] daysInMonth_bounds[OF m, of y] r2 by auto
  show "getFullYear tz (addMonthsClamped tz t k) = y" "getMonth tz (addMonthsClamped tz t k) = m"
    "getDate tz (addMonthsClamped tz t k) = ?k"
    "timeInDay tz (addMonthsClamped tz t k) = timeInDay tz t"
    unfolding e using setDate_valid[OF k] r2 by simp_all
qed

section \<open>Schedules\<close>

text \<open>The schedule of \<open>n\<close> kobo over \<open>m\<close> months, in whole kobo.\<close>

definition share :: "int \<Rightarrow> int \<Rightarrow> nat \<Rightarrow> int" where
  "share n m i = (if int i = m - 1 then n div m + n mod m else n div m)"

lemma sum_share:
  assumes "0 < m"
  shows "(\<Sum>i\<leftarrow>[0..<nat m]. share n m i) = n"
proof -
  define k where "k = nat (m - 1)"
  have k: "nat m = Suc k" "m = int k + 1" using assms by (simp_all add: k_def)
  have "map (share n m) [0..<k] = map (\<lambda>i. n div m) [0..<k]" by (auto simp: share_def k(2))
  then have "(\<Sum>i\<leftarrow>[0..<k]. share n m i) = int k * (n div m)" by (simp only: sum_list_triv length_upt) simp
  moreover have "share n m k = n div m + n mod m" by (simp add: share_def k(2))
  moreover have "int k * (n div m) + n div m = m * (n div m)" unfolding k(2) by (simp add: distrib_right)
  ultimately show ?thesis using mult_div_mod_eq[of m n] by (simp add: k(1) add.assoc[symmetric])
qed

lemma fl_pos:
  assumes "0 < x"
  shows "0 < fl x"
proof -
  have "\<bar>fl x - x\<bar> \<le> x / 2 ^ 53" using fl_rel_error[of x] assms by simp
  moreover have "x / 2 ^ 53 < x" using assms by simp
  ultimately show ?thesis unfolding abs_le_iff by linarith
qed

lemma schedule_rows:
  assumes "0 < n" "n < 2 ^ 50" "0 < m"
  shows "generateInstallmentSchedule tz cid (fl (of_int n / 100)) m t = Inr (map (\<lambda>i.
     \<lparr>se_financingContractId = cid, se_amount = of_int (share n m i) / 100,
      se_dueDate = addMonthsClamped tz t (int i), se_sequence = i + 1, se_status = InstallmentStatus.PENDING\<rparr>)
     [0..<nat m])"
proof -
  have c: "jsRound (jsMul (fl (of_int n / 100)) 100) = n"
    using jsRound_toKobo[of n] assms by (simp add: toKobo_def)
  have p: "0 < fl (of_int n / 100)" by (rule fl_pos) (use assms in simp)
  have b: "\<lfloor>jsDiv (of_int n) (of_int m)\<rfloor> = n div m" by (rule floor_jsDiv) (use assms in auto)
  show ?thesis
    using assms(3) p by (simp add: generateInstallmentSchedule_def Let_def c b share_def cong: map_cong)
qed

lemma schedule_row:
  assumes "generateInstallmentSchedule tz cid x m t = Inr rows"
  shows "length rows = nat m"
    "i < nat m \<Longrightarrow> se_dueDate (rows ! i) = addMonthsClamped tz t (int i) \<and> se_sequence (rows ! i) = i + 1"
  using assms by (auto simp: generateInstallmentSchedule_def Let_def split: if_splits)

lemma monthIndex_add: "monthIndex tz (addMonthsClamped tz t k) = monthIndex tz t + k"
  using div_mult_mod_eq[of "getMonth tz t + k" 12]
  by (simp add: monthIndex_def addMonthsClamped_date distrib_right)

lemma schedule_splits:
  assumes "0 < n" "n < 2 ^ 50" "0 < m"
  shows "\<exists>rows. generateInstallmentSchedule tz cid (fl (of_int n / 100)) m t = Inr rows \<and>
    map se_sequence rows = [1..<nat m + 1] \<and>
    sum_list (map se_amount rows) = of_int n / 100 \<and>
    map se_amount (butlast rows) = replicate (nat m - 1) (of_int (n div m) / 100) \<and>
    se_amount (last rows) = of_int (n div m + n mod m) / 100"
proof -
  obtain k where k: "nat m = Suc k" "m = int k + 1"
    using assms(3) that[of "nat (m - 1)"] by simp
  have f: "\<And>xs. (\<Sum>i\<leftarrow>xs. (of_int (share n m i) / 100 :: rat)) = of_int (\<Sum>i\<leftarrow>xs. share n m i) / 100"
    by (induct_tac xs) (simp_all add: add_divide_distrib)
  have b: "map (\<lambda>i. of_int (share n m i) / 100 :: rat) [0..<k] = replicate k (of_int (n div m) / 100)"
    by (rule nth_equalityI) (simp_all add: share_def k(2))
  let ?rows = "map (\<lambda>i. \<lparr>se_financingContractId = cid, se_amount = of_int (share n m i) / 100,
      se_dueDate = addMonthsClamped tz t (int i), se_sequence = i + 1, se_status = InstallmentStatus.PENDING\<rparr>)
     [0..<nat m]"
  have "map se_sequence ?rows = [1..<nat m + 1]"
    by (simp add: comp_def map_Suc_upt)
  moreover have "sum_list (map se_amount ?rows) = of_int n / 100"
    using f[of "[0..<nat m]"] sum_share[OF assms(3), of n] by (simp only: map_map comp_def schedule_entry.simps)
  moreover have "map se_amount (butlast ?rows) = replicate (nat m - 1) (of_int (n div m) / 100)"
    using b by (simp add: k(1) comp_def)
  moreover have "se_amount (last ?rows) = of_int (n div m + n mod m) / 100"
    by (simp add: k(1)) (simp add: share_def k(2))
  ultimately show ?thesis unfolding schedule_rows[OF assms] by blast
qed

text \<open>C12: A schedule splits the financed amount exactly.  For every total of at most two decimals
  and below \<open>2 ^ 50\<close> kobo, given as the JavaScript number the caller passes, the rows are
  numbered 1 to \<open>months\<close>, all but the last carry the same whole number of kobo, the last
  carries the remainder on top, and together they are the total, with no rounding lost.\<close>

theorem schedule_splits_the_total_exactly:
  assumes "0 < n" "n < 2 ^ 50" "0 < m"
  shows "\<exists>rows. generateInstallmentSchedule tz cid (fl (of_int n / 100)) m t = Inr rows \<and>
    map se_sequence rows = [1..<nat m + 1] \<and>
    sum_list (map se_amount rows) = of_int n / 100 \<and>
    map se_amount (butlast rows) = replicate (nat m - 1) (of_int (n div m) / 100) \<and>
    se_amount (last rows) = of_int (n div m + n mod m) / 100"
  using assms by (rule schedule_splits)

theorem schedule_splits_the_total_exactly_witness:
  "\<exists>rows. generateInstallmentSchedule 0 ''fc'' (fl (of_int 10000 / 100)) 3 0 = Inr rows \<and>
    map se_amount (butlast rows) = replicate 2 (3333 / 100) \<and> se_amount (last rows) = 3334 / 100"
  using schedule_splits_the_total_exactly[of 10000 3 0 "''fc''" 0] by (auto simp: numeral_2_eq_2)

lemma schedule_dates:
  assumes "generateInstallmentSchedule tz cid x m t = Inr rows" "i < length rows"
  shows "monthIndex tz (se_dueDate (rows ! i)) = monthIndex tz t + int i \<and>
    timeInDay tz (se_dueDate (rows ! i)) = timeInDay tz t \<and>
    getDate tz (se_dueDate (rows ! i)) =
      min (getDate tz t) (daysInMonth (getFullYear tz (se_dueDate (rows ! i))) (getMonth tz (se_dueDate (rows ! i))))"
proof -
  have "se_dueDate (rows ! i) = addMonthsClamped tz t (int i)"
    using schedule_row[OF assms(1)] assms(2) by simp
  then show ?thesis by (simp add: monthIndex_add) (simp add: addMonthsClamped_date)
qed

text \<open>C13: Every due date of a schedule lies in its own calendar month: row \<open>i\<close> falls due in the
  \<open>i\<close>-th month after the first payment, on the same day of the month or on the last day of
  a shorter month, at the same time of day; no month is skipped or hit twice.\<close>

theorem schedule_hits_every_month_once:
  assumes "generateInstallmentSchedule tz cid x m t = Inr rows" "i < length rows"
  shows "monthIndex tz (se_dueDate (rows ! i)) = monthIndex tz t + int i \<and>
    timeInDay tz (se_dueDate (rows ! i)) = timeInDay tz t \<and>
    getDate tz (se_dueDate (rows ! i)) =
      min (getDate tz t) (daysInMonth (getFullYear tz (se_dueDate (rows ! i))) (getMonth tz (se_dueDate (rows ! i))))"
  using assms by (rule schedule_dates)

text \<open>The last of January 2024 plus one month is the 29th of February.\<close>

theorem schedule_hits_every_month_once_witness:
  "\<exists>rows. generateInstallmentSchedule 0 ''fc'' 100 2 1706659200000 = Inr rows \<and>
     monthIndex 0 (se_dueDate (rows ! 1)) = 2024 * 12 + 1 \<and> getDate 0 (se_dueDate (rows ! 1)) = 29"
proof -
  obtain rows where r: "generateInstallmentSchedule 0 ''fc'' 100 2 1706659200000 = Inr rows" "1 < length rows"
    by (simp add: generateInstallmentSchedule_def Let_def)
  have d: "monthIndex 0 1706659200000 = 2024 * 12" "getDate 0 1706659200000 = 31"
    "timeInDay 0 1706659200000 = 0"
    by code_simp+
  note h = schedule_hits_every_month_once[OF r]
  then have "monthIndex 0 (se_dueDate (rows ! 1)) = 2024 * 12 + 1" using d by simp
  moreover then have "getFullYear 0 (se_dueDate (rows ! 1)) = 2024" "getMonth 0 (se_dueDate (rows ! 1)) = 1"
    using getMonth_range[of 0 "se_dueDate (rows ! 1)"] unfolding monthIndex_def by presburger+
  ultimately show ?thesis using r(1) h d by (auto simp: daysInMonth_def monthStart_def leap_def)
qed

section \<open>The first unpaid installment\<close>

definition unpaid :: "installment_row \<Rightarrow> bool" where
  "unpaid i = (in_status i \<noteq> InstallmentStatus.PAID)"

text \<open>The unique indexes of the table.\<close>

definition installments_keyed :: "db \<Rightarrow> bool" where
  "installments_keyed s =
     (distinct (map in_installmentId (installments s)) \<and>
      distinct (map (\<lambda>i. (in_financingContractId i, in_sequence i)) (installments s)))"

lemma keyed_id:
  "installments_keyed s \<Longrightarrow> i \<in> set (installments s) \<Longrightarrow> j \<in> set (installments s) \<Longrightarrow>
     in_installmentId i = in_installmentId j \<Longrightarrow> i = j"
  by (auto simp: installments_keyed_def distinct_map inj_on_def)

lemma keyed_sequence:
  "installments_keyed s \<Longrightarrow> i \<in> set (installments s) \<Longrightarrow> j \<in> set (installments s) \<Longrightarrow>
     in_financingContractId i = in_financingContractId j \<Longrightarrow> in_sequence i = in_sequence j \<Longrightarrow> i = j"
  by (auto simp: installments_keyed_def distinct_map inj_on_def)

lemma find_none_iff: "find p xs = None \<longleftrightarrow> (\<forall>x \<in> set xs. \<not> p x)"
  by (induct xs) auto

lemma find_least:
  "sorted (map f xs) \<Longrightarrow> find p xs = Some x \<Longrightarrow> y \<in> set xs \<Longrightarrow> p y \<Longrightarrow> f x \<le> f y"
  by (induct xs) (auto split: if_splits)

lemma firstUnpaid_Some:
  assumes "firstUnpaid xs = Some i"
  shows "i \<in> set xs" "unpaid i" "\<And>j. j \<in> set xs \<Longrightarrow> unpaid j \<Longrightarrow> in_sequence i \<le> in_sequence j"
proof -
  show "i \<in> set xs" "unpaid i"
    using assms find_set[of _ "sort_key in_sequence xs" i] by (auto simp: firstUnpaid_def unpaid_def)
  show "in_sequence i \<le> in_sequence j" if "j \<in> set xs" "unpaid j" for j
    using assms that find_least[of in_sequence "sort_key in_sequence xs"]
    by (simp add: firstUnpaid_def unpaid_def)
qed

lemma firstUnpaid_None: "firstUnpaid xs = None \<longleftrightarrow> (\<forall>j \<in> set xs. \<not> unpaid j)"
  by (auto simp: firstUnpaid_def find_none_iff unpaid_def)

text \<open>With the unique indexes, the first unpaid installment is the least one.\<close>

lemma firstUnpaid_eq:
  assumes "installments_keyed s"
  shows "firstUnpaid (contractInstallments cid s) = Some i \<longleftrightarrow>
    i \<in> set (contractInstallments cid s) \<and> unpaid i \<and>
    (\<forall>j \<in> set (contractInstallments cid s). unpaid j \<longrightarrow> in_sequence i \<le> in_sequence j)" (is "?l \<longleftrightarrow> ?r")
proof
  assume ?l
  then show ?r using firstUnpaid_Some[of _ i] by blast
next
  assume r: ?r
  then obtain k where k: "firstUnpaid (contractInstallments cid s) = Some k"
    using firstUnpaid_None[of "contractInstallments cid s"] by (cases "firstUnpaid (contractInstallments cid s)") auto
  have "in_sequence k = in_sequence i" using firstUnpaid_Some[OF k] r by (meson le_antisym)
  with keyed_sequence[OF assms, of k i] firstUnpaid_Some(1)[OF k] r have "k = i"
    by (auto simp: contractInstallments_def)
  with k show ?l by simp
qed

lemma canPay_iff:
  "el_canPay (computeInstallmentEligibility tz i nu now) \<longleftrightarrow>
     unpaid i \<and> (\<exists>m. nu = Some m \<and> in_installmentId i = mk_installmentId m) \<and>
     localDay tz (in_dueDate i) - localDay tz now \<le> PAYMENT_WINDOW_DAYS"
  by (simp add: computeInstallmentEligibility_def Let_def unpaid_def diffInCalendarDays_eq split: option.splits)

lemma canPay_not_completed:
  "el_canPay (computeInstallmentEligibility tz i nu now) \<Longrightarrow>
     el_state (computeInstallmentEligibility tz i nu now) = AVAILABLE"
  by (auto simp: computeInstallmentEligibility_def Let_def split: option.splits if_splits)

lemma payable_iff_canPay:
  "(\<exists>el. assertInstallmentIsPayable tz e i s = Inr el) \<longleftrightarrow>
     el_canPay (computeInstallmentEligibility tz i (nextUnpaidOf i s) (env_now e))"
  using canPay_not_completed[of tz i "nextUnpaidOf i s" "env_now e"]
  by (auto simp: assertInstallmentIsPayable_def Let_def)

lemma eligibility_ignores_marker_when_paid:
  "\<not> unpaid i \<Longrightarrow> computeInstallmentEligibility tz i nu now = computeInstallmentEligibility tz i nu' now"
  by (simp add: computeInstallmentEligibility_def Let_def unpaid_def)

section \<open>The batched markers\<close>

lemma foldl_min_least: "foldl min n ns \<in> set (n # ns) \<and> (\<forall>k \<in> set (n # ns). foldl min n ns \<le> (k :: nat))"
proof (induct ns arbitrary: n)
  case (Cons a ns)
  show ?case using Cons[of "min n a"] by (auto simp: min_def split: if_splits)
qed simp

lemma minUnpaidSequence_eq:
  "minUnpaidSequence cid s = map_option in_sequence (firstUnpaid (contractInstallments cid s))"
proof (cases "firstUnpaid (contractInstallments cid s)")
  case None
  then have "filter (\<lambda>i. in_status i \<noteq> InstallmentStatus.PAID) (contractInstallments cid s) = []"
    by (simp add: firstUnpaid_None unpaid_def filter_empty_conv)
  with None show ?thesis by (simp add: minUnpaidSequence_def)
next
  case (Some i)
  note f = firstUnpaid_Some[OF Some]
  let ?l = "map in_sequence (filter (\<lambda>i. in_status i \<noteq> InstallmentStatus.PAID) (contractInstallments cid s))"
  have i: "in_sequence i \<in> set ?l" "\<And>k. k \<in> set ?l \<Longrightarrow> in_sequence i \<le> k"
    using f by (auto simp: unpaid_def)
  then obtain n ns where l: "?l = n # ns" by (cases ?l) auto
  have "foldl min n ns = in_sequence i"
    using foldl_min_least[of n ns] i unfolding l by (meson le_antisym)
  with Some l show ?thesis by (simp add: minUnpaidSequence_def)
qed

lemma map_of_only:
  "(k, v) \<in> set xs \<Longrightarrow> (\<And>w. (k, w) \<in> set xs \<Longrightarrow> w = v) \<Longrightarrow> map_of xs k = Some v"
  by (metis map_of_SomeD weak_map_of_SomeI)

lemma map_of_never: "(\<And>v. (k, v) \<notin> set xs) \<Longrightarrow> map_of xs k = None"
  by (meson map_of_SomeD not_None_eq)

lemma nextUnpaidByContract_eq:
  assumes "installments_keyed s" "cid \<in> set cids"
  shows "nextUnpaidByContract cids s cid = map_option markerOf (firstUnpaid (contractInstallments cid s))"
proof (cases "firstUnpaid (contractInstallments cid s)")
  case None
  then have "\<And>v. (cid, v) \<notin> set (rev (map (\<lambda>i. (in_financingContractId i, markerOf i))
      (filter (\<lambda>i. \<exists>cid \<in> set cids. in_financingContractId i = cid \<and>
         minUnpaidSequence cid s = Some (in_sequence i)) (installments s))))"
    by (auto simp: minUnpaidSequence_eq)
  then have "nextUnpaidByContract cids s cid = None"
    unfolding nextUnpaidByContract_def Let_def by (rule map_of_never)
  with None show ?thesis by simp
next
  case (Some i)
  note f = firstUnpaid_Some[OF Some]
  have "nextUnpaidByContract cids s cid = Some (markerOf i)"
    unfolding nextUnpaidByContract_def Let_def
  proof (rule map_of_only)
    show "(cid, markerOf i) \<in> set (rev (map (\<lambda>i. (in_financingContractId i, markerOf i))
        (filter (\<lambda>i. \<exists>cid \<in> set cids. in_financingContractId i = cid \<and>
          minUnpaidSequence cid s = Some (in_sequence i)) (installments s))))"
      using f(1) Some assms(2) by (force simp: minUnpaidSequence_eq contractInstallments_def)
  next
    fix w
    assume "(cid, w) \<in> set (rev (map (\<lambda>i. (in_financingContractId i, markerOf i))
        (filter (\<lambda>i. \<exists>cid \<in> set cids. in_financingContractId i = cid \<and>
          minUnpaidSequence cid s = Some (in_sequence i)) (installments s))))"
    then obtain j where "j \<in> set (installments s)" "in_financingContractId j = cid"
        "in_sequence j = in_sequence i" "w = markerOf j"
      using Some by (auto simp: minUnpaidSequence_eq)
    with keyed_sequence[OF assms(1), of j i] f(1) show "w = markerOf i" by (auto simp: contractInstallments_def)
  qed
  with Some show ?thesis by simp
qed

lemma find_keyed:
  "installments_keyed s \<Longrightarrow> i \<in> set (installments s) \<Longrightarrow> find_installment (in_installmentId i) s = Some i"
  unfolding find_installment_def by (rule find_unique_key) (simp_all add: installments_keyed_def)

lemma detail_eq:
  assumes "installments_keyed s" "i \<in> set (installments s)"
  shows "getInstallmentById tz e (in_installmentId i) s = Some (i, computeInstallmentEligibility tz i
    (map_option markerOf (firstUnpaid (contractInstallments (in_financingContractId i) s))) (env_now e))"
  using eligibility_ignores_marker_when_paid[of i] find_keyed[OF assms]
  by (auto simp: getInstallmentById_def nextUnpaidOf_def unpaid_def)

text \<open>
  An installment can be paid exactly when it is unpaid, it comes before every other unpaid
  installment of its contract, and its due date is at most three calendar days away; hence at
  most one installment of a contract can be paid at any time.\<close>

theorem payable_is_the_first_unpaid_in_window:
  assumes "installments_keyed s" "i \<in> set (installments s)"
  shows "((\<exists>el. assertInstallmentIsPayable tz e i s = Inr el) \<longleftrightarrow>
      unpaid i \<and> localDay tz (in_dueDate i) - localDay tz (env_now e) \<le> 3 \<and>
      (\<forall>j \<in> set (contractInstallments (in_financingContractId i) s). unpaid j \<longrightarrow> j = i \<or> in_sequence i < in_sequence j)) \<and>
    (\<forall>j \<in> set (contractInstallments (in_financingContractId i) s). \<forall>el el'.
      assertInstallmentIsPayable tz e i s = Inr el \<longrightarrow> assertInstallmentIsPayable tz e j s = Inr el' \<longrightarrow> j = i)"
proof -
  let ?cs = "contractInstallments (in_financingContractId i) s"
  have pay: "(\<exists>el. assertInstallmentIsPayable tz e k s = Inr el) \<longleftrightarrow>
      unpaid k \<and> firstUnpaid ?cs = Some k \<and> localDay tz (in_dueDate k) - localDay tz (env_now e) \<le> 3"
    if k: "k \<in> set ?cs" for k
  proof -
    have c: "in_financingContractId k = in_financingContractId i" "k \<in> set (installments s)"
      using k by (auto simp: contractInstallments_def)
    have "l = k" if "firstUnpaid ?cs = Some l" "in_installmentId k = in_installmentId l" for l
      using firstUnpaid_Some(1)[of ?cs l] keyed_id[OF assms(1) _ c(2), of l] that by (auto simp: contractInstallments_def)
    then show ?thesis
      unfolding payable_iff_canPay canPay_iff
      by (auto simp: nextUnpaidOf_def unpaid_def c(1) PAYMENT_WINDOW_DAYS_def markerOf_def)
  qed
  have i: "i \<in> set ?cs" using assms(2) by (simp add: contractInstallments_def)
  have least: "firstUnpaid ?cs = Some i \<longleftrightarrow>
      unpaid i \<and> (\<forall>j \<in> set ?cs. unpaid j \<longrightarrow> j = i \<or> in_sequence i < in_sequence j)"
  proof -
    have "j = i \<longleftrightarrow> in_sequence j = in_sequence i" if "j \<in> set ?cs" for j
      using keyed_sequence[OF assms(1) _ assms(2), of j] that by (auto simp: contractInstallments_def)
    then show ?thesis unfolding firstUnpaid_eq[OF assms(1)] using i by (auto simp: le_less)
  qed
  have "j = i" if "j \<in> set ?cs" "assertInstallmentIsPayable tz e i s = Inr el"
    "assertInstallmentIsPayable tz e j s = Inr el'" for j el el'
    using pay[OF i] pay[OF that(1)] that(2,3) by auto
  then show ?thesis using pay[OF i] least by blast
qed

theorem payable_is_the_first_unpaid_in_window_witness:
  "\<exists>el. assertInstallmentIsPayable 0 (sample_clock CHR ''p'' 5000) (sample_installment ''in1'' 1 InstallmentStatus.DUE)
     (sample_sale 100) = Inr el"
proof -
  have k: "installments_keyed (sample_sale 100)"
    by (simp add: installments_keyed_def sample_sale_def sample_installment_def)
  have m: "sample_installment ''in1'' 1 InstallmentStatus.DUE \<in> set (installments (sample_sale 100))"
    by (simp add: sample_sale_def)
  have "localDay 0 1000 - localDay 0 5000 \<le> 3" by (simp add: localDay_def msPerDay_def)
  then show ?thesis
    unfolding payable_is_the_first_unpaid_in_window[OF k m, THEN conjunct1]
    by (auto simp: sample_installment_def unpaid_def sample_sale_def contractInstallments_def sample_clock_def)
qed

text \<open>C14: The customer's paginated list, whose markers come from one batched query for all the
  contracts of the page, shows for every row exactly what the detail endpoint computes for it
  alone, and what the helper for a whole contract computes; a page has at most \<open>limit\<close>, hence
  at most 100, rows, all of them the customer's.\<close>

theorem list_and_detail_agree:
  assumes "installments_keyed s" "getRelatedCustomersInstallments tz e u ps s = (rows, pg)" "(i, el) \<in> set rows"
  shows "getInstallmentById tz e (in_installmentId i) s = Some (i, el) \<and>
    (in_installmentId i, el) \<in> set (computeContractInstallmentEligibility tz
       (contractInstallments (in_financingContractId i) s) (env_now e)) \<and>
    (\<exists>c. c \<in> set (contracts s) \<and> fc_contractId c = in_financingContractId i \<and> fc_userId c = Some u) \<and>
    int (length rows) \<le> pg_limit pg \<and> 1 \<le> pg_limit pg \<and> pg_limit pg \<le> 100"
proof -
  obtain found where f: "set found \<subseteq> set (ofCustomer u s)" "int (length found) \<le> pg_limit pg"
    "1 \<le> pg_limit pg" "pg_limit pg \<le> 100"
    "rows = map (\<lambda>i. (i, computeInstallmentEligibility tz i
       (nextUnpaidByContract (remdups (map in_financingContractId found)) s (in_financingContractId i)) (env_now e))) found"
  proof -
    let ?o = "case pp_sortOrder ps of Some Desc \<Rightarrow> sort_key (\<lambda>i. - in_dueDate i) (ofCustomer u s)
      | _ \<Rightarrow> sort_key in_dueDate (ofCustomer u s)"
    have "set ?o = set (ofCustomer u s)" by (auto split: option.splits sort_order.splits)
    then have "\<And>n m. set (take n (drop m ?o)) \<subseteq> set (ofCustomer u s)"
      using set_take_subset set_drop_subset by (metis order_trans)
    note sub = this
    let ?l = "min MAX_PAGE_LIMIT (max 1 (case pp_limit ps of None \<Rightarrow> DEFAULT_PAGE_LIMIT | Some l \<Rightarrow> l))"
    let ?k = "(max 1 (case pp_page ps of None \<Rightarrow> 1 | Some p \<Rightarrow> p) - 1) * ?l"
    let ?found = "take (nat ?l) (drop (nat ?k) ?o)"
    show ?thesis
    proof (rule that[of ?found])
      show "set ?found \<subseteq> set (ofCustomer u s)" by (rule sub)
      have l: "1 \<le> ?l" "?l \<le> 100" by (simp_all add: MAX_PAGE_LIMIT_def)
      have pg: "pg_limit pg = ?l" using assms(2) by (auto simp: getRelatedCustomersInstallments_def Let_def)
      have "length ?found \<le> nat ?l" by (simp only: length_take min.cobounded2)
      with l pg show "int (length ?found) \<le> pg_limit pg" "1 \<le> pg_limit pg" "pg_limit pg \<le> 100" by linarith+
      show "rows = map (\<lambda>i. (i, computeInstallmentEligibility tz i
          (nextUnpaidByContract (remdups (map in_financingContractId ?found)) s (in_financingContractId i)) (env_now e)))
        ?found"
        using assms(2) by (simp add: getRelatedCustomersInstallments_def Let_def)
    qed
  qed
  then have i: "i \<in> set found" "i \<in> set (ofCustomer u s)" using assms(3) by auto
  then have s: "i \<in> set (installments s)" by (simp add: ofCustomer_def)
  have "el = computeInstallmentEligibility tz i
      (map_option markerOf (firstUnpaid (contractInstallments (in_financingContractId i) s))) (env_now e)"
    using assms(3) i nextUnpaidByContract_eq[OF assms(1), of "in_financingContractId i"] unfolding f(5) by auto
  with detail_eq[OF assms(1) s] s i f show ?thesis
    by (auto simp: computeContractInstallmentEligibility_def ofCustomer_def contractInstallments_def)
qed

theorem list_and_detail_agree_witness:
  "\<exists>i el. getInstallmentById 0 (sample_clock CHR ''p'' 5000) (in_installmentId i) (sample_sale 100) = Some (i, el) \<and>
     in_installmentId i = ''in1''"
proof -
  let ?l = "getRelatedCustomersInstallments 0 (sample_clock CHR ''p'' 5000) ''cust''
     \<lparr>pp_page = None, pp_limit = None, pp_sortOrder = None\<rparr> (sample_sale 100)"
  have k: "installments_keyed (sample_sale 100)"
    by (simp add: installments_keyed_def sample_sale_def sample_installment_def)
  obtain rows pg where r: "?l = (rows, pg)" by force
  then have "map (\<lambda>x. in_installmentId (fst x)) rows = [''in1'', ''in2'']"
    by (auto simp: getRelatedCustomersInstallments_def Let_def ofCustomer_def sample_sale_def sample_contract_def
        sample_installment_def MAX_PAGE_LIMIT_def DEFAULT_PAGE_LIMIT_def)
  then obtain i el where "(i, el) \<in> set rows" "in_installmentId i = ''in1''"
    by (fastforce simp: map_eq_Cons_conv)
  with list_and_detail_agree[OF k r] show ?thesis by blast
qed

section \<open>Starting a payment twice\<close>

text \<open>What the operations on intents leave alone: every other table.\<close>

definition only_intents :: "db \<Rightarrow> db \<Rightarrow> bool" where
  "only_intents s t = (t = s\<lparr>intents := intents t\<rparr>)"

lemma only_intents_refl [simp]: "only_intents s s"
  by (simp add: only_intents_def)

lemma only_intents_set: "only_intents s (s\<lparr>intents := xs\<rparr>)"
  by (simp add: only_intents_def)

lemma only_intents_trans: "only_intents s t \<Longrightarrow> only_intents t u \<Longrightarrow> only_intents s u"
  unfolding only_intents_def by (metis (no_types, lifting) db.surjective db.update_convs(11))

lemma only_intents_transition: "transitionStatus e i to extra s = (x, t) \<Longrightarrow> only_intents s t"
  by (auto simp: transitionStatus_def Let_def only_intents_set split: if_splits option.splits)

lemma only_intents_reads:
  assumes "only_intents s t"
  shows "installments t = installments s" "find_contract c t = find_contract c s"
    "find_installment i t = find_installment i s" "applicant k t = applicant k s"
    "applicationProduct k t = applicationProduct k s" "nextUnpaidOf inst t = nextUnpaidOf inst s"
proof -
  obtain xs where "t = s\<lparr>intents := xs\<rparr>" using assms unfolding only_intents_def by blast
  then show "installments t = installments s" "find_contract c t = find_contract c s"
    "find_installment i t = find_installment i s" "applicant k t = applicant k s"
    "applicationProduct k t = applicationProduct k s" "nextUnpaidOf inst t = nextUnpaidOf inst s"
    by (simp_all add: find_contract_def find_installment_def applicant_def applicationOf_def applicationProduct_def
        find_user_def nextUnpaidOf_def contractInstallments_def)
qed

text \<open>A reservation that is not an existing one created its row.\<close>

lemma reserve_fresh:
  assumes "reserve (\<lambda>b t. t) e p s = (Inr v, t)" "\<not> rv_isExisting v" "rp_clientIdempotencyKey p = None"
  shows "rv_intent v = new_intent e p (buildReservationKey p) (env_uuid e 1) \<and>
    t = s\<lparr>intents := intents s @ [rv_intent v]\<rparr>"
  using assms
  by (auto simp: reserve_def reserveInternal_def reserveOnce_def Let_def createIntent_def existingForClient_def or_null_def
      existing_reservation_def isUniqueReservationViolation_def split: sum.splits prod.splits option.splits if_splits)

lemma reserve_existing:
  assumes "intents_ok s" "r \<in> set (intents s)" "pi_status r \<in> ACTIVE_STATUSES" "pi_reservationKey r = buildReservationKey p"
    "rp_clientIdempotencyKey p = None" "env_uuid e 1 \<notin> pi_idempotencyKey ` set (intents s)"
    "assertValidInitializationPayload (rp_payload p) = Inr u"
  shows "reserve (\<lambda>b t. t) e p s = (Inr (existing_reservation r), s)"
proof -
  let ?q = "\<lambda>r. pi_reservationKey r = buildReservationKey p \<and> pi_status r \<in> ACTIVE_STATUSES"
  have inj: "inj_on pi_reservationKey (set (filter (\<lambda>r. pi_status r \<in> ACTIVE_STATUSES) (intents s)))"
    using assms(1) by (simp add: intents_ok_def distinct_map)
  obtain r' where r': "find ?q (intents s) = Some r'"
    using assms(2-4) find_none[of ?q "intents s" r] by (cases "find ?q (intents s)") auto
  then have "r' = r" using find_set[OF r'] assms(2-4) inj_onD[OF inj, of r' r] by auto
  moreover have "createIntent (new_intent e p (buildReservationKey p) (env_uuid e 1)) s = (Inl (UniqueViolation ''reservation_key''), s)"
    using assms(2-4,6) by (force simp: createIntent_def new_intent_def simp del: One_nat_def)
  ultimately show ?thesis
    using r' assms(5,7)
    by (simp add: reserve_def reserveInternal_def reserveOnce_def Let_def existingForClient_def or_null_def
        isUniqueReservationViolation_def)
qed

lemma initialize_ok:
  assumes "initializePaystack pr e i b s = (Inr resp, t)"
  shows "\<exists>intent r. find_intent i s = Some intent \<and> pr (initRequest intent) = Inr resp \<and>
    markInitialized e i (is_reference resp) (is_authorization_url resp) s = (Inr r, t)"
  using assms by (auto simp: initializePaystack_def initFailed_def Let_def
      split: option.splits sum.splits prod.splits if_splits)

text \<open>A transition that returns a row has moved the row of that identifier.\<close>

lemma transition_row:
  assumes "transitionStatus e i to extra s = (Inr r, t)" "find_intent i s = Some r0" "non_terminal r0"
    "\<And>r. pi_intentId (extra r) = pi_intentId r"
  shows "find_intent i t = Some (moved e to extra r0)"
proof -
  have "distinct (List.map_filter pi_reference (update_where (\<lambda>r. pi_intentId r = i \<and> non_terminal r)
      (moved e to extra) (intents s)))"
    using assms(1) by (auto simp: transitionStatus_def Let_def split: if_splits option.splits)
  from transition_ok[OF assms(2-4) this] assms(1) show ?thesis by auto
qed

lemma started_guards:
  assumes "initializeInstallmentPayment tz fe (\<lambda>b t. t) pr e iid cust s = (Inr (StartedPayment resp amt i due), s')"
  shows "\<exists>inst contract customer product el v s1 s2 r.
    find_installment iid s = Some inst \<and> find_contract (in_financingContractId inst) s = Some contract \<and>
    fc_userId contract = Some cust \<and> in_status inst \<noteq> InstallmentStatus.PAID \<and>
    fc_status contract \<in> {FinancingStatus.ACTIVE, FinancingStatus.DEFAULTED} \<and>
    assertInstallmentIsPayable tz e inst s = Inr el \<and> applicant contract s = Some customer \<and> u_email customer \<noteq> '''' \<and>
    applicationProduct contract s = Some product \<and> i = in_installmentId inst \<and>
    reserve (\<lambda>b t. t) e (installmentParams e fe inst customer product) s = (Inr v, s1) \<and> \<not> rv_isExisting v \<and>
    initializePaystack pr e (pi_intentId (rv_intent v)) True s1 = (Inr resp, s2) \<and>
    markPending e (pi_intentId (rv_intent v)) s2 = (Inr r, s')"
  using assms
  by (auto simp: initializeInstallmentPayment_def Let_def split: option.splits if_splits sum.splits prod.splits)

lemma params_key [simp]:
  "buildReservationKey (installmentParams e fe inst cu pr) = ''INSTALLMENT:'' @ in_installmentId inst"
  "rp_clientIdempotencyKey (installmentParams e fe inst cu pr) = None"
  by (simp_all add: buildReservationKey_def installmentParams_def template_def)

lemma params_payload:
  "assertValidInitializationPayload (rp_payload (installmentParams e fe inst cu pr)) = x \<Longrightarrow>
    assertValidInitializationPayload (rp_payload (installmentParams e' fe inst cu pr)) = x"
  by (simp add: installmentParams_def)

lemma reserve_valid_payload:
  "reserve race e p s = (Inr v, t) \<Longrightarrow> assertValidInitializationPayload (rp_payload p) = Inr ()"
  by (auto simp: reserve_def split: sum.splits)

lemma payable_later:
  assumes "assertInstallmentIsPayable tz e i s = Inr el" "only_intents s t" "env_now e \<le> env_now e'"
  shows "\<exists>el'. assertInstallmentIsPayable tz e' i t = Inr el'"
proof -
  have "localDay tz (env_now e) \<le> localDay tz (env_now e')"
    using assms(3) by (simp add: localDay_def msPerDay_def zdiv_mono1)
  moreover have "el_canPay (computeInstallmentEligibility tz i (nextUnpaidOf i s) (env_now e))"
    using assms(1) payable_iff_canPay by blast
  ultimately show ?thesis
    unfolding payable_iff_canPay canPay_iff only_intents_reads(6)[OF assms(2)] by auto
qed

text \<open>The intent a start leaves behind.\<close>

lemma started_intent:
  assumes "intents_ok s" "env_uuid e 0 \<notin> pi_intentId ` set (intents s)" "rp_clientIdempotencyKey p = None"
    "reserve (\<lambda>b t. t) e p s = (Inr v, s1)" "\<not> rv_isExisting v"
    "initializePaystack pr e (pi_intentId (rv_intent v)) True s1 = (Inr resp, s2)"
    "markPending e (pi_intentId (rv_intent v)) s2 = (Inr r, s3)"
  shows "intents_ok s3 \<and> only_intents s s3 \<and> pr (initRequest (rv_intent v)) = Inr resp \<and>
    (\<exists>k \<in> set (intents s3). pi_intentId k = env_uuid e 0 \<and> pi_status k = PaymentInitStatus.PENDING \<and>
      pi_amount k = rp_amount p \<and> pi_installmentId k = rp_installmentId p \<and>
      pi_reservationKey k = buildReservationKey p \<and> pi_reference k = Some (is_reference resp) \<and>
      pi_authorizationUrl k = Some (is_authorization_url resp))"
proof -
  let ?n = "new_intent e p (buildReservationKey p) (env_uuid e 1)"
  have v: "rv_intent v = ?n" and s1: "s1 = s\<lparr>intents := intents s @ [?n]\<rparr>"
    using reserve_fresh[OF assms(4,5,3)] by auto
  have n: "pi_intentId ?n = env_uuid e 0" "non_terminal ?n"
    by (simp_all add: new_intent_def non_terminal_def TERMINAL_STATUSES_def)
  have f1: "find_intent (env_uuid e 0) s1 = Some ?n"
  proof -
    have "find (\<lambda>r. pi_intentId r = env_uuid e 0) (intents s) = None"
      unfolding find_none_iff using assms(2) by force
    then show ?thesis using n by (simp add: find_intent_def s1 find_append del: One_nat_def)
  qed
  obtain r1 where m: "pr (initRequest ?n) = Inr resp"
      "markInitialized e (env_uuid e 0) (is_reference resp) (is_authorization_url resp) s1 = (Inr r1, s2)"
    using initialize_ok[OF assms(6)] v n f1 by auto
  note t1 = m(2)[unfolded markInitialized_def]
  from transition_row[OF t1 f1 n(2)] obtain k where k: "find_intent (env_uuid e 0) s2 = Some k"
      "k = moved e INITIALIZED (\<lambda>r. r\<lparr>pi_reference := Some (is_reference resp),
         pi_authorizationUrl := Some (is_authorization_url resp), pi_recoveryClaimedAt := None\<rparr>) ?n"
    by auto
  have k': "non_terminal k" by (simp add: k(2) moved_def non_terminal_def TERMINAL_STATUSES_def)
  have t2: "transitionStatus e (env_uuid e 0) PaymentInitStatus.PENDING (\<lambda>r. r) s2 = (Inr r, s3)"
    using assms(7) v n by (simp add: markPending_def)
  have f3: "find_intent (env_uuid e 0) s3 = Some (moved e PaymentInitStatus.PENDING (\<lambda>r. r) k)"
    by (rule transition_row[OF t2 k(1) k']) simp
  have "only_intents s s1" by (simp add: s1 only_intents_set)
  then have o: "only_intents s s3"
    using only_intents_transition[OF t1] only_intents_transition[OF t2] only_intents_trans by blast
  have "intent_step s s1" using intent_step.reserves[OF assms(2), of p] assms(4) by simp
  moreover have "intent_step s1 s2"
    using intent_step.initialized[of s1 e "env_uuid e 0" "is_reference resp" "is_authorization_url resp"] m(2) by simp
  moreover have "intent_step s2 s3" using intent_step.pending[of s2 e "env_uuid e 0"] assms(7) v n by simp
  ultimately have "intents_ok s3" using intents_ok_step assms(1) by blast
  moreover have "moved e PaymentInitStatus.PENDING (\<lambda>r. r) k \<in> set (intents s3)"
    using f3 by (auto simp: find_intent_def dest: find_set)
  ultimately show ?thesis
    using o m(1) v by (auto simp: k(2) moved_def new_intent_def intro!: bexI[of _ "moved e PaymentInitStatus.PENDING (\<lambda>r. r) k"])
qed

text \<open>
  Starting the payment of an installment twice leads to one checkout.  A start that
  reached Paystack asked for the installment's amount in kobo and left one PENDING intent for
  the installment, with the reference and address Paystack returned; a second start by the
  customer, at any later time and without asking Paystack, returns that reference and address
  and changes nothing.\<close>

theorem second_start_returns_the_first_checkout:
  assumes "intents_ok s" "env_uuid e 0 \<notin> pi_intentId ` set (intents s)"
    and "initializeInstallmentPayment tz fe (\<lambda>b t. t) pr e iid cust s = (Inr (StartedPayment resp amt i due), s')"
    and "env_now e \<le> env_now e'" "env_uuid e' 1 \<notin> pi_idempotencyKey ` set (intents s')"
  shows "(\<exists>k \<in> set (intents s'). pi_installmentId k = Some iid \<and> pi_status k = PaymentInitStatus.PENDING \<and>
      pi_reference k = Some (is_reference resp) \<and> fl (pi_amount k) = amt) \<and>
    (\<exists>q. pr q = Inr resp \<and> ir_amountKobo q = jsMul amt 100) \<and>
    initializeInstallmentPayment tz fe (\<lambda>b t. t) pr' e' iid cust s' =
      (Inr (ExistingPayment (is_authorization_url resp) (is_reference resp)), s')"
proof -
  from started_guards[OF assms(3)] obtain inst contract customer product el v s1 s2 r where
    g: "find_installment iid s = Some inst" "find_contract (in_financingContractId inst) s = Some contract"
      "fc_userId contract = Some cust" "in_status inst \<noteq> InstallmentStatus.PAID"
      "fc_status contract \<in> {FinancingStatus.ACTIVE, FinancingStatus.DEFAULTED}"
      "assertInstallmentIsPayable tz e inst s = Inr el" "applicant contract s = Some customer" "u_email customer \<noteq> ''''"
      "applicationProduct contract s = Some product"
    and r: "reserve (\<lambda>b t. t) e (installmentParams e fe inst customer product) s = (Inr v, s1)" "\<not> rv_isExisting v"
      "initializePaystack pr e (pi_intentId (rv_intent v)) True s1 = (Inr resp, s2)"
      "markPending e (pi_intentId (rv_intent v)) s2 = (Inr r, s')"
    by blast
  have amt: "amt = fl (in_amount inst)" and iid: "in_installmentId inst = iid"
    using assms(3) g r find_set[OF g(1)[unfolded find_installment_def]]
    by (auto simp: initializeInstallmentPayment_def Let_def)
  from started_intent[OF assms(1,2) params_key(2) r] obtain k where
    k: "intents_ok s'" "only_intents s s'" "pr (initRequest (rv_intent v)) = Inr resp" "k \<in> set (intents s')"
      "pi_status k = PaymentInitStatus.PENDING" "pi_amount k = in_amount inst" "pi_installmentId k = Some iid"
      "pi_reservationKey k = ''INSTALLMENT:'' @ in_installmentId inst" "pi_reference k = Some (is_reference resp)"
      "pi_authorizationUrl k = Some (is_authorization_url resp)"
    using iid by (auto simp: installmentParams_def params_key(1)[unfolded installmentParams_def])
  have "ir_amountKobo (initRequest (rv_intent v)) = jsMul amt 100"
    using reserve_fresh[OF r(1,2)] by (simp add: initRequest_def toKobo_def new_intent_def installmentParams_def amt)
  moreover obtain el' where el': "assertInstallmentIsPayable tz e' inst s' = Inr el'"
    using payable_later[OF g(6) k(2) assms(4)] by blast
  have act: "pi_status k \<in> ACTIVE_STATUSES" by (simp add: k(5) ACTIVE_STATUSES_def)
  have "reserve (\<lambda>b t. t) e' (installmentParams e' fe inst customer product) s' = (Inr (existing_reservation k), s')"
    by (rule reserve_existing[OF k(1,4) act _ params_key(2) assms(5) params_payload[OF reserve_valid_payload[OF r(1)]]])
      (simp only: k(8) params_key)
  then have "initializeInstallmentPayment tz fe (\<lambda>b t. t) pr' e' iid cust s' =
      (Inr (ExistingPayment (is_authorization_url resp) (is_reference resp)), s')"
    using g el' k by (auto simp: initializeInstallmentPayment_def only_intents_reads[OF k(2)] existing_reservation_def)
  ultimately show ?thesis using k by (auto simp: amt)
qed

section \<open>A sample start\<close>

definition sample_application :: kyc_row where
  "sample_application = \<lparr>ka_kycApplicationId = ''ka'', ka_userId = Some ''cust'', ka_onboardingSessionId = Some ''ses'',
     ka_productId = ''pr'', ka_installmentPlanId = ''plan'', ka_variantId = ''va'', ka_idType = ''NIN'', ka_idNumber = ''12345'',
     ka_status = KycApplicationStatus.APPROVED, ka_marketerApproved = True, ka_marketerApprovedAt = Some 0,
     ka_adminApproved = True, ka_adminApprovedAt = Some 0, ka_rejectionReason = None, ka_legalHold = False,
     ka_isUnderFraudReview = False, ka_createdAt = 0\<rparr>"

definition sample_shop :: db where
  "sample_shop = (sample_sale 100)\<lparr>intents := [],
     kycApplications := [sample_application]\<rparr>"

definition sample_provider :: "init_request \<Rightarrow> init_response res" where
  "sample_provider q = Inr \<lparr>is_authorization_url = ''https://pay'', is_reference = ''ref'', is_access_code = ''code''\<rparr>"

lemma sample_payable:
  "\<exists>el. assertInstallmentIsPayable 0 (sample_clock CHR ''p'' 5000) (sample_installment ''in1'' 1 InstallmentStatus.DUE)
     sample_shop = Inr el"
  unfolding payable_iff_canPay canPay_iff
  by (simp add: sample_installment_def unpaid_def nextUnpaidOf_def contractInstallments_def sample_shop_def sample_sale_def
      firstUnpaid_def markerOf_def localDay_def msPerDay_def PAYMENT_WINDOW_DAYS_def sample_clock_def)

lemma sample_start:
  "\<exists>s'. initializeInstallmentPayment 0 ''https://fe'' (\<lambda>b t. t) sample_provider (sample_clock CHR ''p'' 5000) ''in1'' ''cust''
     sample_shop = (Inr (StartedPayment \<lparr>is_authorization_url = ''https://pay'', is_reference = ''ref'',
       is_access_code = ''code''\<rparr> (fl 100) ''in1'' 1000), s') \<and>
     map pi_idempotencyKey (intents s') = [''px'']"
proof -
  obtain el where el: "assertInstallmentIsPayable 0 (sample_clock CHR ''p'' 5000)
      (sample_installment ''in1'' 1 InstallmentStatus.DUE) sample_shop = Inr el"
    using sample_payable by blast
  have f: "find_installment ''in1'' sample_shop = Some (sample_installment ''in1'' 1 InstallmentStatus.DUE)"
    "find_contract ''fc'' sample_shop = Some sample_contract"
    "applicant sample_contract sample_shop = Some (sample_buyer ''cust'' CUSTOMER (Some ''mk''))"
    "applicationProduct sample_contract sample_shop = Some sample_product"
    "intents sample_shop = []"
    by (simp_all add: find_installment_def find_contract_def applicant_def applicationProduct_def applicationOf_def
        find_user_def sample_shop_def sample_sale_def sample_installment_def sample_contract_def sample_buyer_def
        sample_application_def sample_product_def)
  let ?inst = "sample_installment ''in1'' 1 InstallmentStatus.DUE"
  have fields: "in_financingContractId ?inst = ''fc''" "in_status ?inst = InstallmentStatus.DUE" "in_installmentId ?inst = ''in1''"
    "in_amount ?inst = 100" "in_dueDate ?inst = 1000" "in_sequence ?inst = 1"
    "fc_userId sample_contract = Some ''cust''" "fc_status sample_contract = FinancingStatus.ACTIVE"
    "\<And>i r m. u_email (sample_buyer i r m) = i @ ''@x.io''" "\<And>i r m. u_userId (sample_buyer i r m) = i"
    by (simp_all add: sample_installment_def sample_contract_def sample_buyer_def)
  show ?thesis
    by (simp add: initializeInstallmentPayment_def f(1-4) fields el del: One_nat_def)
      (simp add: f(5) sample_installment_def sample_buyer_def installmentParams_def reserve_def reserveInternal_def reserveOnce_def existingForClient_def or_null_def
        assertValidInitializationPayload_def typeofObject_def jsTrimEmpty_def createIntent_def new_intent_def
        initializePaystack_def find_intent_def sample_provider_def markInitialized_def markPending_def transitionStatus_def
        count_where_def non_terminal_def TERMINAL_STATUSES_def moved_def row_simps List.map_filter_def Let_def sample_clock_def)
qed

theorem second_start_returns_the_first_checkout_witness:
  "\<exists>s'. initializeInstallmentPayment 0 ''https://fe'' (\<lambda>b t. t) (\<lambda>q. Inl (PlainError ''not asked'')) (sample_clock CHR ''q'' 6000)
     ''in1'' ''cust'' s' = (Inr (ExistingPayment ''https://pay'' ''ref''), s')"
proof -
  obtain s' where s': "initializeInstallmentPayment 0 ''https://fe'' (\<lambda>b t. t) sample_provider (sample_clock CHR ''p'' 5000)
      ''in1'' ''cust'' sample_shop = (Inr (StartedPayment \<lparr>is_authorization_url = ''https://pay'', is_reference = ''ref'',
       is_access_code = ''code''\<rparr> (fl 100) ''in1'' 1000), s')" "map pi_idempotencyKey (intents s') = [''px'']"
    using sample_start by (elim exE conjE) (rule that)
  have ok: "intents_ok sample_shop" and new: "env_uuid (sample_clock CHR ''p'' 5000) 0 \<notin> pi_intentId ` set (intents sample_shop)"
    by (simp_all add: sample_shop_def intents_ok_def List.map_filter_def)
  have "pi_idempotencyKey ` set (intents s') = {''px''}" using arg_cong[OF s'(2), of set] by simp
  then have new': "env_uuid (sample_clock CHR ''q'' 6000) 1 \<notin> pi_idempotencyKey ` set (intents s')"
    by (simp add: sample_clock_def)
  have "env_now (sample_clock CHR ''p'' 5000) \<le> env_now (sample_clock CHR ''q'' 6000)" by (simp add: sample_clock_def)
  from second_start_returns_the_first_checkout[OF ok new s'(1) this new', THEN conjunct2, THEN conjunct2]
  show ?thesis by (intro exI[of _ s']) (simp only: init_response.simps)
qed

end
