(* ===== verification/Financing.thy ===== *)
theory Financing
  imports Installments
begin

text \<open>
  Defaulted contracts: restructuring and writing off
  (\<open>src/core/services/financing.service.ts\<close>) with the schemas that validate their input
  (\<open>src/shared/schemas/financing.schema.ts\<close>).
\<close>

section \<open>Validated input\<close>

text \<open>
  Numbers arrive as JavaScript numbers, given by the decimal they print as; \<open>firstPaymentDate\<close> is
  already coerced to an instant.
\<close>

record restructure_input =
  ri_interestPercentage :: decimal
  ri_numberOfInstallments :: decimal
  ri_firstPaymentDate :: time

definition parseRestructure :: "restructure_input \<Rightarrow> unit res" where
  "parseRestructure r =
     (if ri_interestPercentage r < 0 then Inl (PlainError ''Interest percentage must be non-negative'')
      else if 100 < ri_interestPercentage r then Inl (PlainError ''Interest percentage cannot exceed 100'')
      else if of_int \<lfloor>ri_numberOfInstallments r\<rfloor> \<noteq> ri_numberOfInstallments r
      then Inl (PlainError ''Number of installments must be an integer'')
      else if ri_numberOfInstallments r < 1 then Inl (PlainError ''At least 1 installment is required'')
      else if 120 < ri_numberOfInstallments r then Inl (PlainError ''Maximum 120 installments allowed'')
      else Inr ())"

definition parseWriteOff :: "string \<Rightarrow> unit res" where
  "parseWriteOff reason =
     (if length reason < 4 then Inl (PlainError ''Write-off reason must be at least 4 characters'')
      else if 500 < length reason then Inl (PlainError ''Write-off reason is too long'')
      else Inr ())"

section \<open>What both operations do to a contract\<close>

definition paidAmountOf :: "ident \<Rightarrow> db \<Rightarrow> decimal" where
  "paidAmountOf cid s = sum_where (\<lambda>i. in_status i = InstallmentStatus.PAID) in_amount (contractInstallments cid s)"

definition openInstallment :: "ident \<Rightarrow> installment_row \<Rightarrow> bool" where
  "openInstallment cid i =
     (in_financingContractId i = cid \<and>
      in_status i \<in> {InstallmentStatus.PENDING, InstallmentStatus.DUE, OVERDUE, InstallmentStatus.DEFAULTED})"

definition voidInstallments :: "ident \<Rightarrow> db \<Rightarrow> db" where
  "voidInstallments cid s =
     s\<lparr>installments := update_where (openInstallment cid) (\<lambda>i. i\<lparr>in_status := VOIDED\<rparr>) (installments s)\<rparr>"

definition updateContract :: "ident \<Rightarrow> (contract_row \<Rightarrow> contract_row) \<Rightarrow> db \<Rightarrow> db" where
  "updateContract cid f s = s\<lparr>contracts := update_where (\<lambda>c. fc_contractId c = cid) f (contracts s)\<rparr>"

text \<open>\<open>createMany\<close> on installments: the index on contract and sequence refuses the batch.\<close>

definition createInstallments :: "env \<Rightarrow> schedule_entry list \<Rightarrow> db \<Rightarrow> unit res \<times> db" where
  "createInstallments e rows s =
     (let new = map (\<lambda>(k, r). \<lparr>in_installmentId = env_uuid e k, in_financingContractId = se_financingContractId r,
            in_dueDate = se_dueDate r, in_amount = se_amount r, in_sequence = se_sequence r,
            in_status = se_status r, in_paidAt = None\<rparr>) (enumerate 0 rows);
          all = installments s @ new
      in if distinct (map (\<lambda>i. (in_financingContractId i, in_sequence i)) all)
         then (Inr (), s\<lparr>installments := all\<rparr>)
         else (Inl (UniqueViolation ''financingContractId_sequence''), s))"

section \<open>Restructuring\<close>

record restructured =
  rs_newTotalFinanced :: rat
  rs_newInstallments :: int

definition restructureEntries :: "decimal \<Rightarrow> decimal \<Rightarrow> decimal \<Rightarrow> ledger_entry list" where
  "restructureEntries newTotal remainingPrincipal newInterest =
     [debit_entry ''CUSTOMER_RECEIVABLE'' ASSET newTotal,
      credit_entry ''BAD_DEBT_RECOVERY'' REVENUE remainingPrincipal,
      credit_entry ''INTEREST_INCOME'' REVENUE newInterest]"

text \<open>\<open>caller.companyId && contract.user.companyId !== caller.companyId\<close>.\<close>

definition foreignCompany :: "user_row \<Rightarrow> user_row \<Rightarrow> bool" where
  "foreignCompany caller owner = (or_null (u_companyId caller) \<noteq> None \<and> u_companyId owner \<noteq> u_companyId caller)"

definition notifyMarketer :: "string \<Rightarrow> ident \<Rightarrow> user_row \<Rightarrow> db \<Rightarrow> db" where
  "notifyMarketer name contractId owner s =
     (case Option.bind (or_null (u_referredByMarketerId owner)) (\<lambda>m. find_user m s) of
        None \<Rightarrow> s
      | Some m \<Rightarrow> emit (Event name contractId) (emit (Notify name (u_userId m)) s))"

definition restructureTx ::
  "int \<Rightarrow> env \<Rightarrow> ident \<Rightarrow> ident \<Rightarrow> restructure_input \<Rightarrow> db \<Rightarrow> restructured res \<times> db" where
  "restructureTx tz e contractId adminUserId r s =
     (case find_contract contractId s of
        None \<Rightarrow> (Inl (NotFoundError ''Contract not found''), s)
      | Some contract \<Rightarrow>
      if fc_status contract \<noteq> FinancingStatus.DEFAULTED
      then (Inl (ForbiddenError ''Only DEFAULTED contracts can be restructured''), s)
      else
     (case customerOf contract s of
        None \<Rightarrow> (Inl (NotFoundError ''Contract owner not found''), s)
      | Some owner \<Rightarrow>
     (case find_user adminUserId s of
        None \<Rightarrow> (Inl (ForbiddenError ''Only admins can restructure contracts''), s)
      | Some caller \<Rightarrow>
      if u_role caller \<noteq> ADMIN \<and> u_role caller \<noteq> COMPANY
      then (Inl (ForbiddenError ''Only admins can restructure contracts''), s)
      else if foreignCompany caller owner
      then (Inl (ForbiddenError ''You are not authorized to modify this contract''), s)
      else
        (let remainingPrincipal = fc_totalFinanced contract - paidAmountOf contractId s;
             newInterest = remainingPrincipal * ri_interestPercentage r / 100;
             newTotalFinanced = remainingPrincipal + newInterest;
             s1 = updateContract contractId (\<lambda>c. c\<lparr>fc_status := RESTRUCTURED, fc_interest := newInterest,
                    fc_totalFinanced := newTotalFinanced, fc_restructuredAt := Some (env_now e),
                    fc_restructuredById := Some adminUserId\<rparr>) s;
             s2 = voidInstallments contractId s1
         in case generateInstallmentSchedule tz contractId (fl newTotalFinanced) \<lfloor>ri_numberOfInstallments r\<rfloor>
                   (ri_firstPaymentDate r) of
              Inl err \<Rightarrow> (Inl err, s2)
            | Inr rows \<Rightarrow>
           (case createInstallments e rows s2 of
              (Inl err, s3) \<Rightarrow> (Inl err, s3)
            | (Inr u, s3) \<Rightarrow>
           (case record_in_book (\<lambda>i. env_uuid e (i + length rows))
                   (''RESTRUCTURE-'' @ contractId @ ''-'' @ show_nat (nat (env_now e))) ''Contract restructured''
                   (u_companyId owner) (restructureEntries newTotalFinanced remainingPrincipal newInterest) s3 of
              (Inl err, s4) \<Rightarrow> (Inl err, s4)
            | (Inr u, s4) \<Rightarrow>
                (Inr \<lparr>rs_newTotalFinanced = fl newTotalFinanced, rs_newInstallments = \<lfloor>ri_numberOfInstallments r\<rfloor>\<rparr>,
                 notifyMarketer ''CONTRACT_RESTRUCTURED'' contractId owner s4)))))))"

definition restructureContract ::
  "int \<Rightarrow> env \<Rightarrow> ident \<Rightarrow> ident \<Rightarrow> restructure_input \<Rightarrow> db \<Rightarrow> restructured res \<times> db" where
  "restructureContract tz e contractId adminUserId r s =
     (case parseRestructure r of
        Inl err \<Rightarrow> (Inl err, s)
      | Inr u \<Rightarrow> transaction (restructureTx tz e contractId adminUserId r) s)"

section \<open>Writing off\<close>

definition writeOffEntries :: "decimal \<Rightarrow> ledger_entry list" where
  "writeOffEntries outstanding =
     [debit_entry ''BAD_DEBT_EXPENSE'' EXPENSE outstanding,
      credit_entry ''CUSTOMER_RECEIVABLE'' ASSET outstanding]"

text \<open>The administrator told of a write-off: the one who created the marketer, else a super-admin.\<close>

definition targetAdmin :: "user_row \<Rightarrow> db \<Rightarrow> user_row option" where
  "targetAdmin owner s =
     (case Option.bind (Option.bind (or_null (u_referredByMarketerId owner)) (\<lambda>m. find_user m s))
             (\<lambda>m. Option.bind (or_null (u_createdById m)) (\<lambda>a. find_user a s)) of
        Some admin \<Rightarrow> Some admin
      | None \<Rightarrow> find (\<lambda>u. u_role u = SUPER_ADMIN) (users s))"

definition tellWrittenOff :: "ident \<Rightarrow> user_row \<Rightarrow> db \<Rightarrow> db" where
  "tellWrittenOff contractId u s =
     emit (Event ''CONTRACT_WRITTEN_OFF'' contractId) (emit (Notify ''CONTRACT_WRITTEN_OFF'' (u_userId u)) s)"

definition writeOffTx :: "env \<Rightarrow> ident \<Rightarrow> ident \<Rightarrow> string \<Rightarrow> db \<Rightarrow> rat res \<times> db" where
  "writeOffTx e contractId companyUserId reason s =
     (case find_contract contractId s of
        None \<Rightarrow> (Inl (NotFoundError ''Contract not found''), s)
      | Some contract \<Rightarrow>
      if fc_status contract \<noteq> FinancingStatus.DEFAULTED \<and> fc_status contract \<noteq> RESTRUCTURED
      then (Inl (ForbiddenError ''Only DEFAULTED or RESTRUCTURED contracts can be written off''), s)
      else
     (case customerOf contract s of
        None \<Rightarrow> (Inl (NotFoundError ''Contract owner not found''), s)
      | Some owner \<Rightarrow>
     (case find_user companyUserId s of
        None \<Rightarrow> (Inl (ForbiddenError ''Only company accounts can write off contracts''), s)
      | Some approver \<Rightarrow>
      if u_role approver \<noteq> COMPANY
      then (Inl (ForbiddenError ''Only company accounts can write off contracts''), s)
      else if foreignCompany approver owner
      then (Inl (ForbiddenError ''You are not authorized to write off this contract''), s)
      else
        (let outstandingAmount = fc_totalFinanced contract - paidAmountOf contractId s;
             s1 = updateContract contractId (\<lambda>c. c\<lparr>fc_status := WRITTEN_OFF, fc_writtenOffAt := Some (env_now e),
                    fc_writtenOffById := Some companyUserId, fc_writeOffReason := Some reason\<rparr>) s;
             s2 = voidInstallments contractId s1
         in case record_in_book (env_uuid e)
                   (''WRITEOFF-'' @ contractId @ ''-'' @ show_nat (nat (env_now e))) ''Contract written off''
                   (u_companyId owner) (writeOffEntries outstandingAmount) s2 of
              (Inl err, s3) \<Rightarrow> (Inl err, s3)
            | (Inr u, s3) \<Rightarrow>
                (let s4 = notifyMarketer ''CONTRACT_WRITTEN_OFF'' contractId owner s3;
                     s5 = (case targetAdmin owner s3 of None \<Rightarrow> s4 | Some a \<Rightarrow> tellWrittenOff contractId a s4)
                 in (Inr (fl outstandingAmount), tellWrittenOff contractId approver s5))))))"

definition writeOffContract :: "env \<Rightarrow> ident \<Rightarrow> ident \<Rightarrow> string \<Rightarrow> db \<Rightarrow> rat res \<times> db" where
  "writeOffContract e contractId companyUserId reason s =
     (case parseWriteOff reason of
        Inl err \<Rightarrow> (Inl err, s)
      | Inr u \<Rightarrow> transaction (writeOffTx e contractId companyUserId reason) s)"

section \<open>What the operations touch\<close>

lemma voidInstallments_frame [simp]:
  "users (voidInstallments c s) = users s" "contracts (voidInstallments c s) = contracts s"
  "book (voidInstallments c s) = book s" "intents (voidInstallments c s) = intents s"
  "payments (voidInstallments c s) = payments s"
  by (simp_all add: voidInstallments_def)

lemma updateContract_frame [simp]:
  "users (updateContract c f s) = users s" "installments (updateContract c f s) = installments s"
  "book (updateContract c f s) = book s" "intents (updateContract c f s) = intents s"
  "payments (updateContract c f s) = payments s"
  "contracts (updateContract c f s) = update_where (\<lambda>x. fc_contractId x = c) f (contracts s)"
  by (simp_all add: updateContract_def)

lemma notify_frame [simp]:
  "contracts (notifyMarketer n c u s) = contracts s" "installments (notifyMarketer n c u s) = installments s"
  "book (notifyMarketer n c u s) = book s" "users (notifyMarketer n c u s) = users s"
  "contracts (tellWrittenOff c u s) = contracts s" "installments (tellWrittenOff c u s) = installments s"
  "book (tellWrittenOff c u s) = book s" "users (tellWrittenOff c u s) = users s"
  by (simp_all add: notifyMarketer_def tellWrittenOff_def split: option.splits)

lemma entries_balanced_financing [simp]:
  "totalDebits (restructureEntries t p i) = totalCredits (restructureEntries t p i) \<longleftrightarrow> t = p + i"
  "totalDebits (writeOffEntries x) = totalCredits (writeOffEntries x)"
  by (simp_all add: restructureEntries_def writeOffEntries_def)

lemma find_updateContract:
  assumes "find_contract c s = Some k" "\<And>x. fc_contractId (f x) = fc_contractId x"
  shows "find_contract c (updateContract c f s) = Some (f k)"
  using find_update_where[of "\<lambda>x. fc_contractId x = c" "\<lambda>x. fc_contractId x = c" f "contracts s"] assms
    find_set[OF assms(1)[unfolded find_contract_def]]
  by (simp add: find_contract_def)

text \<open>A new row whose contract and sequence are taken makes the batch fail.\<close>

lemma createInstallments_clash:
  assumes "i \<in> set (installments s)" "r \<in> set rows" "se_financingContractId r = in_financingContractId i"
    "se_sequence r = in_sequence i"
  shows "createInstallments e rows s = (Inl (UniqueViolation ''financingContractId_sequence''), s)"
proof -
  let ?key = "\<lambda>i. (in_financingContractId i, in_sequence i)"
  let ?new = "map (\<lambda>(k, r). \<lparr>in_installmentId = env_uuid e k, in_financingContractId = se_financingContractId r,
            in_dueDate = se_dueDate r, in_amount = se_amount r, in_sequence = se_sequence r,
            in_status = se_status r, in_paidAt = None\<rparr>) (enumerate 0 rows)"
  obtain k where "k < length rows" "rows ! k = r" using assms(2) by (auto simp: in_set_conv_nth)
  then have "(k, r) \<in> set (enumerate 0 rows)" by (simp add: in_set_enumerate_eq)
  then have "?key i \<in> set (map ?key ?new)" using assms(3,4) by (force simp: image_iff)
  moreover have "?key i \<in> set (map ?key (installments s))" using assms(1) by simp
  ultimately have "\<not> distinct (map ?key (installments s) @ map ?key ?new)" by (meson disjoint_iff distinct_append)
  then have "\<not> distinct (map ?key (installments s @ ?new))" by (simp only: map_append not_False_eq_True)
  then show ?thesis unfolding createInstallments_def Let_def by (simp only: if_False)
qed

section \<open>Properties\<close>

text \<open>C15: No contract that has an installment number 1, as every scheduled contract has, can be
  restructured: the old installments keep their numbers when they are voided, the new schedule
  starts at 1 again, and the unique index on contract and sequence refuses it.  The whole
  transaction is rolled back; when every guard of the operation is passed, the caller sees the
  database error.\<close>

theorem restructuring_a_scheduled_contract_fails:
  assumes "i \<in> set (contractInstallments cid s)" "in_sequence i = 1"
  shows "(\<exists>err. restructureContract tz e cid admin r s = (Inl err, s)) \<and>
    (\<forall>c owner caller. find_contract cid s = Some c \<longrightarrow> fc_status c = FinancingStatus.DEFAULTED \<longrightarrow>
      customerOf c s = Some owner \<longrightarrow> find_user admin s = Some caller \<longrightarrow> u_role caller \<in> {ADMIN, COMPANY} \<longrightarrow>
      \<not> foreignCompany caller owner \<longrightarrow> parseRestructure r = Inr () \<longrightarrow> paidAmountOf cid s < fc_totalFinanced c \<longrightarrow>
      restructureContract tz e cid admin r s = (Inl (UniqueViolation ''financingContractId_sequence''), s))"
proof -
  have i: "in_financingContractId i = cid" "i \<in> set (installments s)"
    using assms(1) by (auto simp: contractInstallments_def)
  have clash: "createInstallments e rows (voidInstallments cid (updateContract cid f s)) =
      (Inl (UniqueViolation ''financingContractId_sequence''), voidInstallments cid (updateContract cid f s))"
    if g: "generateInstallmentSchedule tz cid x m t = Inr rows" for rows f x m t
  proof -
    let ?s = "voidInstallments cid (updateContract cid f s)"
    have m: "0 < nat m" using g by (auto simp: generateInstallmentSchedule_def split: if_splits)
    with schedule_row[OF g] g have "rows ! 0 \<in> set rows" "se_sequence (rows ! 0) = 1" "se_financingContractId (rows ! 0) = cid"
      by (auto simp: generateInstallmentSchedule_def Let_def split: if_splits)
    moreover define j where "j = (if openInstallment cid i then i\<lparr>in_status := VOIDED\<rparr> else i)"
    have "j \<in> set (installments ?s)" "in_financingContractId j = cid" "in_sequence j = 1"
      using i assms(2) by (auto simp: j_def voidInstallments_def set_update_where)
    ultimately show ?thesis using createInstallments_clash[of j ?s "rows ! 0" rows e] by simp
  qed
  have "\<exists>err. fst (restructureTx tz e cid admin r s) = Inl err"
    using clash by (auto simp: restructureTx_def Let_def split: option.splits sum.splits prod.splits)
  then have fails: "\<exists>err. restructureContract tz e cid admin r s = (Inl err, s)"
    by (auto simp: restructureContract_def transaction_def split: sum.splits prod.splits)
  moreover have "restructureContract tz e cid admin r s = (Inl (UniqueViolation ''financingContractId_sequence''), s)"
    if g: "find_contract cid s = Some c" "fc_status c = FinancingStatus.DEFAULTED" "customerOf c s = Some owner"
      "find_user admin s = Some caller" "u_role caller \<in> {ADMIN, COMPANY}" "\<not> foreignCompany caller owner"
      "parseRestructure r = Inr ()" "paidAmountOf cid s < fc_totalFinanced c" for c owner caller
  proof -
    let ?p = "fc_totalFinanced c - paidAmountOf cid s"
    have ip: "0 \<le> ri_interestPercentage r" "1 \<le> ri_numberOfInstallments r"
      using g(7) by (auto simp: parseRestructure_def split: if_splits)
    have "0 < ?p + ?p * ri_interestPercentage r / 100" using g(8) ip(1) by (intro add_pos_nonneg) auto
    moreover have "0 < \<lfloor>ri_numberOfInstallments r\<rfloor>" using ip(2) by linarith
    ultimately obtain rows where rows: "generateInstallmentSchedule tz cid (fl (?p + ?p * ri_interestPercentage r / 100))
        \<lfloor>ri_numberOfInstallments r\<rfloor> (ri_firstPaymentDate r) = Inr rows"
      using fl_pos by (force simp: generateInstallmentSchedule_def Let_def)
    show ?thesis
      using g by (auto simp: restructureContract_def transaction_def restructureTx_def Let_def rows clash[OF rows])
  qed
  ultimately show ?thesis by blast
qed

text \<open>What a write-off that succeeds found and left.\<close>

lemma writeOff_ok:
  assumes "writeOffContract e cid u reason s = (Inr x, s')"
  shows "\<exists>c owner a. find_contract cid s = Some c \<and> fc_status c \<in> {FinancingStatus.DEFAULTED, RESTRUCTURED} \<and>
    customerOf c s = Some owner \<and> find_user u s = Some a \<and> u_role a = COMPANY \<and> \<not> foreignCompany a owner \<and>
    installments s' = installments (voidInstallments cid s) \<and>
    map_option fc_status (find_contract cid s') = Some WRITTEN_OFF \<and>
    book s' = post_labelled (env_uuid e, ''WRITEOFF-'' @ cid @ ''-'' @ show_nat (nat (env_now e)), ''Contract written off'')
      (u_companyId owner) (writeOffEntries (fc_totalFinanced c - paidAmountOf cid s)) (book s)"
proof -
  from assms obtain c owner a where g: "find_contract cid s = Some c" "fc_status c \<in> {FinancingStatus.DEFAULTED, RESTRUCTURED}"
    "customerOf c s = Some owner" "find_user u s = Some a" "u_role a = COMPANY" "\<not> foreignCompany a owner"
    and tx: "writeOffTx e cid u reason s = (Inr x, s')"
    by (auto simp: writeOffContract_def transaction_def writeOffTx_def split: sum.splits prod.splits option.splits if_splits)
  let ?out = "fc_totalFinanced c - paidAmountOf cid s"
  let ?s2 = "voidInstallments cid (updateContract cid (\<lambda>c. c\<lparr>fc_status := WRITTEN_OFF, fc_writtenOffAt := Some (env_now e),
      fc_writtenOffById := Some u, fc_writeOffReason := Some reason\<rparr>) s)"
  note book = record_in_book_balanced[OF entries_balanced_financing(2), of "env_uuid e"
      "''WRITEOFF-'' @ cid @ ''-'' @ show_nat (nat (env_now e))" "''Contract written off''" "u_companyId owner" ?out ?s2]
  have w: "fc_status c \<noteq> FinancingStatus.DEFAULTED \<and> fc_status c \<noteq> RESTRUCTURED \<longleftrightarrow> False" using g(2) by auto
  from tx have "installments s' = installments ?s2 \<and> contracts s' = contracts ?s2 \<and>
      book s' = posted (env_uuid e) (''WRITEOFF-'' @ cid @ ''-'' @ show_nat (nat (env_now e))) ''Contract written off''
        (u_companyId owner) (writeOffEntries ?out) (book ?s2)"
    unfolding writeOffTx_def g(1,3,4) option.case w if_False Let_def book
    by (auto simp: g(5,6) split: option.splits)
  moreover have "map_option fc_status (find_contract cid (updateContract cid (\<lambda>c. c\<lparr>fc_status := WRITTEN_OFF,
      fc_writtenOffAt := Some (env_now e), fc_writtenOffById := Some u, fc_writeOffReason := Some reason\<rparr>) s)) = Some WRITTEN_OFF"
    by (subst find_updateContract[OF g(1)]) simp_all
  ultimately show ?thesis
    using g by (auto simp: find_contract_def voidInstallments_def post_labelled.simps)
qed

lemma voided_statuses:
  assumes "i \<in> set (installments (voidInstallments cid s))" "in_financingContractId i = cid"
  shows "in_status i \<in> {InstallmentStatus.PAID, VOIDED}"
proof -
  have "i \<in> (\<lambda>j. if openInstallment cid j then j\<lparr>in_status := VOIDED\<rparr> else j) ` set (installments s)"
    using assms(1) by (simp add: voidInstallments_def set_update_where)
  then obtain j where j: "i = (if openInstallment cid j then j\<lparr>in_status := VOIDED\<rparr> else j)" by (rule imageE)
  then show ?thesis using assms(2) by (cases "in_status j") (auto simp: openInstallment_def split: if_splits)
qed

lemma paidAmount_void: "paidAmountOf cid (voidInstallments cid s) = paidAmountOf cid s"
proof -
  have "filter (\<lambda>i. in_status i = InstallmentStatus.PAID) (filter (\<lambda>i. in_financingContractId i = cid)
      (update_where (openInstallment cid) (\<lambda>i. i\<lparr>in_status := VOIDED\<rparr>) xs)) =
    filter (\<lambda>i. in_status i = InstallmentStatus.PAID) (filter (\<lambda>i. in_financingContractId i = cid) xs)" for xs
    by (induct xs) (auto simp: row_simps openInstallment_def)
  then show ?thesis
    by (simp add: paidAmountOf_def contractInstallments_def voidInstallments_def sum_where_def)
qed

text \<open>C16: A write-off is only done by a company account of the customer's company (or one without a
  company) on a defaulted or restructured contract; afterwards the contract is WRITTEN_OFF,
  every installment of it is PAID or VOIDED, what was paid stays paid, and the books of the
  customer's company have exactly the outstanding amount moved from the receivable to bad debt.\<close>

theorem write_off_voids_and_expenses_the_rest:
  assumes "writeOffContract e cid u reason s = (Inr x, s')" "books_ok (book s)"
  shows "\<exists>c owner a. find_contract cid s = Some c \<and> fc_status c \<in> {FinancingStatus.DEFAULTED, RESTRUCTURED} \<and>
    customerOf c s = Some owner \<and> find_user u s = Some a \<and> u_role a = COMPANY \<and> \<not> foreignCompany a owner \<and>
    map_option fc_status (find_contract cid s') = Some WRITTEN_OFF \<and>
    (\<forall>i \<in> set (contractInstallments cid s'). in_status i \<in> {InstallmentStatus.PAID, VOIDED}) \<and>
    paidAmountOf cid s' = paidAmountOf cid s \<and>
    (\<forall>c' n. net_debit (book s') c' n = net_debit (book s) c' n +
      (if or_null (u_companyId owner) = c' then
        (let out = fc_totalFinanced c - paidAmountOf cid s in
         (if n = ''BAD_DEBT_EXPENSE'' then out else 0) - (if n = ''CUSTOMER_RECEIVABLE'' then out else 0)) else 0))"
proof -
  from writeOff_ok[OF assms(1)] obtain c owner a where w: "find_contract cid s = Some c"
    "fc_status c \<in> {FinancingStatus.DEFAULTED, RESTRUCTURED}"
    "customerOf c s = Some owner" "find_user u s = Some a" "u_role a = COMPANY" "\<not> foreignCompany a owner"
    "installments s' = installments (voidInstallments cid s)" "map_option fc_status (find_contract cid s') = Some WRITTEN_OFF"
    "book s' = post_labelled (env_uuid e, ''WRITEOFF-'' @ cid @ ''-'' @ show_nat (nat (env_now e)), ''Contract written off'')
      (u_companyId owner) (writeOffEntries (fc_totalFinanced c - paidAmountOf cid s)) (book s)"
    by blast
  have "\<forall>i \<in> set (contractInstallments cid s'). in_status i \<in> {InstallmentStatus.PAID, VOIDED}"
    using voided_statuses[of _ cid s] w(7) by (auto simp: contractInstallments_def)
  moreover have "paidAmountOf cid s' = paidAmountOf cid s"
    using paidAmount_void[of cid s] w(7) by (simp add: paidAmountOf_def contractInstallments_def)
  moreover have "net_debit (book s') c' n = net_debit (book s) c' n +
      (if or_null (u_companyId owner) = c' then
        (let out = fc_totalFinanced c - paidAmountOf cid s in
         (if n = ''BAD_DEBT_EXPENSE'' then out else 0) - (if n = ''CUSTOMER_RECEIVABLE'' then out else 0)) else 0)" for c' n
    unfolding w(9) writeOffEntries_def by (simp add: lb.net_two_legs[OF assms(2)] Let_def del: post_labelled.simps)
  ultimately show ?thesis using w(1-6,8) by blast
qed

text \<open>
  A payment that was started before a write-off and is collected after it undoes the
  write-off: the worker looks neither at the contract's status nor at the installment being
  VOIDED, marks the installment PAID, and, since nothing of the contract is PENDING any more,
  moves the contract from WRITTEN_OFF to COMPLETED.\<close>

theorem late_collection_completes_a_written_off_contract:
  assumes "writeOffContract e cid u reason s = (Inr x, s1)"
    and "find_installment iid s1 = Some i" "in_financingContractId i = cid"
    and "processPayment verify e' iid ref s1 = (Inr (Collected r), s2)"
  shows "map_option fc_status (find_contract cid s1) = Some WRITTEN_OFF \<and> in_status i = VOIDED \<and>
    map_option fc_status (find_contract cid s2) = Some FinancingStatus.COMPLETED \<and>
    map_option in_status (find_installment iid s2) = Some InstallmentStatus.PAID"
proof -
  from writeOff_ok[OF assms(1)] have w: "installments s1 = installments (voidInstallments cid s)"
    "map_option fc_status (find_contract cid s1) = Some WRITTEN_OFF"
    by blast+
  from assms(2-4) obtain contract intent g t where p: "in_status i \<noteq> InstallmentStatus.PAID"
    "find_contract (in_financingContractId i) s1 = Some contract"
    "collect e' i contract intent ref g s1 = (Inr r, t)" "installments s2 = installments t"
    by (elim processPayment_collected) auto
  have i: "i \<in> set (installments s1)" "in_installmentId i = iid"
    using assms(2) by (auto simp: find_installment_def dest: find_set)
  then have v: "in_status i = VOIDED" using voided_statuses[of i cid s] w(1) assms(3) p(1) by auto
  have cid: "fc_contractId contract = cid"
    using p(2) assms(3) by (auto simp: find_contract_def dest: find_set)
  have i2: "installments s2 = update_where (\<lambda>x. in_installmentId x = iid)
      (\<lambda>x. x\<lparr>in_status := InstallmentStatus.PAID, in_paidAt := Some (env_now e')\<rparr>) (installments s1)"
    using collect_ok(1)[OF p(3)] p(4) i(2) by (simp add: payInstallment_def)
  have np: "\<not> (\<exists>k \<in> set (installments s2). in_financingContractId k = fc_contractId contract \<and>
      in_status k = InstallmentStatus.PENDING)"
  proof (clarify)
    fix k assume k: "k \<in> set (installments s2)" "in_financingContractId k = fc_contractId contract"
      "in_status k = InstallmentStatus.PENDING"
    have "k \<in> set (installments s1)" using k(1,3) by (auto simp: i2 set_update_where)
    with voided_statuses[of k cid s] k w(1) cid show False by simp
  qed
  have "map_option fc_status (find_contract cid s2) = Some FinancingStatus.COMPLETED"
    using collected_contract_status[OF assms(4,2) p(2), unfolded if_not_P[OF np]] by (simp only: cid)
  moreover have "map_option in_status (find_installment iid s2) = Some InstallmentStatus.PAID"
    using assms(2) i(2) unfolding find_installment_def i2 by (subst find_update_where) auto
  ultimately show ?thesis using w(2) v by blast
qed

section \<open>A sample default\<close>

definition sample_default :: db where
  "sample_default = (sample_sale 100)\<lparr>contracts := [sample_contract\<lparr>fc_status := FinancingStatus.DEFAULTED\<rparr>],
     users := [sample_buyer ''cust'' CUSTOMER (Some ''mk''), sample_buyer ''mk'' MARKETER None, sample_buyer ''boss'' COMPANY None]\<rparr>"

definition sample_written_off :: "rat res \<times> db" where
  "sample_written_off = writeOffContract (sample_clock CHR ''v'' 4000) ''fc'' ''boss'' ''gone'' sample_default"

lemmas default_runs = sample_default_def sample_written_off_def writeOffContract_def writeOffTx_def parseWriteOff_def
  foreignCompany_def paidAmountOf_def contractInstallments_def sum_where_def updateContract_def voidInstallments_def
  openInstallment_def notifyMarketer_def targetAdmin_def tellWrittenOff_def sale_runs

lemma sample_default_reads:
  "find_contract ''fc'' sample_default = Some (sample_contract\<lparr>fc_status := FinancingStatus.DEFAULTED\<rparr>)"
  "customerOf (sample_contract\<lparr>fc_status := FinancingStatus.DEFAULTED\<rparr>) sample_default = Some (sample_buyer ''cust'' CUSTOMER (Some ''mk''))"
  "find_user ''boss'' sample_default = Some (sample_buyer ''boss'' COMPANY None)"
  "paidAmountOf ''fc'' sample_default = 0" "book sample_default = empty_ledger"
  "\<not> foreignCompany (sample_buyer ''boss'' COMPANY None) (sample_buyer ''cust'' CUSTOMER (Some ''mk''))"
  "sample_installment ''in1'' 1 InstallmentStatus.DUE \<in> set (contractInstallments ''fc'' sample_default)"
  by (simp_all add: default_runs)

theorem restructuring_a_scheduled_contract_fails_witness:
  "restructureContract 0 (sample_clock CHR ''v'' 4000) ''fc'' ''boss''
     \<lparr>ri_interestPercentage = 10, ri_numberOfInstallments = 2, ri_firstPaymentDate = 0\<rparr> sample_default
   = (Inl (UniqueViolation ''financingContractId_sequence''), sample_default)"
proof -
  have "in_sequence (sample_installment ''in1'' 1 InstallmentStatus.DUE) = 1" by (simp add: sample_installment_def)
  from restructuring_a_scheduled_contract_fails[OF sample_default_reads(7) this] show ?thesis
    using sample_default_reads(1-4,6) by (simp add: parseRestructure_def sample_buyer_def sample_contract_def)
qed

lemma sample_written_off_ok: "\<exists>s'. sample_written_off = (Inr (fl 200), s')"
  by (simp add: default_runs record_in_book_balanced Let_def)

theorem write_off_voids_and_expenses_the_rest_witness:
  "net_debit (book (snd sample_written_off)) (Some ''co'') ''BAD_DEBT_EXPENSE'' = 200 \<and>
   net_debit (book (snd sample_written_off)) (Some ''co'') ''CUSTOMER_RECEIVABLE'' = - 200"
proof -
  obtain s' where w: "sample_written_off = (Inr (fl 200), s')" using sample_written_off_ok by blast
  have n: "net_debit empty_ledger c n = 0" for c n
    by (simp add: net_debit_def find_account_def empty_ledger_def)
  have ok: "books_ok (book sample_default)" by (simp add: sample_default_reads books_ok_empty)
  from write_off_voids_and_expenses_the_rest[OF w[unfolded sample_written_off_def] ok] show ?thesis
    by (auto simp: sample_default_reads w n or_null_def Let_def) (simp_all add: sample_buyer_def sample_contract_def)
qed

theorem late_collection_completes_a_written_off_contract_witness:
  "\<exists>s2. map_option fc_status (find_contract ''fc'' (snd sample_written_off)) = Some WRITTEN_OFF \<and>
     processPayment sample_verify (sample_clock CHR ''w'' 5000) ''in1'' ''ref'' (snd sample_written_off) = s2 \<and>
     map_option fc_status (find_contract ''fc'' (snd s2)) = Some FinancingStatus.COMPLETED"
proof -
  obtain s1 where w: "sample_written_off = (Inr (fl 200), s1)" using sample_written_off_ok by blast
  have "\<exists>i r s2. find_installment ''in1'' (snd sample_written_off) = Some i \<and> in_financingContractId i = ''fc'' \<and>
      processPayment sample_verify (sample_clock CHR ''w'' 5000) ''in1'' ''ref'' (snd sample_written_off) = (Inr (Collected r), s2)"
    by (simp add: default_runs record_in_book_balanced Let_def)
  then obtain i r s2 where p: "find_installment ''in1'' s1 = Some i" "in_financingContractId i = ''fc''"
      "processPayment sample_verify (sample_clock CHR ''w'' 5000) ''in1'' ''ref'' s1 = (Inr (Collected r), s2)"
    unfolding w by auto
  from late_collection_completes_a_written_off_contract[OF w[unfolded sample_written_off_def] p] show ?thesis
    by (simp add: w p)
qed

end
