(* ===== verification/Settlement.thy ===== *)
theory Settlement
  imports PayoutTransfer PaymentWorker
begin

text \<open>
  Merchant settlements: generating them from paid installments, queueing, retrying and reading
  them (\<open>src/core/services/merchant-settlement.service.ts\<close>), the transfer worker
  (\<open>src/job-workers/merchant-settlement-transfer.worker.ts\<close>) and the \<open>transfer.*\<close>
  webhooks for references with the settlement prefix
  (\<open>src/core/services/webhook-processor.service.ts\<close>).  Paystack is a parameter.
\<close>

section \<open>Generating\<close>

definition hasLine :: "db \<Rightarrow> ident \<Rightarrow> bool" where
  "hasLine s iid = (\<exists>l \<in> set (settlementLines s). sl_installmentId l = iid)"

definition companyOfInstallment :: "installment_row \<Rightarrow> db \<Rightarrow> ident option" where
  "companyOfInstallment i s =
     Option.bind (find_contract (in_financingContractId i) s) (\<lambda>c. Option.bind (customerOf c s) u_companyId)"

definition unsettled :: "db \<Rightarrow> installment_row list" where
  "unsettled s = filter (\<lambda>i. in_status i = InstallmentStatus.PAID \<and> \<not> hasLine s (in_installmentId i)) (installments s)"

definition eligibleInstallments :: "ident \<Rightarrow> db \<Rightarrow> installment_row list" where
  "eligibleInstallments companyId s = filter (\<lambda>i. companyOfInstallment i s = Some companyId) (unsettled s)"

text \<open>The latest successful payment of an installment.\<close>

definition latestPayment :: "ident \<Rightarrow> db \<Rightarrow> payment_row option" where
  "latestPayment iid s =
     (case sort_key (\<lambda>p. - pm_createdAt p)
        (filter (\<lambda>p. pm_installmentId p = iid \<and> pm_status p = PaymentStatus.SUCCESS) (payments s)) of
        [] \<Rightarrow> None | p # ps \<Rightarrow> Some p)"

definition commissionDeducted :: "ident \<Rightarrow> db \<Rightarrow> decimal" where
  "commissionDeducted iid s =
     (case latestPayment iid s of
        None \<Rightarrow> 0
      | Some p \<Rightarrow> sum_where (\<lambda>c. cm_paymentId c = Some (pm_paymentId p)) cm_amount (commissions s))"

definition lineOf :: "ident \<Rightarrow> db \<Rightarrow> installment_row \<Rightarrow> settlement_line_row" where
  "lineOf settlementId s i =
     \<lparr>sl_settlementId = settlementId, sl_installmentId = in_installmentId i, sl_grossAmount = in_amount i,
      sl_commissionDeducted = commissionDeducted (in_installmentId i) s,
      sl_netAmount = in_amount i - commissionDeducted (in_installmentId i) s\<rparr>"

definition audit :: "ident \<Rightarrow> string \<Rightarrow> SettlementAuditActor \<Rightarrow> ident option \<Rightarrow> string \<Rightarrow> db \<Rightarrow> db" where
  "audit sid action actor by outcome s = s\<lparr>settlementAudit := settlementAudit s @
     [\<lparr>sa_settlementId = sid, sa_action = action, sa_actorType = actor, sa_performedById = by, sa_outcome = outcome\<rparr>]\<rparr>"

definition new_settlement :: "env \<Rightarrow> ident \<Rightarrow> time \<Rightarrow> decimal \<Rightarrow> settlement_row" where
  "new_settlement e companyId periodStart amount =
     \<lparr>ms_settlementId = env_uuid e 0, ms_companyId = companyId, ms_periodStart = periodStart, ms_periodEnd = env_now e,
      ms_amount = amount, ms_status = GENERATED, ms_transferCode = None, ms_companyBankAccountId = None,
      ms_approvedAt = None, ms_transferQueuedAt = None, ms_transferInitiatedAt = None,
      ms_transferCodeReceivedAt = None, ms_webhookReceivedAt = None, ms_transferCompletedAt = None,
      ms_transferFailedAt = None, ms_transferFailReason = None, ms_lastRetryAt = None, ms_retryCount = 0,
      ms_retryInitiatedById = None\<rparr>"

text \<open>The transaction: the unique index on \<open>installmentId\<close> refuses a second line.\<close>

definition storeSettlement :: "env \<Rightarrow> settlement_row \<Rightarrow> settlement_line_row list \<Rightarrow> db \<Rightarrow> settlement_row res \<times> db" where
  "storeSettlement e m lines s =
     (let sid = ms_settlementId m;
          s1 = s\<lparr>settlements := settlements s @ [m]\<rparr>
      in if \<not> distinct (map sl_installmentId (settlementLines s @ lines))
         then (Inl (UniqueViolation ''installmentId''), s1)
         else
           (let s2 = audit sid ''GENERATED'' SYSTEM None ''SUCCESS'' (s1\<lparr>settlementLines := settlementLines s @ lines\<rparr>);
                approve = (\<lambda>m. m\<lparr>ms_status := MerchantSettlementStatus.APPROVED, ms_approvedAt := Some (env_now e)\<rparr>);
                s3 = update_settlement sid approve s2
            in (Inr (approve m), audit sid ''APPROVED'' SYSTEM None ''SUCCESS'' s3)))"

definition generateForCompany :: "env \<Rightarrow> ident \<Rightarrow> db \<Rightarrow> settlement_row option res \<times> db" where
  "generateForCompany e companyId s =
     (let eligible = eligibleInstallments companyId s;
          lines = map (lineOf (env_uuid e 0) s) eligible;
          totalAmount = sum_list (map sl_netAmount lines);
          paidDates = List.map_filter in_paidAt eligible;
          periodStart = (case paidDates of [] \<Rightarrow> env_now e | d # ds \<Rightarrow> foldl min d ds)
      in if eligible = [] then (Inr None, s)
         else if totalAmount \<le> 0 then (Inr None, s)
         else
           (case transaction (storeSettlement e (new_settlement e companyId periodStart totalAmount) lines) s of
              (Inl err, s') \<Rightarrow> (Inl err, s')
            | (Inr m, s') \<Rightarrow> (Inr (Some m), emit (Event ''MERCHANT_SETTLEMENT_GENERATED'' (ms_settlementId m)) s')))"

text \<open>The scheduler's loop; \<open>es k\<close> is the environment of its \<open>k\<close>-th call.\<close>

fun generateLoop :: "(nat \<Rightarrow> env) \<Rightarrow> nat \<Rightarrow> ident list \<Rightarrow> db \<Rightarrow> settlement_row list res \<times> db" where
  "generateLoop es k [] s = (Inr [], s)"
| "generateLoop es k (c # cs) s =
     (case generateForCompany (es k) c s of
        (Inl err, s') \<Rightarrow> (Inl err, s')
      | (Inr m, s') \<Rightarrow>
          (case generateLoop es (Suc k) cs s' of
             (Inl err, s'') \<Rightarrow> (Inl err, s'')
           | (Inr ms, s'') \<Rightarrow> (Inr ((case m of None \<Rightarrow> [] | Some x \<Rightarrow> [x]) @ ms), s'')))"

definition pendingCompanies :: "db \<Rightarrow> ident list" where
  "pendingCompanies s = rev (remdups (rev (List.map_filter (\<lambda>i. or_null (companyOfInstallment i s)) (unsettled s))))"

definition generatePendingSettlements :: "(nat \<Rightarrow> env) \<Rightarrow> db \<Rightarrow> settlement_row list res \<times> db" where
  "generatePendingSettlements es s = generateLoop es 0 (pendingCompanies s) s"

section \<open>Queueing and retrying\<close>

definition transferable :: "db \<Rightarrow> settlement_row \<Rightarrow> bool" where
  "transferable s m =
     (ms_status m = MerchantSettlementStatus.APPROVED \<and> ms_transferInitiatedAt m = None \<and>
      (\<exists>b \<in> set (companyBanks s). cb_companyId b = ms_companyId m \<and> cb_isPrimary b \<and> cb_isVerified b))"

definition queueTransfer :: "env \<Rightarrow> ident \<Rightarrow> db \<Rightarrow> db" where
  "queueTransfer e sid s =
     emit (Job ''process-settlement-transfer'' sid)
       (audit sid ''TRANSFER_INITIATED'' SCHEDULER None ''SUCCESS''
         (update_settlement sid (\<lambda>m. m\<lparr>ms_status := MerchantSettlementStatus.TRANSFER_INITIATED,
            ms_transferQueuedAt := Some (env_now e), ms_transferInitiatedAt := Some (env_now e)\<rparr>) s))"

definition queueEligibleTransfers :: "env \<Rightarrow> db \<Rightarrow> ident list \<times> db" where
  "queueEligibleTransfers e s =
     (let ids = map ms_settlementId (filter (transferable s) (settlements s))
      in (ids, foldl (\<lambda>t i. queueTransfer e i t) s ids))"

definition RETRYABLE_STATUSES :: "MerchantSettlementStatus set" where
  "RETRYABLE_STATUSES = {MerchantSettlementStatus.TRANSFER_FAILED, MerchantSettlementStatus.TRANSFER_REVERSED}"

definition retryTransfer :: "env \<Rightarrow> ident \<Rightarrow> ident \<Rightarrow> db \<Rightarrow> nat res \<times> db" where
  "retryTransfer e sid uid s =
     (if map_option u_role (find_user uid s) \<noteq> Some SUPER_ADMIN
      then (Inl (UnauthorizedError ''Only SUPER_ADMIN can retry a settlement transfer.''), s)
      else
     (case find_settlement sid s of
        None \<Rightarrow> (Inl (NotFoundError ''Settlement not found.''), s)
      | Some m \<Rightarrow>
      if ms_status m \<notin> RETRYABLE_STATUSES then (Inl (BadRequestError ''Cannot retry. Current status''), s)
      else
        (let n = ms_retryCount m + 1
         in (Inr n, emit (Job ''process-settlement-transfer'' sid)
              (audit sid ''RETRY_INITIATED'' USER (Some uid) ''SUCCESS''
                (update_settlement sid (\<lambda>m. m\<lparr>ms_status := MerchantSettlementStatus.TRANSFER_INITIATED,
                   ms_retryCount := n, ms_lastRetryAt := Some (env_now e), ms_retryInitiatedById := Some uid,
                   ms_transferFailedAt := None, ms_transferFailReason := None, ms_transferCode := None\<rparr>) s))))))"

section \<open>Reading\<close>

definition assertVisible :: "ident \<Rightarrow> ident \<Rightarrow> Role \<Rightarrow> db \<Rightarrow> unit res" where
  "assertVisible companyId uid role s =
     (if role = SUPER_ADMIN then Inr ()
      else if role = COMPANY \<or> role = ADMIN
      then (if Option.bind (find_user uid s) u_companyId \<noteq> Some companyId
            then Inl (UnauthorizedError ''This settlement does not belong to your company.'') else Inr ())
      else Inl (UnauthorizedError ''You are not authorized to view merchant settlements.''))"

text \<open>Newest first; a page below 1 makes the database refuse the negative offset.\<close>

definition listSettlements ::
  "ident \<Rightarrow> Role \<Rightarrow> nat option \<Rightarrow> nat option \<Rightarrow> db \<Rightarrow> (settlement_row list \<times> nat \<times> nat \<times> nat) res" where
  "listSettlements uid role page0 limit0 s =
     (let limit = (case limit0 of None \<Rightarrow> 10 | Some l \<Rightarrow> l);
          page = (case page0 of None \<Rightarrow> 1 | Some p \<Rightarrow> p);
          answer = (\<lambda>rows. if page = 0 \<and> 0 < limit then Inl (PlainError ''Invalid value for skip argument'')
            else Inr (take limit (drop ((page - 1) * limit) (rev rows)), length rows, page, limit))
      in if role = COMPANY \<or> role = ADMIN
         then (case or_null (Option.bind (find_user uid s) u_companyId) of
                 None \<Rightarrow> Inl (BadRequestError ''Account is not associated with a company.'')
               | Some c \<Rightarrow> answer (filter (\<lambda>m. ms_companyId m = c) (settlements s)))
         else if role \<noteq> SUPER_ADMIN
         then Inl (UnauthorizedError ''You are not authorized to view merchant settlements.'')
         else answer (settlements s))"

definition getSettlementById :: "ident \<Rightarrow> ident \<Rightarrow> Role \<Rightarrow> db \<Rightarrow> settlement_row res" where
  "getSettlementById sid uid role s =
     (case find_settlement sid s of
        None \<Rightarrow> Inl (NotFoundError ''Settlement not found.'')
      | Some m \<Rightarrow>
          (case assertVisible (ms_companyId m) uid role s of Inl err \<Rightarrow> Inl err | Inr u \<Rightarrow> Inr m))"

definition getAuditTrail :: "ident \<Rightarrow> ident \<Rightarrow> Role \<Rightarrow> db \<Rightarrow> settlement_audit_row list res" where
  "getAuditTrail sid uid role s =
     (case find_settlement sid s of
        None \<Rightarrow> Inl (NotFoundError ''Settlement not found.'')
      | Some m \<Rightarrow>
          let trail = Inr (filter (\<lambda>a. sa_settlementId a = sid) (settlementAudit s)) in
          if role = COMPANY
          then (if Option.bind (find_user uid s) u_companyId \<noteq> Some (ms_companyId m)
                then Inl (UnauthorizedError ''This settlement does not belong to your company.'') else trail)
          else if role \<noteq> SUPER_ADMIN
          then Inl (UnauthorizedError ''You are not authorized to view this audit trail.'')
          else trail)"

section \<open>The transfer worker\<close>

definition bankOfSettlement :: "settlement_row \<Rightarrow> db \<Rightarrow> company_bank_row option" where
  "bankOfSettlement m s = Option.bind (ms_companyBankAccountId m) (\<lambda>i. find (\<lambda>b. cb_id b = i) (companyBanks s))"

definition companyRecipient ::
  "(company_bank_row \<Rightarrow> string res) \<Rightarrow> company_bank_row \<Rightarrow> db \<Rightarrow> string res \<times> db" where
  "companyRecipient createRecipient bank s =
     (case truthy (cb_recipientCode bank) of
        Some code \<Rightarrow> (Inr code, s)
      | None \<Rightarrow>
          (case createRecipient bank of
             Inl err \<Rightarrow> (Inl err, s)
           | Inr code \<Rightarrow>
               (Inr code, s\<lparr>companyBanks := update_where (\<lambda>b. cb_accountId b = cb_accountId bank)
                   (\<lambda>b. b\<lparr>cb_recipientCode := Some code\<rparr>) (companyBanks s)\<rparr>)))"

definition SETTLEMENT_REFERENCE_PREFIX :: string where
  "SETTLEMENT_REFERENCE_PREFIX = ''MST-''"

definition settlementReference :: "ident \<Rightarrow> string" where
  "settlementReference sid = ''MST-'' @ sid"

definition settlementInitEntries :: "settlement_row \<Rightarrow> ledger_entry list" where
  "settlementInitEntries m = [debit_entry ''MERCHANT_PAYABLE'' LIABILITY (ms_amount m),
     credit_entry ''PAYOUTS_IN_TRANSIT'' ASSET (ms_amount m)]"

definition recordSent :: "env \<Rightarrow> settlement_row \<Rightarrow> string \<Rightarrow> db \<Rightarrow> unit res \<times> db" where
  "recordSent e m code s =
     (let sid = ms_settlementId m in
      record_in_book (env_uuid e) (''SETTLEMENT_TRANSFER_INIT_'' @ sid) ''Settlement transfer initiated''
        (Some (ms_companyId m)) (settlementInitEntries m)
        (audit sid ''TRANSFER_INITIATED'' WORKER None ''SUCCESS''
          (update_settlement sid (\<lambda>m. m\<lparr>ms_transferCode := Some code,
             ms_transferCodeReceivedAt := Some (env_now e)\<rparr>) s)))"

definition processSettlementTransfer ::
  "(company_bank_row \<Rightarrow> string res) \<Rightarrow> (rat \<Rightarrow> string \<Rightarrow> string \<Rightarrow> string res) \<Rightarrow> env \<Rightarrow> ident \<Rightarrow> db
     \<Rightarrow> transfer_result res \<times> db" where
  "processSettlementTransfer createRecipient sendTransfer e sid s =
     (case find_settlement sid s of
        None \<Rightarrow> (Inl (PlainError ''Settlement not found''), s)
      | Some m \<Rightarrow>
      if ms_status m \<noteq> MerchantSettlementStatus.TRANSFER_INITIATED then (Inr transfer_result.Skipped, s)
      else
     (case bankOfSettlement m s of
        None \<Rightarrow> (Inl (PlainError ''No bank account linked to settlement''), s)
      | Some bank \<Rightarrow>
     (case companyRecipient createRecipient bank s of
        (Inl err, s1) \<Rightarrow> (Inl err, s1)
      | (Inr recipientCode, s1) \<Rightarrow>
      if truthy (ms_transferCode m) \<noteq> None then (Inr Processed, s1)
      else
     (case sendTransfer (toKobo (ms_amount m)) recipientCode (settlementReference (ms_settlementId m)) of
        Inl err \<Rightarrow> (Inl err, s1)
      | Inr code \<Rightarrow>
     (case transaction (recordSent e m code) s1 of
        (Inl err, s2) \<Rightarrow> (Inl err, s2)
      | (Inr u, s2) \<Rightarrow> (Inr Processed, s2))))))"

text \<open>
  The \<open>failed\<close> listener after the last attempt; the audit row's foreign key refuses a
  settlement that does not exist.
\<close>

definition onSettlementTransferFailed :: "env \<Rightarrow> ident \<Rightarrow> string \<Rightarrow> nat \<Rightarrow> nat option \<Rightarrow> db \<Rightarrow> unit res \<times> db" where
  "onSettlementTransferFailed e sid message attemptsMade attempts s =
     (if attemptsMade < (case attempts of None \<Rightarrow> 3 | Some n \<Rightarrow> n) then (Inr (), s)
      else
        (let s1 = update_settlement sid (\<lambda>m. m\<lparr>ms_status := MerchantSettlementStatus.TRANSFER_FAILED,
               ms_transferFailedAt := Some (env_now e), ms_transferFailReason := Some message\<rparr>) s
         in case find_settlement sid s1 of
              None \<Rightarrow> (Inl (PlainError ''Foreign key constraint violated''), s1)
            | Some m \<Rightarrow> (Inr (), emit (Event ''MERCHANT_SETTLEMENT_TRANSFER_FAILED'' sid)
                (audit sid ''TRANSFER_FAILED'' WORKER None ''FAILURE'' s1))))"

section \<open>The webhooks\<close>

definition settlementSuccessEntries :: "settlement_row \<Rightarrow> ledger_entry list" where
  "settlementSuccessEntries m = [debit_entry ''PAYOUTS_IN_TRANSIT'' ASSET (ms_amount m),
     credit_entry ''BANK_SETTLED'' ASSET (ms_amount m)]"

definition settlementFailedEntries :: "settlement_row \<Rightarrow> ledger_entry list" where
  "settlementFailedEntries m = [debit_entry ''PAYOUTS_IN_TRANSIT'' ASSET (ms_amount m),
     credit_entry ''MERCHANT_PAYABLE'' LIABILITY (ms_amount m)]"

definition settlementReversedEntries :: "settlement_row \<Rightarrow> ledger_entry list" where
  "settlementReversedEntries m = [debit_entry ''BANK_SETTLED'' ASSET (ms_amount m),
     credit_entry ''MERCHANT_PAYABLE'' LIABILITY (ms_amount m)]"

definition handleSettlementTransferSuccess :: "env \<Rightarrow> ident \<Rightarrow> db \<Rightarrow> unit res \<times> db" where
  "handleSettlementTransferSuccess e sid s =
     (case find_settlement sid s of
        None \<Rightarrow> (Inr (), s)
      | Some m \<Rightarrow>
      if ms_status m = MerchantSettlementStatus.TRANSFER_SUCCESS then (Inr (), s)
      else
     (case transaction (\<lambda>s1.
         record_in_book (env_uuid e) (''SETTLEMENT_TRANSFER_SUCCESS_'' @ sid) ''Settlement transfer confirmed''
           (Some (ms_companyId m)) (settlementSuccessEntries m)
           (audit sid ''TRANSFER_SUCCESS'' WEBHOOK None ''SUCCESS''
             (audit sid ''WEBHOOK_RECEIVED'' WEBHOOK None ''SUCCESS''
               (update_settlement sid (\<lambda>m. m\<lparr>ms_status := MerchantSettlementStatus.TRANSFER_SUCCESS,
                  ms_webhookReceivedAt := Some (env_now e), ms_transferCompletedAt := Some (env_now e)\<rparr>) s1)))) s of
        (Inl err, s') \<Rightarrow> (Inl err, s')
      | (Inr u, s') \<Rightarrow> (Inr (), emit (Event ''MERCHANT_SETTLEMENT_TRANSFER_SUCCESS'' sid) s')))"

definition handleSettlementTransferFailed :: "env \<Rightarrow> ident \<Rightarrow> string option \<Rightarrow> db \<Rightarrow> unit res \<times> db" where
  "handleSettlementTransferFailed e sid reason s =
     (case find_settlement sid s of
        None \<Rightarrow> (Inr (), s)
      | Some m \<Rightarrow>
      if ms_status m = MerchantSettlementStatus.TRANSFER_FAILED then (Inr (), s)
      else
     (case transaction (\<lambda>s1.
         record_in_book (env_uuid e) (''SETTLEMENT_TRANSFER_FAILED_'' @ sid) ''Settlement transfer failed''
           (Some (ms_companyId m)) (settlementFailedEntries m)
           (audit sid ''TRANSFER_FAILED'' WEBHOOK None ''FAILURE''
             (update_settlement sid (\<lambda>m. m\<lparr>ms_status := MerchantSettlementStatus.TRANSFER_FAILED,
                ms_webhookReceivedAt := Some (env_now e), ms_transferFailedAt := Some (env_now e),
                ms_transferFailReason := Some (case reason of None \<Rightarrow> ''Transfer failed'' | Some x \<Rightarrow> x)\<rparr>) s1))) s of
        (Inl err, s') \<Rightarrow> (Inl err, s')
      | (Inr u, s') \<Rightarrow> (Inr (), emit (Event ''MERCHANT_SETTLEMENT_TRANSFER_FAILED'' sid) s')))"

definition handleSettlementTransferReversed :: "env \<Rightarrow> ident \<Rightarrow> db \<Rightarrow> unit res \<times> db" where
  "handleSettlementTransferReversed e sid s =
     (case find_settlement sid s of
        None \<Rightarrow> (Inr (), s)
      | Some m \<Rightarrow>
      if ms_status m = MerchantSettlementStatus.TRANSFER_REVERSED then (Inr (), s)
      else
     (case transaction (\<lambda>s1.
         record_in_book (env_uuid e) (''SETTLEMENT_TRANSFER_REVERSED_'' @ sid) ''Settlement transfer reversed''
           (Some (ms_companyId m)) (settlementReversedEntries m)
           (audit sid ''TRANSFER_REVERSED'' WEBHOOK None ''FAILURE''
             (update_settlement sid (\<lambda>m. m\<lparr>ms_status := MerchantSettlementStatus.TRANSFER_REVERSED,
                ms_webhookReceivedAt := Some (env_now e), ms_transferFailedAt := Some (env_now e),
                ms_transferFailReason := Some ''Transfer reversed by Paystack''\<rparr>) s1))) s of
        (Inl err, s') \<Rightarrow> (Inl err, s')
      | (Inr u, s') \<Rightarrow> (Inr (), emit (Event ''MERCHANT_SETTLEMENT_TRANSFER_REVERSED'' sid) s')))"

section \<open>Dispatch on the reference\<close>

definition startsWith :: "string \<Rightarrow> string \<Rightarrow> bool" where
  "startsWith p s = (take (length p) s = p)"

text \<open>\<open>s.replace(p, "")\<close>: the first occurrence goes.\<close>

fun replaceFirst :: "string \<Rightarrow> string \<Rightarrow> string" where
  "replaceFirst p [] = []"
| "replaceFirst p (c # s) = (if startsWith p (c # s) then drop (length p) (c # s) else c # replaceFirst p s)"

definition settlementIdOf :: "string \<Rightarrow> ident" where
  "settlementIdOf reference = replaceFirst SETTLEMENT_REFERENCE_PREFIX reference"

datatype transfer_report = Succeeded | Failed "string option" | Reversed

definition handleTransfer :: "env \<Rightarrow> transfer_report \<Rightarrow> string \<Rightarrow> db \<Rightarrow> unit res \<times> db" where
  "handleTransfer e report reference s =
     (if startsWith SETTLEMENT_REFERENCE_PREFIX reference
      then (let sid = settlementIdOf reference in
            case report of
              Succeeded \<Rightarrow> handleSettlementTransferSuccess e sid s
            | Failed reason \<Rightarrow> handleSettlementTransferFailed e sid reason s
            | Reversed \<Rightarrow> handleSettlementTransferReversed e sid s)
      else
           (case report of
              Succeeded \<Rightarrow> payoutTransferSuccess e reference s
            | Failed reason \<Rightarrow> payoutTransferFailed e reference reason s
            | Reversed \<Rightarrow> payoutTransferReversed e reference s))"

section \<open>What each operation keeps\<close>

lemma audit_frame [simp]:
  "settlements (audit i a k b r s) = settlements s" "settlementLines (audit i a k b r s) = settlementLines s"
  "users (audit i a k b r s) = users s" "book (audit i a k b r s) = book s" "outbox (audit i a k b r s) = outbox s"
  "companyBanks (audit i a k b r s) = companyBanks s" "installments (audit i a k b r s) = installments s"
  "contracts (audit i a k b r s) = contracts s" "payments (audit i a k b r s) = payments s"
  "commissions (audit i a k b r s) = commissions s"
  by (simp_all add: audit_def)

lemma update_settlement_frame [simp]:
  "settlements (update_settlement i f s) = update_where (\<lambda>m. ms_settlementId m = i) f (settlements s)"
  "settlementLines (update_settlement i f s) = settlementLines s" "users (update_settlement i f s) = users s"
  "book (update_settlement i f s) = book s" "outbox (update_settlement i f s) = outbox s"
  "companyBanks (update_settlement i f s) = companyBanks s" "installments (update_settlement i f s) = installments s"
  "contracts (update_settlement i f s) = contracts s" "payments (update_settlement i f s) = payments s"
  "commissions (update_settlement i f s) = commissions s"
  by (simp_all add: update_settlement_def)

lemma settlement_entries_balanced [simp]:
  "totalDebits (settlementInitEntries m) = totalCredits (settlementInitEntries m)"
  "totalDebits (settlementSuccessEntries m) = totalCredits (settlementSuccessEntries m)"
  "totalDebits (settlementFailedEntries m) = totalCredits (settlementFailedEntries m)"
  "totalDebits (settlementReversedEntries m) = totalCredits (settlementReversedEntries m)"
  by (simp_all add: settlementInitEntries_def settlementSuccessEntries_def settlementFailedEntries_def
      settlementReversedEntries_def)

text \<open>The columns no operation changes once a settlement exists.\<close>

definition fixedColumns :: "settlement_row \<Rightarrow> ident \<times> decimal \<times> nat option" where
  "fixedColumns m = (ms_settlementId m, ms_amount m, ms_companyBankAccountId m)"

definition same_settlements :: "db \<Rightarrow> db \<Rightarrow> bool" where
  "same_settlements s t \<longleftrightarrow> map fixedColumns (settlements t) = map fixedColumns (settlements s) \<and>
     settlementLines t = settlementLines s"

lemma same_refl [simp]: "same_settlements s s"
  by (simp add: same_settlements_def)

lemma same_trans: "same_settlements s t \<Longrightarrow> same_settlements t u \<Longrightarrow> same_settlements s u"
  by (simp add: same_settlements_def)

lemma same_update:
  assumes "\<And>m. fixedColumns (f m) = fixedColumns m"
  shows "map fixedColumns (update_where p f xs) = map fixedColumns xs"
  by (simp add: map_update_where assms)

lemma same_fields:
  "settlements t = settlements s \<Longrightarrow> settlementLines t = settlementLines s \<Longrightarrow> same_settlements s t"
  by (simp add: same_settlements_def)

lemma same_queueTransfer: "same_settlements s (queueTransfer e i s)"
  by (simp add: same_settlements_def queueTransfer_def same_update fixedColumns_def)

lemma same_queue [inv_intros]: "same_settlements s (snd (queueEligibleTransfers e s))"
proof -
  have "same_settlements s (foldl (\<lambda>t i. queueTransfer e i t) t ids)" if "same_settlements s t" for t ids
    using that by (induction ids arbitrary: t) (simp_all add: same_trans[OF _ same_queueTransfer])
  then show ?thesis by (simp add: queueEligibleTransfers_def Let_def)
qed

lemma same_retry [inv_intros]: "same_settlements s (snd (retryTransfer e i u s))"
  by (auto simp: retryTransfer_def Let_def same_settlements_def same_update fixedColumns_def split: option.splits)

lemma same_failedListener [inv_intros]: "same_settlements s (snd (onSettlementTransferFailed e i m n k s))"
  by (auto simp: onSettlementTransferFailed_def Let_def same_settlements_def same_update fixedColumns_def split: option.splits)

lemma companyRecipient_frame:
  "companyRecipient cr bank s = (r, s1) \<Longrightarrow> settlements s1 = settlements s \<and> settlementLines s1 = settlementLines s"
  by (auto simp: companyRecipient_def split: option.splits sum.splits)

lemma same_worker [inv_intros]: "same_settlements s (snd (processSettlementTransfer cr st e i s))"
proof -
  have "same_settlements s (snd (transaction (recordSent e m code) s1))" if "companyRecipient cr bank s = (r, s1)" for bank r s1 m code
    using companyRecipient_frame[OF that]
    by (simp add: transaction_def recordSent_def Let_def record_in_book_balanced same_settlements_def same_update fixedColumns_def)
  note tx = this
  have "same_settlements s s1" if "companyRecipient cr bank s = (r, s1)" for bank r s1
    using companyRecipient_frame[OF that] by (auto intro: same_fields)
  then show ?thesis
    by (auto simp: processSettlementTransfer_def split: option.splits prod.splits sum.splits dest: tx) (metis snd_conv tx)+
qed

lemma same_webhooks [inv_intros]:
  "same_settlements s (snd (handleSettlementTransferSuccess e i s))"
  "same_settlements s (snd (handleSettlementTransferFailed e i r s))"
  "same_settlements s (snd (handleSettlementTransferReversed e i s))"
  by (auto simp: handleSettlementTransferSuccess_def handleSettlementTransferFailed_def handleSettlementTransferReversed_def
      transaction_def record_in_book_balanced same_settlements_def same_update fixedColumns_def split: option.splits)

section \<open>The invariant\<close>

definition net_of_settlement :: "ident \<Rightarrow> db \<Rightarrow> decimal" where
  "net_of_settlement sid s = sum_where (\<lambda>l. sl_settlementId l = sid) sl_netAmount (settlementLines s)"

definition settlements_ok :: "db \<Rightarrow> bool" where
  "settlements_ok s \<longleftrightarrow>
     distinct (map sl_installmentId (settlementLines s)) \<and>
     distinct (map ms_settlementId (settlements s)) \<and>
     (\<forall>m \<in> set (settlements s). ms_companyBankAccountId m = None \<and> 0 < ms_amount m \<and>
        ms_amount m = net_of_settlement (ms_settlementId m) s) \<and>
     (\<forall>l \<in> set (settlementLines s). sl_netAmount l = sl_grossAmount l - sl_commissionDeducted l \<and>
        sl_settlementId l \<in> ms_settlementId ` set (settlements s))"

lemma settlements_ok_same:
  assumes "same_settlements s t" "settlements_ok s"
  shows "settlements_ok t"
proof -
  have k: "map fixedColumns (settlements t) = map fixedColumns (settlements s)" "settlementLines t = settlementLines s"
    using assms(1) by (simp_all add: same_settlements_def)
  have ids: "map ms_settlementId (settlements t) = map ms_settlementId (settlements s)"
    using arg_cong[OF k(1), of "map fst"] by (simp add: fixedColumns_def comp_def)
  have rows: "\<exists>n \<in> set (settlements s). fixedColumns m = fixedColumns n" if "m \<in> set (settlements t)" for m
  proof -
    have "fixedColumns m \<in> fixedColumns ` set (settlements s)" using that arg_cong[OF k(1), of set] by force
    then show ?thesis by blast
  qed
  have m: "\<forall>m \<in> set (settlements t). ms_companyBankAccountId m = None \<and> 0 < ms_amount m \<and>
      ms_amount m = net_of_settlement (ms_settlementId m) t"
  proof
    fix m assume "m \<in> set (settlements t)"
    from rows[OF this] obtain n where n: "n \<in> set (settlements s)" "fixedColumns m = fixedColumns n" by blast
    have "ms_companyBankAccountId n = None" "0 < ms_amount n" "ms_amount n = net_of_settlement (ms_settlementId n) s"
      using assms(2) n(1) unfolding settlements_ok_def by blast+
    moreover have "net_of_settlement i t = net_of_settlement i s" for i by (simp add: net_of_settlement_def k(2))
    ultimately show "ms_companyBankAccountId m = None \<and> 0 < ms_amount m \<and>
        ms_amount m = net_of_settlement (ms_settlementId m) t"
      using n(2) by (simp add: fixedColumns_def)
  qed
  have "ms_settlementId ` set (settlements t) = ms_settlementId ` set (settlements s)"
    using arg_cong[OF ids, of set] by simp
  then show ?thesis using assms(2) m ids k(2) unfolding settlements_ok_def by (simp only:) blast
qed

lemma generate_result:
  assumes "generateForCompany e c s = (Inr (Some m), t)"
  shows "eligibleInstallments c s \<noteq> []"
    "settlementLines t = settlementLines s @ map (lineOf (env_uuid e 0) s) (eligibleInstallments c s)"
    "distinct (map sl_installmentId (settlementLines t))"
    "ms_settlementId m = env_uuid e 0" "ms_companyId m = c" "ms_status m = MerchantSettlementStatus.APPROVED"
    "ms_companyBankAccountId m = None"
    "ms_amount m = sum_list (map sl_netAmount (map (lineOf (env_uuid e 0) s) (eligibleInstallments c s)))" "0 < ms_amount m"
    "env_uuid e 0 \<notin> ms_settlementId ` set (settlements s) \<Longrightarrow> settlements t = settlements s @ [m]"
    "installments t = installments s" "contracts t = contracts s" "users t = users s"
proof -
  note d = assms[unfolded generateForCompany_def Let_def transaction_def storeSettlement_def]
  show "eligibleInstallments c s \<noteq> []"
    "settlementLines t = settlementLines s @ map (lineOf (env_uuid e 0) s) (eligibleInstallments c s)"
    "distinct (map sl_installmentId (settlementLines t))"
    "ms_settlementId m = env_uuid e 0" "ms_companyId m = c" "ms_status m = MerchantSettlementStatus.APPROVED"
    "ms_companyBankAccountId m = None"
    "ms_amount m = sum_list (map sl_netAmount (map (lineOf (env_uuid e 0) s) (eligibleInstallments c s)))" "0 < ms_amount m"
    "installments t = installments s" "contracts t = contracts s" "users t = users s"
    using d by (auto simp: new_settlement_def split: if_splits)
  assume "env_uuid e 0 \<notin> ms_settlementId ` set (settlements s)"
  then have "update_where (\<lambda>m. ms_settlementId m = env_uuid e 0) f (settlements s) = settlements s" for f
    by (intro update_where_no_match) (metis image_eqI)
  then show "settlements t = settlements s @ [m]"
    using d by (auto simp: new_settlement_def row_simps split: if_splits)
qed

lemma generate_none:
  "generateForCompany e c s = (Inr None, t) \<Longrightarrow> t = s" "generateForCompany e c s = (Inl err, t) \<Longrightarrow> t = s"
  by (auto simp: generateForCompany_def Let_def transaction_def storeSettlement_def split: if_splits)

lemma sum_where_map: "sum_where p f (map g xs) = sum_list (map f (map g (filter (\<lambda>x. p (g x)) xs)))"
  by (simp add: sum_where_def filter_map comp_def)

lemma settlements_ok_generate:
  assumes "settlements_ok s" "env_uuid e 0 \<notin> ms_settlementId ` set (settlements s)"
  shows "settlements_ok (snd (generateForCompany e c s))"
proof (cases "generateForCompany e c s")
  case (Pair r t)
  show ?thesis
  proof (cases r)
    case (Inl err)
    have "t = s" by (rule generate_none(2)[OF Pair[unfolded Inl]])
    with Pair assms(1) show ?thesis by simp
  next
    case (Inr o')
    show ?thesis
    proof (cases o')
      case None
      have "t = s" by (rule generate_none(1)[OF Pair[unfolded Inr None]])
      with Pair assms(1) show ?thesis by simp
    next
      case (Some m)
      note g = generate_result[OF Pair[unfolded Inr Some]]
      let ?new = "map (lineOf (env_uuid e 0) s) (eligibleInstallments c s)"
      have new: "sl_settlementId l = env_uuid e 0" "sl_netAmount l = sl_grossAmount l - sl_commissionDeducted l"
        if "l \<in> set ?new" for l
        using that by (auto simp: lineOf_def)
      have old: "sl_settlementId l \<noteq> env_uuid e 0" if "l \<in> set (settlementLines s)" for l
        using assms that unfolding settlements_ok_def by metis
      have split: "net_of_settlement i t = net_of_settlement i s +
          sum_where (\<lambda>l. sl_settlementId l = i) sl_netAmount ?new" for i
        by (simp only: net_of_settlement_def g(2) sum_where_append)
      have none: "sum_where p f xs = 0" if "\<And>x. x \<in> set xs \<Longrightarrow> \<not> p x" for p :: "settlement_line_row \<Rightarrow> bool" and f xs
        unfolding sum_where_def using that by (subst filter_False) auto
      have all: "sum_where p f xs = sum_list (map f xs)" if "\<And>x. x \<in> set xs \<Longrightarrow> p x" for p :: "settlement_line_row \<Rightarrow> bool" and f xs
        unfolding sum_where_def using that by (subst filter_True) auto
      have "net_of_settlement (env_uuid e 0) s = 0" unfolding net_of_settlement_def by (rule none[OF old])
      moreover have "sum_where (\<lambda>l. sl_settlementId l = env_uuid e 0) sl_netAmount ?new = ms_amount m"
        unfolding g(8) by (rule all[OF new(1)])
      ultimately have "net_of_settlement (env_uuid e 0) t = ms_amount m" unfolding split by simp
      moreover have "net_of_settlement i t = net_of_settlement i s" if "i \<noteq> env_uuid e 0" for i
      proof -
        have "sum_where (\<lambda>l. sl_settlementId l = i) sl_netAmount ?new = 0" by (rule none) (use new(1) that in metis)
        then show ?thesis unfolding split by simp
      qed
      ultimately have net: "net_of_settlement (env_uuid e 0) t = ms_amount m"
        "\<And>i. i \<noteq> env_uuid e 0 \<Longrightarrow> net_of_settlement i t = net_of_settlement i s" by blast+
      have ids: "\<forall>n \<in> set (settlements s). ms_settlementId n \<noteq> env_uuid e 0" using assms(2) by (metis image_eqI)
      note ok = assms(1)[unfolded settlements_ok_def]
      have rows: "settlements t = settlements s @ [m]" by (rule g(10)[OF assms(2)])
      have a: "\<forall>n \<in> set (settlements t). ms_companyBankAccountId n = None \<and> 0 < ms_amount n \<and>
          ms_amount n = net_of_settlement (ms_settlementId n) t"
      proof
        fix n assume "n \<in> set (settlements t)"
        then consider "n \<in> set (settlements s)" | "n = m" unfolding rows by auto
        then show "ms_companyBankAccountId n = None \<and> 0 < ms_amount n \<and> ms_amount n = net_of_settlement (ms_settlementId n) t"
        proof cases
          case 1
          with ok have "ms_companyBankAccountId n = None \<and> 0 < ms_amount n \<and> ms_amount n = net_of_settlement (ms_settlementId n) s"
            by blast
          with 1 ids net(2)[of "ms_settlementId n"] show ?thesis by simp
        next
          case 2
          with net(1) g(4,7,9) show ?thesis by simp
        qed
      qed
      have b: "\<forall>l \<in> set (settlementLines t). sl_netAmount l = sl_grossAmount l - sl_commissionDeducted l \<and>
          sl_settlementId l \<in> ms_settlementId ` set (settlements t)"
      proof
        fix l assume "l \<in> set (settlementLines t)"
        then consider "l \<in> set (settlementLines s)" | "l \<in> set ?new" unfolding g(2) by auto
        then show "sl_netAmount l = sl_grossAmount l - sl_commissionDeducted l \<and>
          sl_settlementId l \<in> ms_settlementId ` set (settlements t)"
          using ok new[of l] g(4) unfolding rows by cases simp_all
      qed
      have "distinct (map ms_settlementId (settlements t))" using ok assms(2) g(4) unfolding rows by simp
      with g(3) a b have "settlements_ok t" unfolding settlements_ok_def by blast
      with Pair show ?thesis by simp
    qed
  qed
qed

section \<open>Steps and reachable states\<close>

text \<open>
  Every operation on settlements, and \<open>elsewhere\<close> for all that touches other tables (payments,
  commissions, bank accounts).  The identifier drawn for a new settlement is new.
\<close>

inductive settlement_step :: "db \<Rightarrow> db \<Rightarrow> bool" where
  generates: "env_uuid e 0 \<notin> ms_settlementId ` set (settlements s) \<Longrightarrow>
    settlement_step s (snd (generateForCompany e c s))"
| queues: "settlement_step s (snd (queueEligibleTransfers e s))"
| retries: "settlement_step s (snd (retryTransfer e i u s))"
| worker: "settlement_step s (snd (processSettlementTransfer cr st e i s))"
| gave_up: "settlement_step s (snd (onSettlementTransferFailed e i m n k s))"
| succeeded: "settlement_step s (snd (handleSettlementTransferSuccess e i s))"
| failed: "settlement_step s (snd (handleSettlementTransferFailed e i r s))"
| reversed: "settlement_step s (snd (handleSettlementTransferReversed e i s))"
| elsewhere: "settlements t = settlements s \<Longrightarrow> settlementLines t = settlementLines s \<Longrightarrow> settlement_step s t"

lemma settlements_ok_step: "settlement_step s t \<Longrightarrow> settlements_ok s \<Longrightarrow> settlements_ok t"
  by (induction rule: settlement_step.induct)
    (auto intro: settlements_ok_generate settlements_ok_same[OF same_queue] settlements_ok_same[OF same_retry]
      settlements_ok_same[OF same_worker] settlements_ok_same[OF same_failedListener] settlements_ok_same[OF same_webhooks(1)]
      settlements_ok_same[OF same_webhooks(2)] settlements_ok_same[OF same_webhooks(3)] settlements_ok_same[OF same_fields])

lemma settlements_ok_steps: "settlement_step\<^sup>*\<^sup>* s t \<Longrightarrow> settlements_ok s \<Longrightarrow> settlements_ok t"
  by (induction rule: rtranclp_induct) (auto intro: settlements_ok_step)

lemma settlements_ok_start: "settlements s = [] \<Longrightarrow> settlementLines s = [] \<Longrightarrow> settlements_ok s"
  by (simp add: settlements_ok_def)

section \<open>A sample settlement\<close>

text \<open>The sale of \<open>sample_sale\<close> after its first installment of 100 was paid, 10 of it commission.\<close>

definition sample_collected :: db where
  "sample_collected = (sample_sale 100)\<lparr>
     installments := [(sample_installment ''in1'' 1 InstallmentStatus.PAID)\<lparr>in_paidAt := Some 5000\<rparr>,
       sample_installment ''in2'' 2 OVERDUE],
     payments := [\<lparr>pm_paymentId = ''w'', pm_installmentId = ''in1'', pm_amount = 100, pm_status = PaymentStatus.SUCCESS,
       pm_providerReference = Some ''ref'', pm_idempotencyKey = Some ''ref'', pm_createdAt = 5000\<rparr>],
     commissions := [\<lparr>cm_commissionId = ''wx'', cm_userId = ''mk'', cm_paymentId = Some ''w'', cm_amount = 10,
       cm_status = CommissionStatus.ACTIVE, cm_reservedAmount = 0, cm_createdAt = 5000\<rparr>]\<rparr>"

definition sample_settle :: "settlement_row option res \<times> db" where
  "sample_settle = generateForCompany (sample_clock CHR ''g'' 7000) ''co'' sample_collected"

lemma sample_collected_tables:
  "settlements sample_collected = []" "settlementLines sample_collected = []"
  by (simp_all add: sample_collected_def sample_sale_def empty_db_def)

lemma sample_eligible:
  "eligibleInstallments ''co'' sample_collected = [(sample_installment ''in1'' 1 InstallmentStatus.PAID)\<lparr>in_paidAt := Some 5000\<rparr>]"
  "commissionDeducted ''in1'' sample_collected = 10"
  by (simp_all add: eligibleInstallments_def unsettled_def hasLine_def sample_collected_tables companyOfInstallment_def
        commissionDeducted_def latestPayment_def sum_where_def sample_contract_def
        find_contract_def customerOf_def find_user_def sample_installment_def sample_sale_def sample_buyer_def sample_collected_def empty_db_def)

lemma sample_settled:
  "\<exists>m t. sample_settle = (Inr (Some m), t) \<and> ms_settlementId m = ''g'' \<and> ms_amount m = 90"
  by (simp add: sample_settle_def generateForCompany_def sample_eligible sample_collected_tables transaction_def
      storeSettlement_def lineOf_def new_settlement_def sample_installment_def sample_clock_def Let_def)

section \<open>Properties\<close>

text \<open>C17: Settlements account for every installment once.  However generation, queueing, retries, the
  worker, the webhooks and the rest of the program interleave, no installment is in two
  settlement lines, every line's net amount is its gross amount less the commission, and every
  settlement is for a positive amount that is exactly the sum of its lines.\<close>

theorem installments_are_settled_once:
  assumes "settlements s = []" "settlementLines s = []" "settlement_step\<^sup>*\<^sup>* s t"
  shows "distinct (map sl_installmentId (settlementLines t)) \<and>
    (\<forall>l \<in> set (settlementLines t). sl_netAmount l = sl_grossAmount l - sl_commissionDeducted l \<and>
       (\<exists>!m. m \<in> set (settlements t) \<and> ms_settlementId m = sl_settlementId l)) \<and>
    (\<forall>m \<in> set (settlements t). 0 < ms_amount m \<and>
       ms_amount m = sum_where (\<lambda>l. sl_settlementId l = ms_settlementId m) sl_netAmount (settlementLines t))"
proof -
  have t: "settlements_ok t" by (rule settlements_ok_steps[OF assms(3) settlements_ok_start[OF assms(1,2)]])
  then have "inj_on ms_settlementId (set (settlements t))" by (simp add: settlements_ok_def distinct_map)
  then have "\<exists>!m. m \<in> set (settlements t) \<and> ms_settlementId m = i" if "i \<in> ms_settlementId ` set (settlements t)" for i
    using that by (auto dest: inj_onD)
  with t show ?thesis unfolding settlements_ok_def net_of_settlement_def by blast
qed

lemma sample_settle_steps: "settlement_step\<^sup>*\<^sup>* sample_collected (snd sample_settle)"
  unfolding sample_settle_def by (rule r_into_rtranclp, rule settlement_step.generates) (simp add: sample_collected_tables)

theorem installments_are_settled_once_witness:
  "\<exists>m \<in> set (settlements (snd sample_settle)). ms_amount m = 90 \<and>
     sum_where (\<lambda>l. sl_settlementId l = ''g'') sl_netAmount (settlementLines (snd sample_settle)) = 90"
proof -
  obtain m t where m: "sample_settle = (Inr (Some m), t)" "ms_settlementId m = ''g''" "ms_amount m = 90"
    using sample_settled by (elim exE conjE) (rule that)
  have "settlements t = settlements sample_collected @ [m]"
    by (rule generate_result(10)[OF m(1)[unfolded sample_settle_def]]) (simp add: sample_collected_tables)
  then have in_t: "m \<in> set (settlements (snd sample_settle))" by (simp add: m(1))
  from bspec[OF installments_are_settled_once[OF sample_collected_tables sample_settle_steps, THEN conjunct2, THEN conjunct2] this]
  have "sum_where (\<lambda>l. sl_settlementId l = ''g'') sl_netAmount (settlementLines (snd sample_settle)) = 90"
    by (simp only: m(2,3))
  with in_t m(3) show ?thesis by blast
qed

text \<open>
  No settlement is ever transferred.  No operation of the program links a bank account to a
  settlement, so in every reachable state the transfer worker, for every settlement and
  whatever Paystack would answer, either skips the job or throws before it calls Paystack; it
  writes nothing.\<close>

theorem settlements_are_never_transferred:
  assumes "settlements s = []" "settlementLines s = []" "settlement_step\<^sup>*\<^sup>* s t"
  shows "snd (processSettlementTransfer cr st e i t) = t \<and>
    (fst (processSettlementTransfer cr st e i t) = Inr transfer_result.Skipped \<or>
     (\<exists>msg. fst (processSettlementTransfer cr st e i t) = Inl (PlainError msg))) \<and>
    (\<forall>m. find_settlement i t = Some m \<longrightarrow> ms_status m = MerchantSettlementStatus.TRANSFER_INITIATED \<longrightarrow>
       processSettlementTransfer cr st e i t = (Inl (PlainError ''No bank account linked to settlement''), t))"
proof -
  have t: "settlements_ok t" by (rule settlements_ok_steps[OF assms(3) settlements_ok_start[OF assms(1,2)]])
  have "bankOfSettlement m t = None" if "find_settlement i t = Some m" for m
  proof -
    have "m \<in> set (settlements t)" using that by (auto simp: find_settlement_def dest: find_set)
    then show ?thesis using t by (simp add: settlements_ok_def bankOfSettlement_def)
  qed
  then show ?thesis by (auto simp: processSettlementTransfer_def split: option.splits)
qed

theorem settlements_are_never_transferred_witness:
  "fst (processSettlementTransfer (\<lambda>b. Inr ''RCP'') (\<lambda>k r i. Inr ''TRF'') (sample_clock CHR ''w'' 9000) ''g''
     (snd (queueEligibleTransfers (sample_clock CHR ''q'' 8000) (snd sample_settle)))) \<noteq> Inr Processed"
proof -
  have "settlement_step\<^sup>*\<^sup>* sample_collected (snd (queueEligibleTransfers (sample_clock CHR ''q'' 8000) (snd sample_settle)))"
    using sample_settle_steps settlement_step.queues by (meson rtranclp.rtrancl_into_rtrancl)
  from settlements_are_never_transferred[OF sample_collected_tables this, of "\<lambda>b. Inr ''RCP''" "\<lambda>k r i. Inr ''TRF''"
      "sample_clock CHR ''w'' 9000" "''g''"]
  show ?thesis by auto
qed

text \<open>C18: References come back to the settlement they name: whatever the identifier, the reference
  the worker sends to Paystack starts with the prefix, the webhook recovers the identifier from
  it and runs the settlement's handler; a reference without the prefix runs the payout's.\<close>

theorem transfer_references_round_trip:
  "settlementIdOf (settlementReference sid) = sid \<and>
   handleTransfer e report (settlementReference sid) s =
     (case report of Succeeded \<Rightarrow> handleSettlementTransferSuccess e sid s
      | Failed reason \<Rightarrow> handleSettlementTransferFailed e sid reason s
      | Reversed \<Rightarrow> handleSettlementTransferReversed e sid s) \<and>
   (startsWith SETTLEMENT_REFERENCE_PREFIX pid \<or> handleTransfer e report pid s =
     (case report of Succeeded \<Rightarrow> payoutTransferSuccess e pid s
      | Failed reason \<Rightarrow> payoutTransferFailed e pid reason s
      | Reversed \<Rightarrow> payoutTransferReversed e pid s))"
proof -
  have "settlementIdOf (settlementReference sid) = sid"
    by (simp add: settlementIdOf_def settlementReference_def SETTLEMENT_REFERENCE_PREFIX_def startsWith_def)
  moreover have "startsWith SETTLEMENT_REFERENCE_PREFIX (settlementReference sid)"
    by (simp add: settlementReference_def SETTLEMENT_REFERENCE_PREFIX_def startsWith_def)
  ultimately show ?thesis
    by (simp add: handleTransfer_def)
qed

text \<open>C19: A generated settlement is for the company, approved at once, and for the sum over its
  unsettled paid installments of the amount less the commission; it leaves nothing unsettled
  for the company, so that generating again creates nothing, and it takes nothing from any
  other company.\<close>

theorem generation_settles_everything_once:
  assumes "generateForCompany e c s = (Inr (Some m), t)" "distinct (map in_installmentId (installments s))"
  shows "ms_companyId m = c \<and> ms_status m = MerchantSettlementStatus.APPROVED \<and>
    ms_amount m = (\<Sum>i\<leftarrow>eligibleInstallments c s. in_amount i - commissionDeducted (in_installmentId i) s) \<and>
    eligibleInstallments c t = [] \<and> generateForCompany e' c t = (Inr None, t) \<and>
    (d = c \<or> eligibleInstallments d t = eligibleInstallments d s)"
proof -
  note g = generate_result[OF assms(1)]
  have has: "hasLine t iid \<longleftrightarrow> hasLine s iid \<or> iid \<in> in_installmentId ` set (eligibleInstallments c s)" for iid
    by (auto simp: hasLine_def g(2) lineOf_def bex_Un image_iff)
  have co: "companyOfInstallment i t = companyOfInstallment i s" for i
    by (simp add: companyOfInstallment_def find_contract_def customerOf_def find_user_def g(12,13))
  have elig: "eligibleInstallments k t = filter (\<lambda>i. in_installmentId i \<notin> in_installmentId ` set (eligibleInstallments c s))
      (eligibleInstallments k s)" for k
    by (auto simp: eligibleInstallments_def[of k] unsettled_def has co g(11) intro!: filter_cong)
  have "eligibleInstallments c t = []" unfolding elig by (auto simp: filter_empty_conv)
  moreover from this have "generateForCompany e' c t = (Inr None, t)" by (simp add: generateForCompany_def Let_def)
  moreover have "eligibleInstallments d t = eligibleInstallments d s" if "d \<noteq> c"
    unfolding elig
  proof (rule filter_True, rule ballI)
    fix i assume i: "i \<in> set (eligibleInstallments d s)"
    show "in_installmentId i \<notin> in_installmentId ` set (eligibleInstallments c s)"
    proof
      assume "in_installmentId i \<in> in_installmentId ` set (eligibleInstallments c s)"
      then obtain j where j: "j \<in> set (eligibleInstallments c s)" "in_installmentId j = in_installmentId i" by auto
      have "j \<in> set (installments s)" "i \<in> set (installments s)"
        using i j(1) by (auto simp: eligibleInstallments_def unsettled_def)
      with j(2) assms(2) have "j = i" by (auto simp: distinct_map dest: inj_onD)
      with i j(1) that show False by (auto simp: eligibleInstallments_def)
    qed
  qed
  moreover have "ms_amount m = (\<Sum>i\<leftarrow>eligibleInstallments c s. in_amount i - commissionDeducted (in_installmentId i) s)"
    unfolding g(8) by (simp add: lineOf_def comp_def)
  ultimately show ?thesis using g(5,6) by blast
qed

theorem generation_settles_everything_once_witness:
  "generateForCompany (sample_clock CHR ''h'' 8000) ''co'' (snd sample_settle) = (Inr None, snd sample_settle)"
proof -
  obtain m t where m: "sample_settle = (Inr (Some m), t)" using sample_settled by (elim exE conjE) (rule that)
  have "distinct (map in_installmentId (installments sample_collected))"
    by (simp add: sample_collected_def sample_installment_def)
  from generation_settles_everything_once[OF m[unfolded sample_settle_def] this, of "sample_clock CHR ''h'' 8000"]
  show ?thesis by (simp add: m)
qed

lemma settled_payment:
  assumes "settlePayment e inst ref g s = (Inr pid, s1)" "distinct (map pm_paymentId (payments s))"
    and "\<And>p. p \<in> set (payments s) \<Longrightarrow> pm_installmentId p = in_installmentId inst \<Longrightarrow> pm_status p \<noteq> PaymentStatus.SUCCESS"
  obtains p where "filter (\<lambda>p. pm_installmentId p = in_installmentId inst \<and> pm_status p = PaymentStatus.SUCCESS) (payments s1) = [p]"
    "pm_paymentId p = pid"
    "pid = env_uuid e 0 \<or> (\<exists>q \<in> set (payments s). pm_paymentId q = pid \<and> pm_status q = PaymentStatus.PENDING)"
proof -
  let ?q = "\<lambda>p. pm_installmentId p = in_installmentId inst \<and> pm_status p = PaymentStatus.SUCCESS"
  have none: "filter ?q (payments s) = []" using assms(3) by (auto simp: filter_empty_conv)
  show thesis
  proof (cases "pendingPayment (in_installmentId inst) ref s")
    case None
    with assms(1) none that show ?thesis by (auto simp: settlePayment_def split: if_splits)
  next
    case (Some p)
    then have p: "p \<in> set (payments s)" "pm_installmentId p = in_installmentId inst" "pm_status p = PaymentStatus.PENDING"
      by (auto simp: pendingPayment_def dest: find_set)
    let ?f = "\<lambda>x. x\<lparr>pm_status := PaymentStatus.SUCCESS, pm_providerReference := Some g\<rparr>"
    from Some assms(1) have s1: "pid = pm_paymentId p"
      "payments s1 = update_where (\<lambda>x. pm_paymentId x = pm_paymentId p) ?f (payments s)"
      by (auto simp: settlePayment_def split: if_splits)
    obtain xs ys where sp: "payments s = xs @ p # ys" using p(1) by (meson split_list)
    have other: "pm_paymentId x \<noteq> pm_paymentId p" if "x \<in> set xs \<or> x \<in> set ys" for x
      using assms(2) that unfolding sp by (auto simp: rev_image_eqI)
    have "update_where (\<lambda>x. pm_paymentId x = pm_paymentId p) ?f xs = xs"
      "update_where (\<lambda>x. pm_paymentId x = pm_paymentId p) ?f ys = ys"
      using other by (simp_all add: update_where_no_match)
    moreover have "filter ?q xs = []" "filter ?q ys = []" using none by (simp_all add: sp split: if_splits)
    ultimately have "filter ?q (payments s1) = [?f p]" using p(2) by (simp add: s1(2) sp row_simps)
    then show ?thesis using that[of "?f p"] s1(1) p by auto
  qed
qed

text \<open>C20: What the worker owes the merchant for an installment is what a settlement later pays for
  it: the net amount of the installment's settlement line after its collection is exactly the
  amount by which the collection increased the merchant payable of the customer's company.\<close>

theorem settlement_line_is_the_payable_booked:
  assumes "processPayment verify e iid ref s = (Inr (Collected r), s')" "books_ok (book s)"
    and "find_installment iid s = Some inst" "find_contract (in_financingContractId inst) s = Some contract"
    and "0 \<le> commissionRateOf contract s" "commissionRateOf contract s \<le> 100" "0 \<le> in_amount inst"
    and "distinct (map pm_paymentId (payments s))"
    and "\<forall>p \<in> set (payments s). pm_installmentId p = iid \<longrightarrow> pm_status p \<noteq> PaymentStatus.SUCCESS"
    and "\<forall>c \<in> set (commissions s). cm_paymentId c \<noteq> Some (env_uuid e 0) \<and>
      (\<forall>p \<in> set (payments s). cm_paymentId c = Some (pm_paymentId p) \<longrightarrow> pm_status p = PaymentStatus.SUCCESS)"
  shows "\<exists>i. find_installment iid s' = Some i \<and>
    sl_netAmount (lineOf sid s' i) =
      net_debit (book s) (or_null (Option.bind (customerOf contract s) u_companyId)) ''MERCHANT_PAYABLE'' -
      net_debit (book s') (or_null (Option.bind (customerOf contract s) u_companyId)) ''MERCHANT_PAYABLE''"
proof -
  let ?C = "commissionAmountOf contract inst s"
  obtain intent g t where t: "collect e inst contract intent ref g s = (Inr r, t)" "installments s' = installments t"
    "book s' = book t" "commissions s' = commissions t" "payments s' = payments t"
    using assms(1,3,4) by (elim processPayment_collected) auto
  note c = collect_ok[OF t(1)]
  have id: "in_installmentId inst = iid" using assms(3) by (auto simp: find_installment_def dest: find_set)
  obtain pid s1 where p: "settlePayment e inst ref g s = (Inr pid, s1)" "payments t = payments s1"
    "commissions t = commissions s @ (case earningReferrer contract s of None \<Rightarrow> []
       | Some m \<Rightarrow> [\<lparr>cm_commissionId = env_uuid e 1, cm_userId = m, cm_paymentId = Some pid,
            cm_amount = ?C, cm_status = CommissionStatus.ACTIVE,
            cm_reservedAmount = 0, cm_createdAt = env_now e\<rparr>])"
    by (rule collect_payment[OF t(1)])
  obtain q where q: "filter (\<lambda>p. pm_installmentId p = iid \<and> pm_status p = PaymentStatus.SUCCESS) (payments s1) = [q]"
    "pm_paymentId q = pid"
    "pid = env_uuid e 0 \<or> (\<exists>q \<in> set (payments s). pm_paymentId q = pid \<and> pm_status q = PaymentStatus.PENDING)"
    using settled_payment[OF p(1) assms(8)] assms(9) unfolding id by blast
  have "cm_paymentId c \<noteq> Some pid" if "c \<in> set (commissions s)" for c
    using q(3) assms(10) that by auto
  then have "sum_where (\<lambda>c. cm_paymentId c = Some pid) cm_amount (commissions s) = 0"
    unfolding sum_where_def by (subst filter_False) auto
  then have ded: "commissionDeducted iid s' = ?C"
    by (simp add: commissionDeducted_def latestPayment_def t(4,5) p(2,3) q(1,2) sum_where_append)
      (simp add: commissionAmountOf_def sum_where_def split: option.splits)
  obtain i where i: "find_installment iid s' = Some i" "in_amount i = in_amount inst" "in_installmentId i = iid"
    using assms(3) id unfolding find_installment_def t(2) c(1) payInstallment_def
    by (simp add: find_update_where)
  have C: "0 \<le> ?C" "?C \<le> in_amount inst"
    using assms(5-7) mult_left_mono[of "commissionRateOf contract s / 100" 1 "in_amount inst"]
    by (auto simp: commissionAmountOf_def split: option.splits)
  have bal: "totalDebits (paymentEntries a x) = totalCredits (paymentEntries a x)" for a x by simp
  show ?thesis
    unfolding t(3) c(2) lb.net_post[OF assms(2) bal] paymentEntries_net[OF C]
    using i ded by (simp add: lineOf_def)
qed

theorem settlement_line_is_the_payable_booked_witness:
  "\<exists>i. find_installment ''in1'' (snd sample_job) = Some i \<and>
     sl_netAmount (lineOf ''g'' (snd sample_job) i) = - net_debit (book (snd sample_job)) (Some ''co'') ''MERCHANT_PAYABLE''"
proof -
  obtain r s' where job: "sample_job = (Inr (Collected r), s')" using sample_job_ok by blast
  have f: "find_installment ''in1'' (sample_sale 100) = Some (sample_installment ''in1'' 1 InstallmentStatus.DUE)"
    "find_contract (in_financingContractId (sample_installment ''in1'' 1 InstallmentStatus.DUE)) (sample_sale 100)
      = Some sample_contract"
    "commissionRateOf sample_contract (sample_sale 100) = 10" "book (sample_sale 100) = empty_ledger"
    "customerOf sample_contract (sample_sale 100) = Some (sample_buyer ''cust'' CUSTOMER (Some ''mk''))"
    "in_amount (sample_installment ''in1'' 1 InstallmentStatus.DUE) = 100"
    "payments (sample_sale 100) = []" "commissions (sample_sale 100) = []"
    by (simp_all add: sale_runs)
  have n: "net_debit empty_ledger c n = 0" for c n
    by (simp add: net_debit_def find_account_def empty_ledger_def)
  have co: "or_null (Option.bind (Some (sample_buyer ''cust'' CUSTOMER (Some ''mk''))) u_companyId) = Some ''co''"
    by (simp add: sample_buyer_def or_null_def)
  have "\<exists>i. find_installment ''in1'' s' = Some i \<and> sl_netAmount (lineOf ''g'' s' i) =
      net_debit (book (sample_sale 100)) (Some ''co'') ''MERCHANT_PAYABLE'' - net_debit (book s') (Some ''co'') ''MERCHANT_PAYABLE''"
    by (rule settlement_line_is_the_payable_booked[OF job[unfolded sample_job_def] _ f(1,2), unfolded f(5) co])
      (simp_all only: f books_ok_empty, simp_all)
  then show ?thesis by (simp add: job f(4) n)
qed

end
