(* ===== verification/ReminderSettings.thy ===== *)
theory ReminderSettings
  imports Database JsDate
begin

text \<open>
  The reminder cadence of a company: \<open>src/core/services/reminder-settings.service.ts\<close> and
  \<open>src/shared/utils/helpers/reminder-offset.ts\<close>, and what the reminder jobs share
  (\<open>src/shared/utils/helpers/date-window.ts\<close>): windows of UTC days and the Redis keys that keep
  a reminder from being sent twice on one day.
\<close>

section \<open>Offsets and defaults\<close>

fun REMINDER_OFFSET_DAYS :: "ReminderOffsetOption \<Rightarrow> int" where
  "REMINDER_OFFSET_DAYS TWO_DAYS = 2"
| "REMINDER_OFFSET_DAYS THREE_DAYS = 3"
| "REMINDER_OFFSET_DAYS SEVEN_DAYS = 7"

definition MAX_REMINDER_OFFSET_DAYS :: int where
  "MAX_REMINDER_OFFSET_DAYS = 7"

definition DEFAULT_REMINDER_SETTINGS :: reminder_settings where
  "DEFAULT_REMINDER_SETTINGS = \<lparr>
     reminder3DayEnabled = True, reminder3DayOffset = THREE_DAYS,
     reminder1DayEnabled = True, reminder1DayOffset = TWO_DAYS,
     reminderDueTodayEnabled = True, reminderRecurringOverdueEnabled = True,
     reminderOverdue3DayEnabled = True, reminderOverdue3DayOffset = THREE_DAYS,
     reminderOverdue7DayEnabled = True, reminderOverdue7DayOffset = SEVEN_DAYS\<rparr>"

section \<open>Reading and updating\<close>

definition getForCompany :: "ident \<Rightarrow> db \<Rightarrow> reminder_settings" where
  "getForCompany companyId s =
     (case map_of (reminderSettings s) companyId of None \<Rightarrow> DEFAULT_REMINDER_SETTINGS | Some r \<Rightarrow> r)"

definition getEffectiveSettingsMap :: "db \<Rightarrow> ident \<rightharpoonup> reminder_settings" where
  "getEffectiveSettingsMap s = map_of (reminderSettings s)"

definition assertOrdering :: "reminder_settings \<Rightarrow> unit res" where
  "assertOrdering r =
     (if REMINDER_OFFSET_DAYS (reminder3DayOffset r) \<le> REMINDER_OFFSET_DAYS (reminder1DayOffset r)
      then Inl (BadRequestError ''reminder1DayOffset must be fewer days than reminder3DayOffset.'')
      else if REMINDER_OFFSET_DAYS (reminderOverdue7DayOffset r) < REMINDER_OFFSET_DAYS (reminderOverdue3DayOffset r)
      then Inl (BadRequestError ''reminderOverdue3DayOffset must not be later than reminderOverdue7DayOffset.'')
      else Inr ())"

text \<open>The body of the request: every field is optional.\<close>

record settings_patch =
  sp_3DayEnabled :: "bool option"
  sp_3DayOffset :: "ReminderOffsetOption option"
  sp_1DayEnabled :: "bool option"
  sp_1DayOffset :: "ReminderOffsetOption option"
  sp_DueTodayEnabled :: "bool option"
  sp_RecurringOverdueEnabled :: "bool option"
  sp_Overdue3DayEnabled :: "bool option"
  sp_Overdue3DayOffset :: "ReminderOffsetOption option"
  sp_Overdue7DayEnabled :: "bool option"
  sp_Overdue7DayOffset :: "ReminderOffsetOption option"

definition given :: "'a option \<Rightarrow> 'a \<Rightarrow> 'a" where
  "given p v = (case p of None \<Rightarrow> v | Some w \<Rightarrow> w)"

definition mergeSettings :: "reminder_settings \<Rightarrow> settings_patch \<Rightarrow> reminder_settings" where
  "mergeSettings r p = \<lparr>
     reminder3DayEnabled = given (sp_3DayEnabled p) (reminder3DayEnabled r),
     reminder3DayOffset = given (sp_3DayOffset p) (reminder3DayOffset r),
     reminder1DayEnabled = given (sp_1DayEnabled p) (reminder1DayEnabled r),
     reminder1DayOffset = given (sp_1DayOffset p) (reminder1DayOffset r),
     reminderDueTodayEnabled = given (sp_DueTodayEnabled p) (reminderDueTodayEnabled r),
     reminderRecurringOverdueEnabled = given (sp_RecurringOverdueEnabled p) (reminderRecurringOverdueEnabled r),
     reminderOverdue3DayEnabled = given (sp_Overdue3DayEnabled p) (reminderOverdue3DayEnabled r),
     reminderOverdue3DayOffset = given (sp_Overdue3DayOffset p) (reminderOverdue3DayOffset r),
     reminderOverdue7DayEnabled = given (sp_Overdue7DayEnabled p) (reminderOverdue7DayEnabled r),
     reminderOverdue7DayOffset = given (sp_Overdue7DayOffset p) (reminderOverdue7DayOffset r)\<rparr>"

definition updateForCompany :: "ident \<Rightarrow> settings_patch \<Rightarrow> db \<Rightarrow> reminder_settings res \<times> db" where
  "updateForCompany companyId patch s =
     (let merged = mergeSettings (getForCompany companyId s) patch
      in case assertOrdering merged of
           Inl err \<Rightarrow> (Inl err, s)
         | Inr u \<Rightarrow>
             (Inr merged,
              s\<lparr>reminderSettings :=
                (if map_of (reminderSettings s) companyId = None
                 then reminderSettings s @ [(companyId, merged)]
                 else update_where (\<lambda>row. fst row = companyId) (\<lambda>row. (companyId, merged)) (reminderSettings s))\<rparr>))"

definition settingsFor :: "(ident \<rightharpoonup> reminder_settings) \<Rightarrow> ident option \<Rightarrow> reminder_settings" where
  "settingsFor settingsMap companyId =
     (case or_null companyId of
        None \<Rightarrow> DEFAULT_REMINDER_SETTINGS
      | Some c \<Rightarrow> (case settingsMap c of None \<Rightarrow> DEFAULT_REMINDER_SETTINGS | Some r \<Rightarrow> r))"

section \<open>UTC days\<close>

definition ONE_DAY_MS :: int where
  "ONE_DAY_MS = 24 * 60 * 60 * 1000"

definition utcDate :: "time \<Rightarrow> int \<Rightarrow> time" where
  "utcDate now offsetDays = newDate 0 (getFullYear 0 now) (getMonth 0 now) (getDate 0 now + offsetDays)"

definition dayWindow :: "int \<Rightarrow> time \<Rightarrow> time \<times> time" where
  "dayWindow offsetDays now = (utcDate now offsetDays, utcDate now offsetDays + 24 * 60 * 60 * 1000)"

lemma utcDate: "utcDate now k = (localDay 0 now + k) * msPerDay"
proof -
  have "MakeDay (getFullYear 0 now) (getMonth 0 now) (getDate 0 now + k) =
      MakeDay (getFullYear 0 now) (getMonth 0 now) (getDate 0 now) + k"
    by (simp add: MakeDay_def Let_def)
  then show ?thesis
    by (simp add: utcDate_def newDate_def atDay_def getFullYear_def getMonth_def getDate_def MakeDay_of_parts)
qed

section \<open>Once a day\<close>

definition isoDay :: "time \<Rightarrow> string" where
  "isoDay t = padStart 4 CHR ''0'' (show_nat (nat (getFullYear 0 t))) @ ''-'' @
     padStart 2 CHR ''0'' (show_nat (nat (getMonth 0 t + 1))) @ ''-'' @
     padStart 2 CHR ''0'' (show_nat (nat (getDate 0 t)))"

definition reminderKey :: "time \<Rightarrow> ident \<Rightarrow> string \<Rightarrow> string" where
  "reminderKey now entityId type = ''reminder:sent:'' @ entityId @ '':'' @ type @ '':'' @ isoDay now"

definition REMINDER_TTL_SECONDS :: int where
  "REMINDER_TTL_SECONDS = 24 * 60 * 60"

definition redisHas :: "time \<Rightarrow> string \<Rightarrow> db \<Rightarrow> bool" where
  "redisHas now key s \<longleftrightarrow> (\<exists>x \<in> set (redisKeys s). fst x = key \<and> now < snd x)"

text \<open>\<open>SET key 1 EX ttl NX\<close>: only a key that is not there, or has expired, is set.\<close>

definition ensureReminderSent :: "time \<Rightarrow> ident \<Rightarrow> string \<Rightarrow> db \<Rightarrow> bool \<times> db" where
  "ensureReminderSent now entityId type s =
     (let key = reminderKey now entityId type
      in if redisHas now key s then (False, s)
         else (True, s\<lparr>redisKeys := (key, now + REMINDER_TTL_SECONDS * 1000) #
                 filter (\<lambda>x. fst x \<noteq> key) (redisKeys s)\<rparr>))"

section \<open>Stored settings are ordered\<close>

definition settings_ok :: "db \<Rightarrow> bool" where
  "settings_ok s \<longleftrightarrow> distinct (map fst (reminderSettings s)) \<and>
     (\<forall>row \<in> set (reminderSettings s). assertOrdering (snd row) = Inr ())"

lemma default_ordered: "assertOrdering DEFAULT_REMINDER_SETTINGS = Inr ()"
  by (simp add: assertOrdering_def DEFAULT_REMINDER_SETTINGS_def)

lemma ordered_offsets:
  "assertOrdering r = Inr () \<Longrightarrow> REMINDER_OFFSET_DAYS (reminder1DayOffset r) < REMINDER_OFFSET_DAYS (reminder3DayOffset r)"
  "assertOrdering r = Inr () \<Longrightarrow>
     REMINDER_OFFSET_DAYS (reminderOverdue3DayOffset r) \<le> REMINDER_OFFSET_DAYS (reminderOverdue7DayOffset r)"
  by (simp_all add: assertOrdering_def split: if_splits)

lemma offset_bounds: "2 \<le> REMINDER_OFFSET_DAYS x" "REMINDER_OFFSET_DAYS x \<le> MAX_REMINDER_OFFSET_DAYS"
  by (cases x; simp add: MAX_REMINDER_OFFSET_DAYS_def)+

lemma getForCompany_ordered: "settings_ok s \<Longrightarrow> assertOrdering (getForCompany c s) = Inr ()"
  by (auto simp: settings_ok_def getForCompany_def default_ordered split: option.splits dest!: map_of_SomeD)

lemma settingsFor_reads:
  "settingsFor (getEffectiveSettingsMap s) companyId =
     (case or_null companyId of None \<Rightarrow> DEFAULT_REMINDER_SETTINGS | Some c \<Rightarrow> getForCompany c s)"
  by (simp add: settingsFor_def getEffectiveSettingsMap_def getForCompany_def split: option.splits)

lemma settingsFor_ordered:
  "settings_ok s \<Longrightarrow> assertOrdering (settingsFor (getEffectiveSettingsMap s) companyId) = Inr ()"
  by (simp add: settingsFor_reads default_ordered getForCompany_ordered split: option.splits)

lemma map_of_update_where_key:
  "map_of (update_where (\<lambda>row. fst row = c) (\<lambda>row. (c, v)) xs) d =
     (if d = c then map_option (\<lambda>w. v) (map_of xs c) else map_of xs d)"
  by (induction xs) (auto simp: update_where_Cons)

lemma updateForCompany_ok:
  assumes "settings_ok s" "updateForCompany c p s = (Inr r, s')"
  shows "settings_ok s'" "getForCompany c s' = r" "d \<noteq> c \<Longrightarrow> getForCompany d s' = getForCompany d s"
    "r = mergeSettings (getForCompany c s) p"
proof -
  let ?upd = "update_where (\<lambda>row. fst row = c) (\<lambda>row. (c, r)) (reminderSettings s)"
  have r: "r = mergeSettings (getForCompany c s) p" and o: "assertOrdering r = Inr ()"
    and s': "s' = s\<lparr>reminderSettings := (if map_of (reminderSettings s) c = None
        then reminderSettings s @ [(c, r)] else ?upd)\<rparr>"
    using assms(2) by (auto simp: updateForCompany_def Let_def split: sum.splits)
  have keys: "map fst ?upd = map fst (reminderSettings s)" by (rule map_update_where) simp
  show "settings_ok s'"
    using assms(1) o keys unfolding s' settings_ok_def
    by (auto simp: set_update_where map_of_eq_None_iff)
  show "getForCompany c s' = r" "d \<noteq> c \<Longrightarrow> getForCompany d s' = getForCompany d s"
    using assms(1) unfolding s' settings_ok_def getForCompany_def
    by (auto simp: map_of_update_where_key map_add_def split: option.splits)
  show "r = mergeSettings (getForCompany c s) p" by (rule r)
qed

lemma updateForCompany_error: "updateForCompany c p s = (Inl err, s') \<Longrightarrow> s' = s"
  by (simp add: updateForCompany_def Let_def split: sum.splits)

section \<open>Keys name their day\<close>

definition digitsValue :: "string \<Rightarrow> nat" where
  "digitsValue s = foldl (\<lambda>a c. 10 * a + (of_char c - 48)) 0 s"

lemma digitsValue_snoc: "digitsValue (s @ [c]) = 10 * digitsValue s + (of_char c - 48)"
  by (simp add: digitsValue_def)

lemma digitsValue_show_nat [simp]: "digitsValue (show_nat n) = n"
proof (induction n rule: show_nat.induct)
  case (1 n)
  have "of_char (char_of (48 + d) :: char) = 48 + d" if "d < 10" for d :: nat
    using that by (simp add: of_char_of)
  with 1 show ?case
    by (subst show_nat.simps) (auto simp: digitsValue_snoc digitsValue_def)
qed

lemma digitsValue_pad [simp]: "digitsValue (padStart k CHR ''0'' s) = digitsValue s"
proof -
  have "foldl (\<lambda>a c. 10 * a + (of_char c - 48)) 0 (replicate n CHR ''0'' @ s) =
      foldl (\<lambda>a c. 10 * a + (of_char c - 48)) (0 :: nat) s" for n
    by (induction n) simp_all
  then show ?thesis by (simp add: digitsValue_def padStart_def)
qed

lemma length_show_nat: "n < 10 ^ Suc k \<Longrightarrow> length (show_nat n) \<le> Suc k"
proof (induction k arbitrary: n)
  case 0 then show ?case by (subst show_nat.simps) simp
next
  case (Suc k)
  have "n div 10 < 10 ^ Suc k" using Suc.prems by simp
  then have "length (show_nat (n div 10)) \<le> Suc k" by (rule Suc.IH)
  then show ?case by (subst show_nat.simps) simp
qed

lemma pad_inject:
  assumes "padStart k CHR ''0'' (show_nat a) = padStart k CHR ''0'' (show_nat b)"
  shows "a = b"
  using arg_cong[OF assms, of digitsValue] by simp

definition printable :: "time \<Rightarrow> bool" where
  "printable t \<longleftrightarrow> 0 \<le> getFullYear 0 t \<and> getFullYear 0 t \<le> 9999"

lemma isoDay_parts:
  assumes "printable t"
  shows "length (padStart 4 CHR ''0'' (show_nat (nat (getFullYear 0 t)))) = 4"
    "length (padStart 2 CHR ''0'' (show_nat (nat (getMonth 0 t + 1)))) = 2"
    "length (padStart 2 CHR ''0'' (show_nat (nat (getDate 0 t)))) = 2"
    "length (isoDay t) = 10"
proof -
  have m: "getMonth 0 t + 1 \<le> 12" using getMonth_range(2)[of 0 t] by simp
  have d: "getDate 0 t \<le> 31"
    using getDate_range(2)[of 0 t] daysInMonth_bounds[of "getMonth 0 t" "getFullYear 0 t"] getMonth_range[of 0 t] by simp
  have "length (show_nat (nat (getFullYear 0 t))) \<le> Suc 3"
    using assms by (intro length_show_nat) (auto simp: printable_def)
  then show l1: "length (padStart 4 CHR ''0'' (show_nat (nat (getFullYear 0 t)))) = 4" by (simp add: length_padStart)
  have "length (show_nat (nat (getMonth 0 t + 1))) \<le> Suc 1"
    using m by (intro length_show_nat) simp
  then show l2: "length (padStart 2 CHR ''0'' (show_nat (nat (getMonth 0 t + 1)))) = 2" by (simp add: length_padStart)
  have "length (show_nat (nat (getDate 0 t))) \<le> Suc 1"
    using d by (intro length_show_nat) simp
  then show l3: "length (padStart 2 CHR ''0'' (show_nat (nat (getDate 0 t)))) = 2" by (simp add: length_padStart)
  show "length (isoDay t) = 10" using l1 l2 l3 by (simp add: isoDay_def)
qed

lemma isoDay_inject:
  assumes "printable t" "printable u" "isoDay t = isoDay u"
  shows "localDay 0 t = localDay 0 u"
proof -
  note p = isoDay_parts(1-3)[OF assms(1)] isoDay_parts(1-3)[OF assms(2)]
  have e: "padStart 4 CHR ''0'' (show_nat (nat (getFullYear 0 t))) = padStart 4 CHR ''0'' (show_nat (nat (getFullYear 0 u)))"
    "padStart 2 CHR ''0'' (show_nat (nat (getMonth 0 t + 1))) = padStart 2 CHR ''0'' (show_nat (nat (getMonth 0 u + 1)))"
    "padStart 2 CHR ''0'' (show_nat (nat (getDate 0 t))) = padStart 2 CHR ''0'' (show_nat (nat (getDate 0 u)))"
    using assms(3) p unfolding isoDay_def by (auto simp: append_eq_append_conv)
  have y: "getFullYear 0 t = getFullYear 0 u"
    using pad_inject[OF e(1)] assms(1,2) unfolding printable_def by linarith
  have m: "getMonth 0 t = getMonth 0 u"
    using pad_inject[OF e(2)] getMonth_range[of 0 t] getMonth_range[of 0 u] by simp
  have d: "getDate 0 t = getDate 0 u"
    using pad_inject[OF e(3)] getDate_range(1)[of 0 t] getDate_range(1)[of 0 u] by simp
  have r: "localDay 0 x = MakeDay (getFullYear 0 x) (getMonth 0 x) (getDate 0 x)" for x
    by (simp add: getFullYear_def getMonth_def getDate_def MakeDay_of_parts)
  show ?thesis unfolding r using y m d by simp
qed

lemma isoDay_same_day: "localDay 0 t = localDay 0 u \<Longrightarrow> isoDay t = isoDay u"
  by (simp add: isoDay_def getFullYear_def getMonth_def getDate_def)

lemma printable_same_day: "localDay 0 t = localDay 0 u \<Longrightarrow> printable t = printable u"
  by (simp add: printable_def getFullYear_def)

lemma reminderKey_day:
  assumes "printable t" "printable u" "reminderKey t i ty = reminderKey u j ty'"
  shows "localDay 0 t = localDay 0 u"
proof -
  have "isoDay t = isoDay u"
  proof -
    have "rev (take 10 (rev (reminderKey x k w))) = isoDay x" if "printable x" for x k w
      using isoDay_parts(4)[OF that] by (simp add: reminderKey_def)
    from this[OF assms(1), of i ty] this[OF assms(2), of j ty'] assms(3) show ?thesis by simp
  qed
  then show ?thesis by (rule isoDay_inject[OF assms(1,2)])
qed

end
