(* ===== verification/Reminders.thy ===== *)
theory Reminders
  imports ReminderSettings PaymentWorker
begin

text \<open>
  The daily installment reminders, \<open>src/shared/job-workers/payment-reminder.worker.ts\<close>: moving
  installments from PENDING to DUE to OVERDUE, and the six scans that send a reminder for each
  installment their window and the company's settings select.  The scans run concurrently in the
  code; each uses its own Redis keys, so that their interleaving only changes the order of the
  outbox, and they are composed here in the order the code starts them.
\<close>

section \<open>Status transitions\<close>

definition onActiveContract :: "installment_row \<Rightarrow> db \<Rightarrow> bool" where
  "onActiveContract i s =
     (case find_contract (in_financingContractId i) s of None \<Rightarrow> False
      | Some c \<Rightarrow> fc_status c = FinancingStatus.ACTIVE)"

definition pendingToDue :: "time \<Rightarrow> db \<Rightarrow> db" where
  "pendingToDue todayStart s =
     s\<lparr>installments := update_where (\<lambda>i. in_status i = InstallmentStatus.PENDING \<and> in_dueDate i \<le> todayStart \<and>
         onActiveContract i s) (\<lambda>i. i\<lparr>in_status := InstallmentStatus.DUE\<rparr>) (installments s)\<rparr>"

definition dueToOverdue :: "time \<Rightarrow> db \<Rightarrow> db" where
  "dueToOverdue threeDaysAgo s =
     s\<lparr>installments := update_where (\<lambda>i. in_status i = InstallmentStatus.DUE \<and> in_dueDate i < threeDaysAgo \<and>
         onActiveContract i s) (\<lambda>i. i\<lparr>in_status := OVERDUE\<rparr>) (installments s)\<rparr>"

text \<open>
  The two updates are sent at the same time (\<open>Promise.all\<close>): \<open>dueFirst\<close> tells which one the
  database runs first.
\<close>

definition transitionInstallmentStatuses :: "bool \<Rightarrow> time \<Rightarrow> db \<Rightarrow> db" where
  "transitionInstallmentStatuses dueFirst now s =
     (let todayStart = utcDate now 0; threeDaysAgo = todayStart - 3 * 24 * 60 * 60 * 1000
      in if dueFirst then dueToOverdue threeDaysAgo (pendingToDue todayStart s)
         else pendingToDue todayStart (dueToOverdue threeDaysAgo s))"

section \<open>One reminder\<close>

text \<open>
  What a reminder carries: amounts and dates as values (the code formats them), the customer with
  the fallbacks of the code, \<open>rm_days\<close> until or since the due date where the event has it, the
  marketer and the admin where it notifies them.
\<close>

record contact =
  ct_id :: ident
  ct_email :: string
  ct_name :: string

record reminder =
  rm_event :: string
  rm_installmentId :: ident
  rm_customer :: contact
  rm_sequence :: nat
  rm_dueDate :: time
  rm_amount :: decimal
  rm_productName :: string
  rm_percentagePaid :: decimal
  rm_days :: "int option"
  rm_marketer :: "contact option"
  rm_admin :: "contact option"

definition calculateProgress :: "ident \<Rightarrow> db \<Rightarrow> decimal \<times> decimal \<times> decimal" where
  "calculateProgress contractId s =
     (case find_contract contractId s of
        None \<Rightarrow> (0, 0, 0)
      | Some c \<Rightarrow>
          (let totalPaid = sum_where (\<lambda>i. in_financingContractId i = contractId \<and>
                 in_status i = InstallmentStatus.PAID) in_amount (installments s)
           in (if fc_totalFinanced c = 0 then 0 else toFixed2 (totalPaid / fc_totalFinanced c * 100),
               fc_totalFinanced c, totalPaid)))"

definition contactOf :: "string \<Rightarrow> user_row option \<Rightarrow> contact" where
  "contactOf fallback u =
     (case u of
        None \<Rightarrow> \<lparr>ct_id = '''', ct_email = '''', ct_name = fallback\<rparr>
      | Some w \<Rightarrow> \<lparr>ct_id = u_userId w, ct_email = u_email w,
          ct_name = (case u_name w of None \<Rightarrow> fallback | Some n \<Rightarrow> n)\<rparr>)"

definition contractCustomer :: "installment_row \<Rightarrow> db \<Rightarrow> user_row option" where
  "contractCustomer i s = Option.bind (find_contract (in_financingContractId i) s) (\<lambda>c. customerOf c s)"

definition productNameOf :: "installment_row \<Rightarrow> db \<Rightarrow> string" where
  "productNameOf i s =
     (case Option.bind (find_contract (in_financingContractId i) s) (\<lambda>c. productOf c s) of
        None \<Rightarrow> '''' | Some p \<Rightarrow> pr_name p)"

definition mkReminder ::
  "string \<Rightarrow> installment_row \<Rightarrow> int option \<Rightarrow> contact option \<Rightarrow> contact option \<Rightarrow> db \<Rightarrow> reminder" where
  "mkReminder event i days marketer admin s = \<lparr>
     rm_event = event, rm_installmentId = in_installmentId i,
     rm_customer = contactOf ''Customer'' (contractCustomer i s),
     rm_sequence = in_sequence i, rm_dueDate = in_dueDate i, rm_amount = in_amount i,
     rm_productName = productNameOf i s,
     rm_percentagePaid = fst (calculateProgress (in_financingContractId i) s),
     rm_days = days, rm_marketer = marketer, rm_admin = admin\<rparr>"

definition settingsOf :: "(ident \<rightharpoonup> reminder_settings) \<Rightarrow> installment_row \<Rightarrow> db \<Rightarrow> reminder_settings" where
  "settingsOf settingsMap i s = settingsFor settingsMap (Option.bind (contractCustomer i s) u_companyId)"

text \<open>
  The loop every scan runs over the installments it found: \<open>f\<close> is the body up to the payload
  (\<open>None\<close> is a \<open>continue\<close>), with the name of the key that keeps the reminder from being sent twice.
\<close>

fun remindEach ::
  "(installment_row \<Rightarrow> db \<Rightarrow> (string \<times> reminder) option) \<Rightarrow> time \<Rightarrow> installment_row list \<Rightarrow> db \<Rightarrow> reminder list \<times> db"
where
  "remindEach f now [] s = ([], s)"
| "remindEach f now (i # is) s =
     (case f i s of
        None \<Rightarrow> remindEach f now is s
      | Some (type, r) \<Rightarrow>
          (case ensureReminderSent now (in_installmentId i) type s of
             (False, s1) \<Rightarrow> remindEach f now is s1
           | (True, s1) \<Rightarrow>
               (case remindEach f now is (emit (Event (rm_event r) (in_installmentId i)) s1) of
                  (rs, s2) \<Rightarrow> (r # rs, s2))))"

section \<open>The six scans\<close>

text \<open>\<open>Math.round\<close> and \<open>Math.floor\<close> of a number of milliseconds over a day.\<close>

definition daysUntil :: "time \<Rightarrow> time \<Rightarrow> int" where
  "daysUntil due rangeStart = \<lfloor>(of_int (due - rangeStart) / of_int ONE_DAY_MS + 1/2 :: rat)\<rfloor>"

definition daysOverdue :: "time \<Rightarrow> time \<Rightarrow> int" where
  "daysOverdue todayStart due = \<lfloor>(of_int (todayStart - due) / of_int ONE_DAY_MS :: rat)\<rfloor>"

definition upcomingRows :: "time \<Rightarrow> time \<Rightarrow> db \<Rightarrow> installment_row list" where
  "upcomingRows from until s =
     filter (\<lambda>i. from \<le> in_dueDate i \<and> in_dueDate i < until \<and>
       in_status i \<in> {InstallmentStatus.PENDING, InstallmentStatus.DUE} \<and> onActiveContract i s) (installments s)"

definition lateRows :: "time \<Rightarrow> time \<Rightarrow> db \<Rightarrow> installment_row list" where
  "lateRows from until s =
     filter (\<lambda>i. from \<le> in_dueDate i \<and> in_dueDate i < until \<and>
       in_status i \<in> {InstallmentStatus.DUE, OVERDUE} \<and> onActiveContract i s) (installments s)"

definition process3DayReminders :: "(ident \<rightharpoonup> reminder_settings) \<Rightarrow> time \<Rightarrow> db \<Rightarrow> reminder list \<times> db" where
  "process3DayReminders settingsMap now s =
     (let rangeStart = fst (dayWindow 0 now); rangeEnd = rangeStart + (MAX_REMINDER_OFFSET_DAYS + 1) * ONE_DAY_MS
      in remindEach (\<lambda>i s.
           let settings = settingsOf settingsMap i s; days = daysUntil (in_dueDate i) rangeStart
           in if \<not> reminder3DayEnabled settings \<or> days \<noteq> REMINDER_OFFSET_DAYS (reminder3DayOffset settings) then None
              else Some (''3day'', mkReminder ''INSTALLMENT_REMINDER_3DAY'' i (Some days) None None s))
         now (upcomingRows rangeStart rangeEnd s) s)"

definition process1DayReminders :: "(ident \<rightharpoonup> reminder_settings) \<Rightarrow> time \<Rightarrow> db \<Rightarrow> reminder list \<times> db" where
  "process1DayReminders settingsMap now s =
     (let rangeStart = fst (dayWindow 0 now); rangeEnd = rangeStart + (MAX_REMINDER_OFFSET_DAYS + 1) * ONE_DAY_MS
      in remindEach (\<lambda>i s.
           let settings = settingsOf settingsMap i s; days = daysUntil (in_dueDate i) rangeStart
           in if \<not> reminder1DayEnabled settings \<or> days \<noteq> REMINDER_OFFSET_DAYS (reminder1DayOffset settings) then None
              else Some (''1day'', mkReminder ''INSTALLMENT_REMINDER_1DAY'' i (Some days) None None s))
         now (upcomingRows rangeStart rangeEnd s) s)"

definition processDueTodayReminders :: "(ident \<rightharpoonup> reminder_settings) \<Rightarrow> time \<Rightarrow> db \<Rightarrow> reminder list \<times> db" where
  "processDueTodayReminders settingsMap now s =
     (case dayWindow 0 now of (start, end') \<Rightarrow>
      remindEach (\<lambda>i s.
           if \<not> reminderDueTodayEnabled (settingsOf settingsMap i s) then None
           else Some (''due-today'', mkReminder ''INSTALLMENT_DUE_TODAY'' i None None None s))
         now (upcomingRows start end' s) s)"

text \<open>\<open>SELECT DISTINCT ON\<close>: the open installment with the smallest sequence of each active contract.\<close>

definition OPEN_STATUSES :: "InstallmentStatus set" where
  "OPEN_STATUSES = {InstallmentStatus.PENDING, InstallmentStatus.DUE, OVERDUE}"

definition firstOpenRows :: "db \<Rightarrow> installment_row list" where
  "firstOpenRows s =
     filter (\<lambda>i. in_status i \<in> OPEN_STATUSES \<and> onActiveContract i s \<and>
       list_all (\<lambda>j. in_financingContractId j = in_financingContractId i \<longrightarrow> in_status j \<in> OPEN_STATUSES \<longrightarrow>
         in_sequence i \<le> in_sequence j) (installments s)) (installments s)"

definition processRecurringReminders :: "(ident \<rightharpoonup> reminder_settings) \<Rightarrow> time \<Rightarrow> db \<Rightarrow> reminder list \<times> db" where
  "processRecurringReminders settingsMap now s =
     (let todayStart = utcDate now 0
      in remindEach (\<lambda>i s.
           let days = daysOverdue todayStart (in_dueDate i)
           in if \<not> reminderRecurringOverdueEnabled (settingsOf settingsMap i s) then None
              else if days < 1 then None
              else Some (''recurring-'' @ show_nat (nat days),
                mkReminder ''INSTALLMENT_OVERDUE_RECURRING'' i (Some days) None None s))
         now (firstOpenRows s) s)"

definition marketerOf :: "installment_row \<Rightarrow> db \<Rightarrow> user_row option" where
  "marketerOf i s =
     (case or_null (Option.bind (contractCustomer i s) u_referredByMarketerId) of
        None \<Rightarrow> None
      | Some m \<Rightarrow> find (\<lambda>u. u_userId u = m \<and> u_role u = MARKETER) (users s))"

definition process3DayOverdue :: "(ident \<rightharpoonup> reminder_settings) \<Rightarrow> time \<Rightarrow> db \<Rightarrow> reminder list \<times> db" where
  "process3DayOverdue settingsMap now s =
     (case dayWindow 0 now of (todayStart, rangeEnd) \<Rightarrow>
      let rangeStart = todayStart - MAX_REMINDER_OFFSET_DAYS * ONE_DAY_MS
      in remindEach (\<lambda>i s.
           let settings = settingsOf settingsMap i s; days = daysOverdue todayStart (in_dueDate i)
           in if \<not> reminderOverdue3DayEnabled settings \<or> days \<noteq> REMINDER_OFFSET_DAYS (reminderOverdue3DayOffset settings)
              then None
              else Some (''overdue-3day'', mkReminder ''INSTALLMENT_OVERDUE_3DAY'' i (Some days)
                (Some (contactOf ''N/A'' (marketerOf i s))) None s))
         now (lateRows rangeStart rangeEnd s) s)"

definition escalationAdmin :: "installment_row \<Rightarrow> db \<Rightarrow> user_row option" where
  "escalationAdmin i s =
     (let created = (case or_null (Option.bind (marketerOf i s) u_createdById) of
            None \<Rightarrow> None
          | Some a \<Rightarrow> find (\<lambda>u. u_userId u = a \<and> u_role u \<in> {ADMIN, COMPANY}) (users s))
      in case created of Some a \<Rightarrow> Some a | None \<Rightarrow> find (\<lambda>u. u_role u = SUPER_ADMIN) (users s))"

definition process7DayOverdue :: "(ident \<rightharpoonup> reminder_settings) \<Rightarrow> time \<Rightarrow> db \<Rightarrow> reminder list \<times> db" where
  "process7DayOverdue settingsMap now s =
     (case dayWindow 0 now of (todayStart, rangeEnd) \<Rightarrow>
      let rangeStart = todayStart - MAX_REMINDER_OFFSET_DAYS * ONE_DAY_MS
      in remindEach (\<lambda>i s.
           let settings = settingsOf settingsMap i s; days = daysOverdue todayStart (in_dueDate i)
           in if \<not> reminderOverdue7DayEnabled settings \<or> days \<noteq> REMINDER_OFFSET_DAYS (reminderOverdue7DayOffset settings)
              then None
              else (case escalationAdmin i s of
                  None \<Rightarrow> None
                | Some a \<Rightarrow> Some (''overdue-7day'', mkReminder ''INSTALLMENT_OVERDUE_7DAY'' i (Some days)
                    (Some (contactOf ''N/A'' (marketerOf i s))) (Some (contactOf ''Admin'' (Some a))) s)))
         now (lateRows rangeStart rangeEnd s) s)"

definition runReminders :: "bool \<Rightarrow> time \<Rightarrow> db \<Rightarrow> reminder list \<times> db" where
  "runReminders dueFirst now s =
     (let s0 = transitionInstallmentStatuses dueFirst now s; settingsMap = getEffectiveSettingsMap s0;
          (r1, s1) = process3DayReminders settingsMap now s0;
          (r2, s2) = process1DayReminders settingsMap now s1;
          (r3, s3) = processDueTodayReminders settingsMap now s2;
          (r4, s4) = processRecurringReminders settingsMap now s3;
          (r5, s5) = process3DayOverdue settingsMap now s4;
          (r6, s6) = process7DayOverdue settingsMap now s5
      in (r1 @ r2 @ r3 @ r4 @ r5 @ r6, s6))"

section \<open>What a scan sends\<close>

text \<open>The body of a scan reads neither the Redis keys nor the outbox, and uses one key name.\<close>

definition quiet :: "(installment_row \<Rightarrow> db \<Rightarrow> (string \<times> reminder) option) \<Rightarrow> bool" where
  "quiet f \<longleftrightarrow> (\<forall>i s k. f i (s\<lparr>redisKeys := k\<rparr>) = f i s) \<and> (\<forall>i s x. f i (emit x s) = f i s)"

definition uses_key :: "(installment_row \<Rightarrow> db \<Rightarrow> (string \<times> reminder) option) \<Rightarrow> string \<Rightarrow> bool" where
  "uses_key f type \<longleftrightarrow> (\<forall>i s ty r. f i s = Some (ty, r) \<longrightarrow> ty = type)"

lemma quiet_reads [simp]:
  "contractCustomer i (s\<lparr>redisKeys := k\<rparr>) = contractCustomer i s" "contractCustomer i (emit x s) = contractCustomer i s"
  "marketerOf i (s\<lparr>redisKeys := k\<rparr>) = marketerOf i s" "marketerOf i (emit x s) = marketerOf i s"
  "escalationAdmin i (s\<lparr>redisKeys := k\<rparr>) = escalationAdmin i s" "escalationAdmin i (emit x s) = escalationAdmin i s"
  "mkReminder ev i d m a (s\<lparr>redisKeys := k\<rparr>) = mkReminder ev i d m a s" "mkReminder ev i d m a (emit x s) = mkReminder ev i d m a s"
  "settingsOf sm i (s\<lparr>redisKeys := k\<rparr>) = settingsOf sm i s" "settingsOf sm i (emit x s) = settingsOf sm i s"
proof -
  have c: "contractCustomer i (s\<lparr>redisKeys := k\<rparr>) = contractCustomer i s" "contractCustomer i (emit x s) = contractCustomer i s" for i
    by (simp_all add: contractCustomer_def find_contract_def customerOf_def[abs_def] find_user_def)
  have m: "marketerOf i (s\<lparr>redisKeys := k\<rparr>) = marketerOf i s" "marketerOf i (emit x s) = marketerOf i s" for i
    by (simp_all add: marketerOf_def c split: option.split)
  show "contractCustomer i (s\<lparr>redisKeys := k\<rparr>) = contractCustomer i s" "contractCustomer i (emit x s) = contractCustomer i s"
    by (rule c)+
  show "marketerOf i (s\<lparr>redisKeys := k\<rparr>) = marketerOf i s" "marketerOf i (emit x s) = marketerOf i s" by (rule m)+
  show "escalationAdmin i (s\<lparr>redisKeys := k\<rparr>) = escalationAdmin i s" "escalationAdmin i (emit x s) = escalationAdmin i s"
    by (simp_all add: escalationAdmin_def m split: option.split)
  show "mkReminder ev i d m a (s\<lparr>redisKeys := k\<rparr>) = mkReminder ev i d m a s"
    "mkReminder ev i d m a (emit x s) = mkReminder ev i d m a s"
    by (simp_all add: mkReminder_def c productNameOf_def find_contract_def productOf_def[abs_def] calculateProgress_def
        split: option.split)
  show "settingsOf sm i (s\<lparr>redisKeys := k\<rparr>) = settingsOf sm i s" "settingsOf sm i (emit x s) = settingsOf sm i s"
    by (simp_all add: settingsOf_def c)
qed

lemma redisHas_frame [simp]: "redisHas now key (emit x s) = redisHas now key s"
  by (simp add: redisHas_def)

lemma redisHas_set:
  "now < t \<Longrightarrow> redisHas now key (s\<lparr>redisKeys := (k, t) # filter (\<lambda>x. fst x \<noteq> k) (redisKeys s)\<rparr>) \<longleftrightarrow>
     key = k \<or> redisHas now key s"
  by (fastforce simp: redisHas_def)

lemma reminderKey_entity: "reminderKey now i ty = reminderKey now j ty \<longleftrightarrow> i = j"
  by (simp add: reminderKey_def)

lemma remindEach_sent:
  assumes "quiet f" "uses_key f ty" "distinct (map in_installmentId is)"
  shows "r \<in> set (fst (remindEach f now is s)) \<longleftrightarrow>
    (\<exists>i \<in> set is. f i s = Some (ty, r) \<and> \<not> redisHas now (reminderKey now (in_installmentId i) ty) s)"
  using assms(3)
proof (induction "is" arbitrary: s)
  case (Cons i "is")
  show ?case
  proof (cases "f i s")
    case None then show ?thesis using Cons by simp
  next
    case (Some a)
    then obtain q where q: "f i s = Some (ty, q)" using assms(2) unfolding uses_key_def by (cases a) auto
    let ?key = "reminderKey now (in_installmentId i) ty"
    let ?s1 = "s\<lparr>redisKeys := (?key, now + REMINDER_TTL_SECONDS * 1000) # filter (\<lambda>x. fst x \<noteq> ?key) (redisKeys s)\<rparr>"
    show ?thesis
    proof (cases "redisHas now ?key s")
      case True then show ?thesis using Cons q by (simp add: ensureReminderSent_def)
    next
      case False
      let ?t = "emit (Event (rm_event q) (in_installmentId i)) ?s1"
      have f: "f j ?t = f j s" for j using assms(1) unfolding quiet_def by simp
      have k: "redisHas now (reminderKey now (in_installmentId j) ty) ?t = redisHas now (reminderKey now (in_installmentId j) ty) s"
        if "j \<in> set is" for j
        unfolding redisHas_frame using that Cons.prems
        by (subst redisHas_set) (auto simp: REMINDER_TTL_SECONDS_def reminderKey_entity rev_image_eqI)
      have "fst (remindEach f now (i # is) s) = q # fst (remindEach f now is ?t)"
        using q False by (simp add: ensureReminderSent_def Let_def split: prod.split)
      moreover have "r \<in> set (fst (remindEach f now is ?t)) \<longleftrightarrow>
          (\<exists>i \<in> set is. f i s = Some (ty, r) \<and> \<not> redisHas now (reminderKey now (in_installmentId i) ty) s)"
        using Cons.IH[of ?t] Cons.prems f k by auto
      ultimately show ?thesis using q False by auto
    qed
  qed
qed simp

section \<open>Days\<close>

lemma ONE_DAY: "ONE_DAY_MS = msPerDay"
  by (simp add: ONE_DAY_MS_def msPerDay_def)

lemma daysOverdue_int: "daysOverdue a b = (a - b) div msPerDay"
  unfolding daysOverdue_def ONE_DAY by (rule floor_divide_of_int_eq)

lemma daysUntil_int: "daysUntil a b = (a - b + msPerDay div 2) div msPerDay"
proof -
  have "(of_int (a - b) / of_int ONE_DAY_MS + 1/2 :: rat) = of_int (a - b + msPerDay div 2) / of_int msPerDay"
    by (simp add: ONE_DAY_MS_def msPerDay_def field_simps)
  then show ?thesis unfolding daysUntil_def by (metis floor_divide_of_int_eq)
qed

text \<open>The UTC day whose midnight is nearest to the instant.\<close>

definition nearestDay :: "time \<Rightarrow> int" where
  "nearestDay t = (t + msPerDay div 2) div msPerDay"

lemma daysUntil_day: "daysUntil due (d * msPerDay) = nearestDay due - d"
proof -
  have "due - d * msPerDay + msPerDay div 2 = (due + msPerDay div 2) + (- d) * msPerDay" by simp
  then show ?thesis unfolding daysUntil_int nearestDay_def by (simp add: msPerDay_def)
qed

lemma window_of_daysUntil:
  assumes "daysUntil due (d * msPerDay) = k" "1 \<le> k" "k \<le> 7"
  shows "d * msPerDay \<le> due" "due < d * msPerDay + (7 + 1) * msPerDay"
proof -
  have "nearestDay due = d + k" using assms(1) by (simp add: daysUntil_day)
  then have "(d + k) * msPerDay \<le> due + msPerDay div 2" "due + msPerDay div 2 < (d + k) * msPerDay + msPerDay"
    using int_div_bounds[of msPerDay "due + msPerDay div 2"] by (simp_all add: nearestDay_def msPerDay_def)
  then show "d * msPerDay \<le> due" "due < d * msPerDay + (7 + 1) * msPerDay"
    using assms(2,3) by (simp_all add: msPerDay_def)
qed

section \<open>The day of a reminder\<close>

definition installments_distinct :: "db \<Rightarrow> bool" where
  "installments_distinct s \<longleftrightarrow> distinct (map in_installmentId (installments s))"

definition sentTo :: "ident \<Rightarrow> reminder list \<Rightarrow> bool" where
  "sentTo installmentId rs \<longleftrightarrow> (\<exists>r \<in> set rs. rm_installmentId r = installmentId)"

definition awaitsPayment :: "installment_row \<Rightarrow> db \<Rightarrow> bool" where
  "awaitsPayment i s \<longleftrightarrow> i \<in> set (installments s) \<and>
     in_status i \<in> {InstallmentStatus.PENDING, InstallmentStatus.DUE} \<and> onActiveContract i s"

lemma distinct_scan:
  "installments_distinct s \<Longrightarrow> distinct (map in_installmentId (upcomingRows a b s))"
  "installments_distinct s \<Longrightarrow> distinct (map in_installmentId (lateRows a b s))"
  by (simp_all add: installments_distinct_def upcomingRows_def lateRows_def distinct_map_filter)

lemma installment_by_id:
  "installments_distinct s \<Longrightarrow> i \<in> set (installments s) \<Longrightarrow> j \<in> set (installments s) \<Longrightarrow>
     in_installmentId i = in_installmentId j \<longleftrightarrow> i = j"
  unfolding installments_distinct_def by (auto simp: distinct_map inj_on_def)

lemma mkReminder_id [simp]: "rm_installmentId (mkReminder ev i d m a s) = in_installmentId i"
  by (simp add: mkReminder_def)

lemma remindEach_sentTo:
  assumes "quiet f" "uses_key f ty" "installments_distinct s" "rows = filter P (installments s)"
    and "\<And>j r. f j s = Some (ty, r) \<Longrightarrow> rm_installmentId r = in_installmentId j" "i \<in> set (installments s)"
  shows "sentTo (in_installmentId i) (fst (remindEach f now rows s)) \<longleftrightarrow>
    P i \<and> f i s \<noteq> None \<and> \<not> redisHas now (reminderKey now (in_installmentId i) ty) s"
proof -
  have d: "distinct (map in_installmentId rows)"
    using assms(3) by (simp add: assms(4) installments_distinct_def distinct_map_filter)
  have k: "f i s \<noteq> None \<longleftrightarrow> (\<exists>r. f i s = Some (ty, r))"
    using assms(2) unfolding uses_key_def by (metis not_None_eq surj_pair)
  show ?thesis
  proof
    assume "sentTo (in_installmentId i) (fst (remindEach f now rows s))"
    then obtain r where m: "r \<in> set (fst (remindEach f now rows s))" "rm_installmentId r = in_installmentId i"
      unfolding sentTo_def by blast
    obtain j where r: "j \<in> set rows" "f j s = Some (ty, r)"
      "\<not> redisHas now (reminderKey now (in_installmentId j) ty) s"
      using m(1) unfolding remindEach_sent[OF assms(1,2) d] by blast
    have "in_installmentId i = in_installmentId j" using assms(5)[OF r(2)] m(2) by simp
    moreover have "j \<in> set (installments s)" "P j" using r(1) by (simp_all add: assms(4))
    ultimately show "P i \<and> f i s \<noteq> None \<and> \<not> redisHas now (reminderKey now (in_installmentId i) ty) s"
      using installment_by_id[OF assms(3,6), of j] r(2,3) by simp
  next
    assume a: "P i \<and> f i s \<noteq> None \<and> \<not> redisHas now (reminderKey now (in_installmentId i) ty) s"
    then obtain r where r: "f i s = Some (ty, r)" using k by blast
    have "i \<in> set rows" using a assms(6) by (simp add: assms(4))
    then have "r \<in> set (fst (remindEach f now rows s))"
      using a r unfolding remindEach_sent[OF assms(1,2) d] by blast
    moreover have "rm_installmentId r = in_installmentId i" by (rule assms(5)[OF r])
    ultimately show "sentTo (in_installmentId i) (fst (remindEach f now rows s))" by (auto simp: sentTo_def)
  qed
qed

lemma upcoming_sent:
  assumes "installments_distinct s" "awaitsPayment i s"
    and "\<not> redisHas now (reminderKey now (in_installmentId i) ty) s"
    and "\<And>i s. f i s = (if \<not> g (settingsOf sm i s) \<or> daysUntil (in_dueDate i) rs \<noteq> off (settingsOf sm i s) then None
        else Some (ty, mkReminder ev i (Some (daysUntil (in_dueDate i) rs)) None None s))"
    and "rs = localDay 0 now * msPerDay" "off (settingsOf sm i s) \<in> {1..7}" "g (settingsOf sm i s)"
  shows "sentTo (in_installmentId i) (fst (remindEach f now (upcomingRows rs (rs + (MAX_REMINDER_OFFSET_DAYS + 1) * ONE_DAY_MS) s) s))
    \<longleftrightarrow> localDay 0 now = nearestDay (in_dueDate i) - off (settingsOf sm i s)"
proof -
  have q: "quiet f" "uses_key f ty" by (simp_all add: quiet_def uses_key_def assms(4))
  have i: "i \<in> set (installments s)" using assms(2) by (simp add: awaitsPayment_def)
  have id: "rm_installmentId r = in_installmentId j" if "f j s = Some (ty, r)" for j r
    using that by (auto simp: assms(4) split: if_splits)
  have "sentTo (in_installmentId i) (fst (remindEach f now (upcomingRows rs (rs + (MAX_REMINDER_OFFSET_DAYS + 1) * ONE_DAY_MS) s) s))
      \<longleftrightarrow> (rs \<le> in_dueDate i \<and> in_dueDate i < rs + (MAX_REMINDER_OFFSET_DAYS + 1) * ONE_DAY_MS \<and>
        in_status i \<in> {InstallmentStatus.PENDING, InstallmentStatus.DUE} \<and> onActiveContract i s) \<and> f i s \<noteq> None"
    using remindEach_sentTo[OF q assms(1) upcomingRows_def id i] assms(3) by simp
  also have "\<dots> \<longleftrightarrow> rs \<le> in_dueDate i \<and> in_dueDate i < rs + (7 + 1) * msPerDay \<and>
      daysUntil (in_dueDate i) rs = off (settingsOf sm i s)"
    using assms(2,7) unfolding awaitsPayment_def MAX_REMINDER_OFFSET_DAYS_def ONE_DAY assms(4) by auto
  also have "\<dots> \<longleftrightarrow> daysUntil (in_dueDate i) rs = off (settingsOf sm i s)"
    using assms(6) window_of_daysUntil[of "in_dueDate i" "localDay 0 now"] unfolding assms(5) by auto
  also have "\<dots> \<longleftrightarrow> localDay 0 now = nearestDay (in_dueDate i) - off (settingsOf sm i s)"
    unfolding assms(5) daysUntil_day by linarith
  finally show ?thesis .
qed

lemma dayWindow_0: "dayWindow 0 now = (localDay 0 now * msPerDay, localDay 0 now * msPerDay + msPerDay)"
  by (simp add: dayWindow_def utcDate msPerDay_def)

lemma offset_range: "REMINDER_OFFSET_DAYS x \<in> {1..7}"
  by (cases x) simp_all

text \<open>
  For every installment that awaits payment on an active contract and whose company has both
  reminders enabled, the first scan of a day sends the 3-day reminder exactly on the UTC day
  nearest to its due date less the configured offset, and the 1-day reminder exactly on the
  nearest day less its own offset, which is always a later day: each is sent on exactly one day,
  for every due date and every setting a company can store.
\<close>

theorem upcoming_reminders_have_one_day:
  assumes "settings_ok s" "installments_distinct s" "awaitsPayment i s"
    and "\<And>ty. \<not> redisHas now (reminderKey now (in_installmentId i) ty) s"
    and "settings = settingsOf (getEffectiveSettingsMap s) i s"
    and "reminder3DayEnabled settings" "reminder1DayEnabled settings"
  shows "(sentTo (in_installmentId i) (fst (process3DayReminders (getEffectiveSettingsMap s) now s)) \<longleftrightarrow>
      localDay 0 now = nearestDay (in_dueDate i) - REMINDER_OFFSET_DAYS (reminder3DayOffset settings)) \<and>
    (sentTo (in_installmentId i) (fst (process1DayReminders (getEffectiveSettingsMap s) now s)) \<longleftrightarrow>
      localDay 0 now = nearestDay (in_dueDate i) - REMINDER_OFFSET_DAYS (reminder1DayOffset settings)) \<and>
    REMINDER_OFFSET_DAYS (reminder1DayOffset settings) < REMINDER_OFFSET_DAYS (reminder3DayOffset settings) \<and>
    2 \<le> REMINDER_OFFSET_DAYS (reminder1DayOffset settings)"
proof (intro conjI)
  show "sentTo (in_installmentId i) (fst (process3DayReminders (getEffectiveSettingsMap s) now s)) \<longleftrightarrow>
      localDay 0 now = nearestDay (in_dueDate i) - REMINDER_OFFSET_DAYS (reminder3DayOffset settings)"
    unfolding process3DayReminders_def dayWindow_0 Let_def fst_conv assms(5)
    by (rule upcoming_sent[OF assms(2,3,4), where g = reminder3DayEnabled]) (use assms(5,6) offset_range in auto)
  show "sentTo (in_installmentId i) (fst (process1DayReminders (getEffectiveSettingsMap s) now s)) \<longleftrightarrow>
      localDay 0 now = nearestDay (in_dueDate i) - REMINDER_OFFSET_DAYS (reminder1DayOffset settings)"
    unfolding process1DayReminders_def dayWindow_0 Let_def fst_conv assms(5)
    by (rule upcoming_sent[OF assms(2,3,4), where g = reminder1DayEnabled]) (use assms(5,7) offset_range in auto)
  show "REMINDER_OFFSET_DAYS (reminder1DayOffset settings) < REMINDER_OFFSET_DAYS (reminder3DayOffset settings)"
    unfolding assms(5) settingsOf_def by (rule ordered_offsets(1)[OF settingsFor_ordered[OF assms(1)]])
qed (rule offset_bounds)

section \<open>The day of an escalation\<close>

text \<open>The first UTC midnight that is not before the due date.\<close>

definition dayAfterDue :: "time \<Rightarrow> int" where
  "dayAfterDue t = (t + msPerDay - 1) div msPerDay"

lemma daysOverdue_day: "daysOverdue (d * msPerDay) due = d - dayAfterDue due"
proof -
  let ?k = "dayAfterDue due"
  have k: "msPerDay * ?k \<le> due + msPerDay - 1" "due + msPerDay - 1 < msPerDay * ?k + msPerDay"
    using int_div_bounds[of msPerDay "due + msPerDay - 1"] by (simp_all add: dayAfterDue_def msPerDay_def)
  show ?thesis unfolding daysOverdue_int
    by (rule int_div_pos_eq[where r = "msPerDay * ?k - due"]) (use k in \<open>auto simp: algebra_simps\<close>)
qed

lemma late_window:
  assumes "localDay 0 now = dayAfterDue due + off" "2 \<le> off" "off \<le> 7"
  shows "localDay 0 now * msPerDay - 7 * msPerDay \<le> due \<longleftrightarrow> (off = 7 \<longrightarrow> due mod msPerDay = 0)"
    and "due < localDay 0 now * msPerDay + msPerDay"
proof -
  let ?k = "dayAfterDue due"
  have k: "msPerDay * ?k \<le> due + msPerDay - 1" "due + msPerDay - 1 < msPerDay * ?k + msPerDay"
    using int_div_bounds[of msPerDay "due + msPerDay - 1"] by (simp_all add: dayAfterDue_def msPerDay_def)
  show "due < localDay 0 now * msPerDay + msPerDay"
    using k(2) assms(2) unfolding assms(1) by (simp add: msPerDay_def)
  show "localDay 0 now * msPerDay - 7 * msPerDay \<le> due \<longleftrightarrow> (off = 7 \<longrightarrow> due mod msPerDay = 0)"
  proof (cases "off = 7")
    case True
    have "due mod msPerDay = 0 \<longleftrightarrow> due = msPerDay * ?k"
    proof
      assume "due mod msPerDay = 0"
      then obtain q where "due = msPerDay * q" by (auto simp: dvd_def mod_eq_0_iff_dvd)
      with k show "due = msPerDay * ?k" by (simp add: msPerDay_def)
    qed (metis mod_mult_self1_is_0)
    with k True show ?thesis unfolding assms(1) by (simp add: msPerDay_def) linarith
  next
    case False
    then show ?thesis using k assms(2,3) unfolding assms(1) by (simp add: msPerDay_def)
  qed
qed

lemma late_sent:
  assumes "installments_distinct s" "i \<in> set (installments s)"
    and "in_status i \<in> {InstallmentStatus.DUE, OVERDUE}" "onActiveContract i s"
    and "\<not> redisHas now (reminderKey now (in_installmentId i) ty) s"
    and "quiet f" "uses_key f ty" "\<And>j r. f j s = Some (ty, r) \<Longrightarrow> rm_installmentId r = in_installmentId j"
    and "f i s \<noteq> None \<longleftrightarrow> daysOverdue (localDay 0 now * msPerDay) (in_dueDate i) = off" "2 \<le> off" "off \<le> 7"
  shows "sentTo (in_installmentId i) (fst (remindEach f now (lateRows (localDay 0 now * msPerDay - MAX_REMINDER_OFFSET_DAYS * ONE_DAY_MS)
      (localDay 0 now * msPerDay + msPerDay) s) s)) \<longleftrightarrow>
    localDay 0 now = dayAfterDue (in_dueDate i) + off \<and> (off = 7 \<longrightarrow> in_dueDate i mod msPerDay = 0)"
proof -
  let ?t = "localDay 0 now * msPerDay"
  have "sentTo (in_installmentId i) (fst (remindEach f now (lateRows (?t - MAX_REMINDER_OFFSET_DAYS * ONE_DAY_MS) (?t + msPerDay) s) s))
      \<longleftrightarrow> ?t - 7 * msPerDay \<le> in_dueDate i \<and> in_dueDate i < ?t + msPerDay \<and> daysOverdue ?t (in_dueDate i) = off"
    using remindEach_sentTo[OF assms(6,7,1) lateRows_def assms(8,2)] assms(3,4,5,9)
    by (simp add: MAX_REMINDER_OFFSET_DAYS_def ONE_DAY)
  also have "\<dots> \<longleftrightarrow> ?t - 7 * msPerDay \<le> in_dueDate i \<and> in_dueDate i < ?t + msPerDay \<and> localDay 0 now = dayAfterDue (in_dueDate i) + off"
    unfolding daysOverdue_day by auto
  also have "\<dots> \<longleftrightarrow> localDay 0 now = dayAfterDue (in_dueDate i) + off \<and> (off = 7 \<longrightarrow> in_dueDate i mod msPerDay = 0)"
    using late_window[of now "in_dueDate i" off, OF _ assms(10,11)] by metis
  finally show ?thesis .
qed

text \<open>
  For every late installment of an active contract the escalation to the admin, when an admin
  can be found and no key is set yet, is sent exactly on the day that is the configured number of
  days after the first midnight after the due date; but with seven days, the default, only when
  the installment fell due at midnight UTC to the millisecond: the window of the query starts
  seven days before today's midnight and the days overdue are rounded down, so that every other
  installment is one day too early or out of the window.
\<close>

theorem seven_day_escalation_needs_midnight:
  assumes "installments_distinct s" "i \<in> set (installments s)"
    and "in_status i \<in> {InstallmentStatus.DUE, OVERDUE}" "onActiveContract i s"
    and "\<not> redisHas now (reminderKey now (in_installmentId i) ''overdue-7day'') s" "escalationAdmin i s \<noteq> None"
    and "settings = settingsOf (getEffectiveSettingsMap s) i s" "reminderOverdue7DayEnabled settings"
    and "off = REMINDER_OFFSET_DAYS (reminderOverdue7DayOffset settings)"
  shows "sentTo (in_installmentId i) (fst (process7DayOverdue (getEffectiveSettingsMap s) now s)) \<longleftrightarrow>
    localDay 0 now = dayAfterDue (in_dueDate i) + off \<and> (off = 7 \<longrightarrow> in_dueDate i mod msPerDay = 0)"
  unfolding process7DayOverdue_def dayWindow_0 prod.case Let_def
proof (rule late_sent[OF assms(1-5)])
  show "2 \<le> off" "off \<le> 7"
    unfolding assms(9) using offset_bounds[of "reminderOverdue7DayOffset settings"]
    by (simp_all add: MAX_REMINDER_OFFSET_DAYS_def)
qed (use assms(6-9) in \<open>auto simp: quiet_def uses_key_def split: if_splits option.splits\<close>)

section \<open>A second scan on the same day\<close>

text \<open>Every key was set by the reminder jobs, at an instant of the day it names.\<close>

definition keys_ok :: "db \<Rightarrow> bool" where
  "keys_ok s \<longleftrightarrow> (\<forall>x \<in> set (redisKeys s). \<exists>t i ty. printable t \<and> fst x = reminderKey t i ty \<and>
     snd x = t + REMINDER_TTL_SECONDS * 1000)"

lemma same_day_bound: "localDay 0 t = localDay 0 u \<Longrightarrow> t < u + REMINDER_TTL_SECONDS * 1000"
  using int_div_bounds[of msPerDay t] int_div_bounds[of msPerDay u]
  by (simp add: localDay_def REMINDER_TTL_SECONDS_def msPerDay_def)

lemma key_lasts:
  assumes "keys_ok s" "printable now" "redisHas now (reminderKey now i ty) s" "localDay 0 now' = localDay 0 now"
  shows "redisHas now' (reminderKey now' i ty) s"
proof -
  obtain x where x: "x \<in> set (redisKeys s)" "fst x = reminderKey now i ty" using assms(3) by (auto simp: redisHas_def)
  then obtain t j ty' where t: "printable t" "reminderKey now i ty = reminderKey t j ty'" "snd x = t + REMINDER_TTL_SECONDS * 1000"
    using assms(1) unfolding keys_ok_def by metis
  have "localDay 0 t = localDay 0 now'" using reminderKey_day[OF assms(2) t(1,2)] assms(4) by simp
  then have "now' < snd x" unfolding t(3) by (intro same_day_bound) simp
  moreover have "reminderKey now' i ty = reminderKey now i ty"
    using isoDay_same_day[OF assms(4)] by (simp add: reminderKey_def)
  ultimately show ?thesis using x unfolding redisHas_def by (intro bexI[of _ x]) simp_all
qed

definition keeps_keys :: "time \<Rightarrow> db \<Rightarrow> db \<Rightarrow> bool" where
  "keeps_keys now s t \<longleftrightarrow> (\<forall>now' k. now \<le> now' \<longrightarrow> redisHas now' k s \<longrightarrow> redisHas now' k t)"

lemma keeps_keys_trans: "keeps_keys now s t \<Longrightarrow> keeps_keys now t u \<Longrightarrow> keeps_keys now s u"
  by (simp add: keeps_keys_def)

lemma ensureReminderSent_grants:
  assumes "ensureReminderSent now i ty s = (True, s1)" "keys_ok s" "printable now"
  shows "keeps_keys now s s1" "keys_ok s1" "localDay 0 now' = localDay 0 now \<Longrightarrow> redisHas now' (reminderKey now' i ty) s1"
    "\<exists>k. s1 = s\<lparr>redisKeys := k\<rparr>"
proof -
  let ?key = "reminderKey now i ty"
  have n: "\<not> redisHas now ?key s"
    and s1: "s1 = s\<lparr>redisKeys := (?key, now + REMINDER_TTL_SECONDS * 1000) # filter (\<lambda>x. fst x \<noteq> ?key) (redisKeys s)\<rparr>"
    using assms(1) by (auto simp: ensureReminderSent_def Let_def split: if_splits)
  show "keeps_keys now s s1"
    unfolding keeps_keys_def
  proof (intro allI impI)
    fix now' k assume a: "now \<le> now'" "redisHas now' k s"
    then have "redisHas now k s" unfolding redisHas_def by force
    then have "k \<noteq> ?key" using n by auto
    with a(2) show "redisHas now' k s1" unfolding s1 redisHas_def by auto
  qed
  show ok: "keys_ok s1" using assms(2,3) unfolding s1 keys_ok_def by auto
  show "\<exists>k. s1 = s\<lparr>redisKeys := k\<rparr>" unfolding s1 by blast
  have "redisHas now ?key s1" by (simp add: s1 redisHas_def REMINDER_TTL_SECONDS_def)
  then show "localDay 0 now' = localDay 0 now \<Longrightarrow> redisHas now' (reminderKey now' i ty) s1"
    by (rule key_lasts[OF ok assms(3)])
qed

lemma keys_ok_emit [simp]: "keys_ok (emit x s) = keys_ok s"
  by (simp add: keys_ok_def)

lemma keeps_keys_emit [simp]: "keeps_keys now s (emit x t) = keeps_keys now s t" "keeps_keys now (emit x s) t = keeps_keys now s t"
  by (simp_all add: keeps_keys_def)

lemma remindEach_step:
  obtains (skip) "remindEach f now (i # is) s = remindEach f now is s" "f i s = None"
  | (held) ty r where "remindEach f now (i # is) s = remindEach f now is s" "f i s = Some (ty, r)"
      "redisHas now (reminderKey now (in_installmentId i) ty) s"
  | (sent) ty r s1 where "f i s = Some (ty, r)" "ensureReminderSent now (in_installmentId i) ty s = (True, s1)"
      "remindEach f now (i # is) s = (case remindEach f now is (emit (Event (rm_event r) (in_installmentId i)) s1) of
        (rs, s2) \<Rightarrow> (r # rs, s2))"
proof (cases "f i s")
  case None then show thesis using skip by simp
next
  case (Some a)
  obtain ty r where a: "a = (ty, r)" by (cases a)
  show thesis
  proof (cases "redisHas now (reminderKey now (in_installmentId i) ty) s")
    case True then show thesis using held Some a by (simp add: ensureReminderSent_def)
  next
    case False
    obtain s1 where e: "ensureReminderSent now (in_installmentId i) ty s = (True, s1)"
      using False by (simp add: ensureReminderSent_def Let_def)
    show thesis by (rule sent[OF _ e]) (simp_all add: Some a e)
  qed
qed

lemma remindEach_frame:
  assumes "keys_ok s" "printable now"
  shows "keeps_keys now s (snd (remindEach f now is s)) \<and> keys_ok (snd (remindEach f now is s)) \<and>
    (\<exists>k x. snd (remindEach f now is s) = s\<lparr>redisKeys := k, outbox := x\<rparr>)"
  using assms(1)
proof (induction "is" arbitrary: s)
  case Nil
  have "\<exists>k x. s = s\<lparr>redisKeys := k, outbox := x\<rparr>" by (intro exI[of _ "redisKeys s"] exI[of _ "outbox s"]) simp
  with Nil show ?case by (simp add: keeps_keys_def)
next
  case (Cons i "is")
  show ?case
  proof (cases rule: remindEach_step[of f now i "is" s])
    case (sent ty r s1)
    note g = ensureReminderSent_grants[OF sent(2) Cons.prems assms(2)]
    let ?t = "emit (Event (rm_event r) (in_installmentId i)) s1"
    have e: "snd (remindEach f now (i # is) s) = snd (remindEach f now is ?t)"
      unfolding sent(3) by (simp split: prod.split)
    have IH: "keeps_keys now ?t (snd (remindEach f now is ?t)) \<and> keys_ok (snd (remindEach f now is ?t)) \<and>
        (\<exists>k x. snd (remindEach f now is ?t) = ?t\<lparr>redisKeys := k, outbox := x\<rparr>)"
      using g(2) by (intro Cons.IH) simp
    obtain k where k: "s1 = s\<lparr>redisKeys := k\<rparr>" using g(4) by blast
    have "\<exists>k x. snd (remindEach f now is ?t) = s\<lparr>redisKeys := k, outbox := x\<rparr>"
      using IH unfolding k emit_def by auto
    with IH show ?thesis unfolding e using keeps_keys_trans[OF g(1), of "snd (remindEach f now is ?t)"] by simp
  qed (use Cons in simp_all)
qed

lemma remindEach_claims:
  assumes "quiet f" "keys_ok s" "printable now" "now \<le> now'" "localDay 0 now' = localDay 0 now"
    and "i \<in> set is" "f i s = Some (ty, r)"
  shows "redisHas now' (reminderKey now' (in_installmentId i) ty) (snd (remindEach f now is s))"
  using assms(2,6,7)
proof (induction "is" arbitrary: s)
  case (Cons j "is")
  show ?case
  proof (cases rule: remindEach_step[of f now j "is" s])
    case skip then show ?thesis using Cons by auto
  next
    case (held ty' r')
    show ?thesis
    proof (cases "j = i")
      case True
      then have "redisHas now' (reminderKey now' (in_installmentId i) ty) s"
        using held(2,3) Cons.prems(3) key_lasts[OF Cons.prems(1) assms(3) _ assms(5)] by simp
      then show ?thesis unfolding held(1) using remindEach_frame[OF Cons.prems(1) assms(3), of f "is"] assms(4)
        by (simp add: keeps_keys_def)
    next
      case False then show ?thesis unfolding held(1) using Cons by simp
    qed
  next
    case (sent ty' r' s1)
    note g = ensureReminderSent_grants[OF sent(2) Cons.prems(1) assms(3)]
    let ?t = "emit (Event (rm_event r') (in_installmentId j)) s1"
    have ok: "keys_ok ?t" using g(2) by simp
    obtain k where k: "s1 = s\<lparr>redisKeys := k\<rparr>" using g(4) by blast
    have e: "snd (remindEach f now (j # is) s) = snd (remindEach f now is ?t)"
      unfolding sent(3) by (simp split: prod.split)
    show ?thesis
    proof (cases "j = i")
      case True
      then have "redisHas now' (reminderKey now' (in_installmentId i) ty) ?t"
        using g(3)[OF assms(5)] sent(1) Cons.prems(3) by simp
      then show ?thesis unfolding e using remindEach_frame[OF ok assms(3), of f "is"] assms(4)
        by (simp add: keeps_keys_def)
    next
      case False
      have "f i ?t = Some (ty, r)" using assms(1) Cons.prems(3) by (simp add: quiet_def k)
      with False Cons.prems(2) show ?thesis unfolding e by (intro Cons.IH[OF ok]) auto
    qed
  qed
qed simp

lemma remindEach_blocked:
  assumes "\<And>j ty r. j \<in> set js \<Longrightarrow> f j t = Some (ty, r) \<Longrightarrow> redisHas now (reminderKey now (in_installmentId j) ty) t"
  shows "remindEach f now js t = ([], t)"
  using assms by (induction js) (auto simp: ensureReminderSent_def split: option.split)

text \<open>
  The database the second scan finds: as the first one left it, except that installments may have
  become OVERDUE in between.
\<close>

definition aged_row :: "time \<Rightarrow> installment_row \<Rightarrow> installment_row \<Rightarrow> bool" where
  "aged_row todayStart i j \<longleftrightarrow> j = i \<or>
     (in_status i = InstallmentStatus.DUE \<and> in_dueDate i < todayStart \<and> j = i\<lparr>in_status := OVERDUE\<rparr>)"

definition aged :: "time \<Rightarrow> db \<Rightarrow> db \<Rightarrow> bool" where
  "aged todayStart s t \<longleftrightarrow> list_all2 (aged_row todayStart) (installments s) (installments t) \<and>
     contracts t = contracts s \<and> users t = users s"

lemma aged_row_fields:
  "aged_row d i j \<Longrightarrow> in_installmentId j = in_installmentId i" "aged_row d i j \<Longrightarrow> in_dueDate j = in_dueDate i"
  "aged_row d i j \<Longrightarrow> in_financingContractId j = in_financingContractId i" "aged_row d i j \<Longrightarrow> in_sequence j = in_sequence i"
  "aged_row d i j \<Longrightarrow> in_status j \<in> OPEN_STATUSES \<longleftrightarrow> in_status i \<in> OPEN_STATUSES"
  "aged_row d i j \<Longrightarrow> in_status j \<in> {InstallmentStatus.DUE, OVERDUE} \<longleftrightarrow> in_status i \<in> {InstallmentStatus.DUE, OVERDUE}"
  "aged_row d i j \<Longrightarrow> d \<le> in_dueDate i \<Longrightarrow> j = i"
  by (auto simp: aged_row_def OPEN_STATUSES_def)

lemma aged_reads:
  assumes "contracts t = contracts s" "users t = users s" "in_financingContractId j = in_financingContractId i"
  shows "settingsOf m j t = settingsOf m i s" "escalationAdmin j t = escalationAdmin i s"
    "onActiveContract j t = onActiveContract i s"
proof -
  have c: "contractCustomer j t = contractCustomer i s"
    using assms by (simp add: contractCustomer_def find_contract_def customerOf_def[abs_def] find_user_def)
  then have "marketerOf j t = marketerOf i s" using assms by (simp add: marketerOf_def split: option.split)
  then show "escalationAdmin j t = escalationAdmin i s" using assms by (simp add: escalationAdmin_def split: option.split)
  show "settingsOf m j t = settingsOf m i s" using c by (simp add: settingsOf_def)
  show "onActiveContract j t = onActiveContract i s" using assms by (simp add: onActiveContract_def find_contract_def)
qed

lemma aged_origin:
  assumes "aged d s t" "j \<in> set (installments t)"
  obtains i where "i \<in> set (installments s)" "aged_row d i j"
proof -
  obtain n where "n < length (installments t)" "installments t ! n = j" using assms(2) by (auto simp: in_set_conv_nth)
  with assms(1) show thesis by (intro that[of "installments s ! n"]) (auto simp: aged_def list_all2_conv_all_nth)
qed

lemma aged_target:
  assumes "aged d s t" "i \<in> set (installments s)"
  obtains j where "j \<in> set (installments t)" "aged_row d i j"
proof -
  obtain n where "n < length (installments s)" "installments s ! n = i" using assms(2) by (auto simp: in_set_conv_nth)
  with assms(1) show thesis by (intro that[of "installments t ! n"]) (auto simp: aged_def list_all2_conv_all_nth)
qed

lemma upcomingRows_aged:
  assumes "aged d s t" "d \<le> from" "j \<in> set (upcomingRows from until t)"
  shows "j \<in> set (upcomingRows from until s)"
proof -
  have j: "j \<in> set (installments t)" "d \<le> in_dueDate j" using assms(2,3) by (simp_all add: upcomingRows_def)
  obtain i where i: "i \<in> set (installments s)" "aged_row d i j" using aged_origin[OF assms(1) j(1)] .
  have "j = i" using aged_row_fields(2,7)[OF i(2)] j(2) by simp
  then show ?thesis using assms(1,3) i(1) aged_reads(3)[of t s i i] by (simp add: upcomingRows_def aged_def)
qed

lemma lateRows_aged:
  assumes "aged d s t" "j \<in> set (lateRows from until t)"
  obtains i where "i \<in> set (lateRows from until s)" "aged_row d i j"
proof -
  have j: "j \<in> set (installments t)" using assms(2) by (simp add: lateRows_def)
  obtain i where i: "i \<in> set (installments s)" "aged_row d i j" using aged_origin[OF assms(1) j] .
  have "i \<in> set (lateRows from until s)"
    using assms i(1) aged_row_fields(2,6)[OF i(2)] aged_reads(3)[of t s j i] aged_row_fields(3)[OF i(2)]
    by (simp add: lateRows_def aged_def)
  then show thesis using i(2) by (rule that)
qed

lemma firstOpenRows_aged:
  assumes "aged d s t" "j \<in> set (firstOpenRows t)"
  obtains i where "i \<in> set (firstOpenRows s)" "aged_row d i j"
proof -
  have j: "j \<in> set (installments t)" "in_status j \<in> OPEN_STATUSES" "onActiveContract j t"
    "\<And>k. k \<in> set (installments t) \<Longrightarrow> in_financingContractId k = in_financingContractId j \<Longrightarrow> in_status k \<in> OPEN_STATUSES \<Longrightarrow>
      in_sequence j \<le> in_sequence k"
    using assms(2) by (simp_all add: firstOpenRows_def list_all_iff)
  obtain i where i: "i \<in> set (installments s)" "aged_row d i j" using aged_origin[OF assms(1) j(1)] .
  note f = aged_row_fields[OF i(2)]
  have "in_sequence i \<le> in_sequence k"
    if k: "k \<in> set (installments s)" "in_financingContractId k = in_financingContractId i" "in_status k \<in> OPEN_STATUSES" for k
  proof -
    obtain k' where k': "k' \<in> set (installments t)" "aged_row d k k'" using aged_target[OF assms(1) k(1)] .
    have "in_sequence j \<le> in_sequence k'"
      using j(4)[OF k'(1)] k aged_row_fields(3,5)[OF k'(2)] f(3) by simp
    then show ?thesis using f(4) aged_row_fields(4)[OF k'(2)] by simp
  qed
  then have "i \<in> set (firstOpenRows s)"
    using i(1) f(5) j(2,3) assms(1) aged_reads(3)[of t s j i] f(3) by (simp add: firstOpenRows_def list_all_iff aged_def)
  then show thesis using i(2) by (rule that)
qed

text \<open>What one scan guarantees for a later run on the same day.\<close>

definition daily :: "((ident \<rightharpoonup> reminder_settings) \<Rightarrow> time \<Rightarrow> db \<Rightarrow> reminder list \<times> db) \<Rightarrow> bool" where
  "daily P \<longleftrightarrow> (\<forall>m now now' s t. keys_ok s \<longrightarrow> printable now \<longrightarrow> now \<le> now' \<longrightarrow> localDay 0 now' = localDay 0 now \<longrightarrow>
     aged (utcDate now 0) s t \<longrightarrow> keeps_keys now (snd (P m now s)) t \<longrightarrow> P m now' t = ([], t)) \<and>
   (\<forall>m now s. keys_ok s \<longrightarrow> printable now \<longrightarrow> keeps_keys now s (snd (P m now s)) \<and> keys_ok (snd (P m now s)) \<and>
     (\<exists>k x. snd (P m now s) = s\<lparr>redisKeys := k, outbox := x\<rparr>))"

lemma dailyI:
  assumes "\<And>m now s. P m now s = remindEach (f m (localDay 0 now)) now (rows (localDay 0 now) s) s"
    and "\<And>m d. quiet (f m d)"
    and "\<And>m d s t j ty r. aged (d * msPerDay) s t \<Longrightarrow> j \<in> set (rows d t) \<Longrightarrow> f m d j t = Some (ty, r) \<Longrightarrow>
      \<exists>i \<in> set (rows d s). in_installmentId i = in_installmentId j \<and> (\<exists>r'. f m d i s = Some (ty, r'))"
  shows "daily P"
  unfolding daily_def
proof (intro conjI allI impI)
  fix m now now' s t
  assume a: "keys_ok s" "printable now" "now \<le> now'" "localDay 0 now' = localDay 0 now" "aged (utcDate now 0) s t"
    "keeps_keys now (snd (P m now s)) t"
  show "P m now' t = ([], t)"
    unfolding assms(1) a(4)
  proof (rule remindEach_blocked)
    fix j ty r assume j: "j \<in> set (rows (localDay 0 now) t)" "f m (localDay 0 now) j t = Some (ty, r)"
    have "aged (localDay 0 now * msPerDay) s t" using a(5) by (simp add: utcDate)
    then obtain i r' where i: "i \<in> set (rows (localDay 0 now) s)" "in_installmentId i = in_installmentId j"
      "f m (localDay 0 now) i s = Some (ty, r')" using assms(3) j by blast
    show "redisHas now' (reminderKey now' (in_installmentId j) ty) t"
      using remindEach_claims[OF assms(2) a(1-4) i(1,3)] a(3,6) i(2) unfolding assms(1)[symmetric] keeps_keys_def by auto
  qed
next
  fix m now s assume "keys_ok s" "printable now"
  from remindEach_frame[OF this]
  show "keeps_keys now s (snd (P m now s))" "keys_ok (snd (P m now s))"
    "\<exists>k x. snd (P m now s) = s\<lparr>redisKeys := k, outbox := x\<rparr>"
    unfolding assms(1) by blast+
qed

lemma same_row_fields:
  assumes "aged (d * msPerDay) s t" "aged_row (d * msPerDay) i j"
  shows "settingsOf m j t = settingsOf m i s" "escalationAdmin j t = escalationAdmin i s"
    "in_dueDate j = in_dueDate i" "in_installmentId j = in_installmentId i"
  using assms aged_reads(1,2)[of t s j i] aged_row_fields[OF assms(2)] by (simp_all add: aged_def)

lemma upcoming_same:
  assumes "aged (d * msPerDay) s t" "j \<in> set (upcomingRows (d * msPerDay) until t)"
  shows "j \<in> set (upcomingRows (d * msPerDay) until s)" "settingsOf m j t = settingsOf m j s"
  using upcomingRows_aged[OF assms(1) _ assms(2)] same_row_fields(1)[OF assms(1), of j j] by (simp_all add: aged_row_def)

lemma daily_before_due:
  "daily process3DayReminders" "daily process1DayReminders" "daily processDueTodayReminders"
proof -
  let ?week = "\<lambda>d. upcomingRows (d * msPerDay) (d * msPerDay + (MAX_REMINDER_OFFSET_DAYS + 1) * ONE_DAY_MS)"
  show "daily process3DayReminders"
    by (rule dailyI[where rows = ?week and f = "\<lambda>m d i s.
        let settings = settingsOf m i s; days = daysUntil (in_dueDate i) (d * msPerDay)
        in if \<not> reminder3DayEnabled settings \<or> days \<noteq> REMINDER_OFFSET_DAYS (reminder3DayOffset settings) then None
           else Some (''3day'', mkReminder ''INSTALLMENT_REMINDER_3DAY'' i (Some days) None None s)"])
      (auto simp: process3DayReminders_def dayWindow_0 Let_def quiet_def upcoming_same split: if_splits)
  show "daily process1DayReminders"
    by (rule dailyI[where rows = ?week and f = "\<lambda>m d i s.
        let settings = settingsOf m i s; days = daysUntil (in_dueDate i) (d * msPerDay)
        in if \<not> reminder1DayEnabled settings \<or> days \<noteq> REMINDER_OFFSET_DAYS (reminder1DayOffset settings) then None
           else Some (''1day'', mkReminder ''INSTALLMENT_REMINDER_1DAY'' i (Some days) None None s)"])
      (auto simp: process1DayReminders_def dayWindow_0 Let_def quiet_def upcoming_same split: if_splits)
  show "daily processDueTodayReminders"
    by (rule dailyI[where rows = "\<lambda>d. upcomingRows (d * msPerDay) (d * msPerDay + msPerDay)" and f = "\<lambda>m d i s.
        if \<not> reminderDueTodayEnabled (settingsOf m i s) then None
        else Some (''due-today'', mkReminder ''INSTALLMENT_DUE_TODAY'' i None None None s)"])
      (auto simp: processDueTodayReminders_def dayWindow_0 quiet_def upcoming_same split: if_splits)
qed

lemma daily_overdue:
  "daily processRecurringReminders" "daily process3DayOverdue" "daily process7DayOverdue"
proof -
  let ?late = "\<lambda>d. lateRows (d * msPerDay - MAX_REMINDER_OFFSET_DAYS * ONE_DAY_MS) (d * msPerDay + msPerDay)"
  show "daily processRecurringReminders"
  proof (rule dailyI[where rows = "\<lambda>d. firstOpenRows" and f = "\<lambda>m d i s.
        let days = daysOverdue (d * msPerDay) (in_dueDate i)
        in if \<not> reminderRecurringOverdueEnabled (settingsOf m i s) then None else if days < 1 then None
           else Some (''recurring-'' @ show_nat (nat days),
             mkReminder ''INSTALLMENT_OVERDUE_RECURRING'' i (Some days) None None s)"], goal_cases)
    case (3 m d s t j ty r)
    from 3(1,2) obtain i where "i \<in> set (firstOpenRows s)" "aged_row (d * msPerDay) i j" by (rule firstOpenRows_aged)
    with 3 show ?case
      by (intro bexI[of _ i]) (auto simp: Let_def same_row_fields[OF 3(1)] split: if_splits)
  qed (simp_all add: processRecurringReminders_def utcDate quiet_def Let_def)
  show "daily process3DayOverdue"
  proof (rule dailyI[where rows = ?late and f = "\<lambda>m d i s.
        let settings = settingsOf m i s; days = daysOverdue (d * msPerDay) (in_dueDate i)
        in if \<not> reminderOverdue3DayEnabled settings \<or> days \<noteq> REMINDER_OFFSET_DAYS (reminderOverdue3DayOffset settings)
           then None
           else Some (''overdue-3day'', mkReminder ''INSTALLMENT_OVERDUE_3DAY'' i (Some days)
             (Some (contactOf ''N/A'' (marketerOf i s))) None s)"], goal_cases)
    case (3 m d s t j ty r)
    from 3(1,2) obtain i where "i \<in> set (?late d s)" "aged_row (d * msPerDay) i j" by (rule lateRows_aged)
    with 3 show ?case
      by (intro bexI[of _ i]) (auto simp: Let_def same_row_fields[OF 3(1)] split: if_splits)
  qed (simp_all add: process3DayOverdue_def dayWindow_0 quiet_def Let_def)
  show "daily process7DayOverdue"
  proof (rule dailyI[where rows = ?late and f = "\<lambda>m d i s.
        let settings = settingsOf m i s; days = daysOverdue (d * msPerDay) (in_dueDate i)
        in if \<not> reminderOverdue7DayEnabled settings \<or> days \<noteq> REMINDER_OFFSET_DAYS (reminderOverdue7DayOffset settings)
           then None
           else (case escalationAdmin i s of
               None \<Rightarrow> None
             | Some a \<Rightarrow> Some (''overdue-7day'', mkReminder ''INSTALLMENT_OVERDUE_7DAY'' i (Some days)
                 (Some (contactOf ''N/A'' (marketerOf i s))) (Some (contactOf ''Admin'' (Some a))) s))"], goal_cases)
    case (3 m d s t j ty r)
    from 3(1,2) obtain i where "i \<in> set (?late d s)" "aged_row (d * msPerDay) i j" by (rule lateRows_aged)
    with 3 show ?case
      by (intro bexI[of _ i]) (auto simp: Let_def same_row_fields[OF 3(1)] split: if_splits option.splits)
  qed (simp_all add: process7DayOverdue_def dayWindow_0 quiet_def Let_def split: option.split)
qed

lemma onActiveContract_frame [simp]:
  "onActiveContract i (s\<lparr>installments := x\<rparr>) = onActiveContract i s"
  "onActiveContract i (s\<lparr>redisKeys := k, outbox := y\<rparr>) = onActiveContract i s"
  by (simp_all add: onActiveContract_def find_contract_def)

lemma transitions_frame:
  "contracts (transitionInstallmentStatuses df now s) = contracts s" "users (transitionInstallmentStatuses df now s) = users s"
  "redisKeys (transitionInstallmentStatuses df now s) = redisKeys s" "outbox (transitionInstallmentStatuses df now s) = outbox s"
  "reminderSettings (transitionInstallmentStatuses df now s) = reminderSettings s"
  "payments (transitionInstallmentStatuses df now s) = payments s" "intents (transitionInstallmentStatuses df now s) = intents s"
  "onActiveContract i (transitionInstallmentStatuses df now s) = onActiveContract i s"
  by (simp_all add: transitionInstallmentStatuses_def pendingToDue_def dueToOverdue_def Let_def)

lemma transitions_leave_no_pending:
  assumes "i \<in> set (installments (transitionInstallmentStatuses df now s))" "onActiveContract i s" "in_dueDate i \<le> utcDate now 0"
  shows "in_status i \<noteq> InstallmentStatus.PENDING"
proof
  assume p: "in_status i = InstallmentStatus.PENDING"
  have a: "onActiveContract (x\<lparr>in_status := st\<rparr>) s = onActiveContract x s" for x st by (simp add: onActiveContract_def)
  from assms p show False
    by (cases df) (auto simp: transitionInstallmentStatuses_def pendingToDue_def dueToOverdue_def Let_def set_update_where a
        split: if_splits)
qed

lemma transitions_again:
  assumes "s0 = transitionInstallmentStatuses df now s" "localDay 0 now' = localDay 0 now"
  shows "aged (utcDate now 0) s0 (transitionInstallmentStatuses df' now' (s0\<lparr>redisKeys := k, outbox := x\<rparr>))"
proof -
  have d: "utcDate now' 0 = utcDate now 0" using assms(2) by (simp add: utcDate)
  let ?over = "\<lambda>i. in_status i = InstallmentStatus.DUE \<and> in_dueDate i < utcDate now 0 - 3 * 24 * 60 * 60 * 1000 \<and> onActiveContract i s0"
  let ?rows = "update_where ?over (\<lambda>i. i\<lparr>in_status := OVERDUE\<rparr>) (installments s0)"
  let ?pend = "\<lambda>i. in_status i = InstallmentStatus.PENDING \<and> in_dueDate i \<le> utcDate now 0 \<and> onActiveContract i s0"
  have none: "\<not> ?pend i" if "i \<in> set (installments s0)" for i
    using transitions_leave_no_pending[of i df now s] that transitions_frame(8)[of i df now s] assms(1) by auto
  have still: "\<not> ?pend i" if i: "i \<in> set ?rows" for i
  proof -
    obtain j where "j \<in> set (installments s0)" "i = (if ?over j then j\<lparr>in_status := OVERDUE\<rparr> else j)"
      using i unfolding set_update_where by (elim imageE) (rule that)
    then show ?thesis using none[of j] by auto
  qed
  have u: "update_where ?pend (\<lambda>i. i\<lparr>in_status := InstallmentStatus.DUE\<rparr>) (installments s0) = installments s0"
    "update_where ?pend (\<lambda>i. i\<lparr>in_status := InstallmentStatus.DUE\<rparr>) ?rows = ?rows"
    using none still by (intro update_where_no_match; blast)+
  have "installments (transitionInstallmentStatuses df' now' (s0\<lparr>redisKeys := k, outbox := x\<rparr>)) = ?rows"
    using u by (cases df') (simp_all add: transitionInstallmentStatuses_def pendingToDue_def dueToOverdue_def Let_def d)
  moreover have "list_all2 (aged_row (utcDate now 0)) (installments s0) ?rows"
    by (simp add: update_where_def list.rel_map aged_row_def list.rel_refl_strong)
  ultimately show ?thesis by (simp add: aged_def transitions_frame)
qed

lemma dailyD:
  assumes "daily P" "keys_ok s" "printable now"
  shows "keeps_keys now s (snd (P m now s))" "keys_ok (snd (P m now s))"
    "\<exists>k x. snd (P m now s) = s\<lparr>redisKeys := k, outbox := x\<rparr>"
  using assms unfolding daily_def by blast+

lemma daily_silent:
  assumes "daily P" "keys_ok s" "printable now" "now \<le> now'" "localDay 0 now' = localDay 0 now"
    and "aged (utcDate now 0) s t" "keeps_keys now (snd (P m now s)) t"
  shows "P m now' t = ([], t)"
  using assms unfolding daily_def by blast

lemma aged_frame: "aged d (s\<lparr>redisKeys := k, outbox := x\<rparr>) t = aged d s t"
  by (simp add: aged_def)

text \<open>The scans of a run, one after the other.\<close>

definition inTurn ::
  "((ident \<rightharpoonup> reminder_settings) \<Rightarrow> time \<Rightarrow> db \<Rightarrow> reminder list \<times> db) list \<Rightarrow>
     (ident \<rightharpoonup> reminder_settings) \<Rightarrow> time \<Rightarrow> db \<Rightarrow> reminder list \<times> db" where
  "inTurn Ps m now s = foldl (\<lambda>(rs, t) P. case P m now t of (rs', t') \<Rightarrow> (rs @ rs', t')) ([], s) Ps"

definition SCANS :: "((ident \<rightharpoonup> reminder_settings) \<Rightarrow> time \<Rightarrow> db \<Rightarrow> reminder list \<times> db) list" where
  "SCANS = [process3DayReminders, process1DayReminders, processDueTodayReminders, processRecurringReminders,
     process3DayOverdue, process7DayOverdue]"

lemma run_inTurn:
  "runReminders df now s =
     (let s0 = transitionInstallmentStatuses df now s in inTurn SCANS (getEffectiveSettingsMap s0) now s0)"
  by (simp add: runReminders_def SCANS_def inTurn_def Let_def split: prod.split)

lemma inTurn_snoc:
  "inTurn (Ps @ [P]) m now s = (fst (inTurn Ps m now s) @ fst (P m now (snd (inTurn Ps m now s))),
     snd (P m now (snd (inTurn Ps m now s))))"
  by (simp add: inTurn_def split: prod.split)

lemma inTurn_frame:
  assumes "\<And>P. P \<in> set Ps \<Longrightarrow> daily P" "keys_ok s" "printable now"
  shows "keeps_keys now s (snd (inTurn Ps m now s)) \<and> keys_ok (snd (inTurn Ps m now s)) \<and>
    (\<exists>k x. snd (inTurn Ps m now s) = s\<lparr>redisKeys := k, outbox := x\<rparr>)"
  using assms(1)
proof (induction Ps rule: rev_induct)
  case Nil
  have "\<exists>k x. s = s\<lparr>redisKeys := k, outbox := x\<rparr>" by (intro exI[of _ "redisKeys s"] exI[of _ "outbox s"]) simp
  with assms(2) show ?case by (simp add: inTurn_def keeps_keys_def)
next
  case (snoc P Ps)
  let ?t = "snd (inTurn Ps m now s)"
  have t: "keeps_keys now s ?t" "keys_ok ?t" "\<exists>k x. ?t = s\<lparr>redisKeys := k, outbox := x\<rparr>"
    using snoc by simp_all
  note p = dailyD[of P ?t now m, OF _ t(2) assms(3)]
  obtain k x where "?t = s\<lparr>redisKeys := k, outbox := x\<rparr>" using t(3) by blast
  then have "\<exists>k x. snd (P m now ?t) = s\<lparr>redisKeys := k, outbox := x\<rparr>" using p(3) snoc.prems by auto
  with p(1,2) keeps_keys_trans[OF t(1)] snoc.prems show ?case by (simp add: inTurn_snoc)
qed

lemma inTurn_silent:
  assumes "\<And>P. P \<in> set Ps \<Longrightarrow> daily P" "keys_ok s" "printable now" "now \<le> now'" "localDay 0 now' = localDay 0 now"
    and "aged (utcDate now 0) s t" "keeps_keys now (snd (inTurn Ps m now s)) t"
  shows "inTurn Ps m now' t = ([], t)"
  using assms(1,7)
proof (induction Ps rule: rev_induct)
  case Nil then show ?case by (simp add: inTurn_def)
next
  case (snoc P Ps)
  let ?u = "snd (inTurn Ps m now s)"
  have d: "\<And>Q. Q \<in> set Ps \<Longrightarrow> daily Q" "daily P" using snoc.prems(1) by simp_all
  have u: "keys_ok ?u" "\<exists>k x. ?u = s\<lparr>redisKeys := k, outbox := x\<rparr>"
    using inTurn_frame[of Ps, OF d(1) assms(2,3)] by blast+
  have k: "keeps_keys now (snd (P m now ?u)) t" using snoc.prems(2) by (simp add: inTurn_snoc)
  have "aged (utcDate now 0) ?u t" using u(2) assms(6) aged_frame by metis
  then have "P m now' t = ([], t)" by (rule daily_silent[OF d(2) u(1) assms(3-5) _ k])
  moreover have "inTurn Ps m now' t = ([], t)"
    using snoc.IH d(1) keeps_keys_trans[OF dailyD(1)[OF d(2) u(1) assms(3)] k] by blast
  ultimately show ?case by (simp add: inTurn_snoc)
qed

lemma SCANS_daily: "P \<in> set SCANS \<Longrightarrow> daily P"
  by (auto simp: SCANS_def daily_before_due daily_overdue)

text \<open>C24: A second run of the daily job on the same UTC day, at any later instant of it and in
  whatever order the database executes the status updates of either run, sends nothing: no
  customer, marketer or admin hears twice of the same installment, although installments become
  OVERDUE between the runs.  The keys stay well-formed, so the same holds for every later day.
\<close>

theorem second_run_of_a_day_is_silent:
  assumes "keys_ok s" "printable now" "now \<le> now'" "localDay 0 now' = localDay 0 now"
    and "runReminders df now s = (rs, s1)"
  shows "fst (runReminders df' now' s1) = [] \<and> keys_ok s1"
proof -
  define s0 where s0: "s0 = transitionInstallmentStatuses df now s"
  let ?m = "getEffectiveSettingsMap s0"
  have ok: "keys_ok s0" using assms(1) by (simp add: s0 keys_ok_def transitions_frame)
  have s1: "s1 = snd (inTurn SCANS ?m now s0)" using assms(5) by (simp add: run_inTurn s0 Let_def)
  note f = inTurn_frame[of SCANS, OF SCANS_daily ok assms(2), of ?m]
  obtain k x where k: "s1 = s0\<lparr>redisKeys := k, outbox := x\<rparr>" using f unfolding s1 by blast
  let ?t = "transitionInstallmentStatuses df' now' s1"
  have m: "getEffectiveSettingsMap ?t = ?m"
    by (simp add: getEffectiveSettingsMap_def transitions_frame k)
  have "keeps_keys now s1 ?t" by (simp add: keeps_keys_def redisHas_def transitions_frame)
  moreover have "aged (utcDate now 0) s0 ?t" unfolding k by (rule transitions_again[OF s0 assms(4)])
  ultimately have "inTurn SCANS ?m now' ?t = ([], ?t)"
    using inTurn_silent[of SCANS, OF SCANS_daily ok assms(2-4), of ?t ?m] unfolding s1 by blast
  moreover have "keys_ok s1" using f unfolding s1 by blast
  ultimately show ?thesis unfolding run_inTurn[of df'] Let_def m by simp
qed

section \<open>The daily job and the end of a contract\<close>

text \<open>
  Once every installment of an active contract has fallen due and the daily job has run, the
  collection of any single one of them completes the contract: the job has left no installment
  PENDING, which is all the payment worker looks for.  The other installments stay as they are,
  so that whatever of them is unpaid is never asked for again: a completed contract is no longer
  active for the reminders.
\<close>

theorem first_payment_after_due_completes_contract:
  assumes "s1 = transitionInstallmentStatuses df now s"
    and "find_installment iid s = Some inst" "find_contract (in_financingContractId inst) s = Some contract"
    and "fc_status contract = FinancingStatus.ACTIVE"
    and "\<And>i. i \<in> set (installments s) \<Longrightarrow> in_financingContractId i = in_financingContractId inst \<Longrightarrow> in_dueDate i \<le> utcDate now 0"
    and "processPayment verify e iid ref s1 = (Inr (Collected r), s')"
  shows "map_option fc_status (find_contract (fc_contractId contract) s') = Some FinancingStatus.COMPLETED \<and>
    (\<forall>i \<in> set (installments s1). in_installmentId i \<noteq> iid \<longrightarrow> i \<in> set (installments s'))"
proof -
  from assms(6) obtain inst' contract' intent g t where p: "find_installment iid s1 = Some inst'"
    "find_contract (in_financingContractId inst') s1 = Some contract'"
    "collect e inst' contract' intent ref g s1 = (Inr r, t)" "installments s' = installments t"
    by (elim processPayment_collected) auto
  have rows: "installments s' = update_where (\<lambda>i. in_installmentId i = iid)
      (\<lambda>i. i\<lparr>in_status := InstallmentStatus.PAID, in_paidAt := Some (env_now e)\<rparr>) (installments s1)"
    using collect_ok(1)[OF p(3)] p(4) find_set[OF p(1)[unfolded find_installment_def]] by (simp add: payInstallment_def)
  have id: "fc_contractId contract = in_financingContractId inst"
    using assms(3) find_set unfolding find_contract_def by fast
  have orig: "\<exists>j \<in> set (installments s). in_financingContractId j = in_financingContractId i \<and> in_dueDate j = in_dueDate i"
    if "i \<in> set (installments s1)" for i
    using that unfolding assms(1)
    by (cases df) (auto simp: transitionInstallmentStatuses_def pendingToDue_def dueToOverdue_def Let_def set_update_where image_iff)
  have same: "map_option in_financingContractId (find_installment iid s1) = map_option in_financingContractId (find_installment iid s)"
    unfolding assms(1) transitionInstallmentStatuses_def pendingToDue_def dueToOverdue_def Let_def find_installment_def
    by (cases df) (simp_all add: map_find_update_where)
  then have c: "contract' = contract" "in_financingContractId inst' = in_financingContractId inst"
    using p(1,2) assms(1,2,3) by (simp_all add: find_contract_def transitions_frame)
  have none: "in_status i \<noteq> InstallmentStatus.PENDING"
    if i: "i \<in> set (installments s1)" "in_financingContractId i = fc_contractId contract" for i
  proof -
    have "in_dueDate i \<le> utcDate now 0" using orig[OF i(1)] i(2) assms(5) unfolding id by metis
    moreover have "onActiveContract i s" using i(2) assms(3,4) by (simp add: onActiveContract_def id)
    ultimately show ?thesis using transitions_leave_no_pending i(1) unfolding assms(1) by blast
  qed
  have "\<not> (\<exists>i \<in> set (installments s'). in_financingContractId i = fc_contractId contract \<and> in_status i = InstallmentStatus.PENDING)"
    using none unfolding rows set_update_where by (auto split: if_splits)
  with collected_contract_status[OF assms(6) p(1,2)] c(1)
  have "map_option fc_status (find_contract (fc_contractId contract) s') = Some FinancingStatus.COMPLETED" by simp
  then show ?thesis using update_where_key_other[of _ "installments s1" in_installmentId iid] unfolding rows by blast
qed

section \<open>Samples\<close>

definition sample_late :: db where
  "sample_late = (sample_sale 100)\<lparr>users := [sample_buyer ''cust'' CUSTOMER (Some ''mk''), sample_buyer ''mk'' MARKETER None,
     sample_buyer ''root'' SUPER_ADMIN None]\<rparr>"

definition sample_upcoming :: db where
  "sample_upcoming = (sample_sale 100)\<lparr>installments :=
     [(sample_installment ''in1'' 1 InstallmentStatus.PENDING)\<lparr>in_dueDate := 864000000\<rparr>]\<rparr>"

lemma sample_default [simp]: "reminderSettings (sample_sale x) = []" "redisKeys (sample_sale x) = []"
  by (simp_all add: sample_sale_def empty_db_def)

lemma settings_default: "reminderSettings s = [] \<Longrightarrow> settingsOf (getEffectiveSettingsMap s) i t = DEFAULT_REMINDER_SETTINGS"
  by (simp add: settingsOf_def settingsFor_def getEffectiveSettingsMap_def split: option.split)

theorem upcoming_reminders_have_one_day_witness:
  "sentTo ''in1'' (fst (process3DayReminders (getEffectiveSettingsMap sample_upcoming) 604800000 sample_upcoming))"
proof -
  let ?i = "(sample_installment ''in1'' 1 InstallmentStatus.PENDING)\<lparr>in_dueDate := 864000000\<rparr>"
  have d: "reminderSettings sample_upcoming = []" "redisKeys sample_upcoming = []" by (simp_all add: sample_upcoming_def)
  have ok: "settings_ok sample_upcoming" by (simp add: settings_ok_def d)
  have dist: "installments_distinct sample_upcoming" by (simp add: installments_distinct_def sample_upcoming_def)
  have aw: "awaitsPayment ?i sample_upcoming"
    by (simp add: awaitsPayment_def sample_upcoming_def onActiveContract_def find_contract_def sample_sale_def
        sample_installment_def sample_contract_def)
  have fresh: "\<not> redisHas 604800000 (reminderKey 604800000 (in_installmentId ?i) ty) sample_upcoming" for ty
    by (simp add: redisHas_def d)
  have "in_installmentId ?i = ''in1''" "in_dueDate ?i = 864000000" by (simp_all add: sample_installment_def)
  moreover have "localDay 0 604800000 = nearestDay 864000000 - 3"
    by (simp add: localDay_def nearestDay_def msPerDay_def)
  ultimately show ?thesis
    using upcoming_reminders_have_one_day[OF ok dist aw fresh refl]
    by (simp add: settings_default[OF d(1)] DEFAULT_REMINDER_SETTINGS_def)
qed

theorem seven_day_escalation_needs_midnight_witness:
  "\<forall>now. \<not> sentTo ''in2'' (fst (process7DayOverdue (getEffectiveSettingsMap sample_late) now sample_late))"
proof
  fix now
  let ?i = "sample_installment ''in2'' 2 OVERDUE"
  have d: "reminderSettings sample_late = []" "redisKeys sample_late = []" by (simp_all add: sample_late_def)
  have i: "installments_distinct sample_late" "?i \<in> set (installments sample_late)" "in_status ?i \<in> {InstallmentStatus.DUE, OVERDUE}"
    "onActiveContract ?i sample_late" "escalationAdmin ?i sample_late \<noteq> None"
    "in_installmentId ?i = ''in2''" "in_dueDate ?i = 2000"
    by (simp_all add: installments_distinct_def sample_late_def sample_sale_def sample_installment_def onActiveContract_def
        find_contract_def sample_contract_def escalationAdmin_def Let_def sample_buyer_def split: option.split)
  have n: "\<not> redisHas now (reminderKey now (in_installmentId ?i) ''overdue-7day'') sample_late"
    by (simp add: redisHas_def d)
  show "\<not> sentTo ''in2'' (fst (process7DayOverdue (getEffectiveSettingsMap sample_late) now sample_late))"
    using seven_day_escalation_needs_midnight[OF i(1-4) n i(5) refl _ refl] i(6,7)
    by (simp add: settings_default[OF d(1)] DEFAULT_REMINDER_SETTINGS_def msPerDay_def)
qed

theorem second_run_of_a_day_is_silent_witness:
  "fst (runReminders False 5000 (snd (runReminders True 4000 (sample_sale 100)))) = []"
proof -
  have a: "keys_ok (sample_sale 100)" "printable 4000" "(4000 :: time) \<le> 5000" "localDay 0 5000 = localDay 0 4000"
    by (simp_all add: keys_ok_def printable_def getFullYear_def localDay_def msPerDay_def YearFromDay_def Let_def DayFromYear_def)
  obtain rs s1 where r: "runReminders True 4000 (sample_sale 100) = (rs, s1)" by (cases "runReminders True 4000 (sample_sale 100)")
  show ?thesis using second_run_of_a_day_is_silent[OF a r, of False] by (simp add: r)
qed

theorem first_payment_after_due_completes_contract_witness:
  "\<exists>r s'. processPayment sample_verify (sample_clock CHR ''w'' 5000) ''in1'' ''ref''
      (transitionInstallmentStatuses True 86400000 (sample_sale 100)) = (Inr (Collected r), s') \<and>
    map_option fc_status (find_contract ''fc'' s') = Some FinancingStatus.COMPLETED \<and>
    sample_installment ''in2'' 2 OVERDUE \<in> set (installments s')"
proof -
  have u: "utcDate 86400000 0 = 86400000" by (simp add: utcDate localDay_def msPerDay_def)
  have t: "transitionInstallmentStatuses True 86400000 (sample_sale 100) = sample_sale 100"
    by (simp add: transitionInstallmentStatuses_def pendingToDue_def dueToOverdue_def u Let_def update_where_def
        sample_sale_def sample_installment_def onActiveContract_def)
  obtain r s' where job: "sample_job = (Inr (Collected r), s')" using sample_job_ok by (elim exE conjE) (rule that)
  have f: "find_installment ''in1'' (sample_sale 100) = Some (sample_installment ''in1'' 1 InstallmentStatus.DUE)"
    "find_contract (in_financingContractId (sample_installment ''in1'' 1 InstallmentStatus.DUE)) (sample_sale 100) = Some sample_contract"
    "fc_status sample_contract = FinancingStatus.ACTIVE" "fc_contractId sample_contract = ''fc''"
    by (simp_all add: sale_runs)
  have due: "in_dueDate i \<le> utcDate 86400000 0" if "i \<in> set (installments (sample_sale 100))" for i
    using that unfolding u by (auto simp: sample_sale_def sample_installment_def)
  from first_payment_after_due_completes_contract[OF refl f(1-3) due,
      where df = True and verify = sample_verify and e = "sample_clock CHR ''w'' 5000" and ref = "''ref''" and r = r and s' = s']
  have "map_option fc_status (find_contract (fc_contractId sample_contract) s') = Some FinancingStatus.COMPLETED \<and>
      (\<forall>i \<in> set (installments (sample_sale 100)). in_installmentId i \<noteq> ''in1'' \<longrightarrow> i \<in> set (installments s'))"
    unfolding t using job by (simp add: sample_job_def)
  moreover have "sample_installment ''in2'' 2 OVERDUE \<in> set (installments (sample_sale 100))"
    "in_installmentId (sample_installment ''in2'' 2 OVERDUE) \<noteq> ''in1''"
    by (simp_all add: sample_sale_def) (simp add: sample_installment_def)
  ultimately show ?thesis using job f(4) unfolding t by (intro exI[of _ r] exI[of _ s']) (simp add: sample_job_def)
qed

end
