(* ===== verification/JsString.thy ===== *)
theory JsString
  imports Prelude
begin

text \<open>
  The string functions of JavaScript the services use: case conversion and trimming on ASCII, the
  file extension, and Prisma's case-insensitive \<open>contains\<close>.
\<close>

definition toLowerCase :: "string \<Rightarrow> string" where
  "toLowerCase = List.map (\<lambda>c. if 65 \<le> (of_char c :: nat) \<and> (of_char c :: nat) \<le> 90 then char_of ((of_char c :: nat) + 32) else c)"

definition toUpperCase :: "string \<Rightarrow> string" where
  "toUpperCase = List.map (\<lambda>c. if 97 \<le> (of_char c :: nat) \<and> (of_char c :: nat) \<le> 122 then char_of ((of_char c :: nat) - 32) else c)"

definition isSpace :: "char \<Rightarrow> bool" where
  "isSpace c \<longleftrightarrow> (of_char c :: nat) \<in> {9, 10, 11, 12, 13, 32}"

definition jsTrim :: "string \<Rightarrow> string" where
  "jsTrim s = rev (dropWhile isSpace (rev (dropWhile isSpace s)))"

definition isAlnum :: "char \<Rightarrow> bool" where
  "isAlnum c \<longleftrightarrow> (let n = (of_char c :: nat) in (48 \<le> n \<and> n \<le> 57) \<or> (65 \<le> n \<and> n \<le> 90) \<or> (97 \<le> n \<and> n \<le> 122))"

text \<open>\<open>path.extname\<close>: from the last dot of the base name, which must not be its first character.\<close>

definition extname :: "string \<Rightarrow> string" where
  "extname f =
     (let base = rev (takeWhile (\<lambda>c. c \<noteq> CHR ''/'') (rev f));
          suffix = rev (takeWhile (\<lambda>c. c \<noteq> CHR ''.'') (rev base))
      in if CHR ''.'' \<notin> set base \<or> length base = length suffix + 1 then '''' else CHR ''.'' # suffix)"

fun isPrefix :: "string \<Rightarrow> string \<Rightarrow> bool" where
  "isPrefix [] ys = True"
| "isPrefix (x # xs) [] = False"
| "isPrefix (x # xs) (y # ys) = (x = y \<and> isPrefix xs ys)"

fun occursIn :: "string \<Rightarrow> string \<Rightarrow> bool" where
  "occursIn t [] = (t = [])"
| "occursIn t (c # s) = (isPrefix t (c # s) \<or> occursIn t s)"

definition containsInsensitive :: "string \<Rightarrow> string option \<Rightarrow> bool" where
  "containsInsensitive term v = (case v of None \<Rightarrow> False | Some s \<Rightarrow> occursIn (toLowerCase term) (toLowerCase s))"

text \<open>\<open>/^[^\s@]+@[^\s@]+$/\<close>\<close>

definition isEmailSearch :: "string \<Rightarrow> bool" where
  "isEmailSearch term =
     (let before = takeWhile (\<lambda>c. c \<noteq> CHR ''@'') term; after = drop (length before + 1) term
      in before \<noteq> [] \<and> after \<noteq> [] \<and> CHR ''@'' \<in> set term \<and> CHR ''@'' \<notin> set after \<and> \<not> list_ex isSpace term)"

end
