(* ===== verification/KycIntake.thy ===== *)
theory KycIntake
  imports Financing JsString
begin

text \<open>
  How a customer comes in, \<open>src/core/services/kyc.service.ts\<close> up to the submission of an
  application: referral links and signup codes, the provisional onboarding session (no user
  exists before the approval), and the application with its contract and document.  The sweeper
  that expires sessions (\<open>onboarding.service.ts\<close>) and the retention job
  (\<open>src/shared/job-workers/kyc-retention.worker.ts\<close>) close the intake.  Random codes, the
  password hash and the document store are parameters; a token is the session it names.
\<close>

section \<open>Reading\<close>

definition find_application :: "ident \<Rightarrow> db \<Rightarrow> kyc_row option" where
  "find_application aid s = find (\<lambda>a. ka_kycApplicationId a = aid) (kycApplications s)"

definition find_session :: "ident \<Rightarrow> db \<Rightarrow> session_row option" where
  "find_session sid s = find (\<lambda>x. os_sessionId x = sid) (sessions s)"

definition find_company :: "ident \<Rightarrow> db \<Rightarrow> company_row option" where
  "find_company cid s = find (\<lambda>c. co_companyId c = cid) (companies s)"

definition user_by_email :: "string \<Rightarrow> db \<Rightarrow> user_row option" where
  "user_by_email m s = find (\<lambda>u. u_email u = m) (users s)"

section \<open>Codes\<close>

definition cleanName :: "string \<Rightarrow> string option \<Rightarrow> string" where
  "cleanName fallback name = (case or_null name of None \<Rightarrow> fallback | Some n \<Rightarrow> toUpperCase (filter isAlnum n))"

definition update_user :: "ident \<Rightarrow> (user_row \<Rightarrow> user_row) \<Rightarrow> db \<Rightarrow> db" where
  "update_user uid f s = s\<lparr>users := update_where (\<lambda>u. u_userId u = uid) f (users s)\<rparr>"

definition stockProblem :: "product_row \<Rightarrow> ident option \<Rightarrow> db \<Rightarrow> app_error option" where
  "stockProblem product variantId s =
     (let vs = filter (\<lambda>v. va_productId v = pr_productId product) (variants s)
      in case or_null variantId of
           Some vid \<Rightarrow>
             (case find (\<lambda>v. va_variantId v = vid) vs of
                None \<Rightarrow> Some (BadRequestError ''Variant not found or inactive.'')
              | Some v \<Rightarrow>
                  if \<not> va_isActive v then Some (BadRequestError ''Variant not found or inactive.'')
                  else if va_stockQuantity v \<le> 0 then Some (BadRequestError ''Variant is out of stock.'')
                  else None)
         | None \<Rightarrow>
             (let sum = sum_list (map va_stockQuantity vs);
                  totalStock = (if sum = 0 then pr_stockQuantity product else sum)
              in if totalStock \<le> 0 then Some (BadRequestError ''Product is out of stock.'') else None))"

definition generateReferralLink ::
  "string \<Rightarrow> string \<Rightarrow> ident \<Rightarrow> string \<Rightarrow> ident option \<Rightarrow> ident option \<Rightarrow> db \<Rightarrow> (string \<times> string) res \<times> db" where
  "generateReferralLink frontendUrl hex marketerId productSlug variantId planId s =
     (case find (\<lambda>u. u_userId u = marketerId \<and> u_role u = MARKETER) (users s) of
        None \<Rightarrow> (Inl (UnauthorizedError ''Only marketers can generate referral links.''), s)
      | Some marketer \<Rightarrow>
     (case find (\<lambda>p. pr_slug p = productSlug) (products s) of
        None \<Rightarrow> (Inl (BadRequestError ''Product not found.''), s)
      | Some product \<Rightarrow>
          if pr_status product \<noteq> PUBLISHED \<and> pr_status product \<noteq> SOLD_OUT
          then (Inl (BadRequestError ''Product is not available for referral.''), s)
          else (case stockProblem product variantId s of
              Some err \<Rightarrow> (Inl err, s)
            | None \<Rightarrow>
                (let link = (\<lambda>code. frontendUrl @ ''/invite?ref='' @ code @ ''&product='' @ productSlug @
                       (case or_null variantId of None \<Rightarrow> '''' | Some v \<Rightarrow> ''&variant='' @ v) @
                       (case or_null planId of None \<Rightarrow> '''' | Some p \<Rightarrow> ''&installmentPlan='' @ p))
                 in case or_null (u_referralCode marketer) of
                      Some code \<Rightarrow> (Inr (code, link code), s)
                    | None \<Rightarrow>
                        (let code = ''IFL-REF-'' @ cleanName ''MARKETER'' (u_name marketer) @ ''-'' @ hex
                         in if \<exists>u \<in> set (users s). u_userId u \<noteq> marketerId \<and> u_referralCode u = Some code
                            then (Inl (UniqueViolation ''referralCode''), s)
                            else (Inr (code, link code),
                                  update_user marketerId (\<lambda>u. u\<lparr>u_referralCode := Some code\<rparr>) s))))))"

definition generateCompanySignupCode ::
  "string \<Rightarrow> string \<Rightarrow> ident \<Rightarrow> db \<Rightarrow> (string \<times> string) res \<times> db" where
  "generateCompanySignupCode frontendUrl hex companyUserId s =
     (case Option.bind (find (\<lambda>u. u_userId u = companyUserId \<and> u_role u = COMPANY) (users s)) (\<lambda>u. or_null (u_companyId u)) of
        None \<Rightarrow> (Inl (UnauthorizedError ''Only a company owner can generate a signup code.''), s)
      | Some cid \<Rightarrow>
     (case find_company cid s of
        None \<Rightarrow> (Inl (NotFoundError ''Company not found.''), s)
      | Some company \<Rightarrow>
          (let link = (\<lambda>code. frontendUrl @ ''/invite?companyCode='' @ code)
           in case or_null (co_publicSignupCode company) of
                Some code \<Rightarrow> (Inr (code, link code), s)
              | None \<Rightarrow>
                  (let code = ''IFL-CO-'' @ cleanName ''COMPANY'' (Some (co_name company)) @ ''-'' @ hex
                   in if \<exists>c \<in> set (companies s). co_companyId c \<noteq> cid \<and> co_publicSignupCode c = Some code
                      then (Inl (UniqueViolation ''publicSignupCode''), s)
                      else (Inr (code, link code),
                        s\<lparr>companies := update_where (\<lambda>c. co_companyId c = cid)
                            (\<lambda>c. c\<lparr>co_publicSignupCode := Some code\<rparr>) (companies s)\<rparr>)))))"

section \<open>Registration\<close>

record session_input =
  si_name :: string
  si_email :: string
  si_password :: string
  si_marketerId :: "ident option"
  si_companyId :: "ident option"

definition activeSession :: "string \<Rightarrow> time \<Rightarrow> db \<Rightarrow> session_row option" where
  "activeSession email now s =
     find (\<lambda>x. os_email x = email \<and> os_status x \<in> {PENDING_KYC, KYC_SUBMITTED} \<and> now < os_expiresAt x) (sessions s)"

definition SESSION_MS :: int where
  "SESSION_MS = 24 * 60 * 60 * 1000"

definition createOrResumeOnboardingSession ::
  "(string \<Rightarrow> string) \<Rightarrow> env \<Rightarrow> session_input \<Rightarrow> db \<Rightarrow> ident \<times> db" where
  "createOrResumeOnboardingSession bcryptHash e p s =
     (case activeSession (si_email p) (env_now e) s of
        Some x \<Rightarrow> (os_sessionId x,
          s\<lparr>sessions := update_where (\<lambda>y. os_sessionId y = os_sessionId x)
              (\<lambda>y. y\<lparr>os_expiresAt := env_now e + SESSION_MS\<rparr>) (sessions s)\<rparr>)
      | None \<Rightarrow> (env_uuid e 0,
          s\<lparr>sessions := sessions s @
             [\<lparr>os_sessionId = env_uuid e 0, os_name = si_name p, os_email = si_email p,
               os_passwordHash = bcryptHash (si_password p), os_marketerId = si_marketerId p,
               os_companyId = si_companyId p, os_status = PENDING_KYC,
               os_expiresAt = env_now e + SESSION_MS, os_completedAt = None\<rparr>]\<rparr>))"

record invite =
  iv_name :: string
  iv_email :: string
  iv_password :: string
  iv_referredByCode :: "string option"
  iv_companyCode :: "string option"

text \<open>Whom the customer belongs to: the marketer of the referral code, or the company of the invite code.\<close>

definition inviterOf :: "invite \<Rightarrow> db \<Rightarrow> (ident option \<times> ident option) res" where
  "inviterOf d s =
     (case or_null (iv_referredByCode d) of
        Some code \<Rightarrow>
          (case find (\<lambda>u. u_referralCode u = Some code \<and> u_role u = MARKETER) (users s) of
             None \<Rightarrow> Inl (BadRequestError ''Invalid referral code: Marketer not found.'')
           | Some m \<Rightarrow> Inr (Some (u_userId m), None))
      | None \<Rightarrow>
          (case find (\<lambda>c. co_publicSignupCode c = iv_companyCode d \<and> iv_companyCode d \<noteq> None) (companies s) of
             None \<Rightarrow> Inl (BadRequestError ''Invalid company invite code.'')
           | Some c \<Rightarrow> Inr (None, Some (co_companyId c))))"

definition registerViaReferral ::
  "(string \<Rightarrow> string) \<Rightarrow> env \<Rightarrow> invite \<Rightarrow> db \<Rightarrow> ident res \<times> db" where
  "registerViaReferral bcryptHash e d s =
     (let email = jsTrim (toLowerCase (iv_email d))
      in case inviterOf d s of
           Inl err \<Rightarrow> (Inl err, s)
         | Inr (marketerId, companyId) \<Rightarrow>
             if user_by_email email s \<noteq> None then (Inl (ConflictError ''Email is already in use.''), s)
             else (case createOrResumeOnboardingSession bcryptHash e
                     \<lparr>si_name = iv_name d, si_email = email, si_password = iv_password d,
                      si_marketerId = marketerId, si_companyId = companyId\<rparr> s of
                     (sid, s') \<Rightarrow> (Inr sid, s')))"

record direct_registration =
  dr_name :: string
  dr_email :: string
  dr_password :: string

definition registerDirect ::
  "(string \<Rightarrow> string) \<Rightarrow> env \<Rightarrow> ident \<Rightarrow> direct_registration \<Rightarrow> db \<Rightarrow> ident res \<times> db" where
  "registerDirect bcryptHash e reviewerId d s =
     (case find_user reviewerId s of
        None \<Rightarrow> (Inl (UnauthorizedError ''Only company staff with an associated company can register a customer directly.''), s)
      | Some reviewer \<Rightarrow>
          if or_null (u_companyId reviewer) = None
          then (Inl (UnauthorizedError ''Only company staff with an associated company can register a customer directly.''), s)
          else if u_role reviewer \<noteq> COMPANY \<and> u_role reviewer \<noteq> ADMIN
          then (Inl (UnauthorizedError ''Only COMPANY or ADMIN users can register a customer directly.''), s)
          else (let email = jsTrim (toLowerCase (dr_email d))
                in if user_by_email email s \<noteq> None then (Inl (ConflictError ''Email is already in use.''), s)
                   else (case createOrResumeOnboardingSession bcryptHash e
                           \<lparr>si_name = dr_name d, si_email = email, si_password = dr_password d,
                            si_marketerId = (if u_role reviewer = ADMIN then Some (u_userId reviewer) else None),
                            si_companyId = u_companyId reviewer\<rparr> s of
                           (sid, s') \<Rightarrow> (Inr sid, s'))))"

section \<open>Submitting an application\<close>

record uploaded_file =
  uf_originalname :: string
  uf_path :: string
  uf_mimetype :: string
  uf_size :: int
  uf_hash :: string

record upload_result =
  ur_url :: string
  ur_public_id :: string

record application_input =
  ai_productId :: ident
  ai_variantId :: ident
  ai_installmentPlanId :: ident
  ai_idType :: string
  ai_idNumber :: string

definition update_application :: "ident \<Rightarrow> (kyc_row \<Rightarrow> kyc_row) \<Rightarrow> db \<Rightarrow> db" where
  "update_application aid f s =
     s\<lparr>kycApplications := update_where (\<lambda>a. ka_kycApplicationId a = aid) f (kycApplications s)\<rparr>"

definition update_session :: "ident \<Rightarrow> (session_row \<Rightarrow> session_row) \<Rightarrow> db \<Rightarrow> db" where
  "update_session sid f s = s\<lparr>sessions := update_where (\<lambda>x. os_sessionId x = sid) f (sessions s)\<rparr>"

definition audit_kyc :: "ident \<Rightarrow> string \<Rightarrow> string \<Rightarrow> ident option \<Rightarrow> db \<Rightarrow> db" where
  "audit_kyc aid action fileHash by' s =
     s\<lparr>kycAudit := kycAudit s @ [\<lparr>kt_kycApplicationId = aid, kt_action = action, kt_fileHash = fileHash,
        kt_performedById = by', kt_outcome = ''SUCCESS''\<rparr>]\<rparr>"

definition new_application :: "env \<Rightarrow> session_row \<Rightarrow> application_input \<Rightarrow> kyc_row" where
  "new_application e session p = \<lparr>ka_kycApplicationId = env_uuid e 0, ka_userId = None,
     ka_onboardingSessionId = Some (os_sessionId session), ka_productId = ai_productId p,
     ka_installmentPlanId = ai_installmentPlanId p, ka_variantId = ai_variantId p,
     ka_idType = ai_idType p, ka_idNumber = ai_idNumber p, ka_status = KycApplicationStatus.PENDING,
     ka_marketerApproved = False, ka_marketerApprovedAt = None, ka_adminApproved = False, ka_adminApprovedAt = None,
     ka_rejectionReason = None, ka_legalHold = False, ka_isUnderFraudReview = False, ka_createdAt = env_now e\<rparr>"

definition new_contract :: "env \<Rightarrow> application_input \<Rightarrow> installment_plan_row \<Rightarrow> variant_row \<Rightarrow> contract_row" where
  "new_contract e p plan variant =
     (let principal = va_price variant;
          interest = principal * (ip_interestPercentage plan / 100)
      in \<lparr>fc_contractId = env_uuid e 1, fc_kycApplicationId = env_uuid e 0, fc_userId = None,
          fc_productId = ai_productId p, fc_variantId = Some (ai_variantId p),
          fc_approvedProductPrice = principal, fc_approvedInterestPercentage = ip_interestPercentage plan,
          fc_approvedDurationMonths = ip_durationMonths plan, fc_principal = principal, fc_interest = interest,
          fc_totalFinanced = principal + interest, fc_status = PENDING_ACTIVATION,
          fc_activatedAt = None, fc_rejectedAt = None, fc_completedAt = None, fc_restructuredAt = None,
          fc_restructuredById = None, fc_writtenOffAt = None, fc_writtenOffById = None, fc_writeOffReason = None\<rparr>)"

text \<open>What is checked before the transaction; returns the plan and the variant.\<close>

definition checkApplication ::
  "session_row \<Rightarrow> application_input \<Rightarrow> db \<Rightarrow> (installment_plan_row \<times> variant_row) res" where
  "checkApplication session p s =
     (if \<exists>a \<in> set (kycApplications s). ka_onboardingSessionId a = Some (os_sessionId session) \<and>
           ka_status a \<in> {KycApplicationStatus.PENDING, KycApplicationStatus.APPROVED}
      then Inl (ConflictError ''You have an existing KYC application.'')
      else (case find (\<lambda>q. ip_planId q = ai_installmentPlanId p) (installmentPlans s) of
              None \<Rightarrow> Inl (NotFoundError ''Installment plan not found.'')
            | Some plan \<Rightarrow>
           (case find (\<lambda>v. va_variantId v = ai_variantId p) (variants s) of
              None \<Rightarrow> Inl (NotFoundError ''Product variant not found.'')
            | Some variant \<Rightarrow>
                if va_productId variant \<noteq> ai_productId p
                then Inl (BadRequestError ''Selected variant does not belong to product.'')
                else if \<not> va_isActive variant then Inl (BadRequestError ''Product variant is inactive.'')
                else if va_stockQuantity variant \<le> 0 then Inl (BadRequestError ''Product variant is out of stock.'')
                else (case find (\<lambda>q. pr_productId q = ai_productId p) (products s) of
                    None \<Rightarrow> Inl (BadRequestError ''Product is not available for application.'')
                  | Some product \<Rightarrow>
                      if pr_status product \<noteq> PUBLISHED \<and> pr_status product \<noteq> SOLD_OUT
                      then Inl (BadRequestError ''Product is not available for application.'')
                      else Inr (plan, variant)))))"

text \<open>The unique index on \<open>onboardingSessionId\<close> allows one application per session, whatever its status.\<close>

definition persistTx ::
  "int \<Rightarrow> env \<Rightarrow> session_row \<Rightarrow> application_input \<Rightarrow> installment_plan_row \<Rightarrow> variant_row \<Rightarrow> upload_result \<Rightarrow>
     uploaded_file \<Rightarrow> db \<Rightarrow> kyc_row res \<times> db" where
  "persistTx tz e session p plan variant up file s =
     (if \<exists>a \<in> set (kycApplications s). ka_onboardingSessionId a = Some (os_sessionId session)
      then (Inl (UniqueViolation ''onboarding_session_id''), s)
      else
        (let app = new_application e session p;
             s1 = s\<lparr>kycApplications := kycApplications s @ [app], contracts := contracts s @ [new_contract e p plan variant],
                documents := documents s @
                  [\<lparr>da_assetId = env_uuid e 2, da_kycApplicationId = ka_kycApplicationId app,
                    da_cloudinaryPublicId = ur_public_id up, da_secureUrl = ur_url up, da_fileSize = uf_size file,
                    da_mimeType = uf_mimetype file, da_fileHash = uf_hash file, da_isDeleted = False,
                    da_scheduledDeletionAt = setDate tz (env_now e) (getDate tz (env_now e) + 15), da_deletedAt = None\<rparr>]\<rparr>;
             s2 = audit_kyc (ka_kycApplicationId app) ''SUBMITTED'' (uf_hash file) None s1
         in (Inr app, update_session (os_sessionId session) (\<lambda>x. x\<lparr>os_status := KYC_SUBMITTED\<rparr>) s2)))"

definition persistApplication ::
  "int \<Rightarrow> env \<Rightarrow> session_row \<Rightarrow> application_input \<Rightarrow> upload_result \<Rightarrow> uploaded_file \<Rightarrow> db \<Rightarrow> ident res \<times> db" where
  "persistApplication tz e session p up file s =
     (case checkApplication session p s of
        Inl err \<Rightarrow> (Inl err, s)
      | Inr (plan, variant) \<Rightarrow>
          (case transaction (persistTx tz e session p plan variant up file) s of
             (Inl err, s') \<Rightarrow> (Inl err, s')
           | (Inr app, s') \<Rightarrow>
               (Inr (ka_kycApplicationId app),
                emit (Notify ''KYC_APPLICATION_SUBMITTED'' (ka_kycApplicationId app))
                  (emit (Event ''USER_REGISTERED'' (os_email session)) s'))))"

definition submitApplication ::
  "int \<Rightarrow> (string \<Rightarrow> upload_result res) \<Rightarrow> bool \<Rightarrow> env \<Rightarrow> ident \<Rightarrow> application_input \<Rightarrow> uploaded_file option \<Rightarrow> db \<Rightarrow>
     ident res \<times> db" where
  "submitApplication tz upload isTest e sessionId p file s =
     (case find_session sessionId s of
        None \<Rightarrow> (Inl (NotFoundError ''Onboarding session not found.''), s)
      | Some session \<Rightarrow>
          if os_expiresAt session < env_now e
          then (Inl (BadRequestError ''This onboarding session has expired. Please register again.''), s)
          else if os_status session = KycOnboardingStatus.APPROVED
          then (Inl (ConflictError ''This onboarding session is already completed.''), s)
          else (case file of
              None \<Rightarrow> (Inl (BadRequestError ''Bank statement PDF file is required.''), s)
            | Some f \<Rightarrow>
                if 10 * 1024 * 1024 < uf_size f
                then (Inl (BadRequestError ''Bank statement size must be less than or equal to 10MB.''), s)
                else if toLowerCase (extname (uf_originalname f)) \<noteq> ''.pdf'' \<or> uf_mimetype f \<noteq> ''application/pdf''
                then (Inl (BadRequestError ''Only PDF (.pdf) documents are accepted.''), s)
                else if isTest
                then persistApplication tz e session p
                       \<lparr>ur_url = ''https://res.cloudinary.com/demo/image/upload/v12345/dummy.pdf'',
                        ur_public_id = ''documents/dummy_pdf_test''\<rparr> f s
                else (case upload (uf_path f) of
                    Inl err \<Rightarrow> (Inl err, s)
                  | Inr up \<Rightarrow>
                      (case persistApplication tz e session p up f s of
                         (Inl err, s') \<Rightarrow> (Inl err, emit (Event ''cloudinary.destroy'' (ur_public_id up)) s')
                       | (Inr aid, s') \<Rightarrow> (Inr aid, s')))))"

section \<open>Expiry\<close>

definition STALE :: "time \<Rightarrow> session_row \<Rightarrow> bool" where
  "STALE now x \<longleftrightarrow> os_status x \<in> {PENDING_KYC, KYC_SUBMITTED} \<and> os_expiresAt x < now"

definition applicationOfSession :: "ident \<Rightarrow> db \<Rightarrow> kyc_row option" where
  "applicationOfSession sid s = find (\<lambda>a. ka_onboardingSessionId a = Some sid) (kycApplications s)"

text \<open>
  The transaction for one session: only a session that is still EXPIRING is closed.  Then the
  event is sent, whatever the transaction found.
\<close>

definition expireSession :: "session_row \<Rightarrow> db \<Rightarrow> db" where
  "expireSession x s =
     (let sid = os_sessionId x;
          found = (\<exists>y \<in> set (sessions s). os_sessionId y = sid \<and> os_status y = EXPIRING);
          s1 = (if found
                then s\<lparr>sessions := update_where (\<lambda>y. os_sessionId y = sid \<and> os_status y = EXPIRING)
                    (\<lambda>y. y\<lparr>os_status := KycOnboardingStatus.EXPIRED, os_completedAt := None\<rparr>) (sessions s)\<rparr>
                else s);
          s2 = (case (found, applicationOfSession sid s1) of
                  (True, Some a) \<Rightarrow> update_application (ka_kycApplicationId a)
                    (\<lambda>a. a\<lparr>ka_status := KycApplicationStatus.REJECTED,
                           ka_rejectionReason := Some ''Onboarding session expired.''\<rparr>) s1
                | _ \<Rightarrow> s1)
      in emit (Event ''ONBOARDING_SESSION_EXPIRED'' sid) s2)"

definition expireStaleOnboardingSessions :: "nat \<Rightarrow> env \<Rightarrow> db \<Rightarrow> nat \<times> db" where
  "expireStaleOnboardingSessions batchSize e s =
     (let claimed = count_where (STALE (env_now e)) (sessions s);
          s1 = s\<lparr>sessions := update_where (STALE (env_now e))
                 (\<lambda>x. x\<lparr>os_status := EXPIRING, os_passwordHash := ''''\<rparr>) (sessions s)\<rparr>
      in if claimed = 0 then (0, s1)
         else (let stale = take batchSize (filter (\<lambda>x. os_status x = EXPIRING) (sessions s1))
               in (length stale, foldl (\<lambda>t x. expireSession x t) s1 stale)))"

definition runSweeper :: "nat \<Rightarrow> env \<Rightarrow> db \<Rightarrow> bool \<times> db" where
  "runSweeper batchSize e s =
     (case expireStaleOnboardingSessions batchSize e s of (n, s') \<Rightarrow> (n < batchSize, s'))"

section \<open>Retention\<close>

text \<open>\<open>KycStorageService.deleteAsset\<close> logs a failed deletion and returns; the asset is marked deleted all the same.\<close>

definition purgeAsset :: "env \<Rightarrow> document_row \<Rightarrow> db \<Rightarrow> db" where
  "purgeAsset e d s =
     audit_kyc (da_kycApplicationId d) ''ASSET_DELETED'' (da_fileHash d) None
       ((emit (Event ''cloudinary.destroy'' (da_cloudinaryPublicId d)) s)
         \<lparr>documents := update_where (\<lambda>x. da_assetId x = da_assetId d)
            (\<lambda>x. x\<lparr>da_isDeleted := True, da_deletedAt := Some (env_now e)\<rparr>) (documents s)\<rparr>)"

definition heldBack :: "ident \<Rightarrow> db \<Rightarrow> bool" where
  "heldBack aid s =
     (case find_application aid s of None \<Rightarrow> True | Some a \<Rightarrow> ka_legalHold a \<or> ka_isUnderFraudReview a)"

definition assetsToPurge :: "time \<Rightarrow> db \<Rightarrow> document_row list" where
  "assetsToPurge now s =
     filter (\<lambda>d. da_scheduledDeletionAt d \<le> now \<and> \<not> da_isDeleted d \<and> \<not> heldBack (da_kycApplicationId d) s) (documents s)"

definition fileHashOf :: "ident \<Rightarrow> db \<Rightarrow> string" where
  "fileHashOf aid s =
     (case filter (\<lambda>d. da_kycApplicationId d = aid) (documents s) of [] \<Rightarrow> ''mock-hash'' | d # ds \<Rightarrow> da_fileHash d)"

definition scheduleDeletion :: "env \<Rightarrow> ident \<Rightarrow> db \<Rightarrow> db" where
  "scheduleDeletion e aid s =
     s\<lparr>documents := update_where (\<lambda>d. da_kycApplicationId d = aid)
         (\<lambda>d. d\<lparr>da_scheduledDeletionAt := env_now e - 1000\<rparr>) (documents s)\<rparr>"

definition autoReject :: "env \<Rightarrow> string \<Rightarrow> kyc_row \<Rightarrow> db \<Rightarrow> db" where
  "autoReject e fileHash a s =
     (let aid = ka_kycApplicationId a
      in emit (Event ''KYC_APPLICATION_AUTO_EXPIRED'' aid)
           (scheduleDeletion e aid
             (audit_kyc aid ''REJECTED'' fileHash None
               (update_application aid (\<lambda>a. a\<lparr>ka_status := KycApplicationStatus.REJECTED, ka_rejectionReason :=
                  Some ''Auto-expired: KYC Application remained pending for more than 15 days without approval.''\<rparr>) s))))"

definition staleApplications :: "int \<Rightarrow> time \<Rightarrow> db \<Rightarrow> kyc_row list" where
  "staleApplications tz now s =
     filter (\<lambda>a. ka_status a = KycApplicationStatus.PENDING \<and> ka_createdAt a \<le> setDate tz now (getDate tz now - 15) \<and>
       \<not> ka_legalHold a \<and> \<not> ka_isUnderFraudReview a) (kycApplications s)"

definition runCleanup :: "int \<Rightarrow> env \<Rightarrow> db \<Rightarrow> db" where
  "runCleanup tz e s =
     (let s1 = foldl (\<lambda>t d. purgeAsset e d t) s (assetsToPurge (env_now e) s)
      in foldl (\<lambda>t a. autoReject e (fileHashOf (ka_kycApplicationId a) s1) a t) s1 (staleApplications tz (env_now e) s1))"

end
