(* ===== verification/KycReview.thy ===== *)
theory KycReview
  imports KycIntake
begin

text \<open>
  Reviewing an application, \<open>src/core/services/kyc.service.ts\<close> from the approval on: the
  marketer's signature, the company's or admin's signature that creates the user, activates the
  contract and its schedule, the rejection, and the reads of the reviewers.  The checks of an
  approval run before its transaction and on what was read then; they are separate definitions,
  so that a stale check can be combined with a later state.
\<close>

section \<open>Approving\<close>

record approval =
  ap_application :: kyc_row
  ap_session :: session_row
  ap_reviewerId :: ident
  ap_marketer :: "user_row option"
  ap_fileHash :: string
  ap_requiresMarketer :: bool

datatype approval_plan = MarketerApproval approval | FinalApproval approval

definition marketerOfSession :: "session_row \<Rightarrow> db \<Rightarrow> user_row option" where
  "marketerOfSession x s = Option.bind (os_marketerId x) (\<lambda>m. find_user m s)"

text \<open>The role of the reviewer decides which signature it is; each has its own scope check.\<close>

definition reviewScope :: "user_row \<Rightarrow> session_row \<Rightarrow> user_row option \<Rightarrow> bool res" where
  "reviewScope reviewer session marketer =
     (case u_role reviewer of
        MARKETER \<Rightarrow>
          if os_marketerId session \<noteq> Some (u_userId reviewer)
          then Inl (UnauthorizedError ''Unauthorized: You are not the referring marketer for this customer.'') else Inr True
      | COMPANY \<Rightarrow>
          if os_companyId session \<noteq> u_companyId reviewer
          then Inl (UnauthorizedError ''Unauthorized: This customer does not belong to your company.'') else Inr False
      | ADMIN \<Rightarrow>
          (case marketer of
             Some m \<Rightarrow>
               if u_createdById m \<noteq> Some (u_userId reviewer)
               then Inl (UnauthorizedError ''Unauthorized: You are not the Admin associated with this marketer.'') else Inr False
           | None \<Rightarrow> Inr False)
      | SUPER_ADMIN \<Rightarrow> Inl (UnauthorizedError ''Unauthorized role credentials.'')
      | CUSTOMER \<Rightarrow> Inl (UnauthorizedError ''Unauthorized role credentials.''))"

definition signatureOrder :: "bool \<Rightarrow> bool \<Rightarrow> kyc_row \<Rightarrow> unit res" where
  "signatureOrder isMarketerApproval requiresMarketer a =
     (if isMarketerApproval
      then (if ka_status a \<noteq> KycApplicationStatus.PENDING
            then Inl (BadRequestError ''Marketer approval is only allowed when application is PENDING.'') else Inr ())
      else if requiresMarketer
      then (if \<not> ka_marketerApproved a
            then Inl (BadRequestError ''Admin/Company approval is only allowed after the Marketer has approved.'')
            else if ka_status a \<noteq> APPROVAL_PROCESSING
            then Inl (BadRequestError ''Admin/Company approval is only allowed when application is in APPROVAL_PROCESSING.'')
            else Inr ())
      else if ka_status a \<noteq> KycApplicationStatus.PENDING
      then Inl (BadRequestError ''Approval is only allowed when application is PENDING.'') else Inr ())"

definition checkApproval :: "ident \<Rightarrow> ident \<Rightarrow> db \<Rightarrow> approval_plan res" where
  "checkApproval applicationId reviewerId s =
     (case find_user reviewerId s of
        None \<Rightarrow> Inl (UnauthorizedError ''Reviewer session is invalid.'')
      | Some reviewer \<Rightarrow>
     (case find_application applicationId s of
        None \<Rightarrow> Inl (NotFoundError ''KYC Application not found.'')
      | Some a \<Rightarrow>
     (case Option.bind (ka_onboardingSessionId a) (\<lambda>sid. find_session sid s) of
        None \<Rightarrow> Inl (NotFoundError ''Onboarding session not found for application.'')
      | Some session \<Rightarrow>
          (let marketer = marketerOfSession session s;
               requiresMarketer = (or_null (os_marketerId session) \<noteq> None)
           in case reviewScope reviewer session marketer of
                Inl err \<Rightarrow> Inl err
              | Inr isMarketerApproval \<Rightarrow>
                  (case signatureOrder isMarketerApproval requiresMarketer a of
                     Inl err \<Rightarrow> Inl err
                   | Inr u \<Rightarrow>
                       (let p = \<lparr>ap_application = a, ap_session = session, ap_reviewerId = u_userId reviewer,
                              ap_marketer = marketer, ap_fileHash = fileHashOf applicationId s,
                              ap_requiresMarketer = requiresMarketer\<rparr>
                        in Inr (if isMarketerApproval then MarketerApproval p else FinalApproval p)))))))"

definition marketerApproveTx :: "env \<Rightarrow> approval \<Rightarrow> db \<Rightarrow> KycApplicationStatus res \<times> db" where
  "marketerApproveTx e p s =
     (let aid = ka_kycApplicationId (ap_application p)
      in if find_application aid s = None then (Inl (RecordNotFound ''KycApplication''), s)
         else (Inr APPROVAL_PROCESSING,
           audit_kyc aid ''MARKETER_APPROVED'' (ap_fileHash p) (Some (ap_reviewerId p))
             (update_application aid (\<lambda>a. a\<lparr>ka_marketerApproved := True, ka_marketerApprovedAt := Some (env_now e),
                ka_status := APPROVAL_PROCESSING\<rparr>) s)))"

definition new_customer :: "env \<Rightarrow> session_row \<Rightarrow> user_row" where
  "new_customer e session = \<lparr>u_userId = env_uuid e 0, u_email = os_email session, u_name = Some (os_name session),
     u_role = CUSTOMER, u_companyId = os_companyId session, u_createdById = None,
     u_referredByMarketerId = os_marketerId session, u_referralCode = None,
     u_password = os_passwordHash session, u_active = True, u_forcePasswordChange = False, u_deletedAt = None, u_createdAt = env_now e\<rparr>"

definition createUser :: "user_row \<Rightarrow> db \<Rightarrow> unit res \<times> db" where
  "createUser u s =
     (if \<exists>v \<in> set (users s). u_email v = u_email u then (Inl (UniqueViolation ''email''), s)
      else (Inr (), s\<lparr>users := users s @ [u]\<rparr>))"

definition createReferral :: "string \<Rightarrow> approval \<Rightarrow> db \<Rightarrow> unit res \<times> db" where
  "createReferral hex p s =
     (case (or_null (os_marketerId (ap_session p)), ap_marketer p) of
        (Some m, Some marketer) \<Rightarrow>
          (let code = ''REF-'' @ (case u_referralCode marketer of None \<Rightarrow> ''null'' | Some c \<Rightarrow> c) @ ''-'' @ hex
           in if \<exists>r \<in> set (referrals s). rf_referralCode r = code then (Inl (UniqueViolation ''referralCode''), s)
              else (Inr (), s\<lparr>referrals := referrals s @ [\<lparr>rf_marketerId = m, rf_referralCode = code\<rparr>]\<rparr>))
      | _ \<Rightarrow> (Inr (), s))"

definition update_contract :: "ident \<Rightarrow> (contract_row \<Rightarrow> contract_row) \<Rightarrow> db \<Rightarrow> db" where
  "update_contract cid f s = s\<lparr>contracts := update_where (\<lambda>c. fc_contractId c = cid) f (contracts s)\<rparr>"

text \<open>The writes after the claim: user, back-references, session, referral, schedule, activation.\<close>

definition activateContract ::
  "int \<Rightarrow> string \<Rightarrow> env \<Rightarrow> approval \<Rightarrow> db \<Rightarrow> KycApplicationStatus res \<times> db" where
  "activateContract tz hex e p s =
     (let aid = ka_kycApplicationId (ap_application p); sid = os_sessionId (ap_session p); uid = env_uuid e 0
      in case find (\<lambda>c. fc_kycApplicationId c = aid) (contracts s) of
           None \<Rightarrow> (Inl (NotFoundError ''Financing contract not found.''), s)
         | Some c \<Rightarrow>
        (case createUser (new_customer e (ap_session p)) s of
           (Inl err, s1) \<Rightarrow> (Inl err, s1)
         | (Inr u, s1) \<Rightarrow>
        (let s2 = update_session sid (\<lambda>x. x\<lparr>os_status := KycOnboardingStatus.APPROVED, os_completedAt := Some (env_now e)\<rparr>)
               (update_contract (fc_contractId c) (\<lambda>c. c\<lparr>fc_userId := Some uid\<rparr>)
                 (update_application aid (\<lambda>a. a\<lparr>ka_userId := Some uid\<rparr>) s1))
         in case createReferral hex p s2 of
           (Inl err, s3) \<Rightarrow> (Inl err, s3)
         | (Inr u, s3) \<Rightarrow>
        (case generateInstallmentSchedule tz (fc_contractId c) (fl (fc_totalFinanced c))
                (int (fc_approvedDurationMonths c)) (setDate tz (env_now e) (getDate tz (env_now e) + 3)) of
           Inl err \<Rightarrow> (Inl err, s3)
         | Inr rows \<Rightarrow>
        (case createInstallments (e\<lparr>env_uuid := \<lambda>i. env_uuid e (i + 1)\<rparr>) rows s3 of
           (Inl err, s4) \<Rightarrow> (Inl err, s4)
         | (Inr u, s4) \<Rightarrow>
             (Inr KycApplicationStatus.APPROVED,
              scheduleDeletion e aid
                (update_contract (fc_contractId c)
                  (\<lambda>c. c\<lparr>fc_status := FinancingStatus.ACTIVE, fc_activatedAt := Some (env_now e)\<rparr>) s4)))))))"

definition finalApproveTx ::
  "int \<Rightarrow> string \<Rightarrow> env \<Rightarrow> approval \<Rightarrow> db \<Rightarrow> KycApplicationStatus res \<times> db" where
  "finalApproveTx tz hex e p s =
     (let aid = ka_kycApplicationId (ap_application p);
          expected = (if ap_requiresMarketer p then APPROVAL_PROCESSING else KycApplicationStatus.PENDING)
      in case find_application aid s of
           None \<Rightarrow> (Inl (RecordNotFound ''KycApplication''), s)
         | Some current \<Rightarrow>
        (let s1 = audit_kyc aid ''ADMIN_APPROVED'' (ap_fileHash p) (Some (ap_reviewerId p))
               (update_application aid (\<lambda>a. (if ap_requiresMarketer p then a
                    else a\<lparr>ka_marketerApproved := True, ka_marketerApprovedAt := Some (env_now e)\<rparr>)
                  \<lparr>ka_adminApproved := True, ka_adminApprovedAt := Some (env_now e)\<rparr>) s)
         in if ka_status current \<noteq> expected then (Inr (ka_status current), s1)
            else activateContract tz hex e p
                   (update_application aid (\<lambda>a. a\<lparr>ka_status := KycApplicationStatus.APPROVED\<rparr>) s1)))"

definition executeApproval ::
  "int \<Rightarrow> string \<Rightarrow> env \<Rightarrow> approval_plan \<Rightarrow> db \<Rightarrow> KycApplicationStatus res \<times> db" where
  "executeApproval tz hex e plan s =
     (case plan of
        MarketerApproval p \<Rightarrow> transaction (marketerApproveTx e p) s
      | FinalApproval p \<Rightarrow>
          (case transaction (finalApproveTx tz hex e p) s of
             (Inr KycApplicationStatus.APPROVED, s') \<Rightarrow>
               (Inr KycApplicationStatus.APPROVED, emit (Event ''USER_REGISTERED'' (os_email (ap_session p))) s')
           | (r, s') \<Rightarrow> (r, s')))"

definition approveApplication ::
  "int \<Rightarrow> string \<Rightarrow> env \<Rightarrow> ident \<Rightarrow> ident \<Rightarrow> db \<Rightarrow> KycApplicationStatus res \<times> db" where
  "approveApplication tz hex e applicationId reviewerId s =
     (case checkApproval applicationId reviewerId s of
        Inl err \<Rightarrow> (Inl err, s)
      | Inr plan \<Rightarrow> executeApproval tz hex e plan s)"

section \<open>Rejecting\<close>

definition rejectTx :: "env \<Rightarrow> ident \<Rightarrow> ident \<Rightarrow> string \<Rightarrow> string \<Rightarrow> db \<Rightarrow> unit res \<times> db" where
  "rejectTx e aid adminId fileHash reason s =
     (if find_application aid s = None then (Inl (RecordNotFound ''KycApplication''), s)
      else
        (let s1 = update_application aid (\<lambda>a. a\<lparr>ka_status := KycApplicationStatus.REJECTED,
                ka_rejectionReason := Some reason\<rparr>) s;
             s2 = s1\<lparr>contracts := update_where (\<lambda>c. fc_kycApplicationId c = aid)
                (\<lambda>c. c\<lparr>fc_status := FinancingStatus.REJECTED, fc_rejectedAt := Some (env_now e)\<rparr>) (contracts s1)\<rparr>
         in (Inr (), scheduleDeletion e aid (audit_kyc aid ''REJECTED'' fileHash (Some adminId) s2))))"

definition rejectApplication :: "env \<Rightarrow> ident \<Rightarrow> ident \<Rightarrow> string \<Rightarrow> db \<Rightarrow> unit res \<times> db" where
  "rejectApplication e applicationId adminId reason s =
     (case find_user adminId s of
        None \<Rightarrow> (Inl (UnauthorizedError ''Only associated Admins can reject KYC applications.''), s)
      | Some admin \<Rightarrow>
          if u_role admin \<noteq> ADMIN \<and> u_role admin \<noteq> SUPER_ADMIN
          then (Inl (UnauthorizedError ''Only associated Admins can reject KYC applications.''), s)
          else (case find (\<lambda>a. ka_kycApplicationId a = applicationId \<and>
                     ka_status a \<in> {KycApplicationStatus.PENDING, APPROVAL_PROCESSING}) (kycApplications s) of
              None \<Rightarrow> (Inl (NotFoundError ''KYC application is not available for approval''), s)
            | Some a \<Rightarrow>
                (let session = Option.bind (ka_onboardingSessionId a) (\<lambda>sid. find_session sid s);
                     marketerId = Option.bind session (\<lambda>x. or_null (os_marketerId x))
                 in if (case marketerId of None \<Rightarrow> False
                        | Some m \<Rightarrow> Option.bind (find_user m s) u_createdById \<noteq> Some (u_userId admin) \<and> u_role admin \<noteq> SUPER_ADMIN)
                    then (Inl (UnauthorizedError ''Unauthorized: You are not the Admin associated with this marketer.''), s)
                    else (case transaction (rejectTx e applicationId (u_userId admin) (fileHashOf applicationId s) reason) s of
                        (Inl err, s') \<Rightarrow> (Inl err, s')
                      | (Inr u, s') \<Rightarrow>
                          (Inr (), emit (Event ''USER_REGISTERED'' (case session of None \<Rightarrow> '''' | Some x \<Rightarrow> os_email x)) s')))))"

section \<open>Reading applications\<close>

text \<open>
  The scope of the two detail reads; an application without a session is open to nobody but the
  platform (\<open>undefined\<close> is no identifier).
\<close>

definition detailScope :: "Role \<Rightarrow> user_row \<Rightarrow> session_row option \<Rightarrow> db \<Rightarrow> unit res" where
  "detailScope role reviewer session s =
     (if role = MARKETER
      then (if Option.bind session os_marketerId \<noteq> Some (u_userId reviewer)
            then Inl (UnauthorizedError ''Unauthorized: You are not the referring marketer for this customer.'') else Inr ())
      else if role \<in> {ADMIN, COMPANY}
      then (case Option.bind session (\<lambda>x. or_null (os_marketerId x)) of
              Some m \<Rightarrow>
                if Option.bind (find_user m s) u_createdById \<noteq> Some (u_userId reviewer)
                then Inl (UnauthorizedError ''Unauthorized: You are not the Admin associated with this marketer.'') else Inr ()
            | None \<Rightarrow>
                if map_option os_companyId session \<noteq> Some (u_companyId reviewer)
                then Inl (UnauthorizedError ''Unauthorized: This customer does not belong to your company.'') else Inr ())
      else Inr ())"

definition sessionOfApplication :: "kyc_row \<Rightarrow> db \<Rightarrow> session_row option" where
  "sessionOfApplication a s = Option.bind (ka_onboardingSessionId a) (\<lambda>sid. find_session sid s)"

definition getSignedDocumentUrl :: "(string \<Rightarrow> string) \<Rightarrow> ident \<Rightarrow> ident \<Rightarrow> db \<Rightarrow> string res" where
  "getSignedDocumentUrl sign applicationId reviewerId s =
     (case find_user reviewerId s of
        None \<Rightarrow> Inl (UnauthorizedError ''Unauthorized review session.'')
      | Some reviewer \<Rightarrow>
          if u_role reviewer = CUSTOMER then Inl (UnauthorizedError ''Unauthorized review session.'')
          else (case find_application applicationId s of
              None \<Rightarrow> Inl (NotFoundError ''KYC Application not found.'')
            | Some a \<Rightarrow>
           (case detailScope (u_role reviewer) reviewer (sessionOfApplication a s) s of
              Inl err \<Rightarrow> Inl err
            | Inr u \<Rightarrow>
           (case filter (\<lambda>d. da_kycApplicationId d = applicationId \<and> \<not> da_isDeleted d) (documents s) of
              [] \<Rightarrow> Inl (NotFoundError ''Physical bank statement file has been purged from servers under NDPR compliance policies.'')
            | d # ds \<Rightarrow> Inr (sign (da_cloudinaryPublicId d))))))"

definition getKycApplicationById :: "ident \<Rightarrow> ident \<Rightarrow> Role \<Rightarrow> db \<Rightarrow> kyc_row res" where
  "getKycApplicationById applicationId reviewerId reviewerRole s =
     (case find_user reviewerId s of
        None \<Rightarrow> Inl (UnauthorizedError ''Unauthorized review session.'')
      | Some reviewer \<Rightarrow>
          if u_role reviewer = CUSTOMER then Inl (UnauthorizedError ''Unauthorized review session.'')
          else (case find_application applicationId s of
              None \<Rightarrow> Inl (NotFoundError ''KYC Application not found.'')
            | Some a \<Rightarrow>
               (case detailScope reviewerRole reviewer (sessionOfApplication a s) s of
                  Inl err \<Rightarrow> Inl err
                | Inr u \<Rightarrow> Inr a)))"

record kyc_query =
  kq_reviewerId :: ident
  kq_reviewerRole :: Role
  kq_companyId :: "ident option"
  kq_page :: nat
  kq_limit :: nat
  kq_descending :: bool
  kq_status :: "KycApplicationStatus option"
  kq_marketerId :: "ident option"
  kq_search :: "string option"

definition listScope :: "kyc_query \<Rightarrow> db \<Rightarrow> (kyc_row \<Rightarrow> bool) res" where
  "listScope q s =
     (case kq_reviewerRole q of
        MARKETER \<Rightarrow> Inr (\<lambda>a. Option.bind (sessionOfApplication a s) os_marketerId = Some (kq_reviewerId q))
      | ADMIN \<Rightarrow> Inr (\<lambda>a. case sessionOfApplication a s of None \<Rightarrow> False
          | Some x \<Rightarrow> Option.bind (marketerOfSession x s) u_createdById = Some (kq_reviewerId q) \<or>
              os_marketerId x = Some (kq_reviewerId q))
      | COMPANY \<Rightarrow>
          (case or_null (kq_companyId q) of
             None \<Rightarrow> Inl (BadRequestError ''Company account is not associated with a company.'')
           | Some c \<Rightarrow> Inr (\<lambda>a. Option.bind (sessionOfApplication a s) os_companyId = Some c))
      | SUPER_ADMIN \<Rightarrow> Inr (\<lambda>a. True)
      | CUSTOMER \<Rightarrow> Inl (UnauthorizedError ''You are not authorized to view KYC applications.''))"

definition matchesSearch :: "string \<Rightarrow> kyc_row \<Rightarrow> db \<Rightarrow> bool" where
  "matchesSearch search a s =
     (let term = jsTrim search;
          user = Option.bind (ka_userId a) (\<lambda>u. find_user u s);
          product = find (\<lambda>p. pr_productId p = ka_productId a) (products s);
          session = sessionOfApplication a s;
          marketer = Option.bind session (\<lambda>x. marketerOfSession x s)
      in containsInsensitive term (Option.bind user u_name) \<or>
         containsInsensitive term (map_option pr_name product) \<or>
         containsInsensitive term (map_option pr_slug product) \<or>
         containsInsensitive term (Option.bind marketer u_name) \<or>
         (isEmailSearch term \<and>
           (containsInsensitive term (map_option u_email user) \<or>
            containsInsensitive term (map_option os_email session))))"

definition listWhere :: "kyc_query \<Rightarrow> (kyc_row \<Rightarrow> bool) \<Rightarrow> db \<Rightarrow> kyc_row \<Rightarrow> bool" where
  "listWhere q scope s a \<longleftrightarrow> scope a \<and>
     (case kq_status q of None \<Rightarrow> True | Some st \<Rightarrow> ka_status a = st) \<and>
     (case or_null (kq_marketerId q) of None \<Rightarrow> True
      | Some m \<Rightarrow> kq_reviewerRole q = MARKETER \<or> Option.bind (sessionOfApplication a s) os_marketerId = Some m) \<and>
     (case or_null (kq_search q) of None \<Rightarrow> True | Some t \<Rightarrow> matchesSearch t a s)"

record kyc_page =
  kp_applications :: "kyc_row list"
  kp_total :: nat
  kp_totalPages :: nat
  kp_hasNextPage :: bool
  kp_hasPreviousPage :: bool

definition getAllKycApplications :: "kyc_query \<Rightarrow> db \<Rightarrow> kyc_page res" where
  "getAllKycApplications q s =
     (case listScope q s of
        Inl err \<Rightarrow> Inl err
      | Inr scope \<Rightarrow>
          (let rows = sort_key (\<lambda>a. if kq_descending q then - ka_createdAt a else ka_createdAt a)
                 (filter (listWhere q scope s) (kycApplications s));
               totalPages = (length rows + kq_limit q - 1) div kq_limit q
           in Inr \<lparr>kp_applications = take (kq_limit q) (drop ((kq_page q - 1) * kq_limit q) rows),
                kp_total = length rows, kp_totalPages = totalPages,
                kp_hasNextPage = (kq_page q < totalPages), kp_hasPreviousPage = (1 < kq_page q)\<rparr>))"

end
