(* ===== verification/KycApproval.thy ===== *)
theory KycApproval
  imports KycReview
begin

text \<open>
  What the final approval of \<open>KycReview\<close> leaves behind: the checks that held when it ran, the
  rows it wrote, and the schedule of the activated contract.
\<close>

section \<open>What a final approval leaves behind\<close>

lemma kyc_frames [simp]:
  "kycApplications (update_session i f s) = kycApplications s" "contracts (update_session i f s) = contracts s"
  "users (update_session i f s) = users s" "installments (update_session i f s) = installments s"
  "sessions (update_session i f s) = update_where (\<lambda>x. os_sessionId x = i) f (sessions s)"
  "referrals (update_session i f s) = referrals s"
  "kycApplications (update_application j g s) = update_where (\<lambda>a. ka_kycApplicationId a = j) g (kycApplications s)"
  "contracts (update_application j g s) = contracts s" "users (update_application j g s) = users s"
  "installments (update_application j g s) = installments s" "sessions (update_application j g s) = sessions s"
  "referrals (update_application j g s) = referrals s" "documents (update_application j g s) = documents s"
  "kycApplications (update_contract k h s) = kycApplications s"
  "contracts (update_contract k h s) = update_where (\<lambda>c. fc_contractId c = k) h (contracts s)"
  "users (update_contract k h s) = users s" "installments (update_contract k h s) = installments s"
  "sessions (update_contract k h s) = sessions s" "referrals (update_contract k h s) = referrals s"
  "kycApplications (audit_kyc i1 i2 i3 i4 s) = kycApplications s" "contracts (audit_kyc i1 i2 i3 i4 s) = contracts s"
  "users (audit_kyc i1 i2 i3 i4 s) = users s" "installments (audit_kyc i1 i2 i3 i4 s) = installments s"
  "sessions (audit_kyc i1 i2 i3 i4 s) = sessions s" "referrals (audit_kyc i1 i2 i3 i4 s) = referrals s"
  "documents (audit_kyc i1 i2 i3 i4 s) = documents s"
  "kycApplications (scheduleDeletion e i s) = kycApplications s" "contracts (scheduleDeletion e i s) = contracts s"
  "users (scheduleDeletion e i s) = users s" "installments (scheduleDeletion e i s) = installments s"
  "sessions (scheduleDeletion e i s) = sessions s" "products (scheduleDeletion e i s) = products s"
  by (simp_all add: update_session_def update_application_def update_contract_def audit_kyc_def scheduleDeletion_def)

lemma createUser_ok:
  "createUser u s = (Inr r, s') \<Longrightarrow> s' = s\<lparr>users := users s @ [u]\<rparr> \<and> u_email u \<notin> u_email ` set (users s)"
  by (auto simp: createUser_def split: if_splits)

lemma createReferral_frame:
  assumes "createReferral hex p s = (r, s')"
  shows "kycApplications s' = kycApplications s" "contracts s' = contracts s" "users s' = users s"
    "installments s' = installments s" "sessions s' = sessions s"
  using assms by (auto simp: createReferral_def Let_def split: option.splits if_splits)

lemma createInstallments_ok:
  "createInstallments e rows s = (Inr r, s') \<Longrightarrow>
     s' = s\<lparr>installments := installments s @ map (\<lambda>(k, r). \<lparr>in_installmentId = env_uuid e k,
        in_financingContractId = se_financingContractId r, in_dueDate = se_dueDate r, in_amount = se_amount r,
        in_sequence = se_sequence r, in_status = se_status r, in_paidAt = None\<rparr>) (enumerate 0 rows)\<rparr>"
  by (auto simp: createInstallments_def Let_def split: if_splits)

text \<open>The application and the contract a final approval writes.\<close>

definition approved_application :: "env \<Rightarrow> approval \<Rightarrow> kyc_row \<Rightarrow> kyc_row" where
  "approved_application e p a =
     ((if ap_requiresMarketer p then a
       else a\<lparr>ka_marketerApproved := True, ka_marketerApprovedAt := Some (env_now e)\<rparr>)
      \<lparr>ka_adminApproved := True, ka_adminApprovedAt := Some (env_now e), ka_status := KycApplicationStatus.APPROVED,
       ka_userId := Some (env_uuid e 0)\<rparr>)"

definition activated_contract :: "env \<Rightarrow> contract_row \<Rightarrow> contract_row" where
  "activated_contract e c =
     c\<lparr>fc_userId := Some (env_uuid e 0), fc_status := FinancingStatus.ACTIVE, fc_activatedAt := Some (env_now e)\<rparr>"

lemma activateContract_ok:
  assumes "activateContract tz hex e p s = (Inr r, s')"
  obtains c rows where "find (\<lambda>c. fc_kycApplicationId c = ka_kycApplicationId (ap_application p)) (contracts s) = Some c"
    "generateInstallmentSchedule tz (fc_contractId c) (fl (fc_totalFinanced c)) (int (fc_approvedDurationMonths c))
       (setDate tz (env_now e) (getDate tz (env_now e) + 3)) = Inr rows"
    "r = KycApplicationStatus.APPROVED"
    "kycApplications s' = update_where (\<lambda>a. ka_kycApplicationId a = ka_kycApplicationId (ap_application p))
       (\<lambda>a. a\<lparr>ka_userId := Some (env_uuid e 0)\<rparr>) (kycApplications s)"
    "users s' = users s @ [new_customer e (ap_session p)]"
    "os_email (ap_session p) \<notin> u_email ` set (users s)"
    "contracts s' = update_where (\<lambda>x. fc_contractId x = fc_contractId c) (activated_contract e) (contracts s)"
    "sessions s' = update_where (\<lambda>x. os_sessionId x = os_sessionId (ap_session p))
       (\<lambda>x. x\<lparr>os_status := KycOnboardingStatus.APPROVED, os_completedAt := Some (env_now e)\<rparr>) (sessions s)"
    "installments s' = installments s @ map (\<lambda>(k, r). \<lparr>in_installmentId = env_uuid e (k + 1),
       in_financingContractId = se_financingContractId r, in_dueDate = se_dueDate r, in_amount = se_amount r,
       in_sequence = se_sequence r, in_status = se_status r, in_paidAt = None\<rparr>) (enumerate 0 rows)"
proof -
  let ?aid = "ka_kycApplicationId (ap_application p)" and ?uid = "env_uuid e 0"
  obtain c s1 s3 rows s4 where
    c: "find (\<lambda>c. fc_kycApplicationId c = ?aid) (contracts s) = Some c"
    and s1: "createUser (new_customer e (ap_session p)) s = (Inr (), s1)"
    and s3: "createReferral hex p (update_session (os_sessionId (ap_session p))
        (\<lambda>x. x\<lparr>os_status := KycOnboardingStatus.APPROVED, os_completedAt := Some (env_now e)\<rparr>)
        (update_contract (fc_contractId c) (\<lambda>c. c\<lparr>fc_userId := Some ?uid\<rparr>)
          (update_application ?aid (\<lambda>a. a\<lparr>ka_userId := Some ?uid\<rparr>) s1))) = (Inr (), s3)"
    and rows: "generateInstallmentSchedule tz (fc_contractId c) (fl (fc_totalFinanced c)) (int (fc_approvedDurationMonths c))
        (setDate tz (env_now e) (getDate tz (env_now e) + 3)) = Inr rows"
    and s4: "createInstallments (e\<lparr>env_uuid := \<lambda>i. env_uuid e (i + 1)\<rparr>) rows s3 = (Inr (), s4)"
    and r: "r = KycApplicationStatus.APPROVED"
    and s': "s' = scheduleDeletion e ?aid (update_contract (fc_contractId c)
        (\<lambda>c. c\<lparr>fc_status := FinancingStatus.ACTIVE, fc_activatedAt := Some (env_now e)\<rparr>) s4)"
    using assms by (auto simp: activateContract_def Let_def split: option.splits prod.splits sum.splits)
  note u = createUser_ok[OF s1] and f3 = createReferral_frame[OF s3] and i = createInstallments_ok[OF s4]
  show thesis
  proof (rule that[OF c rows r])
    show "contracts s' = update_where (\<lambda>x. fc_contractId x = fc_contractId c) (activated_contract e) (contracts s)"
      using u f3 i by (simp add: s' update_where_twice activated_contract_def[abs_def])
  qed (use u f3 i in \<open>simp_all add: s' new_customer_def\<close>)
qed

text \<open>A check and its approval on the same state: the claim always succeeds.\<close>

lemma checkApproval_final:
  assumes "checkApproval aid rid s = Inr (FinalApproval p)"
  shows "find_application aid s = Some (ap_application p)"
    "ka_onboardingSessionId (ap_application p) = Some (os_sessionId (ap_session p))"
    "find_session (os_sessionId (ap_session p)) s = Some (ap_session p)"
    "ap_requiresMarketer p \<longleftrightarrow> or_null (os_marketerId (ap_session p)) \<noteq> None"
    "ka_status (ap_application p) = (if ap_requiresMarketer p then APPROVAL_PROCESSING else KycApplicationStatus.PENDING)"
    "ap_requiresMarketer p \<Longrightarrow> ka_marketerApproved (ap_application p)"
    "ap_marketer p = marketerOfSession (ap_session p) s"
proof -
  obtain reviewer a sid session where r: "find_user rid s = Some reviewer" "find_application aid s = Some a"
    "ka_onboardingSessionId a = Some sid" "find_session sid s = Some session"
    "reviewScope reviewer session (marketerOfSession session s) = Inr False"
    "signatureOrder False (or_null (os_marketerId session) \<noteq> None) a = Inr ()"
    "ap_application p = a" "ap_session p = session" "ap_requiresMarketer p = (or_null (os_marketerId session) \<noteq> None)"
    "ap_marketer p = marketerOfSession session s"
    using assms by (auto simp: checkApproval_def Let_def bind_eq_Some_conv split: option.splits sum.splits if_splits)
  have sid: "os_sessionId session = sid" using r(4) unfolding find_session_def by (auto dest: find_set)
  show "find_application aid s = Some (ap_application p)"
    "ka_onboardingSessionId (ap_application p) = Some (os_sessionId (ap_session p))"
    "find_session (os_sessionId (ap_session p)) s = Some (ap_session p)"
    "ap_requiresMarketer p \<longleftrightarrow> or_null (os_marketerId (ap_session p)) \<noteq> None"
    "ap_marketer p = marketerOfSession (ap_session p) s"
    using r sid by simp_all
  show "ka_status (ap_application p) = (if ap_requiresMarketer p then APPROVAL_PROCESSING else KycApplicationStatus.PENDING)"
    "ap_requiresMarketer p \<Longrightarrow> ka_marketerApproved (ap_application p)"
    using r(6) unfolding r(7,9) by (auto simp: signatureOrder_def split: if_splits)
qed

lemma finalApprove_claims:
  assumes "finalApproveTx tz hex e p s = (Inr r, s')"
    and "find_application (ka_kycApplicationId (ap_application p)) s = Some a"
    and "ka_status a = (if ap_requiresMarketer p then APPROVAL_PROCESSING else KycApplicationStatus.PENDING)"
  obtains c rows where "find (\<lambda>c. fc_kycApplicationId c = ka_kycApplicationId (ap_application p)) (contracts s) = Some c"
    "generateInstallmentSchedule tz (fc_contractId c) (fl (fc_totalFinanced c)) (int (fc_approvedDurationMonths c))
       (setDate tz (env_now e) (getDate tz (env_now e) + 3)) = Inr rows"
    "r = KycApplicationStatus.APPROVED"
    "kycApplications s' = update_where (\<lambda>a. ka_kycApplicationId a = ka_kycApplicationId (ap_application p))
       (approved_application e p) (kycApplications s)"
    "users s' = users s @ [new_customer e (ap_session p)]"
    "os_email (ap_session p) \<notin> u_email ` set (users s)"
    "contracts s' = update_where (\<lambda>x. fc_contractId x = fc_contractId c) (activated_contract e) (contracts s)"
    "sessions s' = update_where (\<lambda>x. os_sessionId x = os_sessionId (ap_session p))
       (\<lambda>x. x\<lparr>os_status := KycOnboardingStatus.APPROVED, os_completedAt := Some (env_now e)\<rparr>) (sessions s)"
    "installments s' = installments s @ map (\<lambda>(k, r). \<lparr>in_installmentId = env_uuid e (k + 1),
       in_financingContractId = se_financingContractId r, in_dueDate = se_dueDate r, in_amount = se_amount r,
       in_sequence = se_sequence r, in_status = se_status r, in_paidAt = None\<rparr>) (enumerate 0 rows)"
proof -
  let ?aid = "ka_kycApplicationId (ap_application p)"
  let ?s2 = "update_application ?aid (\<lambda>a. a\<lparr>ka_status := KycApplicationStatus.APPROVED\<rparr>)
      (audit_kyc ?aid ''ADMIN_APPROVED'' (ap_fileHash p) (Some (ap_reviewerId p))
        (update_application ?aid (\<lambda>a. (if ap_requiresMarketer p then a
            else a\<lparr>ka_marketerApproved := True, ka_marketerApprovedAt := Some (env_now e)\<rparr>)
          \<lparr>ka_adminApproved := True, ka_adminApprovedAt := Some (env_now e)\<rparr>) s))"
  have "activateContract tz hex e p ?s2 = (Inr r, s')"
    using assms by (simp add: finalApproveTx_def Let_def)
  then show thesis
  proof (rule activateContract_ok, goal_cases)
    case (1 c rows)
    have "kycApplications s' = update_where (\<lambda>a. ka_kycApplicationId a = ?aid) (approved_application e p) (kycApplications s)"
      using 1(4) by (simp add: update_where_twice approved_application_def[abs_def])
    with 1 show thesis by (intro that[of c rows]) simp_all
  qed
qed

lemma approveApplication_cases:
  assumes "approveApplication tz hex e aid rid s = (r, s')"
  obtains (failed) err where "r = Inl err" "s' = s"
  | (signed) p where "checkApproval aid rid s = Inr (MarketerApproval p)" "r = Inr APPROVAL_PROCESSING"
      "s' = audit_kyc (ka_kycApplicationId (ap_application p)) ''MARKETER_APPROVED'' (ap_fileHash p) (Some (ap_reviewerId p))
        (update_application (ka_kycApplicationId (ap_application p))
          (\<lambda>a. a\<lparr>ka_marketerApproved := True, ka_marketerApprovedAt := Some (env_now e), ka_status := APPROVAL_PROCESSING\<rparr>) s)"
  | (activated) p t where "checkApproval aid rid s = Inr (FinalApproval p)"
      "finalApproveTx tz hex e p s = (Inr KycApplicationStatus.APPROVED, t)" "r = Inr KycApplicationStatus.APPROVED"
      "s' = emit (Event ''USER_REGISTERED'' (os_email (ap_session p))) t"
proof (cases "checkApproval aid rid s")
  case (Inl err)
  then have "r = Inl err" "s' = s" using assms by (simp_all add: approveApplication_def)
  then show thesis by (rule failed)
next
  case (Inr plan)
  show thesis
  proof (cases plan)
    case (MarketerApproval p)
    then show thesis using assms Inr failed signed[of p]
      by (auto simp: approveApplication_def executeApproval_def transaction_def marketerApproveTx_def Let_def
          split: if_splits prod.splits sum.splits)
  next
    case (FinalApproval p)
    note c = checkApproval_final[OF Inr[unfolded FinalApproval]]
    obtain r0 t where t: "finalApproveTx tz hex e p s = (r0, t)" by (cases "finalApproveTx tz hex e p s")
    show thesis
    proof (cases r0)
      case (Inl err)
      then have "r = Inl err" "s' = s"
        using assms Inr FinalApproval t by (simp_all add: approveApplication_def executeApproval_def transaction_def)
      then show thesis by (rule failed)
    next
      case (Inr st)
      have aid: "ka_kycApplicationId (ap_application p) = aid"
        using c(1) unfolding find_application_def by (auto dest: find_set)
      have "st = KycApplicationStatus.APPROVED"
        by (rule finalApprove_claims[OF t[unfolded Inr] c(1)[folded aid] c(5)])
      then have f: "finalApproveTx tz hex e p s = (Inr KycApplicationStatus.APPROVED, t)" using t Inr by simp
      then have "r = Inr KycApplicationStatus.APPROVED" "s' = emit (Event ''USER_REGISTERED'' (os_email (ap_session p))) t"
        using assms \<open>checkApproval aid rid s = Inr plan\<close> FinalApproval
        by (simp_all add: approveApplication_def executeApproval_def transaction_def)
      then show thesis by (rule activated[OF \<open>checkApproval aid rid s = Inr plan\<close>[unfolded FinalApproval] f])
    qed
  qed
qed

section \<open>An approved application\<close>

lemma find_contract_after:
  fixes s s' :: db
  assumes "find P (contracts s) = Some c" "contracts s' = update_where (\<lambda>x. fc_contractId x = fc_contractId c) f (contracts s)"
    and "\<And>x. fc_contractId (f x) = fc_contractId x"
  obtains d where "d \<in> set (contracts s)" "fc_contractId d = fc_contractId c" "find_contract (fc_contractId c) s' = Some (f d)"
proof -
  have "c \<in> set (contracts s)" using find_set[OF assms(1)] by simp
  then obtain d where d: "find_contract (fc_contractId c) s = Some d"
    unfolding find_contract_def by (cases "find (\<lambda>x. fc_contractId x = fc_contractId c) (contracts s)") (auto simp: find_None_iff)
  then have "d \<in> set (contracts s)" "fc_contractId d = fc_contractId c"
    unfolding find_contract_def using find_set by fast+
  moreover have "find_contract (fc_contractId c) s' = Some (f d)"
    using d calculation(2) assms(3) unfolding find_contract_def assms(2) by (subst find_update_where) simp_all
  ultimately show thesis by (rule that)
qed

lemma new_rows:
  fixes rows :: "schedule_entry list" and e :: env
  defines "mk \<equiv> \<lambda>(k, r). \<lparr>in_installmentId = env_uuid e (k + 1), in_financingContractId = se_financingContractId r,
     in_dueDate = se_dueDate r, in_amount = se_amount r, in_sequence = se_sequence r, in_status = se_status r, in_paidAt = None\<rparr>"
  shows "map in_amount (map mk (enumerate 0 rows)) = map se_amount rows"
    "map in_sequence (map mk (enumerate 0 rows)) = map se_sequence rows"
    "map in_dueDate (map mk (enumerate 0 rows)) = map se_dueDate rows"
    "map in_status (map mk (enumerate 0 rows)) = map se_status rows"
    "map in_financingContractId (map mk (enumerate 0 rows)) = map se_financingContractId rows"
  by (simp_all add: mk_def list_eq_iff_nth_eq nth_enumerate_eq)

lemma mapped_in: "x \<in> set xs \<Longrightarrow> map f xs = ys \<Longrightarrow> f x \<in> set ys"
  by auto

lemma schedule_constants:
  assumes "generateInstallmentSchedule tz cid x m t = Inr rows" "r \<in> set rows"
  shows "se_financingContractId r = cid" "se_status r = InstallmentStatus.PENDING" "0 < m"
    "timeInDay tz (se_dueDate r) = timeInDay tz t"
proof -
  show "se_financingContractId r = cid" "se_status r = InstallmentStatus.PENDING" "0 < m"
    using assms by (auto simp: generateInstallmentSchedule_def Let_def split: if_splits)
  obtain i where "i < length rows" "r = rows ! i" using assms(2) by (metis in_set_conv_nth)
  then show "timeInDay tz (se_dueDate r) = timeInDay tz t" using schedule_dates[OF assms(1)] by simp
qed

lemma timeInDay_setDate [simp]: "timeInDay tz (setDate tz t d) = timeInDay tz t"
  using timeInDay_range[of tz t] by (simp add: setDate_def)

lemma approved_application_fields [simp]:
  "ka_kycApplicationId (approved_application e p a) = ka_kycApplicationId a"
  "ka_status (approved_application e p a) = KycApplicationStatus.APPROVED"
  "ka_adminApproved (approved_application e p a)"
  "ka_marketerApproved (approved_application e p a) \<longleftrightarrow> (ap_requiresMarketer p \<longrightarrow> ka_marketerApproved a)"
  "ka_userId (approved_application e p a) = Some (env_uuid e 0)"
  "ka_onboardingSessionId (approved_application e p a) = ka_onboardingSessionId a"
  by (simp_all add: approved_application_def)

lemma activated_contract_fields [simp]:
  "fc_contractId (activated_contract e c) = fc_contractId c" "fc_status (activated_contract e c) = FinancingStatus.ACTIVE"
  "fc_userId (activated_contract e c) = Some (env_uuid e 0)"
  "fc_kycApplicationId (activated_contract e c) = fc_kycApplicationId c"
  by (simp_all add: activated_contract_def)

text \<open>What a schedule adds up to, whatever the total: the total rounded to whole kobo.\<close>

lemma schedule_total:
  assumes "generateInstallmentSchedule tz cid x m t = Inr rows" "jsRound (jsMul x 100) = n" "0 \<le> n" "n < 2 ^ 53"
  shows "sum_list (map se_amount rows) = of_int n / 100"
proof -
  have m: "0 < m" using assms(1) by (auto simp: generateInstallmentSchedule_def split: if_splits)
  have b: "\<lfloor>jsDiv (of_int n) (of_int m)\<rfloor> = n div m" by (rule floor_jsDiv[OF assms(3,4) m])
  have "map se_amount rows = map (\<lambda>i. of_int (share n m i) / 100) [0..<nat m]"
    using assms(1) by (auto simp: generateInstallmentSchedule_def Let_def assms(2) b share_def split: if_splits)
  moreover have "(\<Sum>i\<leftarrow>ks. (of_int (share n m i) / 100 :: rat)) = of_int (\<Sum>i\<leftarrow>ks. share n m i) / 100" for ks
    by (induction ks) (simp_all add: add_divide_distrib)
  ultimately show ?thesis using sum_share[OF m, of n] by simp
qed

lemma fl_positive:
  assumes "0 < fl x"
  shows "0 < x"
proof (rule ccontr)
  assume "\<not> 0 < x"
  then have "\<bar>x\<bar> / 2 ^ 53 \<le> - x" by simp
  then show False using abs_le_D1[OF fl_rel_error[of x]] assms by linarith
qed

lemma schedule_near_total:
  assumes "generateInstallmentSchedule tz cid (fl tot) m t = Inr rows" "tot \<le> 10 ^ 12"
  shows "\<bar>sum_list (map se_amount rows) - tot\<bar> \<le> 6 / 1000"
proof -
  have "0 < fl tot" using assms(1) by (auto simp: generateInstallmentSchedule_def split: if_splits)
  then have p: "0 < tot" by (rule fl_positive)
  let ?k = "jsMul (fl tot) 100"
  define n where "n = jsRound ?k"
  have f: "\<bar>fl tot - tot\<bar> \<le> 2 / 10 ^ 4" using fl_rel_error[of tot] p assms(2) by (simp add: field_simps)
  then have "fl tot \<le> 2 * 10 ^ 12" using assms(2) abs_le_D1[OF f] by simp
  then have k1: "\<bar>?k - fl tot * 100\<bar> \<le> 3 / 10 ^ 2" using fl_rel_error[of "fl tot * 100"] \<open>0 < fl tot\<close> unfolding jsMul_def by (simp add: field_simps)
  have k: "?k - tot * 100 \<le> 5 / 10 ^ 2" "tot * 100 - ?k \<le> 5 / 10 ^ 2"
    using abs_le_D1[OF f] abs_le_D2[OF f] abs_le_D1[OF k1] abs_le_D2[OF k1] by simp_all
  have n: "of_int n \<le> ?k + 1/2" "?k + 1/2 < of_int n + 1" unfolding n_def jsRound_def using floor_correct[of "?k + 1/2"] by auto
  have "(-1 :: rat) < of_int n" using n(2) k p by simp
  then have n0: "0 \<le> n" by linarith
  have "(of_int n :: rat) < 2 ^ 53" using n(1) k assms(2) by simp
  then have n1: "n < 2 ^ 53" by (metis of_int_less_iff of_int_numeral of_int_power)
  have "\<bar>of_int n / 100 - tot\<bar> \<le> 6 / 1000" using n k by (intro abs_leI) simp_all
  then show ?thesis unfolding schedule_total[OF assms(1) n_def[symmetric] n0 n1] .
qed

text \<open>The installments of a contract right after its activation.\<close>

lemma activated_schedule:
  fixes s s' :: db and e :: env
  assumes "generateInstallmentSchedule tz cid (fl tot) (int months) t = Inr rows"
    and "installments s' = installments s @ map (\<lambda>(k, r). \<lparr>in_installmentId = env_uuid e (k + 1),
       in_financingContractId = se_financingContractId r, in_dueDate = se_dueDate r, in_amount = se_amount r,
       in_sequence = se_sequence r, in_status = se_status r, in_paidAt = None\<rparr>) (enumerate 0 rows)"
    and "\<And>i. i \<in> set (installments s) \<Longrightarrow> in_financingContractId i \<noteq> cid"
  shows "map in_sequence (contractInstallments cid s') = [1..<months + 1]"
    "tot = of_int n / 100 \<Longrightarrow> n < 2 ^ 50 \<Longrightarrow> sum_list (map in_amount (contractInstallments cid s')) = tot"
    "tot \<le> 10 ^ 12 \<Longrightarrow> \<bar>sum_list (map in_amount (contractInstallments cid s')) - tot\<bar> \<le> 6 / 1000"
    "i \<in> set (contractInstallments cid s') \<Longrightarrow> in_status i = InstallmentStatus.PENDING \<and> timeInDay tz (in_dueDate i) = timeInDay tz t"
proof -
  let ?mk = "\<lambda>(k, r). \<lparr>in_installmentId = env_uuid e (k + 1), in_financingContractId = se_financingContractId r,
     in_dueDate = se_dueDate r, in_amount = se_amount r, in_sequence = se_sequence r, in_status = se_status r, in_paidAt = None\<rparr>"
  let ?new = "map ?mk (enumerate 0 rows)"
  note n = new_rows[of e rows]
  have old: "filter (\<lambda>i. in_financingContractId i = cid) (installments s) = []"
    using assms(3) by (simp add: filter_empty_conv)
  have fc: "in_financingContractId i = cid" if "i \<in> set ?new" for i
  proof -
    have "in_financingContractId i \<in> set (map se_financingContractId rows)" by (rule mapped_in[OF that n(5)])
    then show ?thesis using schedule_constants(1)[OF assms(1)] by auto
  qed
  have new: "contractInstallments cid s' = ?new"
    unfolding contractInstallments_def assms(2) filter_append old append_Nil by (rule filter_True) (use fc in blast)
  have m: "0 < int months" "0 < fl tot"
    using assms(1) by (auto simp: generateInstallmentSchedule_def split: if_splits)
  have "map se_sequence rows = [1..<months + 1]"
    using schedule_row[OF assms(1)] by (auto simp: list_eq_iff_nth_eq simp del: upt_Suc)
  then show "map in_sequence (contractInstallments cid s') = [1..<months + 1]" unfolding new n(2) .
  show "sum_list (map in_amount (contractInstallments cid s')) = tot" if w: "tot = of_int n / 100" "n < 2 ^ 50"
  proof -
    have "0 < tot" using m(2) by (rule fl_positive)
    then have p: "0 < n" by (simp add: w(1))
    obtain rows' where r: "generateInstallmentSchedule tz cid (fl (of_int n / 100)) (int months) t = Inr rows'"
      "sum_list (map se_amount rows') = of_int n / 100"
      using schedule_splits[OF p w(2) m(1), of tz cid t] by auto
    have "rows' = rows" using r(1) assms(1) w(1) by simp
    then show ?thesis using r(2) unfolding new n(1) w(1) by simp
  qed
  show "\<bar>sum_list (map in_amount (contractInstallments cid s')) - tot\<bar> \<le> 6 / 1000" if "tot \<le> 10 ^ 12"
    unfolding new n(1) by (rule schedule_near_total[OF assms(1) that])
  show "in_status i = InstallmentStatus.PENDING \<and> timeInDay tz (in_dueDate i) = timeInDay tz t"
    if i: "i \<in> set (contractInstallments cid s')"
  proof -
    have "in_status i \<in> set (map se_status rows)" "in_dueDate i \<in> set (map se_dueDate rows)"
      by (rule mapped_in[OF i[unfolded new] n(4)], rule mapped_in[OF i[unfolded new] n(3)])
    then show ?thesis using schedule_constants(2,4)[OF assms(1)] by auto
  qed
qed

lemma find_application_update:
  assumes "find_application aid s = Some a" "kycApplications s' = update_where (\<lambda>a. ka_kycApplicationId a = aid) f (kycApplications s)"
    and "\<And>a. ka_kycApplicationId (f a) = ka_kycApplicationId a"
  shows "find_application aid s' = Some (f a)"
proof -
  have "ka_kycApplicationId a = aid" using assms(1) unfolding find_application_def by (auto dest: find_set)
  then show ?thesis using assms(1,3) unfolding find_application_def assms(2) by (subst find_update_where) simp_all
qed

lemma approved_run:
  assumes "approveApplication tz hex e aid rid s = (Inr KycApplicationStatus.APPROVED, s')"
  obtains p c rows where "checkApproval aid rid s = Inr (FinalApproval p)" "ka_kycApplicationId (ap_application p) = aid"
    "find (\<lambda>c. fc_kycApplicationId c = aid) (contracts s) = Some c"
    "generateInstallmentSchedule tz (fc_contractId c) (fl (fc_totalFinanced c)) (int (fc_approvedDurationMonths c))
       (setDate tz (env_now e) (getDate tz (env_now e) + 3)) = Inr rows"
    "kycApplications s' = update_where (\<lambda>a. ka_kycApplicationId a = aid) (approved_application e p) (kycApplications s)"
    "users s' = users s @ [new_customer e (ap_session p)]"
    "os_email (ap_session p) \<notin> u_email ` set (users s)"
    "contracts s' = update_where (\<lambda>x. fc_contractId x = fc_contractId c) (activated_contract e) (contracts s)"
    "sessions s' = update_where (\<lambda>x. os_sessionId x = os_sessionId (ap_session p))
       (\<lambda>x. x\<lparr>os_status := KycOnboardingStatus.APPROVED, os_completedAt := Some (env_now e)\<rparr>) (sessions s)"
    "installments s' = installments s @ map (\<lambda>(k, r). \<lparr>in_installmentId = env_uuid e (k + 1),
       in_financingContractId = se_financingContractId r, in_dueDate = se_dueDate r, in_amount = se_amount r,
       in_sequence = se_sequence r, in_status = se_status r, in_paidAt = None\<rparr>) (enumerate 0 rows)"
  using assms
proof (cases rule: approveApplication_cases)
  case (activated p t)
  note c = checkApproval_final[OF activated(1)]
  have aid: "ka_kycApplicationId (ap_application p) = aid"
    using c(1) unfolding find_application_def by (auto dest: find_set)
  from activated(2) c(1)[folded aid] c(5) show thesis
    by (rule finalApprove_claims) (rule that[OF activated(1) aid]; simp add: aid activated(4))
qed simp_all

section \<open>Properties\<close>

text \<open>C23: A final approval leaves behind exactly one new user, the customer with the e-mail, password
  hash, company and referrer of the onboarding session; the application carries both signatures
  and the customer; the contract is active and the customer's; and its installments are numbered
  from 1 to the agreed duration, pending and due at the time of day of the approval.  They add up to
  the financed amount exactly when it is a whole number of kobo below \<open>2 ^ 50\<close>, and to within 0.6
  hundredths of it in any case up to a trillion.
\<close>

theorem approval_activates_the_contract:
  assumes "approveApplication tz hex e aid rid s = (Inr KycApplicationStatus.APPROVED, s')"
    and "find_application aid s = Some a" "sessionOfApplication a s = Some session"
    and "find (\<lambda>c. fc_kycApplicationId c = aid) (contracts s) = Some c"
    and "distinct (map fc_contractId (contracts s))"
    and "\<And>i. i \<in> set (installments s) \<Longrightarrow> in_financingContractId i \<noteq> fc_contractId c"
  shows "users s' = users s @ [new_customer e session] \<and>
    map_option (\<lambda>a. (ka_status a, ka_marketerApproved a, ka_adminApproved a, ka_userId a)) (find_application aid s') =
      Some (KycApplicationStatus.APPROVED, True, True, Some (env_uuid e 0)) \<and>
    find_contract (fc_contractId c) s' = Some (activated_contract e c) \<and>
    map in_sequence (contractInstallments (fc_contractId c) s') = [1..<fc_approvedDurationMonths c + 1] \<and>
    (fc_totalFinanced c = of_int n / 100 \<and> n < 2 ^ 50 \<longrightarrow>
       sum_list (map in_amount (contractInstallments (fc_contractId c) s')) = fc_totalFinanced c) \<and>
    (fc_totalFinanced c \<le> 10 ^ 12 \<longrightarrow>
       \<bar>sum_list (map in_amount (contractInstallments (fc_contractId c) s')) - fc_totalFinanced c\<bar> \<le> 6 / 1000) \<and>
    (\<forall>i \<in> set (contractInstallments (fc_contractId c) s').
       in_status i = InstallmentStatus.PENDING \<and> timeInDay tz (in_dueDate i) = timeInDay tz (env_now e))"
proof -
  obtain p c' rows where p: "checkApproval aid rid s = Inr (FinalApproval p)" "ka_kycApplicationId (ap_application p) = aid"
    "find (\<lambda>c. fc_kycApplicationId c = aid) (contracts s) = Some c'"
    and sch: "generateInstallmentSchedule tz (fc_contractId c') (fl (fc_totalFinanced c')) (int (fc_approvedDurationMonths c'))
       (setDate tz (env_now e) (getDate tz (env_now e) + 3)) = Inr rows"
    and apps: "kycApplications s' = update_where (\<lambda>a. ka_kycApplicationId a = aid) (approved_application e p) (kycApplications s)"
    and us: "users s' = users s @ [new_customer e (ap_session p)]"
    and cs: "contracts s' = update_where (\<lambda>x. fc_contractId x = fc_contractId c') (activated_contract e) (contracts s)"
    and ins: "installments s' = installments s @ map (\<lambda>(k, r). \<lparr>in_installmentId = env_uuid e (k + 1),
       in_financingContractId = se_financingContractId r, in_dueDate = se_dueDate r, in_amount = se_amount r,
       in_sequence = se_sequence r, in_status = se_status r, in_paidAt = None\<rparr>) (enumerate 0 rows)"
    using assms(1) by (rule approved_run)
  have c: "c' = c" using p(3) assms(4) by simp
  note k = checkApproval_final[OF p(1)]
  have ses: "ap_session p = session" "ap_application p = a"
    using k(1-3) assms(2,3) by (auto simp: sessionOfApplication_def)
  have "find_application aid s' = Some (approved_application e p a)"
    by (rule find_application_update[OF assms(2) apps]) simp
  moreover have "ap_requiresMarketer p \<longrightarrow> ka_marketerApproved a" using k(6) ses(2) by simp
  moreover have "find_contract (fc_contractId c) s' = Some (activated_contract e c)"
    using find_unique_key[OF assms(5), of c] find_set[OF assms(4)] unfolding find_contract_def cs c
    by (subst find_update_where) simp_all
  ultimately show ?thesis
    using activated_schedule[OF sch[unfolded c] ins assms(6)] us ses(1) by simp
qed

section \<open>A sample approval\<close>

definition sample_session :: session_row where
  "sample_session = \<lparr>os_sessionId = ''ses'', os_name = ''Ada'', os_email = ''ada@x.io'', os_passwordHash = ''#'',
     os_marketerId = Some ''mk'', os_companyId = None, os_status = KYC_SUBMITTED, os_expiresAt = 9000, os_completedAt = None\<rparr>"

definition sample_signed :: db where
  "sample_signed = empty_db\<lparr>users := [sample_buyer ''ad'' ADMIN None, (sample_buyer ''mk'' MARKETER None)\<lparr>u_createdById := Some ''ad''\<rparr>],
     sessions := [sample_session],
     kycApplications := [sample_application\<lparr>ka_userId := None, ka_status := APPROVAL_PROCESSING,
       ka_adminApproved := False, ka_adminApprovedAt := None\<rparr>],
     contracts := [sample_contract\<lparr>fc_userId := None, fc_status := PENDING_ACTIVATION, fc_activatedAt := None\<rparr>]\<rparr>"

definition sample_approved :: "KycApplicationStatus res \<times> db" where
  "sample_approved = approveApplication 0 ''hex'' (sample_clock CHR ''u'' 1000) ''ka'' ''ad'' sample_signed"

lemmas signed_runs = sample_session_def sample_signed_def sample_application_def sample_contract_def sample_buyer_def
  empty_db_def find_user_def find_application_def find_session_def or_null_def bind_eq_Some_conv row_simps

lemma sample_check:
  "\<exists>p. checkApproval ''ka'' ''ad'' sample_signed = Inr (FinalApproval p) \<and> ap_session p = sample_session \<and>
     ka_kycApplicationId (ap_application p) = ''ka'' \<and> ap_requiresMarketer p \<and>
     ap_marketer p = Some ((sample_buyer ''mk'' MARKETER None)\<lparr>u_createdById := Some ''ad''\<rparr>)"
  by (simp add: signed_runs checkApproval_def reviewScope_def signatureOrder_def marketerOfSession_def Let_def)

lemma sample_approved_ok: "\<exists>t. sample_approved = (Inr KycApplicationStatus.APPROVED, t)"
proof -
  obtain p where p: "checkApproval ''ka'' ''ad'' sample_signed = Inr (FinalApproval p)" "ap_session p = sample_session"
    "ka_kycApplicationId (ap_application p) = ''ka''" "ap_requiresMarketer p"
    "ap_marketer p = Some ((sample_buyer ''mk'' MARKETER None)\<lparr>u_createdById := Some ''ad''\<rparr>)"
    using sample_check by (elim exE conjE) (rule that)
  obtain rows where r: "generateInstallmentSchedule 0 ''fc'' (fl (of_int 20000 / 100)) 2 (setDate 0 1000 (getDate 0 1000 + 3)) = Inr rows"
    "map se_sequence rows = [1..<nat 2 + 1]"
    using schedule_splits[of 20000 2 0 "''fc''" "setDate 0 1000 (getDate 0 1000 + 3)"] by auto
  let ?new = "map (\<lambda>(k, r). \<lparr>in_installmentId = env_uuid (sample_clock CHR ''u'' 1000) (k + 1),
      in_financingContractId = se_financingContractId r, in_dueDate = se_dueDate r, in_amount = se_amount r,
      in_sequence = se_sequence r, in_status = se_status r, in_paidAt = None\<rparr>) (enumerate 0 rows)"
  have "distinct (map in_sequence ?new)" unfolding new_rows(2) r(2) by simp
  then have d: "distinct (map (\<lambda>i. (in_financingContractId i, in_sequence i)) ?new)"
    by (auto simp: distinct_map inj_on_def)
  have n: "env_now (sample_clock CHR ''u'' 1000) = 1000" by (simp add: sample_clock_def)
  have r': "generateInstallmentSchedule 0 ''fc'' (fl 200) 2 (setDate 0 1000 (getDate 0 1000 + 3)) = Inr rows" using r(1) by simp
  show ?thesis
    unfolding sample_approved_def approveApplication_def p(1)
    by (simp add: executeApproval_def transaction_def finalApproveTx_def Let_def p(2-5) signed_runs activateContract_def
        createUser_def new_customer_def createReferral_def createInstallments_def n r' d[simplified])
qed

theorem approval_activates_the_contract_witness:
  "\<exists>t. sample_approved = (Inr KycApplicationStatus.APPROVED, t) \<and>
    map in_sequence (contractInstallments ''fc'' t) = [1, 2] \<and> sum_list (map in_amount (contractInstallments ''fc'' t)) = 200"
proof -
  obtain t where t: "sample_approved = (Inr KycApplicationStatus.APPROVED, t)" using sample_approved_ok by blast
  let ?a = "sample_application\<lparr>ka_userId := None, ka_status := APPROVAL_PROCESSING, ka_adminApproved := False, ka_adminApprovedAt := None\<rparr>"
  let ?c = "sample_contract\<lparr>fc_userId := None, fc_status := PENDING_ACTIVATION, fc_activatedAt := None\<rparr>"
  have "find_application ''ka'' sample_signed = Some ?a" "sessionOfApplication ?a sample_signed = Some sample_session"
    "find (\<lambda>c. fc_kycApplicationId c = ''ka'') (contracts sample_signed) = Some ?c"
    "distinct (map fc_contractId (contracts sample_signed))" "fc_totalFinanced ?c = of_int 20000 / 100"
    "installments sample_signed = []" "fc_approvedDurationMonths ?c = 2" "fc_contractId ?c = ''fc''"
    by (simp_all add: signed_runs sessionOfApplication_def)
  from approval_activates_the_contract[OF t[unfolded sample_approved_def] this(1-4), of 20000] this(5-8) show ?thesis
    using t by (intro exI[of _ t]) (simp add: upt_rec numeral_2_eq_2 sample_contract_def)
qed

end
