(* ===== verification/KycSpec.thy ===== *)
theory KycSpec
  imports Database
begin

text \<open>
  What the onboarding of a customer promises, as an abstract state machine: an application is
  signed by the marketer who referred the customer, then by the company's side, and only then
  becomes an active contract of a new user; it may be rejected or expire before.  The handlers of
  \<open>KycIntake\<close> and \<open>KycReview\<close> are shown to refine it in \<open>KycLifecycle\<close>.
\<close>

section \<open>The abstract state\<close>

record app_view =
  av_id :: ident
  av_session :: "ident option"
  av_status :: KycApplicationStatus
  av_marketer :: bool
  av_admin :: bool
  av_user :: "ident option"

record contract_view =
  cv_id :: ident
  cv_app :: ident
  cv_status :: FinancingStatus
  cv_user :: "ident option"

record session_view =
  sv_id :: ident
  sv_marketer :: "ident option"
  sv_company :: "ident option"
  sv_status :: KycOnboardingStatus

record user_view =
  uv_id :: ident
  uv_role :: Role

record kyc_state =
  ks_apps :: "app_view list"
  ks_contracts :: "contract_view list"
  ks_sessions :: "session_view list"
  ks_users :: "user_view list"

definition needsMarketer :: "session_view \<Rightarrow> bool" where
  "needsMarketer x \<longleftrightarrow> or_null (sv_marketer x) \<noteq> None"

section \<open>Moves\<close>

inductive kyc_move :: "kyc_state \<Rightarrow> kyc_state \<Rightarrow> bool" where
  open_session: "sv_id x \<notin> sv_id ` set (ks_sessions k) \<Longrightarrow> sv_status x = PENDING_KYC \<Longrightarrow>
    kyc_move k (k\<lparr>ks_sessions := ks_sessions k @ [x]\<rparr>)"
| add_user: "uv_id u \<notin> uv_id ` set (ks_users k) \<Longrightarrow> kyc_move k (k\<lparr>ks_users := ks_users k @ [u]\<rparr>)"
| submit: "x \<in> set (ks_sessions k) \<Longrightarrow> \<forall>a \<in> set (ks_apps k). av_session a \<noteq> Some (sv_id x) \<Longrightarrow>
    aid \<notin> av_id ` set (ks_apps k) \<Longrightarrow> cid \<notin> cv_id ` set (ks_contracts k) \<Longrightarrow>
    kyc_move k (k\<lparr>
      ks_apps := ks_apps k @ [\<lparr>av_id = aid, av_session = Some (sv_id x), av_status = KycApplicationStatus.PENDING,
        av_marketer = False, av_admin = False, av_user = None\<rparr>],
      ks_contracts := ks_contracts k @ [\<lparr>cv_id = cid, cv_app = aid, cv_status = PENDING_ACTIVATION, cv_user = None\<rparr>],
      ks_sessions := update_where (\<lambda>y. sv_id y = sv_id x) (\<lambda>y. y\<lparr>sv_status := KYC_SUBMITTED\<rparr>) (ks_sessions k)\<rparr>)"
| sign: "a \<in> set (ks_apps k) \<Longrightarrow> av_status a = KycApplicationStatus.PENDING \<Longrightarrow> x \<in> set (ks_sessions k) \<Longrightarrow>
    av_session a = Some (sv_id x) \<Longrightarrow> u \<in> set (ks_users k) \<Longrightarrow> sv_marketer x = Some (uv_id u) \<Longrightarrow> uv_role u = MARKETER \<Longrightarrow>
    kyc_move k (k\<lparr>ks_apps := update_where (\<lambda>b. av_id b = av_id a)
      (\<lambda>b. b\<lparr>av_marketer := True, av_status := APPROVAL_PROCESSING\<rparr>) (ks_apps k)\<rparr>)"
| activate: "a \<in> set (ks_apps k) \<Longrightarrow> x \<in> set (ks_sessions k) \<Longrightarrow> av_session a = Some (sv_id x) \<Longrightarrow>
    av_status a = (if needsMarketer x then APPROVAL_PROCESSING else KycApplicationStatus.PENDING) \<Longrightarrow>
    needsMarketer x \<longrightarrow> av_marketer a \<Longrightarrow> c \<in> set (ks_contracts k) \<Longrightarrow> cv_app c = av_id a \<Longrightarrow>
    uv_id u \<notin> uv_id ` set (ks_users k) \<Longrightarrow> uv_role u = CUSTOMER \<Longrightarrow>
    kyc_move k (k\<lparr>
      ks_apps := update_where (\<lambda>b. av_id b = av_id a) (\<lambda>b. b\<lparr>av_marketer := (av_marketer b \<or> \<not> needsMarketer x),
        av_admin := True, av_status := KycApplicationStatus.APPROVED, av_user := Some (uv_id u)\<rparr>) (ks_apps k),
      ks_contracts := update_where (\<lambda>d. cv_id d = cv_id c)
        (\<lambda>d. d\<lparr>cv_status := FinancingStatus.ACTIVE, cv_user := Some (uv_id u)\<rparr>) (ks_contracts k),
      ks_sessions := update_where (\<lambda>y. sv_id y = sv_id x) (\<lambda>y. y\<lparr>sv_status := KycOnboardingStatus.APPROVED\<rparr>) (ks_sessions k),
      ks_users := ks_users k @ [u]\<rparr>)"
| reject: "a \<in> set (ks_apps k) \<Longrightarrow> av_status a \<in> {KycApplicationStatus.PENDING, APPROVAL_PROCESSING} \<Longrightarrow>
    kyc_move k (k\<lparr>
      ks_apps := update_where (\<lambda>b. av_id b = av_id a) (\<lambda>b. b\<lparr>av_status := KycApplicationStatus.REJECTED\<rparr>) (ks_apps k),
      ks_contracts := update_where (\<lambda>d. cv_app d = av_id a) (\<lambda>d. d\<lparr>cv_status := FinancingStatus.REJECTED\<rparr>) (ks_contracts k)\<rparr>)"
| drop: "a \<in> set (ks_apps k) \<Longrightarrow> av_status a \<noteq> KycApplicationStatus.APPROVED \<Longrightarrow>
    kyc_move k (k\<lparr>ks_apps := update_where (\<lambda>b. av_id b = av_id a)
      (\<lambda>b. b\<lparr>av_status := KycApplicationStatus.REJECTED\<rparr>) (ks_apps k)\<rparr>)"
| close_sessions: "\<forall>x \<in> set (ks_sessions k). P x \<longrightarrow> sv_status x \<noteq> KycOnboardingStatus.APPROVED \<Longrightarrow>
    kyc_move k (k\<lparr>ks_sessions := update_where P (\<lambda>x. x\<lparr>sv_status := st\<rparr>) (ks_sessions k)\<rparr>)"

section \<open>The invariant\<close>

text \<open>
  Of an application: its session exists; approved means both signatures, a user and an approved
  session; a marketer's signature on a referred application is that of the referring marketer.
\<close>

definition app_ok :: "kyc_state \<Rightarrow> app_view \<Rightarrow> bool" where
  "app_ok k a \<longleftrightarrow>
     (\<exists>x \<in> set (ks_sessions k). av_session a = Some (sv_id x)) \<and>
     (av_status a = KycApplicationStatus.APPROVED \<longrightarrow> av_marketer a \<and> av_admin a \<and>
       (\<exists>u \<in> set (ks_users k). av_user a = Some (uv_id u) \<and> uv_role u = CUSTOMER) \<and>
       (\<forall>x \<in> set (ks_sessions k). av_session a = Some (sv_id x) \<longrightarrow> sv_status x = KycOnboardingStatus.APPROVED)) \<and>
     (\<forall>x \<in> set (ks_sessions k). av_session a = Some (sv_id x) \<longrightarrow> needsMarketer x \<longrightarrow> av_marketer a \<longrightarrow>
       (\<exists>u \<in> set (ks_users k). sv_marketer x = Some (uv_id u) \<and> uv_role u = MARKETER))"

definition contract_ok :: "kyc_state \<Rightarrow> contract_view \<Rightarrow> bool" where
  "contract_ok k c \<longleftrightarrow> (\<exists>a \<in> set (ks_apps k). av_id a = cv_app c \<and>
     (cv_status c = FinancingStatus.ACTIVE \<longrightarrow> av_status a = KycApplicationStatus.APPROVED \<and> cv_user c = av_user a))"

definition kyc_ok :: "kyc_state \<Rightarrow> bool" where
  "kyc_ok k \<longleftrightarrow> distinct (map av_id (ks_apps k)) \<and> distinct (map cv_id (ks_contracts k)) \<and>
     distinct (map sv_id (ks_sessions k)) \<and> distinct (map uv_id (ks_users k)) \<and>
     (\<forall>a \<in> set (ks_apps k). app_ok k a) \<and> (\<forall>c \<in> set (ks_contracts k). contract_ok k c)"

lemma app_key: "kyc_ok k \<Longrightarrow> a \<in> set (ks_apps k) \<Longrightarrow> b \<in> set (ks_apps k) \<Longrightarrow> av_id a = av_id b \<longleftrightarrow> a = b"
  unfolding kyc_ok_def by (auto simp: distinct_map inj_on_def)

lemma session_key: "kyc_ok k \<Longrightarrow> x \<in> set (ks_sessions k) \<Longrightarrow> y \<in> set (ks_sessions k) \<Longrightarrow> sv_id x = sv_id y \<longleftrightarrow> x = y"
  unfolding kyc_ok_def by (auto simp: distinct_map inj_on_def)

lemma user_key: "kyc_ok k \<Longrightarrow> u \<in> set (ks_users k) \<Longrightarrow> v \<in> set (ks_users k) \<Longrightarrow> uv_id u = uv_id v \<longleftrightarrow> u = v"
  unfolding kyc_ok_def by (auto simp: distinct_map inj_on_def)

lemma contract_key: "kyc_ok k \<Longrightarrow> c \<in> set (ks_contracts k) \<Longrightarrow> d \<in> set (ks_contracts k) \<Longrightarrow> cv_id c = cv_id d \<longleftrightarrow> c = d"
  unfolding kyc_ok_def by (auto simp: distinct_map inj_on_def)

text \<open>One contract per application.\<close>

lemma keys_after_update:
  "(\<And>x. p x \<Longrightarrow> key (f x) = key x) \<Longrightarrow> distinct (map key (update_where p f xs)) = distinct (map key xs)"
  by (simp add: map_update_where)

section \<open>Every move keeps the invariant\<close>

lemma app_okD:
  "app_ok k a \<Longrightarrow> \<exists>x \<in> set (ks_sessions k). av_session a = Some (sv_id x)"
  "app_ok k a \<Longrightarrow> av_status a = KycApplicationStatus.APPROVED \<Longrightarrow> av_marketer a \<and> av_admin a \<and>
     (\<exists>u \<in> set (ks_users k). av_user a = Some (uv_id u) \<and> uv_role u = CUSTOMER)"
  "app_ok k a \<Longrightarrow> av_status a = KycApplicationStatus.APPROVED \<Longrightarrow> x \<in> set (ks_sessions k) \<Longrightarrow>
     av_session a = Some (sv_id x) \<Longrightarrow> sv_status x = KycOnboardingStatus.APPROVED"
  "app_ok k a \<Longrightarrow> x \<in> set (ks_sessions k) \<Longrightarrow> av_session a = Some (sv_id x) \<Longrightarrow> needsMarketer x \<Longrightarrow> av_marketer a \<Longrightarrow>
     \<exists>u \<in> set (ks_users k). sv_marketer x = Some (uv_id u) \<and> uv_role u = MARKETER"
  by (simp_all add: app_ok_def)

lemma app_okI:
  assumes "\<exists>x \<in> set (ks_sessions k). av_session a = Some (sv_id x)"
    and "av_status a = KycApplicationStatus.APPROVED \<Longrightarrow> av_marketer a \<and> av_admin a \<and>
      (\<exists>u \<in> set (ks_users k). av_user a = Some (uv_id u) \<and> uv_role u = CUSTOMER)"
    and "\<And>x. av_status a = KycApplicationStatus.APPROVED \<Longrightarrow> x \<in> set (ks_sessions k) \<Longrightarrow>
      av_session a = Some (sv_id x) \<Longrightarrow> sv_status x = KycOnboardingStatus.APPROVED"
    and "\<And>x. x \<in> set (ks_sessions k) \<Longrightarrow> av_session a = Some (sv_id x) \<Longrightarrow> needsMarketer x \<Longrightarrow> av_marketer a \<Longrightarrow>
      \<exists>u \<in> set (ks_users k). sv_marketer x = Some (uv_id u) \<and> uv_role u = MARKETER"
  shows "app_ok k a"
  using assms by (simp add: app_ok_def)

lemma app_ok_users:
  assumes "set (ks_users k) \<subseteq> set (ks_users k')" "ks_sessions k' = ks_sessions k" "app_ok k a"
  shows "app_ok k' a"
proof (rule app_okI)
  show "\<exists>x \<in> set (ks_sessions k'). av_session a = Some (sv_id x)" using app_okD(1)[OF assms(3)] assms(2) by simp
next
  assume "av_status a = KycApplicationStatus.APPROVED"
  then show "av_marketer a \<and> av_admin a \<and> (\<exists>u \<in> set (ks_users k'). av_user a = Some (uv_id u) \<and> uv_role u = CUSTOMER)"
    using app_okD(2)[OF assms(3)] assms(1) by blast
next
  fix x assume "av_status a = KycApplicationStatus.APPROVED" "x \<in> set (ks_sessions k')" "av_session a = Some (sv_id x)"
  then show "sv_status x = KycOnboardingStatus.APPROVED" using app_okD(3)[OF assms(3)] assms(2) by simp
next
  fix x assume "x \<in> set (ks_sessions k')" "av_session a = Some (sv_id x)" "needsMarketer x" "av_marketer a"
  then have "\<exists>u \<in> set (ks_users k). sv_marketer x = Some (uv_id u) \<and> uv_role u = MARKETER"
    using app_okD(4)[OF assms(3)] assms(2) by simp
  then show "\<exists>u \<in> set (ks_users k'). sv_marketer x = Some (uv_id u) \<and> uv_role u = MARKETER" using assms(1) by blast
qed

lemma contract_ok_apps:
  "ks_apps k' = ks_apps k \<Longrightarrow> contract_ok k' c = contract_ok k c"
  by (simp add: contract_ok_def)

lemma updated_session:
  assumes "x \<in> set (update_where P f xs)" "\<And>x. sv_id (f x) = sv_id x" "\<And>x. sv_marketer (f x) = sv_marketer x"
  obtains y where "y \<in> set xs" "sv_id x = sv_id y" "sv_marketer x = sv_marketer y" "needsMarketer x = needsMarketer y"
    "x = y \<or> P y \<and> x = f y"
proof -
  obtain y where y: "y \<in> set xs" "x = (if P y then f y else y)"
    using assms(1) unfolding set_update_where by (elim imageE) (rule that)
  then show thesis using assms(2,3)[of y] by (intro that[of y]) (auto simp: needsMarketer_def)
qed

lemma session_ids_kept:
  assumes "\<And>x. sv_id (f x) = sv_id x" "x \<in> set xs"
  shows "\<exists>y \<in> set (update_where P f xs). sv_id x = sv_id y"
proof -
  have "(if P x then f x else x) \<in> set (update_where P f xs)" unfolding set_update_where using assms(2) by blast
  then show ?thesis using assms(1)[of x] by (intro bexI[of _ "if P x then f x else x"]) simp_all
qed

lemma app_ok_sessions:
  assumes "ks_sessions k' = update_where P f (ks_sessions k)" "set (ks_users k) \<subseteq> set (ks_users k')"
    and "\<And>x. sv_id (f x) = sv_id x" "\<And>x. sv_marketer (f x) = sv_marketer x"
    and "\<And>x. x \<in> set (ks_sessions k) \<Longrightarrow> P x \<Longrightarrow> av_session a = Some (sv_id x) \<Longrightarrow>
      av_status a = KycApplicationStatus.APPROVED \<Longrightarrow> sv_status (f x) = KycOnboardingStatus.APPROVED"
    and "app_ok k a"
  shows "app_ok k' a"
proof (rule app_okI)
  obtain x where "x \<in> set (ks_sessions k)" "av_session a = Some (sv_id x)" using app_okD(1)[OF assms(6)] by blast
  then show "\<exists>x \<in> set (ks_sessions k'). av_session a = Some (sv_id x)"
    using session_ids_kept[of f x "ks_sessions k" P, OF assms(3)] unfolding assms(1) by metis
next
  assume "av_status a = KycApplicationStatus.APPROVED"
  then show "av_marketer a \<and> av_admin a \<and> (\<exists>u \<in> set (ks_users k'). av_user a = Some (uv_id u) \<and> uv_role u = CUSTOMER)"
    using app_okD(2)[OF assms(6)] assms(2) by blast
next
  fix x assume x: "av_status a = KycApplicationStatus.APPROVED" "x \<in> set (ks_sessions k')" "av_session a = Some (sv_id x)"
  show "sv_status x = KycOnboardingStatus.APPROVED"
    by (rule updated_session[OF x(2)[unfolded assms(1)] assms(3,4)])
      (use x(1,3) assms(5) app_okD(3)[OF assms(6)] in \<open>auto\<close>)
next
  fix x assume x: "x \<in> set (ks_sessions k')" "av_session a = Some (sv_id x)" "needsMarketer x" "av_marketer a"
  show "\<exists>u \<in> set (ks_users k'). sv_marketer x = Some (uv_id u) \<and> uv_role u = MARKETER"
    by (rule updated_session[OF x(1)[unfolded assms(1)] assms(3,4)])
      (use x(2-4) app_okD(4)[OF assms(6)] assms(2) in \<open>auto simp: subset_iff\<close>)
qed

lemma app_ok_new_session:
  assumes "ks_sessions k' = ks_sessions k @ [x]" "sv_id x \<notin> sv_id ` set (ks_sessions k)" "ks_users k' = ks_users k" "app_ok k a"
  shows "app_ok k' a"
proof -
  have "av_session a \<noteq> Some (sv_id x)" using assms(2) app_okD(1)[OF assms(4)] by auto
  then show ?thesis using assms(3,4) unfolding app_ok_def assms(1) by auto
qed

lemma contract_ok_update:
  assumes "contract_ok k c" "ks_apps k' = update_where (\<lambda>b. av_id b = i) f (ks_apps k)" "\<And>b. av_id (f b) = av_id b"
    and "\<And>b. b \<in> set (ks_apps k) \<Longrightarrow> av_id b = i \<Longrightarrow> cv_app c = i \<Longrightarrow> cv_status c = FinancingStatus.ACTIVE \<Longrightarrow>
      av_status b = KycApplicationStatus.APPROVED \<Longrightarrow> av_status (f b) = KycApplicationStatus.APPROVED \<and> av_user (f b) = av_user b"
  shows "contract_ok k' c"
proof -
  obtain b where b: "b \<in> set (ks_apps k)" "av_id b = cv_app c"
    "cv_status c = FinancingStatus.ACTIVE \<longrightarrow> av_status b = KycApplicationStatus.APPROVED \<and> cv_user c = av_user b"
    using assms(1) by (auto simp: contract_ok_def)
  let ?b = "if av_id b = i then f b else b"
  have "?b \<in> set (ks_apps k')" unfolding assms(2) set_update_where using b(1) by blast
  moreover have "av_id ?b = cv_app c \<and> (cv_status c = FinancingStatus.ACTIVE \<longrightarrow>
      av_status ?b = KycApplicationStatus.APPROVED \<and> cv_user c = av_user ?b)"
    using b assms(3)[of b] assms(4)[OF b(1)] by auto
  ultimately show ?thesis unfolding contract_ok_def by blast
qed

text \<open>Writing one application.\<close>

lemma app_update_ok:
  assumes "kyc_ok k" "a \<in> set (ks_apps k)" "\<And>b. av_id (f b) = av_id b" "set (ks_users k) \<subseteq> set (ks_users k')"
    and "ks_apps k' = update_where (\<lambda>b. av_id b = av_id a) f (ks_apps k)"
    and "\<And>b. b \<in> set (ks_apps k) \<Longrightarrow> app_ok k' b" "app_ok k' (f a)"
  shows "distinct (map av_id (ks_apps k'))" "\<forall>b \<in> set (ks_apps k'). app_ok k' b"
proof -
  show "distinct (map av_id (ks_apps k'))" using assms(1,3,5) by (simp add: keys_after_update kyc_ok_def)
  show "\<forall>b \<in> set (ks_apps k'). app_ok k' b"
  proof
    fix b assume "b \<in> set (ks_apps k')"
    then obtain d where "d \<in> set (ks_apps k)" "b = (if av_id d = av_id a then f d else d)"
      unfolding assms(5) set_update_where by (elim imageE) (rule that)
    then show "app_ok k' b" using assms(6,7) app_key[OF assms(1) _ assms(2), of d] by (auto split: if_splits)
  qed
qed

lemma move_open_session:
  "kyc_ok k \<Longrightarrow> sv_id x \<notin> sv_id ` set (ks_sessions k) \<Longrightarrow> kyc_ok (k\<lparr>ks_sessions := ks_sessions k @ [x]\<rparr>)"
  using app_ok_new_session[of "k\<lparr>ks_sessions := ks_sessions k @ [x]\<rparr>" k x]
    contract_ok_apps[of "k\<lparr>ks_sessions := ks_sessions k @ [x]\<rparr>" k] by (simp add: kyc_ok_def)

lemma move_add_user:
  "kyc_ok k \<Longrightarrow> uv_id u \<notin> uv_id ` set (ks_users k) \<Longrightarrow> kyc_ok (k\<lparr>ks_users := ks_users k @ [u]\<rparr>)"
  using app_ok_users[of k "k\<lparr>ks_users := ks_users k @ [u]\<rparr>"]
    contract_ok_apps[of "k\<lparr>ks_users := ks_users k @ [u]\<rparr>" k] by (auto simp: kyc_ok_def)

lemma move_submit:
  assumes "kyc_ok k" "x \<in> set (ks_sessions k)" "\<forall>a \<in> set (ks_apps k). av_session a \<noteq> Some (sv_id x)"
    and "aid \<notin> av_id ` set (ks_apps k)" "cid \<notin> cv_id ` set (ks_contracts k)"
    and k': "k' = k\<lparr>
      ks_apps := ks_apps k @ [\<lparr>av_id = aid, av_session = Some (sv_id x), av_status = KycApplicationStatus.PENDING,
        av_marketer = False, av_admin = False, av_user = None\<rparr>],
      ks_contracts := ks_contracts k @ [\<lparr>cv_id = cid, cv_app = aid, cv_status = PENDING_ACTIVATION, cv_user = None\<rparr>],
      ks_sessions := update_where (\<lambda>y. sv_id y = sv_id x) (\<lambda>y. y\<lparr>sv_status := KYC_SUBMITTED\<rparr>) (ks_sessions k)\<rparr>"
  shows "kyc_ok k'"
proof -
  let ?new = "\<lparr>av_id = aid, av_session = Some (sv_id x), av_status = KycApplicationStatus.PENDING,
        av_marketer = False, av_admin = False, av_user = None\<rparr>"
  have old: "app_ok k' a" if "a \<in> set (ks_apps k)" for a
    by (rule app_ok_sessions[of k' "\<lambda>y. sv_id y = sv_id x" "\<lambda>y. y\<lparr>sv_status := KYC_SUBMITTED\<rparr>" k])
      (use k' that assms(1,3) in \<open>auto simp: kyc_ok_def\<close>)
  have "\<exists>y \<in> set (ks_sessions k'). sv_id x = sv_id y"
    using session_ids_kept[of "\<lambda>y. y\<lparr>sv_status := KYC_SUBMITTED\<rparr>" x] assms(2) by (simp add: k')
  then have "app_ok k' ?new" by (auto simp: app_ok_def)
  moreover have "contract_ok k' c" if "c \<in> set (ks_contracts k)" for c
    using that assms(1) by (auto simp: k' kyc_ok_def contract_ok_def)
  ultimately show ?thesis
    using old assms(1,4,5) by (simp add: k' kyc_ok_def contract_ok_def keys_after_update)
qed

lemma move_sign:
  assumes "kyc_ok k" "a \<in> set (ks_apps k)" "av_status a = KycApplicationStatus.PENDING" "x \<in> set (ks_sessions k)"
    and "av_session a = Some (sv_id x)" "u \<in> set (ks_users k)" "sv_marketer x = Some (uv_id u)" "uv_role u = MARKETER"
    and k': "k' = k\<lparr>ks_apps := update_where (\<lambda>b. av_id b = av_id a)
      (\<lambda>b. b\<lparr>av_marketer := True, av_status := APPROVAL_PROCESSING\<rparr>) (ks_apps k)\<rparr>"
  shows "kyc_ok k'"
proof -
  let ?f = "\<lambda>b. b\<lparr>av_marketer := True, av_status := APPROVAL_PROCESSING\<rparr>"
  have "y = x" if "y \<in> set (ks_sessions k)" "av_session a = Some (sv_id y)" for y
    using session_key[OF assms(1) that(1) assms(4)] that(2) assms(5) by simp
  then have new: "app_ok k' (?f a)" using assms(4-8) by (auto simp: app_ok_def k')
  have old: "app_ok k' b" if "b \<in> set (ks_apps k)" for b
    using assms(1) that app_ok_users[of k k'] by (simp add: kyc_ok_def k')
  have con: "contract_ok k' c" if "c \<in> set (ks_contracts k)" for c
    by (rule contract_ok_update[of k c k' "av_id a" ?f])
      (use that assms(1,3) app_key[OF assms(1) _ assms(2)] in \<open>auto simp: kyc_ok_def k'\<close>)
  note u = app_update_ok[OF assms(1,2), of ?f k', OF _ _ _ old new]
  have "distinct (map av_id (ks_apps k'))" "\<forall>b \<in> set (ks_apps k'). app_ok k' b" by (rule u; simp add: k')+
  then show ?thesis using assms(1) con by (simp add: kyc_ok_def k')
qed

lemma move_drop:
  assumes "kyc_ok k" "a \<in> set (ks_apps k)" "av_status a \<noteq> KycApplicationStatus.APPROVED"
    and k': "k' = k\<lparr>ks_apps := update_where (\<lambda>b. av_id b = av_id a) (\<lambda>b. b\<lparr>av_status := KycApplicationStatus.REJECTED\<rparr>) (ks_apps k)\<rparr>"
  shows "kyc_ok k'"
proof -
  let ?f = "\<lambda>b. b\<lparr>av_status := KycApplicationStatus.REJECTED\<rparr>"
  have old: "app_ok k' b" if "b \<in> set (ks_apps k)" for b
    using assms(1) that app_ok_users[of k k'] by (simp add: kyc_ok_def k')
  have new: "app_ok k' (?f a)" using old[OF assms(2)] by (simp add: app_ok_def)
  have con: "contract_ok k' c" if "c \<in> set (ks_contracts k)" for c
    by (rule contract_ok_update[of k c k' "av_id a" ?f])
      (use that assms(1,3) app_key[OF assms(1) _ assms(2)] in \<open>auto simp: kyc_ok_def k'\<close>)
  note u = app_update_ok[OF assms(1,2), of ?f k', OF _ _ _ old new]
  have "distinct (map av_id (ks_apps k'))" "\<forall>b \<in> set (ks_apps k'). app_ok k' b" by (rule u; simp add: k')+
  then show ?thesis using assms(1) con by (simp add: kyc_ok_def k')
qed

lemma move_reject_contracts:
  assumes "kyc_ok k"
  shows "kyc_ok (k\<lparr>ks_contracts := update_where P (\<lambda>d. d\<lparr>cv_status := FinancingStatus.REJECTED\<rparr>) (ks_contracts k)\<rparr>)"
    (is "kyc_ok ?k")
proof -
  have "contract_ok ?k c" if c: "c \<in> set (ks_contracts ?k)" for c
  proof -
    have "c \<in> set (update_where P (\<lambda>d. d\<lparr>cv_status := FinancingStatus.REJECTED\<rparr>) (ks_contracts k))" using c by simp
    then obtain d where "d \<in> set (ks_contracts k)" "c = (if P d then d\<lparr>cv_status := FinancingStatus.REJECTED\<rparr> else d)"
      unfolding set_update_where by (elim imageE) (rule that)
    then show ?thesis using assms by (auto simp: kyc_ok_def contract_ok_def)
  qed
  moreover have "app_ok ?k a = app_ok k a" for a by (simp add: app_ok_def)
  ultimately show ?thesis using assms by (auto simp: kyc_ok_def keys_after_update)
qed

lemma move_activate:
  assumes "kyc_ok k" "a \<in> set (ks_apps k)" "x \<in> set (ks_sessions k)" "av_session a = Some (sv_id x)"
    and "av_status a = (if needsMarketer x then APPROVAL_PROCESSING else KycApplicationStatus.PENDING)"
    and "needsMarketer x \<longrightarrow> av_marketer a" "c \<in> set (ks_contracts k)" "cv_app c = av_id a"
    and "uv_id u \<notin> uv_id ` set (ks_users k)" "uv_role u = CUSTOMER"
    and k': "k' = k\<lparr>
      ks_apps := update_where (\<lambda>b. av_id b = av_id a) (\<lambda>b. b\<lparr>av_marketer := (av_marketer b \<or> \<not> needsMarketer x),
        av_admin := True, av_status := KycApplicationStatus.APPROVED, av_user := Some (uv_id u)\<rparr>) (ks_apps k),
      ks_contracts := update_where (\<lambda>d. cv_id d = cv_id c)
        (\<lambda>d. d\<lparr>cv_status := FinancingStatus.ACTIVE, cv_user := Some (uv_id u)\<rparr>) (ks_contracts k),
      ks_sessions := update_where (\<lambda>y. sv_id y = sv_id x) (\<lambda>y. y\<lparr>sv_status := KycOnboardingStatus.APPROVED\<rparr>) (ks_sessions k),
      ks_users := ks_users k @ [u]\<rparr>"
  shows "kyc_ok k'"
proof -
  let ?f = "\<lambda>b. b\<lparr>av_marketer := (av_marketer b \<or> \<not> needsMarketer x),
        av_admin := True, av_status := KycApplicationStatus.APPROVED, av_user := Some (uv_id u)\<rparr>"
  let ?g = "\<lambda>y. y\<lparr>sv_status := KycOnboardingStatus.APPROVED\<rparr>"
  have old: "app_ok k' b" if "b \<in> set (ks_apps k)" for b
    by (rule app_ok_sessions[of k' "\<lambda>y. sv_id y = sv_id x" ?g k]) (use that assms(1) in \<open>auto simp: kyc_ok_def k'\<close>)
  have sess: "y = ?g x" if y: "y \<in> set (ks_sessions k')" "av_session a = Some (sv_id y)" for y
  proof -
    have "y \<in> set (update_where (\<lambda>y. sv_id y = sv_id x) ?g (ks_sessions k))" using y(1) by (simp add: k')
    then obtain z where z: "z \<in> set (ks_sessions k)" "y = (if sv_id z = sv_id x then ?g z else z)"
      unfolding set_update_where by (elim imageE) (rule that)
    then have "sv_id z = sv_id x" using y(2) assms(4) by (auto split: if_splits)
    then show ?thesis using z session_key[OF assms(1) z(1) assms(3)] by simp
  qed
  have new: "app_ok k' (?f a)"
  proof (rule app_okI)
    show "\<exists>y \<in> set (ks_sessions k'). av_session (?f a) = Some (sv_id y)" using app_okD(1)[OF old[OF assms(2)]] by simp
  next
    show "av_marketer (?f a) \<and> av_admin (?f a) \<and> (\<exists>v \<in> set (ks_users k'). av_user (?f a) = Some (uv_id v) \<and> uv_role v = CUSTOMER)"
      using assms(6,10) by (auto simp: k')
  next
    fix y assume "y \<in> set (ks_sessions k')" "av_session (?f a) = Some (sv_id y)"
    then have "y = ?g x" using sess by simp
    then show "sv_status y = KycOnboardingStatus.APPROVED" by simp
  next
    fix y assume y: "y \<in> set (ks_sessions k')" "av_session (?f a) = Some (sv_id y)" "needsMarketer y"
    have "needsMarketer x" using sess[OF y(1)] y(2,3) by (simp add: needsMarketer_def)
    then show "\<exists>v \<in> set (ks_users k'). sv_marketer y = Some (uv_id v) \<and> uv_role v = MARKETER"
      using app_okD(4)[OF old[OF assms(2)] y(1)] y(2,3) assms(6) by simp
  qed
  note u = app_update_ok[OF assms(1,2), of ?f k', OF _ _ _ old new]
  have apps: "distinct (map av_id (ks_apps k'))" "\<forall>b \<in> set (ks_apps k'). app_ok k' b" by (rule u; simp add: k' subset_insertI)+
  have con: "contract_ok k' d" if d: "d \<in> set (ks_contracts k')" for d
  proof -
    let ?h = "\<lambda>d. d\<lparr>cv_status := FinancingStatus.ACTIVE, cv_user := Some (uv_id u)\<rparr>"
    have "d \<in> set (update_where (\<lambda>d. cv_id d = cv_id c) ?h (ks_contracts k))" using d by (simp add: k')
    then obtain b where b: "b \<in> set (ks_contracts k)" "d = (if cv_id b = cv_id c then ?h b else b)"
      unfolding set_update_where by (elim imageE) (rule that)
    show ?thesis
    proof (cases "b = c")
      case True
      have "?f a \<in> set (ks_apps k')" using assms(2) by (auto simp: k' set_update_where)
      then show ?thesis using True b(2) assms(8) unfolding contract_ok_def by (intro bexI[of _ "?f a"]) simp_all
    next
      case False
      then have "d = b" using b contract_key[OF assms(1) b(1) assms(7)] by simp
      moreover have "contract_ok k b" using assms(1) b(1) by (simp add: kyc_ok_def)
      ultimately show ?thesis
        using contract_ok_update[of k b k' "av_id a" ?f] app_key[OF assms(1) _ assms(2)] assms(5) by (auto simp: k' split: if_splits)
    qed
  qed
  show ?thesis using assms(1,9) apps con by (simp add: kyc_ok_def k' keys_after_update)
qed

lemma move_close_sessions:
  assumes "kyc_ok k" "\<forall>x \<in> set (ks_sessions k). P x \<longrightarrow> sv_status x \<noteq> KycOnboardingStatus.APPROVED"
    and k': "k' = k\<lparr>ks_sessions := update_where P (\<lambda>x. x\<lparr>sv_status := st\<rparr>) (ks_sessions k)\<rparr>"
  shows "kyc_ok k'"
proof -
  have "app_ok k' a" if a: "a \<in> set (ks_apps k)" for a
  proof (rule app_ok_sessions[of k' P "\<lambda>x. x\<lparr>sv_status := st\<rparr>" k])
    show "app_ok k a" using a assms(1) by (simp add: kyc_ok_def)
    then show "sv_status (x\<lparr>sv_status := st\<rparr>) = KycOnboardingStatus.APPROVED"
      if "x \<in> set (ks_sessions k)" "P x" "av_session a = Some (sv_id x)" "av_status a = KycApplicationStatus.APPROVED" for x
      using that assms(2) app_okD(3) by blast
  qed (simp_all add: k')
  then show ?thesis using assms(1) contract_ok_apps[of k' k] by (simp add: kyc_ok_def keys_after_update k')
qed


lemma move_keeps_ok [inv_intros]:
  assumes "kyc_move k k'" "kyc_ok k"
  shows "kyc_ok k'"
  using assms
proof cases
  case (reject a)
  have "kyc_ok (k\<lparr>ks_apps := update_where (\<lambda>b. av_id b = av_id a) (\<lambda>b. b\<lparr>av_status := KycApplicationStatus.REJECTED\<rparr>) (ks_apps k)\<rparr>)"
    by (rule move_drop[OF assms(2) reject(2) _ refl]) (use reject(3) in auto)
  from move_reject_contracts[OF this, of "\<lambda>d. cv_app d = av_id a"] show ?thesis by (simp add: reject(1))
next
  case (open_session x) show ?thesis unfolding open_session(1) by (rule move_open_session[OF assms(2) open_session(2)])
next
  case (add_user u) show ?thesis unfolding add_user(1) by (rule move_add_user[OF assms(2) add_user(2)])
next
  case (submit x aid cid) show ?thesis by (rule move_submit[OF assms(2) submit(2-5,1)])
next
  case (sign a x u) show ?thesis by (rule move_sign[OF assms(2) sign(2-8,1)])
next
  case (activate a x c u) show ?thesis by (rule move_activate[OF assms(2) activate(2-10,1)])
next
  case (drop a) show ?thesis by (rule move_drop[OF assms(2) drop(2,3,1)])
next
  case (close_sessions P st) show ?thesis by (rule move_close_sessions[OF assms(2) close_sessions(2,1)])
qed

lemma moves_keep_ok: "kyc_move\<^sup>*\<^sup>* k k' \<Longrightarrow> kyc_ok k \<Longrightarrow> kyc_ok k'"
  by (induction rule: rtranclp_induct) (auto intro: inv_intros)

text \<open>No move removes a user or changes whom a session belongs to.\<close>

definition owners :: "kyc_state \<Rightarrow> (ident \<times> ident option \<times> ident option) list" where
  "owners k = map (\<lambda>x. (sv_id x, sv_marketer x, sv_company x)) (ks_sessions k)"

lemma owners_update:
  "(\<And>x. sv_id (f x) = sv_id x \<and> sv_marketer (f x) = sv_marketer x \<and> sv_company (f x) = sv_company x) \<Longrightarrow>
     map (\<lambda>x. (sv_id x, sv_marketer x, sv_company x)) (update_where p f xs) = map (\<lambda>x. (sv_id x, sv_marketer x, sv_company x)) xs"
  by (simp add: map_update_where)

lemma move_grows: "kyc_move k k' \<Longrightarrow> set (owners k) \<subseteq> set (owners k') \<and> set (ks_users k) \<subseteq> set (ks_users k')"
  by (erule kyc_move.cases) (simp_all add: owners_def owners_update subset_insertI)

lemma moves_grow: "kyc_move\<^sup>*\<^sup>* k k' \<Longrightarrow> set (owners k) \<subseteq> set (owners k') \<and> set (ks_users k) \<subseteq> set (ks_users k')"
  by (induction rule: rtranclp_induct) (use move_grows in blast)+

end
