(* ===== verification/KycLifecycle.thy ===== *)
theory KycLifecycle
  imports KycApproval KycSpec
begin

text \<open>
  The life of an application from registration to the activated contract, as a step relation over
  the handlers of \<open>KycIntake\<close> and \<open>KycReview\<close>.  Every handler refines the abstract machine of
  \<open>KycSpec\<close>, so every reachable state satisfies its invariant.
\<close>

section \<open>The abstract view\<close>

definition appView :: "kyc_row \<Rightarrow> app_view" where
  "appView a = \<lparr>av_id = ka_kycApplicationId a, av_session = ka_onboardingSessionId a, av_status = ka_status a,
     av_marketer = ka_marketerApproved a, av_admin = ka_adminApproved a, av_user = ka_userId a\<rparr>"

definition contractView :: "contract_row \<Rightarrow> contract_view" where
  "contractView c = \<lparr>cv_id = fc_contractId c, cv_app = fc_kycApplicationId c, cv_status = fc_status c, cv_user = fc_userId c\<rparr>"

definition sessionView :: "session_row \<Rightarrow> session_view" where
  "sessionView x = \<lparr>sv_id = os_sessionId x, sv_marketer = os_marketerId x, sv_company = os_companyId x, sv_status = os_status x\<rparr>"

definition userView :: "user_row \<Rightarrow> user_view" where
  "userView u = \<lparr>uv_id = u_userId u, uv_role = u_role u\<rparr>"

definition kycView :: "db \<Rightarrow> kyc_state" where
  "kycView s = \<lparr>ks_apps = map appView (kycApplications s), ks_contracts = map contractView (contracts s),
     ks_sessions = map sessionView (sessions s), ks_users = map userView (users s)\<rparr>"

lemma views [simp]:
  "av_id (appView a) = ka_kycApplicationId a" "av_session (appView a) = ka_onboardingSessionId a"
  "av_status (appView a) = ka_status a" "av_marketer (appView a) = ka_marketerApproved a"
  "av_admin (appView a) = ka_adminApproved a" "av_user (appView a) = ka_userId a"
  "cv_id (contractView c) = fc_contractId c" "cv_app (contractView c) = fc_kycApplicationId c"
  "cv_status (contractView c) = fc_status c" "cv_user (contractView c) = fc_userId c"
  "sv_id (sessionView x) = os_sessionId x" "sv_marketer (sessionView x) = os_marketerId x" "sv_company (sessionView x) = os_companyId x"
  "sv_status (sessionView x) = os_status x" "uv_id (userView u) = u_userId u" "uv_role (userView u) = u_role u"
  by (simp_all add: appView_def contractView_def sessionView_def userView_def)

lemma kycView_simps [simp]:
  "ks_apps (kycView s) = map appView (kycApplications s)" "ks_contracts (kycView s) = map contractView (contracts s)"
  "ks_sessions (kycView s) = map sessionView (sessions s)" "ks_users (kycView s) = map userView (users s)"
  by (simp_all add: kycView_def)

lemma kycView_eqI:
  "map appView (kycApplications t) = map appView (kycApplications s) \<Longrightarrow> map contractView (contracts t) = map contractView (contracts s) \<Longrightarrow>
   map sessionView (sessions t) = map sessionView (sessions s) \<Longrightarrow> map userView (users t) = map userView (users s) \<Longrightarrow>
   kycView t = kycView s"
  by (simp add: kycView_def)

lemma map_update_view:
  assumes "\<And>x. v (f x) = g (v x)" "\<And>x. p x = q (v x)"
  shows "map v (update_where p f xs) = update_where q g (map v xs)"
  using assms by (simp add: update_where_def)

lemma kycView_emit [simp]: "kycView (emit x s) = kycView s"
  by (simp add: kycView_def)

lemma kycView_audit [simp]: "kycView (audit_kyc a b c d s) = kycView s" "kycView (scheduleDeletion e i s) = kycView s"
  by (simp_all add: kycView_def)

section \<open>Steps\<close>

text \<open>Identifiers the environment hands out are new.\<close>

definition fresh_ids :: "env \<Rightarrow> db \<Rightarrow> bool" where
  "fresh_ids e s \<longleftrightarrow> env_uuid e 0 \<notin> os_sessionId ` set (sessions s) \<and> env_uuid e 0 \<notin> u_userId ` set (users s) \<and>
     env_uuid e 0 \<notin> ka_kycApplicationId ` set (kycApplications s) \<and> env_uuid e 1 \<notin> fc_contractId ` set (contracts s)"

inductive kyc_step :: "db \<Rightarrow> db \<Rightarrow> bool" where
  link: "kyc_step s (snd (generateReferralLink fe hex mid slug vid pid s))"
| code: "kyc_step s (snd (generateCompanySignupCode fe hex uid s))"
| invited: "fresh_ids e s \<Longrightarrow> kyc_step s (snd (registerViaReferral bc e d s))"
| direct: "fresh_ids e s \<Longrightarrow> kyc_step s (snd (registerDirect bc e rid dd s))"
| submitted: "fresh_ids e s \<Longrightarrow> kyc_step s (snd (submitApplication tz up test e sid p file s))"
| approved: "fresh_ids e s \<Longrightarrow> kyc_step s (snd (approveApplication tz hex e aid rid s))"
| rejected: "kyc_step s (snd (rejectApplication e aid rid reason s))"
| swept: "kyc_step s (snd (expireStaleOnboardingSessions batch e s))"
| cleaned: "kyc_step s (runCleanup tz e s)"
| staff: "u_userId u \<notin> u_userId ` set (users s) \<Longrightarrow> kyc_step s (s\<lparr>users := users s @ [u]\<rparr>)"
| catalogue: "kyc_step s (s\<lparr>products := ps, variants := vs, installmentPlans := ips, companies := cs\<rparr>)"

section \<open>Every handler refines the abstract machine\<close>

lemma view_link: "kycView (snd (generateReferralLink fe hex mid slug vid pid s)) = kycView s"
  by (rule kycView_eqI)
    (auto simp: generateReferralLink_def Let_def update_user_def userView_def update_where_def split: option.splits)

lemma view_code: "kycView (snd (generateCompanySignupCode fe hex uid s)) = kycView s"
  by (rule kycView_eqI) (auto simp: generateCompanySignupCode_def Let_def split: option.splits)

lemma refine_session:
  assumes "fresh_ids e s" "createOrResumeOnboardingSession bc e p s = (sid, t)"
  shows "kyc_move\<^sup>*\<^sup>* (kycView s) (kycView t)"
proof (cases "activeSession (si_email p) (env_now e) s")
  case None
  let ?x = "\<lparr>sv_id = env_uuid e 0, sv_marketer = si_marketerId p, sv_company = si_companyId p, sv_status = PENDING_KYC\<rparr>"
  have "kyc_move (kycView s) (kycView s\<lparr>ks_sessions := ks_sessions (kycView s) @ [?x]\<rparr>)"
    by (rule kyc_move.open_session) (use assms(1) in \<open>auto simp: fresh_ids_def\<close>)
  moreover have "kycView s\<lparr>ks_sessions := ks_sessions (kycView s) @ [?x]\<rparr> = kycView t"
    using assms(2) None by (auto simp: createOrResumeOnboardingSession_def kycView_def sessionView_def)
  ultimately show ?thesis by auto
next
  case (Some x)
  have "kycView t = kycView s"
    by (rule kycView_eqI) (use assms(2) Some in \<open>auto simp: createOrResumeOnboardingSession_def update_where_def sessionView_def\<close>)
  then show ?thesis by simp
qed

lemma refine_invited:
  assumes "fresh_ids e s"
  shows "kyc_move\<^sup>*\<^sup>* (kycView s) (kycView (snd (registerViaReferral bc e d s)))"
  using refine_session[OF assms] by (auto simp: registerViaReferral_def Let_def split: sum.splits prod.splits)

lemma refine_direct:
  assumes "fresh_ids e s"
  shows "kyc_move\<^sup>*\<^sup>* (kycView s) (kycView (snd (registerDirect bc e rid dd s)))"
  using refine_session[OF assms] by (auto simp: registerDirect_def Let_def split: option.splits prod.splits)

lemma refine_persist:
  assumes "fresh_ids e s" "find_session sid s = Some session" "persistApplication tz e session p up file s = (r, t)"
  shows "kyc_move\<^sup>*\<^sup>* (kycView s) (kycView t)"
proof (cases "checkApplication session p s")
  case (Inl err) then show ?thesis using assms(3) by (simp add: persistApplication_def)
next
  case (Inr pv)
  obtain plan variant where pv: "pv = (plan, variant)" by (cases pv)
  show ?thesis
  proof (cases "\<exists>a \<in> set (kycApplications s). ka_onboardingSessionId a = Some (os_sessionId session)")
    case True then show ?thesis using assms(3) Inr pv
      by (auto simp: persistApplication_def persistTx_def transaction_def)
  next
    case False
    let ?app = "\<lparr>av_id = env_uuid e 0, av_session = Some (os_sessionId session), av_status = KycApplicationStatus.PENDING,
        av_marketer = False, av_admin = False, av_user = None\<rparr>"
    let ?con = "\<lparr>cv_id = env_uuid e 1, cv_app = env_uuid e 0, cv_status = PENDING_ACTIVATION, cv_user = None\<rparr>"
    have ses: "session \<in> set (sessions s)" using assms(2) unfolding find_session_def by (auto dest: find_set)
    have m: "kyc_move (kycView s) (kycView s\<lparr>ks_apps := ks_apps (kycView s) @ [?app],
        ks_contracts := ks_contracts (kycView s) @ [?con],
        ks_sessions := update_where (\<lambda>y. sv_id y = sv_id (sessionView session)) (\<lambda>y. y\<lparr>sv_status := KYC_SUBMITTED\<rparr>)
          (ks_sessions (kycView s))\<rparr>)"
      using kyc_move.submit[of "sessionView session" "kycView s" "env_uuid e 0" "env_uuid e 1"] assms(1) False ses
      by (simp add: fresh_ids_def image_image)
    have sv: "map sessionView (update_where (\<lambda>y. os_sessionId y = os_sessionId session) (\<lambda>x. x\<lparr>os_status := KYC_SUBMITTED\<rparr>) (sessions s)) =
        update_where (\<lambda>y. sv_id y = os_sessionId session) (\<lambda>y. y\<lparr>sv_status := KYC_SUBMITTED\<rparr>) (map sessionView (sessions s))"
      by (rule map_update_view) (simp_all add: sessionView_def)
    have "kycView t = kycView s\<lparr>ks_apps := ks_apps (kycView s) @ [?app], ks_contracts := ks_contracts (kycView s) @ [?con],
        ks_sessions := update_where (\<lambda>y. sv_id y = sv_id (sessionView session)) (\<lambda>y. y\<lparr>sv_status := KYC_SUBMITTED\<rparr>)
          (ks_sessions (kycView s))\<rparr>"
      using assms(3) Inr pv False sv
      by (auto simp: persistApplication_def persistTx_def transaction_def Let_def kycView_def new_application_def
          new_contract_def appView_def contractView_def)
    with m show ?thesis by simp
  qed
qed

lemma refine_persist_snd:
  "fresh_ids e s \<Longrightarrow> find_session sid s = Some session \<Longrightarrow>
     kyc_move\<^sup>*\<^sup>* (kycView s) (kycView (snd (persistApplication tz e session p up file s)))"
  using refine_persist[of e s sid session tz p up "file"] by (cases "persistApplication tz e session p up file s") simp

lemma view_cleanup:
  "kycView (snd (case r of (Inl err, s') \<Rightarrow> (Inl err, emit ev s') | (Inr aid, s') \<Rightarrow> (Inr aid, s'))) = kycView (snd r)"
  by (simp split: prod.split sum.split)

lemma submitApplication_runs:
  obtains (refused) err where "submitApplication tz up test e sid p file s = (Inl err, s)"
  | (ran) session f u where "find_session sid s = Some session"
      "kycView (snd (submitApplication tz up test e sid p file s)) = kycView (snd (persistApplication tz e session p u f s))"
proof -
  show thesis
  proof (cases "find_session sid s")
    case None then show thesis by (intro refused[of "NotFoundError ''Onboarding session not found.''"]) (simp add: submitApplication_def)
  next
    case (Some session)
    show thesis
    proof (cases "\<exists>err. submitApplication tz up test e sid p file s = (Inl err, s)")
      case True then show thesis using refused by blast
    next
      case False
      then obtain f where f: "file = Some f" using Some
        by (cases "file") (simp_all add: submitApplication_def split: if_splits)
      obtain u where "submitApplication tz up test e sid p file s = persistApplication tz e session p u f s \<or>
          submitApplication tz up test e sid p file s = (case persistApplication tz e session p u f s of
            (Inl err, s') \<Rightarrow> (Inl err, emit (Event ''cloudinary.destroy'' (ur_public_id u)) s') | (Inr aid, s') \<Rightarrow> (Inr aid, s'))"
        using False Some f unfolding submitApplication_def
        by (simp split: if_splits sum.splits del: split_paired_Ex split_paired_All) blast+
      then show thesis by (intro ran[OF Some, of u f]) (erule disjE; simp only: view_cleanup)
    qed
  qed
qed

lemma refine_submitted:
  assumes "fresh_ids e s"
  shows "kyc_move\<^sup>*\<^sup>* (kycView s) (kycView (snd (submitApplication tz up test e sid p file s)))"
proof (cases rule: submitApplication_runs[of tz up test e sid p "file" s])
  case (refused err) then show ?thesis by simp
next
  case (ran session f u) then show ?thesis using refine_persist_snd[OF assms ran(1)] by simp
qed

lemma checkApproval_marketer:
  assumes "checkApproval aid rid s = Inr (MarketerApproval p)"
  shows "ap_application p \<in> set (kycApplications s)" "ka_status (ap_application p) = KycApplicationStatus.PENDING"
    "ap_session p \<in> set (sessions s)" "ka_onboardingSessionId (ap_application p) = Some (os_sessionId (ap_session p))"
    "the (find_user rid s) \<in> set (users s)" "os_marketerId (ap_session p) = Some (u_userId (the (find_user rid s)))"
    "u_role (the (find_user rid s)) = MARKETER"
proof -
  obtain reviewer a sid session where r: "find_user rid s = Some reviewer" "find_application aid s = Some a"
    "ka_onboardingSessionId a = Some sid" "find_session sid s = Some session"
    "reviewScope reviewer session (marketerOfSession session s) = Inr True"
    "signatureOrder True (or_null (os_marketerId session) \<noteq> None) a = Inr ()"
    "ap_application p = a" "ap_session p = session"
    using assms by (auto simp: checkApproval_def Let_def bind_eq_Some_conv split: option.splits sum.splits if_splits)
  have k: "a \<in> set (kycApplications s)" "session \<in> set (sessions s)" "os_sessionId session = sid" "reviewer \<in> set (users s)"
    using find_set[OF r(2)[unfolded find_application_def]] find_set[OF r(4)[unfolded find_session_def]]
      find_set[OF r(1)[unfolded find_user_def]] by simp_all
  have m: "u_role reviewer = MARKETER" "os_marketerId session = Some (u_userId reviewer)"
    using r(5) by (auto simp: reviewScope_def split: Role.splits option.splits if_splits)
  show "ap_application p \<in> set (kycApplications s)" "ka_status (ap_application p) = KycApplicationStatus.PENDING"
    "ap_session p \<in> set (sessions s)" "ka_onboardingSessionId (ap_application p) = Some (os_sessionId (ap_session p))"
    "the (find_user rid s) \<in> set (users s)" "os_marketerId (ap_session p) = Some (u_userId (the (find_user rid s)))"
    "u_role (the (find_user rid s)) = MARKETER"
    using r k m by (simp_all add: signatureOrder_def split: if_splits)
qed

lemma refine_activation:
  assumes "fresh_ids e s" "checkApproval aid rid s = Inr (FinalApproval p)"
    and "finalApproveTx tz hex e p s = (Inr KycApplicationStatus.APPROVED, t)"
  shows "kyc_move\<^sup>*\<^sup>* (kycView s) (kycView t)"
proof -
  note k = checkApproval_final[OF assms(2)]
  let ?a = "ap_application p" and ?x = "ap_session p" and ?u = "new_customer e (ap_session p)"
  have aid: "ka_kycApplicationId ?a = aid" using find_set[OF k(1)[unfolded find_application_def]] by simp
  obtain c rows where c: "find (\<lambda>c. fc_kycApplicationId c = aid) (contracts s) = Some c"
    and t: "kycApplications t = update_where (\<lambda>a. ka_kycApplicationId a = aid) (approved_application e p) (kycApplications s)"
      "users t = users s @ [?u]"
      "contracts t = update_where (\<lambda>x. fc_contractId x = fc_contractId c) (activated_contract e) (contracts s)"
      "sessions t = update_where (\<lambda>x. os_sessionId x = os_sessionId ?x)
         (\<lambda>x. x\<lparr>os_status := KycOnboardingStatus.APPROVED, os_completedAt := Some (env_now e)\<rparr>) (sessions s)"
    using assms(3) k(1)[folded aid] k(5) by (rule finalApprove_claims) (simp add: aid)
  have n: "needsMarketer (sessionView ?x) = ap_requiresMarketer p" by (simp add: needsMarketer_def k(4))
  let ?f = "\<lambda>b. b\<lparr>av_marketer := (av_marketer b \<or> \<not> needsMarketer (sessionView ?x)), av_admin := True,
      av_status := KycApplicationStatus.APPROVED, av_user := Some (uv_id (userView ?u))\<rparr>"
  let ?g = "\<lambda>d. d\<lparr>cv_status := FinancingStatus.ACTIVE, cv_user := Some (uv_id (userView ?u))\<rparr>"
  let ?k = "kycView s\<lparr>ks_apps := update_where (\<lambda>b. av_id b = av_id (appView ?a)) ?f (ks_apps (kycView s)),
      ks_contracts := update_where (\<lambda>d. cv_id d = cv_id (contractView c)) ?g (ks_contracts (kycView s)),
      ks_sessions := update_where (\<lambda>y. sv_id y = sv_id (sessionView ?x)) (\<lambda>y. y\<lparr>sv_status := KycOnboardingStatus.APPROVED\<rparr>)
        (ks_sessions (kycView s)), ks_users := ks_users (kycView s) @ [userView ?u]\<rparr>"
  have rows: "?a \<in> set (kycApplications s)" "?x \<in> set (sessions s)" "c \<in> set (contracts s)" "fc_kycApplicationId c = aid"
    using find_set[OF k(1)[unfolded find_application_def]] find_set[OF k(3)[unfolded find_session_def]] find_set[OF c] by simp_all
  have "kyc_move (kycView s) ?k"
    by (rule kyc_move.activate)
      (use rows k(2,5,6) n aid assms(1) in \<open>auto simp: fresh_ids_def new_customer_def image_image\<close>)
  moreover have "map appView (kycApplications t) = update_where (\<lambda>b. av_id b = av_id (appView ?a)) ?f (map appView (kycApplications s))"
    unfolding t(1) n by (rule map_update_view) (simp_all add: appView_def approved_application_def aid new_customer_def)
  moreover have "map contractView (contracts t) = update_where (\<lambda>d. cv_id d = cv_id (contractView c)) ?g (map contractView (contracts s))"
    unfolding t(3) by (rule map_update_view) (simp_all add: contractView_def activated_contract_def new_customer_def)
  moreover have "map sessionView (sessions t) = update_where (\<lambda>y. sv_id y = sv_id (sessionView ?x))
      (\<lambda>y. y\<lparr>sv_status := KycOnboardingStatus.APPROVED\<rparr>) (map sessionView (sessions s))"
    unfolding t(4) by (rule map_update_view) (simp_all add: sessionView_def)
  ultimately have "kyc_move (kycView s) (kycView t)" by (simp add: kycView_def t(2))
  then show ?thesis by blast
qed

lemma refine_approved:
  assumes "fresh_ids e s"
  shows "kyc_move\<^sup>*\<^sup>* (kycView s) (kycView (snd (approveApplication tz hex e aid rid s)))"
proof -
  obtain r t where run: "approveApplication tz hex e aid rid s = (r, t)" by (cases "approveApplication tz hex e aid rid s")
  from run have "kyc_move\<^sup>*\<^sup>* (kycView s) (kycView t)"
  proof (cases rule: approveApplication_cases)
    case (failed err) then show ?thesis by simp
  next
    case (signed p)
    note c = checkApproval_marketer[OF signed(1)]
    let ?a = "ap_application p"
    have m: "kyc_move (kycView s) (kycView s\<lparr>ks_apps := update_where (\<lambda>b. av_id b = av_id (appView ?a))
        (\<lambda>b. b\<lparr>av_marketer := True, av_status := APPROVAL_PROCESSING\<rparr>) (ks_apps (kycView s))\<rparr>)"
      by (rule kyc_move.sign[of _ _ "sessionView (ap_session p)" "userView (the (find_user rid s))"]) (use c in simp_all)
    have "map appView (update_where (\<lambda>a. ka_kycApplicationId a = ka_kycApplicationId ?a)
          (\<lambda>a. a\<lparr>ka_marketerApproved := True, ka_marketerApprovedAt := Some (env_now e), ka_status := APPROVAL_PROCESSING\<rparr>)
          (kycApplications s)) = update_where (\<lambda>b. av_id b = ka_kycApplicationId ?a)
        (\<lambda>b. b\<lparr>av_marketer := True, av_status := APPROVAL_PROCESSING\<rparr>) (map appView (kycApplications s))"
      by (rule map_update_view) (simp_all add: appView_def)
    then have "kycView t = kycView s\<lparr>ks_apps := update_where (\<lambda>b. av_id b = av_id (appView ?a))
        (\<lambda>b. b\<lparr>av_marketer := True, av_status := APPROVAL_PROCESSING\<rparr>) (ks_apps (kycView s))\<rparr>"
      by (simp add: signed(3) kycView_def)
    with m show ?thesis by simp
  next
    case (activated p u)
    show ?thesis using refine_activation[OF assms activated(1,2)] by (simp add: activated(4))
  qed
  then show ?thesis by (simp add: run)
qed

lemma map_update_where_view:
  assumes "\<And>x. x \<in> set xs \<Longrightarrow> p x = q (v x)" "\<And>x. x \<in> set xs \<Longrightarrow> p x \<Longrightarrow> v (f x) = g (v x)"
  shows "map v (update_where p f xs) = update_where q g (map v xs)"
  using assms by (induction xs) (auto simp: row_simps)

lemma refine_rejected: "kyc_move\<^sup>*\<^sup>* (kycView s) (kycView (snd (rejectApplication e aid rid reason s)))"
proof (cases "\<exists>err. rejectApplication e aid rid reason s = (Inl err, s)")
  case True then show ?thesis by auto
next
  case False
  obtain admin where u: "find_user rid s = Some admin" using False by (cases "find_user rid s") (simp_all add: rejectApplication_def)
  obtain a where a: "find (\<lambda>a. ka_kycApplicationId a = aid \<and> ka_status a \<in> {KycApplicationStatus.PENDING, APPROVAL_PROCESSING})
      (kycApplications s) = Some a"
    using False u by (cases "find (\<lambda>a. ka_kycApplicationId a = aid \<and> ka_status a \<in> {KycApplicationStatus.PENDING, APPROVAL_PROCESSING})
      (kycApplications s)") (simp_all add: rejectApplication_def split: if_splits)
  have k: "a \<in> set (kycApplications s)" "ka_kycApplicationId a = aid"
    "ka_status a \<in> {KycApplicationStatus.PENDING, APPROVAL_PROCESSING}"
    using find_set[OF a] by simp_all
  then have "find_application aid s \<noteq> None" unfolding find_application_def by (auto simp: find_None_iff)
  then obtain fh r where tx: "rejectTx e aid (u_userId admin) fh reason s = (Inr (), r)" and
    t: "kycView (snd (rejectApplication e aid rid reason s)) = kycView r"
    using False u a by (auto simp: rejectApplication_def rejectTx_def transaction_def Let_def split: if_splits)
  let ?k = "kycView s\<lparr>ks_apps := update_where (\<lambda>b. av_id b = av_id (appView a)) (\<lambda>b. b\<lparr>av_status := KycApplicationStatus.REJECTED\<rparr>) (ks_apps (kycView s)),
     ks_contracts := update_where (\<lambda>d. cv_app d = av_id (appView a)) (\<lambda>d. d\<lparr>cv_status := FinancingStatus.REJECTED\<rparr>) (ks_contracts (kycView s))\<rparr>"
  have "kyc_move (kycView s) ?k" by (rule kyc_move.reject) (use k in simp_all)
  moreover have "?k = kycView r"
  proof -
    have r: "kycApplications r = update_where (\<lambda>a. ka_kycApplicationId a = aid)
        (\<lambda>a. a\<lparr>ka_status := KycApplicationStatus.REJECTED, ka_rejectionReason := Some reason\<rparr>) (kycApplications s)"
      "contracts r = update_where (\<lambda>c. fc_kycApplicationId c = aid)
        (\<lambda>c. c\<lparr>fc_status := FinancingStatus.REJECTED, fc_rejectedAt := Some (env_now e)\<rparr>) (contracts s)"
      "sessions r = sessions s" "users r = users s"
      using tx by (auto simp: rejectTx_def Let_def split: if_splits)
    have "map appView (kycApplications r) = update_where (\<lambda>b. av_id b = aid) (\<lambda>b. b\<lparr>av_status := KycApplicationStatus.REJECTED\<rparr>)
        (map appView (kycApplications s))"
      unfolding r by (rule map_update_where_view) (simp_all add: appView_def)
    moreover have "map contractView (contracts r) = update_where (\<lambda>d. cv_app d = aid) (\<lambda>d. d\<lparr>cv_status := FinancingStatus.REJECTED\<rparr>)
        (map contractView (contracts s))"
      unfolding r by (rule map_update_where_view) (simp_all add: contractView_def)
    ultimately show ?thesis by (simp add: kycView_def k(2) r)
  qed
  ultimately show ?thesis unfolding t by auto
qed

text \<open>An application dropped by a background job.\<close>

lemma refine_drop:
  assumes "b \<in> set (kycApplications s)" "ka_status b \<noteq> KycApplicationStatus.APPROVED"
    and "kycApplications t = update_where (\<lambda>a. ka_kycApplicationId a = ka_kycApplicationId b)
      (\<lambda>a. a\<lparr>ka_status := KycApplicationStatus.REJECTED, ka_rejectionReason := m\<rparr>) (kycApplications s)"
    and "contracts t = contracts s" "sessions t = sessions s" "users t = users s"
  shows "kyc_move (kycView s) (kycView t)"
proof -
  have "kyc_move (kycView s) (kycView s\<lparr>ks_apps := update_where (\<lambda>x. av_id x = av_id (appView b))
      (\<lambda>b. b\<lparr>av_status := KycApplicationStatus.REJECTED\<rparr>) (ks_apps (kycView s))\<rparr>)"
    by (rule kyc_move.drop) (use assms in simp_all)
  moreover have "map appView (kycApplications t) = update_where (\<lambda>x. av_id x = ka_kycApplicationId b)
      (\<lambda>b. b\<lparr>av_status := KycApplicationStatus.REJECTED\<rparr>) (map appView (kycApplications s))"
    unfolding assms(3) by (rule map_update_where_view) (simp_all add: appView_def)
  ultimately show ?thesis using assms(4-6) by (simp add: kycView_def)
qed

lemma moves_fold:
  assumes "\<And>x t. x \<in> set xs \<Longrightarrow> I t \<Longrightarrow> kyc_ok (kycView t) \<Longrightarrow> kyc_move\<^sup>*\<^sup>* (kycView t) (kycView (f t x)) \<and> I (f t x)"
    and "I s" "kyc_ok (kycView s)"
  shows "kyc_move\<^sup>*\<^sup>* (kycView s) (kycView (foldl f s xs)) \<and> kyc_ok (kycView (foldl f s xs))"
  using assms
proof (induction xs arbitrary: s)
  case (Cons x xs)
  have x: "kyc_move\<^sup>*\<^sup>* (kycView s) (kycView (f s x))" "I (f s x)" using Cons.prems(1)[of x s] Cons.prems(2,3) by simp_all
  have "kyc_ok (kycView (f s x))" using moves_keep_ok[OF x(1) Cons.prems(3)] .
  from Cons.IH[OF _ x(2) this] Cons.prems(1) show ?case using rtranclp_trans[OF x(1)] by simp
qed simp

lemma refine_expire:
  assumes "kyc_ok (kycView s)"
  shows "kyc_move\<^sup>*\<^sup>* (kycView s) (kycView (expireSession x s))"
proof (cases "\<exists>y \<in> set (sessions s). os_sessionId y = os_sessionId x \<and> os_status y = EXPIRING")
  case False
  then have "expireSession x s = emit (Event ''ONBOARDING_SESSION_EXPIRED'' (os_sessionId x)) s"
    by (auto simp: expireSession_def Let_def split: bool.split)
  then show ?thesis by simp
next
  case True
  let ?sid = "os_sessionId x"
  let ?P = "\<lambda>y. sv_id y = ?sid \<and> sv_status y = EXPIRING"
  let ?s1 = "s\<lparr>sessions := update_where (\<lambda>y. os_sessionId y = ?sid \<and> os_status y = EXPIRING)
      (\<lambda>y. y\<lparr>os_status := KycOnboardingStatus.EXPIRED, os_completedAt := None\<rparr>) (sessions s)\<rparr>"
  have "kyc_move (kycView s) (kycView s\<lparr>ks_sessions := update_where ?P (\<lambda>y. y\<lparr>sv_status := KycOnboardingStatus.EXPIRED\<rparr>) (ks_sessions (kycView s))\<rparr>)"
    by (rule kyc_move.close_sessions) simp
  moreover have "map sessionView (sessions ?s1) = update_where ?P (\<lambda>y. y\<lparr>sv_status := KycOnboardingStatus.EXPIRED\<rparr>) (map sessionView (sessions s))"
    by (simp, rule map_update_where_view) (simp_all add: sessionView_def)
  ultimately have 1: "kyc_move (kycView s) (kycView ?s1)" by (simp add: kycView_def)
  show ?thesis
  proof (cases "applicationOfSession ?sid ?s1")
    case None
    then have "expireSession x s = emit (Event ''ONBOARDING_SESSION_EXPIRED'' ?sid) ?s1"
      using True by (simp add: expireSession_def Let_def)
    then show ?thesis using 1 by (simp add: r_into_rtranclp)
  next
    case (Some b)
    have b: "b \<in> set (kycApplications s)" "ka_onboardingSessionId b = Some ?sid"
      using find_set[OF Some[unfolded applicationOfSession_def]] by simp_all
    have "ka_status b \<noteq> KycApplicationStatus.APPROVED"
    proof
      assume ap: "ka_status b = KycApplicationStatus.APPROVED"
      obtain y where y: "y \<in> set (sessions s)" "os_sessionId y = ?sid" "os_status y = EXPIRING" using True by blast
      have "app_ok (kycView s) (appView b)" using assms b(1) by (simp add: kyc_ok_def)
      from app_okD(3)[OF this, of "sessionView y"] show False using ap y b(2) by simp
    qed
    then have "kyc_move (kycView ?s1) (kycView (expireSession x s))"
      by (intro refine_drop[of b _ _ "Some ''Onboarding session expired.''"])
        (use True Some b in \<open>simp_all add: expireSession_def Let_def\<close>)
    then show ?thesis using 1 by (meson converse_rtranclp_into_rtranclp r_into_rtranclp)
  qed
qed

lemma refine_swept:
  assumes "kyc_ok (kycView s)"
  shows "kyc_move\<^sup>*\<^sup>* (kycView s) (kycView (snd (expireStaleOnboardingSessions batch e s)))"
proof -
  let ?s1 = "s\<lparr>sessions := update_where (STALE (env_now e)) (\<lambda>x. x\<lparr>os_status := EXPIRING, os_passwordHash := ''''\<rparr>) (sessions s)\<rparr>"
  let ?ids = "os_sessionId ` set (filter (STALE (env_now e)) (sessions s))"
  let ?P = "\<lambda>y. sv_id y \<in> ?ids"
  have d: "distinct (map os_sessionId (sessions s))" using assms by (simp add: kyc_ok_def comp_def)
  have P: "STALE (env_now e) x \<longleftrightarrow> ?P (sessionView x)" if "x \<in> set (sessions s)" for x
    using that d by (auto simp: distinct_map inj_on_def)
  have "kyc_move (kycView s) (kycView s\<lparr>ks_sessions := update_where ?P (\<lambda>y. y\<lparr>sv_status := EXPIRING\<rparr>) (ks_sessions (kycView s))\<rparr>)"
  proof (rule kyc_move.close_sessions, intro ballI impI)
    fix y assume "y \<in> set (ks_sessions (kycView s))" "?P y"
    then obtain x where x: "x \<in> set (sessions s)" "y = sessionView x" "?P (sessionView x)" by auto
    then have "STALE (env_now e) x" by (simp only: P[OF x(1)])
    then show "sv_status y \<noteq> KycOnboardingStatus.APPROVED" by (auto simp: STALE_def x(2))
  qed
  moreover have "map sessionView (sessions ?s1) = update_where ?P (\<lambda>y. y\<lparr>sv_status := EXPIRING\<rparr>) (map sessionView (sessions s))"
  proof -
    have "map sessionView (update_where (STALE (env_now e)) (\<lambda>x. x\<lparr>os_status := EXPIRING, os_passwordHash := ''''\<rparr>) (sessions s)) =
        update_where ?P (\<lambda>y. y\<lparr>sv_status := EXPIRING\<rparr>) (map sessionView (sessions s))"
      by (rule map_update_where_view, rule P) (simp_all add: sessionView_def)
    then show ?thesis by simp
  qed
  ultimately have 1: "kyc_move (kycView s) (kycView ?s1)" by (simp add: kycView_def)
  have ok1: "kyc_ok (kycView ?s1)" using move_keeps_ok[OF 1 assms] .
  have "kyc_move\<^sup>*\<^sup>* (kycView ?s1) (kycView (foldl (\<lambda>t x. expireSession x t) ?s1 xs))" for xs
    using moves_fold[of xs "\<lambda>t. True" "\<lambda>t x. expireSession x t" ?s1] refine_expire ok1 by simp
  then show ?thesis using 1 by (auto simp: expireStaleOnboardingSessions_def Let_def intro: converse_rtranclp_into_rtranclp)
qed

lemma view_purge: "kycView (purgeAsset e d s) = kycView s"
  by (rule kycView_eqI) (simp_all add: purgeAsset_def)

lemma refine_purge: "kycView (foldl (\<lambda>t d. purgeAsset e d t) s ds) = kycView s"
  by (induction ds arbitrary: s) (simp_all add: view_purge)

lemma autoReject_rows:
  "kycApplications (autoReject e h a s) = update_where (\<lambda>b. ka_kycApplicationId b = ka_kycApplicationId a)
     (\<lambda>b. b\<lparr>ka_status := KycApplicationStatus.REJECTED, ka_rejectionReason :=
        Some ''Auto-expired: KYC Application remained pending for more than 15 days without approval.''\<rparr>) (kycApplications s)"
  "contracts (autoReject e h a s) = contracts s" "sessions (autoReject e h a s) = sessions s" "users (autoReject e h a s) = users s"
  by (simp_all add: autoReject_def Let_def)

lemma bex_update_where:
  assumes "\<exists>b \<in> set xs. Q b" "\<And>b. p b \<Longrightarrow> Q b \<Longrightarrow> Q (f b)"
  shows "\<exists>b \<in> set (update_where p f xs). Q b"
proof -
  obtain b where b: "b \<in> set xs" "Q b" using assms(1) by blast
  then have "(if p b then f b else b) \<in> set (update_where p f xs)" unfolding set_update_where by blast
  then show ?thesis using assms(2)[of b] b(2) by (intro bexI[of _ "if p b then f b else b"]) simp_all
qed

lemma refine_auto_reject:
  fixes s :: db
  defines "open' t a \<equiv> \<exists>b \<in> set (kycApplications t). ka_kycApplicationId b = ka_kycApplicationId a \<and> ka_status b \<noteq> KycApplicationStatus.APPROVED"
  assumes "\<And>a. a \<in> set as \<Longrightarrow> open' s a" "kyc_ok (kycView s)"
  shows "kyc_move\<^sup>*\<^sup>* (kycView s) (kycView (foldl (\<lambda>t a. autoReject e (h a) a t) s as))"
proof -
  have "open' (autoReject e (h a) a t) c" if "open' t c" for a c t
    using that unfolding open'_def autoReject_rows by (rule bex_update_where) simp
  moreover have "kyc_move\<^sup>*\<^sup>* (kycView t) (kycView (autoReject e (h a) a t))" if "open' t a" for a t
  proof -
    obtain b where b: "b \<in> set (kycApplications t)" "ka_kycApplicationId b = ka_kycApplicationId a"
      "ka_status b \<noteq> KycApplicationStatus.APPROVED" using \<open>open' t a\<close> unfolding open'_def by blast
    show ?thesis by (rule r_into_rtranclp, rule refine_drop[OF b(1,3)]) (simp_all add: autoReject_rows b(2))
  qed
  ultimately show ?thesis
    using moves_fold[of as "\<lambda>t. \<forall>c \<in> set as. open' t c" "\<lambda>t a. autoReject e (h a) a t" s] assms(2,3) by simp
qed

lemma refine_cleaned:
  assumes "kyc_ok (kycView s)"
  shows "kyc_move\<^sup>*\<^sup>* (kycView s) (kycView (runCleanup tz e s))"
proof -
  let ?s1 = "foldl (\<lambda>t d. purgeAsset e d t) s (assetsToPurge (env_now e) s)"
  have "kyc_move\<^sup>*\<^sup>* (kycView ?s1) (kycView (foldl (\<lambda>t a. autoReject e (fileHashOf (ka_kycApplicationId a) ?s1) a t) ?s1
      (staleApplications tz (env_now e) ?s1)))"
    by (rule refine_auto_reject) (use assms in \<open>auto simp: staleApplications_def refine_purge\<close>)
  then show ?thesis by (simp add: runCleanup_def Let_def refine_purge)
qed

section \<open>Runs\<close>

lemma step_refines:
  assumes "kyc_step s t" "kyc_ok (kycView s)"
  shows "kyc_move\<^sup>*\<^sup>* (kycView s) (kycView t)"
  using assms(1)
proof cases
  case link then show ?thesis by (simp add: view_link)
next
  case code then show ?thesis by (simp add: view_code)
next
  case invited then show ?thesis using refine_invited by simp
next
  case direct then show ?thesis using refine_direct by simp
next
  case submitted then show ?thesis using refine_submitted by simp
next
  case approved then show ?thesis using refine_approved by simp
next
  case rejected then show ?thesis using refine_rejected by simp
next
  case swept then show ?thesis using refine_swept[OF assms(2)] by simp
next
  case cleaned then show ?thesis using refine_cleaned[OF assms(2)] by simp
next
  case (staff u)
  have "kyc_move (kycView s) (kycView s\<lparr>ks_users := ks_users (kycView s) @ [userView u]\<rparr>)"
    by (rule kyc_move.add_user) (use staff(2) in \<open>simp add: image_image\<close>)
  then show ?thesis by (auto simp: staff(1) kycView_def)
next
  case catalogue then show ?thesis by (simp add: kycView_def)
qed

lemma run_refines:
  assumes "kyc_step\<^sup>*\<^sup>* s t" "kyc_ok (kycView s)"
  shows "kyc_move\<^sup>*\<^sup>* (kycView s) (kycView t) \<and> kyc_ok (kycView t)"
  using assms
proof (induction rule: rtranclp_induct)
  case (step t u)
  then have t: "kyc_move\<^sup>*\<^sup>* (kycView s) (kycView t)" "kyc_ok (kycView t)" by simp_all
  note u = step_refines[OF step.hyps(2) t(2)]
  show ?case using rtranclp_trans[OF t(1) u] moves_keep_ok[OF u t(2)] by simp
qed simp

text \<open>A run: the second signature of a referred application.\<close>

lemma sample_ok: "kyc_ok (kycView sample_signed)"
  by (simp add: kyc_ok_def app_ok_def contract_ok_def needsMarketer_def signed_runs)

lemma sample_run: "kyc_step\<^sup>*\<^sup>* sample_signed (snd sample_approved)"
  unfolding sample_approved_def
  by (rule r_into_rtranclp, rule kyc_step.approved) (simp add: fresh_ids_def signed_runs sample_clock_def)

text \<open>C22: The handlers refine the abstract onboarding machine: whatever sequence of link and code
  generations, registrations, submissions, approvals, rejections, expiry sweeps and retention
  runs leads from one state to another, the views of the two are related by moves of the
  machine (open, submit, sign, activate, reject, drop, close).
\<close>

theorem kyc_handlers_refine_the_machine:
  assumes "kyc_step\<^sup>*\<^sup>* s t" "kyc_ok (kycView s)"
  shows "kyc_move\<^sup>*\<^sup>* (kycView s) (kycView t)"
  using run_refines[OF assms] by simp

theorem kyc_handlers_refine_the_machine_witness:
  "kyc_move\<^sup>*\<^sup>* (kycView sample_signed) (kycView (snd sample_approved))"
  by (rule kyc_handlers_refine_the_machine) (rule sample_run, rule sample_ok)

text \<open>C21: In every reachable state an active contract rests on an approved application of the same
  customer that carries both signatures, whose onboarding session is approved; and when the
  session names a marketer, that marketer exists with the role MARKETER.
\<close>

theorem active_contracts_have_both_signatures:
  assumes "kyc_step\<^sup>*\<^sup>* s t" "kyc_ok (kycView s)" "c \<in> set (contracts t)" "fc_status c = FinancingStatus.ACTIVE"
  shows "\<exists>a \<in> set (kycApplications t). ka_kycApplicationId a = fc_kycApplicationId c \<and>
    ka_status a = KycApplicationStatus.APPROVED \<and> ka_marketerApproved a \<and> ka_adminApproved a \<and> fc_userId c = ka_userId a \<and>
    (\<exists>u \<in> set (users t). fc_userId c = Some (u_userId u) \<and> u_role u = CUSTOMER) \<and>
    (\<exists>x \<in> set (sessions t). ka_onboardingSessionId a = Some (os_sessionId x) \<and> os_status x = KycOnboardingStatus.APPROVED \<and>
       (or_null (os_marketerId x) \<noteq> None \<longrightarrow> (\<exists>m \<in> set (users t). os_marketerId x = Some (u_userId m) \<and> u_role m = MARKETER)))"
proof -
  have ok: "kyc_ok (kycView t)" using run_refines[OF assms(1,2)] by simp
  then have "contract_ok (kycView t) (contractView c)" using assms(3) by (simp add: kyc_ok_def)
  then obtain a where a: "a \<in> set (kycApplications t)" "ka_kycApplicationId a = fc_kycApplicationId c"
    "ka_status a = KycApplicationStatus.APPROVED" "fc_userId c = ka_userId a"
    using assms(4) by (auto simp: contract_ok_def)
  have o: "app_ok (kycView t) (appView a)" using ok a(1) by (simp add: kyc_ok_def)
  have both: "ka_marketerApproved a \<and> ka_adminApproved a"
    and u: "\<exists>u \<in> set (users t). ka_userId a = Some (u_userId u) \<and> u_role u = CUSTOMER"
    using app_okD(2)[OF o] a(3) by auto
  obtain x where x: "x \<in> set (sessions t)" "ka_onboardingSessionId a = Some (os_sessionId x)"
    using app_okD(1)[OF o] by auto
  have st: "os_status x = KycOnboardingStatus.APPROVED" using app_okD(3)[OF o, of "sessionView x"] x a(3) by simp
  have m: "\<exists>m \<in> set (users t). os_marketerId x = Some (u_userId m) \<and> u_role m = MARKETER" if "or_null (os_marketerId x) \<noteq> None"
    using app_okD(4)[OF o, of "sessionView x"] x both that by (auto simp: needsMarketer_def)
  show ?thesis
    by (rule bexI[OF _ a(1)], intro conjI) (use a both u x st m in auto)
qed

theorem active_contracts_have_both_signatures_witness:
  "\<exists>c \<in> set (contracts (snd sample_approved)). \<exists>a \<in> set (kycApplications (snd sample_approved)).
    fc_status c = FinancingStatus.ACTIVE \<and> ka_kycApplicationId a = fc_kycApplicationId c \<and> ka_marketerApproved a \<and> ka_adminApproved a"
proof -
  obtain t where t: "sample_approved = (Inr KycApplicationStatus.APPROVED, t)" using sample_approved_ok by blast
  let ?c = "activated_contract (sample_clock CHR ''u'' 1000) (sample_contract\<lparr>fc_userId := None, fc_status := PENDING_ACTIVATION, fc_activatedAt := None\<rparr>)"
  obtain p c rows where p: "find (\<lambda>c. fc_kycApplicationId c = ''ka'') (contracts sample_signed) = Some c"
    "contracts t = update_where (\<lambda>x. fc_contractId x = fc_contractId c) (activated_contract (sample_clock CHR ''u'' 1000)) (contracts sample_signed)"
    by (rule approved_run[OF t[unfolded sample_approved_def]]) (rule that)
  then have c: "?c \<in> set (contracts (snd sample_approved))" by (auto simp: t signed_runs)
  from active_contracts_have_both_signatures[OF sample_run sample_ok c] c show ?thesis
    by (intro bexI[OF _ c]) auto
qed

end
