(* ===== verification/KycSafety.thy ===== *)
theory KycSafety
  imports KycLifecycle Settlement
begin

text \<open>
  Safety of the onboarding: who can never be approved, what a stale approval does to an
  application that was decided in between, and which merchant the installments of a referred
  customer belong to.
\<close>

section \<open>Registrations without a path to approval\<close>

lemma registered_session:
  assumes "createOrResumeOnboardingSession bc e p s = (sid, t)" "activeSession (si_email p) (env_now e) s = None"
  shows "users t = users s" "(sid, si_marketerId p, si_companyId p) \<in> set (owners (kycView t))"
    "set (users s) \<subseteq> set (users t)" "kycApplications t = kycApplications s"
  using assms by (auto simp: createOrResumeOnboardingSession_def owners_def)

lemma owner_row:
  assumes "(sid, m, c) \<in> set (owners (kycView t))"
  obtains x where "x \<in> set (sessions t)" "os_sessionId x = sid" "os_marketerId x = m" "os_companyId x = c"
  using assms by (auto simp: owners_def)

lemma owner_kept:
  assumes "kyc_step\<^sup>*\<^sup>* s t" "kyc_ok (kycView s)" "(sid, m, c) \<in> set (owners (kycView s))"
  shows "(sid, m, c) \<in> set (owners (kycView t))" "kyc_ok (kycView t)"
    "userView ` set (users s) \<subseteq> userView ` set (users t)"
  using run_refines[OF assms(1,2)] moves_grow[of "kycView s" "kycView t"] assms(3) by auto

text \<open>
  A customer registered directly by an ADMIN can never be approved: the admin is recorded as
  the session's marketer, so a marketer's signature is required first, and no marketer can give
  it.  In every state reachable from the registration the application of that session is not
  approved and no contract of it is active.
\<close>

theorem admin_registrations_are_never_approved:
  assumes "registerDirect bc e rid d s = (Inr sid, s1)" "find_user rid s = Some r" "u_role r = ADMIN" "u_userId r \<noteq> ''''"
    and "activeSession (jsTrim (toLowerCase (dr_email d))) (env_now e) s = None" "kyc_ok (kycView s)" "fresh_ids e s"
    and "kyc_step\<^sup>*\<^sup>* s1 t" "a \<in> set (kycApplications t)" "ka_onboardingSessionId a = Some sid"
  shows "ka_status a \<noteq> KycApplicationStatus.APPROVED \<and>
    (\<forall>c \<in> set (contracts t). fc_kycApplicationId c = ka_kycApplicationId a \<longrightarrow> fc_status c \<noteq> FinancingStatus.ACTIVE)"
proof -
  obtain c0 where reg: "createOrResumeOnboardingSession bc e \<lparr>si_name = dr_name d, si_email = jsTrim (toLowerCase (dr_email d)),
      si_password = dr_password d, si_marketerId = Some (u_userId r), si_companyId = c0\<rparr> s = (sid, s1)"
    using assms(1-3) by (auto simp: registerDirect_def Let_def split: if_splits prod.splits)
  note g = registered_session[OF reg, simplified, OF assms(5)]
  have r: "r \<in> set (users s1)" using find_set[OF assms(2)[unfolded find_user_def]] g(1) by simp
  have "kyc_step s s1" using kyc_step.direct[OF assms(7), of bc rid d] assms(1) by simp
  then have ok1: "kyc_ok (kycView s1)" using step_refines[OF _ assms(6)] moves_keep_ok[OF _ assms(6)] by blast
  note k = owner_kept[OF assms(8) ok1 g(2)]
  obtain x where x: "x \<in> set (sessions t)" "os_sessionId x = sid" "os_marketerId x = Some (u_userId r)"
    using owner_row[OF k(1)] by metis
  have "userView r \<in> userView ` set (users t)" using k(3) r by blast
  then obtain v where v: "v \<in> set (users t)" "userView r = userView v" by blast
  then have v_of: "u_userId v = u_userId r" "u_role v = ADMIN" using assms(3) by (simp_all add: userView_def)
  have o: "app_ok (kycView t) (appView a)" using k(2) assms(9) by (simp add: kyc_ok_def)
  have na: "ka_status a \<noteq> KycApplicationStatus.APPROVED"
  proof
    assume "ka_status a = KycApplicationStatus.APPROVED"
    then have "av_marketer (appView a)" using app_okD(2)[OF o] by simp
    then obtain w where w: "w \<in> set (users t)" "u_userId w = u_userId r" "u_role w = MARKETER"
      using app_okD(4)[OF o, of "sessionView x"] x assms(4,10) by (auto simp: needsMarketer_def or_null_def)
    then have "userView w = userView v" using user_key[OF k(2), of "userView w" "userView v"] v(1) v_of(1) by simp
    then show False using w(3) v_of(2) by (simp add: userView_def)
  qed
  moreover have "fc_status c \<noteq> FinancingStatus.ACTIVE" if c: "c \<in> set (contracts t)" "fc_kycApplicationId c = ka_kycApplicationId a" for c
  proof -
    have "contract_ok (kycView t) (contractView c)" using k(2) c(1) by (simp add: kyc_ok_def)
    show ?thesis
    proof
      assume "fc_status c = FinancingStatus.ACTIVE"
      then obtain b where b: "b \<in> set (ks_apps (kycView t))" "av_id b = ka_kycApplicationId a" "av_status b = KycApplicationStatus.APPROVED"
        using \<open>contract_ok (kycView t) (contractView c)\<close> c(2) unfolding contract_ok_def views by metis
      then have "b = appView a" using app_key[OF k(2) b(1), of "appView a"] assms(9) by simp
      then show False using b(3) na by simp
    qed
  qed
  ultimately show ?thesis by blast
qed

section \<open>A sample registration by an admin\<close>

definition sample_store :: db where
  "sample_store = empty_db\<lparr>users := [sample_buyer ''ad'' ADMIN None, sample_buyer ''mk'' MARKETER None], products := [sample_product],
     variants := [\<lparr>va_variantId = ''va'', va_productId = ''pr'', va_sku = ''sku'', va_stockQuantity = 1, va_isActive = True, va_price = 200, va_size = None, va_color = [], va_createdAt = 0\<rparr>],
     installmentPlans := [\<lparr>ip_planId = ''plan'', ip_productId = ''pr'', ip_durationMonths = 2, ip_interestPercentage = 10, ip_active = True\<rparr>]\<rparr>"

definition sample_walk_in :: "ident res \<times> db" where
  "sample_walk_in = registerDirect (\<lambda>w. ''#'' @ w) (sample_clock CHR ''s'' 1000) ''ad''
     \<lparr>dr_name = ''Ada'', dr_email = ''Ada@x.io'', dr_password = ''pw''\<rparr> sample_store"

definition sample_submitted :: "ident res \<times> db" where
  "sample_submitted = submitApplication 0 (\<lambda>p. Inl (BadRequestError p)) True (sample_clock CHR ''t'' 2000) ''s''
     \<lparr>ai_productId = ''pr'', ai_variantId = ''va'', ai_installmentPlanId = ''plan'', ai_idType = ''NIN'', ai_idNumber = ''1''\<rparr>
     (Some \<lparr>uf_originalname = ''a.pdf'', uf_path = ''/tmp/a'', uf_mimetype = ''application/pdf'', uf_size = 100, uf_hash = ''h''\<rparr>)
     (snd sample_walk_in)"

lemmas store_runs = sample_store_def sample_buyer_def sample_product_def sample_clock_def empty_db_def find_user_def
  find_session_def or_null_def row_simps Let_def

lemma sample_walk_in_ok: "fst sample_walk_in = Inr ''s''" "jsTrim (toLowerCase ''Ada@x.io'') = ''ada@x.io''"
proof -
  show m: "jsTrim (toLowerCase ''Ada@x.io'') = ''ada@x.io''" by code_simp
  show "fst sample_walk_in = Inr ''s''"
    by (simp add: sample_walk_in_def registerDirect_def m user_by_email_def createOrResumeOnboardingSession_def activeSession_def store_runs)
qed

lemma sample_submitted_ok:
  "\<exists>a. kycApplications (snd sample_submitted) = [a] \<and> ka_onboardingSessionId a = Some ''s''"
proof -
  have e: "toLowerCase (extname ''a.pdf'') = ''.pdf''" by code_simp
  show ?thesis
    by (simp add: sample_submitted_def sample_walk_in_def registerDirect_def sample_walk_in_ok(2) user_by_email_def
        createOrResumeOnboardingSession_def activeSession_def store_runs submitApplication_def e SESSION_MS_def
        persistApplication_def checkApplication_def persistTx_def transaction_def new_application_def)
qed

theorem admin_registrations_are_never_approved_witness:
  "\<exists>a. kycApplications (snd sample_submitted) = [a] \<and> ka_status a \<noteq> KycApplicationStatus.APPROVED"
proof -
  obtain a where a: "kycApplications (snd sample_submitted) = [a]" "ka_onboardingSessionId a = Some ''s''" using sample_submitted_ok by blast
  obtain t where t: "sample_walk_in = (Inr ''s'', t)" using sample_walk_in_ok(1) by (metis prod.collapse)
  have "find_user ''ad'' sample_store = Some (sample_buyer ''ad'' ADMIN None)" "kyc_ok (kycView sample_store)"
    "fresh_ids (sample_clock CHR ''s'' 1000) sample_store" "activeSession ''ada@x.io'' 1000 sample_store = None"
    by (simp_all add: store_runs kyc_ok_def fresh_ids_def activeSession_def)
  moreover have "fresh_ids (sample_clock CHR ''t'' 2000) t"
    using t by (auto simp: sample_walk_in_def registerDirect_def sample_walk_in_ok(2) user_by_email_def
        createOrResumeOnboardingSession_def activeSession_def store_runs fresh_ids_def)
  then have "kyc_step\<^sup>*\<^sup>* t (snd sample_submitted)"
    unfolding sample_submitted_def t snd_conv by (intro r_into_rtranclp kyc_step.submitted)
  ultimately show ?thesis
    using admin_registrations_are_never_approved[OF t[unfolded sample_walk_in_def], of "sample_buyer ''ad'' ADMIN None" "snd sample_submitted" a]
      a sample_walk_in_ok(2) by (simp add: sample_clock_def sample_buyer_def)
qed

section \<open>Decisions on a stale read\<close>

lemma final_run:
  assumes "checkApproval aid rid s = Inr (FinalApproval p)"
    "executeApproval tz hex e (FinalApproval p) s = (Inr KycApplicationStatus.APPROVED, s1)"
  shows "approveApplication tz hex e aid rid s = (Inr KycApplicationStatus.APPROVED, s1)"
  using assms by (simp add: approveApplication_def)

text \<open>
  Two reviewers who both read the application before either decided do not create two
  customers: the second final approval leaves users, sessions, contracts, installments and
  referrals as they are; it answers approved, adds a second audit entry and welcomes the customer
  again.
\<close>

theorem second_final_approval_creates_nothing:
  assumes "checkApproval aid rid s = Inr (FinalApproval p)" "checkApproval aid rid' s = Inr (FinalApproval p')"
    and "executeApproval tz hex e (FinalApproval p) s = (Inr KycApplicationStatus.APPROVED, s1)"
    and "executeApproval tz hex' e' (FinalApproval p') s1 = (r, s2)"
  shows "r = Inr KycApplicationStatus.APPROVED \<and> users s2 = users s1 \<and> sessions s2 = sessions s1 \<and> contracts s2 = contracts s1 \<and>
    installments s2 = installments s1 \<and> referrals s2 = referrals s1 \<and>
    length (kycAudit s2) = length (kycAudit s1) + 1 \<and>
    outbox s2 = outbox s1 @ [Event ''USER_REGISTERED'' (os_email (ap_session p'))]"
proof -
  note k = checkApproval_final[OF assms(1)] and k' = checkApproval_final[OF assms(2)]
  obtain c rows where "kycApplications s1 = update_where (\<lambda>a. ka_kycApplicationId a = aid) (approved_application e p) (kycApplications s)"
    by (rule approved_run[OF final_run[OF assms(1,3)]]) (rule that, simp add: checkApproval_final(1)[OF assms(1)] assms(1))
  from find_application_update[OF k(1) this] have f: "find_application aid s1 = Some (approved_application e p (ap_application p))" by simp
  have aid: "ka_kycApplicationId (ap_application p') = aid"
    using find_set[OF k'(1)[unfolded find_application_def]] by simp
  have "\<exists>g. finalApproveTx tz hex' e' p' s1 = (Inr KycApplicationStatus.APPROVED,
      audit_kyc aid ''ADMIN_APPROVED'' (ap_fileHash p') (Some (ap_reviewerId p')) (update_application aid g s1))"
    by (rule exI[of _ "\<lambda>a. (if ap_requiresMarketer p' then a
        else a\<lparr>ka_marketerApproved := True, ka_marketerApprovedAt := Some (env_now e')\<rparr>)
      \<lparr>ka_adminApproved := True, ka_adminApprovedAt := Some (env_now e')\<rparr>"]) (simp add: finalApproveTx_def Let_def aid f)
  then obtain g where "finalApproveTx tz hex' e' p' s1 = (Inr KycApplicationStatus.APPROVED,
      audit_kyc aid ''ADMIN_APPROVED'' (ap_fileHash p') (Some (ap_reviewerId p')) (update_application aid g s1))" ..
  then have "r = Inr KycApplicationStatus.APPROVED" "s2 = emit (Event ''USER_REGISTERED'' (os_email (ap_session p')))
      (audit_kyc aid ''ADMIN_APPROVED'' (ap_fileHash p') (Some (ap_reviewerId p')) (update_application aid g s1))"
    using assms(4) by (simp_all add: executeApproval_def transaction_def)
  then show ?thesis by (simp add: emit_def audit_kyc_def update_application_def)
qed

lemma rejected_contracts:
  assumes "c \<in> set (update_where (\<lambda>c. fc_kycApplicationId c = aid) (\<lambda>c. c\<lparr>fc_status := st, fc_rejectedAt := d\<rparr>) cs)"
    "fc_kycApplicationId c = aid"
  shows "fc_status c = st"
proof -
  obtain x where "c = (if fc_kycApplicationId x = aid then x\<lparr>fc_status := st, fc_rejectedAt := d\<rparr> else x)"
    using assms(1) unfolding set_update_where by (elim imageE) (rule that)
  then show ?thesis using assms(2) by (cases "fc_kycApplicationId x = aid") simp_all
qed

text \<open>
  A marketer's signature decided on a read from before a rejection reopens the rejected
  application: it is under approval again, signed, while its contract stays rejected.
\<close>

theorem late_signature_reopens_a_rejection:
  assumes "checkApproval aid mid s = Inr (MarketerApproval p)" "rejectApplication e aid rid reason s = (Inr (), s1)"
    and "executeApproval tz hex e' (MarketerApproval p) s1 = (r, s2)"
  shows "r = Inr APPROVAL_PROCESSING \<and>
    map_option (\<lambda>a. (ka_status a, ka_marketerApproved a, ka_rejectionReason a)) (find_application aid s2) =
      Some (APPROVAL_PROCESSING, True, Some reason) \<and>
    (\<forall>c \<in> set (contracts s2). fc_kycApplicationId c = aid \<longrightarrow> fc_status c = FinancingStatus.REJECTED)"
proof -
  note m = checkApproval_marketer[OF assms(1)]
  obtain a where a: "find_application aid s = Some a" "ap_application p = a"
    using assms(1) by (auto simp: checkApproval_def Let_def split: option.splits sum.splits if_splits)
  have aid: "ka_kycApplicationId a = aid" using find_set[OF a(1)[unfolded find_application_def]] by simp
  obtain fh adm t where tx: "rejectTx e aid adm fh reason s = (Inr (), t)" and s1: "\<exists>m. s1 = emit (Event ''USER_REGISTERED'' m) t"
    using assms(2) by (auto simp: rejectApplication_def transaction_def Let_def split: option.splits if_splits prod.splits sum.splits)
  have apps: "kycApplications s1 = update_where (\<lambda>a. ka_kycApplicationId a = aid)
      (\<lambda>a. a\<lparr>ka_status := KycApplicationStatus.REJECTED, ka_rejectionReason := Some reason\<rparr>) (kycApplications s)"
    "contracts s1 = update_where (\<lambda>c. fc_kycApplicationId c = aid)
      (\<lambda>c. c\<lparr>fc_status := FinancingStatus.REJECTED, fc_rejectedAt := Some (env_now e)\<rparr>) (contracts s)"
    using tx s1 by (auto simp: rejectTx_def Let_def emit_def split: if_splits)
  have f: "find_application aid s1 = Some (a\<lparr>ka_status := KycApplicationStatus.REJECTED, ka_rejectionReason := Some reason\<rparr>)"
    by (rule find_application_update[OF a(1) apps(1)]) simp
  have run: "r = Inr APPROVAL_PROCESSING" "contracts s2 = contracts s1"
    "kycApplications s2 = update_where (\<lambda>a. ka_kycApplicationId a = aid) (\<lambda>a. a\<lparr>ka_marketerApproved := True,
       ka_marketerApprovedAt := Some (env_now e'), ka_status := APPROVAL_PROCESSING\<rparr>) (kycApplications s1)"
    using assms(3) f by (auto simp: executeApproval_def transaction_def marketerApproveTx_def Let_def a(2) aid)
  have "find_application aid s2 = Some (a\<lparr>ka_status := APPROVAL_PROCESSING, ka_rejectionReason := Some reason,
      ka_marketerApproved := True, ka_marketerApprovedAt := Some (env_now e')\<rparr>)"
    using find_application_update[OF f run(3)] by simp
  then show ?thesis using run(1) rejected_contracts unfolding run(2) apps(2) by fastforce
qed

text \<open>
  A rejection decided on a read from before the final approval voids the active contract: the
  contract is rejected although its customer exists and every installment is still due.
\<close>

theorem late_rejection_voids_an_active_contract:
  assumes "approveApplication tz hex e aid rid s = (Inr KycApplicationStatus.APPROVED, s1)"
    and "rejectTx e' aid adminId fileHash reason s1 = (r, s2)"
  shows "r = Inr () \<and> users s2 = users s1 \<and> installments s2 = installments s1 \<and>
    map_option (\<lambda>a. (ka_status a, ka_userId a)) (find_application aid s2) = Some (KycApplicationStatus.REJECTED, Some (env_uuid e 0)) \<and>
    (\<forall>c \<in> set (contracts s2). fc_kycApplicationId c = aid \<longrightarrow> fc_status c = FinancingStatus.REJECTED)"
proof -
  obtain p where p: "checkApproval aid rid s = Inr (FinalApproval p)"
    "kycApplications s1 = update_where (\<lambda>a. ka_kycApplicationId a = aid) (approved_application e p) (kycApplications s)"
    by (rule approved_run[OF assms(1)]) (rule that)
  have f: "find_application aid s1 = Some (approved_application e p (ap_application p))"
    by (rule find_application_update[OF checkApproval_final(1)[OF p(1)] p(2)]) simp
  have run: "r = Inr ()" "users s2 = users s1" "installments s2 = installments s1"
    "kycApplications s2 = update_where (\<lambda>a. ka_kycApplicationId a = aid)
       (\<lambda>a. a\<lparr>ka_status := KycApplicationStatus.REJECTED, ka_rejectionReason := Some reason\<rparr>) (kycApplications s1)"
    "contracts s2 = update_where (\<lambda>c. fc_kycApplicationId c = aid)
       (\<lambda>c. c\<lparr>fc_status := FinancingStatus.REJECTED, fc_rejectedAt := Some (env_now e')\<rparr>) (contracts s1)"
    using assms(2) f by (auto simp: rejectTx_def Let_def split: if_splits)
  show ?thesis using run(1-3) find_application_update[OF f run(4)] rejected_contracts unfolding run(5) by fastforce
qed

section \<open>The merchant of a referred customer\<close>

text \<open>
  A customer who registered with a marketer's referral code has no company: whatever is
  collected later on the contract the approval activates, none of its installments is ever among
  the installments to settle of any company, so the merchant is never paid for it.
\<close>

theorem referred_sales_are_never_settled:
  assumes "registerViaReferral bc e0 d s0 = (Inr sid, s1)" "or_null (iv_referredByCode d) \<noteq> None"
    and "activeSession (jsTrim (toLowerCase (iv_email d))) (env_now e0) s0 = None" "kyc_ok (kycView s0)" "fresh_ids e0 s0"
    and "kyc_step\<^sup>*\<^sup>* s1 s" "find_application aid s = Some a" "ka_onboardingSessionId a = Some sid" "fresh_ids e s"
    and "approveApplication tz hex e aid rid s = (Inr KycApplicationStatus.APPROVED, s')"
    and "find (\<lambda>c. fc_kycApplicationId c = aid) (contracts s) = Some c"
  shows "\<forall>i \<in> set (eligibleInstallments co (s'\<lparr>installments := ins, payments := ps, settlementLines := ls\<rparr>)).
    in_financingContractId i \<noteq> fc_contractId c"
proof (intro ballI notI)
  fix i assume eligible: "i \<in> set (eligibleInstallments co (s'\<lparr>installments := ins, payments := ps, settlementLines := ls\<rparr>))"
    and i: "in_financingContractId i = fc_contractId c"
  obtain m where reg: "createOrResumeOnboardingSession bc e0 \<lparr>si_name = iv_name d, si_email = jsTrim (toLowerCase (iv_email d)),
      si_password = iv_password d, si_marketerId = m, si_companyId = None\<rparr> s0 = (sid, s1)"
    using assms(1,2) by (auto simp: registerViaReferral_def inviterOf_def Let_def split: option.splits sum.splits if_splits prod.splits)
  note g = registered_session[OF reg, simplified, OF assms(3)]
  have "kyc_step s0 s1" using kyc_step.invited[OF assms(5), of bc d] assms(1) by simp
  then have ok1: "kyc_ok (kycView s1)" using step_refines[OF _ assms(4)] moves_keep_ok[OF _ assms(4)] by blast
  note k = owner_kept[OF assms(6) ok1 g(2)]
  obtain y where y: "y \<in> set (sessions s)" "os_sessionId y = sid" "os_companyId y = None" using owner_row[OF k(1)] by metis
  obtain p c' rows where p: "checkApproval aid rid s = Inr (FinalApproval p)"
    "find (\<lambda>c. fc_kycApplicationId c = aid) (contracts s) = Some c'"
    "users s' = users s @ [new_customer e (ap_session p)]"
    "contracts s' = update_where (\<lambda>x. fc_contractId x = fc_contractId c') (activated_contract e) (contracts s)"
    by (rule approved_run[OF assms(10)]) (rule that)
  note q = checkApproval_final[OF p(1)]
  have "ap_session p \<in> set (sessions s)" using find_set[OF q(3)[unfolded find_session_def]] by simp
  then have "sessionView (ap_session p) = sessionView y"
    using session_key[OF k(2), of "sessionView (ap_session p)" "sessionView y"] y q(1,2) assms(7,8) by simp
  then have none: "os_companyId (ap_session p) = None" using y(3) by (metis views)
  let ?s = "s'\<lparr>installments := ins, payments := ps, settlementLines := ls\<rparr>"
  have c: "c' = c" using p(2) assms(11) by simp
  obtain x where x: "find_contract (fc_contractId c) s' = Some (activated_contract e x)"
    by (rule find_contract_after[OF assms(11) p(4)[unfolded c]]) (simp, rule that)
  have "find_contract (fc_contractId c) ?s = Some (activated_contract e x)" using x by (simp add: find_contract_def)
  moreover have "find (\<lambda>u. u_userId u = env_uuid e 0) (users s) = None" 
    using assms(9) unfolding fresh_ids_def find_None_iff by (metis image_eqI)
  then have "find_user (env_uuid e 0) ?s = Some (new_customer e (ap_session p))"
    by (simp add: find_user_def p(3) find_append new_customer_def)
  ultimately have "companyOfInstallment i ?s = None"
    using none by (simp add: companyOfInstallment_def i customerOf_def new_customer_def)
  then show False using eligible by (simp add: eligibleInstallments_def)
qed

section \<open>Witnesses of the races\<close>

definition sample_pending :: db where
  "sample_pending = sample_signed\<lparr>kycApplications := [sample_application\<lparr>ka_userId := None, ka_status := KycApplicationStatus.PENDING,
     ka_marketerApproved := False, ka_adminApproved := False\<rparr>]\<rparr>"

theorem second_final_approval_creates_nothing_witness:
  "\<exists>p s1 s2. executeApproval 0 ''hex'' (sample_clock CHR ''u'' 1000) (FinalApproval p) sample_signed = (Inr KycApplicationStatus.APPROVED, s1) \<and>
     executeApproval 0 ''hex'' (sample_clock CHR ''v'' 1001) (FinalApproval p) s1 = (Inr KycApplicationStatus.APPROVED, s2) \<and>
     users s2 = users s1 \<and> installments s2 = installments s1"
proof -
  obtain p where p: "checkApproval ''ka'' ''ad'' sample_signed = Inr (FinalApproval p)" using sample_check by blast
  obtain s1 where s1: "sample_approved = (Inr KycApplicationStatus.APPROVED, s1)" using sample_approved_ok by blast
  then have x: "executeApproval 0 ''hex'' (sample_clock CHR ''u'' 1000) (FinalApproval p) sample_signed = (Inr KycApplicationStatus.APPROVED, s1)"
    by (simp add: sample_approved_def approveApplication_def p)
  obtain r s2 where y: "executeApproval 0 ''hex'' (sample_clock CHR ''v'' 1001) (FinalApproval p) s1 = (r, s2)"
    by (metis prod.exhaust)
  from second_final_approval_creates_nothing[OF p p x y] x y show ?thesis by blast
qed

theorem late_signature_reopens_a_rejection_witness:
  "\<exists>p s1 s2. checkApproval ''ka'' ''mk'' sample_pending = Inr (MarketerApproval p) \<and>
     rejectApplication (sample_clock CHR ''r'' 1000) ''ka'' ''ad'' ''forged statement'' sample_pending = (Inr (), s1) \<and>
     executeApproval 0 ''hex'' (sample_clock CHR ''v'' 1001) (MarketerApproval p) s1 = (Inr APPROVAL_PROCESSING, s2)"
proof -
  obtain p where p: "checkApproval ''ka'' ''mk'' sample_pending = Inr (MarketerApproval p)"
    by (simp add: sample_pending_def signed_runs checkApproval_def reviewScope_def signatureOrder_def Let_def)
  obtain s1 where s1: "rejectApplication (sample_clock CHR ''r'' 1000) ''ka'' ''ad'' ''forged statement'' sample_pending = (Inr (), s1)"
    by (simp add: sample_pending_def signed_runs rejectApplication_def rejectTx_def transaction_def Let_def)
  obtain r s2 where y: "executeApproval 0 ''hex'' (sample_clock CHR ''v'' 1001) (MarketerApproval p) s1 = (r, s2)"
    by (metis prod.exhaust)
  from late_signature_reopens_a_rejection[OF p s1 y] p s1 y show ?thesis by blast
qed

theorem late_rejection_voids_an_active_contract_witness:
  "\<exists>s1 s2. sample_approved = (Inr KycApplicationStatus.APPROVED, s1) \<and>
     rejectTx (sample_clock CHR ''r'' 1001) ''ka'' ''ad'' ''h'' ''late'' s1 = (Inr (), s2) \<and> users s2 = users s1"
proof -
  obtain s1 where s1: "sample_approved = (Inr KycApplicationStatus.APPROVED, s1)" using sample_approved_ok by blast
  obtain r s2 where y: "rejectTx (sample_clock CHR ''r'' 1001) ''ka'' ''ad'' ''h'' ''late'' s1 = (r, s2)" by (metis prod.exhaust)
  from late_rejection_voids_an_active_contract[OF s1[unfolded sample_approved_def] y] s1 y show ?thesis by blast
qed

text \<open>A referred customer from the invitation to the approval.\<close>

definition sample_market :: db where
  "sample_market = sample_store\<lparr>users := [sample_buyer ''ad'' ADMIN None,
     (sample_buyer ''mk'' MARKETER None)\<lparr>u_createdById := Some ''ad'', u_referralCode := Some ''CODE''\<rparr>]\<rparr>"

definition sample_invite :: invite where
  "sample_invite = \<lparr>iv_name = ''Ada'', iv_email = ''Ada@x.io'', iv_password = ''pw'', iv_referredByCode = Some ''CODE'', iv_companyCode = None\<rparr>"

definition sample_invited :: "ident res \<times> db" where
  "sample_invited = registerViaReferral (\<lambda>w. ''#'' @ w) (sample_clock CHR ''s'' 1000) sample_invite sample_market"

definition sample_applied :: "ident res \<times> db" where
  "sample_applied = submitApplication 0 (\<lambda>p. Inl (BadRequestError p)) True (sample_clock CHR ''t'' 2000) ''s''
     \<lparr>ai_productId = ''pr'', ai_variantId = ''va'', ai_installmentPlanId = ''plan'', ai_idType = ''NIN'', ai_idNumber = ''1''\<rparr>
     (Some \<lparr>uf_originalname = ''a.pdf'', uf_path = ''/tmp/a'', uf_mimetype = ''application/pdf'', uf_size = 100, uf_hash = ''h''\<rparr>)
     (snd sample_invited)"

definition sample_half :: "KycApplicationStatus res \<times> db" where
  "sample_half = approveApplication 0 ''hex'' (sample_clock CHR ''m'' 3000) ''t'' ''mk'' (snd sample_applied)"

lemmas invited_runs = sample_market_def sample_invite_def sample_invited_def registerViaReferral_def inviterOf_def
  sample_walk_in_ok(2) user_by_email_def createOrResumeOnboardingSession_def activeSession_def store_runs SESSION_MS_def

lemmas applied_runs = sample_applied_def submitApplication_def persistApplication_def checkApplication_def persistTx_def
  transaction_def new_application_def new_contract_def update_session_def audit_kyc_def emit_def

lemmas half_runs = sample_half_def approveApplication_def checkApproval_def reviewScope_def signatureOrder_def
  marketerOfSession_def executeApproval_def marketerApproveTx_def find_application_def update_application_def fileHashOf_def

lemma sample_half_state:
  "\<exists>a c docs au ob. sample_half = (Inr APPROVAL_PROCESSING, sample_market\<lparr>
     sessions := [\<lparr>os_sessionId = ''s'', os_name = ''Ada'', os_email = ''ada@x.io'', os_passwordHash = ''#pw'',
       os_marketerId = Some ''mk'', os_companyId = None, os_status = KYC_SUBMITTED, os_expiresAt = 86401000, os_completedAt = None\<rparr>],
     kycApplications := [a], contracts := [c], documents := docs, kycAudit := au, outbox := ob\<rparr>) \<and>
     ka_kycApplicationId a = ''t'' \<and> ka_onboardingSessionId a = Some ''s'' \<and> ka_status a = APPROVAL_PROCESSING \<and>
     ka_marketerApproved a \<and> fc_kycApplicationId c = ''t'' \<and> fc_contractId c = ''tx'' \<and> fc_totalFinanced c = 220 \<and>
     fc_approvedDurationMonths c = 2"
proof -
  have e: "toLowerCase (extname ''a.pdf'') = ''.pdf''" by code_simp
  show ?thesis by (simp add: e half_runs applied_runs invited_runs)
qed

lemma sample_steps:
  "fresh_ids (sample_clock CHR ''s'' 1000) sample_market" "kyc_ok (kycView sample_market)"
  "\<exists>t. sample_invited = (Inr ''s'', t)" "kyc_step\<^sup>*\<^sup>* (snd sample_invited) (snd sample_half)"
proof -
  show "fresh_ids (sample_clock CHR ''s'' 1000) sample_market" "kyc_ok (kycView sample_market)" "\<exists>t. sample_invited = (Inr ''s'', t)"
    by (simp_all add: fresh_ids_def kyc_ok_def invited_runs)
  have e: "toLowerCase (extname ''a.pdf'') = ''.pdf''" by code_simp
  have "fresh_ids (sample_clock CHR ''t'' 2000) (snd sample_invited)" by (simp add: fresh_ids_def invited_runs)
  then have 1: "kyc_step (snd sample_invited) (snd sample_applied)" unfolding sample_applied_def by (rule kyc_step.submitted)
  have "fresh_ids (sample_clock CHR ''m'' 3000) (snd sample_applied)" by (simp add: fresh_ids_def e applied_runs invited_runs)
  then have 2: "kyc_step (snd sample_applied) (snd sample_half)" unfolding sample_half_def by (rule kyc_step.approved)
  show "kyc_step\<^sup>*\<^sup>* (snd sample_invited) (snd sample_half)" using 1 2 by simp
qed

lemma sample_sold: "\<exists>s'. approveApplication 0 ''hex'' (sample_clock CHR ''u'' 4000) ''t'' ''ad'' (snd sample_half) = (Inr KycApplicationStatus.APPROVED, s')"
proof -
  obtain a c docs au ob where h: "snd sample_half = sample_market\<lparr>
     sessions := [\<lparr>os_sessionId = ''s'', os_name = ''Ada'', os_email = ''ada@x.io'', os_passwordHash = ''#pw'',
       os_marketerId = Some ''mk'', os_companyId = None, os_status = KYC_SUBMITTED, os_expiresAt = 86401000, os_completedAt = None\<rparr>],
     kycApplications := [a], contracts := [c], documents := docs, kycAudit := au, outbox := ob\<rparr>"
    "ka_kycApplicationId a = ''t''" "ka_onboardingSessionId a = Some ''s''" "ka_status a = APPROVAL_PROCESSING"
    "ka_marketerApproved a" "fc_kycApplicationId c = ''t''" "fc_contractId c = ''tx''" "fc_totalFinanced c = 220"
    "fc_approvedDurationMonths c = 2"
    using sample_half_state by (metis snd_conv)
  obtain rows where r: "generateInstallmentSchedule 0 ''tx'' (fl (of_int 22000 / 100)) 2 (setDate 0 4000 (getDate 0 4000 + 3)) = Inr rows"
    "map se_sequence rows = [1..<nat 2 + 1]"
    using schedule_splits[of 22000 2 0 "''tx''" "setDate 0 4000 (getDate 0 4000 + 3)"] by auto
  let ?new = "map (\<lambda>(k, r). \<lparr>in_installmentId = env_uuid (sample_clock CHR ''u'' 4000) (k + 1),
      in_financingContractId = se_financingContractId r, in_dueDate = se_dueDate r, in_amount = se_amount r,
      in_sequence = se_sequence r, in_status = se_status r, in_paidAt = None\<rparr>) (enumerate 0 rows)"
  have "distinct (map in_sequence ?new)" unfolding new_rows(2) r(2) by simp
  then have d: "distinct (map (\<lambda>i. (in_financingContractId i, in_sequence i)) ?new)"
    by (auto simp: distinct_map inj_on_def)
  have n: "env_now (sample_clock CHR ''u'' 4000) = 4000" by (simp add: sample_clock_def)
  have r': "generateInstallmentSchedule 0 ''tx'' (fl 220) 2 (setDate 0 4000 (getDate 0 4000 + 3)) = Inr rows" using r(1) by simp
  show ?thesis
    by (simp add: h approveApplication_def checkApproval_def reviewScope_def signatureOrder_def marketerOfSession_def
        executeApproval_def transaction_def finalApproveTx_def Let_def signed_runs sample_market_def sample_store_def activateContract_def
        createUser_def new_customer_def createReferral_def createInstallments_def n r' d[simplified])
qed

theorem referred_sales_are_never_settled_witness:
  "\<exists>s'. approveApplication 0 ''hex'' (sample_clock CHR ''u'' 4000) ''t'' ''ad'' (snd sample_half) = (Inr KycApplicationStatus.APPROVED, s') \<and>
     (\<forall>i \<in> set (eligibleInstallments ''co'' s'). in_financingContractId i \<noteq> ''tx'')"
proof -
  obtain a c docs au ob where h: "snd sample_half = sample_market\<lparr>
     sessions := [\<lparr>os_sessionId = ''s'', os_name = ''Ada'', os_email = ''ada@x.io'', os_passwordHash = ''#pw'',
       os_marketerId = Some ''mk'', os_companyId = None, os_status = KYC_SUBMITTED, os_expiresAt = 86401000, os_completedAt = None\<rparr>],
     kycApplications := [a], contracts := [c], documents := docs, kycAudit := au, outbox := ob\<rparr>"
    "ka_kycApplicationId a = ''t''" "ka_onboardingSessionId a = Some ''s''" "fc_kycApplicationId c = ''t''" "fc_contractId c = ''tx''"
    using sample_half_state by (metis snd_conv)
  obtain t where t: "sample_invited = (Inr ''s'', t)" using sample_steps(3) by blast
  obtain s' where s': "approveApplication 0 ''hex'' (sample_clock CHR ''u'' 4000) ''t'' ''ad'' (snd sample_half) = (Inr KycApplicationStatus.APPROVED, s')"
    using sample_sold by blast
  have i: "or_null (iv_referredByCode sample_invite) \<noteq> None" "iv_email sample_invite = ''Ada@x.io''"
    "activeSession ''ada@x.io'' 1000 sample_market = None" "env_now (sample_clock CHR ''s'' 1000) = 1000"
    by (simp_all add: invited_runs)
  have f: "find_application ''t'' (snd sample_half) = Some a" "find (\<lambda>c. fc_kycApplicationId c = ''t'') (contracts (snd sample_half)) = Some c"
    "fresh_ids (sample_clock CHR ''u'' 4000) (snd sample_half)"
    by (simp_all add: h find_application_def fresh_ids_def sample_market_def sample_clock_def sample_buyer_def)
  have "\<forall>i \<in> set (eligibleInstallments ''co'' (s'\<lparr>installments := installments s', payments := payments s',
      settlementLines := settlementLines s'\<rparr>)). in_financingContractId i \<noteq> fc_contractId c"
    by (rule referred_sales_are_never_settled[OF t[unfolded sample_invited_def] i(1) _ sample_steps(2,1) _ f(1) h(3) f(3) s' f(2)])
      (use sample_steps(4) in \<open>simp_all add: i sample_walk_in_ok(2) t\<close>)
  then show ?thesis using s' h(5) by simp
qed

end
