(* ===== verification/Subscriptions.thy ===== *)
theory Subscriptions
  imports ReminderSettings PaymentWorker JsString
begin

text \<open>
  What a company pays the platform: \<open>src/core/services/subscription.service.ts\<close> (plans, the
  first payment of an onboarding, subscribing and renewing, the verification of a payment), the
  onboarding and subscription branches of the charge webhook, and the onboarding worker
  (\<open>src/job-workers/onboarding.worker.ts\<close>) that creates the company and its owner.  The stored
  amount of an intent is the plan's price: \<open>Number(x)\<close> and the column's decimal print the same.
\<close>

section \<open>Plans\<close>

definition find_plan :: "ident \<Rightarrow> db \<Rightarrow> subscription_plan_row option" where
  "find_plan pid s = find (\<lambda>p. sp_planId p = pid) (subscriptionPlans s)"

definition getActivePlans :: "db \<Rightarrow> subscription_plan_row list" where
  "getActivePlans s = sort_key sp_price (filter sp_active (subscriptionPlans s))"

text \<open>What is charged for a plan: the discount when it is positive, the price otherwise.\<close>

definition chargedAmount :: "subscription_plan_row \<Rightarrow> decimal" where
  "chargedAmount p =
     (case sp_discountPrice p of Some d \<Rightarrow> if 0 < d then d else sp_price p | None \<Rightarrow> sp_price p)"

text \<open>What a verification posts: the discount when there is one, be it 0.\<close>

definition postedAmount :: "subscription_plan_row \<Rightarrow> decimal" where
  "postedAmount p = (case sp_discountPrice p of Some d \<Rightarrow> d | None \<Rightarrow> sp_price p)"

definition setFullYear :: "int \<Rightarrow> time \<Rightarrow> int \<Rightarrow> time" where
  "setFullYear tz t year = atDay tz (MakeDay year (getMonth tz t) (getDate tz t)) (timeInDay tz t)"

definition intervalEnd :: "int \<Rightarrow> SubscriptionInterval \<Rightarrow> time \<Rightarrow> time" where
  "intervalEnd tz i t =
     (case i of
        WEEKLY \<Rightarrow> setDate tz t (getDate tz t + 7)
      | MONTHLY \<Rightarrow> setMonth tz t (getMonth tz t + 1)
      | YEARLY \<Rightarrow> setFullYear tz t (getFullYear tz t + 1))"

section \<open>Starting a payment\<close>

record checkout =
  ck_authorization_url :: string
  ck_access_code :: string
  ck_reference :: string

definition existingCheckout :: "intent_row \<Rightarrow> checkout" where
  "existingCheckout r = \<lparr>ck_authorization_url = (case pi_authorizationUrl r of None \<Rightarrow> '''' | Some u \<Rightarrow> u),
     ck_access_code = '''', ck_reference = (case pi_reference r of None \<Rightarrow> '''' | Some x \<Rightarrow> x)\<rparr>"

definition newCheckout :: "init_response \<Rightarrow> checkout" where
  "newCheckout r = \<lparr>ck_authorization_url = is_authorization_url r, ck_access_code = is_access_code r, ck_reference = is_reference r\<rparr>"

definition reusable :: "reservation \<Rightarrow> bool" where
  "reusable v \<longleftrightarrow> rv_isExisting v \<and> pi_status (rv_intent v) \<in> {INITIALIZED, PaymentInitStatus.PENDING}"

text \<open>Ask Paystack for the checkout of the reserved intent and mark it pending.\<close>

definition startCheckout ::
  "(init_request \<Rightarrow> init_response res) \<Rightarrow> env \<Rightarrow> ident \<Rightarrow> db \<Rightarrow> init_response res \<times> db" where
  "startCheckout provider e intentId s =
     (case initializePaystack provider e intentId True s of
        (Inl err, s1) \<Rightarrow> (Inl err, s1)
      | (Inr resp, s1) \<Rightarrow>
          (case markPending e intentId s1 of
             (Inl err, s2) \<Rightarrow> (Inl err, s2)
           | (Inr r, s2) \<Rightarrow> (Inr resp, s2)))"

definition find_onboarding :: "ident \<Rightarrow> db \<Rightarrow> onboarding_intent_row option" where
  "find_onboarding iid s = find (\<lambda>o'. oi_intentId o' = iid) (onboardingIntents s)"

definition update_onboarding :: "ident \<Rightarrow> (onboarding_intent_row \<Rightarrow> onboarding_intent_row) \<Rightarrow> db \<Rightarrow> db" where
  "update_onboarding iid f s =
     s\<lparr>onboardingIntents := update_where (\<lambda>o'. oi_intentId o' = iid) f (onboardingIntents s)\<rparr>"

definition onboardingParams :: "env \<Rightarrow> string \<Rightarrow> onboarding_intent_row \<Rightarrow> subscription_plan_row \<Rightarrow> reserve_params" where
  "onboardingParams e frontend oi plan =
     \<lparr>rp_type = ONBOARDING, rp_amount = chargedAmount plan, rp_customerId = None, rp_companyId = None,
      rp_installmentId = None, rp_onboardingId = Some (oi_intentId oi), rp_subscriptionId = None,
      rp_planId = Some (oi_planId oi), rp_idempotencyKey = Some (env_uuid e 2), rp_clientIdempotencyKey = None,
      rp_payload = JObject
        [(''email'', JString (oi_email oi)), (''callbackUrl'', JString (frontend @ ''/login'')),
         (''metadata'', JObject [(''intentId'', JString (oi_intentId oi))])]\<rparr>"

definition initializeOnboardingPayment ::
  "string \<Rightarrow> (bool \<Rightarrow> db \<Rightarrow> db) \<Rightarrow> (init_request \<Rightarrow> init_response res) \<Rightarrow> env \<Rightarrow> ident \<Rightarrow> db \<Rightarrow> checkout res \<times> db" where
  "initializeOnboardingPayment frontend race provider e intentId s =
     (case find_onboarding intentId s of
        None \<Rightarrow> (Inl (NotFoundError ''Onboarding intent not found''), s)
      | Some oi \<Rightarrow>
     (case find_plan (oi_planId oi) s of
        None \<Rightarrow> (Inl (NotFoundError ''Plan not found''), s)
      | Some plan \<Rightarrow>
     (case reserve race e (onboardingParams e frontend oi plan) s of
        (Inl err, s1) \<Rightarrow> (Inl err, s1)
      | (Inr v, s1) \<Rightarrow>
          if reusable v then (Inr (existingCheckout (rv_intent v)), s1)
          else (case startCheckout provider e (pi_intentId (rv_intent v)) s1 of
              (Inl err, s2) \<Rightarrow> (Inl err, s2)
            | (Inr resp, s2) \<Rightarrow>
                if \<exists>x \<in> set (onboardingIntents s2). oi_intentId x \<noteq> intentId \<and> oi_paymentReference x = Some (is_reference resp)
                then (Inl (UniqueViolation ''paymentReference''), s2)
                else (Inr (newCheckout resp),
                  update_onboarding intentId (\<lambda>x. x\<lparr>oi_paymentReference := Some (is_reference resp),
                    oi_status := PAYMENT_INITIALIZED\<rparr>) s2)))))"

definition subscriptionParams :: "env \<Rightarrow> string \<Rightarrow> ident \<Rightarrow> subscription_plan_row \<Rightarrow> string \<Rightarrow> reserve_params" where
  "subscriptionParams e frontend companyId plan email =
     \<lparr>rp_type = SUBSCRIPTION, rp_amount = chargedAmount plan, rp_customerId = None, rp_companyId = Some companyId,
      rp_installmentId = None, rp_onboardingId = None, rp_subscriptionId = None,
      rp_planId = Some (sp_planId plan), rp_idempotencyKey = Some (env_uuid e 2), rp_clientIdempotencyKey = None,
      rp_payload = JObject
        [(''email'', JString email), (''callbackUrl'', JString (frontend @ ''/subscription/verify'')),
         (''metadata'', JObject [(''companyId'', JString companyId), (''planId'', JString (sp_planId plan))])]\<rparr>"

text \<open>The partial unique index allows one PENDING subscription of a company; a refused row is ignored.\<close>

definition createPending :: "env \<Rightarrow> ident \<Rightarrow> ident \<Rightarrow> db \<Rightarrow> db" where
  "createPending e companyId planId s =
     (if \<exists>x \<in> set (subscriptions s). su_companyId x = companyId \<and> su_status x = SubscriptionStatus.PENDING then s
      else s\<lparr>subscriptions := subscriptions s @
          [\<lparr>su_subscriptionId = env_uuid e 3, su_companyId = companyId, su_planId = planId,
            su_status = SubscriptionStatus.PENDING, su_startDate = None, su_endDate = None, su_createdAt = env_now e\<rparr>]\<rparr>)"

definition createPendingSubscriptionAndIntent ::
  "string \<Rightarrow> (bool \<Rightarrow> db \<Rightarrow> db) \<Rightarrow> (init_request \<Rightarrow> init_response res) \<Rightarrow> env \<Rightarrow> ident \<Rightarrow> subscription_plan_row \<Rightarrow> string \<Rightarrow>
     db \<Rightarrow> checkout res \<times> db" where
  "createPendingSubscriptionAndIntent frontend race provider e companyId plan email s =
     (case reserve race e (subscriptionParams e frontend companyId plan email) s of
        (Inl err, s1) \<Rightarrow> (Inl err, s1)
      | (Inr v, s1) \<Rightarrow>
          if reusable v then (Inr (existingCheckout (rv_intent v)), s1)
          else (let s2 = (if rv_isExisting v then s1 else createPending e companyId (sp_planId plan) s1)
                in case startCheckout provider e (pi_intentId (rv_intent v)) s2 of
                     (Inl err, s3) \<Rightarrow> (Inl err, s3)
                   | (Inr resp, s3) \<Rightarrow> (Inr (newCheckout resp), s3)))"

definition initializeSubscription ::
  "string \<Rightarrow> (bool \<Rightarrow> db \<Rightarrow> db) \<Rightarrow> (init_request \<Rightarrow> init_response res) \<Rightarrow> env \<Rightarrow> ident \<Rightarrow> ident \<Rightarrow> string \<Rightarrow>
     db \<Rightarrow> checkout res \<times> db" where
  "initializeSubscription frontend race provider e companyId planId email s =
     (case find_plan planId s of
        None \<Rightarrow> (Inl (NotFoundError ''Subscription plan not found or inactive''), s)
      | Some plan \<Rightarrow>
          if \<not> sp_active plan then (Inl (NotFoundError ''Subscription plan not found or inactive''), s)
          else createPendingSubscriptionAndIntent frontend race provider e companyId plan email s)"

definition currentPlanId :: "ident \<Rightarrow> db \<Rightarrow> ident option" where
  "currentPlanId companyId s =
     (case sort_key (\<lambda>x. - su_createdAt x) (filter (\<lambda>x. su_companyId x = companyId) (subscriptions s)) of
        [] \<Rightarrow> None | x # xs \<Rightarrow> Some (su_planId x))"

definition renewSubscription ::
  "string \<Rightarrow> (bool \<Rightarrow> db \<Rightarrow> db) \<Rightarrow> (init_request \<Rightarrow> init_response res) \<Rightarrow> env \<Rightarrow> ident \<Rightarrow> ident option \<Rightarrow>
     db \<Rightarrow> checkout res \<times> db" where
  "renewSubscription frontend race provider e companyId planId s =
     (case find (\<lambda>u. u_companyId u = Some companyId \<and> u_role u = COMPANY) (users s) of
        None \<Rightarrow> (Inl (NotFoundError ''Company owner not found for this company.''), s)
      | Some owner \<Rightarrow>
     (case (case or_null planId of Some p \<Rightarrow> Some p | None \<Rightarrow> currentPlanId companyId s) of
        None \<Rightarrow> (Inl (BadRequestError ''No existing subscription found: use initializeSubscription instead.''), s)
      | Some target \<Rightarrow>
     (case find_plan target s of
        None \<Rightarrow> (Inl (NotFoundError ''Subscription plan not found or inactive''), s)
      | Some plan \<Rightarrow>
          if \<not> sp_active plan then (Inl (NotFoundError ''Subscription plan not found or inactive''), s)
          else createPendingSubscriptionAndIntent frontend race provider e companyId plan (u_email owner) s)))"

section \<open>Verifying a payment\<close>

definition validatePaystackTransaction ::
  "(string \<Rightarrow> verification res) \<Rightarrow> string \<Rightarrow> db \<Rightarrow> verification res" where
  "validatePaystackTransaction verify reference s =
     (case findByReference reference s of
        None \<Rightarrow> Inl (BadRequestError ''Payment intent not found for reference'')
      | Some r \<Rightarrow>
     (case verify reference of
        Inl err \<Rightarrow> Inl err
      | Inr v \<Rightarrow>
          if vf_status v \<noteq> ''success'' then Inl (BadRequestError ''Payment verification failed or incomplete'') else Inr v))"

definition update_subscription :: "(subscription_row \<Rightarrow> bool) \<Rightarrow> (subscription_row \<Rightarrow> subscription_row) \<Rightarrow> db \<Rightarrow> db" where
  "update_subscription p f s = s\<lparr>subscriptions := update_where p f (subscriptions s)\<rparr>"

definition setCompanyPlan :: "ident \<Rightarrow> string \<Rightarrow> db \<Rightarrow> db" where
  "setCompanyPlan companyId name s =
     s\<lparr>companies := update_where (\<lambda>c. co_companyId c = companyId) (\<lambda>c. c\<lparr>co_plan := name\<rparr>) (companies s)\<rparr>"

definition subscriptionEntries :: "decimal \<Rightarrow> ledger_entry list" where
  "subscriptionEntries x = [debit_entry ''PAYSTACK_CLEARING'' ASSET x, credit_entry ''PLATFORM_REVENUE'' REVENUE x]"

text \<open>
  Every other subscription of the company expires, then the pending one becomes active.  The
  intent is marked on its own connection, but nothing after it fails.
\<close>

definition activateSubscription ::
  "int \<Rightarrow> env \<Rightarrow> string \<Rightarrow> intent_row \<Rightarrow> ident \<Rightarrow> subscription_plan_row \<Rightarrow> subscription_row \<Rightarrow> db \<Rightarrow> string res \<times> db" where
  "activateSubscription tz e reference intent companyId plan pending s =
     (let s1 = update_subscription (\<lambda>x. su_companyId x = companyId \<and> su_subscriptionId x \<noteq> su_subscriptionId pending \<and>
            su_status x \<noteq> SubscriptionStatus.EXPIRED) (\<lambda>x. x\<lparr>su_status := SubscriptionStatus.EXPIRED\<rparr>) s;
          s2 = update_subscription (\<lambda>x. su_subscriptionId x = su_subscriptionId pending)
            (\<lambda>x. x\<lparr>su_status := SubscriptionStatus.ACTIVE, su_startDate := Some (env_now e),
                   su_endDate := Some (intervalEnd tz (sp_interval plan) (env_now e))\<rparr>) s1
      in if \<not> (\<exists>c \<in> set (companies s). co_companyId c = companyId) then (Inl (RecordNotFound ''Company''), s2)
         else (case markSuccess e (pi_intentId intent) (setCompanyPlan companyId (sp_name plan) s2) of
             (Inl err, s3) \<Rightarrow> (Inl err, s3)
           | (Inr r, s3) \<Rightarrow>
               (case record_in_book (env_uuid e) reference (''Subscription Payment: '' @ sp_name plan) (Some companyId)
                      (subscriptionEntries (postedAmount plan)) s3 of
                  (Inl err, s4) \<Rightarrow> (Inl err, s4)
                | (Inr u, s4) \<Rightarrow> (Inr (sp_name plan), s4))))"

definition verifySubscription ::
  "int \<Rightarrow> (string \<Rightarrow> verification res) \<Rightarrow> env \<Rightarrow> string \<Rightarrow> db \<Rightarrow> string res \<times> db" where
  "verifySubscription tz verify e reference s =
     (case findByReference reference s of
        None \<Rightarrow> (Inl (BadRequestError ''Payment intent not found''), s)
      | Some intent \<Rightarrow>
     (case validatePaystackTransaction verify reference s of
        Inl err \<Rightarrow> (Inl err, s)
      | Inr v \<Rightarrow>
     (case pi_planId intent of
        None \<Rightarrow> (Inl (PlainError ''Argument planId must not be null''), s)
      | Some planId \<Rightarrow>
     (case find_plan planId s of
        None \<Rightarrow> (Inl (PlainError ''Plan vanished''), s)
      | Some plan \<Rightarrow>
     (case pi_companyId intent of
        None \<Rightarrow> (Inl (PlainError ''Argument companyId must not be null''), s)
      | Some companyId \<Rightarrow>
     (case find (\<lambda>x. su_companyId x = companyId \<and> su_status x = SubscriptionStatus.PENDING) (subscriptions s) of
        None \<Rightarrow> (Inl (BadRequestError ''No pending subscription found for this company''), s)
      | Some pending \<Rightarrow>
          transaction (activateSubscription tz e reference intent companyId plan pending) s))))))"

section \<open>The charge webhook\<close>

text \<open>
  The dispatch on the normalized \<open>metadata.type\<close>; the installment branch is
  \<open>handleInstallmentCharge\<close>.
\<close>

datatype metadata_type = OnboardingPayment | InstallmentPayment | CompanySubscription | UnknownType

definition metadataTypeOf :: "string option \<Rightarrow> metadata_type" where
  "metadataTypeOf t =
     (case t of None \<Rightarrow> UnknownType
      | Some raw \<Rightarrow>
          (let n = toLowerCase (jsTrim raw) in
           if n = ''onboarding_payment'' then OnboardingPayment
           else if n = ''installment_payment'' then InstallmentPayment
           else if n = ''company_subscription'' then CompanySubscription else UnknownType))"

definition handleOnboardingCharge :: "string \<Rightarrow> db \<Rightarrow> webhook_result res \<times> db" where
  "handleOnboardingCharge reference s =
     (case find (\<lambda>x. oi_paymentReference x = Some reference) (onboardingIntents s) of
        None \<Rightarrow> (Inr (Ignored ''No intent found for reference''), s)
      | Some oi \<Rightarrow>
          if oi_status oi = OnboardingStatus.COMPLETED then (Inr (Ignored ''completed''), s)
          else (Inr Enqueued, emit (Job ''process-onboarding'' (oi_intentId oi))
                  (update_onboarding (oi_intentId oi) (\<lambda>x. x\<lparr>oi_status := OnboardingStatus.PAID\<rparr>) s)))"

definition handleChargeSuccess ::
  "int \<Rightarrow> (string \<Rightarrow> verification res) \<Rightarrow> env \<Rightarrow> string option \<Rightarrow> charge \<Rightarrow> db \<Rightarrow> webhook_result res \<times> db" where
  "handleChargeSuccess tz verify e type c s =
     (case metadataTypeOf type of
        OnboardingPayment \<Rightarrow> handleOnboardingCharge (ch_reference c) s
      | InstallmentPayment \<Rightarrow> handleInstallmentCharge e c s
      | CompanySubscription \<Rightarrow>
          (case verifySubscription tz verify e (ch_reference c) s of
             (Inl err, s') \<Rightarrow> (Inl err, s')
           | (Inr n, s') \<Rightarrow> (Inr (Ignored ''verified''), s'))
      | UnknownType \<Rightarrow> (Inr (Ignored ''Unknown metadata type''), s))"

section \<open>The onboarding worker\<close>

datatype onboarding_result = AlreadyProcessed | ExistingUser | Onboarded ident ident

text \<open>Only a monthly plan moves the end date; every other interval ends when it starts.\<close>

definition onboardingEnd :: "int \<Rightarrow> SubscriptionInterval \<Rightarrow> time \<Rightarrow> time" where
  "onboardingEnd tz i t = (if i = MONTHLY then setMonth tz t (getMonth tz t + 1) else t)"

definition new_owner :: "env \<Rightarrow> onboarding_intent_row \<Rightarrow> user_row" where
  "new_owner e oi = \<lparr>u_userId = env_uuid e 1, u_email = oi_email oi, u_name = Some (oi_adminName oi), u_role = COMPANY,
     u_companyId = Some (env_uuid e 0), u_createdById = None, u_referredByMarketerId = None, u_referralCode = None,
     u_password = oi_passwordHash oi, u_active = True, u_forcePasswordChange = False, u_deletedAt = None, u_createdAt = env_now e\<rparr>"

definition new_company :: "env \<Rightarrow> onboarding_intent_row \<Rightarrow> company_row" where
  "new_company e oi = \<lparr>co_companyId = env_uuid e 0, co_name = oi_companyName oi, co_plan = ''Pending'', co_publicSignupCode = None, co_status = CompanyStatus.ACTIVE,
     co_suspendedAt = None, co_suspendedReason = None, co_suspendedById = None, co_createdAt = env_now e\<rparr>"

definition onboardingTx :: "int \<Rightarrow> env \<Rightarrow> string \<Rightarrow> onboarding_intent_row \<Rightarrow> intent_row \<Rightarrow> db \<Rightarrow> onboarding_result res \<times> db" where
  "onboardingTx tz e reference oi intent s =
     (let complete = update_onboarding (oi_intentId oi) (\<lambda>x. x\<lparr>oi_status := OnboardingStatus.COMPLETED\<rparr>)
      in if \<exists>u \<in> set (users s). u_email u = oi_email oi
         then (case markSuccessLenient e (pi_intentId intent) (complete s) of
             (Inl err, s1) \<Rightarrow> (Inl err, s1)
           | (Inr u, s1) \<Rightarrow> (Inr ExistingUser, s1))
         else
           (let s1 = s\<lparr>companies := companies s @ [new_company e oi], users := users s @ [new_owner e oi]\<rparr>
            in case find_plan (oi_planId oi) s1 of
                 None \<Rightarrow> (Inl (PlainError ''Cannot read properties of null''), s1)
               | Some plan \<Rightarrow>
                   (let s2 = setCompanyPlan (env_uuid e 0) (sp_name plan) (s1\<lparr>subscriptions := subscriptions s1 @
                          [\<lparr>su_subscriptionId = env_uuid e 2, su_companyId = env_uuid e 0, su_planId = sp_planId plan,
                            su_status = SubscriptionStatus.ACTIVE, su_startDate = Some (env_now e),
                            su_endDate = Some (onboardingEnd tz (sp_interval plan) (env_now e)), su_createdAt = env_now e\<rparr>]\<rparr>)
                    in case record_in_book (\<lambda>i. env_uuid e (i + 3)) reference ''Onboarding Subscription'' (Some (env_uuid e 0))
                           (subscriptionEntries (sp_price plan)) s2 of
                         (Inl err, s3) \<Rightarrow> (Inl err, s3)
                       | (Inr u, s3) \<Rightarrow>
                           (case markSuccessLenient e (pi_intentId intent) (complete s3) of
                              (Inl err, s4) \<Rightarrow> (Inl err, s4)
                            | (Inr u, s4) \<Rightarrow> (Inr (Onboarded (env_uuid e 0) (env_uuid e 1)), s4)))))"

definition processOnboarding ::
  "int \<Rightarrow> (string \<Rightarrow> verification res) \<Rightarrow> env \<Rightarrow> ident \<Rightarrow> string \<Rightarrow> db \<Rightarrow> onboarding_result res \<times> db" where
  "processOnboarding tz verify e intentId reference s =
     (case find_onboarding intentId s of
        None \<Rightarrow> (Inl (PlainError ''Intent not found''), s)
      | Some oi \<Rightarrow>
          if oi_status oi = OnboardingStatus.COMPLETED then (Inr AlreadyProcessed, s)
          else (case findByReference reference s of
              None \<Rightarrow> (Inl (PlainError ''PaymentIntent not found for reference''), s)
            | Some intent \<Rightarrow>
           (case validatePaystackTransaction verify reference s of
              Inl err \<Rightarrow> (Inl err, s)
            | Inr v \<Rightarrow>
           (case transaction (onboardingTx tz e reference oi intent) s of
              (Inr (Onboarded c u), s1) \<Rightarrow> (Inr (Onboarded c u), emit (Event ''COMPANY_ONBOARDED'' (oi_email oi)) s1)
            | (r, s1) \<Rightarrow> (r, s1)))))"

text \<open>The listener on a failed job; only the last attempt counts, errors of the intent are logged.\<close>

definition onOnboardingFailed :: "env \<Rightarrow> nat \<Rightarrow> nat \<Rightarrow> ident \<Rightarrow> string \<Rightarrow> db \<Rightarrow> unit res \<times> db" where
  "onOnboardingFailed e attemptsMade attempts intentId reference s =
     (if attemptsMade \<noteq> attempts then (Inr (), s)
      else if find_onboarding intentId s = None then (Inl (RecordNotFound ''OnboardingIntent''), s)
      else
        (let s1 = update_onboarding intentId (\<lambda>x. x\<lparr>oi_status := OnboardingStatus.FAILED\<rparr>) s
         in case findByReference reference s1 of
              None \<Rightarrow> (Inr (), s1)
            | Some r \<Rightarrow>
                (case markFailed e (pi_intentId r) None s1 of
                   (Inl err, s2) \<Rightarrow> (Inr (), s2)
                 | (Inr r', s2) \<Rightarrow> (Inr (), s2))))"

end
