(* ===== verification/SubscriptionRenewal.thy ===== *)
theory SubscriptionRenewal
  imports Subscriptions
begin

text \<open>
  The daily scan of the companies' subscriptions,
  \<open>src/shared/job-workers/subscription-renewal.worker.ts\<close>: three reminders before the end, the
  move to the grace period, its reminder and the restriction.  The six scans run one after the
  other here, in the order they are started.
\<close>

section \<open>The scans\<close>

record renewal_notice =
  rn_event :: string
  rn_companyId :: ident
  rn_companyEmails :: "string list"
  rn_companyName :: string
  rn_planName :: string
  rn_endDate :: "time option"
  rn_gracePeriodDays :: "int option"

definition basePayload :: "string \<Rightarrow> subscription_row \<Rightarrow> db \<Rightarrow> renewal_notice" where
  "basePayload event sub s =
     \<lparr>rn_event = event, rn_companyId = su_companyId sub,
      rn_companyEmails = map u_email (filter (\<lambda>u. u_companyId u = Some (su_companyId sub) \<and> u_role u = COMPANY) (users s)),
      rn_companyName = (case find (\<lambda>c. co_companyId c = su_companyId sub) (companies s) of None \<Rightarrow> '''' | Some c \<Rightarrow> co_name c),
      rn_planName = (case find_plan (su_planId sub) s of None \<Rightarrow> '''' | Some p \<Rightarrow> sp_name p),
      rn_endDate = su_endDate sub, rn_gracePeriodDays = None\<rparr>"

definition gracePeriodDaysOf :: "subscription_row \<Rightarrow> db \<Rightarrow> int" where
  "gracePeriodDaysOf sub s = (case find_plan (su_planId sub) s of None \<Rightarrow> 0 | Some p \<Rightarrow> sp_gracePeriodDays p)"

definition graceExpiresAt :: "subscription_row \<Rightarrow> db \<Rightarrow> time option" where
  "graceExpiresAt sub s = map_option (\<lambda>t. t + gracePeriodDaysOf sub s * 24 * 60 * 60 * 1000) (su_endDate sub)"

text \<open>A loop over what a scan found: the sent notice, if the Redis key was free, and the next state.\<close>

fun noticeEach ::
  "string \<Rightarrow> (subscription_row \<Rightarrow> db \<Rightarrow> renewal_notice option) \<Rightarrow> time \<Rightarrow> subscription_row list \<Rightarrow> db \<Rightarrow>
     renewal_notice list \<times> db" where
  "noticeEach type f now [] s = ([], s)"
| "noticeEach type f now (x # xs) s =
     (case f x s of
        None \<Rightarrow> noticeEach type f now xs s
      | Some n \<Rightarrow>
          (case ensureReminderSent now (su_subscriptionId x) type s of
             (False, s1) \<Rightarrow> noticeEach type f now xs s1
           | (True, s1) \<Rightarrow>
               (case noticeEach type f now xs (emit (Event (rn_event n) (su_companyId x)) s1) of
                  (ns, s2) \<Rightarrow> (n # ns, s2))))"

definition endingIn :: "int \<Rightarrow> time \<Rightarrow> db \<Rightarrow> subscription_row list" where
  "endingIn days now s =
     (case dayWindow days now of (start, until) \<Rightarrow>
        filter (\<lambda>x. su_status x = SubscriptionStatus.ACTIVE \<and>
          (case su_endDate x of None \<Rightarrow> False | Some t \<Rightarrow> start \<le> t \<and> t < until)) (subscriptions s))"

definition process7DayReminder :: "time \<Rightarrow> db \<Rightarrow> renewal_notice list \<times> db" where
  "process7DayReminder now s =
     noticeEach ''7day'' (\<lambda>x s. Some (basePayload ''SUBSCRIPTION_RENEWAL_REMINDER_7DAY'' x s)) now (endingIn 7 now s) s"

definition process3DayReminder :: "time \<Rightarrow> db \<Rightarrow> renewal_notice list \<times> db" where
  "process3DayReminder now s =
     noticeEach ''3day'' (\<lambda>x s. Some (basePayload ''SUBSCRIPTION_RENEWAL_REMINDER_3DAY'' x s)) now (endingIn 3 now s) s"

definition processExpiresTodayReminder :: "time \<Rightarrow> db \<Rightarrow> renewal_notice list \<times> db" where
  "processExpiresTodayReminder now s =
     noticeEach ''expires-today'' (\<lambda>x s. Some (basePayload ''SUBSCRIPTION_EXPIRES_TODAY'' x s)) now (endingIn 0 now s) s"

definition moveSubscription :: "SubscriptionStatus \<Rightarrow> ident \<Rightarrow> db \<Rightarrow> db" where
  "moveSubscription st sid s = update_subscription (\<lambda>x. su_subscriptionId x = sid) (\<lambda>x. x\<lparr>su_status := st\<rparr>) s"

definition ended :: "time \<Rightarrow> subscription_row \<Rightarrow> bool" where
  "ended now x \<longleftrightarrow> su_status x = SubscriptionStatus.ACTIVE \<and> (case su_endDate x of None \<Rightarrow> False | Some t \<Rightarrow> t < now)"

definition processGracePeriodTransition :: "time \<Rightarrow> db \<Rightarrow> renewal_notice list \<times> db" where
  "processGracePeriodTransition now s =
     (let subs = filter (ended now) (subscriptions s)
      in (map (\<lambda>x. (basePayload ''SUBSCRIPTION_GRACE_PERIOD_STARTED'' x s)\<lparr>rn_gracePeriodDays := Some (gracePeriodDaysOf x s)\<rparr>) subs,
          foldl (\<lambda>t x. emit (Event ''SUBSCRIPTION_GRACE_PERIOD_STARTED'' (su_companyId x))
            (moveSubscription GRACE_PERIOD (su_subscriptionId x) t)) s subs))"

definition daysLeft :: "time \<Rightarrow> time \<Rightarrow> int" where
  "daysLeft graceEnd now = \<lceil>of_int (graceEnd - now) / of_int (24 * 60 * 60 * 1000) :: rat\<rceil>"

definition processGracePeriodExpiryReminder :: "time \<Rightarrow> db \<Rightarrow> renewal_notice list \<times> db" where
  "processGracePeriodExpiryReminder now s =
     noticeEach ''grace-expiring''
       (\<lambda>x s. case graceExpiresAt x s of None \<Rightarrow> None
          | Some t \<Rightarrow> if daysLeft t now \<noteq> 1 then None
              else Some ((basePayload ''SUBSCRIPTION_GRACE_PERIOD_EXPIRING'' x s)\<lparr>rn_gracePeriodDays := Some (gracePeriodDaysOf x s)\<rparr>))
       now (filter (\<lambda>x. su_status x = GRACE_PERIOD) (subscriptions s)) s"

definition graceOver :: "time \<Rightarrow> db \<Rightarrow> subscription_row \<Rightarrow> bool" where
  "graceOver now s x \<longleftrightarrow> su_status x = GRACE_PERIOD \<and> (case graceExpiresAt x s of None \<Rightarrow> False | Some t \<Rightarrow> t \<le> now)"

definition processRestrictedTransition :: "time \<Rightarrow> db \<Rightarrow> renewal_notice list \<times> db" where
  "processRestrictedTransition now s =
     (let subs = filter (graceOver now s) (subscriptions s)
      in (map (\<lambda>x. basePayload ''SUBSCRIPTION_RESTRICTED'' x s) subs,
          foldl (\<lambda>t x. emit (Event ''SUBSCRIPTION_RESTRICTED'' (su_companyId x))
            (moveSubscription RESTRICTED (su_subscriptionId x) t)) s subs))"

definition runRenewal :: "time \<Rightarrow> db \<Rightarrow> renewal_notice list \<times> db" where
  "runRenewal now s =
     (case process7DayReminder now s of (n1, s1) \<Rightarrow>
     (case process3DayReminder now s1 of (n2, s2) \<Rightarrow>
     (case processExpiresTodayReminder now s2 of (n3, s3) \<Rightarrow>
     (case processGracePeriodTransition now s3 of (n4, s4) \<Rightarrow>
     (case processGracePeriodExpiryReminder now s4 of (n5, s5) \<Rightarrow>
     (case processRestrictedTransition now s5 of (n6, s6) \<Rightarrow>
        (n1 @ n2 @ n3 @ n4 @ n5 @ n6, s6)))))))"

section \<open>What one run does to a subscription\<close>

text \<open>The status a subscription has after a run at \<open>now\<close>.\<close>

definition nextStatus :: "time \<Rightarrow> db \<Rightarrow> subscription_row \<Rightarrow> SubscriptionStatus" where
  "nextStatus now s x =
     (let grace = (if ended now x then GRACE_PERIOD else su_status x)
      in if grace = GRACE_PERIOD \<and> (case graceExpiresAt x s of None \<Rightarrow> False | Some t \<Rightarrow> t \<le> now) then RESTRICTED else grace)"

lemma redis_frame [simp]:
  "subscriptions (snd (ensureReminderSent now i ty s)) = subscriptions s"
  "subscriptionPlans (snd (ensureReminderSent now i ty s)) = subscriptionPlans s"
  by (simp_all add: ensureReminderSent_def Let_def)

lemma notice_frame:
  "subscriptions (snd (noticeEach ty f now xs s)) = subscriptions s \<and>
   subscriptionPlans (snd (noticeEach ty f now xs s)) = subscriptionPlans s"
proof (induction xs arbitrary: s)
  case (Cons x xs)
  have e: "subscriptions s1 = subscriptions s \<and> subscriptionPlans s1 = subscriptionPlans s"
    if "ensureReminderSent now (su_subscriptionId x) ty s = (b, s1)" for b s1
    using redis_frame[of now "su_subscriptionId x" ty s] that by simp
  show ?case
    using e Cons.IH by (auto split: option.splits prod.splits bool.splits) (metis (no_types, lifting) emit_simps snd_conv)+
qed simp

lemma scan_frames:
  "subscriptions (snd (process7DayReminder now s)) = subscriptions s"
  "subscriptionPlans (snd (process7DayReminder now s)) = subscriptionPlans s"
  "subscriptions (snd (process3DayReminder now s)) = subscriptions s"
  "subscriptionPlans (snd (process3DayReminder now s)) = subscriptionPlans s"
  "subscriptions (snd (processExpiresTodayReminder now s)) = subscriptions s"
  "subscriptionPlans (snd (processExpiresTodayReminder now s)) = subscriptionPlans s"
  "subscriptions (snd (processGracePeriodExpiryReminder now s)) = subscriptions s"
  "subscriptionPlans (snd (processGracePeriodExpiryReminder now s)) = subscriptionPlans s"
  by (simp_all add: process7DayReminder_def process3DayReminder_def processExpiresTodayReminder_def
      processGracePeriodExpiryReminder_def notice_frame)

lemma find_plan_frame: "subscriptionPlans t = subscriptionPlans s \<Longrightarrow> graceExpiresAt x t = graceExpiresAt x s"
  by (simp add: graceExpiresAt_def gracePeriodDaysOf_def find_plan_def)

lemma moveSubscription_simps [simp]:
  "subscriptions (moveSubscription st i s) = update_where (\<lambda>x. su_subscriptionId x = i) (\<lambda>x. x\<lparr>su_status := st\<rparr>) (subscriptions s)"
  "subscriptionPlans (moveSubscription st i s) = subscriptionPlans s"
  by (simp_all add: moveSubscription_def update_subscription_def)

lemma graceExpiresAt_status [simp]: "graceExpiresAt (x\<lparr>su_status := st\<rparr>) s = graceExpiresAt x s"
  by (simp add: graceExpiresAt_def gracePeriodDaysOf_def)

lemma same_status [simp]: "x\<lparr>su_status := su_status x\<rparr> = x"
  by simp

text \<open>A loop that moves the rows it selected, by their unique identifier.\<close>

lemma move_fold_frame:
  "subscriptionPlans (foldl (\<lambda>t x. emit (Event ev (su_companyId x)) (moveSubscription st (su_subscriptionId x) t)) s xs) = subscriptionPlans s"
  by (induction xs arbitrary: s) simp_all

lemma move_fold:
  "subscriptions (foldl (\<lambda>t x. emit (Event ev (su_companyId x)) (moveSubscription st (su_subscriptionId x) t)) s xs) =
     update_where (\<lambda>y. su_subscriptionId y \<in> su_subscriptionId ` set xs) (\<lambda>y. y\<lparr>su_status := st\<rparr>) (subscriptions s)"
proof (induction xs arbitrary: s)
  case Nil then show ?case by (simp add: update_where_no_match)
next
  case (Cons x xs)
  have "update_where (\<lambda>y. su_subscriptionId y \<in> I) (\<lambda>y. y\<lparr>su_status := st\<rparr>)
      (update_where (\<lambda>y. su_subscriptionId y = i) (\<lambda>y. y\<lparr>su_status := st\<rparr>) ys) =
    update_where (\<lambda>y. su_subscriptionId y \<in> insert i I) (\<lambda>y. y\<lparr>su_status := st\<rparr>) ys" for i I ys
    by (induction ys) (auto simp: row_simps)
  then show ?case by (simp add: Cons.IH)
qed

lemma selected_move:
  assumes "distinct (map su_subscriptionId xs)"
  shows "update_where (\<lambda>y. su_subscriptionId y \<in> su_subscriptionId ` set (filter P xs)) f xs = update_where P f xs"
  unfolding update_where_def
proof (rule map_cong[OF refl])
  fix y assume "y \<in> set xs"
  then have "su_subscriptionId y \<in> su_subscriptionId ` set (filter P xs) \<longleftrightarrow> P y"
    using assms by (auto simp: distinct_map inj_on_def)
  then show "(if su_subscriptionId y \<in> su_subscriptionId ` set (filter P xs) then f y else y) = (if P y then f y else y)" by simp
qed

lemma run_rows:
  assumes "distinct (map su_subscriptionId (subscriptions s))"
  shows "subscriptions (snd (runRenewal now s)) = map (\<lambda>x. x\<lparr>su_status := nextStatus now s x\<rparr>) (subscriptions s)"
    "subscriptionPlans (snd (runRenewal now s)) = subscriptionPlans s"
proof -
  obtain n1 s1 where 1: "process7DayReminder now s = (n1, s1)" by force
  obtain n2 s2 where 2: "process3DayReminder now s1 = (n2, s2)" by force
  obtain n3 s3 where 3: "processExpiresTodayReminder now s2 = (n3, s3)" by force
  obtain n4 s4 where 4: "processGracePeriodTransition now s3 = (n4, s4)" by force
  obtain n5 s5 where 5: "processGracePeriodExpiryReminder now s4 = (n5, s5)" by force
  obtain n6 s6 where 6: "processRestrictedTransition now s5 = (n6, s6)" by force
  have f3: "subscriptions s3 = subscriptions s" "subscriptionPlans s3 = subscriptionPlans s"
    using scan_frames(1,2)[of now s] scan_frames(3,4)[of now s1] scan_frames(5,6)[of now s2] by (simp_all add: 1 2 3)
  have r4: "subscriptions s4 = update_where (ended now) (\<lambda>y. y\<lparr>su_status := GRACE_PERIOD\<rparr>) (subscriptions s)"
    "subscriptionPlans s4 = subscriptionPlans s"
  proof -
    have "s4 = foldl (\<lambda>t x. emit (Event ''SUBSCRIPTION_GRACE_PERIOD_STARTED'' (su_companyId x))
        (moveSubscription GRACE_PERIOD (su_subscriptionId x) t)) s3 (filter (ended now) (subscriptions s3))"
      using 4 by (simp add: processGracePeriodTransition_def Let_def)
    then show "subscriptions s4 = update_where (ended now) (\<lambda>y. y\<lparr>su_status := GRACE_PERIOD\<rparr>) (subscriptions s)"
      "subscriptionPlans s4 = subscriptionPlans s"
      by (simp_all only: move_fold move_fold_frame f3 selected_move[OF assms])
  qed
  have r5: "subscriptions s5 = subscriptions s4" "subscriptionPlans s5 = subscriptionPlans s"
    using scan_frames(7,8)[of now s4] r4(2) by (simp_all add: 5)
  have d: "distinct (map su_subscriptionId (subscriptions s5))" using assms by (simp add: r5 r4 map_update_where)
  have r6: "subscriptions s6 = update_where (graceOver now s5) (\<lambda>y. y\<lparr>su_status := RESTRICTED\<rparr>) (subscriptions s5)"
    "subscriptionPlans s6 = subscriptionPlans s"
  proof -
    have "s6 = foldl (\<lambda>t x. emit (Event ''SUBSCRIPTION_RESTRICTED'' (su_companyId x))
        (moveSubscription RESTRICTED (su_subscriptionId x) t)) s5 (filter (graceOver now s5) (subscriptions s5))"
      using 6 by (simp add: processRestrictedTransition_def Let_def)
    then show "subscriptions s6 = update_where (graceOver now s5) (\<lambda>y. y\<lparr>su_status := RESTRICTED\<rparr>) (subscriptions s5)"
      "subscriptionPlans s6 = subscriptionPlans s"
      by (simp_all only: move_fold move_fold_frame r5(2) selected_move[OF d])
  qed
  have g: "graceExpiresAt x s5 = graceExpiresAt x s" for x by (rule find_plan_frame[OF r5(2)])
  have pt: "(let y = (if ended now x then x\<lparr>su_status := GRACE_PERIOD\<rparr> else x)
      in if graceOver now s5 y then y\<lparr>su_status := RESTRICTED\<rparr> else y) = x\<lparr>su_status := nextStatus now s x\<rparr>" for x
    by (cases "ended now x") (simp_all add: graceOver_def nextStatus_def Let_def g)
  have "update_where (graceOver now s5) (\<lambda>y. y\<lparr>su_status := RESTRICTED\<rparr>)
      (update_where (ended now) (\<lambda>y. y\<lparr>su_status := GRACE_PERIOD\<rparr>) ys) = map (\<lambda>x. x\<lparr>su_status := nextStatus now s x\<rparr>) ys" for ys
    using pt by (simp add: update_where_def Let_def)
  then show "subscriptions (snd (runRenewal now s)) = map (\<lambda>x. x\<lparr>su_status := nextStatus now s x\<rparr>) (subscriptions s)"
    "subscriptionPlans (snd (runRenewal now s)) = subscriptionPlans s"
    by (simp_all add: runRenewal_def 1 2 3 4 5 6 r6 r5 r4)
qed

section \<open>Properties of the scan\<close>

text \<open>
  One run moves every subscription exactly as its dates demand, and touches nothing else of it: an
  active one whose end has passed goes to the grace period, one in the grace period (also one just
  moved) whose grace days are over is restricted, all others stay.
\<close>

theorem renewal_run_is_pointwise:
  assumes "distinct (map su_subscriptionId (subscriptions s))"
  shows "subscriptions (snd (runRenewal now s)) = map (\<lambda>x. x\<lparr>su_status := nextStatus now s x\<rparr>) (subscriptions s)"
  using run_rows(1)[OF assms] .

definition sample_plan :: subscription_plan_row where
  "sample_plan = \<lparr>sp_planId = ''gold'', sp_name = ''Gold'', sp_price = 500, sp_discountPrice = Some 400, sp_interval = YEARLY,
     sp_active = True, sp_gracePeriodDays = 7, sp_createdAt = 0\<rparr>"

definition sample_subscribed :: db where
  "sample_subscribed = empty_db\<lparr>subscriptionPlans := [sample_plan],
     subscriptions := [\<lparr>su_subscriptionId = ''su'', su_companyId = ''co'', su_planId = ''gold'', su_status = SubscriptionStatus.ACTIVE,
       su_startDate = Some 0, su_endDate = Some 1000, su_createdAt = 0\<rparr>]\<rparr>"

theorem renewal_run_is_pointwise_witness:
  "map su_status (subscriptions (snd (runRenewal 2000 sample_subscribed))) = [GRACE_PERIOD] \<and>
   map su_status (subscriptions (snd (runRenewal 604801000 sample_subscribed))) = [RESTRICTED]"
proof -
  have d: "distinct (map su_subscriptionId (subscriptions sample_subscribed))" by (simp add: sample_subscribed_def)
  show ?thesis
    unfolding renewal_run_is_pointwise[OF d]
    by (simp add: sample_subscribed_def sample_plan_def nextStatus_def ended_def graceExpiresAt_def gracePeriodDaysOf_def find_plan_def)
qed

end
