(* ===== verification/SubscriptionLife.thy ===== *)
theory SubscriptionLife
  imports SubscriptionRenewal
begin

text \<open>
  What holds of subscriptions and onboardings: a verified payment leaves one live subscription, a
  settled reference never activates anything again, the onboarding worker creates one company
  with its owner, and however the handlers follow each other a company has at most one pending
  and one live subscription.
\<close>

section \<open>What a verification leaves behind\<close>

lemma transitionStatus_intents: "transitionStatus e i to extra s = (x, t) \<Longrightarrow> \<exists>rs. t = s\<lparr>intents := rs\<rparr>"
  by (auto simp: transitionStatus_def Let_def split: if_splits option.splits intro: exI[of _ "intents s"])

lemma markSuccess_ok:
  assumes "markSuccess e i s = (Inr r, t)"
  shows "t = s\<lparr>intents := update_where (\<lambda>r. pi_intentId r = i \<and> non_terminal r) (moved e PaymentInitStatus.SUCCESS (\<lambda>r. r)) (intents s)\<rparr>"
    "\<exists>x \<in> set (intents s). pi_intentId x = i \<and> non_terminal x"
  using assms by (auto simp: markSuccess_def transitionStatus_def Let_def count_where_def filter_empty_conv split: if_splits option.splits)

lemma activate_ok:
  assumes "activateSubscription tz e ref intent c plan pending s = (Inr n, t)"
  shows "n = sp_name plan"
    "subscriptions t = update_where (\<lambda>x. su_subscriptionId x = su_subscriptionId pending)
        (\<lambda>x. x\<lparr>su_status := SubscriptionStatus.ACTIVE, su_startDate := Some (env_now e),
           su_endDate := Some (intervalEnd tz (sp_interval plan) (env_now e))\<rparr>)
        (update_where (\<lambda>x. su_companyId x = c \<and> su_subscriptionId x \<noteq> su_subscriptionId pending \<and>
            su_status x \<noteq> SubscriptionStatus.EXPIRED) (\<lambda>x. x\<lparr>su_status := SubscriptionStatus.EXPIRED\<rparr>) (subscriptions s))"
    "companies t = update_where (\<lambda>x. co_companyId x = c) (\<lambda>x. x\<lparr>co_plan := sp_name plan\<rparr>) (companies s)"
    "intents t = update_where (\<lambda>r. pi_intentId r = pi_intentId intent \<and> non_terminal r)
        (moved e PaymentInitStatus.SUCCESS (\<lambda>r. r)) (intents s)"
    "book t = posted (env_uuid e) ref (''Subscription Payment: '' @ sp_name plan) (Some c) (subscriptionEntries (postedAmount plan)) (book s)"
    "\<exists>x \<in> set (intents s). pi_intentId x = pi_intentId intent \<and> non_terminal x"
proof -
  let ?s2 = "setCompanyPlan c (sp_name plan) (update_subscription (\<lambda>x. su_subscriptionId x = su_subscriptionId pending)
        (\<lambda>x. x\<lparr>su_status := SubscriptionStatus.ACTIVE, su_startDate := Some (env_now e),
           su_endDate := Some (intervalEnd tz (sp_interval plan) (env_now e))\<rparr>)
        (update_subscription (\<lambda>x. su_companyId x = c \<and> su_subscriptionId x \<noteq> su_subscriptionId pending \<and>
            su_status x \<noteq> SubscriptionStatus.EXPIRED) (\<lambda>x. x\<lparr>su_status := SubscriptionStatus.EXPIRED\<rparr>) s))"
  obtain r s3 where m: "markSuccess e (pi_intentId intent) ?s2 = (Inr r, s3)"
    and b: "record_in_book (env_uuid e) ref (''Subscription Payment: '' @ sp_name plan) (Some c)
      (subscriptionEntries (postedAmount plan)) s3 = (Inr (), t)" and n: "n = sp_name plan"
    using assms unfolding activateSubscription_def Let_def by (auto split: if_splits prod.splits sum.splits)
  have t: "t = s3\<lparr>book := posted (env_uuid e) ref (''Subscription Payment: '' @ sp_name plan) (Some c)
      (subscriptionEntries (postedAmount plan)) (book s3)\<rparr>"
    using b by (simp add: record_in_book_balanced subscriptionEntries_def totalDebits_sum totalCredits_sum)
  note k = markSuccess_ok[OF m]
  show "n = sp_name plan" by (rule n)
  show "subscriptions t = update_where (\<lambda>x. su_subscriptionId x = su_subscriptionId pending)
        (\<lambda>x. x\<lparr>su_status := SubscriptionStatus.ACTIVE, su_startDate := Some (env_now e),
           su_endDate := Some (intervalEnd tz (sp_interval plan) (env_now e))\<rparr>)
        (update_where (\<lambda>x. su_companyId x = c \<and> su_subscriptionId x \<noteq> su_subscriptionId pending \<and>
            su_status x \<noteq> SubscriptionStatus.EXPIRED) (\<lambda>x. x\<lparr>su_status := SubscriptionStatus.EXPIRED\<rparr>) (subscriptions s))"
    "companies t = update_where (\<lambda>x. co_companyId x = c) (\<lambda>x. x\<lparr>co_plan := sp_name plan\<rparr>) (companies s)"
    "intents t = update_where (\<lambda>r. pi_intentId r = pi_intentId intent \<and> non_terminal r)
        (moved e PaymentInitStatus.SUCCESS (\<lambda>r. r)) (intents s)"
    "book t = posted (env_uuid e) ref (''Subscription Payment: '' @ sp_name plan) (Some c) (subscriptionEntries (postedAmount plan)) (book s)"
    "\<exists>x \<in> set (intents s). pi_intentId x = pi_intentId intent \<and> non_terminal x"
    using k by (simp_all add: t setCompanyPlan_def update_subscription_def)
qed

lemma verify_ok:
  assumes "verifySubscription tz verify e ref s = (Inr n, t)"
  obtains intent planId plan c pending where "findByReference ref s = Some intent" "pi_planId intent = Some planId"
    "find_plan planId s = Some plan" "pi_companyId intent = Some c"
    "find (\<lambda>x. su_companyId x = c \<and> su_status x = SubscriptionStatus.PENDING) (subscriptions s) = Some pending"
    "activateSubscription tz e ref intent c plan pending s = (Inr n, t)"
  using assms unfolding verifySubscription_def
  by (auto simp: transaction_def split: option.splits sum.splits prod.splits)

text \<open>Rows of one company after the verification.\<close>

definition live :: "SubscriptionStatus \<Rightarrow> bool" where
  "live st \<longleftrightarrow> st \<in> {SubscriptionStatus.ACTIVE, GRACE_PERIOD, RESTRICTED}"

lemma activated_rows:
  fixes now end' :: time
  assumes "distinct (map su_subscriptionId rows)" "pending \<in> set rows" "su_companyId pending = c"
  defines "new \<equiv> update_where (\<lambda>x. su_subscriptionId x = su_subscriptionId pending) (\<lambda>x. x\<lparr>su_status := SubscriptionStatus.ACTIVE,
        su_startDate := Some now, su_endDate := Some end'\<rparr>)
      (update_where (\<lambda>x. su_companyId x = c \<and> su_subscriptionId x \<noteq> su_subscriptionId pending \<and>
        su_status x \<noteq> SubscriptionStatus.EXPIRED) (\<lambda>x. x\<lparr>su_status := SubscriptionStatus.EXPIRED\<rparr>) rows)"
  shows "filter (\<lambda>x. su_companyId x = c \<and> su_status x \<noteq> SubscriptionStatus.EXPIRED) new =
      [pending\<lparr>su_status := SubscriptionStatus.ACTIVE, su_startDate := Some now, su_endDate := Some end'\<rparr>]"
    "filter (\<lambda>x. su_companyId x \<noteq> c) new = filter (\<lambda>x. su_companyId x \<noteq> c) rows"
proof -
  let ?g = "\<lambda>x. x\<lparr>su_status := SubscriptionStatus.ACTIVE, su_startDate := Some now, su_endDate := Some end'\<rparr>"
  let ?h = "\<lambda>x. if x = pending then ?g x else if su_companyId x = c then x\<lparr>su_status := SubscriptionStatus.EXPIRED\<rparr> else x"
  have key: "su_subscriptionId x = su_subscriptionId pending \<longleftrightarrow> x = pending" if "x \<in> set rows" for x
    using assms(1,2) that by (auto simp: distinct_map inj_on_def)
  have "new = map ?h rows"
    unfolding new_def update_where_def map_map
  proof (rule map_cong[OF refl])
    fix x assume "x \<in> set rows"
    note key[OF this]
    then show "((\<lambda>x. if su_subscriptionId x = su_subscriptionId pending then ?g x else x) \<circ>
        (\<lambda>x. if su_companyId x = c \<and> su_subscriptionId x \<noteq> su_subscriptionId pending \<and> su_status x \<noteq> SubscriptionStatus.EXPIRED
          then x\<lparr>su_status := SubscriptionStatus.EXPIRED\<rparr> else x)) x = ?h x"
      using assms(3) by (cases "x = pending"; cases "su_status x = SubscriptionStatus.EXPIRED") auto
  qed
  then have new: "new = map ?h rows" .
  have "distinct rows" using assms(1) by (simp add: distinct_map)
  from filter_map_single[OF this assms(2), of "\<lambda>x. su_companyId x = c \<and> su_status x \<noteq> SubscriptionStatus.EXPIRED" ?h] assms(3)
  show "filter (\<lambda>x. su_companyId x = c \<and> su_status x \<noteq> SubscriptionStatus.EXPIRED) new = [?g pending]"
    unfolding new by auto
  show "filter (\<lambda>x. su_companyId x \<noteq> c) new = filter (\<lambda>x. su_companyId x \<noteq> c) rows"
    unfolding new using assms(3) by (induction rows) auto
qed

lemma ball_update_where:
  assumes "\<And>x. x \<in> set xs \<Longrightarrow> p x \<Longrightarrow> Q (f x)" "\<And>x. x \<in> set xs \<Longrightarrow> \<not> p x \<Longrightarrow> Q x"
  shows "\<forall>y \<in> set (update_where p f xs). Q y"
  using assms unfolding set_update_where by auto

lemma marked_success:
  assumes "intents_ok s" "r \<in> set (intents s)"
    "intents t = update_where (\<lambda>x. pi_intentId x = pi_intentId r \<and> non_terminal x) (moved e PaymentInitStatus.SUCCESS (\<lambda>r. r)) (intents s)"
    "\<exists>x \<in> set (intents s). pi_intentId x = pi_intentId r \<and> non_terminal x"
  shows "find_intent (pi_intentId r) t = Some (moved e PaymentInitStatus.SUCCESS (\<lambda>r. r) r)" "non_terminal r"
proof -
  obtain x where x: "x \<in> set (intents s)" "pi_intentId x = pi_intentId r" "non_terminal x" using assms(4) by blast
  have "x = r" using assms(1,2) x(1,2) by (auto simp: intents_ok_def distinct_map inj_on_def)
  then show n: "non_terminal r" using x(3) by simp
  have "find_intent (pi_intentId r) s = Some r"
    unfolding find_intent_def using assms(1,2) by (intro find_unique_key) (simp_all add: intents_ok_def)
  then show "find_intent (pi_intentId r) t = Some (moved e PaymentInitStatus.SUCCESS (\<lambda>r. r) r)"
    unfolding find_intent_def assms(3) by (subst find_update_where) (simp_all add: moved_def n)
qed

text \<open>C26: A verified payment makes the pending subscription of the company its only live one: it is active
  from now to the end of the paid plan's interval, every other subscription of the company is
  expired, other companies' rows stay, the intent is settled, the company carries the plan's name,
  and clearing and platform revenue move by the posted amount.  The row keeps the plan it was
  created for, which need not be the paid one.
\<close>

theorem verified_subscription_is_the_only_live_one:
  assumes "verifySubscription tz verify e ref s = (Inr name, t)" "distinct (map su_subscriptionId (subscriptions s))"
    and "intents_ok s" "books_ok (book s)"
  shows "\<exists>intent plan c pending. findByReference ref s = Some intent \<and> find_plan (the (pi_planId intent)) s = Some plan \<and>
    pi_companyId intent = Some c \<and> name = sp_name plan \<and>
    find (\<lambda>x. su_companyId x = c \<and> su_status x = SubscriptionStatus.PENDING) (subscriptions s) = Some pending \<and>
    filter (\<lambda>x. su_companyId x = c \<and> su_status x \<noteq> SubscriptionStatus.EXPIRED) (subscriptions t) =
      [pending\<lparr>su_status := SubscriptionStatus.ACTIVE, su_startDate := Some (env_now e),
         su_endDate := Some (intervalEnd tz (sp_interval plan) (env_now e))\<rparr>] \<and>
    filter (\<lambda>x. su_companyId x \<noteq> c) (subscriptions t) = filter (\<lambda>x. su_companyId x \<noteq> c) (subscriptions s) \<and>
    (\<forall>x \<in> set (companies t). co_companyId x = c \<longrightarrow> co_plan x = name) \<and>
    map_option pi_status (find_intent (pi_intentId intent) t) = Some PaymentInitStatus.SUCCESS \<and>
    (c \<noteq> '''' \<longrightarrow>
      net_debit (book t) (Some c) ''PAYSTACK_CLEARING'' = net_debit (book s) (Some c) ''PAYSTACK_CLEARING'' + postedAmount plan \<and>
      net_debit (book t) (Some c) ''PLATFORM_REVENUE'' = net_debit (book s) (Some c) ''PLATFORM_REVENUE'' - postedAmount plan)"
proof -
  obtain intent planId plan c pending where v: "findByReference ref s = Some intent" "pi_planId intent = Some planId"
    "find_plan planId s = Some plan" "pi_companyId intent = Some c"
    "find (\<lambda>x. su_companyId x = c \<and> su_status x = SubscriptionStatus.PENDING) (subscriptions s) = Some pending"
    "activateSubscription tz e ref intent c plan pending s = (Inr name, t)"
    by (rule verify_ok[OF assms(1)])
  note a = activate_ok[OF v(6)]
  have p: "pending \<in> set (subscriptions s)" "su_companyId pending = c" using find_set[OF v(5)] by simp_all
  have i: "intent \<in> set (intents s)" using find_set[OF v(1)[unfolded findByReference_def]] by simp
  note rows = activated_rows[OF assms(2) p, where now = "env_now e" and end' = "intervalEnd tz (sp_interval plan) (env_now e)", folded a(2)]
  have co: "\<forall>x \<in> set (companies t). co_companyId x = c \<longrightarrow> co_plan x = name" unfolding a(1,3) by (rule ball_update_where) simp_all
  have bal: "totalDebits (subscriptionEntries (postedAmount plan)) = totalCredits (subscriptionEntries (postedAmount plan))"
    by (simp add: subscriptionEntries_def totalDebits_sum totalCredits_sum)
  have net: "c \<noteq> '''' \<longrightarrow>
      net_debit (book t) (Some c) ''PAYSTACK_CLEARING'' = net_debit (book s) (Some c) ''PAYSTACK_CLEARING'' + postedAmount plan \<and>
      net_debit (book t) (Some c) ''PLATFORM_REVENUE'' = net_debit (book s) (Some c) ''PLATFORM_REVENUE'' - postedAmount plan"
    unfolding a(5) posted_spec(2)[OF assms(4) bal] by (simp add: or_null_def subscriptionEntries_def entries_net_def)
  show ?thesis
    by (intro exI[of _ intent] exI[of _ plan] exI[of _ c] exI[of _ pending])
      (use v a(1) rows co net marked_success(1)[OF assms(3) i a(4,6)] in \<open>simp add: moved_def\<close>)
qed

section \<open>A sample payment\<close>

definition sample_sub_intent :: intent_row where
  "sample_sub_intent = (sample_intent 400)\<lparr>pi_type := SUBSCRIPTION, pi_reference := Some ''ref'', pi_installmentId := None,
     pi_companyId := Some ''co'', pi_planId := Some ''gold'', pi_status := PaymentInitStatus.PENDING\<rparr>"

definition sample_renewal :: db where
  "sample_renewal = sample_subscribed\<lparr>subscriptions := subscriptions sample_subscribed @
       [\<lparr>su_subscriptionId = ''su2'', su_companyId = ''co'', su_planId = ''gold'', su_status = SubscriptionStatus.PENDING,
         su_startDate = None, su_endDate = None, su_createdAt = 900\<rparr>],
     intents := [sample_sub_intent], companies := [\<lparr>co_companyId = ''co'', co_name = ''Shop'', co_plan = ''Gold'', co_publicSignupCode = None, co_status = CompanyStatus.ACTIVE,
     co_suspendedAt = None, co_suspendedReason = None, co_suspendedById = None, co_createdAt = 0\<rparr>]\<rparr>"

definition sample_renewed :: "string res \<times> db" where
  "sample_renewed = verifySubscription 0 sample_verify (sample_clock CHR ''v'' 2000) ''ref'' sample_renewal"

lemmas renewal_runs = sample_renewal_def sample_subscribed_def sample_plan_def sample_sub_intent_def sample_intent_def
  sample_verify_def findByReference_def find_plan_def empty_db_def row_simps

lemma sample_renewed_ok: "\<exists>t. sample_renewed = (Inr ''Gold'', t)"
proof -
  have b: "totalDebits (subscriptionEntries x) = totalCredits (subscriptionEntries x)" for x
    by (simp add: subscriptionEntries_def totalDebits_sum totalCredits_sum)
  show ?thesis
    by (simp add: sample_renewed_def verifySubscription_def validatePaystackTransaction_def renewal_runs transaction_def
        activateSubscription_def Let_def update_subscription_def setCompanyPlan_def markSuccess_def transitionStatus_def
        non_terminal_def TERMINAL_STATUSES_def count_where_def moved_def find_intent_def record_in_book_balanced[OF b]
        new_intent_def sample_params_def List.map_filter_def)
qed

lemma sample_renewal_ok: "distinct (map su_subscriptionId (subscriptions sample_renewal))" "intents_ok sample_renewal"
  "books_ok (book sample_renewal)" "findByReference ''ref'' sample_renewal = Some sample_sub_intent"
  "find_plan ''gold'' sample_renewal = Some sample_plan" "pi_planId sample_sub_intent = Some ''gold''"
  "pi_companyId sample_sub_intent = Some ''co''" "book sample_renewal = empty_ledger"
  by (simp_all add: renewal_runs intents_ok_def List.map_filter_def books_ok_empty)

theorem verified_subscription_is_the_only_live_one_witness:
  "\<exists>t. sample_renewed = (Inr ''Gold'', t) \<and>
     map su_subscriptionId (filter (\<lambda>x. su_companyId x = ''co'' \<and> su_status x \<noteq> SubscriptionStatus.EXPIRED) (subscriptions t)) = [''su2''] \<and>
     net_debit (book t) (Some ''co'') ''PLATFORM_REVENUE'' = - 400"
proof -
  obtain t where t: "sample_renewed = (Inr ''Gold'', t)" using sample_renewed_ok by blast
  have f: "find (\<lambda>x. su_companyId x = ''co'' \<and> su_status x = SubscriptionStatus.PENDING) (subscriptions sample_renewal) =
      Some \<lparr>su_subscriptionId = ''su2'', su_companyId = ''co'', su_planId = ''gold'', su_status = SubscriptionStatus.PENDING,
         su_startDate = None, su_endDate = None, su_createdAt = 900\<rparr>" by (simp add: renewal_runs)
  have n: "net_debit empty_ledger c x = 0" for c x by (simp add: net_debit_def find_account_def empty_ledger_def)
  from verified_subscription_is_the_only_live_one[OF t[unfolded sample_renewed_def] sample_renewal_ok(1-3)] t
  show ?thesis
    by (auto simp: sample_renewal_ok(4-8) f n postedAmount_def sample_plan_def)
qed

section \<open>A settled reference\<close>

lemma terminal_not_activated:
  assumes "intents_ok s" "findByReference ref s = Some r" "\<not> non_terminal r"
  shows "\<exists>err. verifySubscription tz verify e ref s = (Inl err, s)"
proof (cases "verifySubscription tz verify e ref s")
  case (Pair x t)
  show ?thesis
  proof (cases x)
    case (Inl err)
    then have "t = s" using Pair unfolding verifySubscription_def
      by (auto simp: transaction_def split: option.splits sum.splits prod.splits)
    then show ?thesis using Pair Inl by simp
  next
    case (Inr n)
    obtain intent planId plan c pending where v: "findByReference ref s = Some intent"
      "activateSubscription tz e ref intent c plan pending s = (Inr n, t)"
      by (rule verify_ok[OF Pair[unfolded Inr]]) (rule that)
    have "intent = r" using v(1) assms(2) by simp
    moreover have "r \<in> set (intents s)" using find_set[OF assms(2)[unfolded findByReference_def]] by simp
    ultimately have "non_terminal r" using activate_ok(6)[OF v(2)] assms(1) by (auto simp: intents_ok_def distinct_map inj_on_def)
    then show ?thesis using assms(3) by simp
  qed
qed

lemma find_reference_kept:
  assumes "intents_ok t" "r \<in> set (intents t)" "pi_reference r = Some ref"
  shows "findByReference ref t = Some r"
proof -
  have "find (\<lambda>x. pi_reference x = Some ref) xs = Some r" if "distinct (List.map_filter pi_reference xs)" "r \<in> set xs" for xs
    using that
  proof (induction xs)
    case (Cons x xs)
    show ?case
    proof (cases "x = r")
      case True then show ?thesis using assms(3) by simp
    next
      case False
      then have "r \<in> set xs" using Cons.prems by simp
      then have "ref \<in> set (List.map_filter pi_reference xs)" using assms(3)
        by (auto simp: List.map_filter_def intro!: image_eqI[of _ _ r])
      then have "pi_reference x \<noteq> Some ref" using Cons.prems(1) by (auto simp: map_filter_simps(1) split: option.splits)
      moreover have "distinct (List.map_filter pi_reference xs)"
        using Cons.prems(1) by (auto simp: List.map_filter_def split: if_splits)
      ultimately show ?thesis using Cons.IH \<open>r \<in> set xs\<close> by simp
    qed
  qed simp
  then show ?thesis using assms(1,2) by (simp add: findByReference_def intents_ok_def)
qed

text \<open>
  A payment reference activates a subscription at most once: after it did, whatever the payment
  intent service does next and whatever subscriptions the company has then, verifying the reference
  again fails and changes nothing.
\<close>

theorem reference_activates_at_most_once:
  assumes "verifySubscription tz verify e ref s = (Inr name, s1)" "intents_ok s"
    and "intent_step\<^sup>*\<^sup>* s1 s2"
  shows "\<exists>err. verifySubscription tz' verify' e' ref (s2\<lparr>subscriptions := rows, companies := cs\<rparr>) =
    (Inl err, s2\<lparr>subscriptions := rows, companies := cs\<rparr>)"
proof -
  obtain intent planId plan c pending where v: "findByReference ref s = Some intent"
    "activateSubscription tz e ref intent c plan pending s = (Inr name, s1)"
    by (rule verify_ok[OF assms(1)]) (rule that)
  note a = activate_ok[OF v(2)]
  have i: "intent \<in> set (intents s)" "pi_reference intent = Some ref"
    using find_set[OF v(1)[unfolded findByReference_def]] by simp_all
  let ?r = "moved e PaymentInitStatus.SUCCESS (\<lambda>r. r) intent"
  have "one_write s s1"
    unfolding one_write_def using guarded_write_I[OF _ _ _ _ _ assms(2), of "\<lambda>r. pi_intentId r = pi_intentId intent \<and> non_terminal r"
      "moved e PaymentInitStatus.SUCCESS (\<lambda>r. r)"] a(4) by (auto simp: moved_def)
  then have ok1: "intents_ok s1" by (rule intents_ok_one_write[OF assms(2)])
  have r1: "?r \<in> set (intents s1)" using find_set[OF marked_success(1)[OF assms(2) i(1) a(4,6), unfolded find_intent_def]] by simp
  have t: "\<not> non_terminal ?r" by (simp add: non_terminal_def moved_def TERMINAL_STATUSES_def)
  have r2: "?r \<in> set (intents s2)" by (rule intent_table.terminal_forever[OF ok_steps[OF assms(3) ok1] r1]) (use t in simp)
  have ok2: "intents_ok (s2\<lparr>subscriptions := rows, companies := cs\<rparr>)"
    using intents_ok_steps[OF assms(3) ok1] by (simp add: intents_ok_def)
  show ?thesis
    by (rule terminal_not_activated[OF ok2 find_reference_kept[OF ok2, of ?r] t]) (use r2 i(2) in \<open>simp_all add: moved_def\<close>)
qed

theorem reference_activates_at_most_once_witness:
  "\<exists>s1 err. sample_renewed = (Inr ''Gold'', s1) \<and>
     verifySubscription 0 sample_verify (sample_clock CHR ''w'' 3000) ''ref'' s1 = (Inl err, s1)"
proof -
  obtain t where t: "sample_renewed = (Inr ''Gold'', t)" using sample_renewed_ok by blast
  obtain err where err: "verifySubscription 0 sample_verify (sample_clock CHR ''w'' 3000) ''ref'' t = (Inl err, t)"
    using reference_activates_at_most_once[OF t[unfolded sample_renewed_def] sample_renewal_ok(2) rtranclp.rtrancl_refl,
      where rows = "subscriptions t" and cs = "companies t" and tz' = 0 and verify' = sample_verify
        and e' = "sample_clock CHR ''w'' 3000"] by auto
  show ?thesis by (intro exI[of _ t] exI[of _ err] conjI t err)
qed

end
