(* ===== verification/CompanyOnboarding.thy ===== *)
theory CompanyOnboarding
  imports SubscriptionLife
begin

text \<open>
  What the onboarding worker of \<open>src/job-workers/onboarding.worker.ts\<close> leaves behind, and the
  invariant of all handlers that write subscriptions: a company has at most one pending and at
  most one live subscription.
\<close>

section \<open>What a finished onboarding job wrote\<close>

lemma markSuccessLenient_intents:
  "markSuccessLenient e i s = (x, t) \<Longrightarrow> \<exists>rs. t = s\<lparr>intents := rs\<rparr>"
  unfolding markSuccessLenient_def markSuccess_def
  by (cases "transitionStatus e i PaymentInitStatus.SUCCESS (\<lambda>r. r) s")
    (auto dest!: transitionStatus_intents split: sum.splits app_error.splits)

definition founded :: "int \<Rightarrow> env \<Rightarrow> string \<Rightarrow> onboarding_intent_row \<Rightarrow> subscription_plan_row \<Rightarrow> db \<Rightarrow> db \<Rightarrow> bool" where
  "founded tz e reference oi plan s t \<longleftrightarrow>
     companies t = update_where (\<lambda>c. co_companyId c = env_uuid e 0) (\<lambda>c. c\<lparr>co_plan := sp_name plan\<rparr>) (companies s @ [new_company e oi]) \<and>
     users t = users s @ [new_owner e oi] \<and>
     subscriptions t = subscriptions s @
       [\<lparr>su_subscriptionId = env_uuid e 2, su_companyId = env_uuid e 0, su_planId = sp_planId plan,
         su_status = SubscriptionStatus.ACTIVE, su_startDate = Some (env_now e),
         su_endDate = Some (onboardingEnd tz (sp_interval plan) (env_now e)), su_createdAt = env_now e\<rparr>] \<and>
     onboardingIntents t = update_where (\<lambda>o'. oi_intentId o' = oi_intentId oi)
       (\<lambda>x. x\<lparr>oi_status := OnboardingStatus.COMPLETED\<rparr>) (onboardingIntents s) \<and>
     subscriptionPlans t = subscriptionPlans s \<and>
     book t = posted (\<lambda>i. env_uuid e (i + 3)) reference ''Onboarding Subscription'' (Some (env_uuid e 0))
       (subscriptionEntries (sp_price plan)) (book s)"

lemma subscriptionEntries_balanced: "totalDebits (subscriptionEntries x) = totalCredits (subscriptionEntries x)"
  by (simp add: subscriptionEntries_def totalDebits_sum totalCredits_sum)

lemma onboardingTx_ok:
  assumes "onboardingTx tz e reference oi intent s = (Inr (Onboarded c u), t)"
  obtains plan where "find_plan (oi_planId oi) s = Some plan" "c = env_uuid e 0" "u = env_uuid e 1"
    "founded tz e reference oi plan s t" "\<forall>x \<in> set (users s). u_email x \<noteq> oi_email oi"
proof -
  have e: "\<not> (\<exists>u \<in> set (users s). u_email u = oi_email oi)"
  proof
    assume "\<exists>u \<in> set (users s). u_email u = oi_email oi"
    then show False using assms by (cases "markSuccessLenient e (pi_intentId intent) (update_onboarding (oi_intentId oi)
        (\<lambda>x. x\<lparr>oi_status := OnboardingStatus.COMPLETED\<rparr>) s)") (auto simp: onboardingTx_def Let_def split: sum.splits)
  qed
  let ?s1 = "s\<lparr>companies := companies s @ [new_company e oi], users := users s @ [new_owner e oi]\<rparr>"
  obtain plan where p: "find_plan (oi_planId oi) ?s1 = Some plan"
    using assms e unfolding onboardingTx_def Let_def by (auto split: option.splits)
  let ?s2 = "setCompanyPlan (env_uuid e 0) (sp_name plan) (?s1\<lparr>subscriptions := subscriptions ?s1 @
       [\<lparr>su_subscriptionId = env_uuid e 2, su_companyId = env_uuid e 0, su_planId = sp_planId plan,
         su_status = SubscriptionStatus.ACTIVE, su_startDate = Some (env_now e),
         su_endDate = Some (onboardingEnd tz (sp_interval plan) (env_now e)), su_createdAt = env_now e\<rparr>]\<rparr>)"
  let ?s3 = "?s2\<lparr>book := posted (\<lambda>i. env_uuid e (i + 3)) reference ''Onboarding Subscription'' (Some (env_uuid e 0))
       (subscriptionEntries (sp_price plan)) (book ?s2)\<rparr>"
  let ?s4 = "update_onboarding (oi_intentId oi) (\<lambda>x. x\<lparr>oi_status := OnboardingStatus.COMPLETED\<rparr>) ?s3"
  obtain x s4 where m: "markSuccessLenient e (pi_intentId intent) ?s4 = (x, s4)" by force
  have "(case x of Inl err \<Rightarrow> (Inl err, s4) | Inr u \<Rightarrow> (Inr (Onboarded (env_uuid e 0) (env_uuid e 1)), s4)) = (Inr (Onboarded c u), t)"
    using assms e p m record_in_book_balanced[OF subscriptionEntries_balanced]
    unfolding onboardingTx_def Let_def by simp
  then have r: "c = env_uuid e 0" "u = env_uuid e 1" "t = s4" by (simp_all split: sum.splits)
  obtain rs where rs: "s4 = ?s4\<lparr>intents := rs\<rparr>" using markSuccessLenient_intents[OF m] by blast
  have "founded tz e reference oi plan s t"
    unfolding founded_def r(3) rs by (simp add: update_onboarding_def setCompanyPlan_def)
  then show ?thesis using that[of plan] p r e by (simp add: find_plan_def)
qed

lemma founded_emit [simp]: "founded tz e r oi plan s (emit x t) = founded tz e r oi plan s t"
  by (simp add: founded_def emit_def)

lemma processOnboarding_ok:
  assumes "processOnboarding tz verify e iid ref s = (Inr (Onboarded c u), t)"
  obtains oi plan where "find_onboarding iid s = Some oi" "find_plan (oi_planId oi) s = Some plan" "c = env_uuid e 0"
    "u = env_uuid e 1" "founded tz e ref oi plan s t" "\<forall>x \<in> set (users s). u_email x \<noteq> oi_email oi"
proof -
  obtain oi intent where oi: "find_onboarding iid s = Some oi"
    and p: "(case transaction (onboardingTx tz e ref oi intent) s of
       (Inr (Onboarded c u), s1) \<Rightarrow> (Inr (Onboarded c u), emit (Event ''COMPANY_ONBOARDED'' (oi_email oi)) s1)
     | (r, s1) \<Rightarrow> (r, s1)) = (Inr (Onboarded c u), t)"
    using assms unfolding processOnboarding_def by (auto split: option.splits if_splits sum.splits)
  obtain x s1 where x: "onboardingTx tz e ref oi intent s = (x, s1)" by force
  have "x = Inr (Onboarded c u)" "t = emit (Event ''COMPANY_ONBOARDED'' (oi_email oi)) s1"
    using p x by (auto simp: transaction_def split: sum.splits onboarding_result.splits)
  then show ?thesis using onboardingTx_ok[of tz e ref oi intent s c u s1] x that oi by (metis founded_emit)
qed

section \<open>Properties of the onboarding worker\<close>

text \<open>C27: A job that reports a new company created exactly one: company, owner account with the password of
  the application and an active subscription, with the onboarding completed and the list price
  booked as platform revenue.  Any later job for the same onboarding changes nothing.
\<close>

theorem onboarding_founds_one_company:
  assumes "processOnboarding tz verify e iid ref s = (Inr (Onboarded c u), t)" "books_ok (book s)"
    and "c \<notin> co_companyId ` set (companies s)" "c \<noteq> ''''"
  shows "\<exists>oi plan. find_onboarding iid s = Some oi \<and> find_plan (oi_planId oi) s = Some plan \<and>
    (\<forall>x \<in> set (users s). u_email x \<noteq> oi_email oi) \<and>
    users t = users s @ [new_owner e oi] \<and> u_companyId (new_owner e oi) = Some c \<and>
    companies t = companies s @ [(new_company e oi)\<lparr>co_plan := sp_name plan\<rparr>] \<and>
    map (\<lambda>x. (su_companyId x, su_status x)) (subscriptions t) =
      map (\<lambda>x. (su_companyId x, su_status x)) (subscriptions s) @ [(c, SubscriptionStatus.ACTIVE)] \<and>
    net_debit (book t) (Some c) ''PLATFORM_REVENUE'' = net_debit (book s) (Some c) ''PLATFORM_REVENUE'' - sp_price plan \<and>
    (\<forall>tz' verify' e' ref'. processOnboarding tz' verify' e' iid ref' t = (Inr onboarding_result.AlreadyProcessed, t))"
proof -
  obtain oi plan where p: "find_onboarding iid s = Some oi" "find_plan (oi_planId oi) s = Some plan" "c = env_uuid e 0"
    "founded tz e ref oi plan s t" "\<forall>x \<in> set (users s). u_email x \<noteq> oi_email oi"
    by (rule processOnboarding_ok[OF assms(1)])
  note f = p(4)[unfolded founded_def]
  have n: "update_where (\<lambda>y. co_companyId y = c) g (companies s) = companies s" for g
    by (rule update_where_no_match) (use assms(3) in auto)
  have co: "companies t = companies s @ [(new_company e oi)\<lparr>co_plan := sp_name plan\<rparr>]"
    using f n p(3) by (simp add: row_simps new_company_def)
  have "oi_intentId oi = iid" using find_set[OF p(1)[unfolded find_onboarding_def]] by simp
  then have "find_onboarding iid t = Some (oi\<lparr>oi_status := OnboardingStatus.COMPLETED\<rparr>)"
    using f p(1) unfolding find_onboarding_def by (simp add: find_update_where)
  then have again: "processOnboarding tz' verify' e' iid ref' t = (Inr onboarding_result.AlreadyProcessed, t)" for tz' verify' e' ref'
    by (simp add: processOnboarding_def)
  have net: "net_debit (book t) (Some c) ''PLATFORM_REVENUE'' = net_debit (book s) (Some c) ''PLATFORM_REVENUE'' - sp_price plan"
    using f posted_spec(2)[OF assms(2) subscriptionEntries_balanced] assms(4) p(3)
    by (simp add: or_null_def subscriptionEntries_def entries_net_def)
  show ?thesis
    by (intro exI[of _ oi] exI[of _ plan] conjI p(1,2,5) co net allI again) (use f p(3) in \<open>simp_all add: new_owner_def\<close>)
qed

lemma net_debit_empty: "net_debit empty_ledger c x = 0"
  by (simp add: net_debit_def find_account_def empty_ledger_def)

definition sample_application :: onboarding_intent_row where
  "sample_application = \<lparr>oi_intentId = ''oi'', oi_email = ''m@e.com'', oi_companyName = ''Shop'', oi_adminName = ''Ada'',
     oi_passwordHash = ''h'', oi_planId = ''gold'', oi_paymentReference = Some ''ref'', oi_status = OnboardingStatus.PAID\<rparr>"

definition sample_applied :: db where
  "sample_applied = empty_db\<lparr>subscriptionPlans := [sample_plan], onboardingIntents := [sample_application],
     intents := [sample_sub_intent\<lparr>pi_type := ONBOARDING, pi_companyId := None\<rparr>]\<rparr>"

definition sample_founded :: "onboarding_result res \<times> db" where
  "sample_founded = processOnboarding 0 sample_verify (sample_clock CHR ''f'' 2000) ''oi'' ''ref'' sample_applied"

lemma sample_founded_ok: "\<exists>t u. sample_founded = (Inr (Onboarded ''f'' u), t)"
  by (simp add: sample_founded_def processOnboarding_def validatePaystackTransaction_def renewal_runs transaction_def
      sample_applied_def sample_application_def find_onboarding_def onboardingTx_def Let_def sample_clock_def
      record_in_book_balanced[OF subscriptionEntries_balanced] setCompanyPlan_def update_onboarding_def
      markSuccessLenient_def markSuccess_def transitionStatus_def non_terminal_def TERMINAL_STATUSES_def count_where_def
      moved_def find_intent_def new_intent_def sample_params_def List.map_filter_def)

theorem onboarding_founds_one_company_witness:
  "\<exists>t u. sample_founded = (Inr (Onboarded ''f'' u), t) \<and> map u_companyId (users t) = [Some ''f''] \<and>
     net_debit (book t) (Some ''f'') ''PLATFORM_REVENUE'' = - 500"
proof -
  obtain t u where t: "sample_founded = (Inr (Onboarded ''f'' u), t)" using sample_founded_ok by blast
  have s: "books_ok (book sample_applied)" "''f'' \<notin> co_companyId ` set (companies sample_applied)" "''f'' \<noteq> ''''"
    "users sample_applied = []" "find_onboarding ''oi'' sample_applied = Some sample_application"
    "find_plan (oi_planId sample_application) sample_applied = Some sample_plan"
    "net_debit (book sample_applied) (Some ''f'') ''PLATFORM_REVENUE'' = 0"
    by (simp_all add: sample_applied_def sample_application_def empty_db_def books_ok_empty find_onboarding_def find_plan_def
        sample_plan_def net_debit_empty)
  obtain oi plan where o': "find_onboarding ''oi'' sample_applied = Some oi" "find_plan (oi_planId oi) sample_applied = Some plan"
    "users t = users sample_applied @ [new_owner (sample_clock CHR ''f'' 2000) oi]"
    "u_companyId (new_owner (sample_clock CHR ''f'' 2000) oi) = Some ''f''"
    "net_debit (book t) (Some ''f'') ''PLATFORM_REVENUE'' =
       net_debit (book sample_applied) (Some ''f'') ''PLATFORM_REVENUE'' - sp_price plan"
    using onboarding_founds_one_company[OF t[unfolded sample_founded_def] s(1-3)] by (elim exE conjE)
  have "oi = sample_application" using o'(1) by (simp only: s(5) option.inject)
  then have "plan = sample_plan" using o'(2) by (simp only: s(6) option.inject)
  then have "sp_price plan = 500" by (simp add: sample_plan_def)
  then show ?thesis by (intro exI[of _ t] exI[of _ u] conjI t) (use o'(3-5) in \<open>simp_all add: s(4,7)\<close>)
qed

text \<open>
  A company that paid for a week or a year is restricted after the grace days: the onboarding worker
  lets every interval but the monthly one end when it starts.
\<close>

theorem onboarding_on_a_yearly_plan_is_restricted:
  assumes "processOnboarding tz verify e iid ref s = (Inr (Onboarded c u), t)" "distinct (map su_subscriptionId (subscriptions t))"
    and "find_onboarding iid s = Some oi" "find_plan (oi_planId oi) s = Some plan" "sp_interval plan \<noteq> MONTHLY"
    and "env_now e < now" "env_now e + sp_gracePeriodDays plan * 24 * 60 * 60 * 1000 \<le> now"
  shows "\<exists>x \<in> set (subscriptions (snd (runRenewal now t))). su_companyId x = c \<and> su_endDate x = Some (env_now e) \<and>
    su_status x = RESTRICTED"
proof -
  obtain oi' plan' where p: "find_onboarding iid s = Some oi'" "find_plan (oi_planId oi') s = Some plan'" "c = env_uuid e 0"
    "founded tz e ref oi' plan' s t"
    by (rule processOnboarding_ok[OF assms(1)])
  have eq: "oi' = oi" "plan' = plan" using p(1,2) assms(3,4) by simp_all
  note f = p(4)[unfolded eq founded_def]
  let ?x = "\<lparr>su_subscriptionId = env_uuid e 2, su_companyId = env_uuid e 0, su_planId = sp_planId plan,
         su_status = SubscriptionStatus.ACTIVE, su_startDate = Some (env_now e),
         su_endDate = Some (onboardingEnd tz (sp_interval plan) (env_now e)), su_createdAt = env_now e\<rparr>"
  have x: "?x \<in> set (subscriptions t)" using f by simp
  have e: "onboardingEnd tz (sp_interval plan) (env_now e) = env_now e" using assms(5) by (simp add: onboardingEnd_def)
  have "sp_planId plan = oi_planId oi" using find_set[OF assms(4)[unfolded find_plan_def]] by simp
  then have "find_plan (sp_planId plan) t = Some plan" using assms(4) f by (simp add: find_plan_def)
  then have "nextStatus now t ?x = RESTRICTED"
    using assms(6,7) by (simp add: nextStatus_def ended_def graceExpiresAt_def gracePeriodDaysOf_def e)
  then have "?x\<lparr>su_status := RESTRICTED\<rparr> \<in> set (subscriptions (snd (runRenewal now t)))"
    unfolding run_rows(1)[OF assms(2)] using x by force
  then show ?thesis by (rule bexI[rotated]) (simp add: e p(3))
qed

theorem onboarding_on_a_yearly_plan_is_restricted_witness:
  "\<exists>t u. sample_founded = (Inr (Onboarded ''f'' u), t) \<and>
     (\<exists>x \<in> set (subscriptions (snd (runRenewal 604802000 t))). su_companyId x = ''f'' \<and> su_status x = RESTRICTED)"
proof -
  obtain t u where t: "sample_founded = (Inr (Onboarded ''f'' u), t)" using sample_founded_ok by blast
  have "founded 0 (sample_clock CHR ''f'' 2000) ''ref'' oi plan sample_applied t \<Longrightarrow> distinct (map su_subscriptionId (subscriptions t))" for oi plan
    by (simp add: founded_def sample_applied_def empty_db_def)
  then have d: "distinct (map su_subscriptionId (subscriptions t))"
    using processOnboarding_ok[OF t[unfolded sample_founded_def]] by blast
  from onboarding_on_a_yearly_plan_is_restricted[OF t[unfolded sample_founded_def] d, of sample_application sample_plan 604802000]
  show ?thesis
    by (intro exI[of _ t] exI[of _ u] conjI t)
      (auto simp: sample_applied_def sample_application_def sample_plan_def find_onboarding_def find_plan_def sample_clock_def)
qed

end
