(* ===== verification/SubscriptionSlots.thy ===== *)
theory SubscriptionSlots
  imports CompanyOnboarding
begin

text \<open>
  However subscribing, renewing, verifying, onboarding and the daily scan follow each other, a
  company has at most one pending and at most one live subscription: the handlers of
  \<open>src/core/services/subscription.service.ts\<close>, \<open>src/job-workers/onboarding.worker.ts\<close> and
  \<open>src/shared/job-workers/subscription-renewal.worker.ts\<close> as one step relation.
\<close>

section \<open>Writes that keep the subscriptions\<close>

lemma transition_keeps: "transitionStatus e i to extra s = (x, t) \<Longrightarrow> subscriptions t = subscriptions s"
  using transitionStatus_intents by fastforce

lemma initFailed_keeps: "initFailed e b i err s = (x, t) \<Longrightarrow> subscriptions t = subscriptions s"
  unfolding initFailed_def Let_def by (auto simp: markFailed_def dest: transition_keeps split: if_splits sum.splits prod.splits)

lemma initializePaystack_keeps: "initializePaystack pr e i b s = (x, t) \<Longrightarrow> subscriptions t = subscriptions s"
  unfolding initializePaystack_def
  by (auto simp: markInitialized_def dest!: transition_keeps initFailed_keeps split: option.splits sum.splits prod.splits)

lemma startCheckout_keeps: "startCheckout pr e i s = (x, t) \<Longrightarrow> subscriptions t = subscriptions s"
  unfolding startCheckout_def
  by (auto simp: markPending_def dest!: transition_keeps initializePaystack_keeps split: sum.splits prod.splits)

lemma createIntent_keeps: "createIntent r s = (x, t) \<Longrightarrow> subscriptions t = subscriptions s"
  by (auto simp: createIntent_def split: if_splits)

lemma reserveOnce_keeps:
  assumes "\<And>b t. subscriptions (race b t) = subscriptions t" "reserveOnce race e p b s = (x, t)"
  shows "subscriptions t = subscriptions s"
  using reserve_state[OF assms(2)] assms(1) by (auto dest: createIntent_keeps)

lemma reserve_keeps:
  assumes "\<And>b t. subscriptions (race b t) = subscriptions t" "reserve race e p s = (x, t)"
  shows "subscriptions t = subscriptions s"
  using assms(2) unfolding reserve_def reserveInternal_def
  by (auto dest!: reserveOnce_keeps[OF assms(1)] split: sum.splits prod.splits option.splits)

section \<open>Slots\<close>

definition in_slot :: "(SubscriptionStatus \<Rightarrow> bool) \<Rightarrow> ident \<Rightarrow> subscription_row \<Rightarrow> bool" where
  "in_slot q c x \<longleftrightarrow> su_companyId x = c \<and> q (su_status x)"

definition slots_ok :: "subscription_row list \<Rightarrow> bool" where
  "slots_ok xs \<longleftrightarrow> distinct (map su_subscriptionId xs) \<and>
     (\<forall>c. length (filter (in_slot (\<lambda>st. st = SubscriptionStatus.PENDING) c) xs) \<le> 1 \<and>
        length (filter (in_slot live c) xs) \<le> 1)"

lemma live_simps [simp]: "live SubscriptionStatus.ACTIVE" "live GRACE_PERIOD" "live RESTRICTED"
  "\<not> live SubscriptionStatus.PENDING" "\<not> live SubscriptionStatus.EXPIRED" "\<not> live SubscriptionStatus.CANCELLED"
  by (simp_all add: live_def)

text \<open>A new pending row of a company without one, and a new active row of a new company.\<close>

lemma slots_ok_pending:
  assumes "slots_ok xs" "su_subscriptionId r \<notin> su_subscriptionId ` set xs" "su_status r = SubscriptionStatus.PENDING"
    "\<not> (\<exists>x \<in> set xs. su_companyId x = su_companyId r \<and> su_status x = SubscriptionStatus.PENDING)"
  shows "slots_ok (xs @ [r])"
proof -
  have "filter (in_slot (\<lambda>st. st = SubscriptionStatus.PENDING) (su_companyId r)) xs = []"
    using assms(4) by (auto simp: filter_empty_conv in_slot_def)
  then show ?thesis using assms(1-3) by (auto simp: slots_ok_def in_slot_def)
qed

lemma slots_ok_founded:
  assumes "slots_ok xs" "su_subscriptionId r \<notin> su_subscriptionId ` set xs" "su_companyId r \<notin> su_companyId ` set xs"
    "su_status r = SubscriptionStatus.ACTIVE"
  shows "slots_ok (xs @ [r])"
proof -
  have "filter (in_slot q (su_companyId r)) xs = []" for q
    using assms(3) by (simp add: filter_empty_conv in_slot_def) (metis image_eqI)
  then show ?thesis using assms(1,2,4) by (auto simp: slots_ok_def in_slot_def)
qed

text \<open>A status change that keeps every row in its slot.\<close>

lemma slots_ok_map:
  assumes "slots_ok xs" "\<And>x. f x = SubscriptionStatus.PENDING \<longleftrightarrow> su_status x = SubscriptionStatus.PENDING"
    "\<And>x. live (f x) \<longleftrightarrow> live (su_status x)"
  shows "slots_ok (map (\<lambda>x. x\<lparr>su_status := f x\<rparr>) xs)"
proof -
  have "filter (in_slot q c) (map (\<lambda>x. x\<lparr>su_status := f x\<rparr>) xs) = map (\<lambda>x. x\<lparr>su_status := f x\<rparr>) (filter (in_slot q c) xs)"
    if "\<And>x. q (f x) = q (su_status x)" for q c
    using that by (induction xs) (auto simp: in_slot_def)
  from this[of "\<lambda>st. st = SubscriptionStatus.PENDING"] this[of live] show ?thesis
    using assms by (simp add: slots_ok_def comp_def)
qed

text \<open>The verification leaves one row of the company outside \<open>EXPIRED\<close>.\<close>

lemma slots_ok_activated:
  assumes "slots_ok xs" "map su_subscriptionId ys = map su_subscriptionId xs"
    "filter (\<lambda>x. su_companyId x = c \<and> su_status x \<noteq> SubscriptionStatus.EXPIRED) ys = [a]" "su_status a = SubscriptionStatus.ACTIVE"
    "filter (\<lambda>x. su_companyId x \<noteq> c) ys = filter (\<lambda>x. su_companyId x \<noteq> c) xs"
  shows "slots_ok ys"
proof -
  have own: "filter (in_slot q c) ys = filter (\<lambda>x. q (su_status x)) [a]" if "\<not> q SubscriptionStatus.EXPIRED" for q
    unfolding assms(3)[symmetric] filter_filter using that by (intro filter_cong) (auto simp: in_slot_def)
  have other: "filter (in_slot q d) ys = filter (in_slot q d) xs" if "d \<noteq> c" for q d
  proof -
    have "filter (in_slot q d) zs = filter (in_slot q d) (filter (\<lambda>x. su_companyId x \<noteq> c) zs)" for zs
      unfolding filter_filter using that by (intro filter_cong) (auto simp: in_slot_def)
    then show ?thesis using assms(5) by metis
  qed
  have "length (filter (in_slot q d) ys) \<le> 1" if "\<not> q SubscriptionStatus.EXPIRED" "length (filter (in_slot q d) xs) \<le> 1" for q d
    using own[of q] other[of d q] that by (cases "d = c") (auto intro: order_trans[OF length_filter_le])
  then show ?thesis using assms(1,2) by (simp add: slots_ok_def)
qed

section \<open>The steps\<close>

inductive sub_step :: "db \<Rightarrow> db \<Rightarrow> bool" where
  subscribes: "(\<And>b t. subscriptions (race b t) = subscriptions t) \<Longrightarrow> env_uuid e 3 \<notin> su_subscriptionId ` set (subscriptions s) \<Longrightarrow>
    sub_step s (snd (initializeSubscription frontend race provider e c p email s))"
| renews: "(\<And>b t. subscriptions (race b t) = subscriptions t) \<Longrightarrow> env_uuid e 3 \<notin> su_subscriptionId ` set (subscriptions s) \<Longrightarrow>
    sub_step s (snd (renewSubscription frontend race provider e c p' s))"
| verifies: "sub_step s (snd (verifySubscription tz verify e ref s))"
| onboards: "env_uuid e 0 \<notin> su_companyId ` set (subscriptions s) \<Longrightarrow> env_uuid e 2 \<notin> su_subscriptionId ` set (subscriptions s) \<Longrightarrow>
    sub_step s (snd (processOnboarding tz verify e iid ref s))"
| scans: "sub_step s (snd (runRenewal now s))"
| elsewhere: "subscriptions t = subscriptions s \<Longrightarrow> sub_step s t"

inductive_cases sub_stepE: "sub_step s t"

lemma slots_ok_createPending:
  assumes "slots_ok (subscriptions s)" "env_uuid e 3 \<notin> su_subscriptionId ` set (subscriptions s)"
  shows "slots_ok (subscriptions (createPending e c p s))"
  unfolding createPending_def using assms by (auto intro!: slots_ok_pending)

lemma slots_ok_shared:
  assumes "\<And>b t. subscriptions (race b t) = subscriptions t" "slots_ok (subscriptions s)"
    "env_uuid e 3 \<notin> su_subscriptionId ` set (subscriptions s)"
  shows "slots_ok (subscriptions (snd (createPendingSubscriptionAndIntent frontend race pr e c plan email s)))"
proof -
  obtain v s1 where v: "reserve race e (subscriptionParams e frontend c plan email) s = (v, s1)" by force
  have s1: "subscriptions s1 = subscriptions s" by (rule reserve_keeps[OF assms(1) v])
  have ok: "slots_ok (subscriptions s1)" "slots_ok (subscriptions (createPending e c (sp_planId plan) s1))"
    using assms(2,3) s1 by (simp_all add: slots_ok_createPending)
  have "slots_ok (subscriptions t)" if "startCheckout pr e i u = (x, t)" "slots_ok (subscriptions u)" for i u x t
    using startCheckout_keeps[OF that(1)] that(2) by simp
  note this[of _ s1, OF _ ok(1)] this[of _ "createPending e c (sp_planId plan) s1", OF _ ok(2)]
  with ok(1) v show ?thesis
    unfolding createPendingSubscriptionAndIntent_def Let_def by (auto split: sum.splits prod.splits)
qed

lemma slots_ok_verify:
  assumes "slots_ok (subscriptions s)"
  shows "slots_ok (subscriptions (snd (verifySubscription tz verify e ref s)))"
proof (cases "verifySubscription tz verify e ref s")
  case (Pair x t)
  show ?thesis
  proof (cases x)
    case (Inl err)
    then have "t = s" using Pair unfolding verifySubscription_def
      by (auto simp: transaction_def split: option.splits sum.splits prod.splits)
    then show ?thesis using Pair assms by simp
  next
    case (Inr n)
    obtain intent planId plan c pending where v:
      "find (\<lambda>x. su_companyId x = c \<and> su_status x = SubscriptionStatus.PENDING) (subscriptions s) = Some pending"
      "activateSubscription tz e ref intent c plan pending s = (Inr n, t)"
      by (rule verify_ok[OF Pair[unfolded Inr]])
    have d: "distinct (map su_subscriptionId (subscriptions s))" using assms by (simp add: slots_ok_def)
    have p: "pending \<in> set (subscriptions s)" "su_companyId pending = c" using find_set[OF v(1)] by simp_all
    note rows = activated_rows[OF d p, where now = "env_now e" and end' = "intervalEnd tz (sp_interval plan) (env_now e)",
        folded activate_ok(2)[OF v(2)]]
    have "map su_subscriptionId (subscriptions t) = map su_subscriptionId (subscriptions s)"
      unfolding activate_ok(2)[OF v(2)] by (simp add: map_update_where)
    from slots_ok_activated[OF assms this rows(1) _ rows(2)] show ?thesis by (simp add: Pair)
  qed
qed

lemma onboardingTx_other:
  assumes "onboardingTx tz e reference oi intent s = (Inr x, t)" "\<nexists>c u. x = Onboarded c u"
  shows "subscriptions t = subscriptions s"
proof (cases "\<exists>u \<in> set (users s). u_email u = oi_email oi")
  case True
  then show ?thesis using assms(1) unfolding onboardingTx_def Let_def
    by (auto dest!: markSuccessLenient_intents simp: update_onboarding_def split: prod.splits sum.splits)
next
  case False
  then have False using assms unfolding onboardingTx_def Let_def
    by (auto split: option.splits prod.splits sum.splits)
  then show ?thesis ..
qed

lemma processOnboarding_other:
  assumes "processOnboarding tz verify e iid ref s = (x, t)" "\<nexists>c u. x = Inr (Onboarded c u)"
  shows "subscriptions t = subscriptions s"
proof -
  have tx: "subscriptions s1 = subscriptions s"
    if "transaction (onboardingTx tz e ref oi intent) s = (y, s1)" "\<nexists>c u. y = Inr (Onboarded c u)" for oi intent y s1
    using that unfolding transaction_def by (auto dest: onboardingTx_other split: prod.splits sum.splits)
  show ?thesis
    using assms unfolding processOnboarding_def
    by (auto dest: tx split: option.splits sum.splits if_splits prod.splits onboarding_result.splits)
qed

lemma slots_ok_onboarding:
  assumes "slots_ok (subscriptions s)" "env_uuid e 0 \<notin> su_companyId ` set (subscriptions s)"
    "env_uuid e 2 \<notin> su_subscriptionId ` set (subscriptions s)"
  shows "slots_ok (subscriptions (snd (processOnboarding tz verify e iid ref s)))"
proof (cases "processOnboarding tz verify e iid ref s")
  case (Pair x t)
  consider (founded) c u where "x = Inr (Onboarded c u)" | (other) "\<nexists>c u. x = Inr (Onboarded c u)" by blast
  then show ?thesis
  proof cases
    case founded
    obtain oi plan where "founded tz e ref oi plan s t" by (rule processOnboarding_ok[OF Pair[unfolded founded]])
    then have "subscriptions t = subscriptions s @ [\<lparr>su_subscriptionId = env_uuid e 2, su_companyId = env_uuid e 0, su_planId = sp_planId plan,
         su_status = SubscriptionStatus.ACTIVE, su_startDate = Some (env_now e),
         su_endDate = Some (onboardingEnd tz (sp_interval plan) (env_now e)), su_createdAt = env_now e\<rparr>]"
      by (simp add: founded_def)
    then show ?thesis using assms by (simp add: Pair slots_ok_founded)
  next
    case other
    have "subscriptions t = subscriptions s" using Pair other by (rule processOnboarding_other)
    then show ?thesis using assms(1) Pair by simp
  qed
qed

lemma slots_ok_step: "sub_step s t \<Longrightarrow> slots_ok (subscriptions s) \<Longrightarrow> slots_ok (subscriptions t)"
proof (induction rule: sub_step.induct)
  case (subscribes race e s frontend provider c p email)
  then show ?case unfolding initializeSubscription_def by (auto split: option.splits intro: slots_ok_shared)
next
  case (renews race e s frontend provider c p')
  then show ?case unfolding renewSubscription_def by (auto split: option.splits intro: slots_ok_shared)
next
  case (verifies s tz verify e ref)
  then show ?case by (rule slots_ok_verify)
next
  case (onboards e s tz verify iid ref)
  then show ?case by (intro slots_ok_onboarding)
next
  case (scans s now)
  have d: "distinct (map su_subscriptionId (subscriptions s))" using scans by (simp add: slots_ok_def)
  show ?case unfolding run_rows(1)[OF d]
    by (rule slots_ok_map[OF scans]) (auto simp: nextStatus_def Let_def ended_def live_def)
qed simp

text \<open>C25: However subscribing, renewing, verifying payments, onboarding and the daily scan follow each other,
  and whatever the rest of the program does in between, a company has at most one pending and at
  most one live (active, in grace or restricted) subscription, and their identifiers stay unique.
\<close>

theorem one_subscription_per_company:
  assumes "sub_step\<^sup>*\<^sup>* s t" "subscriptions s = []"
  shows "distinct (map su_subscriptionId (subscriptions t)) \<and>
    length (filter (\<lambda>x. su_companyId x = c \<and> su_status x = SubscriptionStatus.PENDING) (subscriptions t)) \<le> 1 \<and>
    length (filter (\<lambda>x. su_companyId x = c \<and> su_status x \<in> {SubscriptionStatus.ACTIVE, GRACE_PERIOD, RESTRICTED}) (subscriptions t)) \<le> 1"
proof -
  have "slots_ok (subscriptions t)" using assms
    by (induction rule: rtranclp_induct) (auto intro: slots_ok_step simp: slots_ok_def[of "[]"])
  then show ?thesis unfolding slots_ok_def in_slot_def[abs_def] live_def by blast
qed

theorem one_subscription_per_company_witness:
  "\<exists>t u. sample_founded = (Inr (Onboarded ''f'' u), t) \<and>
     length (filter (\<lambda>x. su_companyId x = ''f'' \<and> su_status x = SubscriptionStatus.PENDING) (subscriptions t)) \<le> 1"
proof -
  obtain t u where t: "sample_founded = (Inr (Onboarded ''f'' u), t)" using sample_founded_ok by blast
  have "sub_step sample_applied (snd sample_founded)" unfolding sample_founded_def
    by (rule sub_step.onboards) (simp_all add: sample_applied_def empty_db_def)
  then have s: "sub_step\<^sup>*\<^sup>* sample_applied t" unfolding t snd_conv by (rule r_into_rtranclp)
  have e: "subscriptions sample_applied = []" by (simp add: sample_applied_def empty_db_def)
  show ?thesis
    by (intro exI[of _ t] exI[of _ u] conjI t) (use one_subscription_per_company[OF s e, of "''f''"] in \<open>elim conjE\<close>)
qed

end
