(* ===== verification/Auth.thy ===== *)
theory Auth
  imports KycIntake Subscriptions
begin

text \<open>
  Accounts and sessions, \<open>src/core/services/auth.service.ts\<close>: registration, login, refresh and
  logout, the password reset by a one-time code, the password changes, the accounts companies
  create and the start of a company's onboarding; the password rules of
  \<open>src/shared/schemas/auth.schema.ts\<close> and the temporary passwords of
  \<open>src/shared/utils/helpers/misc.ts\<close>.  Hashing and signing are parameters: a salted hash with
  its comparison, the digest of a token, and the two signing functions, which see the second of
  the signature.
\<close>

section \<open>Passwords\<close>

definition isLower :: "char \<Rightarrow> bool" where
  "isLower c \<longleftrightarrow> 97 \<le> (of_char c :: nat) \<and> (of_char c :: nat) \<le> 122"

definition isUpper :: "char \<Rightarrow> bool" where
  "isUpper c \<longleftrightarrow> 65 \<le> (of_char c :: nat) \<and> (of_char c :: nat) \<le> 90"

definition isDigitChar :: "char \<Rightarrow> bool" where
  "isDigitChar c \<longleftrightarrow> 48 \<le> (of_char c :: nat) \<and> (of_char c :: nat) \<le> 57"

definition SPECIAL :: string where
  "SPECIAL = ''!@#$%^&*(),.?:{}|<>_-+=~`[];/'' @ [CHR 0x22, CHR 0x5C, CHR 0x27]"

definition PasswordSchema :: "string \<Rightarrow> bool" where
  "PasswordSchema p \<longleftrightarrow> 8 \<le> length p \<and> length p \<le> 30 \<and> list_ex isLower p \<and> list_ex isUpper p \<and>
     list_ex isDigitChar p \<and> list_ex (\<lambda>c. c \<in> set SPECIAL) p \<and> list_all (\<lambda>c. \<not> isSpace c) p"

text \<open>The rule of the registration form is another one.\<close>

definition RegisterPassword :: "string \<Rightarrow> bool" where
  "RegisterPassword p \<longleftrightarrow> 6 \<le> length p"

text \<open>
  \<open>picks\<close> are the four random characters, \<open>bytes\<close> the base64 text of six random bytes and
  \<open>shuffle\<close> what sorting by a random comparison makes of the list.
\<close>

definition generateTempPassword ::
  "string \<Rightarrow> char list \<Rightarrow> string \<Rightarrow> (char list \<Rightarrow> char list) \<Rightarrow> string" where
  "generateTempPassword type picks bytes shuffle =
     ''IFL_'' @ type @ ''_'' @ shuffle (picks @ take 6 (filter isAlnum bytes))"

section \<open>Tokens and sessions\<close>

record token_claims =
  tk_userId :: ident
  tk_role :: Role
  tk_email :: string
  tk_companyId :: "ident option"

record keys =
  bcryptHash :: "string \<Rightarrow> string \<Rightarrow> string"
  bcryptCompare :: "string \<Rightarrow> string \<Rightarrow> bool"
  hashRefreshToken :: "string \<Rightarrow> string"
  generateRefreshToken :: "token_claims \<Rightarrow> int \<Rightarrow> string"
  verifyRefreshToken :: "string \<Rightarrow> time \<Rightarrow> token_claims option"
  generateAccessToken :: "token_claims \<Rightarrow> ident \<Rightarrow> int \<Rightarrow> string"

definition signedAt :: "time \<Rightarrow> int" where
  "signedAt t = t div 1000"

definition claims :: "user_row \<Rightarrow> ident option \<Rightarrow> token_claims" where
  "claims u c = \<lparr>tk_userId = u_userId u, tk_role = u_role u, tk_email = u_email u, tk_companyId = c\<rparr>"

record tokens =
  to_user :: user_row
  to_accessToken :: string
  to_refreshToken :: string

text \<open>\<open>userSession.create\<close>: the index on the token hash refuses a duplicate.\<close>

definition createUserSession :: "int \<Rightarrow> env \<Rightarrow> ident \<Rightarrow> string \<Rightarrow> db \<Rightarrow> user_session_row res \<times> db" where
  "createUserSession tz e userId tokenHash s =
     (if \<exists>x \<in> set (userSessions s). us_tokenHash x = tokenHash then (Inl (UniqueViolation ''tokenHash''), s)
      else let r = \<lparr>us_sessionId = env_uuid e 1, us_userId = userId, us_tokenHash = tokenHash, us_createdAt = env_now e,
             us_expiresAt = setDate tz (env_now e) (getDate tz (env_now e) + 7), us_revoked = False\<rparr>
           in (Inr r, s\<lparr>userSessions := userSessions s @ [r]\<rparr>))"

definition issueTokens :: "keys \<Rightarrow> int \<Rightarrow> env \<Rightarrow> user_row \<Rightarrow> ident option \<Rightarrow> db \<Rightarrow> tokens res \<times> db" where
  "issueTokens k tz e u c s =
     (let refreshToken = generateRefreshToken k (claims u c) (signedAt (env_now e))
      in case createUserSession tz e (u_userId u) (hashRefreshToken k refreshToken) s of
           (Inl err, s1) \<Rightarrow> (Inl err, s1)
         | (Inr x, s1) \<Rightarrow> (Inr \<lparr>to_user = u,
              to_accessToken = generateAccessToken k (claims u c) (us_sessionId x) (signedAt (env_now e)),
              to_refreshToken = refreshToken\<rparr>, s1))"

definition find_email :: "string \<Rightarrow> db \<Rightarrow> user_row option" where
  "find_email email s = find (\<lambda>u. u_email u = email) (users s)"

definition update_user :: "ident \<Rightarrow> (user_row \<Rightarrow> user_row) \<Rightarrow> db \<Rightarrow> db" where
  "update_user uid f s = s\<lparr>users := update_where (\<lambda>u. u_userId u = uid) f (users s)\<rparr>"

definition revokeAll :: "ident \<Rightarrow> db \<Rightarrow> db" where
  "revokeAll uid s = s\<lparr>userSessions := update_where (\<lambda>x. us_userId x = uid \<and> \<not> us_revoked x)
     (\<lambda>x. x\<lparr>us_revoked := True\<rparr>) (userSessions s)\<rparr>"

definition revokeOne :: "ident \<Rightarrow> db \<Rightarrow> db" where
  "revokeOne sid s = s\<lparr>userSessions := update_where (\<lambda>x. us_sessionId x = sid) (\<lambda>x. x\<lparr>us_revoked := True\<rparr>) (userSessions s)\<rparr>"

definition find_userSession :: "ident \<Rightarrow> db \<Rightarrow> user_session_row option" where
  "find_userSession sid s = find (\<lambda>x. us_sessionId x = sid) (userSessions s)"

section \<open>Registration and login\<close>

record register_input =
  rg_name :: string
  rg_email :: string
  rg_password :: string
  rg_referredByMarketerId :: "ident option"

definition registered :: "keys \<Rightarrow> env \<Rightarrow> register_input \<Rightarrow> user_row" where
  "registered k e d = \<lparr>u_userId = env_uuid e 0, u_email = rg_email d, u_name = Some (rg_name d), u_role = CUSTOMER,
     u_companyId = None, u_createdById = None, u_referredByMarketerId = rg_referredByMarketerId d, u_referralCode = None,
     u_password = bcryptHash k (env_uuid e 2) (rg_password d), u_active = True, u_forcePasswordChange = False,
     u_deletedAt = None, u_createdAt = env_now e\<rparr>"

definition register :: "keys \<Rightarrow> int \<Rightarrow> env \<Rightarrow> register_input \<Rightarrow> db \<Rightarrow> tokens res \<times> db" where
  "register k tz e d s =
     (if find_email (rg_email d) s \<noteq> None then (Inl (ConflictError ''Email is already in use''), s)
      else if (case or_null (rg_referredByMarketerId d) of None \<Rightarrow> False
          | Some m \<Rightarrow> \<not> (\<exists>u \<in> set (users s). u_userId u = m \<and> u_role u = MARKETER))
      then (Inl (BadRequestError ''Invalid referral: Marketer not found.''), s)
      else (case issueTokens k tz e (registered k e d) None (s\<lparr>users := users s @ [registered k e d]\<rparr>) of
          (Inl err, s1) \<Rightarrow> (Inl err, s1)
        | (Inr t, s1) \<Rightarrow> (Inr t, emit (Event ''USER_REGISTERED'' (rg_email d)) s1)))"

definition login :: "keys \<Rightarrow> int \<Rightarrow> env \<Rightarrow> string \<Rightarrow> string \<Rightarrow> db \<Rightarrow> tokens res \<times> db" where
  "login k tz e email password s =
     (case find_email email s of
        None \<Rightarrow> (Inl (UnauthorizedError ''Invalid credentials''), s)
      | Some u \<Rightarrow>
          if \<not> u_active u \<or> u_deletedAt u \<noteq> None
          then (Inl (UnauthorizedError ''Your account has been deactivated. Please contact support.''), s)
          else if \<not> bcryptCompare k password (u_password u) then (Inl (UnauthorizedError ''Invalid credentials''), s)
          else issueTokens k tz e u (or_null (u_companyId u)) s)"

definition revokeSession :: "ident \<Rightarrow> ident \<Rightarrow> db \<Rightarrow> unit res \<times> db" where
  "revokeSession sessionId userId s =
     (case find_userSession sessionId s of
        None \<Rightarrow> (Inl (NotFoundError ''Session not found''), s)
      | Some x \<Rightarrow> if us_userId x \<noteq> userId then (Inl (NotFoundError ''Session not found''), s)
          else (Inr (), revokeOne sessionId s))"

definition logout :: "ident option \<Rightarrow> ident \<Rightarrow> db \<Rightarrow> db" where
  "logout sessionId userId s =
     (case or_null sessionId of
        Some sid \<Rightarrow>
          (case find_userSession sid s of
             None \<Rightarrow> s | Some x \<Rightarrow> if us_userId x = userId then revokeOne sid s else s)
      | None \<Rightarrow> (if find_user userId s = None then s else revokeAll userId s))"

definition refresh :: "keys \<Rightarrow> env \<Rightarrow> string \<Rightarrow> db \<Rightarrow> string res" where
  "refresh k e refreshToken s =
     (case verifyRefreshToken k refreshToken (env_now e) of
        None \<Rightarrow> Inl (UnauthorizedError ''Invalid or expired refresh token'')
      | Some decoded \<Rightarrow>
     (case find (\<lambda>x. us_tokenHash x = hashRefreshToken k refreshToken) (userSessions s) of
        None \<Rightarrow> Inl (UnauthorizedError ''Refresh token revoked or expired'')
      | Some x \<Rightarrow>
          if us_revoked x \<or> us_expiresAt x < env_now e then Inl (UnauthorizedError ''Refresh token revoked or expired'')
          else (case find_user (tk_userId decoded) s of
              None \<Rightarrow> Inl (UnauthorizedError ''User no longer exists'')
            | Some u \<Rightarrow> Inr (generateAccessToken k (claims u (or_null (u_companyId u))) (us_sessionId x) (signedAt (env_now e))))))"

section \<open>Resetting and changing a password\<close>

definition recentRequests :: "time \<Rightarrow> ident \<Rightarrow> db \<Rightarrow> password_reset_row list" where
  "recentRequests now uid s =
     sort_key (\<lambda>r. - rs_createdAt r) (filter (\<lambda>r. rs_userId r = uid \<and> now - 15 * 60 * 1000 < rs_createdAt r) (passwordResets s))"

definition nextResetId :: "db \<Rightarrow> nat" where
  "nextResetId s = Suc (foldr (\<lambda>r n. max (rs_id r) n) (passwordResets s) 0)"

definition invalidateResets :: "ident \<Rightarrow> db \<Rightarrow> db" where
  "invalidateResets uid s = s\<lparr>passwordResets := update_where (\<lambda>r. rs_userId r = uid \<and> \<not> rs_used r)
     (\<lambda>r. r\<lparr>rs_used := True\<rparr>) (passwordResets s)\<rparr>"

text \<open>\<open>otp\<close> is the random code; an unknown address gets the same answer.\<close>

definition forgotPassword :: "keys \<Rightarrow> env \<Rightarrow> string \<Rightarrow> string \<Rightarrow> db \<Rightarrow> unit res \<times> db" where
  "forgotPassword k e otp email s =
     (case find_email email s of
        None \<Rightarrow> (Inr (), s)
      | Some u \<Rightarrow>
          (let recent = recentRequests (env_now e) (u_userId u) s
           in if recent \<noteq> [] \<and> env_now e - rs_createdAt (hd recent) < 60 * 1000
              then (Inl (ConflictError ''Please wait ''), s)
              else if 3 \<le> length recent
              then (Inl (ConflictError ''Too many password reset requests. Please try again later.''), s)
              else (Inr (),
                (let s1 = invalidateResets (u_userId u) s
                 in emit (Event ''PASSWORD_RESET_REQUESTED'' email) (s1\<lparr>passwordResets := passwordResets s1 @
                      [\<lparr>rs_id = nextResetId s, rs_userId = u_userId u, rs_otpHash = bcryptHash k (env_uuid e 0) otp,
                        rs_expiresAt = env_now e + 10 * 60 * 1000, rs_attempts = 0, rs_used = False,
                        rs_createdAt = env_now e\<rparr>]\<rparr>)))))"

definition openReset :: "time \<Rightarrow> ident \<Rightarrow> db \<Rightarrow> password_reset_row option" where
  "openReset now uid s =
     (case sort_key (\<lambda>r. - rs_createdAt r) (filter (\<lambda>r. rs_userId r = uid \<and> \<not> rs_used r \<and> now < rs_expiresAt r) (passwordResets s)) of
        [] \<Rightarrow> None | r # rs \<Rightarrow> Some r)"

definition update_reset :: "nat \<Rightarrow> (password_reset_row \<Rightarrow> password_reset_row) \<Rightarrow> db \<Rightarrow> db" where
  "update_reset i f s = s\<lparr>passwordResets := update_where (\<lambda>r. rs_id r = i) f (passwordResets s)\<rparr>"

definition setPassword :: "ident \<Rightarrow> string \<Rightarrow> db \<Rightarrow> db" where
  "setPassword uid hash = update_user uid (\<lambda>u. u\<lparr>u_password := hash, u_forcePasswordChange := False\<rparr>)"

definition resetPassword :: "keys \<Rightarrow> env \<Rightarrow> string \<Rightarrow> string \<Rightarrow> string \<Rightarrow> db \<Rightarrow> unit res \<times> db" where
  "resetPassword k e email token newPassword s =
     (case find_email email s of
        None \<Rightarrow> (Inl (BadRequestError ''Invalid or expired reset OTP''), s)
      | Some u \<Rightarrow>
     (case openReset (env_now e) (u_userId u) s of
        None \<Rightarrow> (Inl (BadRequestError ''Invalid or expired reset OTP''), s)
      | Some r \<Rightarrow>
          if \<not> bcryptCompare k token (rs_otpHash r)
          then (Inl (BadRequestError ''Invalid or expired reset OTP''),
                update_reset (rs_id r) (\<lambda>r. r\<lparr>rs_attempts := rs_attempts r + 1\<rparr>) s)
          else (Inr (), emit (Event ''PASSWORD_RESET_COMPLETED'' email)
                 (revokeAll (u_userId u) (update_reset (rs_id r) (\<lambda>r. r\<lparr>rs_used := True\<rparr>)
                   (setPassword (u_userId u) (bcryptHash k (env_uuid e 0) newPassword) s))))))"

definition changePassword :: "keys \<Rightarrow> env \<Rightarrow> ident \<Rightarrow> string \<Rightarrow> string \<Rightarrow> db \<Rightarrow> unit res \<times> db" where
  "changePassword k e userId currentPassword newPassword s =
     (case find_user userId s of
        None \<Rightarrow> (Inl (NotFoundError ''User not found''), s)
      | Some u \<Rightarrow>
          if \<not> bcryptCompare k currentPassword (u_password u)
          then (Inl (UnauthorizedError ''Current password is incorrect''), s)
          else (Inr (), revokeAll userId (setPassword userId (bcryptHash k (env_uuid e 0) newPassword) s)))"

definition forcePasswordChange :: "keys \<Rightarrow> env \<Rightarrow> ident \<Rightarrow> string \<Rightarrow> db \<Rightarrow> unit res \<times> db" where
  "forcePasswordChange k e userId newPassword s =
     (case find_user userId s of
        None \<Rightarrow> (Inl (NotFoundError ''User not found''), s)
      | Some u \<Rightarrow>
          if \<not> u_forcePasswordChange u
          then (Inl (BadRequestError ''Password change is not required for this account''), s)
          else (Inr (), setPassword userId (bcryptHash k (env_uuid e 0) newPassword) s))"

section \<open>Accounts a company creates\<close>

definition createMarketer ::
  "keys \<Rightarrow> env \<Rightarrow> string \<Rightarrow> string \<Rightarrow> ident \<Rightarrow> ident \<Rightarrow> string \<Rightarrow> string \<Rightarrow> db \<Rightarrow> user_row res \<times> db" where
  "createMarketer k e tempPassword hex companyId creatorId name email s =
     (if find_email email s \<noteq> None then (Inl (ConflictError ''Marketer email already in use''), s)
      else
        (let u = \<lparr>u_userId = env_uuid e 0, u_email = email, u_name = Some name, u_role = MARKETER, u_companyId = Some companyId,
               u_createdById = Some creatorId, u_referredByMarketerId = None,
               u_referralCode = Some (''IFL-REF-'' @ toUpperCase (filter isAlnum name) @ ''-'' @ toUpperCase hex),
               u_password = bcryptHash k (env_uuid e 1) tempPassword, u_active = True, u_forcePasswordChange = True,
               u_deletedAt = None, u_createdAt = env_now e\<rparr>
         in if \<exists>v \<in> set (users s). u_referralCode v \<noteq> None \<and> u_referralCode v = u_referralCode u
            then (Inl (UniqueViolation ''referralCode''), s)
            else (Inr u, emit (Event ''STAFF_CREATED'' email) (s\<lparr>users := users s @ [u]\<rparr>))))"

record company_register_input =
  cr_companyName :: string
  cr_adminName :: string
  cr_email :: string
  cr_password :: string
  cr_planId :: ident

definition startOnboarding :: "keys \<Rightarrow> env \<Rightarrow> company_register_input \<Rightarrow> db \<Rightarrow> onboarding_intent_row res \<times> db" where
  "startOnboarding k e d s =
     (if find_email (cr_email d) s \<noteq> None then (Inl (ConflictError ''Admin email already in use''), s)
      else if \<exists>c \<in> set (companies s). co_name c = cr_companyName d then (Inl (ConflictError ''Company name already taken''), s)
      else if find_plan (cr_planId d) s = None then (Inl (ForeignKeyViolation ''planId''), s)
      else
        (let hash = bcryptHash k (env_uuid e 1) (cr_password d)
         in case find (\<lambda>x. oi_email x = cr_email d) (onboardingIntents s) of
              Some oi \<Rightarrow>
                (let f = (\<lambda>x. x\<lparr>oi_companyName := cr_companyName d, oi_adminName := cr_adminName d, oi_passwordHash := hash,
                       oi_planId := cr_planId d, oi_status := OnboardingStatus.PENDING\<rparr>)
                 in (Inr (f oi), s\<lparr>onboardingIntents := update_where (\<lambda>x. oi_email x = cr_email d) f (onboardingIntents s)\<rparr>))
            | None \<Rightarrow>
                (let oi = \<lparr>oi_intentId = env_uuid e 0, oi_email = cr_email d, oi_companyName = cr_companyName d,
                       oi_adminName = cr_adminName d, oi_passwordHash = hash, oi_planId = cr_planId d,
                       oi_paymentReference = None, oi_status = OnboardingStatus.PENDING\<rparr>
                 in (Inr oi, s\<lparr>onboardingIntents := onboardingIntents s @ [oi]\<rparr>))))"

end
