(* ===== verification/Paging.thy ===== *)
theory Paging
  imports Installments
begin

text \<open>
  The pages the list endpoints share (\<open>skip\<close>, \<open>take\<close> and the pagination object of
  \<open>src/core/services/user-management.service.ts\<close>, \<open>product.service.ts\<close> and others).  Prisma orders
  by the given column; rows it leaves tied keep the table's order here.
\<close>

definition pageOf :: "int \<Rightarrow> int \<Rightarrow> 'a list \<Rightarrow> 'a list" where
  "pageOf page limit xs = take (nat limit) (drop (nat ((page - 1) * limit)) xs)"

definition ceilPages :: "int \<Rightarrow> int \<Rightarrow> int" where
  "ceilPages rows limit = \<lceil>(of_int rows / of_int limit :: rat)\<rceil>"

definition paginationOf :: "int \<Rightarrow> int \<Rightarrow> int \<Rightarrow> pagination" where
  "paginationOf page limit rows =
     \<lparr>pg_total = rows, pg_totalPages = ceilPages rows limit, pg_currentPage = page, pg_limit = limit,
      pg_hasNextPage = (page < ceilPages rows limit), pg_hasPreviousPage = (1 < page)\<rparr>"

definition orderByTime :: "bool \<Rightarrow> ('a \<Rightarrow> time) \<Rightarrow> 'a list \<Rightarrow> 'a list" where
  "orderByTime desc k xs = sort_key (\<lambda>x. if desc then - k x else k x) xs"

lemma set_orderByTime [simp]: "set (orderByTime desc k xs) = set xs" "length (orderByTime desc k xs) = length xs"
  by (simp_all add: orderByTime_def)

text \<open>The pages from the first to the last are the whole list, cut.\<close>

lemma chunks:
  assumes "0 < n" "length xs \<le> n * m"
  shows "concat (map (\<lambda>i. take n (drop (n * i) xs)) [0..<m]) = xs"
proof -
  have "concat (map (\<lambda>i. take n (drop (n * i) xs)) [0..<m]) = take (n * m) xs"
  proof (induction m)
    case (Suc m)
    have "take (n * m + n) xs = take (n * m) xs @ take n (drop (n * m) xs)" by (rule take_add)
    then show ?case using Suc by (simp add: add.commute)
  qed simp
  then show ?thesis using assms(2) by simp
qed

lemma ceilPages_nat:
  assumes "0 < limit" "0 \<le> rows"
  shows "rows \<le> limit * ceilPages rows limit" "0 \<le> ceilPages rows limit"
    "limit * (ceilPages rows limit - 1) < rows \<or> rows = 0"
proof -
  have l: "(0 :: rat) < of_int limit" using assms(1) by simp
  have "(of_int rows / of_int limit :: rat) \<le> of_int (ceilPages rows limit)"
    by (simp add: ceilPages_def le_of_int_ceiling)
  then have "(of_int rows :: rat) \<le> of_int (limit * ceilPages rows limit)"
    using l by (simp add: pos_divide_le_eq mult.commute)
  then show "rows \<le> limit * ceilPages rows limit" by linarith
  have "(of_int (ceilPages rows limit) - 1 :: rat) < of_int rows / of_int limit"
    by (simp add: ceilPages_def ceiling_less_iff[symmetric]) linarith
  then have "(of_int (ceilPages rows limit) - 1 :: rat) * of_int limit < of_int rows"
    using l by (simp add: pos_less_divide_eq del: less_diff_eq diff_less_eq)
  then have "(of_int (limit * (ceilPages rows limit - 1)) :: rat) < of_int rows" by (simp add: mult.commute)
  then show "limit * (ceilPages rows limit - 1) < rows \<or> rows = 0" by linarith
  have "(0 :: rat) \<le> of_int rows / of_int limit" using assms by simp
  then show "0 \<le> ceilPages rows limit" unfolding ceilPages_def by linarith
qed

text \<open>
  The pages an endpoint counts are exactly the list: reading them from the first to \<open>totalPages\<close> gives
  every row once and in order, the last page is not empty, and \<open>hasNextPage\<close> is false only on the
  last one.
\<close>

theorem pages_cover_the_list:
  fixes xs :: "'a list" and page :: int
  assumes "0 < limit"
  defines "pages \<equiv> pg_totalPages (paginationOf page limit (int (length xs)))"
  shows "concat (map (\<lambda>p. pageOf p limit xs) [1..pages]) = xs \<and>
    (xs \<noteq> [] \<longrightarrow> pageOf pages limit xs \<noteq> []) \<and>
    (pg_hasNextPage (paginationOf page limit (int (length xs))) \<longleftrightarrow> page < pages)"
proof -
  let ?n = "nat limit" and ?m = "nat pages"
  have p: "pages = ceilPages (int (length xs)) limit" by (simp add: pages_def paginationOf_def)
  note c = ceilPages_nat[OF assms(1), of "int (length xs)", folded p]
  have m: "[1..pages] = map (\<lambda>i. int i + 1) [0..<?m]"
    using c(2) by (auto simp: list_eq_iff_nth_eq)
  have "pageOf (int i + 1) limit xs = take ?n (drop (?n * i) xs)" for i
    using assms(1) by (simp add: pageOf_def nat_mult_distrib mult.commute)
  moreover have "length xs \<le> ?n * ?m"
    using c(1,2) assms(1) by (simp add: nat_mult_distrib[symmetric] nat_le_iff le_nat_iff)
  ultimately have "concat (map (\<lambda>p. pageOf p limit xs) [1..pages]) = xs"
    unfolding m using chunks[of ?n xs ?m] assms(1) by (simp add: comp_def)
  moreover have "pageOf pages limit xs \<noteq> []" if "xs \<noteq> []"
  proof -
    have "(pages - 1) * limit < int (length xs)" using c(3) that by (simp add: mult.commute)
    moreover have "0 < length xs" using that by simp
    ultimately have "nat ((pages - 1) * limit) < length xs" by linarith
    then show ?thesis using assms(1) by (simp add: pageOf_def)
  qed
  ultimately show ?thesis by (simp add: p paginationOf_def)
qed

theorem pages_cover_the_list_witness:
  "concat (map (\<lambda>p. pageOf p 2 [1 :: int, 2, 3]) [1..pg_totalPages (paginationOf 1 2 3)]) = [1, 2, 3]"
  using pages_cover_the_list[of 2 "[1 :: int, 2, 3]" 1] by simp

end
