(* ===== verification/UserManagement.thy ===== *)
theory UserManagement
  imports Auth Paging
begin

text \<open>
  The staff of a company, \<open>src/core/services/user-management.service.ts\<close>: admins and marketers are
  listed, created, suspended and deleted by the company account; an admin asks for a marketer's
  suspension or deletion and the company decides.  The recent payout requests of
  \<open>getMarketerDetails\<close> are ordered by a column the payout table here does not have and are left out.
\<close>

section \<open>Admins\<close>

definition staff :: "ident \<Rightarrow> Role \<Rightarrow> user_row \<Rightarrow> bool" where
  "staff companyId role u \<longleftrightarrow> u_companyId u = Some companyId \<and> u_role u = role \<and> u_deletedAt u = None"

definition findStaff :: "ident \<Rightarrow> Role \<Rightarrow> ident \<Rightarrow> db \<Rightarrow> user_row option" where
  "findStaff companyId role uid s = find (\<lambda>u. u_userId u = uid \<and> staff companyId role u) (users s)"

definition createdMarketers :: "ident \<Rightarrow> db \<Rightarrow> user_row list" where
  "createdMarketers uid s = filter (\<lambda>u. u_createdById u = Some uid \<and> u_role u = MARKETER \<and> u_deletedAt u = None) (users s)"

record admin_listing =
  ad_user :: user_row
  ad_marketerCount :: nat
  ad_requestedApprovals :: nat

definition getAssociatedAdmins :: "ident \<Rightarrow> int \<Rightarrow> int \<Rightarrow> bool \<Rightarrow> db \<Rightarrow> admin_listing list \<times> pagination" where
  "getAssociatedAdmins companyId page limit desc s =
     (let admins = filter (staff companyId ADMIN) (users s)
      in (map (\<lambda>u. \<lparr>ad_user = u, ad_marketerCount = length (createdMarketers (u_userId u) s),
             ad_requestedApprovals = count_where (\<lambda>r. ar_requestedById r = u_userId u) (approvalRequests s)\<rparr>)
            (pageOf page limit (orderByTime desc u_createdAt admins)),
          paginationOf page limit (int (length admins))))"

definition referredUsers :: "ident \<Rightarrow> db \<Rightarrow> user_row list" where
  "referredUsers uid s = filter (\<lambda>u. u_referredByMarketerId u = Some uid) (users s)"

definition contractsOfReferred :: "(ident \<Rightarrow> bool) \<Rightarrow> db \<Rightarrow> contract_row list" where
  "contractsOfReferred p s =
     filter (\<lambda>c. case fc_userId c of None \<Rightarrow> False
        | Some uid \<Rightarrow> (case find_user uid s of None \<Rightarrow> False
            | Some u \<Rightarrow> (case u_referredByMarketerId u of None \<Rightarrow> False | Some m \<Rightarrow> p m))) (contracts s)"

record admin_details =
  av_user :: user_row
  av_marketers :: "(user_row \<times> nat) list"
  av_customerCount :: nat
  av_financingContractGenerated :: decimal
  av_financingContractCount :: nat
  av_totalCommissionGenerated :: decimal
  av_totalCommissionRecords :: nat

definition getAdminDetails :: "ident \<Rightarrow> ident \<Rightarrow> db \<Rightarrow> admin_details res" where
  "getAdminDetails companyId adminId s =
     (case findStaff companyId ADMIN adminId s of
        None \<Rightarrow> Inl (NotFoundError ''Admin not found'')
      | Some admin \<Rightarrow>
          (let marketers = createdMarketers adminId s;
               ids = map u_userId marketers;
               cs = contractsOfReferred (\<lambda>m. m \<in> set ids) s
           in Inr \<lparr>av_user = admin, av_marketers = map (\<lambda>m. (m, length (referredUsers (u_userId m) s))) marketers,
                av_customerCount = count_where (\<lambda>u. case u_referredByMarketerId u of None \<Rightarrow> False | Some m \<Rightarrow> m \<in> set ids) (users s),
                av_financingContractGenerated = sum_list (map fc_totalFinanced cs), av_financingContractCount = length cs,
                av_totalCommissionGenerated = sum_where (\<lambda>c. cm_userId c \<in> set ids) cm_amount (commissions s),
                av_totalCommissionRecords = count_where (\<lambda>c. cm_userId c \<in> set ids) (commissions s)\<rparr>))"

definition createAdmin :: "keys \<Rightarrow> env \<Rightarrow> string \<Rightarrow> ident \<Rightarrow> ident \<Rightarrow> string \<Rightarrow> string \<Rightarrow> db \<Rightarrow> user_row res \<times> db" where
  "createAdmin k e tempPassword companyId creatorId name email s =
     (if find_email email s \<noteq> None then (Inl (ConflictError ''Email already in use''), s)
      else
        (let u = \<lparr>u_userId = env_uuid e 0, u_email = email, u_name = Some name, u_role = ADMIN, u_companyId = Some companyId,
               u_createdById = Some creatorId, u_referredByMarketerId = None, u_referralCode = None,
               u_password = bcryptHash k (env_uuid e 1) tempPassword, u_active = True, u_forcePasswordChange = True,
               u_deletedAt = None, u_createdAt = env_now e\<rparr>
         in (Inr u, emit (Event ''STAFF_CREATED'' email) (s\<lparr>users := users s @ [u]\<rparr>))))"

section \<open>Suspending and deleting\<close>

definition statusName :: "bool \<Rightarrow> string" where
  "statusName active = (if active then ''ACTIVE'' else ''SUSPENDED'')"

text \<open>Write the negation of the flag that was read; a suspension ends the sessions.\<close>

definition toggleActive :: "user_row \<Rightarrow> db \<Rightarrow> db" where
  "toggleActive read s =
     (let s1 = update_user (u_userId read) (\<lambda>u. u\<lparr>u_active := \<not> u_active read\<rparr>) s
      in if u_active read then revokeAll (u_userId read) s1 else s1)"

definition softDelete :: "env \<Rightarrow> ident \<Rightarrow> db \<Rightarrow> db" where
  "softDelete e uid s =
     revokeAll uid (update_user uid (\<lambda>u. u\<lparr>u_deletedAt := Some (env_now e), u_active := False\<rparr>) s)"

definition activeAdmins :: "ident \<Rightarrow> db \<Rightarrow> nat" where
  "activeAdmins companyId s = count_where (\<lambda>u. staff companyId ADMIN u \<and> u_active u) (users s)"

definition toggleAdminStatus :: "ident \<Rightarrow> ident \<Rightarrow> db \<Rightarrow> bool res \<times> db" where
  "toggleAdminStatus companyId adminId s =
     (case findStaff companyId ADMIN adminId s of
        None \<Rightarrow> (Inl (NotFoundError ''Admin not found or you do not have permission to manage this admin''), s)
      | Some admin \<Rightarrow>
          if u_active admin \<and> activeAdmins companyId s \<le> 1
          then (Inl (BadRequestError ''You cannot suspend the last active admin.''), s)
          else (Inr (\<not> u_active admin),
                emit (Event (''ADMIN_TOGGLE_STATUS '' @ statusName (\<not> u_active admin)) adminId) (toggleActive admin s)))"

definition softDeleteAdmin :: "env \<Rightarrow> ident \<Rightarrow> ident \<Rightarrow> db \<Rightarrow> unit res \<times> db" where
  "softDeleteAdmin e companyId adminId s =
     (case findStaff companyId ADMIN adminId s of
        None \<Rightarrow> (Inl (NotFoundError ''Admin not found or already deleted''), s)
      | Some admin \<Rightarrow> (Inr (), emit (Event ''ADMIN_ACCOUNT_DELETED'' adminId) (softDelete e adminId s)))"

definition ownMarketer :: "ident \<Rightarrow> ident \<Rightarrow> ident \<Rightarrow> db \<Rightarrow> user_row option" where
  "ownMarketer companyId companyUserId marketerId s =
     find (\<lambda>u. u_userId u = marketerId \<and> staff companyId MARKETER u \<and> u_createdById u = Some companyUserId) (users s)"

definition toggleCompanyMarketerStatus :: "ident \<Rightarrow> ident \<Rightarrow> ident \<Rightarrow> db \<Rightarrow> bool res \<times> db" where
  "toggleCompanyMarketerStatus companyId companyUserId marketerId s =
     (case ownMarketer companyId companyUserId marketerId s of
        None \<Rightarrow> (Inl (NotFoundError ''Marketer not found or you do not have permission to manage this marketer''), s)
      | Some m \<Rightarrow> (Inr (\<not> u_active m),
          emit (Event (''MARKETER_TOGGLE_STATUS '' @ statusName (\<not> u_active m)) marketerId) (toggleActive m s)))"

definition deleteCompanyMarketer :: "env \<Rightarrow> ident \<Rightarrow> ident \<Rightarrow> ident \<Rightarrow> db \<Rightarrow> unit res \<times> db" where
  "deleteCompanyMarketer e companyId companyUserId marketerId s =
     (case ownMarketer companyId companyUserId marketerId s of
        None \<Rightarrow> (Inl (NotFoundError ''Marketer not found or you do not have permission to manage this marketer''), s)
      | Some m \<Rightarrow> (Inr (), emit (Event ''MARKETER_ACCOUNT_DELETED'' marketerId) (softDelete e marketerId s)))"

section \<open>Approval requests\<close>

definition getApprovalsByStatus :: "ident \<Rightarrow> ApprovalStatus \<Rightarrow> int \<Rightarrow> int \<Rightarrow> db \<Rightarrow> approval_row list \<times> int \<times> int" where
  "getApprovalsByStatus companyId status page limit s =
     (let rows = filter (\<lambda>r. ar_companyId r = companyId \<and> ar_status r = status) (approvalRequests s)
      in (pageOf page limit (orderByTime True ar_createdAt rows), int (length rows), ceilPages (int (length rows)) limit))"

definition getPendingApprovals :: "ident \<Rightarrow> int \<Rightarrow> int \<Rightarrow> db \<Rightarrow> approval_row list \<times> int \<times> int" where
  "getPendingApprovals companyId page limit s = getApprovalsByStatus companyId ApprovalStatus.PENDING page limit s"

definition update_approval :: "ident \<Rightarrow> (approval_row \<Rightarrow> approval_row) \<Rightarrow> db \<Rightarrow> db" where
  "update_approval rid f s = s\<lparr>approvalRequests := update_where (\<lambda>r. ar_requestId r = rid) f (approvalRequests s)\<rparr>"

definition ensureAdminCanManageMarketer :: "ident \<Rightarrow> ident \<Rightarrow> db \<Rightarrow> user_row res" where
  "ensureAdminCanManageMarketer companyId marketerId s =
     (case findStaff companyId MARKETER marketerId s of
        None \<Rightarrow> Inl (NotFoundError ''Marketer not found or deleted'')
      | Some m \<Rightarrow>
          if (case u_createdById m of None \<Rightarrow> False
              | Some c \<Rightarrow> (case find_user c s of None \<Rightarrow> False | Some creator \<Rightarrow> u_role creator = COMPANY))
          then Inl (ForbiddenError ''You cannot modify a marketer created by the Company Owner.'')
          else Inr m)"

definition pendingRequest :: "ident \<Rightarrow> ident \<Rightarrow> ApprovalAction \<Rightarrow> approval_row \<Rightarrow> bool" where
  "pendingRequest companyId targetId action r \<longleftrightarrow>
     ar_companyId r = companyId \<and> ar_targetUserId r = targetId \<and> ar_action r = action \<and> ar_status r = ApprovalStatus.PENDING"

definition createRequest ::
  "env \<Rightarrow> ApprovalAction \<Rightarrow> string \<Rightarrow> string \<Rightarrow> ident \<Rightarrow> ident \<Rightarrow> ident \<Rightarrow> string option \<Rightarrow> db \<Rightarrow> approval_row res \<times> db" where
  "createRequest e action conflict note' companyId marketerId adminId reason s =
     (case ensureAdminCanManageMarketer companyId marketerId s of
        Inl err \<Rightarrow> (Inl err, s)
      | Inr m \<Rightarrow>
          if \<exists>r \<in> set (approvalRequests s). pendingRequest companyId marketerId action r then (Inl (ConflictError conflict), s)
          else (let r = \<lparr>ar_requestId = env_uuid e 0, ar_companyId = companyId, ar_requestedById = adminId,
                    ar_targetUserId = marketerId, ar_action = action, ar_reason = reason, ar_status = ApprovalStatus.PENDING,
                    ar_reviewReason = None, ar_reviewedAt = None, ar_createdAt = env_now e\<rparr>
                in (Inr r, emit (Notify note' (env_uuid e 0)) (s\<lparr>approvalRequests := approvalRequests s @ [r]\<rparr>))))"

definition requestMarketerToggle ::
  "env \<Rightarrow> ident \<Rightarrow> ident \<Rightarrow> ident \<Rightarrow> string option \<Rightarrow> db \<Rightarrow> approval_row res \<times> db" where
  "requestMarketerToggle e = createRequest e TOGGLE_ACTIVE ''A toggle request is already pending for this user.'' ''MARKETER_TOGGLE_REQUEST''"

definition requestMarketerDeletion ::
  "env \<Rightarrow> ident \<Rightarrow> ident \<Rightarrow> ident \<Rightarrow> string option \<Rightarrow> db \<Rightarrow> approval_row res \<times> db" where
  "requestMarketerDeletion e = createRequest e SOFT_DELETE ''A deletion request is already pending for this user.'' ''MARKETER_DELETE_REQUEST''"

text \<open>The writes of an approval; unlike the company's own switch, a suspension leaves the sessions alone.\<close>

definition executeRequest :: "env \<Rightarrow> approval_row \<Rightarrow> user_row \<Rightarrow> db \<Rightarrow> db" where
  "executeRequest e r target s =
     (let s1 = update_approval (ar_requestId r) (\<lambda>x. x\<lparr>ar_status := ApprovalStatus.APPROVED, ar_reviewedAt := Some (env_now e)\<rparr>) s
      in case ar_action r of
           TOGGLE_ACTIVE \<Rightarrow> update_user (ar_targetUserId r) (\<lambda>u. u\<lparr>u_active := \<not> u_active target\<rparr>) s1
         | SOFT_DELETE \<Rightarrow> softDelete e (ar_targetUserId r) s1)"

definition handleApprovalRequest ::
  "env \<Rightarrow> ident \<Rightarrow> ident \<Rightarrow> bool \<Rightarrow> string option \<Rightarrow> db \<Rightarrow> unit res \<times> db" where
  "handleApprovalRequest e companyId requestId approved reviewReason s =
     (case find (\<lambda>r. ar_requestId r = requestId \<and> ar_companyId r = companyId \<and> ar_status r = ApprovalStatus.PENDING) (approvalRequests s) of
        None \<Rightarrow> (Inl (NotFoundError ''Pending approval request not found''), s)
      | Some r \<Rightarrow>
     (case find_user (ar_targetUserId r) s of
        None \<Rightarrow> (Inl (PlainError ''targetUser''), s)
      | Some target \<Rightarrow>
          if \<not> approved
          then (Inr (), emit (Notify (case ar_action r of TOGGLE_ACTIVE \<Rightarrow> ''MARKETER_TOGGLE_REJECTED''
                   | SOFT_DELETE \<Rightarrow> ''MARKETER_DELETE_REJECTED'') requestId)
                 (update_approval requestId (\<lambda>x. x\<lparr>ar_status := ApprovalStatus.REJECTED, ar_reviewReason := reviewReason,
                    ar_reviewedAt := Some (env_now e)\<rparr>) s))
          else (Inr (), emit (case ar_action r of
                   SOFT_DELETE \<Rightarrow> Event ''MARKETER_ACCOUNT_DELETED'' (ar_targetUserId r)
                 | TOGGLE_ACTIVE \<Rightarrow> Event (''MARKETER_TOGGLE_STATUS '' @ statusName (u_active target)) (ar_targetUserId r))
                 (executeRequest e r target s))))"

section \<open>Marketers\<close>

definition findViewer :: "ident \<Rightarrow> ident \<Rightarrow> db \<Rightarrow> user_row option" where
  "findViewer companyId adminId s =
     find (\<lambda>u. u_userId u = adminId \<and> u_companyId u = Some companyId \<and> u_role u \<in> {ADMIN, COMPANY} \<and> u_deletedAt u = None) (users s)"

definition visibleMarketer :: "ident \<Rightarrow> user_row \<Rightarrow> user_row \<Rightarrow> bool" where
  "visibleMarketer companyId viewer u \<longleftrightarrow>
     staff companyId MARKETER u \<and> (u_role viewer = ADMIN \<longrightarrow> u_createdById u = Some (u_userId viewer))"

definition getAdminMarketers ::
  "ident \<Rightarrow> ident \<Rightarrow> int \<Rightarrow> int \<Rightarrow> bool \<Rightarrow> db \<Rightarrow> ((user_row \<times> nat) list \<times> pagination) res" where
  "getAdminMarketers adminId companyId page limit desc s =
     (case findViewer companyId adminId s of
        None \<Rightarrow> Inl (ForbiddenError ''You are not allowed to access these marketers.'')
      | Some viewer \<Rightarrow>
          (let marketers = filter (visibleMarketer companyId viewer) (users s)
           in Inr (map (\<lambda>m. (m, length (referredUsers (u_userId m) s))) (pageOf page limit (orderByTime desc u_createdAt marketers)),
                paginationOf page limit (int (length marketers)))))"

record marketer_details =
  mv_user :: user_row
  mv_creator :: "user_row option"
  mv_bankAccounts :: "marketer_bank_row list"
  mv_referredCustomers :: nat
  mv_approvedKycApplications :: nat
  mv_financingContracts :: nat
  mv_totalFinancedVolume :: decimal
  mv_totalCommissionGenerated :: decimal
  mv_totalCommissionRecords :: nat
  mv_totalPayoutRequested :: decimal
  mv_totalPayoutRequests :: nat
  mv_recentCustomers :: "user_row list"

definition getMarketerDetails :: "ident \<Rightarrow> ident \<Rightarrow> ident \<Rightarrow> db \<Rightarrow> marketer_details res" where
  "getMarketerDetails companyId adminId marketerId s =
     (case findViewer companyId adminId s of
        None \<Rightarrow> Inl (ForbiddenError ''You are not allowed to access this marketer.'')
      | Some viewer \<Rightarrow>
     (case find (\<lambda>u. u_userId u = marketerId \<and> visibleMarketer companyId viewer u) (users s) of
        None \<Rightarrow> Inl (NotFoundError ''Marketer not found'')
      | Some m \<Rightarrow>
          (let cs = contractsOfReferred (\<lambda>x. x = marketerId) s
           in Inr \<lparr>mv_user = m, mv_creator = (case u_createdById m of None \<Rightarrow> None | Some c \<Rightarrow> find_user c s),
                mv_bankAccounts = orderByTime True mb_createdAt (filter (\<lambda>b. mb_userId b = marketerId) (marketerBanks s)),
                mv_referredCustomers = length (referredUsers marketerId s),
                mv_approvedKycApplications = count_where (\<lambda>a. ka_status a = KycApplicationStatus.APPROVED \<and>
                  (case ka_userId a of None \<Rightarrow> False
                   | Some uid \<Rightarrow> (case find_user uid s of None \<Rightarrow> False
                       | Some u \<Rightarrow> u_referredByMarketerId u = Some marketerId))) (kycApplications s),
                mv_financingContracts = length cs, mv_totalFinancedVolume = sum_list (map fc_totalFinanced cs),
                mv_totalCommissionGenerated = sum_where (\<lambda>c. cm_userId c = marketerId) cm_amount (commissions s),
                mv_totalCommissionRecords = count_where (\<lambda>c. cm_userId c = marketerId) (commissions s),
                mv_totalPayoutRequested = sum_where (\<lambda>p. po_userId p = marketerId) po_amount (payouts s),
                mv_totalPayoutRequests = count_where (\<lambda>p. po_userId p = marketerId) (payouts s),
                mv_recentCustomers = take 5 (orderByTime True u_createdAt (referredUsers marketerId s))\<rparr>)))"

end
