(* ===== verification/AuthSafety.thy ===== *)
theory AuthSafety
  imports Auth UserManagement CompanyOnboarding "HOL-Library.Multiset"
begin

text \<open>
  What holds of accounts and sessions (\<open>src/core/services/auth.service.ts\<close>): the limits on reset
  codes, the end of all sessions with a new password, the passwords the program makes, and three
  limits of the code: wrong codes are not counted, a second login in the same second fails, and
  the form accepts passwords the login refuses.
\<close>

section \<open>Steps\<close>

text \<open>
  What one request may do to the sessions and the reset codes: the requests of the account, and the
  suspensions and deletions by the company and its admins (\<open>user-management.service.ts\<close>), which
  revoke sessions.  No other code writes these two tables; \<open>elsewhere\<close> stands for all of it.
\<close>

inductive auth_op :: "keys \<Rightarrow> int \<Rightarrow> env \<Rightarrow> db \<Rightarrow> db \<Rightarrow> bool" for k tz e where
  registers: "auth_op k tz e s (snd (register k tz e d s))"
| logs_in: "auth_op k tz e s (snd (login k tz e email p s))"
| revokes: "auth_op k tz e s (snd (revokeSession sid uid s))"
| logs_out: "auth_op k tz e s (logout sid' uid s)"
| forgets: "auth_op k tz e s (snd (forgotPassword k e otp email s))"
| resets: "auth_op k tz e s (snd (resetPassword k e email code p s))"
| changes: "auth_op k tz e s (snd (changePassword k e uid p p' s))"
| forces: "auth_op k tz e s (snd (forcePasswordChange k e uid p s))"
| hires: "auth_op k tz e s (snd (createMarketer k e temp hex c creator name email s))"
| switches_admin: "auth_op k tz e s (snd (toggleAdminStatus c uid s))"
| deletes_admin: "auth_op k tz e s (snd (softDeleteAdmin e c uid s))"
| switches_marketer: "auth_op k tz e s (snd (toggleCompanyMarketerStatus c owner uid s))"
| deletes_marketer: "auth_op k tz e s (snd (deleteCompanyMarketer e c owner uid s))"
| decides: "auth_op k tz e s (snd (handleApprovalRequest e c rid approved note' s))"
| elsewhere: "passwordResets t = passwordResets s \<Longrightarrow> userSessions t = userSessions s \<Longrightarrow> auth_op k tz e s t"

text \<open>A run of requests with a clock that never goes back.\<close>

inductive auth_run :: "keys \<Rightarrow> int \<Rightarrow> time \<Rightarrow> db \<Rightarrow> time \<Rightarrow> db \<Rightarrow> bool" for k tz t s where
  start: "auth_run k tz t s t s"
| later: "auth_run k tz t s t1 s1 \<Longrightarrow> t1 \<le> env_now e \<Longrightarrow> auth_op k tz e s1 s2 \<Longrightarrow> auth_run k tz t s (env_now e) s2"

section \<open>Tables a request writes\<close>

lemma auth_write_simps [simp]:
  "passwordResets (update_user i f s) = passwordResets s" "userSessions (update_user i f s) = userSessions s"
  "passwordResets (revokeAll i s) = passwordResets s" "passwordResets (revokeOne i s) = passwordResets s"
  "userSessions (invalidateResets i s) = userSessions s" "userSessions (update_reset n g s) = userSessions s"
  "passwordResets (setPassword i h s) = passwordResets s" "userSessions (setPassword i h s) = userSessions s"
  "users (revokeAll i s) = users s" "users (update_reset n g s) = users s"
  "passwordResets (update_reset n g s) = update_where (\<lambda>r. rs_id r = n) g (passwordResets s)"
  "passwordResets (update_approval i h' s) = passwordResets s" "userSessions (update_approval i h' s) = userSessions s"
  by (simp_all add: update_user_def revokeAll_def revokeOne_def invalidateResets_def update_reset_def setPassword_def
      update_approval_def)

text \<open>The staff operations leave the reset codes alone.\<close>

lemma staff_write_resets [simp]:
  "passwordResets (toggleActive u s) = passwordResets s" "passwordResets (softDelete e i s) = passwordResets s"
  "passwordResets (snd (toggleAdminStatus c i s)) = passwordResets s"
  "passwordResets (snd (softDeleteAdmin e c i s)) = passwordResets s"
  "passwordResets (snd (toggleCompanyMarketerStatus c owner i s)) = passwordResets s"
  "passwordResets (snd (deleteCompanyMarketer e c owner i s)) = passwordResets s"
  "passwordResets (snd (handleApprovalRequest e c rid approved note' s)) = passwordResets s"
  by (simp_all add: toggleActive_def softDelete_def Let_def toggleAdminStatus_def softDeleteAdmin_def
      toggleCompanyMarketerStatus_def deleteCompanyMarketer_def handleApprovalRequest_def executeRequest_def
      split: option.split ApprovalAction.split)

lemma issueTokens_cases:
  "snd (issueTokens k tz e u c s) = s \<or>
   (\<exists>x. snd (issueTokens k tz e u c s) = s\<lparr>userSessions := userSessions s @ [x]\<rparr> \<and>
      us_tokenHash x \<notin> us_tokenHash ` set (userSessions s) \<and> \<not> us_revoked x)"
proof -
  let ?h = "hashRefreshToken k (generateRefreshToken k (claims u c) (signedAt (env_now e)))"
  show ?thesis
  proof (cases "\<exists>x \<in> set (userSessions s). us_tokenHash x = ?h")
    case True then show ?thesis by (simp add: issueTokens_def Let_def createUserSession_def)
  next
    case False then show ?thesis
      by (intro disjI2 exI[of _ "\<lparr>us_sessionId = env_uuid e 1, us_userId = u_userId u, us_tokenHash = ?h, us_createdAt = env_now e,
             us_expiresAt = setDate tz (env_now e) (getDate tz (env_now e) + 7), us_revoked = False\<rparr>"])
        (auto simp: issueTokens_def Let_def createUserSession_def)
  qed
qed

text \<open>Of the sessions: rows are kept with their hash, revocations stay, and hashes stay distinct.\<close>

definition sessions_follow :: "user_session_row list \<Rightarrow> user_session_row list \<Rightarrow> bool" where
  "sessions_follow xs ys \<longleftrightarrow> (distinct (map us_tokenHash xs) \<longrightarrow> distinct (map us_tokenHash ys)) \<and>
     (\<forall>x \<in> set xs. us_revoked x \<longrightarrow> (\<exists>y \<in> set ys. us_tokenHash y = us_tokenHash x \<and> us_revoked y))"

lemma sessions_follow_refl [simp]: "sessions_follow xs xs"
  by (auto simp: sessions_follow_def)

lemma sessions_follow_update: "sessions_follow xs (update_where p (\<lambda>x. x\<lparr>us_revoked := True\<rparr>) xs)"
proof -
  have m: "map us_tokenHash (update_where p (\<lambda>x. x\<lparr>us_revoked := True\<rparr>) xs) = map us_tokenHash xs" by (rule map_update_where) simp
  have "\<exists>y \<in> set (update_where p (\<lambda>x. x\<lparr>us_revoked := True\<rparr>) xs). us_tokenHash y = us_tokenHash x \<and> us_revoked y"
    if "x \<in> set xs" "us_revoked x" for x
    by (rule bexI[of _ "if p x then x\<lparr>us_revoked := True\<rparr> else x"]) (use that in \<open>auto simp: set_update_where\<close>)
  with m show ?thesis by (simp add: sessions_follow_def)
qed

lemma sessions_follow_append: "us_tokenHash x \<notin> us_tokenHash ` set xs \<Longrightarrow> sessions_follow xs (xs @ [x])"
  by (auto simp: sessions_follow_def)

lemma sessions_follow_trans: "sessions_follow xs ys \<Longrightarrow> sessions_follow ys zs \<Longrightarrow> sessions_follow xs zs"
  unfolding sessions_follow_def by metis

lemma issueTokens_follow: "sessions_follow (userSessions s) (userSessions (snd (issueTokens k tz e u c s)))"
  using issueTokens_cases[of k tz e u c s] by (auto intro: sessions_follow_append)

lemma issueTokens_resets [simp]: "passwordResets (snd (issueTokens k tz e u c s)) = passwordResets s"
  using issueTokens_cases[of k tz e u c s] by auto

lemma register_tables:
  "passwordResets (snd (register k tz e d s)) = passwordResets s"
  "sessions_follow (userSessions s) (userSessions (snd (register k tz e d s)))"
proof -
  let ?s = "s\<lparr>users := users s @ [registered k e d]\<rparr>"
  obtain x t where t: "issueTokens k tz e (registered k e d) None ?s = (x, t)" by force
  have "passwordResets t = passwordResets s" "sessions_follow (userSessions s) (userSessions t)"
    using issueTokens_resets[of k tz e "registered k e d" None ?s] issueTokens_follow[of ?s k tz e "registered k e d" None]
    by (simp_all add: t)
  then show "passwordResets (snd (register k tz e d s)) = passwordResets s"
    "sessions_follow (userSessions s) (userSessions (snd (register k tz e d s)))"
    by (cases x; simp add: register_def t)+
qed

lemma revokeAll_follow: "sessions_follow (userSessions s) (userSessions (revokeAll i s))"
  by (simp add: revokeAll_def sessions_follow_update)

text \<open>What a suspension or a deletion does to the sessions.\<close>

lemma staff_write_follow:
  "sessions_follow (userSessions s) (userSessions (toggleActive u s))"
  "sessions_follow (userSessions s) (userSessions (softDelete e i s))"
  using revokeAll_follow[of "update_user _ _ s"] by (simp_all add: toggleActive_def softDelete_def Let_def)

lemma executeRequest_follow: "sessions_follow (userSessions s) (userSessions (executeRequest e r target s))"
  using staff_write_follow(2)[of "update_approval _ _ s"] by (simp add: executeRequest_def Let_def split: ApprovalAction.split)

lemma auth_op_sessions: "auth_op k tz e s t \<Longrightarrow> sessions_follow (userSessions s) (userSessions t)"
proof (induction rule: auth_op.induct)
  case (registers s d) show ?case by (rule register_tables)
next
  case (logs_in s email p)
  show ?case by (simp add: login_def issueTokens_follow split: option.splits)
next
  case (revokes s sid uid)
  show ?case by (simp add: revokeSession_def revokeOne_def sessions_follow_update split: option.splits)
next
  case (logs_out s sid' uid)
  show ?case by (simp add: logout_def revokeOne_def revokeAll_def sessions_follow_update split: option.splits)
next
  case (resets s email code p)
  show ?case by (simp add: resetPassword_def revokeAll_def[of _ "update_reset _ _ _"] sessions_follow_update split: option.splits)
next
  case (changes s uid p p')
  show ?case by (simp add: changePassword_def revokeAll_def sessions_follow_update split: option.splits)
next
  case (switches_admin s c uid)
  show ?case by (simp add: toggleAdminStatus_def staff_write_follow split: option.split)
next
  case (deletes_admin s c uid)
  show ?case by (simp add: softDeleteAdmin_def staff_write_follow split: option.split)
next
  case (switches_marketer s c owner uid)
  show ?case by (simp add: toggleCompanyMarketerStatus_def staff_write_follow split: option.split)
next
  case (deletes_marketer s c owner uid)
  show ?case by (simp add: deleteCompanyMarketer_def staff_write_follow split: option.split)
next
  case (decides s c rid approved note')
  show ?case by (simp add: handleApprovalRequest_def executeRequest_follow split: option.split)
qed (simp_all add: forgotPassword_def forcePasswordChange_def createMarketer_def Let_def split: option.splits)

lemma auth_run_sessions: "auth_run k tz t s t' s' \<Longrightarrow> sessions_follow (userSessions s) (userSessions s')"
  by (induction rule: auth_run.induct) (auto intro: sessions_follow_trans auth_op_sessions)

lemma dead_token:
  assumes "distinct (map us_tokenHash (userSessions s))" "y \<in> set (userSessions s)" "us_revoked y"
    "us_tokenHash y = hashRefreshToken k rt"
  shows "\<exists>m. refresh k e rt s = Inl (UnauthorizedError m)"
proof -
  have "find (\<lambda>x. us_tokenHash x = hashRefreshToken k rt) (userSessions s) = Some y"
    using find_unique_key[OF assms(1,2)] assms(4) by simp
  then show ?thesis using assms(3) by (simp add: refresh_def split: option.split)
qed

text \<open>C28: A successful password reset ends every session of the account for good: whatever requests follow,
  logins, resets, suspensions and deletions of staff among them, a refresh token issued before it is refused.
\<close>

theorem reset_ends_all_sessions:
  assumes "resetPassword k e email code p s = (Inr (), s1)" "find_email email s = Some u"
    and "distinct (map us_tokenHash (userSessions s))"
    and "x \<in> set (userSessions s)" "us_userId x = u_userId u" "us_tokenHash x = hashRefreshToken k rt"
    and "auth_run k tz t s1 t' s2"
  shows "\<exists>m. refresh k e' rt s2 = Inl (UnauthorizedError m)"
proof -
  have s1: "userSessions s1 = update_where (\<lambda>x. us_userId x = u_userId u \<and> \<not> us_revoked x) (\<lambda>x. x\<lparr>us_revoked := True\<rparr>) (userSessions s)"
    using assms(1,2) by (auto simp: resetPassword_def revokeAll_def[of _ "update_reset _ _ _"] split: option.splits if_splits)
  let ?x = "if us_userId x = u_userId u \<and> \<not> us_revoked x then x\<lparr>us_revoked := True\<rparr> else x"
  have x: "?x \<in> set (userSessions s1)" "us_revoked ?x" "us_tokenHash ?x = hashRefreshToken k rt"
    using assms(4-6) unfolding s1 set_update_where by auto
  have "sessions_follow (userSessions s) (userSessions s1)" unfolding s1 by (rule sessions_follow_update)
  then have d: "distinct (map us_tokenHash (userSessions s1))" using assms(3) by (simp add: sessions_follow_def)
  note f = auth_run_sessions[OF assms(7), unfolded sessions_follow_def]
  obtain y where "y \<in> set (userSessions s2)" "us_tokenHash y = us_tokenHash ?x" "us_revoked y" using f x(1,2) by blast
  then show ?thesis using dead_token[of s2 y k rt e'] f d x(3) by simp
qed

section \<open>Limits on reset codes\<close>

definition throttled :: "time list \<Rightarrow> bool" where
  "throttled ts \<longleftrightarrow> sorted ts \<and> (\<forall>i. Suc i < length ts \<longrightarrow> ts ! i + 60 * 1000 \<le> ts ! Suc i) \<and>
     (\<forall>i. i + 3 < length ts \<longrightarrow> ts ! i + 15 * 60 * 1000 \<le> ts ! (i + 3))"

lemma throttled_append:
  assumes "throttled ts" "\<forall>t \<in> set ts. t \<le> now" "length (filter (\<lambda>t. now - 15 * 60 * 1000 < t) ts) < 3"
    "\<forall>t \<in> set ts. now - 15 * 60 * 1000 < t \<longrightarrow> t + 60 * 1000 \<le> now"
  shows "throttled (ts @ [now])"
proof -
  have near: "t + 60 * 1000 \<le> now" if "t \<in> set ts" for t using assms(4) that by force
  have far: "ts ! i + 15 * 60 * 1000 \<le> now" if n: "i + 3 = length ts" for i
  proof (rule ccontr)
    assume a: "\<not> ts ! i + 15 * 60 * 1000 \<le> now"
    have "sorted ts" using assms(1) by (simp add: throttled_def)
    then have "ts ! i \<le> ts ! (i + j)" if "i + j < length ts" for j using that by (simp add: sorted_iff_nth_mono)
    then have "\<forall>t \<in> set (drop i ts). ts ! i \<le> t" by (auto simp: in_set_conv_nth)
    then have "\<forall>t \<in> set (drop i ts). now - 15 * 60 * 1000 < t" using a by auto
    then have "length (filter (\<lambda>t. now - 15 * 60 * 1000 < t) (drop i ts)) = 3" using n by simp
    moreover have "length (filter (\<lambda>t. now - 15 * 60 * 1000 < t) (drop i ts)) \<le> length (filter (\<lambda>t. now - 15 * 60 * 1000 < t) ts)"
      using append_take_drop_id[of i ts] by (metis filter_append length_append le_add2)
    ultimately show False using assms(3) by simp
  qed
  have "ts ! i + 60 * 1000 \<le> (ts @ [now]) ! Suc i" if "i < length ts" for i
    using that assms(1) near[of "ts ! i"] by (cases "Suc i < length ts") (auto simp: throttled_def nth_append)
  moreover have "(ts @ [now]) ! i + 15 * 60 * 1000 \<le> (ts @ [now]) ! (i + 3)" if "i + 3 < Suc (length ts)" for i
    using that assms(1) far[of i] by (cases "i + 3 < length ts") (auto simp: throttled_def nth_append)
  ultimately show ?thesis using assms(1,2) by (auto simp: throttled_def sorted_append nth_append)
qed

text \<open>At most three in every quarter of an hour.\<close>

lemma sorted_window: "sorted ts \<Longrightarrow> filter (\<lambda>t. w \<le> t \<and> t < v) ts = takeWhile (\<lambda>t. t < v) (dropWhile (\<lambda>t. t < w) ts)"
  for w v :: "'a :: linorder"
proof (induction ts)
  case (Cons t ts)
  show ?case
  proof (cases "t < w")
    case True then show ?thesis using Cons by auto
  next
    case False
    have "filter (\<lambda>t. w \<le> t \<and> t < v) (t # ts) = takeWhile (\<lambda>t. t < v) (t # ts)"
    proof -
      have "filter (\<lambda>t. w \<le> t \<and> t < v) us = takeWhile (\<lambda>t. t < v) us" if "sorted us" "\<forall>u \<in> set us. w \<le> u" for us
        using that
      proof (induction us)
        case (Cons u us)
        then show ?case by (cases "u < v"; cases us) (auto simp: filter_empty_conv)
      qed simp
      moreover have "sorted (t # ts)" "\<forall>u \<in> set (t # ts). w \<le> u" using Cons.prems False by auto
      ultimately show ?thesis .
    qed
    then show ?thesis using False by simp
  qed
qed simp

lemma throttled_window:
  assumes "throttled ts"
  shows "length (filter (\<lambda>t. w \<le> t \<and> t < w + 15 * 60 * 1000) ts) \<le> 3"
proof (rule ccontr)
  let ?v = "w + 15 * 60 * 1000"
  define ds where "ds = dropWhile (\<lambda>t. t < w) ts"
  define ws where "ws = takeWhile (\<lambda>t. t < ?v) ds"
  assume "\<not> length (filter (\<lambda>t. w \<le> t \<and> t < ?v) ts) \<le> 3"
  then have l: "3 < length ws" using assms sorted_window[of ts w ?v] by (simp add: throttled_def ws_def ds_def)
  obtain us where ts: "ts = us @ ds" using takeWhile_dropWhile_id[of "\<lambda>t. t < w" ts] ds_def by metis
  have len: "length ws \<le> length ds" by (simp add: ws_def length_takeWhile_le)
  have "ds ! i = ws ! i" if "i < length ws" for i using takeWhile_nth that unfolding ws_def by metis
  then have "ds ! 0 = ws ! 0" "ds ! 3 = ws ! 3" using l by (blast intro: order.strict_trans zero_less_numeral)+
  moreover have "w \<le> ds ! 0"
  proof -
    have n: "ds \<noteq> []" using len l by auto
    then have "\<not> hd ds < w" unfolding ds_def by (rule hd_dropWhile)
    then show ?thesis using n by (simp add: hd_conv_nth)
  qed
  moreover have "ws ! 3 < ?v" using nth_mem[OF l] by (auto simp: ws_def dest: set_takeWhileD)
  moreover have "ts ! length us + 15 * 60 * 1000 \<le> ts ! (length us + 3)"
  proof -
    have "length us + 3 < length ts" using l len by (simp add: ts)
    then show ?thesis using assms unfolding throttled_def by blast
  qed
  ultimately show False by (simp add: ts nth_append)
qed

definition requestTimes :: "ident \<Rightarrow> db \<Rightarrow> time list" where
  "requestTimes uid s = map rs_createdAt (filter (\<lambda>r. rs_userId r = uid) (passwordResets s))"

definition unusedResets :: "ident \<Rightarrow> db \<Rightarrow> password_reset_row list" where
  "unusedResets uid s = filter (\<lambda>r. rs_userId r = uid \<and> \<not> rs_used r) (passwordResets s)"

definition resets_ok :: "time \<Rightarrow> db \<Rightarrow> bool" where
  "resets_ok now s \<longleftrightarrow> (\<forall>uid. throttled (requestTimes uid s) \<and> (\<forall>t \<in> set (requestTimes uid s). t \<le> now) \<and>
     length (unusedResets uid s) \<le> 1)"

lemma resets_ok_later: "resets_ok t s \<Longrightarrow> t \<le> t' \<Longrightarrow> resets_ok t' s"
  by (fastforce simp: resets_ok_def)

text \<open>A write that keeps owner and time of every code and only closes codes.\<close>

lemma resets_ok_update:
  assumes "resets_ok now s" "passwordResets t = update_where p f (passwordResets s)"
    "\<And>r. rs_userId (f r) = rs_userId r" "\<And>r. rs_createdAt (f r) = rs_createdAt r" "\<And>r. rs_used r \<Longrightarrow> rs_used (f r)"
  shows "resets_ok now t"
proof -
  have "map rs_createdAt (filter (\<lambda>r. rs_userId r = uid) (update_where p f xs)) = map rs_createdAt (filter (\<lambda>r. rs_userId r = uid) xs)"
    for uid xs by (induction xs) (simp_all add: row_simps assms(3,4))
  then have times: "requestTimes uid t = requestTimes uid s" for uid by (simp add: requestTimes_def assms(2))
  have "length (filter (\<lambda>r. rs_userId r = uid \<and> \<not> rs_used r) (update_where p f xs)) \<le> length (filter (\<lambda>r. rs_userId r = uid \<and> \<not> rs_used r) xs)"
    for uid xs using assms(5) by (induction xs) (auto simp: row_simps assms(3) le_SucI)
  then have "length (unusedResets uid t) \<le> length (unusedResets uid s)" for uid by (simp add: unusedResets_def assms(2))
  then show ?thesis using assms(1) unfolding resets_ok_def times by (meson order_trans)
qed

lemma resets_ok_same: "resets_ok now s \<Longrightarrow> passwordResets t = passwordResets s \<Longrightarrow> resets_ok now t"
  by (simp add: resets_ok_def requestTimes_def unusedResets_def)

lemma head_of_recent:
  assumes "recentRequests now uid s \<noteq> []" "r \<in> set (recentRequests now uid s)"
  shows "rs_createdAt r \<le> rs_createdAt (hd (recentRequests now uid s))"
proof -
  have "sorted (map (\<lambda>r. - rs_createdAt r) (recentRequests now uid s))" by (simp add: recentRequests_def)
  then show ?thesis using assms by (cases "recentRequests now uid s") auto
qed

lemma resets_ok_forgot:
  assumes "resets_ok (env_now e) s"
  shows "resets_ok (env_now e) (snd (forgotPassword k e otp email s))"
proof (cases "find_email email s")
  case None then show ?thesis using assms by (simp add: forgotPassword_def)
next
  case (Some u)
  let ?now = "env_now e" and ?uid = "u_userId u" and ?s1 = "invalidateResets (u_userId u) s"
  let ?recent = "recentRequests ?now ?uid s"
  let ?r = "\<lparr>rs_id = nextResetId s, rs_userId = ?uid, rs_otpHash = bcryptHash k (env_uuid e 0) otp,
      rs_expiresAt = ?now + 10 * 60 * 1000, rs_attempts = 0, rs_used = False, rs_createdAt = ?now\<rparr>"
  show ?thesis
  proof (cases "(?recent \<noteq> [] \<and> ?now - rs_createdAt (hd ?recent) < 60 * 1000) \<or> 3 \<le> length ?recent")
    case True then show ?thesis using assms Some by (auto simp: forgotPassword_def Let_def)
  next
    case False
    let ?t = "?s1\<lparr>passwordResets := passwordResets ?s1 @ [?r]\<rparr>"
    have ok1: "resets_ok ?now ?s1" 
      by (rule resets_ok_update[OF assms, where f = "\<lambda>r. r\<lparr>rs_used := True\<rparr>" and p = "\<lambda>r. rs_userId r = ?uid \<and> \<not> rs_used r"])
        (simp_all add: invalidateResets_def)
    have times: "requestTimes uid ?s1 = requestTimes uid s" for uid
    proof -
      have "map rs_createdAt (filter (\<lambda>r. rs_userId r = uid) (update_where p (\<lambda>r. r\<lparr>rs_used := True\<rparr>) xs)) =
        map rs_createdAt (filter (\<lambda>r. rs_userId r = uid) xs)" for p xs by (induction xs) (auto simp: row_simps)
      then show ?thesis by (simp add: requestTimes_def invalidateResets_def)
    qed
    have none: "unusedResets ?uid ?s1 = []"
      by (auto simp: unusedResets_def invalidateResets_def filter_empty_conv set_update_where)
    have set_recent: "r \<in> set ?recent" if "r \<in> set (passwordResets s)" "rs_userId r = ?uid" "?now - 15 * 60 * 1000 < rs_createdAt r" for r
      using that by (simp add: recentRequests_def)
    have "length ?recent = length (filter (\<lambda>t. ?now - 15 * 60 * 1000 < t) (requestTimes ?uid s))"
      by (simp add: recentRequests_def requestTimes_def filter_map comp_def conj_commute)
    moreover have "\<forall>t \<in> set (requestTimes ?uid s). ?now - 15 * 60 * 1000 < t \<longrightarrow> t + 60 * 1000 \<le> ?now"
    proof (intro ballI impI)
      fix t assume "t \<in> set (requestTimes ?uid s)" "?now - 15 * 60 * 1000 < t"
      then obtain r where r: "r \<in> set ?recent" "rs_createdAt r = t" using set_recent by (auto simp: requestTimes_def)
      then have n: "?recent \<noteq> []" by auto
      show "t + 60 * 1000 \<le> ?now" using head_of_recent[OF n r(1)] r(2) n False by auto
    qed
    ultimately have "throttled (requestTimes ?uid s @ [?now])"
      using assms False by (intro throttled_append) (simp_all add: resets_ok_def)
    moreover have "requestTimes uid ?t = requestTimes uid s @ (if uid = ?uid then [?now] else [])"
      "unusedResets uid ?t = unusedResets uid ?s1 @ (if uid = ?uid then [?r] else [])" for uid
      using times[of uid] by (simp_all add: requestTimes_def unusedResets_def)
    ultimately have "resets_ok ?now ?t"
      using ok1 none unfolding resets_ok_def times by (simp split: if_split)
    then have "resets_ok ?now (emit (Event ''PASSWORD_RESET_REQUESTED'' email) ?t)" by (rule resets_ok_same) simp
    then show ?thesis using False Some by (auto simp: forgotPassword_def Let_def)
  qed
qed

lemma resetPassword_resets:
  obtains "passwordResets (snd (resetPassword k e email code p s)) = passwordResets s"
    | i where "passwordResets (snd (resetPassword k e email code p s)) =
        update_where (\<lambda>r. rs_id r = i) (\<lambda>r. r\<lparr>rs_attempts := rs_attempts r + 1\<rparr>) (passwordResets s)"
    | i where "passwordResets (snd (resetPassword k e email code p s)) =
        update_where (\<lambda>r. rs_id r = i) (\<lambda>r. r\<lparr>rs_used := True\<rparr>) (passwordResets s)"
proof (cases "find_email email s")
  case None then show ?thesis by (intro that(1)) (simp add: resetPassword_def)
next
  case u: (Some u)
  show ?thesis
  proof (cases "openReset (env_now e) (u_userId u) s")
    case None with u show ?thesis by (intro that(1)) (simp add: resetPassword_def)
  next
    case (Some r)
    show ?thesis
    proof (cases "bcryptCompare k code (rs_otpHash r)")
      case True with u Some show ?thesis by (intro that(3)[of "rs_id r"]) (simp add: resetPassword_def)
    next
      case False with u Some show ?thesis by (intro that(2)[of "rs_id r"]) (simp add: resetPassword_def)
    qed
  qed
qed

lemma resets_ok_op:
  assumes "auth_op k tz e s t" "resets_ok (env_now e) s"
  shows "resets_ok (env_now e) t"
  using assms
proof (induction rule: auth_op.induct)
  case (forgets s otp email) then show ?case by (rule resets_ok_forgot)
next
  case (resets s email code p)
  let ?t = "snd (resetPassword k e email code p s)"
  consider "passwordResets ?t = passwordResets s"
    | i where "passwordResets ?t = update_where (\<lambda>r. rs_id r = i) (\<lambda>r. r\<lparr>rs_attempts := rs_attempts r + 1\<rparr>) (passwordResets s)"
    | i where "passwordResets ?t = update_where (\<lambda>r. rs_id r = i) (\<lambda>r. r\<lparr>rs_used := True\<rparr>) (passwordResets s)"
    by (rule resetPassword_resets)
  then show ?case
  proof cases
    case 1 then show ?thesis by (rule resets_ok_same[OF resets])
  next
    case 2 then show ?thesis by (rule resets_ok_update[OF resets]) simp_all
  next
    case 3 then show ?thesis by (rule resets_ok_update[OF resets]) simp_all
  qed
next
  case (registers s d) then show ?case by (rule resets_ok_same) (rule register_tables)
next
  case (logs_in s email p) then show ?case by (rule resets_ok_same) (simp add: login_def split: option.splits)
next
  case (logs_out s sid' uid) then show ?case by (rule resets_ok_same) (simp add: logout_def split: option.splits)
next
  case (revokes s sid uid) then show ?case by (rule resets_ok_same) (simp add: revokeSession_def split: option.splits)
next
  case (changes s uid p p') then show ?case by (rule resets_ok_same) (simp add: changePassword_def split: option.splits)
next
  case (forces s uid p) then show ?case by (rule resets_ok_same) (simp add: forcePasswordChange_def split: option.splits)
next
  case (hires s temp hex c creator name email)
  then show ?case by (rule resets_ok_same) (simp add: createMarketer_def Let_def)
next
  case (elsewhere t s) then show ?case by (blast intro: resets_ok_same)
qed (simp_all add: resets_ok_same[OF _ staff_write_resets(3)] resets_ok_same[OF _ staff_write_resets(4)]
    resets_ok_same[OF _ staff_write_resets(5)] resets_ok_same[OF _ staff_write_resets(6)] resets_ok_same[OF _ staff_write_resets(7)])

text \<open>C29: However the account requests follow each other, an account asks for at most three reset codes in any
  quarter of an hour, two of them at least a minute apart, and at most one of its codes is open.
\<close>

theorem reset_codes_are_limited:
  fixes uid
  assumes "auth_run k tz t s t' s'" "passwordResets s = []"
  defines "ts \<equiv> requestTimes uid s'"
  shows "length (filter (\<lambda>x. w \<le> x \<and> x < w + 15 * 60 * 1000) ts) \<le> 3 \<and>
    (\<forall>i. Suc i < length ts \<longrightarrow> ts ! i + 60 * 1000 \<le> ts ! Suc i) \<and> length (unusedResets uid s') \<le> 1"
proof -
  have "resets_ok t' s'" using assms(1)
  proof (induction rule: auth_run.induct)
    case start show ?case using assms(2) by (simp add: resets_ok_def requestTimes_def unusedResets_def throttled_def)
  next
    case (later t1 s1 e s2) then show ?case by (meson resets_ok_later resets_ok_op)
  qed
  then have "throttled ts" "length (unusedResets uid s') \<le> 1" by (simp_all add: resets_ok_def ts_def)
  then show ?thesis using throttled_window by (auto simp: throttled_def)
qed

section \<open>What the code does not limit\<close>

lemma openReset_single:
  assumes "unusedResets uid s = [r]" "now < rs_expiresAt r"
  shows "openReset now uid s = Some r"
proof -
  have "filter (\<lambda>r. rs_userId r = uid \<and> \<not> rs_used r \<and> now < rs_expiresAt r) (passwordResets s) =
      filter (\<lambda>r. now < rs_expiresAt r) (unusedResets uid s)" by (auto simp: unusedResets_def intro: filter_cong)
  then show ?thesis using assms by (simp add: openReset_def)
qed

definition guessed :: "nat \<Rightarrow> password_reset_row \<Rightarrow> password_reset_row" where
  "guessed n r = r\<lparr>rs_attempts := rs_attempts r + n\<rparr>"

lemma guessed_simps [simp]: "rs_otpHash (guessed n r) = rs_otpHash r" "rs_expiresAt (guessed n r) = rs_expiresAt r"
  "guessed 0 r = r" "guessed m (guessed n r) = guessed (n + m) r"
  by (simp_all add: guessed_def)

lemma wrong_guess:
  fixes p
  assumes "find_email email s = Some u" "unusedResets (u_userId u) s = [r]" "\<not> bcryptCompare k c (rs_otpHash r)"
    "env_now e < rs_expiresAt r"
  defines "t \<equiv> snd (resetPassword k e email c p s)"
  shows "find_email email t = Some u" "unusedResets (u_userId u) t = [guessed 1 r]"
proof -
  have t: "t = update_reset (rs_id r) (guessed 1) s"
    using assms(1,3) openReset_single[OF assms(2,4)] by (simp add: t_def resetPassword_def guessed_def[abs_def])
  have "filter (\<lambda>r. rs_userId r = u_userId u \<and> \<not> rs_used r) (update_where q (guessed 1) xs) =
      update_where q (guessed 1) (filter (\<lambda>r. rs_userId r = u_userId u \<and> \<not> rs_used r) xs)" for q xs
    by (rule filter_update_where) (simp add: guessed_def)
  then show "unusedResets (u_userId u) t = [guessed 1 r]"
    using assms(2) by (simp add: t unusedResets_def update_where_Cons)
  show "find_email email t = Some u" using assms(1) by (simp add: t find_email_def)
qed

text \<open>
  Wrong codes are counted but never limited: after any number of wrong guesses before the expiry the
  right code still sets the password.
\<close>

theorem wrong_codes_are_never_limited:
  assumes "find_email email s = Some u" "unusedResets (u_userId u) s = [r]"
    and "\<forall>(e, c, p) \<in> set guesses. \<not> bcryptCompare k c (rs_otpHash r) \<and> env_now e < rs_expiresAt r"
    and "bcryptCompare k code (rs_otpHash r)" "env_now e < rs_expiresAt r"
  shows "\<exists>t. resetPassword k e email code p
      (foldl (\<lambda>s (e, c, p). snd (resetPassword k e email c p s)) s guesses) = (Inr (), t)"
proof -
  have "find_email email (foldl (\<lambda>s (e, c, p). snd (resetPassword k e email c p s)) s guesses) = Some u \<and>
      (\<exists>n. unusedResets (u_userId u) (foldl (\<lambda>s (e, c, p). snd (resetPassword k e email c p s)) s guesses) = [guessed n r])"
    using assms(3)
  proof (induction guesses rule: rev_induct)
    case Nil show ?case using assms(1,2) by (auto intro: exI[of _ 0])
  next
    case (snoc g guesses)
    let ?s = "foldl (\<lambda>s (e, c, p). snd (resetPassword k e email c p s)) s guesses"
    obtain e' c p' where g: "g = (e', c, p')" by (cases g)
    obtain n where n: "find_email email ?s = Some u" "unusedResets (u_userId u) ?s = [guessed n r]" using snoc by auto
    note w = wrong_guess[OF n, of k c e' p']
    show ?case using w snoc.prems by (auto simp: g)
  qed
  then obtain n where f: "find_email email (foldl (\<lambda>s (e, c, p). snd (resetPassword k e email c p s)) s guesses) = Some u"
    "unusedResets (u_userId u) (foldl (\<lambda>s (e, c, p). snd (resetPassword k e email c p s)) s guesses) = [guessed n r]" by blast
  then show ?thesis using assms(4,5) openReset_single[OF f(2)] by (simp add: resetPassword_def)
qed

text \<open>
  A second login of an account in the same second fails with a database error: a refresh token only
  depends on the account and the second, and its hash is unique.
\<close>

theorem second_login_in_a_second_fails:
  assumes "login k tz e email p s = (Inr t, s1)" "signedAt (env_now e') = signedAt (env_now e)"
  shows "login k tz e' email p s1 = (Inl (UniqueViolation ''tokenHash''), s1)"
proof -
  obtain u where u: "find_email email s = Some u" "u_active u" "u_deletedAt u = None" "bcryptCompare k p (u_password u)"
    and i: "issueTokens k tz e u (or_null (u_companyId u)) s = (Inr t, s1)"
    using assms(1) by (auto simp: login_def split: option.splits if_splits)
  have "find_email email s1 = Some u" "\<exists>x \<in> set (userSessions s1).
      us_tokenHash x = hashRefreshToken k (generateRefreshToken k (claims u (or_null (u_companyId u))) (signedAt (env_now e)))"
    using i u(1) by (auto simp: issueTokens_def Let_def createUserSession_def find_email_def split: if_splits)
  then show ?thesis using u(2-4) by (simp add: login_def issueTokens_def Let_def createUserSession_def assms(2))
qed

section \<open>Passwords the program makes and accepts\<close>

lemma isAlnum_char: "isAlnum c \<Longrightarrow> \<not> isSpace c"
  by (auto simp: isAlnum_def isSpace_def Let_def)

text \<open>
  Every temporary password satisfies the rules the login checks, whatever the random choices are: one
  character of each kind, at most six letters or digits, in any order.
\<close>

theorem temp_passwords_are_valid:
  assumes "type \<in> {''MRK'', ''ADM''}" "isLower a" "isUpper b" "isDigitChar c" "d \<in> set ''!@#$%^&*''"
    and "\<And>xs. mset (shuffle xs) = mset xs"
  shows "PasswordSchema (generateTempPassword type [a, b, c, d] bytes shuffle)"
proof -
  let ?xs = "[a, b, c, d] @ take 6 (filter isAlnum bytes)"
  have s: "set (shuffle ?xs) = set ?xs" "length (shuffle ?xs) = length ?xs"
    using mset_eq_setD[OF assms(6)] mset_eq_length[OF assms(6)] by blast+
  have n: "length ?xs \<le> 10" by simp
  have "list_ex isLower (shuffle ?xs)" using s(1) assms(2) by (auto simp: list_ex_iff)
  moreover have "\<forall>x \<in> set (shuffle ?xs). \<not> isSpace x"
    using assms(2-5) unfolding s(1)
    by (auto simp: isAlnum_char dest: in_set_takeD) (auto simp: isSpace_def isLower_def isUpper_def isDigitChar_def)
  moreover have "list_ex isDigitChar (shuffle ?xs)" using s(1) assms(4) by (auto simp: list_ex_iff)
  moreover have "8 \<le> length (''IFL_'' @ type @ ''_'' @ shuffle ?xs)" "length (''IFL_'' @ type @ ''_'' @ shuffle ?xs) \<le> 30"
    using assms(1) n s(2) by (elim insertE emptyE; simp)+
  moreover have "\<forall>x \<in> set type. \<not> isSpace x" using assms(1) by (elim insertE emptyE; simp add: isSpace_def)
  moreover have "isUpper CHR ''I''" "CHR ''_'' \<in> set SPECIAL" "\<forall>x \<in> set ''IFL_''. \<not> isSpace x"
    by (simp_all add: isUpper_def SPECIAL_def isSpace_def)
  ultimately show ?thesis
    unfolding PasswordSchema_def generateTempPassword_def list_all_iff list_ex_append by (simp add: ball_Un)
qed

text \<open>
  The registration form accepts a password with which nobody can log in afterwards.
\<close>

theorem registered_password_may_be_unusable:
  "\<exists>p. RegisterPassword p \<and> \<not> PasswordSchema p"
  by (rule exI[of _ "''secret''"]) (simp add: RegisterPassword_def PasswordSchema_def)

section \<open>Changing the plan after the checkout\<close>

text \<open>
  A company can pay one plan and get another: starting the onboarding again after the checkout
  replaces the plan and keeps the payment reference, and the onboarding worker subscribes the
  company to the plan it finds then, whatever the intent's amount was.
\<close>

theorem onboarding_plan_can_be_swapped:
  assumes "find_onboarding iid s = Some oi" "oi_email oi = cr_email d" "oi_paymentReference oi = Some ref"
    and "distinct (map oi_email (onboardingIntents s))" "distinct (map oi_intentId (onboardingIntents s))"
    and "startOnboarding k e d s = (Inr oi', s1)" "processOnboarding tz verify e1 iid ref s1 = (Inr (Onboarded c u), t)"
  shows "intents s1 = intents s \<and> oi_paymentReference oi' = Some ref \<and>
    (\<exists>x \<in> set (subscriptions t). su_companyId x = c \<and> su_planId x = cr_planId d \<and> su_status x = SubscriptionStatus.ACTIVE)"
proof -
  let ?f = "\<lambda>x. x\<lparr>oi_companyName := cr_companyName d, oi_adminName := cr_adminName d,
      oi_passwordHash := bcryptHash k (env_uuid e 1) (cr_password d), oi_planId := cr_planId d,
      oi_status := OnboardingStatus.PENDING\<rparr>"
  have o': "oi \<in> set (onboardingIntents s)" "oi_intentId oi = iid"
    using find_set[OF assms(1)[unfolded find_onboarding_def]] by simp_all
  have "find (\<lambda>x. oi_email x = cr_email d) (onboardingIntents s) = Some oi"
    using find_unique_key[OF assms(4) o'(1)] by (simp add: assms(2))
  then have s1: "s1 = s\<lparr>onboardingIntents := update_where (\<lambda>x. oi_email x = cr_email d) ?f (onboardingIntents s)\<rparr>" "oi' = ?f oi"
    using assms(6) by (auto simp: startOnboarding_def Let_def split: if_splits)
  have "find_onboarding iid s1 = Some (?f oi)"
    using assms(1) unfolding find_onboarding_def s1(1) by (simp add: find_update_where assms(2))
  moreover obtain oi1 plan where p: "find_onboarding iid s1 = Some oi1" "find_plan (oi_planId oi1) s1 = Some plan"
    "c = env_uuid e1 0" "founded tz e1 ref oi1 plan s1 t"
    by (rule processOnboarding_ok[OF assms(7)])
  ultimately have "oi1 = ?f oi" by simp
  then have "sp_planId plan = cr_planId d" using find_set[OF p(2)[unfolded find_plan_def]] by simp
  then have "\<exists>x \<in> set (subscriptions t). su_companyId x = c \<and> su_planId x = cr_planId d \<and> su_status x = SubscriptionStatus.ACTIVE"
    using p(3,4) by (simp add: founded_def)
  then show ?thesis using assms(3) by (simp add: s1)
qed

section \<open>Samples\<close>

definition sample_keys :: keys where
  "sample_keys = \<lparr>bcryptHash = (\<lambda>salt p. CHR ''h'' # p), bcryptCompare = (\<lambda>p h. h = CHR ''h'' # p),
     hashRefreshToken = (\<lambda>t. CHR ''#'' # t), generateRefreshToken = (\<lambda>c n. tk_userId c @ replicate (nat n) CHR ''x''),
     verifyRefreshToken = (\<lambda>t now. None), generateAccessToken = (\<lambda>c sid n. sid)\<rparr>"

definition sample_member :: user_row where
  "sample_member = \<lparr>u_userId = ''u1'', u_email = ''a@e.com'', u_name = Some ''Ada'', u_role = CUSTOMER, u_companyId = None,
     u_createdById = None, u_referredByMarketerId = None, u_referralCode = None, u_password = ''hOld'', u_active = True,
     u_forcePasswordChange = False, u_deletedAt = None, u_createdAt = 0\<rparr>"

definition sample_code :: password_reset_row where
  "sample_code = \<lparr>rs_id = 1, rs_userId = ''u1'', rs_otpHash = ''h123456'', rs_expiresAt = 600000, rs_attempts = 0,
     rs_used = False, rs_createdAt = 0\<rparr>"

definition sample_login :: user_session_row where
  "sample_login = \<lparr>us_sessionId = ''se'', us_userId = ''u1'', us_tokenHash = ''#u1'', us_createdAt = 0, us_expiresAt = 604800000,
     us_revoked = False\<rparr>"

definition sample_accounts :: db where
  "sample_accounts = empty_db\<lparr>users := [sample_member], passwordResets := [sample_code], userSessions := [sample_login]\<rparr>"

lemma sample_member_found: "find_email ''a@e.com'' sample_accounts = Some sample_member"
  by (simp add: sample_accounts_def sample_member_def find_email_def)

lemma sample_code_open: "unusedResets (u_userId sample_member) sample_accounts = [sample_code]"
  by (simp add: sample_accounts_def sample_member_def sample_code_def unusedResets_def)

lemma sample_code_facts: "bcryptCompare sample_keys ''123456'' (rs_otpHash sample_code)"
  "\<not> bcryptCompare sample_keys ''000000'' (rs_otpHash sample_code)" "rs_expiresAt sample_code = 600000"
  by (simp_all add: sample_keys_def sample_code_def)

text \<open>Keys that accept every token of the member, so that only the session decides.\<close>

definition sample_trusting :: keys where
  "sample_trusting = sample_keys\<lparr>verifyRefreshToken := (\<lambda>t now. Some (claims sample_member None))\<rparr>"

definition sample_staff :: user_row where
  "sample_staff = sample_member\<lparr>u_userId := ''ad'', u_email := ''b@e.com'', u_role := ADMIN, u_companyId := Some ''co'', u_active := False\<rparr>"

definition sample_company_accounts :: db where
  "sample_company_accounts = sample_accounts\<lparr>users := [sample_member, sample_staff]\<rparr>"

definition sample_trusted_reset :: "unit res \<times> db" where
  "sample_trusted_reset = resetPassword sample_trusting (sample_clock CHR ''r'' 1000) ''a@e.com'' ''123456'' ''New'' sample_company_accounts"

lemma sample_trusted_reset_ok: "\<exists>t. sample_trusted_reset = (Inr (), t)"
proof -
  have "find_email ''a@e.com'' sample_company_accounts = Some sample_member"
    by (simp add: sample_company_accounts_def sample_member_def find_email_def)
  moreover have "unusedResets (u_userId sample_member) sample_company_accounts = [sample_code]"
    using sample_code_open by (simp add: unusedResets_def sample_company_accounts_def)
  then have "openReset 1000 (u_userId sample_member) sample_company_accounts = Some sample_code"
    by (rule openReset_single) (simp add: sample_code_facts)
  moreover have "bcryptCompare sample_trusting ''123456'' (rs_otpHash sample_code)"
    using sample_code_facts(1) by (simp add: sample_trusting_def)
  ultimately show ?thesis
    by (simp add: sample_trusted_reset_def resetPassword_def sample_clock_def)
qed

theorem reset_ends_all_sessions_witness:
  "(\<exists>token. refresh sample_trusting (sample_clock CHR ''r'' 900) ''u1'' sample_company_accounts = Inr token) \<and>
   (\<exists>s1 m. sample_trusted_reset = (Inr (), s1) \<and>
     refresh sample_trusting (sample_clock CHR ''r'' 3000) ''u1'' (snd (toggleAdminStatus ''co'' ''ad'' s1)) = Inl (UnauthorizedError m))"
proof (intro conjI)
  show "\<exists>token. refresh sample_trusting (sample_clock CHR ''r'' 900) ''u1'' sample_company_accounts = Inr token"
    by (simp add: refresh_def sample_trusting_def sample_keys_def sample_company_accounts_def sample_accounts_def sample_login_def
        sample_member_def sample_clock_def find_user_def claims_def)
  obtain s1 where s1: "sample_trusted_reset = (Inr (), s1)" using sample_trusted_reset_ok by blast
  have x: "find_email ''a@e.com'' sample_company_accounts = Some sample_member"
    "distinct (map us_tokenHash (userSessions sample_company_accounts))" "sample_login \<in> set (userSessions sample_company_accounts)"
    "us_userId sample_login = u_userId sample_member" "us_tokenHash sample_login = hashRefreshToken sample_trusting ''u1''"
    by (simp_all add: sample_company_accounts_def sample_accounts_def sample_login_def sample_member_def sample_trusting_def
        sample_keys_def find_email_def)
  have "auth_run sample_trusting 0 1000 s1 (env_now (sample_clock CHR ''r'' 2000)) (snd (toggleAdminStatus ''co'' ''ad'' s1))"
    by (rule auth_run.later[OF auth_run.start _ auth_op.switches_admin]) (simp add: sample_clock_def)
  then obtain m where "refresh sample_trusting (sample_clock CHR ''r'' 3000) ''u1'' (snd (toggleAdminStatus ''co'' ''ad'' s1)) =
      Inl (UnauthorizedError m)"
    using reset_ends_all_sessions[OF s1[unfolded sample_trusted_reset_def] x] by blast
  with s1 show "\<exists>s1 m. sample_trusted_reset = (Inr (), s1) \<and>
     refresh sample_trusting (sample_clock CHR ''r'' 3000) ''u1'' (snd (toggleAdminStatus ''co'' ''ad'' s1)) = Inl (UnauthorizedError m)"
    by (intro exI[of _ s1] exI[of _ m] conjI)
qed

theorem reset_codes_are_limited_witness:
  "length (unusedResets ''u1'' (snd (forgotPassword sample_keys (sample_clock CHR ''r'' 1000) ''1'' ''a@e.com''
     (sample_accounts\<lparr>passwordResets := []\<rparr>)))) \<le> 1"
proof -
  let ?s = "sample_accounts\<lparr>passwordResets := []\<rparr>"
  have "auth_run sample_keys 0 0 ?s (env_now (sample_clock CHR ''r'' 1000))
      (snd (forgotPassword sample_keys (sample_clock CHR ''r'' 1000) ''1'' ''a@e.com'' ?s))"
    by (rule auth_run.later[OF auth_run.start _ auth_op.forgets]) (simp add: sample_clock_def)
  from reset_codes_are_limited[OF this, where uid = "''u1''"] show ?thesis by simp
qed

theorem wrong_codes_are_never_limited_witness:
  "\<exists>t. resetPassword sample_keys (sample_clock CHR ''r'' 1000) ''a@e.com'' ''123456'' ''New''
      (foldl (\<lambda>s (e, c, p). snd (resetPassword sample_keys e ''a@e.com'' c p s)) sample_accounts
        (replicate 1000 (sample_clock CHR ''q'' 500, ''000000'', ''x''))) = (Inr (), t)"
  by (rule wrong_codes_are_never_limited[OF sample_member_found sample_code_open])
    (simp_all add: sample_code_facts sample_clock_def)

theorem second_login_in_a_second_fails_witness:
  "\<exists>t s1. login sample_keys 0 (sample_clock CHR ''l'' 1000) ''a@e.com'' ''Old'' sample_accounts = (Inr t, s1) \<and>
     login sample_keys 0 (sample_clock CHR ''m'' 1900) ''a@e.com'' ''Old'' s1 = (Inl (UniqueViolation ''tokenHash''), s1)"
proof -
  let ?l = "login sample_keys 0 (sample_clock CHR ''l'' 1000) ''a@e.com'' ''Old'' sample_accounts"
  have "\<exists>t s1. ?l = (Inr t, s1)"
    by (simp add: login_def sample_member_found)
      (simp add: sample_member_def sample_keys_def issueTokens_def createUserSession_def Let_def sample_accounts_def sample_login_def
        sample_clock_def signedAt_def claims_def)
  then obtain t s1 where l: "?l = (Inr t, s1)" by blast
  from second_login_in_a_second_fails[OF l, of "sample_clock CHR ''m'' 1900"] l show ?thesis
    by (intro exI[of _ t] exI[of _ s1]) (simp add: sample_clock_def signedAt_def)
qed

theorem temp_passwords_are_valid_witness:
  "PasswordSchema (generateTempPassword ''MRK'' [CHR ''a'', CHR ''B'', CHR ''7'', CHR ''#''] ''qZ+/09xy'' rev)"
  by (rule temp_passwords_are_valid) (simp_all add: isLower_def isUpper_def isDigitChar_def)

definition sample_wish :: company_register_input where
  "sample_wish = \<lparr>cr_companyName = ''Shop'', cr_adminName = ''Ada'', cr_email = ''m@e.com'', cr_password = ''pw'', cr_planId = ''plat''\<rparr>"

definition sample_paid :: db where
  "sample_paid = sample_applied\<lparr>subscriptionPlans := [sample_plan, sample_plan\<lparr>sp_planId := ''plat'', sp_price := 5000\<rparr>]\<rparr>"

definition sample_swapped :: db where
  "sample_swapped = snd (startOnboarding sample_keys (sample_clock CHR ''s'' 1000) sample_wish sample_paid)"

theorem onboarding_plan_can_be_swapped_witness:
  "\<exists>t u. processOnboarding 0 sample_verify (sample_clock CHR ''f'' 2000) ''oi'' ''ref'' sample_swapped = (Inr (Onboarded ''f'' u), t) \<and>
     map pi_amount (intents sample_swapped) = [400] \<and> (\<exists>x \<in> set (subscriptions t). su_planId x = ''plat'')"
proof -
  have s: "\<exists>oi. startOnboarding sample_keys (sample_clock CHR ''s'' 1000) sample_wish sample_paid = (Inr oi, sample_swapped)"
    by (simp add: sample_swapped_def startOnboarding_def find_email_def sample_paid_def sample_applied_def empty_db_def
        sample_wish_def find_plan_def sample_plan_def Let_def sample_application_def)
  then obtain oi where s': "startOnboarding sample_keys (sample_clock CHR ''s'' 1000) sample_wish sample_paid = (Inr oi, sample_swapped)" ..
  have a: "find_onboarding ''oi'' sample_paid = Some sample_application" "oi_email sample_application = cr_email sample_wish"
    "oi_paymentReference sample_application = Some ''ref''" "distinct (map oi_email (onboardingIntents sample_paid))"
    "distinct (map oi_intentId (onboardingIntents sample_paid))" "cr_planId sample_wish = ''plat''"
    by (simp_all add: sample_paid_def sample_applied_def sample_application_def find_onboarding_def sample_wish_def)
  have i: "map pi_amount (intents sample_paid) = [400]"
    by (simp add: sample_paid_def sample_applied_def sample_sub_intent_def sample_intent_def new_intent_def)
  have "\<exists>t u. processOnboarding 0 sample_verify (sample_clock CHR ''f'' 2000) ''oi'' ''ref'' sample_swapped = (Inr (Onboarded ''f'' u), t)"
    by (simp add: sample_swapped_def startOnboarding_def find_email_def sample_paid_def sample_wish_def
        processOnboarding_def validatePaystackTransaction_def renewal_runs transaction_def sample_keys_def
        sample_applied_def sample_application_def find_onboarding_def onboardingTx_def Let_def sample_clock_def
        record_in_book_balanced[OF subscriptionEntries_balanced] setCompanyPlan_def update_onboarding_def
        markSuccessLenient_def markSuccess_def transitionStatus_def non_terminal_def TERMINAL_STATUSES_def count_where_def
        moved_def find_intent_def new_intent_def sample_params_def List.map_filter_def)
  then obtain t u where t: "processOnboarding 0 sample_verify (sample_clock CHR ''f'' 2000) ''oi'' ''ref'' sample_swapped = (Inr (Onboarded ''f'' u), t)"
    by blast
  note w = onboarding_plan_can_be_swapped[OF a(1-5) s' t, unfolded a(6)]
  have f: "intents sample_swapped = intents sample_paid"
    "\<exists>x \<in> set (subscriptions t). su_companyId x = ''f'' \<and> su_planId x = ''plat'' \<and> su_status x = SubscriptionStatus.ACTIVE"
    by (rule conjunct1[OF w], rule conjunct2[OF conjunct2[OF w]])
  obtain x where x: "x \<in> set (subscriptions t)" "su_planId x = ''plat''" using f(2) by (elim bexE conjE)
  have "map pi_amount (intents sample_swapped) = [400]" unfolding f(1) by (rule i)
  moreover have "\<exists>x \<in> set (subscriptions t). su_planId x = ''plat''" by (rule bexI[where x = x]) (rule x)+
  ultimately show ?thesis using t by (intro exI[of _ t] exI[of _ u] conjI)
qed

end
