(* ===== verification/StaffSafety.thy ===== *)
theory StaffSafety
  imports UserManagement AuthSafety
begin

text \<open>
  What holds of \<open>src/core/services/user-management.service.ts\<close>: whatever a company and its admins
  do stays in the company, a marketer has at most one pending request of a kind, the switch never
  suspends the last active admin, and two weak points: deletion does, and a suspension by
  approval leaves the sessions alive.
\<close>

section \<open>Steps\<close>

inductive staff_step :: "ident \<Rightarrow> db \<Rightarrow> db \<Rightarrow> bool" for c where
  hires_admin: "env_uuid e 0 \<notin> u_userId ` set (users s) \<Longrightarrow> staff_step c s (snd (createAdmin k e temp c creator name email s))"
| hires_marketer: "env_uuid e 0 \<notin> u_userId ` set (users s) \<Longrightarrow> staff_step c s (snd (createMarketer k e temp hex c creator name email s))"
| toggles_admin: "staff_step c s (snd (toggleAdminStatus c a s))"
| deletes_admin: "staff_step c s (snd (softDeleteAdmin e c a s))"
| toggles_marketer: "staff_step c s (snd (toggleCompanyMarketerStatus c owner m s))"
| deletes_marketer: "staff_step c s (snd (deleteCompanyMarketer e c owner m s))"
| asks_toggle: "env_uuid e 0 \<notin> ar_requestId ` set (approvalRequests s) \<Longrightarrow> staff_step c s (snd (requestMarketerToggle e c m a reason s))"
| asks_deletion: "env_uuid e 0 \<notin> ar_requestId ` set (approvalRequests s) \<Longrightarrow> staff_step c s (snd (requestMarketerDeletion e c m a reason s))"
| decides: "staff_step c s (snd (handleApprovalRequest e c rid approved note' s))"

definition any_staff_step :: "db \<Rightarrow> db \<Rightarrow> bool" where
  "any_staff_step s t \<longleftrightarrow> (\<exists>c. staff_step c s t)"

text \<open>
  To the sessions and reset codes a staff step is one of the requests of
  \<open>auth_op\<close>; so what holds along every run of those holds across staff steps too.
\<close>

lemma staff_step_is_request: "staff_step c s t \<Longrightarrow> \<exists>e. auth_op k tz e s t"
proof (induction rule: staff_step.induct)
  case (toggles_admin s a) show ?case by (intro exI[of _ undefined] auth_op.switches_admin)
next
  case (deletes_admin s e a) show ?case by (intro exI[of _ e] auth_op.deletes_admin)
next
  case (toggles_marketer s owner m) show ?case by (intro exI[of _ undefined] auth_op.switches_marketer)
next
  case (deletes_marketer s e owner m) show ?case by (intro exI[of _ e] auth_op.deletes_marketer)
next
  case (decides s e rid approved note') show ?case by (intro exI[of _ e] auth_op.decides)
qed (auto intro!: exI[of _ undefined] auth_op.elsewhere simp: createAdmin_def createMarketer_def requestMarketerToggle_def
    requestMarketerDeletion_def createRequest_def Let_def split: sum.split)

text \<open>
  Every request asks about a marketer of its company, and two pending ones of the same company
  about the same marketer and action are one.
\<close>

definition about_marketer :: "user_row list \<Rightarrow> approval_row \<Rightarrow> bool" where
  "about_marketer us r \<longleftrightarrow> (\<exists>u \<in> set us. u_userId u = ar_targetUserId r \<and> u_companyId u = Some (ar_companyId r) \<and> u_role u = MARKETER)"

definition one_pending :: "approval_row list \<Rightarrow> bool" where
  "one_pending rs \<longleftrightarrow> (\<forall>x \<in> set rs. \<forall>y \<in> set rs. \<forall>c m a. pendingRequest c m a x \<and> pendingRequest c m a y \<longrightarrow> x = y)"

definition staff_ok :: "db \<Rightarrow> bool" where
  "staff_ok s \<longleftrightarrow> distinct (map u_userId (users s)) \<and> distinct (map ar_requestId (approvalRequests s)) \<and>
     (\<forall>r \<in> set (approvalRequests s). about_marketer (users s) r) \<and> one_pending (approvalRequests s)"

section \<open>Writes of the users\<close>

definition keeps_identity :: "(user_row \<Rightarrow> user_row) \<Rightarrow> bool" where
  "keeps_identity f \<longleftrightarrow> (\<forall>u. u_userId (f u) = u_userId u \<and> u_companyId (f u) = u_companyId u \<and> u_role (f u) = u_role u)"

definition outsiders :: "ident \<Rightarrow> db \<Rightarrow> user_row list" where
  "outsiders c s = filter (\<lambda>u. u_companyId u \<noteq> Some c) (users s)"

lemma about_marketer_update: "keeps_identity f \<Longrightarrow> about_marketer us r \<Longrightarrow> about_marketer (update_where p f us) r"
proof -
  assume f: "keeps_identity f" and "about_marketer us r"
  then obtain u where u: "u \<in> set us" "u_userId u = ar_targetUserId r" "u_companyId u = Some (ar_companyId r)" "u_role u = MARKETER"
    by (auto simp: about_marketer_def)
  show ?thesis unfolding about_marketer_def set_update_where
    by (rule bexI[of _ "if p u then f u else u"]) (use u f in \<open>auto simp: keeps_identity_def\<close>)
qed

lemma user_write_simps [simp]:
  "users (update_user i f s) = update_where (\<lambda>u. u_userId u = i) f (users s)"
  "approvalRequests (update_user i f s) = approvalRequests s" "approvalRequests (revokeAll i s) = approvalRequests s"
  "users (update_approval r g s) = users s"
  by (simp_all add: update_user_def revokeAll_def update_approval_def)

lemma toggleActive_write: "\<exists>f. users (toggleActive u s) = update_where (\<lambda>x. u_userId x = u_userId u) f (users s) \<and> keeps_identity f"
  "approvalRequests (toggleActive u s) = approvalRequests s"
  by (auto simp: toggleActive_def Let_def keeps_identity_def intro!: exI[of _ "\<lambda>x. x\<lparr>u_active := \<not> u_active u\<rparr>"])

lemma softDelete_write: "\<exists>f. users (softDelete e i s) = update_where (\<lambda>x. u_userId x = i) f (users s) \<and> keeps_identity f"
  "approvalRequests (softDelete e i s) = approvalRequests s"
  by (auto simp: softDelete_def keeps_identity_def intro!: exI[of _ "\<lambda>u. u\<lparr>u_deletedAt := Some (env_now e), u_active := False\<rparr>"])

text \<open>What one write of a user of company \<open>c\<close> keeps.\<close>

definition inside :: "ident \<Rightarrow> db \<Rightarrow> db \<Rightarrow> bool" where
  "inside c s t \<longleftrightarrow> outsiders c t = outsiders c s \<and> staff_ok t"

lemma inside_user_write:
  assumes "staff_ok s" "u \<in> set (users s)" "u_companyId u = Some c" "keeps_identity f"
    "users t = update_where (\<lambda>x. u_userId x = u_userId u) f (users s)" "approvalRequests t = approvalRequests s"
  shows "inside c s t"
proof -
  have key: "x = u" if "x \<in> set (users s)" "u_userId x = u_userId u" for x
    using that assms(1,2) by (auto simp: staff_ok_def distinct_map inj_on_def)
  have "outsiders c t = outsiders c s"
    unfolding outsiders_def assms(5) by (rule filter_update_where_inside) (use key assms(3,4) in \<open>auto simp: keeps_identity_def\<close>)
  moreover have "map u_userId (users t) = map u_userId (users s)"
    unfolding assms(5) by (rule map_update_where) (use assms(4) in \<open>simp add: keeps_identity_def\<close>)
  moreover have "about_marketer (users t) r" if "r \<in> set (approvalRequests s)" for r
    unfolding assms(5) using assms(1,4) that by (auto intro: about_marketer_update simp: staff_ok_def)
  ultimately show ?thesis using assms(1,6) by (simp add: inside_def staff_ok_def)
qed

lemma inside_hire:
  assumes "staff_ok s" "u_userId u \<notin> u_userId ` set (users s)" "u_companyId u = Some c"
    "users t = users s @ [u]" "approvalRequests t = approvalRequests s"
  shows "inside c s t"
proof -
  have "about_marketer (users t) r" if "about_marketer (users s) r" for r using that by (auto simp: about_marketer_def assms(4))
  then show ?thesis using assms by (auto simp: inside_def staff_ok_def outsiders_def)
qed

lemma inside_refl: "staff_ok s \<Longrightarrow> inside c s s"
  by (simp add: inside_def)

lemma inside_emit [simp]: "inside c s (emit x t) = inside c s t"
  by (simp add: inside_def outsiders_def staff_ok_def)

lemma findStaff_some: "findStaff c role i s = Some u \<Longrightarrow> u \<in> set (users s) \<and> u_companyId u = Some c \<and> u_role u = role \<and> u_userId u = i"
  unfolding findStaff_def staff_def by (drule find_set) simp

lemma ownMarketer_some: "ownMarketer c o' i s = Some u \<Longrightarrow> u \<in> set (users s) \<and> u_companyId u = Some c \<and> u_userId u = i"
  unfolding ownMarketer_def staff_def by (drule find_set) simp

lemma inside_toggle:
  assumes "staff_ok s" "u \<in> set (users s)" "u_companyId u = Some c"
  shows "inside c s (toggleActive u s)"
  using toggleActive_write[of u s] inside_user_write[OF assms] by blast

lemma inside_delete:
  assumes "staff_ok s" "u \<in> set (users s)" "u_companyId u = Some c"
  shows "inside c s (softDelete e (u_userId u) s)"
  using softDelete_write[of e "u_userId u" s] inside_user_write[OF assms] by blast

section \<open>Writes of the requests\<close>

lemma inside_ask:
  assumes "staff_ok s" "ar_requestId r \<notin> ar_requestId ` set (approvalRequests s)" "about_marketer (users s) r"
    "ar_status r = ApprovalStatus.PENDING"
    "\<not> (\<exists>x \<in> set (approvalRequests s). pendingRequest (ar_companyId r) (ar_targetUserId r) (ar_action r) x)"
  shows "inside c s (s\<lparr>approvalRequests := approvalRequests s @ [r]\<rparr>)"
proof -
  have "one_pending (approvalRequests s @ [r])"
    using assms(1,5) unfolding staff_ok_def one_pending_def by (auto simp: pendingRequest_def)
  then show ?thesis using assms(1-3) by (auto simp: inside_def outsiders_def staff_ok_def)
qed

lemma inside_createRequest:
  assumes "staff_ok s" "env_uuid e 0 \<notin> ar_requestId ` set (approvalRequests s)"
  shows "inside c s (snd (createRequest e action conflict note' c m a reason s))"
proof (cases "ensureAdminCanManageMarketer c m s")
  case (Inl err) then show ?thesis using assms(1) by (simp add: createRequest_def inside_refl)
next
  case (Inr u)
  then have "findStaff c MARKETER m s = Some u" by (auto simp: ensureAdminCanManageMarketer_def split: option.splits if_splits)
  note u = findStaff_some[OF this]
  let ?r = "\<lparr>ar_requestId = env_uuid e 0, ar_companyId = c, ar_requestedById = a, ar_targetUserId = m, ar_action = action,
      ar_reason = reason, ar_status = ApprovalStatus.PENDING, ar_reviewReason = None, ar_reviewedAt = None, ar_createdAt = env_now e\<rparr>"
  show ?thesis
  proof (cases "\<exists>r \<in> set (approvalRequests s). pendingRequest c m action r")
    case True then show ?thesis using assms(1) Inr by (simp add: createRequest_def inside_refl)
  next
    case False
    have "about_marketer (users s) ?r" using u by (auto simp: about_marketer_def)
    then have "inside c s (s\<lparr>approvalRequests := approvalRequests s @ [?r]\<rparr>)"
      using False assms by (intro inside_ask) simp_all
    then show ?thesis using False Inr by (simp add: createRequest_def Let_def)
  qed
qed

lemma inside_close:
  assumes "staff_ok s" "\<And>r. ar_status (f r) \<noteq> ApprovalStatus.PENDING"
    "\<And>r. ar_requestId (f r) = ar_requestId r \<and> ar_companyId (f r) = ar_companyId r \<and> ar_targetUserId (f r) = ar_targetUserId r"
  shows "inside c s (update_approval i f s)"
proof -
  have "map ar_requestId (update_where p f rs) = map ar_requestId rs" for p rs by (rule map_update_where) (simp add: assms(3))
  moreover have "one_pending (update_where p f rs)" if "one_pending rs" for p rs
    using that assms(2) unfolding one_pending_def set_update_where by (auto simp: pendingRequest_def split: if_splits)
  moreover have "about_marketer us (f r) = about_marketer us r" for us r by (simp add: about_marketer_def assms(3))
  ultimately show ?thesis
    using assms(1) by (auto simp: inside_def outsiders_def staff_ok_def update_approval_def set_update_where)
qed

lemma inside_trans: "inside c s t \<Longrightarrow> inside c t r \<Longrightarrow> inside c s r"
  by (simp add: inside_def)

lemma inside_execute:
  assumes "staff_ok s" "r \<in> set (approvalRequests s)" "ar_companyId r = c"
  shows "inside c s (executeRequest e r target s)"
proof -
  let ?f = "\<lambda>x. x\<lparr>ar_status := ApprovalStatus.APPROVED, ar_reviewedAt := Some (env_now e)\<rparr>"
  let ?s1 = "update_approval (ar_requestId r) ?f s"
  have 1: "inside c s ?s1" by (rule inside_close[OF assms(1)]) simp_all
  then have ok: "staff_ok ?s1" by (simp add: inside_def)
  obtain u where u: "u \<in> set (users s)" "u_userId u = ar_targetUserId r" "u_companyId u = Some c"
    using assms by (auto simp: staff_ok_def about_marketer_def)
  have "inside c ?s1 (executeRequest e r target s)"
  proof (cases "ar_action r")
    case TOGGLE_ACTIVE
    then show ?thesis using u
      by (intro inside_user_write[OF ok, of u c "\<lambda>x. x\<lparr>u_active := \<not> u_active target\<rparr>"])
        (simp_all add: executeRequest_def Let_def keeps_identity_def)
  next
    case SOFT_DELETE
    then show ?thesis using inside_delete[OF ok, of u c e] u by (simp add: executeRequest_def Let_def)
  qed
  with 1 show ?thesis by (rule inside_trans)
qed

lemma staff_step_inside: "staff_step c s t \<Longrightarrow> staff_ok s \<Longrightarrow> inside c s t"
proof (induction rule: staff_step.induct)
  case (hires_admin e s k temp creator name email)
  then show ?case by (auto simp: createAdmin_def Let_def inside_refl intro!: inside_hire)
next
  case (hires_marketer e s k temp hex creator name email)
  then show ?case by (auto simp: createMarketer_def Let_def inside_refl intro!: inside_hire)
next
  case (toggles_admin s a)
  then show ?case by (auto simp: toggleAdminStatus_def inside_refl dest: findStaff_some intro: inside_toggle split: option.splits)
next
  case (deletes_admin s e a)
  then show ?case by (auto simp: softDeleteAdmin_def inside_refl dest!: findStaff_some intro: inside_delete split: option.splits)
next
  case (toggles_marketer s owner m)
  then show ?case
    by (auto simp: toggleCompanyMarketerStatus_def inside_refl dest: ownMarketer_some intro: inside_toggle split: option.splits)
next
  case (deletes_marketer s e owner m)
  then show ?case
    by (auto simp: deleteCompanyMarketer_def inside_refl dest!: ownMarketer_some intro: inside_delete split: option.splits)
next
  case (asks_toggle e s m a reason) then show ?case by (simp add: requestMarketerToggle_def inside_createRequest)
next
  case (asks_deletion e s m a reason) then show ?case by (simp add: requestMarketerDeletion_def inside_createRequest)
next
  case (decides s e rid approved note')
  show ?case
  proof (cases "find (\<lambda>r. ar_requestId r = rid \<and> ar_companyId r = c \<and> ar_status r = ApprovalStatus.PENDING) (approvalRequests s)")
    case None then show ?thesis using decides by (simp add: handleApprovalRequest_def inside_refl)
  next
    case (Some r)
    have r: "r \<in> set (approvalRequests s)" "ar_companyId r = c" using find_set[OF Some] by simp_all
    show ?thesis
      using Some decides inside_execute[OF decides r]
        inside_close[OF decides, of "\<lambda>x. x\<lparr>ar_status := ApprovalStatus.REJECTED, ar_reviewReason := note', ar_reviewedAt := Some (env_now e)\<rparr>"]
      by (simp add: handleApprovalRequest_def inside_refl split: option.split)
  qed
qed

section \<open>Properties\<close>

lemma staff_ok_steps: "any_staff_step\<^sup>*\<^sup>* s t \<Longrightarrow> staff_ok s \<Longrightarrow> staff_ok t"
  by (induction rule: rtranclp_induct) (auto simp: any_staff_step_def inside_def dest!: staff_step_inside)

text \<open>C30: Whatever a company and its admins do to their staff, in any state their requests can lead to, the
  accounts of every other company and of customers without a company stay as they are.
\<close>

theorem staff_actions_stay_in_the_company:
  assumes "distinct (map u_userId (users s0))" "approvalRequests s0 = []" "any_staff_step\<^sup>*\<^sup>* s0 s" "staff_step c s t"
  shows "filter (\<lambda>u. u_companyId u \<noteq> Some c) (users t) = filter (\<lambda>u. u_companyId u \<noteq> Some c) (users s)"
proof -
  have "staff_ok s0" using assms(1,2) by (simp add: staff_ok_def one_pending_def)
  then have "staff_ok s" by (rule staff_ok_steps[OF assms(3)])
  then show ?thesis using staff_step_inside[OF assms(4)] by (simp add: inside_def outsiders_def)
qed

text \<open>
  However requests and decisions follow each other, a company has at most one pending request for the
  same marketer and action, and every request is about a marketer of that company.
\<close>

theorem one_pending_request_of_a_kind:
  assumes "distinct (map u_userId (users s0))" "approvalRequests s0 = []" "any_staff_step\<^sup>*\<^sup>* s0 s"
    and "x \<in> set (approvalRequests s)" "y \<in> set (approvalRequests s)"
    and "pendingRequest c m a x" "pendingRequest c m a y"
  shows "x = y \<and> (\<exists>u \<in> set (users s). u_userId u = m \<and> u_companyId u = Some c \<and> u_role u = MARKETER)"
proof -
  have "staff_ok s0" using assms(1,2) by (simp add: staff_ok_def one_pending_def)
  then have ok: "staff_ok s" by (rule staff_ok_steps[OF assms(3)])
  then have "x = y" using assms(4-7) unfolding staff_ok_def one_pending_def by blast
  moreover have "about_marketer (users s) x" using ok assms(4) by (simp add: staff_ok_def)
  ultimately show ?thesis using assms(6) by (auto simp: about_marketer_def pendingRequest_def)
qed

definition activeAdmin :: "ident \<Rightarrow> user_row \<Rightarrow> bool" where
  "activeAdmin c u \<longleftrightarrow> staff c ADMIN u \<and> u_active u"

lemma activeAdmins_pos: "0 < activeAdmins c s \<longleftrightarrow> (\<exists>u \<in> set (users s). activeAdmin c u)"
  by (auto simp: activeAdmins_def count_where_def activeAdmin_def filter_empty_conv)

lemma other_of_two:
  assumes "distinct (map k xs)" "\<not> length (filter p xs) \<le> 1" "u \<in> set xs"
  obtains v where "v \<in> set xs" "p v" "k v \<noteq> k u"
proof (rule ccontr)
  assume "\<not> thesis"
  then have "set (filter p xs) \<subseteq> {u}" using that assms(1,3) by (auto simp: distinct_map inj_on_def)
  moreover have "distinct (filter p xs)" using assms(1) by (simp add: distinct_map)
  ultimately have "length (filter p xs) \<le> 1"
    using card_mono[of "{u}" "set (filter p xs)"] distinct_card[of "filter p xs"] by simp
  with assms(2) show False ..
qed

text \<open>
  The company's switch never leaves it without an active admin: if there was one before there is one
  after it, whichever admin is suspended or activated.
\<close>

theorem switch_keeps_an_active_admin:
  assumes "distinct (map u_userId (users s))" "0 < activeAdmins c s"
  shows "0 < activeAdmins c (snd (toggleAdminStatus c a s))"
proof (cases "findStaff c ADMIN a s")
  case None then show ?thesis using assms(2) by (simp add: toggleAdminStatus_def)
next
  case (Some u)
  then have u: "u \<in> set (users s)" "staff c ADMIN u" unfolding findStaff_def by (auto dest: find_set)
  let ?f = "\<lambda>x. x\<lparr>u_active := \<not> u_active u\<rparr>"
  have w: "users (toggleActive u s) = update_where (\<lambda>x. u_userId x = u_userId u) ?f (users s)"
    by (simp add: toggleActive_def Let_def)
  show ?thesis
  proof (cases "u_active u")
    case False
    have "?f u \<in> set (users (toggleActive u s))" unfolding w set_update_where using u(1) by (force intro: rev_image_eqI)
    moreover have "activeAdmin c (?f u)" using u(2) False by (simp add: activeAdmin_def staff_def)
    ultimately have "0 < activeAdmins c (toggleActive u s)" unfolding activeAdmins_pos by blast
    then show ?thesis using Some False by (simp add: toggleAdminStatus_def activeAdmins_def)
  next
    case True
    show ?thesis
    proof (cases "activeAdmins c s \<le> 1")
      case few: True then show ?thesis using Some True assms(2) by (simp add: toggleAdminStatus_def)
    next
      case False
      obtain v where v: "v \<in> set (users s)" "staff c ADMIN v \<and> u_active v" "u_userId v \<noteq> u_userId u"
        by (rule other_of_two[OF assms(1) False[unfolded activeAdmins_def count_where_def] u(1)])
      have "v \<in> set (users (toggleActive u s))" unfolding w using v(1,3) by (rule update_where_key_other)
      then have "0 < activeAdmins c (toggleActive u s)" unfolding activeAdmins_pos activeAdmin_def using v(2) by blast
      then show ?thesis using Some False by (simp add: toggleAdminStatus_def activeAdmins_def)
    qed
  qed
qed

text \<open>
  Deleting has no such guard: the last active admin can be deleted.
\<close>

theorem last_admin_can_be_deleted:
  assumes "distinct (map u_userId (users s))" "findStaff c ADMIN a s = Some u" "u_active u" "activeAdmins c s = 1"
  shows "activeAdmins c (snd (softDeleteAdmin e c a s)) = 0"
proof (rule ccontr)
  let ?f = "\<lambda>u. u\<lparr>u_deletedAt := Some (env_now e), u_active := False\<rparr>"
  assume "activeAdmins c (snd (softDeleteAdmin e c a s)) \<noteq> 0"
  then have "0 < activeAdmins c (softDelete e a s)" using assms(2) by (simp add: softDeleteAdmin_def activeAdmins_def)
  moreover have "users (softDelete e a s) = update_where (\<lambda>x. u_userId x = a) ?f (users s)" by (simp add: softDelete_def)
  ultimately obtain v where v: "v \<in> set (users s)" "activeAdmin c (if u_userId v = a then ?f v else v)"
    unfolding activeAdmins_pos by (auto simp: set_update_where simp del: user_write_simps)
  then have v': "u_userId v \<noteq> a" "activeAdmin c v" by (auto simp: activeAdmin_def split: if_splits)
  note u = assms(2)[unfolded findStaff_def, THEN find_set]
  have "length (filter (activeAdmin c) (users s)) = 1" using assms(4) by (simp add: activeAdmins_def count_where_def activeAdmin_def[abs_def])
  moreover have "u \<in> set (filter (activeAdmin c) (users s))" "v \<in> set (filter (activeAdmin c) (users s))"
    using u v(1) v'(2) assms(3) by (simp_all add: activeAdmin_def)
  ultimately have "u = v" by (metis One_nat_def length_0_conv length_Suc_conv list.set(1) list.set(2) singletonD)
  then show False using v'(1) u by simp
qed

text \<open>
  A suspension an admin asked for and the company approved does not take effect while the marketer
  stays logged in: every refresh token that worked before works after it, and the marketer is told
  the account is active.  The company's own switch ends the sessions.
\<close>

theorem approved_suspension_keeps_sessions:
  assumes "handleApprovalRequest e c rid True reason s = (Inr (), t)" "distinct (map ar_requestId (approvalRequests s))"
    and "distinct (map u_userId (users s))" "r \<in> set (approvalRequests s)" "ar_requestId r = rid" "ar_action r = TOGGLE_ACTIVE"
    and "find_user (ar_targetUserId r) s = Some m" "u_active m"
  shows "map_option u_active (find_user (ar_targetUserId r) t) = Some False \<and>
    (\<forall>k e' rt. ok (refresh k e' rt s) \<longrightarrow> ok (refresh k e' rt t)) \<and>
    Event ''MARKETER_TOGGLE_STATUS ACTIVE'' (ar_targetUserId r) \<in> set (outbox t)"
proof -
  let ?P = "\<lambda>r. ar_requestId r = rid \<and> ar_companyId r = c \<and> ar_status r = ApprovalStatus.PENDING"
  obtain r' where r': "find ?P (approvalRequests s) = Some r'"
    using assms(1) by (auto simp: handleApprovalRequest_def split: option.splits)
  have "r' \<in> set (approvalRequests s)" "ar_requestId r' = rid" using find_set[OF r'] by simp_all
  then have eq: "r' = r" using assms(2,4,5) by (auto simp: distinct_map inj_on_def)
  let ?f = "\<lambda>u. u\<lparr>u_active := \<not> u_active m\<rparr>"
  have t: "t = emit (Event ''MARKETER_TOGGLE_STATUS ACTIVE'' (ar_targetUserId r)) (update_user (ar_targetUserId r) ?f
      (update_approval rid (\<lambda>x. x\<lparr>ar_status := ApprovalStatus.APPROVED, ar_reviewedAt := Some (env_now e)\<rparr>) s))"
    using assms(1,5-8) r' eq by (simp add: handleApprovalRequest_def executeRequest_def Let_def statusName_def)
  have u: "users t = update_where (\<lambda>u. u_userId u = ar_targetUserId r) ?f (users s)" "userSessions t = userSessions s" by (simp_all add: t)
  have fu: "find_user i t = map_option (\<lambda>x. if u_userId x = ar_targetUserId r then ?f x else x) (find_user i s)" for i
    unfolding find_user_def u(1) by (rule find_update_where) simp
  have "ok (refresh k e' rt t)" if "ok (refresh k e' rt s)" for k e' rt
    using that unfolding refresh_def u(2) by (auto simp: fu split: option.splits if_splits)
  moreover have "map_option u_active (find_user (ar_targetUserId r) t) = Some False"
    using assms(7,8) find_set[OF assms(7)[unfolded find_user_def]] by (simp add: fu)
  ultimately show ?thesis by (simp add: t)
qed

section \<open>Samples\<close>

definition sample_staff :: "ident \<Rightarrow> Role \<Rightarrow> ident \<Rightarrow> user_row" where
  "sample_staff i role creator = sample_member\<lparr>u_userId := i, u_email := i @ ''@e.com'', u_role := role, u_companyId := Some ''co'',
     u_createdById := Some creator\<rparr>"

definition sample_company :: db where
  "sample_company = empty_db\<lparr>users := [sample_staff ''ad'' ADMIN ''ow'', sample_staff ''mk'' MARKETER ''ad'', sample_member],
     userSessions := [sample_login\<lparr>us_userId := ''mk''\<rparr>]\<rparr>"

definition sample_asked :: db where
  "sample_asked = snd (requestMarketerToggle (sample_clock CHR ''q'' 1000) ''co'' ''mk'' ''ad'' None sample_company)"

definition sample_asked_row :: approval_row where
  "sample_asked_row = \<lparr>ar_requestId = ''q'', ar_companyId = ''co'', ar_requestedById = ''ad'', ar_targetUserId = ''mk'',
     ar_action = TOGGLE_ACTIVE, ar_reason = None, ar_status = ApprovalStatus.PENDING, ar_reviewReason = None,
     ar_reviewedAt = None, ar_createdAt = 1000\<rparr>"

lemma sample_company_start: "distinct (map u_userId (users sample_company))" "approvalRequests sample_company = []"
  by (simp_all add: sample_company_def sample_staff_def sample_member_def empty_db_def)

lemma sample_asked_state: "approvalRequests sample_asked = [sample_asked_row]" "users sample_asked = users sample_company"
  by (simp_all add: sample_asked_def sample_company_def sample_staff_def sample_member_def empty_db_def requestMarketerToggle_def
      createRequest_def ensureAdminCanManageMarketer_def findStaff_def staff_def find_user_def Let_def sample_clock_def sample_asked_row_def)

lemma sample_asked_step: "any_staff_step\<^sup>*\<^sup>* sample_company sample_asked"
proof -
  have "staff_step ''co'' sample_company sample_asked" unfolding sample_asked_def
    by (rule staff_step.asks_toggle) (simp add: sample_company_start)
  then show ?thesis unfolding any_staff_step_def by (intro r_into_rtranclp exI)
qed

theorem staff_actions_stay_in_the_company_witness:
  "filter (\<lambda>u. u_companyId u \<noteq> Some ''co'') (users (snd (handleApprovalRequest (sample_clock CHR ''h'' 2000) ''co'' ''q'' True None sample_asked)))
     = [sample_member]"
proof -
  have "filter (\<lambda>u. u_companyId u \<noteq> Some ''co'') (users sample_asked) = [sample_member]"
    by (simp add: sample_asked_state sample_company_def sample_staff_def sample_member_def)
  then show ?thesis
    using staff_actions_stay_in_the_company[OF sample_company_start sample_asked_step staff_step.decides] by simp
qed

theorem one_pending_request_of_a_kind_witness:
  "\<exists>u \<in> set (users sample_asked). u_userId u = ''mk'' \<and> u_companyId u = Some ''co'' \<and> u_role u = MARKETER"
proof -
  have "sample_asked_row \<in> set (approvalRequests sample_asked)" "pendingRequest ''co'' ''mk'' TOGGLE_ACTIVE sample_asked_row"
    by (simp_all add: sample_asked_state sample_asked_row_def pendingRequest_def)
  from one_pending_request_of_a_kind[OF sample_company_start sample_asked_step this(1) this(1) this(2) this(2)]
  show ?thesis by (rule conjunct2)
qed

theorem switch_keeps_an_active_admin_witness:
  "0 < activeAdmins ''co'' (snd (toggleAdminStatus ''co'' ''ad'' sample_company))"
  by (rule switch_keeps_an_active_admin)
    (simp_all add: sample_company_start activeAdmins_def count_where_def sample_company_def sample_staff_def staff_def sample_member_def)

theorem approved_suspension_keeps_sessions_witness:
  "\<exists>t. handleApprovalRequest (sample_clock CHR ''h'' 2000) ''co'' ''q'' True None sample_asked = (Inr (), t) \<and>
     map_option u_active (find_user ''mk'' t) = Some False"
proof -
  have r: "distinct (map ar_requestId (approvalRequests sample_asked))" "distinct (map u_userId (users sample_asked))"
    "sample_asked_row \<in> set (approvalRequests sample_asked)" "ar_requestId sample_asked_row = ''q''"
    "ar_action sample_asked_row = TOGGLE_ACTIVE" "ar_targetUserId sample_asked_row = ''mk''"
    using sample_company_start(1) by (simp_all add: sample_asked_state) (simp_all add: sample_asked_row_def)
  have m: "find_user (ar_targetUserId sample_asked_row) sample_asked = Some (sample_staff ''mk'' MARKETER ''ad'')"
    "u_active (sample_staff ''mk'' MARKETER ''ad'')"
    by (simp_all add: find_user_def r(6) sample_asked_state(2) sample_company_def) (simp_all add: sample_staff_def sample_member_def)
  have "\<exists>t. handleApprovalRequest (sample_clock CHR ''h'' 2000) ''co'' ''q'' True None sample_asked = (Inr (), t)"
    using m(1) by (simp add: handleApprovalRequest_def sample_asked_state(1) sample_asked_row_def)
  then obtain t where t: "handleApprovalRequest (sample_clock CHR ''h'' 2000) ''co'' ''q'' True None sample_asked = (Inr (), t)" by blast
  note p = approved_suspension_keeps_sessions[OF t r(1-5) m, unfolded r(6)]
  show ?thesis by (rule exI[of _ t]) (rule conjI[OF t conjunct1[OF p]])
qed

end
