(* ===== verification/Banks.thy ===== *)
theory Banks
  imports Database
begin

text \<open>
  The bank accounts of marketers and of companies: \<open>src/core/services/bank.service.ts\<close> and
  \<open>src/core/services/company-bank.service.ts\<close>, two services of one shape.  Resolving an account's
  name at Paystack is a parameter.  Deleting an account clears the reference of the payouts or
  settlements made to it (the relation is optional, so Prisma sets it to null).  What both
  services promise is stated once, in the locale \<open>account_book\<close>, and holds of both tables.
\<close>

section \<open>Marketers\<close>

record bank_input =
  bk_bankName :: string
  bk_bankCode :: string
  bk_accountNumber :: string
  bk_isPrimary :: bool

definition nextBankId :: "nat list \<Rightarrow> nat" where
  "nextBankId ids = Suc (foldr max ids 0)"

definition new_marketer_bank :: "env \<Rightarrow> ident \<Rightarrow> bank_input \<Rightarrow> string \<Rightarrow> db \<Rightarrow> marketer_bank_row" where
  "new_marketer_bank e marketerId d name s =
     \<lparr>mb_id = nextBankId (map mb_id (marketerBanks s)), mb_accountId = env_uuid e 0, mb_userId = marketerId,
      mb_bankName = bk_bankName d, mb_bankCode = bk_bankCode d, mb_accountName = name, mb_accountNumber = bk_accountNumber d,
      mb_isPrimary = bk_isPrimary d, mb_recipientCode = None, mb_isVerified = True, mb_createdAt = env_now e\<rparr>"

definition clearPrimary :: "ident \<Rightarrow> db \<Rightarrow> db" where
  "clearPrimary marketerId s = s\<lparr>marketerBanks := update_where (\<lambda>b. mb_userId b = marketerId \<and> mb_isPrimary b)
     (\<lambda>b. b\<lparr>mb_isPrimary := False\<rparr>) (marketerBanks s)\<rparr>"

definition find_bank :: "ident \<Rightarrow> db \<Rightarrow> marketer_bank_row option" where
  "find_bank accountId s = find (\<lambda>b. mb_accountId b = accountId) (marketerBanks s)"

definition addBankAccount ::
  "(bank_input \<Rightarrow> string res) \<Rightarrow> env \<Rightarrow> ident \<Rightarrow> bank_input \<Rightarrow> db \<Rightarrow> marketer_bank_row res \<times> db" where
  "addBankAccount resolveAccount e marketerId d s =
     (if \<exists>b \<in> set (marketerBanks s). mb_userId b = marketerId \<and> mb_accountNumber b = bk_accountNumber d
      then (Inl (ConflictError ''This account number is already registered''), s)
      else (case resolveAccount d of
          Inl err \<Rightarrow> (Inl err, s)
        | Inr name \<Rightarrow>
            (let s1 = (if bk_isPrimary d then clearPrimary marketerId s else s);
                 b = new_marketer_bank e marketerId d name s
             in (Inr b, s1\<lparr>marketerBanks := marketerBanks s1 @ [b]\<rparr>))))"

text \<open>Primary accounts first, then by age.\<close>

definition listBankAccounts :: "ident \<Rightarrow> db \<Rightarrow> marketer_bank_row list" where
  "listBankAccounts marketerId s =
     (let bs = sort_key mb_createdAt (filter (\<lambda>b. mb_userId b = marketerId) (marketerBanks s))
      in filter mb_isPrimary bs @ filter (\<lambda>b. \<not> mb_isPrimary b) bs)"

definition switchPrimaryBankAccount :: "ident \<Rightarrow> ident \<Rightarrow> db \<Rightarrow> unit res \<times> db" where
  "switchPrimaryBankAccount marketerId accountId s =
     (case find_bank accountId s of
        None \<Rightarrow> (Inl (NotFoundError ''Bank account not found''), s)
      | Some b \<Rightarrow>
          if mb_userId b \<noteq> marketerId then (Inl (NotFoundError ''Bank account not found''), s)
          else if mb_isPrimary b then (Inr (), s)
          else (let s1 = clearPrimary marketerId s
                in (Inr (), s1\<lparr>marketerBanks := update_where (\<lambda>b. mb_accountId b = accountId)
                     (\<lambda>b. b\<lparr>mb_isPrimary := True\<rparr>) (marketerBanks s1)\<rparr>)))"

definition deleteBank :: "marketer_bank_row \<Rightarrow> db \<Rightarrow> db" where
  "deleteBank b s =
     s\<lparr>marketerBanks := filter (\<lambda>x. mb_accountId x \<noteq> mb_accountId b) (marketerBanks s),
       payouts := update_where (\<lambda>p. po_marketerBankAccountId p = Some (mb_id b))
         (\<lambda>p. p\<lparr>po_marketerBankAccountId := None\<rparr>) (payouts s)\<rparr>"

definition removeBankAccount :: "ident \<Rightarrow> ident \<Rightarrow> db \<Rightarrow> unit res \<times> db" where
  "removeBankAccount marketerId accountId s =
     (case find_bank accountId s of
        None \<Rightarrow> (Inl (NotFoundError ''Bank account not found''), s)
      | Some b \<Rightarrow>
          if mb_userId b \<noteq> marketerId then (Inl (NotFoundError ''Bank account not found''), s)
          else if mb_isPrimary b
          then (Inl (BadRequestError ''Cannot delete the primary bank account. Please set another account as primary first.''), s)
          else if \<exists>p \<in> set (payouts s). po_marketerBankAccountId p = Some (mb_id b) \<and>
              po_status p = CommissionPayoutStatus.TRANSFER_INITIATED
          then (Inl (BadRequestError ''Cannot remove a bank account with an active transfer in progress''), s)
          else (Inr (), deleteBank b s))"

section \<open>Companies\<close>

definition new_company_bank :: "env \<Rightarrow> ident \<Rightarrow> bank_input \<Rightarrow> string \<Rightarrow> db \<Rightarrow> company_bank_row" where
  "new_company_bank e companyId d name s =
     \<lparr>cb_id = nextBankId (map cb_id (companyBanks s)), cb_accountId = env_uuid e 0, cb_companyId = companyId,
      cb_bankName = bk_bankName d, cb_bankCode = bk_bankCode d, cb_accountName = name, cb_accountNumber = bk_accountNumber d,
      cb_isPrimary = bk_isPrimary d, cb_recipientCode = None, cb_isVerified = True, cb_createdAt = env_now e\<rparr>"

definition clearCompanyPrimary :: "ident \<Rightarrow> db \<Rightarrow> db" where
  "clearCompanyPrimary companyId s = s\<lparr>companyBanks := update_where (\<lambda>b. cb_companyId b = companyId \<and> cb_isPrimary b)
     (\<lambda>b. b\<lparr>cb_isPrimary := False\<rparr>) (companyBanks s)\<rparr>"

definition find_companyBank :: "ident \<Rightarrow> db \<Rightarrow> company_bank_row option" where
  "find_companyBank accountId s = find (\<lambda>b. cb_accountId b = accountId) (companyBanks s)"

definition addCompanyBankAccount ::
  "(bank_input \<Rightarrow> string res) \<Rightarrow> env \<Rightarrow> ident \<Rightarrow> bank_input \<Rightarrow> db \<Rightarrow> company_bank_row res \<times> db" where
  "addCompanyBankAccount resolveAccount e companyId d s =
     (if \<exists>b \<in> set (companyBanks s). cb_companyId b = companyId \<and> cb_accountNumber b = bk_accountNumber d
      then (Inl (ConflictError ''This account number is already registered''), s)
      else (case resolveAccount d of
          Inl err \<Rightarrow> (Inl err, s)
        | Inr name \<Rightarrow>
            (let s1 = (if bk_isPrimary d then clearCompanyPrimary companyId s else s);
                 b = new_company_bank e companyId d name s
             in (Inr b, s1\<lparr>companyBanks := companyBanks s1 @ [b]\<rparr>))))"

definition listCompanyBankAccounts :: "ident \<Rightarrow> db \<Rightarrow> company_bank_row list" where
  "listCompanyBankAccounts companyId s =
     (let bs = sort_key cb_createdAt (filter (\<lambda>b. cb_companyId b = companyId) (companyBanks s))
      in filter cb_isPrimary bs @ filter (\<lambda>b. \<not> cb_isPrimary b) bs)"

definition switchCompanyPrimary :: "ident \<Rightarrow> ident \<Rightarrow> db \<Rightarrow> unit res \<times> db" where
  "switchCompanyPrimary companyId accountId s =
     (case find_companyBank accountId s of
        None \<Rightarrow> (Inl (NotFoundError ''Bank account not found''), s)
      | Some b \<Rightarrow>
          if cb_companyId b \<noteq> companyId then (Inl (NotFoundError ''Bank account not found''), s)
          else if cb_isPrimary b then (Inr (), s)
          else (let s1 = clearCompanyPrimary companyId s
                in (Inr (), s1\<lparr>companyBanks := update_where (\<lambda>b. cb_accountId b = accountId)
                     (\<lambda>b. b\<lparr>cb_isPrimary := True\<rparr>) (companyBanks s1)\<rparr>)))"

definition deleteCompanyBank :: "company_bank_row \<Rightarrow> db \<Rightarrow> db" where
  "deleteCompanyBank b s =
     s\<lparr>companyBanks := filter (\<lambda>x. cb_accountId x \<noteq> cb_accountId b) (companyBanks s),
       settlements := update_where (\<lambda>m. ms_companyBankAccountId m = Some (cb_id b))
         (\<lambda>m. m\<lparr>ms_companyBankAccountId := None\<rparr>) (settlements s)\<rparr>"

definition removeCompanyBankAccount :: "ident \<Rightarrow> ident \<Rightarrow> db \<Rightarrow> unit res \<times> db" where
  "removeCompanyBankAccount companyId accountId s =
     (case find_companyBank accountId s of
        None \<Rightarrow> (Inl (NotFoundError ''Bank account not found''), s)
      | Some b \<Rightarrow>
          if cb_companyId b \<noteq> companyId then (Inl (NotFoundError ''Bank account not found''), s)
          else if cb_isPrimary b
          then (Inl (BadRequestError ''Cannot delete the primary bank account. Please set another account as primary first.''), s)
          else if \<exists>m \<in> set (settlements s). ms_companyBankAccountId m = Some (cb_id b) \<and>
              ms_status m = MerchantSettlementStatus.TRANSFER_INITIATED
          then (Inl (BadRequestError ''Cannot remove a bank account with an active settlement transfer in progress''), s)
          else (Inr (), deleteCompanyBank b s))"

section \<open>The contract of both services\<close>

text \<open>How a step of an owner writes the table: nothing, a new account, another primary, one account less.\<close>

locale account_book =
  fixes rows :: "'d \<Rightarrow> 'r list"
    and owner :: "'r \<Rightarrow> ident" and account :: "'r \<Rightarrow> ident" and num :: "'r \<Rightarrow> string"
    and primary :: "'r \<Rightarrow> bool" and mark :: "bool \<Rightarrow> 'r \<Rightarrow> 'r"
    and step :: "ident \<Rightarrow> 'd \<Rightarrow> 'd \<Rightarrow> bool"
  assumes mark: "owner (mark b r) = owner r" "account (mark b r) = account r" "num (mark b r) = num r" "primary (mark b r) = b"
    and writes: "step c s t \<Longrightarrow> distinct (map account (rows s)) \<Longrightarrow>
      map (\<lambda>x. (owner x, account x, num x, primary x)) (rows t) = map (\<lambda>x. (owner x, account x, num x, primary x)) (rows s) \<or>
      (\<exists>r. owner r = c \<and> account r \<notin> account ` set (rows s) \<and> (\<forall>x \<in> set (rows s). owner x = c \<longrightarrow> num x \<noteq> num r) \<and>
         rows t = (if primary r then update_where (\<lambda>x. owner x = c \<and> primary x) (mark False) (rows s) else rows s) @ [r]) \<or>
      (\<exists>r \<in> set (rows s). owner r = c \<and> rows t = update_where (\<lambda>x. account x = account r) (mark True)
         (update_where (\<lambda>x. owner x = c \<and> primary x) (mark False) (rows s))) \<or>
      (\<exists>r \<in> set (rows s). owner r = c \<and> \<not> primary r \<and> rows t = filter (\<lambda>x. account x \<noteq> account r) (rows s))"
begin

definition primaries :: "ident \<Rightarrow> 'r list \<Rightarrow> 'r list" where
  "primaries c xs = filter (\<lambda>x. owner x = c \<and> primary x) xs"

definition book_ok :: "'r list \<Rightarrow> bool" where
  "book_ok xs \<longleftrightarrow> distinct (map account xs) \<and> distinct (map (\<lambda>x. (owner x, num x)) xs) \<and> (\<forall>c. length (primaries c xs) \<le> 1)"

lemma cleared:
  "map account (update_where p (mark b) xs) = map account xs"
  "map (\<lambda>x. (owner x, num x)) (update_where p (mark b) xs) = map (\<lambda>x. (owner x, num x)) xs"
  "primaries d (update_where (\<lambda>x. owner x = c \<and> primary x) (mark False) xs) = (if d = c then [] else primaries d xs)"
proof -
  show "map account (update_where p (mark b) xs) = map account xs" by (rule map_update_where) (simp add: mark)
  show "map (\<lambda>x. (owner x, num x)) (update_where p (mark b) xs) = map (\<lambda>x. (owner x, num x)) xs"
    by (rule map_update_where) (simp add: mark)
  show "primaries d (update_where (\<lambda>x. owner x = c \<and> primary x) (mark False) xs) = (if d = c then [] else primaries d xs)"
    unfolding primaries_def by (induction xs) (auto simp: row_simps mark)
qed

lemma book_ok_core:
  assumes "map (\<lambda>x. (owner x, account x, num x, primary x)) ys = map (\<lambda>x. (owner x, account x, num x, primary x)) xs" "book_ok xs"
  shows "book_ok ys"
proof -
  have "map account ys = map account xs" using arg_cong[OF assms(1), of "map (\<lambda>(_, a, _, _). a)"] by (simp add: comp_def)
  moreover have "map (\<lambda>x. (owner x, num x)) ys = map (\<lambda>x. (owner x, num x)) xs"
    using arg_cong[OF assms(1), of "map (\<lambda>(c, _, n, _). (c, n))"] by (simp add: comp_def)
  moreover have "length (primaries c ys) = length (primaries c xs)" for c
    using arg_cong[OF assms(1), of "\<lambda>zs. length (filter (\<lambda>(d, _, _, p). d = c \<and> p) zs)"]
    by (simp add: primaries_def filter_map comp_def)
  ultimately show ?thesis using assms(2) by (simp add: book_ok_def)
qed

lemma book_ok_step:
  assumes "step c s t" "book_ok (rows s)"
  shows "book_ok (rows t)"
proof -
  let ?clear = "update_where (\<lambda>x. owner x = c \<and> primary x) (mark False) (rows s)"
  have d: "distinct (map account (rows s))" using assms(2) by (simp add: book_ok_def)
  consider (same) "map (\<lambda>x. (owner x, account x, num x, primary x)) (rows t) = map (\<lambda>x. (owner x, account x, num x, primary x)) (rows s)"
    | (added) r where "owner r = c" "account r \<notin> account ` set (rows s)" "\<forall>x \<in> set (rows s). owner x = c \<longrightarrow> num x \<noteq> num r"
        "rows t = (if primary r then ?clear else rows s) @ [r]"
    | (switched) r where "r \<in> set (rows s)" "owner r = c" "rows t = update_where (\<lambda>x. account x = account r) (mark True) ?clear"
    | (removed) r where "rows t = filter (\<lambda>x. account x \<noteq> account r) (rows s)"
    using writes[OF assms(1) d] by (elim disjE bexE exE conjE) (rule that; assumption)+
  then show ?thesis
  proof cases
    case same then show ?thesis using assms(2) book_ok_core by blast
  next
    case added
    have "primaries e (rows t) = primaries e (if primary r then ?clear else rows s) @ (if e = c \<and> primary r then [r] else [])" for e
      using added(1,4) by (auto simp: primaries_def)
    moreover have "distinct (map account (rows t))"
      using added(2,4) d by (simp add: cleared(1)) (metis cleared(1) list.set_map)
    moreover have "distinct (map (\<lambda>x. (owner x, num x)) (rows t))"
    proof -
      have "(owner r, num r) \<notin> set (map (\<lambda>x. (owner x, num x)) (rows s))" using added(1,3) by auto
      then show ?thesis using assms(2) added(4) cleared(2)[of _ False "rows s"] by (auto simp: book_ok_def simp del: set_map)
    qed
    ultimately show ?thesis using assms(2) by (auto simp: book_ok_def cleared(3))
  next
    case switched
    have key: "x = r" if "x \<in> set (rows s)" "account x = account r" for x
      using that switched(1) d by (auto simp: distinct_map inj_on_def)
    have "primaries e (rows t) = primaries e ?clear" if "e \<noteq> c" for e
      unfolding primaries_def switched(3)
      by (rule filter_update_where_inside) (use that switched(2) key in \<open>auto simp: set_update_where mark split: if_splits\<close>)
    moreover have "account x = account r" if "x \<in> set (primaries c (rows t))" for x
    proof -
      have x: "x \<in> set (rows t)" "owner x = c \<and> primary x" using that by (simp_all add: primaries_def)
      obtain z where z: "z \<in> set ?clear" "x = (if account z = account r then mark True z else z)"
        using x(1) unfolding switched(3) set_update_where[of _ _ ?clear] by blast
      have "z \<notin> set (primaries c ?clear)" by (simp add: cleared(3))
      then show ?thesis using x(2) z by (cases "account z = account r") (simp_all add: primaries_def mark)
    qed
    moreover have da: "distinct (map account (rows t))" using d by (simp add: switched(3) cleared(1))
    ultimately have "length (primaries e (rows t)) \<le> 1" for e
      using at_most_one[of account "rows t" "\<lambda>x. owner x = c \<and> primary x" "account r"] assms(2)
      by (cases "e = c") (auto simp: cleared(3) book_ok_def primaries_def[of c])
    then show ?thesis using assms(2) da unfolding book_ok_def switched(3) cleared(1,2) by blast
  next
    case removed
    have "length (primaries e (filter q xs)) \<le> length (primaries e xs)" for e q xs
      unfolding primaries_def by (induction xs) auto
    then have "length (primaries e (rows t)) \<le> 1" for e
      using assms(2) unfolding removed book_ok_def by (meson order_trans)
    then show ?thesis using assms(2) unfolding removed book_ok_def by (auto intro: distinct_map_filter)
  qed
qed

end

section \<open>Both services keep it\<close>

inductive bank_step :: "ident \<Rightarrow> db \<Rightarrow> db \<Rightarrow> bool" for c where
  adds: "env_uuid e 0 \<notin> mb_accountId ` set (marketerBanks s) \<Longrightarrow> bank_step c s (snd (addBankAccount resolveAccount e c d s))"
| switches: "bank_step c s (snd (switchPrimaryBankAccount c a s))"
| removes: "bank_step c s (snd (removeBankAccount c a s))"
| elsewhere: "map (\<lambda>b. b\<lparr>mb_recipientCode := None\<rparr>) (marketerBanks t) = map (\<lambda>b. b\<lparr>mb_recipientCode := None\<rparr>) (marketerBanks s) \<Longrightarrow>
    bank_step c s t"

inductive company_bank_step :: "ident \<Rightarrow> db \<Rightarrow> db \<Rightarrow> bool" for c where
  adds: "env_uuid e 0 \<notin> cb_accountId ` set (companyBanks s) \<Longrightarrow> company_bank_step c s (snd (addCompanyBankAccount resolveAccount e c d s))"
| switches: "company_bank_step c s (snd (switchCompanyPrimary c a s))"
| removes: "company_bank_step c s (snd (removeCompanyBankAccount c a s))"
| elsewhere: "map (\<lambda>b. b\<lparr>cb_recipientCode := None\<rparr>) (companyBanks t) = map (\<lambda>b. b\<lparr>cb_recipientCode := None\<rparr>) (companyBanks s) \<Longrightarrow>
    company_bank_step c s t"

text \<open>What the transfer workers write, a recipient code, is none of this.\<close>

lemma recipient_codes_aside:
  "map (\<lambda>b. b\<lparr>mb_recipientCode := None\<rparr>) ys = map (\<lambda>b. b\<lparr>mb_recipientCode := None\<rparr>) xs \<Longrightarrow>
    map (\<lambda>x. (mb_userId x, mb_accountId x, mb_accountNumber x, mb_isPrimary x)) ys =
    map (\<lambda>x. (mb_userId x, mb_accountId x, mb_accountNumber x, mb_isPrimary x)) xs"
  "map (\<lambda>b. b\<lparr>cb_recipientCode := None\<rparr>) zs = map (\<lambda>b. b\<lparr>cb_recipientCode := None\<rparr>) us \<Longrightarrow>
    map (\<lambda>x. (cb_companyId x, cb_accountId x, cb_accountNumber x, cb_isPrimary x)) zs =
    map (\<lambda>x. (cb_companyId x, cb_accountId x, cb_accountNumber x, cb_isPrimary x)) us"
  by (drule arg_cong[of _ _ "map (\<lambda>x. (mb_userId x, mb_accountId x, mb_accountNumber x, mb_isPrimary x))"], simp add: comp_def)
    (drule arg_cong[of _ _ "map (\<lambda>x. (cb_companyId x, cb_accountId x, cb_accountNumber x, cb_isPrimary x))"], simp add: comp_def)

interpretation marketer_book: account_book marketerBanks mb_userId mb_accountId mb_accountNumber mb_isPrimary
  "\<lambda>b r. r\<lparr>mb_isPrimary := b\<rparr>" bank_step
proof (unfold_locales, goal_cases)
  case (5 c s t)
  let ?clear = "update_where (\<lambda>x. mb_userId x = c \<and> mb_isPrimary x) (\<lambda>r. r\<lparr>mb_isPrimary := False\<rparr>) (marketerBanks s)"
  from 5(1) show ?case
  proof (cases rule: bank_step.cases)
    case (adds e resolveAccount d)
    show ?thesis
    proof (cases "(\<exists>b \<in> set (marketerBanks s). mb_userId b = c \<and> mb_accountNumber b = bk_accountNumber d) \<or> (\<exists>err. resolveAccount d = Inl err)")
      case True
      then have "marketerBanks t = marketerBanks s" using adds by (auto simp: addBankAccount_def)
      then show ?thesis by (intro disjI1) simp
    next
      case False
      then obtain name where n: "resolveAccount d = Inr name" by (cases "resolveAccount d") auto
      let ?r = "new_marketer_bank e c d name s"
      have "marketerBanks t = (if mb_isPrimary ?r then ?clear else marketerBanks s) @ [?r]"
        unfolding adds(1) using False n by (auto simp: addBankAccount_def Let_def clearPrimary_def new_marketer_bank_def)
      then show ?thesis using False adds
        by (intro disjI2 disjI1 exI[of _ ?r]) (simp add: new_marketer_bank_def)
    qed
  next
    case (switches a)
    then show ?thesis
      by (auto simp: switchPrimaryBankAccount_def find_bank_def clearPrimary_def Let_def dest!: find_set split: option.splits if_splits)
  next
    case (removes a)
    then show ?thesis
      by (auto simp: removeBankAccount_def find_bank_def deleteBank_def dest!: find_set split: option.splits if_splits)
  next
    case elsewhere then show ?thesis by (intro disjI1 recipient_codes_aside)
  qed
qed simp_all

interpretation company_book: account_book companyBanks cb_companyId cb_accountId cb_accountNumber cb_isPrimary
  "\<lambda>b r. r\<lparr>cb_isPrimary := b\<rparr>" company_bank_step
proof (unfold_locales, goal_cases)
  case (5 c s t)
  let ?clear = "update_where (\<lambda>x. cb_companyId x = c \<and> cb_isPrimary x) (\<lambda>r. r\<lparr>cb_isPrimary := False\<rparr>) (companyBanks s)"
  from 5(1) show ?case
  proof (cases rule: company_bank_step.cases)
    case (adds e resolveAccount d)
    show ?thesis
    proof (cases "(\<exists>b \<in> set (companyBanks s). cb_companyId b = c \<and> cb_accountNumber b = bk_accountNumber d) \<or> (\<exists>err. resolveAccount d = Inl err)")
      case True
      then have "companyBanks t = companyBanks s" using adds by (auto simp: addCompanyBankAccount_def)
      then show ?thesis by (intro disjI1) simp
    next
      case False
      then obtain name where n: "resolveAccount d = Inr name" by (cases "resolveAccount d") auto
      let ?r = "new_company_bank e c d name s"
      have "companyBanks t = (if cb_isPrimary ?r then ?clear else companyBanks s) @ [?r]"
        unfolding adds(1) using False n by (auto simp: addCompanyBankAccount_def Let_def clearCompanyPrimary_def new_company_bank_def)
      then show ?thesis using False adds
        by (intro disjI2 disjI1 exI[of _ ?r]) (simp add: new_company_bank_def)
    qed
  next
    case (switches a)
    then show ?thesis
      by (auto simp: switchCompanyPrimary_def find_companyBank_def clearCompanyPrimary_def Let_def dest!: find_set split: option.splits if_splits)
  next
    case (removes a)
    then show ?thesis
      by (auto simp: removeCompanyBankAccount_def find_companyBank_def deleteCompanyBank_def dest!: find_set split: option.splits if_splits)
  next
    case elsewhere then show ?thesis by (intro disjI1 recipient_codes_aside)
  qed
qed simp_all

definition any_bank_step :: "db \<Rightarrow> db \<Rightarrow> bool" where
  "any_bank_step s t \<longleftrightarrow> (\<exists>c. bank_step c s t) \<and> (\<exists>c. company_bank_step c s t)"

lemma adding_is_a_company_step: "company_bank_step c s (snd (addBankAccount resolveAccount e m d s))"
  by (rule company_bank_step.elsewhere) (simp add: addBankAccount_def Let_def clearPrimary_def split: sum.split)

section \<open>Properties\<close>

text \<open>C31: However accounts are added, made primary and removed, by marketers and by companies, every owner has at
  most one primary account and no account number twice, and account identifiers stay unique.
\<close>

theorem one_primary_account:
  assumes "any_bank_step\<^sup>*\<^sup>* s t" "marketerBanks s = []" "companyBanks s = []"
  shows "length (filter (\<lambda>b. mb_userId b = m \<and> mb_isPrimary b) (marketerBanks t)) \<le> 1 \<and>
    length (filter (\<lambda>b. cb_companyId b = c \<and> cb_isPrimary b) (companyBanks t)) \<le> 1 \<and>
    distinct (map (\<lambda>b. (mb_userId b, mb_accountNumber b)) (marketerBanks t)) \<and>
    distinct (map (\<lambda>b. (cb_companyId b, cb_accountNumber b)) (companyBanks t)) \<and>
    distinct (map mb_accountId (marketerBanks t)) \<and> distinct (map cb_accountId (companyBanks t))"
proof -
  have "marketer_book.book_ok (marketerBanks t) \<and> company_book.book_ok (companyBanks t)"
    using assms
  proof (induction rule: rtranclp_induct)
    case base
    then show ?case by (simp add: marketer_book.book_ok_def company_book.book_ok_def marketer_book.primaries_def company_book.primaries_def)
  next
    case (step y z)
    then show ?case by (auto simp: any_bank_step_def intro: marketer_book.book_ok_step company_book.book_ok_step)
  qed
  then show ?thesis
    by (simp add: marketer_book.book_ok_def company_book.book_ok_def marketer_book.primaries_def company_book.primaries_def)
qed

definition sample_bank_input :: bank_input where
  "sample_bank_input = \<lparr>bk_bankName = ''Bank'', bk_bankCode = ''044'', bk_accountNumber = ''0123456789'', bk_isPrimary = True\<rparr>"

definition sample_added :: "marketer_bank_row res \<times> db" where
  "sample_added = addBankAccount (\<lambda>d. Inr ''Ada'') \<lparr>env_now = 5, env_uuid = (\<lambda>i. ''acc'')\<rparr> ''mk'' sample_bank_input empty_db"

theorem one_primary_account_witness:
  "length (filter (\<lambda>b. mb_userId b = ''mk'' \<and> mb_isPrimary b) (marketerBanks (snd sample_added))) \<le> 1"
proof -
  have "bank_step ''mk'' empty_db (snd sample_added)"
    unfolding sample_added_def by (rule bank_step.adds) (simp add: empty_db_def)
  moreover have "company_bank_step ''co'' empty_db (snd sample_added)" unfolding sample_added_def by (rule adding_is_a_company_step)
  ultimately have "any_bank_step\<^sup>*\<^sup>* empty_db (snd sample_added)" unfolding any_bank_step_def by (intro r_into_rtranclp conjI exI)
  moreover have "marketerBanks empty_db = []" "companyBanks empty_db = []" by (simp_all add: empty_db_def)
  ultimately show ?thesis using one_primary_account[of empty_db "snd sample_added" "''mk''" "''co''"] by simp
qed

lemma switched_rows:
  assumes "find_bank a s = Some b" "mb_userId b = m" "\<not> mb_isPrimary b"
    "\<And>x. x \<in> set (marketerBanks s) \<Longrightarrow> mb_accountId x = a \<Longrightarrow> x = b"
  shows "marketerBanks (snd (switchPrimaryBankAccount m a s)) = map (\<lambda>x. if x = b then x\<lparr>mb_isPrimary := True\<rparr>
    else if mb_userId x = m \<and> mb_isPrimary x then x\<lparr>mb_isPrimary := False\<rparr> else x) (marketerBanks s)" (is "_ = map ?h _")
proof -
  have "mb_accountId b = a" using find_set[OF assms(1)[unfolded find_bank_def]] by simp
  have "marketerBanks (snd (switchPrimaryBankAccount m a s)) = update_where (\<lambda>b. mb_accountId b = a) (\<lambda>b. b\<lparr>mb_isPrimary := True\<rparr>)
      (update_where (\<lambda>b. mb_userId b = m \<and> mb_isPrimary b) (\<lambda>b. b\<lparr>mb_isPrimary := False\<rparr>) (marketerBanks s))"
    using assms(1-3) by (simp add: switchPrimaryBankAccount_def Let_def clearPrimary_def)
  also have "\<dots> = map ?h (marketerBanks s)"
    unfolding update_where_def map_map
  proof (rule map_cong[OF refl])
    fix x assume x: "x \<in> set (marketerBanks s)"
    show "((\<lambda>x. if mb_accountId x = a then x\<lparr>mb_isPrimary := True\<rparr> else x) \<circ>
        (\<lambda>x. if mb_userId x = m \<and> mb_isPrimary x then x\<lparr>mb_isPrimary := False\<rparr> else x)) x = ?h x"
    proof (cases "x = b")
      case True then show ?thesis using \<open>mb_accountId b = a\<close> assms(3) by simp
    next
      case False
      then have "mb_accountId x \<noteq> a" using assms(4)[OF x] by blast
      then show ?thesis using False by simp
    qed
  qed
  finally show ?thesis .
qed

text \<open>
  Making an account primary succeeds exactly for an account of the owner, and leaves it as the only
  primary account of the owner, with every other owner's accounts as they were.
\<close>

theorem switching_makes_the_account_primary:
  assumes "distinct (map mb_accountId (marketerBanks s))"
    and "length (filter (\<lambda>b. mb_userId b = m \<and> mb_isPrimary b) (marketerBanks s)) \<le> 1"
  shows "(ok (fst (switchPrimaryBankAccount m a s)) \<longleftrightarrow> (\<exists>b \<in> set (marketerBanks s). mb_accountId b = a \<and> mb_userId b = m)) \<and>
    (ok (fst (switchPrimaryBankAccount m a s)) \<longrightarrow>
      map mb_accountId (filter (\<lambda>b. mb_userId b = m \<and> mb_isPrimary b) (marketerBanks (snd (switchPrimaryBankAccount m a s)))) = [a] \<and>
      filter (\<lambda>b. mb_userId b \<noteq> m) (marketerBanks (snd (switchPrimaryBankAccount m a s))) =
        filter (\<lambda>b. mb_userId b \<noteq> m) (marketerBanks s))"
proof (cases "find_bank a s")
  case None
  then show ?thesis by (auto simp: switchPrimaryBankAccount_def find_bank_def dest: find_none)
next
  case (Some b)
  have b: "b \<in> set (marketerBanks s)" "mb_accountId b = a" using find_set[OF Some[unfolded find_bank_def]] by simp_all
  have key: "x = b" if "x \<in> set (marketerBanks s)" "mb_accountId x = a" for x
    using that b assms(1) by (auto simp: distinct_map inj_on_def)
  show ?thesis
  proof (cases "mb_userId b = m")
    case False then show ?thesis using Some key by (auto simp: switchPrimaryBankAccount_def)
  next
    case own: True
    show ?thesis
    proof (cases "mb_isPrimary b")
      case True
      then have "b \<in> set (filter (\<lambda>b. mb_userId b = m \<and> mb_isPrimary b) (marketerBanks s))" using b own by simp
      then have "filter (\<lambda>b. mb_userId b = m \<and> mb_isPrimary b) (marketerBanks s) = [b]"
        using assms(2) by (cases "filter (\<lambda>b. mb_userId b = m \<and> mb_isPrimary b) (marketerBanks s)") auto
      then show ?thesis using Some own True b by (auto simp: switchPrimaryBankAccount_def)
    next
      case False
      let ?h = "\<lambda>x. if x = b then x\<lparr>mb_isPrimary := True\<rparr> else if mb_userId x = m \<and> mb_isPrimary x then x\<lparr>mb_isPrimary := False\<rparr> else x"
      let ?t = "snd (switchPrimaryBankAccount m a s)"
      have "marketerBanks ?t = map ?h (marketerBanks s)" by (rule switched_rows[OF Some own False key])
      moreover have "filter (\<lambda>b. mb_userId b = m \<and> mb_isPrimary b) (map ?h (marketerBanks s)) = [?h b]"
        by (rule filter_map_single) (use assms(1) b(1) own in \<open>auto simp: distinct_map\<close>)
      moreover have "filter (\<lambda>b. mb_userId b \<noteq> m) (map ?h xs) = filter (\<lambda>b. mb_userId b \<noteq> m) xs" for xs
        using own by (induction xs) auto
      ultimately show ?thesis using Some own False b by (auto simp: switchPrimaryBankAccount_def Let_def)
    qed
  qed
qed

theorem switching_makes_the_account_primary_witness:
  "map mb_accountId (filter (\<lambda>b. mb_userId b = ''mk'' \<and> mb_isPrimary b)
     (marketerBanks (snd (switchPrimaryBankAccount ''mk'' ''acc'' (snd sample_added))))) = [''acc'']"
proof -
  have s: "map mb_accountId (marketerBanks (snd sample_added)) = [''acc'']" "map mb_userId (marketerBanks (snd sample_added)) = [''mk'']"
    by (simp_all add: sample_added_def addBankAccount_def sample_bank_input_def empty_db_def new_marketer_bank_def clearPrimary_def Let_def)
  then obtain b where b: "marketerBanks (snd sample_added) = [b]" "mb_accountId b = ''acc''" "mb_userId b = ''mk''"
    by (auto simp: map_eq_Cons_conv)
  have "distinct (map mb_accountId (marketerBanks (snd sample_added)))"
    "length (filter (\<lambda>b. mb_userId b = ''mk'' \<and> mb_isPrimary b) (marketerBanks (snd sample_added))) \<le> 1" by (simp_all add: b)
  note w = switching_makes_the_account_primary[OF this, of "''acc''"]
  have "\<exists>x \<in> set (marketerBanks (snd sample_added)). mb_accountId x = ''acc'' \<and> mb_userId x = ''mk''"
    by (rule bexI[where x = b], rule conjI, rule b(2), rule b(3)) (simp add: b(1))
  then have "ok (fst (switchPrimaryBankAccount ''mk'' ''acc'' (snd sample_added)))" by (rule iffD2[OF conjunct1[OF w]])
  then show ?thesis by (rule conjunct1[OF mp[OF conjunct2[OF w]]])
qed

end
