(* ===== verification/Catalog.thy ===== *)
theory Catalog
  imports Paging JsNumber JsString "HOL-Library.Char_ord" "HOL-Library.List_Lexorder" "HOL-Library.Product_Lexorder"
begin

text \<open>
  The catalog of products: \<open>src/core/services/product.service.ts\<close>, with the tenant check of
  \<open>src/shared/utils/helpers/tenant-scope.ts\<close>.  Prices are read as numbers and written back as
  decimals; a price of at most fifteen significant digits survives that unchanged, so the minimum and
  maximum are taken of the decimals themselves.  The breakdowns are binary64 arithmetic.
  PostgreSQL's full-text rank is a parameter; the links of the cursor pages, which only spell out the
  cursor and the limit, are left out, and so is the JSON column \<open>attributes\<close>.
\<close>

section \<open>The tenant check\<close>

definition assertCompanyOwnership ::
  "ident option \<Rightarrow> ident option \<Rightarrow> Role option \<Rightarrow> string \<Rightarrow> unit res" where
  "assertCompanyOwnership resourceCompanyId callerCompanyId callerRole notFoundMessage =
     (if callerRole = Some SUPER_ADMIN then Inr ()
      else if or_null callerCompanyId = None \<or> resourceCompanyId \<noteq> callerCompanyId
      then Inl (NotFoundError notFoundMessage)
      else Inr ())"

section \<open>Slugs\<close>

definition isSlugChar :: "char \<Rightarrow> bool" where
  "isSlugChar c \<longleftrightarrow> (let n = (of_char c :: nat) in (48 \<le> n \<and> n \<le> 57) \<or> (97 \<le> n \<and> n \<le> 122))"

text \<open>\<open>.replace(/[^a-z0-9]+/g, "-")\<close>; the flag says whether the run it is in has been written.\<close>

fun dashRuns :: "bool \<Rightarrow> string \<Rightarrow> string" where
  "dashRuns r [] = []"
| "dashRuns r (c # s) =
     (if isSlugChar c then c # dashRuns False s
      else if r then dashRuns True s else CHR ''-'' # dashRuns True s)"

text \<open>\<open>.replace(/(^-|-$)+/g, "")\<close>, on a string without two hyphens in a row.\<close>

definition trimDashes :: "string \<Rightarrow> string" where
  "trimDashes s =
     (let a = (if s \<noteq> [] \<and> hd s = CHR ''-'' then tl s else s)
      in if a \<noteq> [] \<and> last a = CHR ''-'' then butlast a else a)"

definition slugBase :: "string \<Rightarrow> string" where
  "slugBase name = trimDashes (dashRuns False (toLowerCase name))"

definition generateSlug :: "string \<Rightarrow> string \<Rightarrow> string" where
  "generateSlug uuid name = slugBase name @ ''-'' @ take 8 uuid"

section \<open>Reading a product\<close>

definition find_product :: "ident \<Rightarrow> db \<Rightarrow> product_row option" where
  "find_product pid s = find (\<lambda>p. pr_productId p = pid) (products s)"

definition find_variant :: "ident \<Rightarrow> db \<Rightarrow> variant_row option" where
  "find_variant vid s = find (\<lambda>v. va_variantId v = vid) (variants s)"

definition find_category :: "ident \<Rightarrow> db \<Rightarrow> category_row option" where
  "find_category cid s = find (\<lambda>c. ca_categoryId c = cid) (categories s)"

definition update_product :: "ident \<Rightarrow> (product_row \<Rightarrow> product_row) \<Rightarrow> db \<Rightarrow> db" where
  "update_product pid f s = s\<lparr>products := update_where (\<lambda>p. pr_productId p = pid) f (products s)\<rparr>"

definition activeVariants :: "ident \<Rightarrow> db \<Rightarrow> variant_row list" where
  "activeVariants pid s = filter (\<lambda>v. va_productId v = pid \<and> va_isActive v) (variants s)"

record breakdown =
  bd_variantId :: "ident option"
  bd_sku :: "string option"
  bd_planId :: ident
  bd_durationMonths :: nat
  bd_interestPercentage :: rat
  bd_basePrice :: rat
  bd_totalPrice :: rat
  bd_monthlyPayment :: rat

record variant_view =
  vv_variant :: variant_row
  vv_images :: "(variant_image_row \<times> product_image_row option) list"

record product_view =
  pv_product :: product_row
  pv_category :: "category_row option"
  pv_images :: "product_image_row list"
  pv_variants :: "variant_view list"
  pv_installmentPlans :: "installment_plan_row list"
  pv_installmentBreakdown :: "breakdown list"

definition viewVariant :: "db \<Rightarrow> variant_row \<Rightarrow> variant_view" where
  "viewVariant s v =
     \<lparr>vv_variant = v,
      vv_images = map (\<lambda>x. (x, find (\<lambda>i. im_id i = vi_imageId x) (productImages s)))
        (sort_key vi_sortOrder (filter (\<lambda>x. vi_variantId x = va_variantId v) (variantImages s)))\<rparr>"

definition standardIncludes :: "db \<Rightarrow> product_row \<Rightarrow> product_view" where
  "standardIncludes s p =
     \<lparr>pv_product = p, pv_category = find_category (pr_categoryId p) s,
      pv_images = sort_key im_sortOrder (filter (\<lambda>i. im_productId i = pr_productId p) (productImages s)),
      pv_variants = map (viewVariant s) (sort_key va_createdAt (activeVariants (pr_productId p) s)),
      pv_installmentPlans = sort_key ip_durationMonths
        (filter (\<lambda>q. ip_productId q = pr_productId p \<and> ip_active q) (installmentPlans s)),
      pv_installmentBreakdown = []\<rparr>"

text \<open>\<open>Number(x.toFixed(2))\<close> of a number that is not negative: the nearest hundredth, the larger one of two.\<close>

definition jsFixed2 :: "rat \<Rightarrow> rat" where
  "jsFixed2 x = fl (of_int \<lfloor>x * 100 + 1/2\<rfloor> / 100)"

definition computeBreakdown ::
  "rat \<Rightarrow> installment_plan_row \<Rightarrow> ident option \<Rightarrow> string option \<Rightarrow> breakdown" where
  "computeBreakdown basePrice plan variantId sku =
     (let rate = fl (ip_interestPercentage plan);
          full = jsMul basePrice (fl (1 + jsDiv rate 100))
      in \<lparr>bd_variantId = variantId, bd_sku = sku, bd_planId = ip_planId plan,
          bd_durationMonths = ip_durationMonths plan, bd_interestPercentage = rate, bd_basePrice = basePrice,
          bd_totalPrice = jsFixed2 full,
          bd_monthlyPayment = jsFixed2 (jsDiv full (of_nat (ip_durationMonths plan)))\<rparr>)"

definition attachBreakdowns :: "product_view \<Rightarrow> product_view" where
  "attachBreakdowns v = v\<lparr>pv_installmentBreakdown :=
     (if pv_variants v \<noteq> []
      then concat (map (\<lambda>w. map (\<lambda>q. computeBreakdown (fl (va_price (vv_variant w))) q
          (Some (va_variantId (vv_variant w))) (Some (va_sku (vv_variant w)))) (pv_installmentPlans v)) (pv_variants v))
      else map (\<lambda>q. computeBreakdown (fl (pr_price (pv_product v))) q None None) (pv_installmentPlans v))\<rparr>"

definition getProductById :: "ident \<Rightarrow> db \<Rightarrow> product_view res" where
  "getProductById pid s =
     (case find_product pid s of
        None \<Rightarrow> Inl (NotFoundError ''Product not found'')
      | Some p \<Rightarrow> Inr (attachBreakdowns (standardIncludes s p)))"

definition getProductBySlug :: "string \<Rightarrow> db \<Rightarrow> product_view res" where
  "getProductBySlug slug s =
     (case find (\<lambda>p. pr_slug p = slug) (products s) of
        None \<Rightarrow> Inl (PlainError ''Product not found'')
      | Some p \<Rightarrow>
          if pr_status p \<noteq> PUBLISHED then Inl (PlainError ''Product not found'')
          else Inr (attachBreakdowns (standardIncludes s p)))"

section \<open>The lists\<close>

text \<open>\<open>category && {\<dots>}\<close>: the category's name or slug, whatever its case; an empty string asks for none.\<close>

definition inCategory :: "string option \<Rightarrow> db \<Rightarrow> product_row \<Rightarrow> bool" where
  "inCategory category s p =
     (case or_null category of
        None \<Rightarrow> True
      | Some c \<Rightarrow>
         (case find_category (pr_categoryId p) s of
            None \<Rightarrow> False
          | Some x \<Rightarrow> toLowerCase (ca_name x) = toLowerCase c \<or> toLowerCase (ca_slug x) = toLowerCase c))"

definition ofCompany :: "ident option \<Rightarrow> product_row \<Rightarrow> bool" where
  "ofCompany companyId p = (case or_null companyId of None \<Rightarrow> True | Some c \<Rightarrow> pr_companyId p = Some c)"

record product_query =
  pq_page :: int
  pq_limit :: int
  pq_desc :: bool
  pq_category :: "string option"
  pq_companyId :: "ident option"
  pq_status :: "ProductStatus option"

definition matchesQuery :: "product_query \<Rightarrow> db \<Rightarrow> product_row \<Rightarrow> bool" where
  "matchesQuery q s p \<longleftrightarrow>
     pr_status p = (case pq_status q of None \<Rightarrow> PUBLISHED | Some st \<Rightarrow> st) \<and>
     ofCompany (pq_companyId q) p \<and> inCategory (pq_category q) s p"

definition getAllProducts :: "product_query \<Rightarrow> db \<Rightarrow> product_view list \<times> pagination" where
  "getAllProducts q s =
     (let found = filter (matchesQuery q s) (products s)
      in (map (attachBreakdowns \<circ> standardIncludes s)
            (pageOf (pq_page q) (pq_limit q) (orderByTime (pq_desc q) pr_createdAt found)),
          paginationOf (pq_page q) (pq_limit q) (int (length found))))"

record cursor_query =
  cq_limit :: nat
  cq_cursor :: "ident option"
  cq_desc :: bool
  cq_category :: "string option"
  cq_companyId :: "ident option"

record cursor_page =
  cp_products :: "product_view list"
  cp_nextCursor :: "ident option"
  cp_prevCursor :: "ident option"
  cp_hasNextPage :: bool
  cp_hasPreviousPage :: bool

text \<open>\<open>orderBy: [{ createdAt }, { productId }]\<close>\<close>

definition cursorKey :: "product_row \<Rightarrow> int \<times> string" where
  "cursorKey p = (pr_createdAt p, pr_productId p)"

definition orderByKey :: "bool \<Rightarrow> product_row list \<Rightarrow> product_row list" where
  "orderByKey desc ps = (let qs = sort_key cursorKey ps in if desc then rev qs else qs)"

definition visibleProducts :: "cursor_query \<Rightarrow> db \<Rightarrow> product_row list" where
  "visibleProducts q s = orderByKey (cq_desc q)
     (filter (\<lambda>p. pr_status p = PUBLISHED \<and> ofCompany (cq_companyId q) p \<and> inCategory (cq_category q) s p) (products s))"

text \<open>
  Prisma's cursor: the rows from the position of the cursor's row on, that row included; no rows when the
  cursor names none.
\<close>

definition fromCursor :: "bool \<Rightarrow> ident \<Rightarrow> db \<Rightarrow> product_row list \<Rightarrow> product_row list" where
  "fromCursor desc c s ps =
     (case find_product c s of
        None \<Rightarrow> []
      | Some r \<Rightarrow> dropWhile (\<lambda>p. if desc then cursorKey r < cursorKey p else cursorKey p < cursorKey r) ps)"

definition getAllProductCursor :: "cursor_query \<Rightarrow> db \<Rightarrow> cursor_page" where
  "getAllProductCursor q s =
     (let ps = visibleProducts q s;
          start = (case or_null (cq_cursor q) of None \<Rightarrow> ps | Some c \<Rightarrow> drop 1 (fromCursor (cq_desc q) c s ps));
          raw = take (cq_limit q + 1) start;
          next' = (if cq_limit q < length raw then Some (pr_productId (last raw)) else None);
          shown = (if cq_limit q < length raw then butlast raw else raw)
      in \<lparr>cp_products = map (attachBreakdowns \<circ> standardIncludes s) shown,
          cp_nextCursor = next',
          cp_prevCursor = (case shown of [] \<Rightarrow> None | p # _ \<Rightarrow> Some (pr_productId p)),
          cp_hasNextPage = (or_null next' \<noteq> None), cp_hasPreviousPage = (or_null (cq_cursor q) \<noteq> None)\<rparr>)"

record search_query =
  sq_search :: string
  sq_page :: int
  sq_limit :: int
  sq_minPrice :: "rat option"
  sq_maxPrice :: "rat option"

text \<open>Both bounds are written to the key \<open>price\<close> of the filter, so the upper one replaces the lower one.\<close>

definition inPriceRange :: "search_query \<Rightarrow> product_row \<Rightarrow> bool" where
  "inPriceRange q p \<longleftrightarrow>
     (case sq_maxPrice q of
        Some m \<Rightarrow> pr_price p \<le> m
      | None \<Rightarrow> (case sq_minPrice q of None \<Rightarrow> True | Some m \<Rightarrow> m \<le> pr_price p))"

text \<open>\<open>tsRank q p\<close> is \<open>None\<close> when the search vector of \<open>p\<close> does not match \<open>q\<close>.\<close>

definition rankedMatches :: "(string \<Rightarrow> product_row \<Rightarrow> rat option) \<Rightarrow> string \<Rightarrow> db \<Rightarrow> product_row list" where
  "rankedMatches tsRank text' s =
     sort_key (\<lambda>p. - the (tsRank text' p))
       (filter (\<lambda>p. pr_status p = PUBLISHED \<and> tsRank text' p \<noteq> None) (products s))"

definition rankOrder :: "ident list \<Rightarrow> ident \<Rightarrow> nat" where
  "rankOrder ids i = (if i \<in> set ids then length (takeWhile (\<lambda>j. j \<noteq> i) ids) else 999)"

definition searchProducts ::
  "(string \<Rightarrow> product_row \<Rightarrow> rat option) \<Rightarrow> search_query \<Rightarrow> db \<Rightarrow> product_view list \<times> pagination" where
  "searchProducts tsRank q s =
     (let matches = rankedMatches tsRank (sq_search q) s;
          ids = map pr_productId (pageOf (sq_page q) (sq_limit q) matches);
          pg = paginationOf (sq_page q) (sq_limit q) (int (length matches))
      in if ids = [] then ([], pg\<lparr>pg_hasNextPage := False, pg_hasPreviousPage := False\<rparr>)
         else (let raw = filter (\<lambda>p. pr_productId p \<in> set ids \<and> inPriceRange q p) (products s)
               in (map (attachBreakdowns \<circ> standardIncludes s)
                     (sort_key (\<lambda>p. rankOrder ids (pr_productId p)) raw), pg)))"

section \<open>Writing products\<close>

definition syncStats :: "ident \<Rightarrow> db \<Rightarrow> db" where
  "syncStats pid s =
     (let vs = activeVariants pid s;
          minPrice = Min (set (map va_price vs));
          maxPrice = Max (set (map va_price vs));
          totalStock = sum_list (map va_stockQuantity vs)
      in if vs = [] then s
         else update_product pid (\<lambda>p. p\<lparr>pr_price := minPrice, pr_minPrice := Some minPrice, pr_maxPrice := Some maxPrice,
             pr_stockQuantity := totalStock, pr_status := (if totalStock = 0 then SOLD_OUT else PUBLISHED)\<rparr>) s)"

record plan_input =
  pl_durationMonths :: nat
  pl_interestPercentage :: decimal
  pl_active :: bool

record product_input =
  pn_name :: string
  pn_description :: "string option"
  pn_categoryId :: ident
  pn_commissionRate :: decimal
  pn_status :: ProductStatus
  pn_price :: decimal
  pn_stockQuantity :: int
  pn_installmentPlans :: "plan_input list"

definition new_plan :: "ident \<Rightarrow> ident \<Rightarrow> plan_input \<Rightarrow> installment_plan_row" where
  "new_plan planId pid p = \<lparr>ip_planId = planId, ip_productId = pid, ip_durationMonths = pl_durationMonths p,
     ip_interestPercentage = pl_interestPercentage p, ip_active = pl_active p\<rparr>"

text \<open>
  \<open>product.create\<close> with its nested plans; the identifiers are taken from the \<open>n\<close>-th on.  The slug
  is unique, the category and the company are foreign keys.
\<close>

definition new_product :: "env \<Rightarrow> nat \<Rightarrow> ident option \<Rightarrow> product_input \<Rightarrow> product_row" where
  "new_product e n companyId d =
     \<lparr>pr_productId = env_uuid e (n + 1), pr_companyId = companyId, pr_name = pn_name d,
      pr_slug = generateSlug (env_uuid e n) (pn_name d), pr_stockQuantity = pn_stockQuantity d,
      pr_commissionRate = Some (pn_commissionRate d), pr_status = pn_status d, pr_description = pn_description d,
      pr_price = pn_price d, pr_minPrice = None, pr_maxPrice = None, pr_categoryId = pn_categoryId d,
      pr_createdAt = env_now e\<rparr>"

definition createProductRow :: "env \<Rightarrow> nat \<Rightarrow> ident option \<Rightarrow> product_input \<Rightarrow> db \<Rightarrow> product_row res \<times> db" where
  "createProductRow e n companyId d s =
     (let p = new_product e n companyId d
      in if pr_slug p \<in> set (map pr_slug (products s)) then (Inl (UniqueViolation ''slug''), s)
         else if find_category (pn_categoryId d) s = None then (Inl (ForeignKeyViolation ''categoryId''), s)
         else if (case companyId of None \<Rightarrow> False | Some c \<Rightarrow> c \<notin> set (map co_companyId (companies s)))
         then (Inl (ForeignKeyViolation ''companyId''), s)
         else (Inr p, s\<lparr>products := products s @ [p],
             installmentPlans := installmentPlans s @
               map (\<lambda>(i, q). new_plan (env_uuid e (n + 2 + i)) (pr_productId p) q) (enumerate 0 (pn_installmentPlans d))\<rparr>))"

definition createProduct :: "env \<Rightarrow> ident option \<Rightarrow> product_input \<Rightarrow> db \<Rightarrow> product_view res \<times> db" where
  "createProduct e companyId d s =
     (case createProductRow e 0 companyId d s of
        (Inl err, s') \<Rightarrow> (Inl err, s')
      | (Inr p, s') \<Rightarrow> (Inr (standardIncludes s' p), s'))"

record product_changes =
  pc_name :: "string option"
  pc_description :: "string option option"
  pc_categoryId :: "ident option"
  pc_commissionRate :: "decimal option"
  pc_status :: "ProductStatus option"
  pc_price :: "decimal option"
  pc_stockQuantity :: "int option"

definition changed :: "'a option \<Rightarrow> 'a \<Rightarrow> 'a" where
  "changed new old = (case new of None \<Rightarrow> old | Some v \<Rightarrow> v)"

definition changeProduct :: "bool \<Rightarrow> product_changes \<Rightarrow> product_row \<Rightarrow> product_row" where
  "changeProduct hasActiveVariants d p =
     p\<lparr>pr_name := changed (pc_name d) (pr_name p), pr_description := changed (pc_description d) (pr_description p),
       pr_categoryId := changed (pc_categoryId d) (pr_categoryId p),
       pr_commissionRate := (case pc_commissionRate d of None \<Rightarrow> pr_commissionRate p | Some r \<Rightarrow> Some r),
       pr_status := changed (pc_status d) (pr_status p),
       pr_price := (if hasActiveVariants then pr_price p else changed (pc_price d) (pr_price p)),
       pr_stockQuantity := (if hasActiveVariants then pr_stockQuantity p else changed (pc_stockQuantity d) (pr_stockQuantity p))\<rparr>"

definition updateProduct ::
  "ident \<Rightarrow> product_changes \<Rightarrow> ident option \<Rightarrow> Role option \<Rightarrow> db \<Rightarrow> product_view option res \<times> db" where
  "updateProduct pid d callerCompanyId callerRole s =
     (case find_product pid s of
        None \<Rightarrow> (Inl (NotFoundError ''Product not found''), s)
      | Some p \<Rightarrow>
         (case assertCompanyOwnership (pr_companyId p) callerCompanyId callerRole ''Product not found'' of
            Inl err \<Rightarrow> (Inl err, s)
          | Inr _ \<Rightarrow>
              let hasActiveVariants = (activeVariants pid s \<noteq> [])
              in if hasActiveVariants \<and> (pc_price d \<noteq> None \<or> pc_stockQuantity d \<noteq> None)
                 then (Inl (BadRequestError ''Price and stock are automatically derived from active variants. Update individual variant prices and stock instead.''), s)
                 else if find_category (changed (pc_categoryId d) (pr_categoryId p)) s = None
                 then (Inl (ForeignKeyViolation ''categoryId''), s)
                 else (let s' = update_product pid (changeProduct hasActiveVariants d) s
                       in (Inr (map_option (standardIncludes s') (find_product pid s')), s'))))"

text \<open>The applications and contracts the query includes are not looked at.\<close>

definition deleteProduct :: "ident \<Rightarrow> ident option \<Rightarrow> Role option \<Rightarrow> db \<Rightarrow> product_row option res \<times> db" where
  "deleteProduct pid callerCompanyId callerRole s =
     (case find_product pid s of
        None \<Rightarrow> (Inl (NotFoundError ''Product not found''), s)
      | Some p \<Rightarrow>
         (case assertCompanyOwnership (pr_companyId p) callerCompanyId callerRole ''Product not found'' of
            Inl err \<Rightarrow> (Inl err, s)
          | Inr _ \<Rightarrow>
              let s' = update_product pid (\<lambda>p. p\<lparr>pr_status := ARCHIVED\<rparr>) s in (Inr (find_product pid s'), s')))"

section \<open>Importing products\<close>

record variant_input =
  vn_sku :: string
  vn_price :: decimal
  vn_stockQuantity :: int
  vn_size :: "string option"
  vn_color :: "string list"
  vn_imageIds :: "nat list"
  vn_isActive :: bool

definition new_variant :: "ident \<Rightarrow> time \<Rightarrow> ident \<Rightarrow> variant_input \<Rightarrow> variant_row" where
  "new_variant variantId now pid d = \<lparr>va_variantId = variantId, va_productId = pid, va_sku = vn_sku d,
     va_stockQuantity = vn_stockQuantity d, va_isActive = vn_isActive d, va_price = vn_price d, va_size = vn_size d,
     va_color = vn_color d, va_createdAt = now\<rparr>"

text \<open>\<open>productVariant.create\<close>, one row after the other; the stock-keeping unit is unique.\<close>

fun createVariantRows :: "env \<Rightarrow> nat \<Rightarrow> ident \<Rightarrow> variant_input list \<Rightarrow> db \<Rightarrow> unit res \<times> db" where
  "createVariantRows e n pid [] s = (Inr (), s)"
| "createVariantRows e n pid (d # ds) s =
     (if vn_sku d \<in> set (map va_sku (variants s)) then (Inl (UniqueViolation ''sku''), s)
      else createVariantRows e (Suc n) pid ds
        (s\<lparr>variants := variants s @ [new_variant (env_uuid e n) (env_now e) pid d]\<rparr>))"

record bulk_item =
  bi_product :: product_input
  bi_variants :: "variant_input list"

fun createItems :: "env \<Rightarrow> nat \<Rightarrow> ident option \<Rightarrow> bulk_item list \<Rightarrow> db \<Rightarrow> product_row list res \<times> db" where
  "createItems e n companyId [] s = (Inr [], s)"
| "createItems e n companyId (item # rest) s =
     (case createProductRow e n companyId (bi_product item) s of
        (Inl err, s1) \<Rightarrow> (Inl err, s1)
      | (Inr p, s1) \<Rightarrow>
          let m = n + 2 + length (pn_installmentPlans (bi_product item)) in
          (case createVariantRows e m (pr_productId p) (bi_variants item) s1 of
             (Inl err, s2) \<Rightarrow> (Inl err, s2)
           | (Inr _, s2) \<Rightarrow>
               let s3 = (if bi_variants item \<noteq> [] then syncStats (pr_productId p) s2 else s2) in
               (case createItems e (m + length (bi_variants item)) companyId rest s3 of
                  (Inl err, s4) \<Rightarrow> (Inl err, s4)
                | (Inr ps, s4) \<Rightarrow> (Inr (p # ps), s4))))"

definition createProductsBulk ::
  "env \<Rightarrow> ident option \<Rightarrow> bulk_item list \<Rightarrow> db \<Rightarrow> (nat \<times> product_row list) res \<times> db" where
  "createProductsBulk e companyId items s =
     (let payloadSkus = concat (map (\<lambda>i. map vn_sku (bi_variants i)) items)
      in if items = [] then (Inl (BadRequestError ''At least one product is required''), s)
         else if 50 < length items then (Inl (BadRequestError ''Maximum 50 products per bulk import''), s)
         else if \<not> distinct payloadSkus then (Inl (BadRequestError ''Duplicate SKU(s) in import: ''), s)
         else if \<exists>v \<in> set (variants s). va_sku v \<in> set payloadSkus
         then (Inl (BadRequestError ''Variant SKU(s) already exist: ''), s)
         else (case transaction (createItems e 0 companyId items) s of
            (Inl err, s') \<Rightarrow> (Inl err, s')
          | (Inr ps, s') \<Rightarrow> (Inr (length ps, ps), s')))"

end
