(* ===== verification/Variants.thy ===== *)
theory Variants
  imports Catalog
begin

text \<open>
  Variants and installment plans of a product: \<open>src/core/services/variant.service.ts\<close> and
  \<open>src/core/services/installment-plan.service.ts\<close>.  Every change of a variant recomputes the
  price and the stock of its product.  A contract refers to its variant, so the database refuses to
  delete a variant any contract was made for; the images shown with a variant go with it.
\<close>

section \<open>Reading\<close>

definition getVariantsByProduct :: "ident \<Rightarrow> db \<Rightarrow> variant_view list" where
  "getVariantsByProduct pid s =
     map (viewVariant s) (orderByTime True va_createdAt (filter (\<lambda>v. va_productId v = pid) (variants s)))"

definition liveContracts :: "ident \<Rightarrow> db \<Rightarrow> contract_row list" where
  "liveContracts vid s = filter (\<lambda>c. fc_variantId c = Some vid \<and>
     fc_status c \<in> {FinancingStatus.ACTIVE, PENDING_ACTIVATION}) (contracts s)"

definition getVariantById :: "ident \<Rightarrow> db \<Rightarrow> (variant_view \<times> product_row option \<times> ident list) res" where
  "getVariantById vid s =
     (case find_variant vid s of
        None \<Rightarrow> Inl (NotFoundError ''Variant not found'')
      | Some v \<Rightarrow> Inr (viewVariant s v, find_product (va_productId v) s, map fc_contractId (liveContracts vid s)))"

definition countActiveApplications :: "ident \<Rightarrow> ident option \<Rightarrow> db \<Rightarrow> nat" where
  "countActiveApplications pid variantId s =
     count_where (\<lambda>a. ka_productId a = pid \<and> (case or_null variantId of None \<Rightarrow> True | Some v \<Rightarrow> ka_variantId a = v) \<and>
       ka_status a \<in> {KycApplicationStatus.PENDING, KycApplicationStatus.APPROVED}) (kycApplications s)"

section \<open>Writing\<close>

definition update_variant :: "ident \<Rightarrow> (variant_row \<Rightarrow> variant_row) \<Rightarrow> db \<Rightarrow> db" where
  "update_variant vid f s = s\<lparr>variants := update_where (\<lambda>v. va_variantId v = vid) f (variants s)\<rparr>"

definition ownerCheck :: "ident \<Rightarrow> string \<Rightarrow> ident option \<Rightarrow> Role option \<Rightarrow> db \<Rightarrow> unit res" where
  "ownerCheck pid message callerCompanyId callerRole s =
     assertCompanyOwnership (Option.bind (find_product pid s) pr_companyId) callerCompanyId callerRole message"

text \<open>
  \<open>productVariantImage.createMany\<close> with \<open>skipDuplicates\<close>: an image already shown with the variant is
  skipped, an image that does not exist violates the foreign key.
\<close>

fun addImages :: "ident \<Rightarrow> nat \<Rightarrow> nat list \<Rightarrow> variant_image_row list \<Rightarrow> variant_image_row list" where
  "addImages vid idx [] xs = xs"
| "addImages vid idx (i # is') xs = addImages vid (Suc idx) is'
     (if \<exists>x \<in> set xs. vi_variantId x = vid \<and> vi_imageId x = i then xs
      else xs @ [\<lparr>vi_variantId = vid, vi_imageId = i, vi_isPrimary = (idx = 0), vi_sortOrder = int idx\<rparr>])"

definition attachImages :: "ident \<Rightarrow> nat list \<Rightarrow> db \<Rightarrow> unit res \<times> db" where
  "attachImages vid imageIds s =
     (if set imageIds \<subseteq> set (map im_id (productImages s))
      then (Inr (), s\<lparr>variantImages := addImages vid 0 imageIds (variantImages s)\<rparr>)
      else (Inl (ForeignKeyViolation ''imageId''), s))"

definition readVariant :: "ident \<Rightarrow> db \<Rightarrow> variant_view option" where
  "readVariant vid s = map_option (viewVariant s) (find_variant vid s)"

definition addVariant ::
  "env \<Rightarrow> ident \<Rightarrow> variant_input \<Rightarrow> ident option \<Rightarrow> Role option \<Rightarrow> db \<Rightarrow> variant_view option res \<times> db" where
  "addVariant e pid d callerCompanyId callerRole = transaction (\<lambda>s.
     (case find_product pid s of
        None \<Rightarrow> (Inl (NotFoundError ''Product not found''), s)
      | Some p \<Rightarrow>
         (case assertCompanyOwnership (pr_companyId p) callerCompanyId callerRole ''Product not found'' of
            Inl err \<Rightarrow> (Inl err, s)
          | Inr _ \<Rightarrow>
              if vn_sku d \<in> set (map va_sku (variants s)) then (Inl (BadRequestError ''SKU already exists''), s)
              else (let v = new_variant (env_uuid e 0) (env_now e) pid d;
                        s1 = s\<lparr>variants := variants s @ [v]\<rparr>
                    in case attachImages (va_variantId v) (vn_imageIds d) s1 of
                         (Inl err, s2) \<Rightarrow> (Inl err, s2)
                       | (Inr _, s2) \<Rightarrow> let s3 = syncStats pid s2 in (Inr (readVariant (va_variantId v) s3), s3)))))"

record variant_changes =
  vc_sku :: "string option"
  vc_size :: "string option"
  vc_color :: "string list option"
  vc_stockQuantity :: "int option"
  vc_price :: "decimal option"
  vc_isActive :: "bool option"
  vc_imageIds :: "nat list option"

definition changeVariant :: "variant_changes \<Rightarrow> variant_row \<Rightarrow> variant_row" where
  "changeVariant d v =
     v\<lparr>va_sku := changed (vc_sku d) (va_sku v),
       va_size := (case vc_size d of None \<Rightarrow> va_size v | Some x \<Rightarrow> Some x),
       va_color := changed (vc_color d) (va_color v), va_stockQuantity := changed (vc_stockQuantity d) (va_stockQuantity v),
       va_price := changed (vc_price d) (va_price v), va_isActive := changed (vc_isActive d) (va_isActive v)\<rparr>"

definition skuTaken :: "ident \<Rightarrow> variant_row \<Rightarrow> variant_changes \<Rightarrow> db \<Rightarrow> bool" where
  "skuTaken vid v d s =
     (case or_null (vc_sku d) of
        None \<Rightarrow> False
      | Some k \<Rightarrow> k \<noteq> va_sku v \<and> (\<exists>x \<in> set (variants s). va_sku x = k \<and> va_variantId x \<noteq> vid))"

definition updateVariantTx :: "ident \<Rightarrow> ident \<Rightarrow> variant_changes \<Rightarrow> db \<Rightarrow> variant_view option res \<times> db" where
  "updateVariantTx vid pid d s =
     (let s1 = update_variant vid (changeVariant d) s;
          r = (case vc_imageIds d of
                 None \<Rightarrow> (Inr (), s1)
               | Some ids \<Rightarrow> attachImages vid ids
                   (s1\<lparr>variantImages := filter (\<lambda>x. vi_variantId x \<noteq> vid) (variantImages s1)\<rparr>))
      in case r of
           (Inl err, s2) \<Rightarrow> (Inl err, s2)
         | (Inr _, s2) \<Rightarrow> let s3 = syncStats pid s2 in (Inr (readVariant vid s3), s3))"

definition updateVariant ::
  "ident \<Rightarrow> variant_changes \<Rightarrow> ident option \<Rightarrow> Role option \<Rightarrow> db \<Rightarrow> variant_view option res \<times> db" where
  "updateVariant vid d callerCompanyId callerRole s =
     (case find_variant vid s of
        None \<Rightarrow> (Inl (NotFoundError ''Variant not found''), s)
      | Some v \<Rightarrow>
         (case ownerCheck (va_productId v) ''Variant not found'' callerCompanyId callerRole s of
            Inl err \<Rightarrow> (Inl err, s)
          | Inr _ \<Rightarrow>
              if skuTaken vid v d s then (Inl (BadRequestError ''SKU already exists''), s)
              else transaction (updateVariantTx vid (va_productId v) d) s))"

definition updateVariantStock ::
  "ident \<Rightarrow> int \<Rightarrow> ident option \<Rightarrow> Role option \<Rightarrow> db \<Rightarrow> variant_row option res \<times> db" where
  "updateVariantStock vid stock callerCompanyId callerRole s =
     (case find_variant vid s of
        None \<Rightarrow> (Inl (NotFoundError ''Variant not found''), s)
      | Some v \<Rightarrow>
         (case ownerCheck (va_productId v) ''Variant not found'' callerCompanyId callerRole s of
            Inl err \<Rightarrow> (Inl err, s)
          | Inr _ \<Rightarrow>
              let s1 = syncStats (va_productId v) (update_variant vid (\<lambda>v. v\<lparr>va_stockQuantity := stock\<rparr>) s)
              in (Inr (find_variant vid s1), s1)))"

definition deactivateVariant ::
  "ident \<Rightarrow> bool \<Rightarrow> ident option \<Rightarrow> Role option \<Rightarrow> db \<Rightarrow> variant_row option res \<times> db" where
  "deactivateVariant vid active callerCompanyId callerRole s =
     (case find_variant vid s of
        None \<Rightarrow> (Inl (NotFoundError ''Variant not found''), s)
      | Some v \<Rightarrow>
         (case ownerCheck (va_productId v) ''Variant not found'' callerCompanyId callerRole s of
            Inl err \<Rightarrow> (Inl err, s)
          | Inr _ \<Rightarrow>
              if \<not> active \<and> liveContracts vid s \<noteq> []
              then (Inl (BadRequestError ''Cannot deactivate a variant with active financing contracts. Restructure the contracts first.''), s)
              else (let s1 = update_variant vid (\<lambda>v. v\<lparr>va_isActive := active\<rparr>) s
                    in (Inr (find_variant vid s1), syncStats (va_productId v) s1))))"

definition deleteVariantRow :: "ident \<Rightarrow> db \<Rightarrow> db" where
  "deleteVariantRow vid s = s\<lparr>variants := filter (\<lambda>v. va_variantId v \<noteq> vid) (variants s),
     variantImages := filter (\<lambda>x. vi_variantId x \<noteq> vid) (variantImages s)\<rparr>"

definition removeVariant :: "ident \<Rightarrow> ident option \<Rightarrow> Role option \<Rightarrow> db \<Rightarrow> ident res \<times> db" where
  "removeVariant vid callerCompanyId callerRole s =
     (case find_variant vid s of
        None \<Rightarrow> (Inl (NotFoundError ''Variant not found''), s)
      | Some v \<Rightarrow>
         (case ownerCheck (va_productId v) ''Variant not found'' callerCompanyId callerRole s of
            Inl err \<Rightarrow> (Inl err, s)
          | Inr _ \<Rightarrow>
              if liveContracts vid s \<noteq> []
              then (Inl (BadRequestError ''Cannot delete a variant with active financing contracts.''), s)
              else if \<exists>c \<in> set (contracts s). fc_variantId c = Some vid
              then (Inl (ForeignKeyViolation ''variantId''), s)
              else (Inr vid, syncStats (va_productId v) (deleteVariantRow vid s))))"

text \<open>Only variants that bring images are looked up again, by their stock-keeping unit.\<close>

fun attachAllImages :: "variant_input list \<Rightarrow> db \<Rightarrow> unit res \<times> db" where
  "attachAllImages [] s = (Inr (), s)"
| "attachAllImages (d # ds) s =
     (if vn_imageIds d = [] then attachAllImages ds s
      else (case find (\<lambda>v. va_sku v = vn_sku d) (variants s) of
          None \<Rightarrow> attachAllImages ds s
        | Some v \<Rightarrow>
           (case attachImages (va_variantId v) (vn_imageIds d) s of
              (Inl err, s1) \<Rightarrow> (Inl err, s1)
            | (Inr _, s1) \<Rightarrow> attachAllImages ds s1)))"

definition bulkCreateVariants ::
  "env \<Rightarrow> ident \<Rightarrow> variant_input list \<Rightarrow> ident option \<Rightarrow> Role option \<Rightarrow> db \<Rightarrow> (nat \<times> variant_view list) res \<times> db" where
  "bulkCreateVariants e pid ds callerCompanyId callerRole = transaction (\<lambda>s.
     (case find_product pid s of
        None \<Rightarrow> (Inl (NotFoundError ''Product not found''), s)
      | Some p \<Rightarrow>
         (case assertCompanyOwnership (pr_companyId p) callerCompanyId callerRole ''Product not found'' of
            Inl err \<Rightarrow> (Inl err, s)
          | Inr _ \<Rightarrow>
              if \<exists>v \<in> set (variants s). va_sku v \<in> set (map vn_sku ds)
              then (Inl (BadRequestError ''SKU(s) already exist: ''), s)
              else (case createVariantRows e 0 pid ds s of
                  (Inl err, s1) \<Rightarrow> (Inl err, s1)
                | (Inr _, s1) \<Rightarrow>
                   (case attachAllImages ds s1 of
                      (Inl err, s2) \<Rightarrow> (Inl err, s2)
                    | (Inr _, s2) \<Rightarrow>
                        let s3 = syncStats pid s2 in (Inr (length ds, getVariantsByProduct pid s3), s3))))))"

section \<open>Installment plans\<close>

definition find_plan :: "ident \<Rightarrow> db \<Rightarrow> installment_plan_row option" where
  "find_plan planId s = find (\<lambda>q. ip_planId q = planId) (installmentPlans s)"

definition update_plan :: "ident \<Rightarrow> (installment_plan_row \<Rightarrow> installment_plan_row) \<Rightarrow> db \<Rightarrow> db" where
  "update_plan planId f s = s\<lparr>installmentPlans := update_where (\<lambda>q. ip_planId q = planId) f (installmentPlans s)\<rparr>"

definition getInstallmentPlansByProduct :: "ident \<Rightarrow> db \<Rightarrow> installment_plan_row list" where
  "getInstallmentPlansByProduct pid s = sort_key ip_durationMonths (filter (\<lambda>q. ip_productId q = pid) (installmentPlans s))"

definition applicationsOfPlan :: "ident \<Rightarrow> KycApplicationStatus set \<Rightarrow> db \<Rightarrow> kyc_row list" where
  "applicationsOfPlan planId sts s =
     filter (\<lambda>a. ka_installmentPlanId a = planId \<and> ka_status a \<in> sts) (kycApplications s)"

definition getInstallmentPlanById :: "ident \<Rightarrow> db \<Rightarrow> (installment_plan_row \<times> kyc_row list) res" where
  "getInstallmentPlanById planId s =
     (case find_plan planId s of
        None \<Rightarrow> Inl (NotFoundError ''Installment plan not found'')
      | Some q \<Rightarrow> Inr (q, applicationsOfPlan planId {KycApplicationStatus.PENDING, KycApplicationStatus.APPROVED} s))"

record plan_changes =
  px_durationMonths :: "nat option"
  px_interestPercentage :: "decimal option"
  px_active :: "bool option"

definition changePlan :: "plan_changes \<Rightarrow> installment_plan_row \<Rightarrow> installment_plan_row" where
  "changePlan d q = q\<lparr>ip_durationMonths := changed (px_durationMonths d) (ip_durationMonths q),
     ip_interestPercentage := changed (px_interestPercentage d) (ip_interestPercentage q),
     ip_active := changed (px_active d) (ip_active q)\<rparr>"

definition updateInstallmentPlan ::
  "ident \<Rightarrow> plan_changes \<Rightarrow> ident option \<Rightarrow> Role option \<Rightarrow> db \<Rightarrow> installment_plan_row option res \<times> db" where
  "updateInstallmentPlan planId d callerCompanyId callerRole s =
     (case find_plan planId s of
        None \<Rightarrow> (Inl (NotFoundError ''Installment plan not found''), s)
      | Some q \<Rightarrow>
         (case ownerCheck (ip_productId q) ''Installment plan not found'' callerCompanyId callerRole s of
            Inl err \<Rightarrow> (Inl err, s)
          | Inr _ \<Rightarrow>
              if applicationsOfPlan planId {KycApplicationStatus.PENDING} s \<noteq> [] \<and> px_active d \<noteq> None
              then (Inl (BadRequestError ''Cannot modify plan active status while there are pending KYC applications''), s)
              else (let s1 = update_plan planId (changePlan d) s in (Inr (find_plan planId s1), s1))))"

definition deactivateInstallmentPlan ::
  "ident \<Rightarrow> bool \<Rightarrow> ident option \<Rightarrow> Role option \<Rightarrow> db \<Rightarrow> installment_plan_row option res \<times> db" where
  "deactivateInstallmentPlan planId active callerCompanyId callerRole s =
     (case find_plan planId s of
        None \<Rightarrow> (Inl (NotFoundError ''Installment plan not found''), s)
      | Some q \<Rightarrow>
         (case ownerCheck (ip_productId q) ''Installment plan not found'' callerCompanyId callerRole s of
            Inl err \<Rightarrow> (Inl err, s)
          | Inr _ \<Rightarrow>
              if applicationsOfPlan planId {KycApplicationStatus.PENDING} s \<noteq> []
              then (Inl (BadRequestError ''Cannot deactivate plan with pending KYC applications. Wait for applications to be processed.''), s)
              else (let s1 = update_plan planId (\<lambda>q. q\<lparr>ip_active := active\<rparr>) s in (Inr (find_plan planId s1), s1))))"

definition createInstallmentPlan ::
  "env \<Rightarrow> ident \<Rightarrow> plan_input \<Rightarrow> ident option \<Rightarrow> Role option \<Rightarrow> db \<Rightarrow> installment_plan_row res \<times> db" where
  "createInstallmentPlan e pid d callerCompanyId callerRole s =
     (case find_product pid s of
        None \<Rightarrow> (Inl (NotFoundError ''Product not found''), s)
      | Some p \<Rightarrow>
         (case assertCompanyOwnership (pr_companyId p) callerCompanyId callerRole ''Product not found'' of
            Inl err \<Rightarrow> (Inl err, s)
          | Inr _ \<Rightarrow>
              let q = new_plan (env_uuid e 0) pid d in (Inr q, s\<lparr>installmentPlans := installmentPlans s @ [q]\<rparr>)))"

definition countActiveContractsForPlan :: "ident \<Rightarrow> db \<Rightarrow> nat" where
  "countActiveContractsForPlan planId s =
     length (applicationsOfPlan planId {KycApplicationStatus.PENDING, KycApplicationStatus.APPROVED} s)"

end
