(* ===== verification/CatalogSafety.thy ===== *)
theory CatalogSafety
  imports Variants
begin

text \<open>
  What holds of the catalog however its requests follow each other: the prices and the stock a product
  shows are those of its active variants; and what one change of a variant does to a product that was
  taken off the shop.
\<close>

section \<open>What a product shows\<close>

definition derivedStats :: "db \<Rightarrow> product_row \<Rightarrow> bool" where
  "derivedStats s p \<longleftrightarrow>
     (let vs = activeVariants (pr_productId p) s
      in vs \<noteq> [] \<longrightarrow> pr_price p = Min (set (map va_price vs)) \<and> pr_minPrice p = Some (Min (set (map va_price vs))) \<and>
           pr_maxPrice p = Some (Max (set (map va_price vs))) \<and> pr_stockQuantity p = sum_list (map va_stockQuantity vs))"

definition catalog_ok :: "db \<Rightarrow> bool" where
  "catalog_ok s \<longleftrightarrow> distinct (map pr_productId (products s)) \<and> distinct (map va_variantId (variants s)) \<and>
     va_productId ` set (variants s) \<subseteq> pr_productId ` set (products s) \<and> (\<forall>p \<in> set (products s). derivedStats s p)"

text \<open>The identifiers an operation draws from the \<open>n\<close>-th on are new.\<close>

definition unused :: "env \<Rightarrow> nat \<Rightarrow> db \<Rightarrow> bool" where
  "unused e n s \<longleftrightarrow> inj (env_uuid e) \<and>
     (\<forall>k \<ge> n. env_uuid e k \<notin> pr_productId ` set (products s) \<union> va_variantId ` set (variants s))"

inductive catalog_step :: "db \<Rightarrow> db \<Rightarrow> bool" where
  created: "unused e 0 s \<Longrightarrow> catalog_step s (snd (createProduct e c d s))"
| imported: "unused e 0 s \<Longrightarrow> catalog_step s (snd (createProductsBulk e c items s))"
| edited: "catalog_step s (snd (updateProduct pid ch c r s))"
| archived: "catalog_step s (snd (deleteProduct pid c r s))"
| variantAdded: "unused e 0 s \<Longrightarrow> catalog_step s (snd (addVariant e pid vd c r s))"
| variantsAdded: "unused e 0 s \<Longrightarrow> catalog_step s (snd (bulkCreateVariants e pid vds c r s))"
| variantEdited: "catalog_step s (snd (updateVariant vid vch c r s))"
| stockSet: "catalog_step s (snd (updateVariantStock vid stock c r s))"
| switched: "catalog_step s (snd (deactivateVariant vid active c r s))"
| removed: "catalog_step s (snd (removeVariant vid c r s))"

lemma find_product_set: "find_product pid s = Some p \<Longrightarrow> p \<in> set (products s) \<and> pr_productId p = pid"
  unfolding find_product_def by (drule find_set) simp

lemma find_variant_set: "find_variant vid s = Some v \<Longrightarrow> v \<in> set (variants s) \<and> va_variantId v = vid"
  unfolding find_variant_def by (drule find_set) simp

lemma syncStats_tables [simp]:
  "variants (syncStats pid s) = variants s" "map pr_productId (products (syncStats pid s)) = map pr_productId (products s)"
  "activeVariants q (syncStats pid s) = activeVariants q s"
  by (simp_all add: syncStats_def update_product_def Let_def activeVariants_def map_update_where)

lemma syncStats_ids [simp]: "pr_productId ` set (products (syncStats pid s)) = pr_productId ` set (products s)"
  by (metis list.set_map syncStats_tables(2))

text \<open>A change of one product's variants followed by the recomputation keeps every product derived.\<close>

lemma sync_restores:
  assumes "\<forall>p \<in> set (products s). derivedStats s p" "products s1 = products s"
    and "\<And>q. q \<noteq> pid \<Longrightarrow> activeVariants q s1 = activeVariants q s"
  shows "\<forall>p \<in> set (products (syncStats pid s1)). derivedStats (syncStats pid s1) p"
proof
  fix p assume p: "p \<in> set (products (syncStats pid s1))"
  show "derivedStats (syncStats pid s1) p"
  proof (cases "pr_productId p = pid \<and> activeVariants pid s1 \<noteq> []")
    case True
    then show ?thesis using p
      by (auto simp: derivedStats_def syncStats_def Let_def update_product_def set_update_where activeVariants_def)
  next
    case False
    have "p \<in> set (products s) \<or> activeVariants (pr_productId p) s1 = []"
      using p False assms(2) by (auto simp: syncStats_def Let_def update_product_def set_update_where split: if_splits)
    then show ?thesis using assms(1,3) False by (cases "pr_productId p = pid") (auto simp: derivedStats_def Let_def)
  qed
qed

lemma variants_written:
  assumes "catalog_ok s" "products s1 = products s" "distinct (map va_variantId (variants s1))"
    and "va_productId ` set (variants s1) \<subseteq> pr_productId ` set (products s)"
    and "\<And>q. q \<noteq> pid \<Longrightarrow> activeVariants q s1 = activeVariants q s"
  shows "catalog_ok (syncStats pid s1)"
  using assms sync_restores[of s s1 pid] by (simp add: catalog_ok_def)

text \<open>Writing one variant.\<close>

lemma update_variant_written:
  assumes "catalog_ok s" "find_variant vid s = Some v"
    and "\<And>v. va_variantId (f v) = va_variantId v" "\<And>v. va_productId (f v) = va_productId v"
    and "products s1 = products s" "variants s1 = variants (update_variant vid f s)"
  shows "catalog_ok (syncStats (va_productId v) s1)"
proof (rule variants_written[OF assms(1,5)])
  have d: "distinct (map va_variantId (variants s))" using assms(1) by (simp add: catalog_ok_def)
  have v: "v \<in> set (variants s)" "va_variantId v = vid" using find_variant_set[OF assms(2)] by auto
  have only: "x = v" if "x \<in> set (variants s)" "va_variantId x = vid" for x
    using that v d by (auto simp: distinct_map inj_on_def)
  show "distinct (map va_variantId (variants s1))"
    using d assms(3) by (simp add: assms(6) update_variant_def map_update_where)
  have "map va_productId (variants s1) = map va_productId (variants s)"
    using assms(4) by (simp add: assms(6) update_variant_def map_update_where)
  then have "va_productId ` set (variants s1) = va_productId ` set (variants s)" by (metis list.set_map)
  then show "va_productId ` set (variants s1) \<subseteq> pr_productId ` set (products s)"
    using assms(1) by (simp add: catalog_ok_def)
  fix q assume "q \<noteq> va_productId v"
  then show "activeVariants q s1 = activeVariants q s"
    unfolding activeVariants_def assms(6) update_variant_def using only assms(4)
    by (auto intro!: filter_update_where_inside)
qed

lemma update_variant_here:
  assumes "catalog_ok s" "find_variant vid s = Some v"
    and "\<And>v. va_variantId (f v) = va_variantId v" "\<And>v. va_productId (f v) = va_productId v"
  shows "catalog_ok (syncStats (va_productId v) (update_variant vid f s))"
  by (rule update_variant_written[OF assms]) (simp_all add: update_variant_def)

lemma delete_variant_written:
  assumes "catalog_ok s" "find_variant vid s = Some v"
  shows "catalog_ok (syncStats (va_productId v) (deleteVariantRow vid s))"
proof (rule variants_written[OF assms(1)])
  have d: "distinct (map va_variantId (variants s))" using assms(1) by (simp add: catalog_ok_def)
  have only: "x = v" if "x \<in> set (variants s)" "va_variantId x = vid" for x
    using that find_variant_set[OF assms(2)] d by (auto simp: distinct_map inj_on_def)
  show "distinct (map va_variantId (variants (deleteVariantRow vid s)))"
    using d by (simp add: deleteVariantRow_def distinct_map_filter)
  show "va_productId ` set (variants (deleteVariantRow vid s)) \<subseteq> pr_productId ` set (products s)"
    using assms(1) by (auto simp: deleteVariantRow_def catalog_ok_def)
  fix q assume "q \<noteq> va_productId v"
  then show "activeVariants q (deleteVariantRow vid s) = activeVariants q s"
    unfolding activeVariants_def deleteVariantRow_def using only by (auto intro!: filter_cong)
qed (simp add: deleteVariantRow_def)

text \<open>Adding variants.\<close>

lemma createVariantRows_adds:
  assumes "createVariantRows e n pid ds s = (r, t)"
  shows "\<exists>vs. t = s\<lparr>variants := variants s @ vs\<rparr> \<and> (\<forall>v \<in> set vs. va_productId v = pid) \<and>
    length vs \<le> length ds \<and> map va_variantId vs = map (env_uuid e) [n..<n + length vs]"
  using assms
proof (induction e n pid ds s arbitrary: r t rule: createVariantRows.induct)
  case (2 e n pid d ds s)
  show ?case
  proof (cases "vn_sku d \<in> set (map va_sku (variants s))")
    case True
    then show ?thesis using 2(2) by (intro exI[of _ "[]"]) auto
  next
    case False
    let ?v = "new_variant (env_uuid e n) (env_now e) pid d"
    obtain vs where "t = s\<lparr>variants := variants s @ [?v]\<rparr>\<lparr>variants := variants (s\<lparr>variants := variants s @ [?v]\<rparr>) @ vs\<rparr>"
      "\<forall>v \<in> set vs. va_productId v = pid" "length vs \<le> length ds" "map va_variantId vs = map (env_uuid e) [Suc n..<Suc n + length vs]"
      using 2(1)[OF False, of r t] 2(2) False by auto
    then show ?thesis
      by (intro exI[of _ "?v # vs"]) (simp add: new_variant_def upt_conv_Cons del: upt_Suc)
  qed
qed (intro exI[of _ "[]"], simp)

lemma added_written:
  assumes "catalog_ok s" "unused e n s" "pid \<in> pr_productId ` set (products s)"
    and "\<forall>v \<in> set vs. va_productId v = pid" "map va_variantId vs = map (env_uuid e) [n..<n + length vs]"
    and "products s1 = products s" "variants s1 = variants s @ vs"
  shows "catalog_ok (syncStats pid s1)"
proof (rule variants_written[OF assms(1,6)])
  have "distinct (map (env_uuid e) [n..<n + length vs])"
    using assms(2) by (simp add: unused_def distinct_map) (meson inj_on_subset subset_UNIV)
  moreover have "set (map va_variantId vs) \<inter> set (map va_variantId (variants s)) = {}"
    unfolding assms(5) using assms(2) by (auto simp: unused_def)
  ultimately show "distinct (map va_variantId (variants s1))"
    using assms(1,5) unfolding assms(7) catalog_ok_def by (auto simp del: set_map)
  show "va_productId ` set (variants s1) \<subseteq> pr_productId ` set (products s)"
    using assms(1,3,4) unfolding assms(7) catalog_ok_def by auto
  fix q assume "q \<noteq> pid"
  then show "activeVariants q s1 = activeVariants q s"
    using assms(4) by (simp add: activeVariants_def assms(7))
qed

text \<open>Creating products.\<close>

lemma createProductRow_ok:
  assumes "createProductRow e n c d s = (Inr p, s1)"
  shows "p = new_product e n c d" "products s1 = products s @ [p]" "variants s1 = variants s"
  using assms by (auto simp: createProductRow_def Let_def split: if_splits)

lemma created_written:
  assumes "createProductRow e n c d s = (Inr p, s1)" "catalog_ok s" "unused e n s"
  shows "catalog_ok s1" "unused e (n + 2) s1" "pr_productId p \<in> pr_productId ` set (products s1)"
proof -
  note s1 = createProductRow_ok[OF assms(1)]
  have new: "pr_productId p = env_uuid e (n + 1)" by (simp add: s1(1) new_product_def)
  have fresh: "pr_productId p \<notin> pr_productId ` set (products s)" using assms(3) unfolding new unused_def by auto
  have "va_productId x \<noteq> pr_productId p" if "x \<in> set (variants s)" for x
    using assms(2) fresh that by (metis catalog_ok_def image_eqI subsetD)
  then have "activeVariants (pr_productId p) s1 = []"
    by (simp add: activeVariants_def s1(3) filter_empty_conv)
  moreover have "activeVariants q s1 = activeVariants q s" for q by (simp add: activeVariants_def s1(3))
  ultimately have "\<forall>q \<in> set (products s1). derivedStats s1 q"
    using assms(2) by (auto simp: s1(2) derivedStats_def catalog_ok_def Let_def)
  then show "catalog_ok s1" using assms(2) fresh by (auto simp: catalog_ok_def s1(2,3))
  have "env_uuid e k \<noteq> env_uuid e (n + 1)" if "n + 2 \<le> k" for k
    using assms(3) that by (auto simp: unused_def dest: injD)
  then show "unused e (n + 2) s1" using assms(3) by (auto simp: unused_def s1(2,3) new)
  show "pr_productId p \<in> pr_productId ` set (products s1)" by (simp add: s1(2))
qed

lemma unused_mono: "unused e n s \<Longrightarrow> n \<le> m \<Longrightarrow> unused e m s"
  by (simp add: unused_def)

lemma createVariantRows_unused:
  assumes "createVariantRows e n pid ds s = (Inr u, t)" "unused e n s"
  shows "unused e (n + length ds) t"
proof -
  obtain vs where vs: "t = s\<lparr>variants := variants s @ vs\<rparr>" "length vs \<le> length ds" "map va_variantId vs = map (env_uuid e) [n..<n + length vs]"
    using createVariantRows_adds[OF assms(1)] by blast
  have "env_uuid e k \<notin> va_variantId ` set vs" if "n + length ds \<le> k" for k
  proof -
    have "va_variantId ` set vs = env_uuid e ` {n..<n + length vs}"
      using arg_cong[OF vs(3), of set] by simp
    then show ?thesis using that vs(2) assms(2) by (auto simp: unused_def dest: injD)
  qed
  then show ?thesis using assms(2) by (simp add: unused_def vs(1) image_Un)
qed

lemma createVariantRows_written:
  assumes "createVariantRows e n pid ds s = (Inr u, t)" "catalog_ok s" "unused e n s"
    and "pid \<in> pr_productId ` set (products s)" "products s1 = products t" "variants s1 = variants t"
  shows "catalog_ok (syncStats pid s1)"
proof -
  obtain vs where vs: "t = s\<lparr>variants := variants s @ vs\<rparr>" "\<forall>v \<in> set vs. va_productId v = pid"
    "map va_variantId vs = map (env_uuid e) [n..<n + length vs]"
    using createVariantRows_adds[OF assms(1)] by blast
  show ?thesis by (rule added_written[OF assms(2-4) vs(2,3)]) (simp_all add: assms(5,6) vs(1))
qed

lemma unused_syncStats [simp]: "unused e n (syncStats pid s) = unused e n s"
  by (simp add: unused_def)

lemma createItems_written:
  assumes "createItems e n c items s = (Inr ps, t)" "catalog_ok s" "unused e n s"
  shows "catalog_ok t"
  using assms
proof (induction items arbitrary: n s ps)
  case (Cons item rest)
  obtain p s1 where p: "createProductRow e n c (bi_product item) s = (Inr p, s1)"
    using Cons.prems(1) by (auto split: prod.splits sum.splits)
  note made = created_written[OF p Cons.prems(2,3)]
  let ?m = "n + 2 + length (pn_installmentPlans (bi_product item))"
  obtain u s2 where u: "createVariantRows e ?m (pr_productId p) (bi_variants item) s1 = (Inr u, s2)"
    using Cons.prems(1) p by (auto simp: Let_def split: prod.splits sum.splits)
  have um: "unused e ?m s1" by (rule unused_mono[OF made(2)]) simp
  let ?s3 = "if bi_variants item \<noteq> [] then syncStats (pr_productId p) s2 else s2"
  obtain qs where rest: "createItems e (?m + length (bi_variants item)) c rest ?s3 = (Inr qs, t)"
    using Cons.prems(1) p u by (auto simp: Let_def split: prod.splits sum.splits if_splits)
  have "catalog_ok ?s3"
  proof (cases "bi_variants item = []")
    case True then show ?thesis using made(1) u by simp
  next
    case False
    then show ?thesis using createVariantRows_written[OF u made(1) um made(3) refl refl] by simp
  qed
  moreover have "unused e (?m + length (bi_variants item)) ?s3"
    using createVariantRows_unused[OF u um] by (cases "bi_variants item = []") simp_all
  ultimately show ?case using Cons.IH[OF rest] by blast
qed simp

lemma transaction_keeps:
  "P s \<Longrightarrow> (\<And>v t. body s = (Inr v, t) \<Longrightarrow> P t) \<Longrightarrow> P (snd (transaction body s))"
  by (cases "body s"; cases "fst (body s)") (auto simp: transaction_def)

text \<open>Changing a product.\<close>

lemma product_changed:
  assumes "catalog_ok s" "\<And>p. pr_productId (f p) = pr_productId p"
    and "\<And>p. p \<in> set (products s) \<Longrightarrow> pr_productId p = pid \<Longrightarrow> activeVariants pid s \<noteq> [] \<Longrightarrow>
      pr_price (f p) = pr_price p \<and> pr_minPrice (f p) = pr_minPrice p \<and> pr_maxPrice (f p) = pr_maxPrice p \<and>
      pr_stockQuantity (f p) = pr_stockQuantity p"
  shows "catalog_ok (update_product pid f s)"
proof -
  have ids: "map pr_productId (products (update_product pid f s)) = map pr_productId (products s)"
    by (simp add: update_product_def map_update_where assms(2))
  have av: "activeVariants q (update_product pid f s) = activeVariants q s" for q
    by (simp add: activeVariants_def update_product_def)
  have "derivedStats (update_product pid f s) p" if p: "p \<in> set (products (update_product pid f s))" for p
  proof -
    obtain q where q: "q \<in> set (products s)" "p = (if pr_productId q = pid then f q else q)"
      using p by (auto simp: update_product_def set_update_where)
    then have "derivedStats s q" using assms(1) by (simp add: catalog_ok_def)
    then show ?thesis using q assms(2,3) by (auto simp: derivedStats_def av Let_def)
  qed
  moreover have "pr_productId ` set (products (update_product pid f s)) = pr_productId ` set (products s)"
    using arg_cong[OF ids, of set] by simp
  ultimately show ?thesis using assms(1) ids by (simp add: catalog_ok_def update_product_def)
qed

section \<open>The invariant\<close>

lemma attachImages_tables [simp]:
  "products (snd (attachImages vid ids s)) = products s" "variants (snd (attachImages vid ids s)) = variants s"
  by (simp_all add: attachImages_def)

lemma attachImages_only: "\<exists>x. snd (attachImages vid ids s) = s\<lparr>variantImages := x\<rparr>"
  by (auto simp: attachImages_def intro: exI[of _ "variantImages s"])

lemma attachAllImages_only: "attachAllImages ds s = (r, t) \<Longrightarrow> \<exists>x. t = s\<lparr>variantImages := x\<rparr>"
proof (induction ds s rule: attachAllImages.induct)
  case (1 s)
  then show ?case by (intro exI[of _ "variantImages s"]) simp
next
  case (2 d ds s)
  show ?case
  proof (cases "vn_imageIds d = [] \<or> find (\<lambda>v. va_sku v = vn_sku d) (variants s) = None")
    case True then show ?thesis using 2 by (auto split: if_splits)
  next
    case False
    then obtain v where v: "find (\<lambda>v. va_sku v = vn_sku d) (variants s) = Some v" "vn_imageIds d \<noteq> []" by auto
    let ?a = "attachImages (va_variantId v) (vn_imageIds d) s"
    obtain x where x: "snd ?a = s\<lparr>variantImages := x\<rparr>" using attachImages_only by blast
    show ?thesis
    proof (cases "fst ?a")
      case (Inl err)
      then have "t = snd ?a" using 2(4) v by (simp split: prod.splits)
      then show ?thesis using x by auto
    next
      case (Inr u)
      then have "attachAllImages ds (snd ?a) = (r, t)" using 2(4) v by (simp split: prod.splits)
      then obtain y where "t = (snd ?a)\<lparr>variantImages := y\<rparr>"
        using 2(3)[OF v(2,1) _ Inr, of "snd ?a"] by (metis prod.collapse)
      then show ?thesis using x by auto
    qed
  qed
qed

lemma attachAllImages_tables:
  "attachAllImages ds s = (r, t) \<Longrightarrow> products t = products s \<and> variants t = variants s"
  using attachAllImages_only[of ds s r t] by auto

lemma imported_keeps:
  assumes "unused e 0 s" "catalog_ok s"
  shows "catalog_ok (snd (createProductsBulk e c items s))"
proof -
  have tx: "catalog_ok (snd (transaction (createItems e 0 c items) s))"
    by (rule transaction_keeps[where P = catalog_ok], rule assms(2), erule createItems_written[OF _ assms(2,1)])
  have "snd (createProductsBulk e c items s) \<in> {s, snd (transaction (createItems e 0 c items) s)}"
    by (cases "transaction (createItems e 0 c items) s"; cases "fst (transaction (createItems e 0 c items) s)")
      (simp_all add: createProductsBulk_def Let_def)
  with tx assms(2) show ?thesis by auto
qed

lemma edited_keeps: "catalog_ok s \<Longrightarrow> catalog_ok (snd (updateProduct pid ch c r s))"
  unfolding updateProduct_def Let_def
  by (auto split: option.splits sum.splits intro!: product_changed simp: changeProduct_def changed_def)

lemma archived_keeps: "catalog_ok s \<Longrightarrow> catalog_ok (snd (deleteProduct pid c r s))"
  unfolding deleteProduct_def Let_def
  by (auto split: option.splits sum.splits intro!: product_changed)

lemma variantAdded_keeps:
  assumes "unused e 0 s" "catalog_ok s"
  shows "catalog_ok (snd (addVariant e pid d c r s))"
  unfolding addVariant_def
proof (rule transaction_keeps[where P = catalog_ok], rule assms(2), goal_cases)
  case (1 w t)
  let ?v = "new_variant (env_uuid e 0) (env_now e) pid d"
  let ?s2 = "snd (attachImages (va_variantId ?v) (vn_imageIds d) (s\<lparr>variants := variants s @ [?v]\<rparr>))"
  obtain p where p: "find_product pid s = Some p" and t: "t = syncStats pid ?s2"
    using 1 by (auto simp: Let_def split: option.splits sum.splits if_splits prod.splits)
  have "pid \<in> pr_productId ` set (products s)" using find_product_set[OF p] by auto
  then show ?case unfolding t
    by (rule added_written[OF assms(2,1), where vs = "[?v]"]) (simp_all add: new_variant_def)
qed

lemma variantsAdded_keeps:
  assumes "unused e 0 s" "catalog_ok s"
  shows "catalog_ok (snd (bulkCreateVariants e pid ds c r s))"
  unfolding bulkCreateVariants_def
proof (rule transaction_keeps[where P = catalog_ok], rule assms(2), goal_cases)
  case (1 w t)
  then obtain p s1 u s2 where p: "find_product pid s = Some p" and u: "createVariantRows e 0 pid ds s = (Inr u, s1)"
    and a: "attachAllImages ds s1 = (Inr (), s2)" and t: "t = syncStats pid s2"
    by (auto simp: Let_def split: option.splits sum.splits if_splits prod.splits)
  have "pid \<in> pr_productId ` set (products s)" using find_product_set[OF p] by auto
  then show ?case unfolding t
    using createVariantRows_written[OF u assms(2,1)] attachAllImages_tables[OF a] by blast
qed

lemma variantEdited_keeps:
  assumes "catalog_ok s"
  shows "catalog_ok (snd (updateVariant vid d c r s))"
proof -
  have tx: "catalog_ok t" if "find_variant vid s = Some v" "updateVariantTx vid (va_productId v) d s = (Inr w, t)" for v w t
  proof -
    have "\<exists>s2. t = syncStats (va_productId v) s2 \<and> products s2 = products s \<and>
        variants s2 = variants (update_variant vid (changeVariant d) s)"
      using that(2) by (auto simp: updateVariantTx_def Let_def attachImages_def update_variant_def split: option.splits prod.splits sum.splits if_splits)
    then show ?thesis using update_variant_written[OF assms that(1), of "changeVariant d"] by (auto simp: changeVariant_def)
  qed
  show ?thesis unfolding updateVariant_def
    using assms tx by (auto split: option.splits sum.splits intro: transaction_keeps)
qed

lemma stockSet_keeps: "catalog_ok s \<Longrightarrow> catalog_ok (snd (updateVariantStock vid stock c r s))"
  unfolding updateVariantStock_def Let_def
  by (auto split: option.splits sum.splits intro!: update_variant_here)

lemma switched_keeps: "catalog_ok s \<Longrightarrow> catalog_ok (snd (deactivateVariant vid active c r s))"
  unfolding deactivateVariant_def Let_def
  by (auto split: option.splits sum.splits intro!: update_variant_here)

lemma removed_keeps: "catalog_ok s \<Longrightarrow> catalog_ok (snd (removeVariant vid c r s))"
  unfolding removeVariant_def Let_def
  by (auto split: option.splits sum.splits intro: delete_variant_written)

lemma createProduct_writes:
  "snd (createProduct e c d s) = s \<or> (\<exists>p. createProductRow e 0 c d s = (Inr p, snd (createProduct e c d s)))"
proof (cases "createProductRow e 0 c d s")
  case (Pair r t)
  show ?thesis
  proof (cases r)
    case (Inl err)
    then have "t = s" using Pair by (auto simp: createProductRow_def Let_def split: if_splits)
    then show ?thesis using Pair Inl by (simp add: createProduct_def)
  next
    case (Inr p) then show ?thesis using Pair by (simp add: createProduct_def)
  qed
qed

lemma created_keeps:
  assumes "unused e 0 s" "catalog_ok s"
  shows "catalog_ok (snd (createProduct e c d s))"
  using createProduct_writes[of e c d s] created_written(1)[OF _ assms(2,1)] assms(2) by metis

lemma catalog_step_keeps: "catalog_step s t \<Longrightarrow> catalog_ok s \<Longrightarrow> catalog_ok t"
  by (induction rule: catalog_step.induct)
    (simp_all only: created_keeps imported_keeps edited_keeps archived_keeps variantAdded_keeps variantsAdded_keeps
      variantEdited_keeps stockSet_keeps switched_keeps removed_keeps)

lemma catalog_steps_keep: "catalog_step\<^sup>*\<^sup>* s t \<Longrightarrow> catalog_ok s \<Longrightarrow> catalog_ok t"
  by (induction rule: rtranclp_induct) (auto intro: catalog_step_keeps)

text \<open>C32: However products are created, imported, edited and archived and their variants added, changed, switched
  and removed, a product with active variants shows the lowest of their prices, the range of their prices
  and the sum of their stock.
\<close>

theorem products_show_their_variants:
  assumes "catalog_step\<^sup>*\<^sup>* s t" "products s = []" "variants s = []" "p \<in> set (products t)"
  defines "vs \<equiv> activeVariants (pr_productId p) t"
  assumes "vs \<noteq> []"
  shows "pr_price p = Min (va_price ` set vs) \<and> pr_minPrice p = Some (Min (va_price ` set vs)) \<and>
    pr_maxPrice p = Some (Max (va_price ` set vs)) \<and> pr_stockQuantity p = sum_list (map va_stockQuantity vs)"
proof -
  have "catalog_ok s" using assms(2,3) by (simp add: catalog_ok_def)
  then have "derivedStats t p" using catalog_steps_keep[OF assms(1)] assms(4) by (simp add: catalog_ok_def)
  then show ?thesis using assms(6) by (simp add: derivedStats_def vs_def Let_def)
qed

definition sample_uuids :: env where
  "sample_uuids = \<lparr>env_now = 0, env_uuid = \<lambda>k. replicate k CHR ''u''\<rparr>"

definition sample_shelf :: db where
  "sample_shelf = empty_db\<lparr>categories := [\<lparr>ca_categoryId = ''c'', ca_name = ''Phones'', ca_slug = ''phones'', ca_description = None\<rparr>]\<rparr>"

definition sample_phone :: bulk_item where
  "sample_phone = \<lparr>bi_product = \<lparr>pn_name = ''Phone X'', pn_description = None, pn_categoryId = ''c'', pn_commissionRate = 5,
     pn_status = DRAFT, pn_price = 0, pn_stockQuantity = 0, pn_installmentPlans = []\<rparr>,
   bi_variants = [\<lparr>vn_sku = ''A'', vn_price = 90, vn_stockQuantity = 2, vn_size = None, vn_color = [], vn_imageIds = [], vn_isActive = True\<rparr>,
     \<lparr>vn_sku = ''B'', vn_price = 70, vn_stockQuantity = 3, vn_size = None, vn_color = [], vn_imageIds = [], vn_isActive = True\<rparr>]\<rparr>"

definition sample_stocked :: db where
  "sample_stocked = snd (createProductsBulk sample_uuids None [sample_phone] sample_shelf)"

lemma sample_uuids_inj: "inj (env_uuid sample_uuids)"
  by (rule injI) (auto simp: sample_uuids_def dest: arg_cong[where f = length])

lemma sample_stocked_step: "catalog_step\<^sup>*\<^sup>* sample_shelf sample_stocked"
  unfolding sample_stocked_def
  by (rule r_into_rtranclp, rule catalog_step.imported)
    (simp add: unused_def sample_uuids_inj, simp add: sample_shelf_def empty_db_def)

lemma sample_stocked_eval:
  "map (\<lambda>p. (pr_productId p, pr_price p, pr_stockQuantity p)) (products sample_stocked) = [(''u'', 70, 5)]"
  "map va_price (activeVariants ''u'' sample_stocked) = [90, 70]"
  by code_simp+

theorem products_show_their_variants_witness:
  "\<exists>p \<in> set (products sample_stocked). pr_price p = Min (va_price ` set (activeVariants (pr_productId p) sample_stocked))"
proof -
  obtain p where p: "products sample_stocked = [p]" "pr_productId p = ''u''"
    using sample_stocked_eval(1) by (auto simp: map_eq_Cons_conv)
  have "activeVariants (pr_productId p) sample_stocked \<noteq> []" using sample_stocked_eval(2) p(2) by auto
  then show ?thesis
    using products_show_their_variants[OF sample_stocked_step, of p] p(1) by (simp add: sample_shelf_def empty_db_def)
qed

lemma find_product_updated:
  "(\<And>p. pr_productId (f p) = pr_productId p) \<Longrightarrow> find_product pid (update_product pid f s) = map_option f (find_product pid s)"
  unfolding find_product_def update_product_def
  by (simp add: find_update_where) (auto simp: option.map_comp dest!: find_set split: option.splits intro!: option.map_cong0)

lemma syncStats_publishes:
  assumes "activeVariants pid s \<noteq> []" "sum_list (map va_stockQuantity (activeVariants pid s)) \<noteq> 0" "find_product pid s = Some p"
  shows "map_option pr_status (find_product pid (syncStats pid s)) = Some PUBLISHED"
  using assms by (simp add: syncStats_def Let_def find_product_updated)

text \<open>
  One stock update of an active variant puts a product back into the shop that was archived or is still a draft.
\<close>

theorem archived_product_is_republished:
  assumes "find_variant vid s = Some v" "va_isActive v" "find_product (va_productId v) s = Some p" "pr_status p = ARCHIVED"
    and "pr_companyId p = Some c" "c \<noteq> []" "0 < stock" "\<forall>x \<in> set (variants s). 0 \<le> va_stockQuantity x"
  shows "map_option pr_status (find_product (va_productId v) (snd (updateVariantStock vid stock (Some c) r s))) = Some PUBLISHED"
proof -
  let ?f = "\<lambda>v. v\<lparr>va_stockQuantity := stock\<rparr>"
  let ?s1 = "update_variant vid ?f s" and ?pid = "va_productId v"
  have v: "v \<in> set (variants s)" "va_variantId v = vid" using find_variant_set[OF assms(1)] by auto
  have mem: "?f v \<in> set (activeVariants ?pid ?s1)"
    using v assms(2) by (force simp: activeVariants_def update_variant_def set_update_where)
  have nonneg: "0 \<le> va_stockQuantity x" if "x \<in> set (activeVariants ?pid ?s1)" for x
    using that assms(7,8) by (auto simp: activeVariants_def update_variant_def set_update_where split: if_splits)
  have "stock \<le> sum_list (map va_stockQuantity (activeVariants ?pid ?s1))"
    using member_le_sum_list[of stock "map va_stockQuantity (activeVariants ?pid ?s1)"] mem nonneg by force
  then have pos: "sum_list (map va_stockQuantity (activeVariants ?pid ?s1)) \<noteq> 0" using assms(7) by linarith
  have "snd (updateVariantStock vid stock (Some c) r s) = syncStats ?pid ?s1"
    using assms(1,3,5,6) by (simp add: updateVariantStock_def ownerCheck_def assertCompanyOwnership_def or_null_def Let_def)
  moreover have "find_product ?pid ?s1 = Some p" using assms(3) by (simp add: find_product_def update_variant_def)
  ultimately show ?thesis using syncStats_publishes[OF _ pos] mem by force
qed

end
