(* ===== verification/Categories.thy ===== *)
theory Categories
  imports CatalogSafety
begin

text \<open>
  Categories: \<open>src/core/services/category.service.ts\<close>.  A slug here is the canonical form of the name, without
  the random suffix a product's slug has.
\<close>

record category_input =
  ci_name :: "string option"
  ci_description :: "string option option"

definition createCategory :: "env \<Rightarrow> string \<Rightarrow> string option \<Rightarrow> db \<Rightarrow> category_row res \<times> db" where
  "createCategory e name description s =
     (let slug = slugBase name;
          c = \<lparr>ca_categoryId = env_uuid e 0, ca_name = name, ca_slug = slug, ca_description = description\<rparr>
      in if \<exists>x \<in> set (categories s). ca_slug x = slug
         then (Inl (BadRequestError ''Category with a similar name/slug already exists''), s)
         else (Inr c, s\<lparr>categories := categories s @ [c]\<rparr>))"

definition getCategories :: "db \<Rightarrow> category_row list" where
  "getCategories s = sort_key ca_name (categories s)"

definition getCategoryById :: "ident \<Rightarrow> db \<Rightarrow> category_row res" where
  "getCategoryById cid s =
     (case find_category cid s of None \<Rightarrow> Inl (NotFoundError ''Category not found'') | Some c \<Rightarrow> Inr c)"

definition changeCategory :: "category_input \<Rightarrow> string \<Rightarrow> category_row \<Rightarrow> category_row" where
  "changeCategory d slug c = c\<lparr>ca_name := changed (ci_name d) (ca_name c), ca_slug := slug,
     ca_description := changed (ci_description d) (ca_description c)\<rparr>"

definition renamed :: "category_input \<Rightarrow> category_row \<Rightarrow> string option" where
  "renamed d c = (case or_null (ci_name d) of None \<Rightarrow> None | Some n \<Rightarrow> if n \<noteq> ca_name c then Some (slugBase n) else None)"

definition updateCategory :: "ident \<Rightarrow> category_input \<Rightarrow> db \<Rightarrow> category_row option res \<times> db" where
  "updateCategory cid d s =
     (case find_category cid s of
        None \<Rightarrow> (Inl (NotFoundError ''Category not found''), s)
      | Some c \<Rightarrow>
          if (case renamed d c of None \<Rightarrow> False | Some slug \<Rightarrow>
                \<exists>x \<in> set (categories s). ca_slug x = slug \<and> ca_categoryId x \<noteq> cid)
          then (Inl (BadRequestError ''Category with a similar name/slug already exists''), s)
          else (let slug = changed (renamed d c) (ca_slug c);
                    s' = s\<lparr>categories := update_where (\<lambda>x. ca_categoryId x = cid) (changeCategory d slug) (categories s)\<rparr>
                in (Inr (find_category cid s'), s')))"

definition deleteCategory :: "ident \<Rightarrow> db \<Rightarrow> category_row res \<times> db" where
  "deleteCategory cid s =
     (case find_category cid s of
        None \<Rightarrow> (Inl (NotFoundError ''Category not found''), s)
      | Some c \<Rightarrow>
          if \<exists>p \<in> set (products s). pr_categoryId p = cid
          then (Inl (BadRequestError ''Cannot delete category containing active products''), s)
          else (Inr c, s\<lparr>categories := filter (\<lambda>x. ca_categoryId x \<noteq> cid) (categories s)\<rparr>))"

section \<open>Slugs are the words of a name\<close>

text \<open>The reference: the maximal runs of letters and digits, joined by single hyphens.\<close>

fun slugWords :: "string \<Rightarrow> string list" where
  "slugWords [] = []"
| "slugWords (c # s) =
     (if \<not> isSlugChar c then slugWords s
      else (case s of
          [] \<Rightarrow> [[c]]
        | d # _ \<Rightarrow> if isSlugChar d then (case slugWords s of [] \<Rightarrow> [[c]] | w # ws \<Rightarrow> (c # w) # ws) else [c] # slugWords s))"

fun joinDash :: "string list \<Rightarrow> string" where
  "joinDash [] = []"
| "joinDash [w] = w"
| "joinDash (w # ws) = w @ CHR ''-'' # joinDash ws"

lemma dash_no_slugChar [simp]: "\<not> isSlugChar CHR ''-''"
  by (simp add: isSlugChar_def Let_def)

lemma slugWords_steps:
  "\<not> isSlugChar c \<Longrightarrow> slugWords (c # s) = slugWords s"
  "isSlugChar c \<Longrightarrow> s = [] \<or> \<not> isSlugChar (hd s) \<Longrightarrow> slugWords (c # s) = [c] # slugWords s"
  "isSlugChar c \<Longrightarrow> s \<noteq> [] \<Longrightarrow> isSlugChar (hd s) \<Longrightarrow>
     slugWords (c # s) = (case slugWords s of [] \<Rightarrow> [[c]] | w # ws \<Rightarrow> (c # w) # ws)"
  by (cases s; simp)+

declare slugWords.simps(2) [simp del]

text \<open>A string starts with a separator, with a word of one character, or with a longer word.\<close>

lemma slug_cases:
  obtains (skip) "\<not> isSlugChar c" "slugWords (c # s) = slugWords s"
    | (new) "isSlugChar c" "s = [] \<or> \<not> isSlugChar (hd s)" "slugWords (c # s) = [c] # slugWords s"
    | (more) "isSlugChar c" "s \<noteq> []" "isSlugChar (hd s)"
        "slugWords (c # s) = (case slugWords s of [] \<Rightarrow> [[c]] | w # ws \<Rightarrow> (c # w) # ws)"
  using slugWords_steps by metis

lemma slugWords_none: "slugWords s = [] \<longleftrightarrow> (\<forall>c \<in> set s. \<not> isSlugChar c)"
proof (induction s)
  case (Cons c s)
  then show ?case by (cases rule: slug_cases[of c s]) (auto split: list.splits)
qed simp

lemma slugWords_chars: "\<forall>w \<in> set (slugWords s). w \<noteq> [] \<and> (\<forall>c \<in> set w. isSlugChar c)"
proof (induction s)
  case (Cons c s)
  then show ?case by (cases rule: slug_cases[of c s]) (auto split: list.splits)
qed simp

lemma joinDash_Cons: "ws \<noteq> [] \<Longrightarrow> joinDash (w # ws) = w @ CHR ''-'' # joinDash ws"
  by (cases ws) simp_all

lemma joinDash_grow: "joinDash ((c # w) # ws) = c # joinDash (w # ws)"
  by (cases ws) simp_all

definition trailing :: "string \<Rightarrow> string" where
  "trailing s = (if slugWords s \<noteq> [] \<and> \<not> isSlugChar (last s) then ''-'' else [])"

definition leading :: "string \<Rightarrow> string" where
  "leading s = (if s \<noteq> [] \<and> \<not> isSlugChar (hd s) then ''-'' else [])"

lemma dashRuns_words:
  "dashRuns True s = joinDash (slugWords s) @ trailing s \<and> dashRuns False s = leading s @ joinDash (slugWords s) @ trailing s"
proof (induction s)
  case (Cons c s)
  show ?case
  proof (cases rule: slug_cases[of c s])
    case skip
    then show ?thesis using Cons by (cases s) (simp_all add: trailing_def leading_def)
  next
    case new
    have "\<not> isSlugChar (last s)" if "slugWords s = []" "s \<noteq> []"
      using that slugWords_none[of s] last_in_set[of s] by blast
    then show ?thesis using new Cons
      by (cases "s = []"; cases "slugWords s = []") (auto simp: trailing_def leading_def joinDash_Cons)
  next
    case more
    then obtain w ws where w: "slugWords s = w # ws" using slugWords_none[of s] hd_in_set[of s] by (cases "slugWords s") auto
    then show ?thesis using more Cons by (simp add: trailing_def leading_def joinDash_grow del: joinDash.simps)
  qed
qed (simp add: trailing_def leading_def)

lemma joinDash_ends:
  assumes "\<forall>w \<in> set ws. w \<noteq> [] \<and> (\<forall>c \<in> set w. isSlugChar c)" "ws \<noteq> []"
  shows "joinDash ws \<noteq> []" "isSlugChar (hd (joinDash ws))" "isSlugChar (last (joinDash ws))"
  using assms by (induction ws rule: joinDash.induct) auto

lemma slugBase_words: "slugBase name = joinDash (slugWords (toLowerCase name))"
proof -
  let ?s = "toLowerCase name"
  let ?J = "joinDash (slugWords ?s)"
  have b: "dashRuns False ?s = leading ?s @ ?J @ trailing ?s" using dashRuns_words by blast
  show ?thesis
  proof (cases "slugWords ?s = []")
    case True
    then show ?thesis by (simp add: slugBase_def b trimDashes_def leading_def trailing_def)
  next
    case False
    note ends = joinDash_ends[OF slugWords_chars False]
    have "hd ?J \<noteq> CHR ''-''" "last ?J \<noteq> CHR ''-''" using ends(2,3) dash_no_slugChar by metis+
    then show ?thesis using ends(1)
      by (auto simp: slugBase_def b trimDashes_def leading_def trailing_def Let_def butlast_append)
  qed
qed

lemma slugWords_append:
  assumes "w \<noteq> []" "\<forall>c \<in> set w. isSlugChar c" "t = [] \<or> \<not> isSlugChar (hd t)"
  shows "slugWords (w @ t) = w # slugWords t"
  using assms
proof (induction w)
  case (Cons c w)
  then show ?case by (cases "w = []") (simp_all add: slugWords_steps)
qed simp

lemma slugWords_joinDash:
  "\<forall>w \<in> set ws. w \<noteq> [] \<and> (\<forall>c \<in> set w. isSlugChar c) \<Longrightarrow> slugWords (joinDash ws) = ws"
proof (induction ws rule: joinDash.induct)
  case (2 w) then show ?case using slugWords_append[of w "[]"] by simp
next
  case (3 w v vs)
  then show ?case using slugWords_append[of w "CHR ''-'' # joinDash (v # vs)"] slugWords_steps(1)[OF dash_no_slugChar] by simp
qed simp

lemma toLowerCase_slug: "\<forall>c \<in> set s. isSlugChar c \<or> c = CHR ''-'' \<Longrightarrow> toLowerCase s = s"
  unfolding toLowerCase_def by (rule map_idI) (auto simp: isSlugChar_def Let_def)

lemma set_joinDash: "set (joinDash ws) \<subseteq> insert CHR ''-'' (\<Union> (set ` set ws))"
  by (induction ws rule: joinDash.induct) auto

text \<open>C35: The slug of a name is its words, the maximal runs of letters and digits in lower case, joined by single
  hyphens; two names have the same slug exactly when they have the same words, and the slug of a slug
  is itself.
\<close>

theorem slug_is_the_words_of_the_name:
  "slugBase a = joinDash (slugWords (toLowerCase a)) \<and>
   (slugBase a = slugBase b \<longleftrightarrow> slugWords (toLowerCase a) = slugWords (toLowerCase b)) \<and>
   slugBase (slugBase a) = slugBase a"
proof (intro conjI)
  have w: "slugWords (slugBase x) = slugWords (toLowerCase x)" for x
    unfolding slugBase_words by (rule slugWords_joinDash[OF slugWords_chars])
  have "toLowerCase (slugBase a) = slugBase a"
    using set_joinDash[of "slugWords (toLowerCase a)"] slugWords_chars[of "toLowerCase a"]
    unfolding slugBase_words by (intro toLowerCase_slug) blast
  then show "slugBase (slugBase a) = slugBase a" using w[of a] slugBase_words by metis
  show "slugBase a = slugBase b \<longleftrightarrow> slugWords (toLowerCase a) = slugWords (toLowerCase b)" using w slugBase_words by metis
qed (rule slugBase_words)

section \<open>Categories and their products\<close>

definition category_ok :: "db \<Rightarrow> bool" where
  "category_ok s \<longleftrightarrow> distinct (map ca_slug (categories s)) \<and> distinct (map ca_categoryId (categories s)) \<and>
     (\<forall>c \<in> set (categories s). ca_slug c = slugBase (ca_name c)) \<and>
     pr_categoryId ` set (products s) \<subseteq> ca_categoryId ` set (categories s)"

inductive shop_step :: "db \<Rightarrow> db \<Rightarrow> bool" where
  categoryCreated: "env_uuid e 0 \<notin> ca_categoryId ` set (categories s) \<Longrightarrow> shop_step s (snd (createCategory e n d s))"
| categoryChanged: "ci_name x \<noteq> Some [] \<Longrightarrow> shop_step s (snd (updateCategory cid x s))"
| categoryDeleted: "shop_step s (snd (deleteCategory cid s))"
| catalogChanged: "catalog_step s t \<Longrightarrow> shop_step s t"

lemma createCategory_keeps:
  assumes "category_ok s" "env_uuid e 0 \<notin> ca_categoryId ` set (categories s)"
  shows "category_ok (snd (createCategory e n d s))"
proof (cases "\<exists>x \<in> set (categories s). ca_slug x = slugBase n")
  case False
  then have "slugBase n \<notin> ca_slug ` set (categories s)" by auto
  then show ?thesis using assms by (auto simp: createCategory_def Let_def category_ok_def)
qed (use assms in \<open>simp add: createCategory_def\<close>)

lemma find_category_set: "find_category cid s = Some c \<Longrightarrow> c \<in> set (categories s) \<and> ca_categoryId c = cid"
  unfolding find_category_def by (drule find_set) simp

lemma find_category_image: "find_category cid s = Some c \<Longrightarrow> cid \<in> ca_categoryId ` set (categories s)"
  by (drule find_category_set) auto

lemma updateCategory_keeps:
  assumes "category_ok s" "ci_name x \<noteq> Some []"
  shows "category_ok (snd (updateCategory cid x s))"
proof (cases "find_category cid s")
  case (Some c)
  let ?slug = "changed (renamed x c) (ca_slug c)" and ?cs = "categories s"
  let ?us = "update_where (\<lambda>y. ca_categoryId y = cid) (changeCategory x ?slug) ?cs"
  have c: "c \<in> set ?cs" "ca_categoryId c = cid" using find_category_set[OF Some] by auto
  have only: "y = c" if "y \<in> set ?cs" "ca_categoryId y = cid" for y
    using that c assms by (auto simp: category_ok_def distinct_map inj_on_def)
  show ?thesis
  proof (cases "case renamed x c of None \<Rightarrow> False | Some slug \<Rightarrow> \<exists>y \<in> set ?cs. ca_slug y = slug \<and> ca_categoryId y \<noteq> cid")
    case True
    then show ?thesis using Some assms by (simp add: updateCategory_def)
  next
    case False
    have free: "ca_slug y \<noteq> ?slug" if "y \<in> set ?cs" "ca_categoryId y \<noteq> cid" for y
    proof (cases "renamed x c")
      case None
      then show ?thesis using that c assms by (auto simp: changed_def category_ok_def distinct_map inj_on_def)
    next
      case (Some slug)
      then show ?thesis using False that by (auto simp: changed_def)
    qed
    have canon: "?slug = slugBase (changed (ci_name x) (ca_name c))"
      using c assms by (auto simp: renamed_def changed_def or_null_def category_ok_def split: option.splits)
    have ids: "map ca_categoryId ?us = map ca_categoryId ?cs" by (rule map_update_where) (simp add: changeCategory_def)
    have slugs: "distinct (map ca_slug ?us)"
    proof -
      obtain ys zs where split: "?cs = ys @ c # zs" "?us = ys @ changeCategory x ?slug c # zs"
        using update_where_key_split[of ca_categoryId ?cs c "changeCategory x ?slug"] assms c by (auto simp: category_ok_def)
      then have "cid \<notin> ca_categoryId ` (set ys \<union> set zs)" using assms(1) c(2) by (auto simp: category_ok_def)
      then have "?slug \<notin> ca_slug ` (set ys \<union> set zs)" using free split(1) by fastforce
      moreover have "distinct (map ca_slug ?cs)" using assms(1) unfolding category_ok_def by blast
      then have "distinct (map ca_slug (ys @ c # zs))" by (simp only: split(1))
      ultimately show ?thesis unfolding split(2) by (auto simp: changeCategory_def)
    qed
    have "ca_slug y = slugBase (ca_name y)" if "y \<in> set ?us" for y
      using that only assms(1) canon by (auto simp: set_update_where changeCategory_def category_ok_def split: if_splits)
    moreover have "ca_categoryId ` set ?us = ca_categoryId ` set ?cs" using arg_cong[OF ids, of set] by simp
    ultimately show ?thesis
      using Some False assms(1) ids slugs by (simp add: updateCategory_def Let_def category_ok_def)
  qed
qed (use assms in \<open>simp add: updateCategory_def\<close>)

lemma deleteCategory_keeps: "category_ok s \<Longrightarrow> category_ok (snd (deleteCategory cid s))"
  by (auto simp: deleteCategory_def category_ok_def distinct_map_filter image_subset_iff split: option.splits) force

text \<open>
  A step of the catalog leaves the categories alone and gives products only categories that exist.
\<close>

definition categorised :: "db \<Rightarrow> db \<Rightarrow> bool" where
  "categorised s t \<longleftrightarrow> categories t = categories s \<and>
     pr_categoryId ` set (products t) \<subseteq> pr_categoryId ` set (products s) \<union> ca_categoryId ` set (categories s)"

lemma categorised_same: "categories t = categories s \<Longrightarrow> map pr_categoryId (products t) = map pr_categoryId (products s) \<Longrightarrow> categorised s t"
  unfolding categorised_def by (metis list.set_map sup_ge1 order_refl)

lemma categorised_refl [simp]: "categorised s s"
  by (simp add: categorised_def)

lemma categorised_trans: "categorised s t \<Longrightarrow> categorised t r \<Longrightarrow> categorised s r"
  by (auto simp: categorised_def) blast

lemma categorised_sync: "categorised s t \<Longrightarrow> categorised s (syncStats pid t)"
  by (erule categorised_trans, rule categorised_same)
    (simp_all add: syncStats_def Let_def update_product_def map_update_where)

lemma categorised_variants: "categorised s (s\<lparr>variants := vs\<rparr>)" "categorised s (update_variant vid f s)"
  "categorised s (snd (attachImages vid ids s))" "categorised s (deleteVariantRow vid s)"
  by (rule categorised_same; simp add: update_variant_def attachImages_def deleteVariantRow_def)+

lemma categorised_rows: "createVariantRows e n pid ds s = (r, t) \<Longrightarrow> categorised s t"
  using createVariantRows_adds categorised_variants(1) by blast

lemma categorised_images: "attachAllImages ds s = (r, t) \<Longrightarrow> categorised s t"
  using attachAllImages_only[of ds s r t] categorised_same by force

lemma categorised_row:
  assumes "createProductRow e n c d s = (Inr p, t)"
  shows "categorised s t"
proof -
  have "find_category (pn_categoryId d) s \<noteq> None" "categories t = categories s"
    using assms by (auto simp: createProductRow_def Let_def split: if_splits)
  then show ?thesis
    using createProductRow_ok(1,2)[OF assms] find_category_image by (fastforce simp: categorised_def new_product_def)
qed

lemma categorised_items: "createItems e n c items s = (Inr ps, t) \<Longrightarrow> categorised s t"
proof (induction items arbitrary: n s ps)
  case (Cons item rest)
  obtain p s1 where p: "createProductRow e n c (bi_product item) s = (Inr p, s1)"
    using Cons.prems by (auto split: prod.splits sum.splits)
  let ?m = "n + 2 + length (pn_installmentPlans (bi_product item))"
  obtain u s2 where u: "createVariantRows e ?m (pr_productId p) (bi_variants item) s1 = (Inr u, s2)"
    using Cons.prems p by (auto simp: Let_def split: prod.splits sum.splits)
  let ?s3 = "if bi_variants item \<noteq> [] then syncStats (pr_productId p) s2 else s2"
  obtain qs where "createItems e (?m + length (bi_variants item)) c rest ?s3 = (Inr qs, t)"
    using Cons.prems p u by (auto simp: Let_def split: prod.splits sum.splits if_splits)
  then have "categorised ?s3 t" by (rule Cons.IH)
  moreover have "categorised s s2" using categorised_trans[OF categorised_row[OF p] categorised_rows[OF u]] .
  ultimately show ?case using categorised_sync categorised_trans by (metis (full_types))
qed simp

lemma categorised_product:
  assumes "\<And>p. pr_productId p = pid \<Longrightarrow> p \<in> set (products s) \<Longrightarrow>
    pr_categoryId (f p) = pr_categoryId p \<or> pr_categoryId (f p) \<in> ca_categoryId ` set (categories s)"
  shows "categorised s (update_product pid f s)"
  using assms by (fastforce simp: categorised_def update_product_def set_update_where)

lemma categorised_updateProduct: "categorised s (snd (updateProduct pid ch c r s))"
proof (cases "find_product pid s")
  case (Some p)
  have "pr_categoryId (changeProduct b ch q) = pr_categoryId q \<or> pr_categoryId (changeProduct b ch q) \<in> ca_categoryId ` set (categories s)"
    if "find_category (changed (pc_categoryId ch) (pr_categoryId p)) s = Some x" for x q b
    using find_category_image[OF that] by (auto simp: changeProduct_def changed_def split: option.splits)
  then show ?thesis using Some
    by (auto simp: updateProduct_def Let_def split: sum.splits option.splits intro!: categorised_product)
qed (simp add: updateProduct_def)

lemma categorised_step: "catalog_step s t \<Longrightarrow> categorised s t"
proof (induction rule: catalog_step.induct)
  case (created e s c d)
  show ?case using createProduct_writes[of e c d s] categorised_row categorised_refl by metis
next
  case (imported e s c items)
  have tx: "categorised s (snd (transaction (createItems e 0 c items) s))"
    by (rule transaction_keeps[where P = "categorised s"], rule categorised_refl, erule categorised_items)
  have "snd (createProductsBulk e c items s) \<in> {s, snd (transaction (createItems e 0 c items) s)}"
    by (cases "transaction (createItems e 0 c items) s"; cases "fst (transaction (createItems e 0 c items) s)")
      (simp_all add: createProductsBulk_def Let_def)
  then show ?case using tx by auto
next
  case (edited s pid ch c r)
  show ?case by (rule categorised_updateProduct)
next
  case (archived s pid c r)
  show ?case by (auto simp: deleteProduct_def Let_def split: option.splits sum.splits intro!: categorised_product)
next
  case (variantAdded e s pid d c r)
  show ?case unfolding addVariant_def
  proof (rule transaction_keeps[where P = "categorised s"], rule categorised_refl, goal_cases)
    case (1 w t)
    let ?s1 = "s\<lparr>variants := variants s @ [new_variant (env_uuid e 0) (env_now e) pid d]\<rparr>"
    have "t = syncStats pid (snd (attachImages (env_uuid e 0) (vn_imageIds d) ?s1))"
      using 1 by (auto simp: Let_def new_variant_def split: option.splits sum.splits if_splits prod.splits)
    then show ?case by (simp only:) (intro categorised_sync categorised_trans[OF categorised_variants(1) categorised_variants(3)])
  qed
next
  case (variantsAdded e s pid ds c r)
  show ?case unfolding bulkCreateVariants_def
  proof (rule transaction_keeps[where P = "categorised s"], rule categorised_refl, goal_cases)
    case (1 w t)
    then obtain u s1 s2 where u: "createVariantRows e 0 pid ds s = (Inr u, s1)" and a: "attachAllImages ds s1 = (Inr (), s2)"
      and t: "t = syncStats pid s2"
      by (auto simp: Let_def split: option.splits sum.splits if_splits prod.splits)
    show ?case unfolding t using categorised_trans[OF categorised_rows[OF u] categorised_images[OF a]] by (rule categorised_sync)
  qed
next
  case (variantEdited s vid d c r)
  have tx: "categorised s t" if run: "updateVariantTx vid pid d s = (Inr w, t)" for pid w t
  proof -
    obtain s2 where "t = syncStats pid s2" "products s2 = products s" "categories s2 = categories s"
      using run by (auto simp: updateVariantTx_def Let_def attachImages_def update_variant_def split: option.splits prod.splits sum.splits if_splits)
    then show ?thesis using categorised_sync categorised_same by metis
  qed
  have "categorised s (snd (transaction (updateVariantTx vid pid d) s))" for pid
    by (rule transaction_keeps[where P = "categorised s"], rule categorised_refl, erule tx)
  then show ?case unfolding updateVariant_def by (auto split: option.splits sum.splits)
next
  case (stockSet s vid stock c r)
  show ?case by (auto simp: updateVariantStock_def Let_def split: option.splits sum.splits intro!: categorised_sync categorised_variants)
next
  case (switched s vid active c r)
  show ?case by (auto simp: deactivateVariant_def Let_def split: option.splits sum.splits intro!: categorised_sync categorised_variants)
next
  case (removed s vid c r)
  show ?case by (auto simp: removeVariant_def Let_def split: option.splits sum.splits intro!: categorised_sync categorised_variants)
qed

lemma shop_step_keeps: "shop_step s t \<Longrightarrow> category_ok s \<Longrightarrow> category_ok t"
proof (induction rule: shop_step.induct)
  case (catalogChanged s t)
  then show ?case using categorised_step[of s t] by (simp add: categorised_def category_ok_def) blast
next
  case (categoryCreated e s n d) then show ?case by (intro createCategory_keeps)
next
  case (categoryChanged x s cid) then show ?case by (intro updateCategory_keeps)
qed (rule deleteCategory_keeps)

lemma shop_steps_keep: "shop_step\<^sup>*\<^sup>* s t \<Longrightarrow> category_ok s \<Longrightarrow> category_ok t"
  by (induction rule: rtranclp_induct) (auto intro: shop_step_keeps)

text \<open>C36: However categories and products are written, two categories whose names have the same words are the same
  category, every slug is the canonical one of its name, and no product is left without its category.
\<close>

theorem categories_stay_apart:
  assumes "shop_step\<^sup>*\<^sup>* s t" "categories s = []" "products s = []"
    and "x \<in> set (categories t)" "y \<in> set (categories t)" "slugWords (toLowerCase (ca_name x)) = slugWords (toLowerCase (ca_name y))"
    and "p \<in> set (products t)"
  shows "x = y \<and> ca_slug x = slugBase (ca_name x) \<and> find_category (pr_categoryId p) t \<noteq> None"
proof -
  have ok: "category_ok t" using shop_steps_keep[OF assms(1)] assms(2,3) by (simp add: category_ok_def)
  then have "ca_slug x = slugBase (ca_name x)" "ca_slug y = slugBase (ca_name y)" using assms(4,5) by (auto simp: category_ok_def)
  moreover from this have "ca_slug x = ca_slug y" using assms(6) by (simp add: slugBase_words)
  then have "x = y" using ok assms(4,5) by (auto simp: category_ok_def distinct_map inj_on_def)
  moreover have "\<exists>c \<in> set (categories t). ca_categoryId c = pr_categoryId p" using ok assms(7) by (force simp: category_ok_def)
  ultimately show ?thesis by (auto simp: find_category_def find_None_iff)
qed

definition sample_labelled :: db where
  "sample_labelled = snd (createCategory sample_uuids ''Mobile Phones!'' None empty_db)"

definition sample_listed :: db where
  "sample_listed = snd (createProduct sample_uuids None ((bi_product sample_phone)\<lparr>pn_categoryId := []\<rparr>) sample_labelled)"

lemma sample_labelled_eval: "map ca_slug (categories sample_labelled) = [''mobile-phones'']" "products sample_labelled = []"
    "map ca_slug (categories sample_listed) = [''mobile-phones'']" "map pr_name (products sample_listed) = [''Phone X'']"
    "variants sample_labelled = []"
  by code_simp+

lemma sample_listed_steps: "shop_step\<^sup>*\<^sup>* empty_db sample_listed"
proof (rule rtranclp_trans)
  show "shop_step\<^sup>*\<^sup>* empty_db sample_labelled" unfolding sample_labelled_def
    by (rule r_into_rtranclp, rule shop_step.categoryCreated) (simp add: empty_db_def)
  have "unused sample_uuids 0 sample_labelled"
    by (simp add: unused_def sample_uuids_inj sample_labelled_eval)
  then show "shop_step\<^sup>*\<^sup>* sample_labelled sample_listed" unfolding sample_listed_def
    by (intro r_into_rtranclp shop_step.catalogChanged catalog_step.created)
qed

theorem categories_stay_apart_witness:
  "\<exists>p \<in> set (products sample_listed). find_category (pr_categoryId p) sample_listed \<noteq> None"
proof -
  obtain p where p: "products sample_listed = [p]" using sample_labelled_eval(4) by (auto simp: map_eq_Cons_conv)
  obtain x where x: "categories sample_listed = [x]" using sample_labelled_eval(3) by (auto simp: map_eq_Cons_conv)
  have "find_category (pr_categoryId p) sample_listed \<noteq> None"
    using categories_stay_apart[OF sample_listed_steps, of x x p] p x by (simp add: empty_db_def)
  then show ?thesis using p by simp
qed

end
