(* ===== verification/CatalogPages.thy ===== *)
theory CatalogPages
  imports Catalog KycIntake
begin

text \<open>
  What a client of the catalog sees: which products the cursor pages show when every \<open>nextCursor\<close> is
  followed, and how the totals of the breakdowns compare with the amounts a contract finances.
\<close>

section \<open>Following the cursor\<close>

text \<open>The client: request a page, then the page its \<open>nextCursor\<close> names, until there is none.\<close>

fun followCursor :: "nat \<Rightarrow> cursor_query \<Rightarrow> db \<Rightarrow> product_view list option" where
  "followCursor 0 q s = None"
| "followCursor (Suc n) q s =
     (let page = getAllProductCursor q s
      in case cp_nextCursor page of
           None \<Rightarrow> Some (cp_products page)
         | Some c \<Rightarrow> map_option ((@) (cp_products page)) (followCursor n (q\<lparr>cq_cursor := Some c\<rparr>) s))"

abbreviation before :: "bool \<Rightarrow> product_row \<Rightarrow> product_row \<Rightarrow> bool" where
  "before desc p r \<equiv> (if desc then cursorKey r < cursorKey p else cursorKey p < cursorKey r)"

lemma distinct_cursorKey: "distinct (map pr_productId ps) \<Longrightarrow> distinct (map cursorKey ps)"
  by (auto simp: distinct_map inj_on_def cursorKey_def)

lemma sorted_distinct_strict: "sorted (map f xs) \<Longrightarrow> distinct (map f xs) \<Longrightarrow> sorted_wrt (\<lambda>x y. f x < f (y :: 'a) :: bool) xs"
  for f :: "'a \<Rightarrow> 'b :: linorder"
  by (induction xs) (auto simp: less_le)

lemma visible_strict:
  assumes "distinct (map pr_productId (products s))"
  shows "sorted_wrt (before (cq_desc q)) (visibleProducts q s)"
proof -
  let ?ps = "filter (\<lambda>p. pr_status p = PUBLISHED \<and> ofCompany (cq_companyId q) p \<and> inCategory (cq_category q) s p) (products s)"
  have "distinct (map cursorKey ?ps)" by (rule distinct_cursorKey, rule distinct_map_filter[OF assms])
  then have "distinct (map cursorKey (sort_key cursorKey ?ps))"
    by (simp add: distinct_map)
  then have "sorted_wrt (\<lambda>x y. cursorKey x < cursorKey y) (sort_key cursorKey ?ps)"
    by (intro sorted_distinct_strict) simp_all
  then show ?thesis by (simp add: visibleProducts_def orderByKey_def Let_def sorted_wrt_rev)
qed

text \<open>In a list strictly ordered by the key the rows from the cursor's row on are its tail.\<close>

lemma dropWhile_strict:
  assumes "sorted_wrt (before d) (xs @ r # ys)"
  shows "dropWhile (\<lambda>p. before d p r) (xs @ r # ys) = r # ys"
proof -
  have "\<forall>p \<in> set xs. before d p r" using assms by (simp add: sorted_wrt_append)
  then have "dropWhile (\<lambda>p. before d p r) (xs @ r # ys) = dropWhile (\<lambda>p. before d p r) (r # ys)"
    by (subst dropWhile_append2) auto
  then show ?thesis by (cases d) simp_all
qed

lemma fromCursor_tail:
  assumes "distinct (map pr_productId (products s))" "visibleProducts q s = xs @ r # ys"
  shows "fromCursor (cq_desc q) (pr_productId r) s (visibleProducts q s) = r # ys"
proof -
  have "r \<in> set (visibleProducts q s)" using assms(2) by simp
  then have "r \<in> set (products s)" by (auto simp: visibleProducts_def orderByKey_def Let_def split: if_splits)
  then have "find_product (pr_productId r) s = Some r"
    unfolding find_product_def by (rule find_unique_key[OF assms(1)])
  then show ?thesis
    using dropWhile_strict[of "cq_desc q" xs r ys] visible_strict[OF assms(1), of q]
    by (simp add: fromCursor_def assms(2))
qed

text \<open>One page, from the position where its products start.\<close>

definition pageFrom :: "nat \<Rightarrow> db \<Rightarrow> product_row list \<Rightarrow> cursor_page \<Rightarrow> bool" where
  "pageFrom L s rest page \<longleftrightarrow>
     (if L < length rest
      then cp_products page = map (attachBreakdowns \<circ> standardIncludes s) (take L rest) \<and>
        cp_nextCursor page = Some (pr_productId (rest ! L))
      else cp_products page = map (attachBreakdowns \<circ> standardIncludes s) rest \<and> cp_nextCursor page = None)"

lemma pageFrom_start:
  assumes "(case or_null (cq_cursor q) of None \<Rightarrow> visibleProducts q s
     | Some c \<Rightarrow> drop 1 (fromCursor (cq_desc q) c s (visibleProducts q s))) = rest"
  shows "pageFrom (cq_limit q) s rest (getAllProductCursor q s)"
proof -
  let ?raw = "take (cq_limit q + 1) rest"
  have "last ?raw = rest ! cq_limit q" "butlast ?raw = take (cq_limit q) rest" if "cq_limit q < length rest"
    using that by (simp_all add: take_Suc_conv_app_nth butlast_append)
  then show ?thesis unfolding getAllProductCursor_def assms Let_def pageFrom_def by auto
qed

lemma visible_cursor [simp]: "visibleProducts (q\<lparr>cq_cursor := c\<rparr>) s = visibleProducts q s"
  by (simp add: visibleProducts_def)

definition kept :: "nat \<Rightarrow> 'a list \<Rightarrow> 'a list" where
  "kept L xs = nths xs {i. i mod (L + 1) \<noteq> L}"

lemma kept_short: "length xs \<le> L \<Longrightarrow> kept L xs = xs"
  unfolding kept_def by (rule nths_all) auto

lemma kept_long:
  assumes "L < length xs"
  shows "kept L xs = take L xs @ kept L (drop (L + 1) xs)"
proof -
  let ?A = "{i. i mod (L + 1) \<noteq> L}"
  have "xs = (take L xs @ [xs ! L]) @ drop (L + 1) xs"
    using assms by (simp add: take_Suc_conv_app_nth[symmetric])
  then have "kept L xs = nths ((take L xs @ [xs ! L]) @ drop (L + 1) xs) ?A" by (simp add: kept_def)
  also have "\<dots> = nths (take L xs @ [xs ! L]) ?A @ nths (drop (L + 1) xs) {j. j + (L + 1) \<in> ?A}"
    using assms by (subst nths_append) simp
  also have "{j. j + (L + 1) \<in> ?A} = ?A" by (simp only: mem_Collect_eq mod_add_self2)
  also have "nths (take L xs @ [xs ! L]) ?A = take L xs"
  proof -
    have "nths (take L xs) ?A = take L xs" using assms by (intro nths_all) auto
    then show ?thesis using assms by (simp add: nths_append)
  qed
  finally show ?thesis by (simp add: kept_def)
qed

lemma followCursor_from:
  assumes "distinct (map pr_productId (products s))" "\<forall>p \<in> set (products s). pr_productId p \<noteq> []"
    and "(case or_null (cq_cursor q) of None \<Rightarrow> visibleProducts q s
       | Some c \<Rightarrow> drop 1 (fromCursor (cq_desc q) c s (visibleProducts q s))) = rest"
    and "visibleProducts q s = done' @ rest" "length rest div (cq_limit q + 1) < n"
  shows "followCursor n q s = Some (map (attachBreakdowns \<circ> standardIncludes s) (kept (cq_limit q) rest))"
  using assms(3-5)
proof (induction n arbitrary: q done' rest)
  case (Suc n)
  let ?L = "cq_limit q"
  have page: "pageFrom ?L s rest (getAllProductCursor q s)" by (rule pageFrom_start[OF Suc.prems(1)])
  show ?case
  proof (cases "?L < length rest")
    case False
    then show ?thesis using page by (simp add: pageFrom_def kept_short)
  next
    case True
    let ?r = "rest ! ?L" and ?rest = "drop (?L + 1) rest" and ?done = "done' @ take ?L rest"
    let ?q = "q\<lparr>cq_cursor := Some (pr_productId ?r)\<rparr>"
    have split: "visibleProducts q s = ?done @ ?r # ?rest"
      using True Suc.prems(2) by (simp add: id_take_nth_drop[symmetric] Cons_nth_drop_Suc)
    have "?r \<in> set (visibleProducts q s)" unfolding split by simp
    then have "?r \<in> set (products s)" by (auto simp: visibleProducts_def orderByKey_def Let_def split: if_splits)
    then have ne: "or_null (Some (pr_productId ?r)) = Some (pr_productId ?r)" using assms(2) by (simp add: or_null_def)
    have "fromCursor (cq_desc q) (pr_productId ?r) s (visibleProducts q s) = ?r # ?rest"
      by (rule fromCursor_tail[OF assms(1) split])
    then have "followCursor n ?q s = Some (map (attachBreakdowns \<circ> standardIncludes s) (kept ?L ?rest))"
      using Suc.IH[of ?q ?rest "?done @ [?r]"] Suc.prems(3) True split ne by (simp add: le_div_geq)
    then show ?thesis using page True kept_long[OF True] by (simp add: pageFrom_def)
  qed
qed simp

text \<open>C33: Following \<open>nextCursor\<close> from the start always comes to an end, after at most one request per
  \<open>limit + 1\<close> products and one more, and shows every visible product in order except each \<open>(limit + 1)\<close>-st: the
  product a page's cursor names is skipped by the next page.
\<close>

theorem cursor_pages_end_and_skip:
  assumes "distinct (map pr_productId (products s))" "\<forall>p \<in> set (products s). pr_productId p \<noteq> []"
    and "cq_cursor q = None" "length (visibleProducts q s) div (cq_limit q + 1) < n"
  shows "followCursor n q s = Some (map (attachBreakdowns \<circ> standardIncludes s)
    (nths (visibleProducts q s) {i. i mod (cq_limit q + 1) \<noteq> cq_limit q}))"
  using followCursor_from[OF assms(1,2), of q "visibleProducts q s" "[]" n] assms(3,4)
  by (simp add: or_null_def kept_def)

definition sample_item :: "string \<Rightarrow> int \<Rightarrow> product_row" where
  "sample_item i t = \<lparr>pr_productId = i, pr_companyId = None, pr_name = i, pr_slug = i, pr_stockQuantity = 1,
     pr_commissionRate = None, pr_status = PUBLISHED, pr_description = None, pr_price = 10, pr_minPrice = None,
     pr_maxPrice = None, pr_categoryId = ''c'', pr_createdAt = t\<rparr>"

definition sample_window :: db where
  "sample_window = empty_db\<lparr>products := [sample_item ''a'' 1, sample_item ''b'' 2, sample_item ''c'' 3, sample_item ''d'' 4]\<rparr>"

definition sample_browse :: cursor_query where
  "sample_browse = \<lparr>cq_limit = 1, cq_cursor = None, cq_desc = False, cq_category = None, cq_companyId = None\<rparr>"

lemma sample_browse_visible:
  "visibleProducts sample_browse sample_window = [sample_item ''a'' 1, sample_item ''b'' 2, sample_item ''c'' 3, sample_item ''d'' 4]"
  by (simp add: visibleProducts_def orderByKey_def sample_browse_def sample_window_def empty_db_def sample_item_def
      ofCompany_def inCategory_def or_null_def cursorKey_def)

lemma view_product: "pv_product (attachBreakdowns (standardIncludes s p)) = p"
  by (simp add: attachBreakdowns_def standardIncludes_def)

theorem cursor_pages_end_and_skip_witness:
  "map_option (map (\<lambda>v. pr_productId (pv_product v))) (followCursor 3 sample_browse sample_window) = Some [''a'', ''c'']"
proof -
  have len: "length (visibleProducts sample_browse sample_window) = 4" by (simp add: sample_browse_visible)
  have "followCursor 3 sample_browse sample_window = Some (map (attachBreakdowns \<circ> standardIncludes sample_window)
      (nths (visibleProducts sample_browse sample_window) {i. i mod (cq_limit sample_browse + 1) \<noteq> cq_limit sample_browse}))"
    by (rule cursor_pages_end_and_skip)
      (simp_all only: len, simp_all add: sample_browse_def sample_window_def empty_db_def sample_item_def flip: numeral_2_eq_2)
  moreover have "cq_limit sample_browse = 1" by (simp add: sample_browse_def)
  ultimately have "followCursor 3 sample_browse sample_window =
      Some (map (attachBreakdowns \<circ> standardIncludes sample_window) [sample_item ''a'' 1, sample_item ''c'' 3])"
    by (simp only: sample_browse_visible) (simp add: nths_Cons mod_Suc)
  then show ?thesis by (simp only: option.map list.map comp_apply view_product) (simp add: sample_item_def)
qed

section \<open>Shown and financed amounts\<close>

lemma abs_diff_trans: "\<bar>x - y\<bar> \<le> a \<Longrightarrow> \<bar>y - z\<bar> \<le> b \<Longrightarrow> \<bar>x - z\<bar> \<le> a + (b :: rat)"
  by linarith

lemma fl_near: "\<bar>x\<bar> \<le> m \<Longrightarrow> \<bar>fl x - x\<bar> \<le> m / 2 ^ 53"
  using fl_rel_error[of x] by (simp add: field_simps)

text \<open>The binary64 total is close to the exact one, relative to it; \<open>u\<close> is the unit roundoff.\<close>

definition unit_roundoff :: rat where
  "unit_roundoff = 1 / 2 ^ 53"

lemma unit_roundoff_bounds: "0 < unit_roundoff" "unit_roundoff \<le> 1 / (9 * 10 ^ 15)"
  by (simp_all add: unit_roundoff_def)

lemma fl_rel: "\<bar>fl x - x\<bar> \<le> unit_roundoff * \<bar>x\<bar>"
  using fl_rel_error[of x] by (simp add: unit_roundoff_def)

lemma full_total_near:
  fixes P i :: rat
  assumes "0 \<le> P" "0 \<le> i"
  shows "\<bar>jsMul (fl P) (fl (1 + jsDiv (fl i) 100)) - (P + P * (i / 100))\<bar> \<le> 9 * unit_roundoff * (P + P * (i / 100))"
proof -
  define u where "u = unit_roundoff"
  define j where "j = i / 100"
  have u: "0 < u" "u \<le> 1 / 1000" using unit_roundoff_bounds by (simp_all add: u_def)
  have j: "0 \<le> j" using assms(2) by (simp add: j_def)
  have rel: "\<bar>fl x - x\<bar> \<le> u * \<bar>x\<bar>" for x unfolding u_def by (rule fl_rel)
  have grow: "\<bar>fl x\<bar> \<le> (1 + u) * \<bar>x\<bar>" for x using rel[of x] by (simp add: algebra_simps abs_le_iff) linarith
  let ?b = "fl P" and ?r = "fl i" and ?d = "jsDiv (fl i) 100"
  let ?o = "fl (1 + ?d)"
  have r: "\<bar>?r / 100 - j\<bar> \<le> u * j" using rel[of i] assms(2) by (simp add: j_def abs_le_iff field_simps)
  then have rj: "\<bar>?r / 100\<bar> \<le> 2 * j" using mult_right_mono[OF u(2) j] by (simp add: abs_le_iff)
  have "\<bar>?d - ?r / 100\<bar> \<le> u * (2 * j)"
    using rel[of "?r / 100"] mult_left_mono[OF rj, of u] u(1) unfolding jsDiv_def by linarith
  then have d: "\<bar>?d - j\<bar> \<le> 3 * (u * j)" using r by (simp add: abs_le_iff)
  have uj: "u * j \<le> j / 1000" using mult_right_mono[OF u(2) j] by simp
  have db: "\<bar>1 + ?d\<bar> \<le> 2 * (1 + j)" using d uj j by (simp add: abs_le_iff)
  have "\<bar>?o - (1 + ?d)\<bar> \<le> u * (2 * (1 + j))"
    using rel[of "1 + ?d"] mult_left_mono[OF db, of u] u(1) by linarith
  then have o': "\<bar>?o - (1 + j)\<bar> \<le> 5 * (u * (1 + j))" using d u j by (simp add: abs_le_iff algebra_simps)
  have ub: "u * (1 + j) \<le> (1 + j) / 1000" using mult_right_mono[OF u(2), of "1 + j"] j by simp
  have ob: "\<bar>?o\<bar> \<le> 101 / 100 * (1 + j)" using o' ub j by (simp add: abs_le_iff algebra_simps)
  have b: "\<bar>?b - P\<bar> \<le> u * P" using rel[of P] assms(1) by simp
  have uP: "u * P \<le> P / 1000" using mult_right_mono[OF u(2) assms(1)] by simp
  have bb: "\<bar>?b\<bar> \<le> 101 / 100 * P" using b uP assms(1) by (simp add: abs_le_iff algebra_simps)
  have tj: "0 \<le> P * (1 + j)" using assms(1) j by simp
  have "\<bar>?b * ?o\<bar> \<le> (101 / 100 * P) * (101 / 100 * (1 + j))" unfolding abs_mult by (rule mult_mono[OF bb ob]) (use assms(1) in simp_all)
  then have bo: "\<bar>?b * ?o\<bar> \<le> 2 * (P * (1 + j))" using tj by (simp add: algebra_simps)
  have m: "\<bar>jsMul ?b ?o - ?b * ?o\<bar> \<le> 2 * (u * (P * (1 + j)))"
    using rel[of "?b * ?o"] mult_left_mono[OF bo, of u] u(1) unfolding jsMul_def by linarith
  have "?b * ?o - P * (1 + j) = (?b - P) * ?o + P * (?o - (1 + j))" by (simp add: algebra_simps)
  also have "\<bar>\<dots>\<bar> \<le> \<bar>?b - P\<bar> * \<bar>?o\<bar> + \<bar>P\<bar> * \<bar>?o - (1 + j)\<bar>" by (metis abs_mult abs_triangle_ineq)
  also have "\<dots> \<le> (u * P) * (2 * (1 + j)) + P * (5 * (u * (1 + j)))"
    using b ob o' u j assms(1) by (intro add_mono mult_mono) simp_all
  also have "\<dots> = 7 * (u * (P * (1 + j)))" by (simp add: algebra_simps)
  finally have "\<bar>jsMul ?b ?o - P * (1 + j)\<bar> \<le> 2 * (u * (P * (1 + j))) + 7 * (u * (P * (1 + j)))"
    by (rule abs_diff_trans[OF m])
  moreover have "P + P * (i / 100) = P * (1 + j)" by (simp add: j_def algebra_simps)
  ultimately show ?thesis by (simp add: u_def mult.assoc)
qed

lemma jsFixed2_near:
  assumes "\<bar>x - t\<bar> \<le> 9 * unit_roundoff * t" "0 \<le> t"
  shows "\<bar>jsFixed2 x - t\<bar> \<le> 51 / 10000 + 12 * unit_roundoff * t"
    "t * 100 = of_int k \<Longrightarrow> t \<le> 10 ^ 12 \<Longrightarrow> jsFixed2 x = fl t"
proof -
  define u where "u = unit_roundoff"
  note x = assms(1)[folded u_def]
  have u: "0 < u" "u \<le> 1 / (9 * 10 ^ 15)" using unit_roundoff_bounds by (simp_all add: u_def)
  let ?n = "\<lfloor>x * 100 + 1/2\<rfloor>"
  have n: "\<bar>of_int ?n / 100 - x\<bar> \<le> 1 / 200"
    using of_int_floor_le[of "x * 100 + 1/2"] floor_correct[of "x * 100 + 1/2"] by linarith
  have nt: "\<bar>of_int ?n / 100 - t\<bar> \<le> 1 / 200 + 9 * u * t" by (rule abs_diff_trans[OF n x])
  have ut: "9 * u * t \<le> t" using mult_right_mono[of "9 * u" 1 t] u assms(2) by simp
  have "\<bar>of_int ?n / 100\<bar> \<le> \<bar>of_int ?n / 100 - t\<bar> + \<bar>t\<bar>" by linarith
  also have "\<dots> \<le> 1 / 200 + 2 * t" using nt ut assms(2) by linarith
  finally have nb: "\<bar>of_int ?n / 100 :: rat\<bar> \<le> 1 / 200 + 2 * t" .
  have "\<bar>jsFixed2 x - of_int ?n / 100\<bar> \<le> u * (1 / 200 + 2 * t)"
    using fl_rel[of "of_int ?n / 100", folded u_def] mult_left_mono[OF nb, of u] u(1) unfolding jsFixed2_def by linarith
  also have "\<dots> \<le> 1 / 10000 + 2 * u * t" using u by (simp add: algebra_simps)
  finally have "\<bar>jsFixed2 x - t\<bar> \<le> 1 / 10000 + 2 * u * t + (1 / 200 + 9 * u * t)" by (rule abs_diff_trans[OF _ nt])
  moreover have "0 \<le> u * t" using u(1) assms(2) by simp
  ultimately show "\<bar>jsFixed2 x - t\<bar> \<le> 51 / 10000 + 12 * unit_roundoff * t" unfolding u_def[symmetric] mult.assoc by linarith
  assume k: "t * 100 = of_int k" and t: "t \<le> 10 ^ 12"
  have "9 * u * t \<le> 1 / 10 ^ 15 * 10 ^ 12" by (rule mult_mono) (use u t assms(2) in simp_all)
  also have "1 / 10 ^ 15 * 10 ^ 12 = (1 / 1000 :: rat)" by simp
  finally have xt: "\<bar>x - t\<bar> \<le> 1 / 1000" by (rule order_trans[OF x])
  have "\<bar>x * 100 - of_int k\<bar> < 1/2" using abs_le_D1[OF xt] abs_le_D2[OF xt] unfolding k[symmetric] abs_less_iff by (intro conjI) linarith+
  then have "?n = k" using jsRound_close by (simp add: jsRound_def)
  then show "jsFixed2 x = fl t" unfolding jsFixed2_def k[symmetric] by (simp add: k[symmetric])
qed

text \<open>C34: For every price and interest that are not negative, the total a product page shows for a variant and a
  plan is the amount an application for them finances, rounded to hundredths: it differs by at most 0.51
  hundredths and the binary64 rounding of the total, and it is the binary64 number nearest to that amount when
  the amount is a whole number of kobo and at most a trillion.
\<close>

theorem shown_total_is_the_financed_total:
  fixes vid sku e p
  assumes "0 \<le> va_price v" "0 \<le> ip_interestPercentage plan"
  defines "shown \<equiv> bd_totalPrice (computeBreakdown (fl (va_price v)) plan vid sku)"
    and "financed \<equiv> fc_totalFinanced (new_contract e p plan v)"
  shows "\<bar>shown - financed\<bar> \<le> 51 / 10000 + 12 / 2 ^ 53 * financed \<and>
    (financed * 100 = of_int k \<and> financed \<le> 10 ^ 12 \<longrightarrow> shown = fl financed)"
proof -
  let ?P = "va_price v" and ?i = "ip_interestPercentage plan"
  have f: "financed = ?P + ?P * (?i / 100)" by (simp add: financed_def new_contract_def Let_def)
  have s: "shown = jsFixed2 (jsMul (fl ?P) (fl (1 + jsDiv (fl ?i) 100)))"
    by (simp add: shown_def computeBreakdown_def Let_def)
  have p: "0 \<le> financed" using assms(1,2) by (simp add: f)
  note n = jsFixed2_near[OF full_total_near[OF assms(1,2)], folded f s, OF p]
  have e: "12 * unit_roundoff * financed = 12 / 2 ^ 53 * financed" by (simp add: unit_roundoff_def)
  show ?thesis using n(1)[unfolded e] n(2)[of k] by blast
qed

definition sample_size :: variant_row where
  "sample_size = \<lparr>va_variantId = ''v'', va_productId = ''p'', va_sku = ''A'', va_stockQuantity = 1, va_isActive = True,
     va_price = 999/20, va_size = None, va_color = [], va_createdAt = 0\<rparr>"

definition sample_half_year :: installment_plan_row where
  "sample_half_year = \<lparr>ip_planId = ''q'', ip_productId = ''p'', ip_durationMonths = 6, ip_interestPercentage = 20, ip_active = True\<rparr>"

definition sample_wishlist :: application_input where
  "sample_wishlist = \<lparr>ai_productId = ''p'', ai_variantId = ''v'', ai_installmentPlanId = ''q'', ai_idType = ''NIN'', ai_idNumber = ''1''\<rparr>"

theorem shown_total_is_the_financed_total_witness:
  "bd_totalPrice (computeBreakdown (fl (999/20)) sample_half_year None None) = fl (2997/50)"
  using shown_total_is_the_financed_total[of sample_size sample_half_year None None
      "\<lparr>env_now = 0, env_uuid = \<lambda>k. []\<rparr>" sample_wishlist 5994]
  by (simp add: sample_size_def sample_half_year_def new_contract_def Let_def)

end
