(* ===== verification/Gallery.thy ===== *)
theory Gallery
  imports CatalogSafety KycIntake
begin

text \<open>
  The gallery of a product and the images shown with its variants:
  \<open>src/core/services/product-image.service.ts\<close>.  The uploads are a parameter, one result per file;
  a deletion at Cloudinary, which never fails (\<open>cloudinary.service.ts\<close> swallows every error), is an
  effect.  The numeric key of a product, which only the images refer to, is its public identifier here.
\<close>

definition deleteFromCloudinary :: "string \<Rightarrow> db \<Rightarrow> db" where
  "deleteFromCloudinary publicId s = emit (Job ''cloudinary.destroy'' publicId) s"

definition resolveProductId :: "ident \<Rightarrow> db \<Rightarrow> ident res" where
  "resolveProductId pid s =
     (case find_product pid s of None \<Rightarrow> Inl (NotFoundError ''Product not found'') | Some p \<Rightarrow> Inr (pr_productId p))"

definition galleryOf :: "ident \<Rightarrow> db \<Rightarrow> product_image_row list" where
  "galleryOf pid s = filter (\<lambda>i. im_productId i = pid) (productImages s)"

definition sortedGallery :: "ident \<Rightarrow> db \<Rightarrow> product_image_row list" where
  "sortedGallery pid s = sort_key im_sortOrder (galleryOf pid s)"

definition find_image :: "ident \<Rightarrow> ident \<Rightarrow> db \<Rightarrow> product_image_row option" where
  "find_image pid imageId s = find (\<lambda>i. im_imageId i = imageId \<and> im_productId i = pid) (productImages s)"

definition update_images :: "(product_image_row \<Rightarrow> bool) \<Rightarrow> (product_image_row \<Rightarrow> product_image_row) \<Rightarrow> db \<Rightarrow> db" where
  "update_images p f s = s\<lparr>productImages := update_where p f (productImages s)\<rparr>"

section \<open>Uploading\<close>

text \<open>The files are uploaded in turn up to the first that fails; then what was uploaded is deleted again.\<close>

fun uploadAll :: "upload_result res list \<Rightarrow> upload_result list \<Rightarrow> (app_error \<times> upload_result list) + upload_result list" where
  "uploadAll [] done' = Inr done'"
| "uploadAll (Inl err # rs) done' = Inl (err, done')"
| "uploadAll (Inr a # rs) done' = uploadAll rs (done' @ [a])"

definition nextImageId :: "db \<Rightarrow> nat" where
  "nextImageId s = Suc (foldr max (map im_id (productImages s)) 0)"

definition sortOffset :: "ident \<Rightarrow> db \<Rightarrow> int" where
  "sortOffset pid s = (if galleryOf pid s = [] then -1 else Max (set (map im_sortOrder (galleryOf pid s)))) + 1"

definition hasPrimary :: "ident \<Rightarrow> db \<Rightarrow> bool" where
  "hasPrimary pid s = (count_where im_isPrimary (galleryOf pid s) \<noteq> 0)"

definition new_image ::
  "env \<Rightarrow> ident \<Rightarrow> (nat \<Rightarrow> string option) \<Rightarrow> db \<Rightarrow> nat \<times> upload_result \<Rightarrow> product_image_row" where
  "new_image e pid altTextMap s = (\<lambda>(idx, asset).
     \<lparr>im_id = nextImageId s + idx, im_imageId = env_uuid e idx, im_productId = pid, im_imageUrl = ur_url asset,
      im_altText = altTextMap idx, im_isPrimary = (\<not> hasPrimary pid s \<and> idx = 0),
      im_sortOrder = sortOffset pid s + int idx, im_cloudinaryPublicId = Some (ur_public_id asset)\<rparr>)"

definition uploadGalleryImages ::
  "upload_result res list \<Rightarrow> env \<Rightarrow> ident \<Rightarrow> (nat \<Rightarrow> string option) \<Rightarrow> db \<Rightarrow> product_image_row list res \<times> db" where
  "uploadGalleryImages uploads e pid altTextMap s =
     (if uploads = [] then (Inl (BadRequestError ''No image files provided''), s)
      else (case resolveProductId pid s of
          Inl err \<Rightarrow> (Inl err, s)
        | Inr p \<Rightarrow>
           (case uploadAll uploads [] of
              Inl (err, assets) \<Rightarrow> (Inl err, foldl (\<lambda>s a. deleteFromCloudinary (ur_public_id a) s) s assets)
            | Inr assets \<Rightarrow>
                let s' = s\<lparr>productImages := productImages s @ map (new_image e p altTextMap s) (enumerate 0 assets)\<rparr>
                in (Inr (filter (\<lambda>i. im_cloudinaryPublicId i \<in> Some ` set (map ur_public_id assets)) (sortedGallery p s')), s'))))"

section \<open>Removing, ordering, choosing\<close>

text \<open>The image is deleted with its appearances; the first of the rest takes over as the primary one.\<close>

definition removeImageTx :: "ident \<Rightarrow> product_image_row \<Rightarrow> db \<Rightarrow> db" where
  "removeImageTx pid img s =
     (let s1 = s\<lparr>variantImages := filter (\<lambda>x. vi_imageId x \<noteq> im_id img) (variantImages s),
                 productImages := filter (\<lambda>i. im_imageId i \<noteq> im_imageId img) (productImages s)\<rparr>
      in if im_isPrimary img
         then (case sortedGallery pid s1 of
             [] \<Rightarrow> s1
           | next' # _ \<Rightarrow> update_images (\<lambda>i. im_imageId i = im_imageId next') (\<lambda>i. i\<lparr>im_isPrimary := True\<rparr>) s1)
         else s1)"

definition removeGalleryImage :: "ident \<Rightarrow> ident \<Rightarrow> db \<Rightarrow> ident res \<times> db" where
  "removeGalleryImage pid imageId s =
     (case resolveProductId pid s of
        Inl err \<Rightarrow> (Inl err, s)
      | Inr p \<Rightarrow>
         (case find_image p imageId s of
            None \<Rightarrow> (Inl (NotFoundError ''Image not found for this product''), s)
          | Some img \<Rightarrow>
              let s1 = removeImageTx p img s
              in (Inr imageId, (case or_null (im_cloudinaryPublicId img) of None \<Rightarrow> s1 | Some a \<Rightarrow> deleteFromCloudinary a s1))))"

definition writeOrder :: "ident list \<Rightarrow> db \<Rightarrow> db" where
  "writeOrder orderedIds s =
     foldl (\<lambda>s (idx, i). update_images (\<lambda>x. im_imageId x = i) (\<lambda>x. x\<lparr>im_sortOrder := int idx\<rparr>) s) s (enumerate 0 orderedIds)"

definition reorderGalleryImages :: "ident \<Rightarrow> ident list \<Rightarrow> db \<Rightarrow> product_image_row list res \<times> db" where
  "reorderGalleryImages pid orderedIds s =
     (case resolveProductId pid s of
        Inl err \<Rightarrow> (Inl err, s)
      | Inr p \<Rightarrow>
          if \<not> set orderedIds \<subseteq> set (map im_imageId (galleryOf p s))
          then (Inl (BadRequestError ''Image IDs not found for this product: ''), s)
          else (let s' = writeOrder orderedIds s in (Inr (sortedGallery p s'), s')))"

definition makePrimary :: "ident \<Rightarrow> ident \<Rightarrow> db \<Rightarrow> db" where
  "makePrimary pid imageId s =
     update_images (\<lambda>i. im_imageId i = imageId) (\<lambda>i. i\<lparr>im_isPrimary := True\<rparr>)
       (update_images (\<lambda>i. im_productId i = pid \<and> im_isPrimary i) (\<lambda>i. i\<lparr>im_isPrimary := False\<rparr>) s)"

definition setPrimaryImage :: "ident \<Rightarrow> ident \<Rightarrow> db \<Rightarrow> product_image_row list res \<times> db" where
  "setPrimaryImage pid imageId s =
     (case resolveProductId pid s of
        Inl err \<Rightarrow> (Inl err, s)
      | Inr p \<Rightarrow>
         (case find_image p imageId s of
            None \<Rightarrow> (Inl (NotFoundError ''Image not found for this product''), s)
          | Some img \<Rightarrow> (let s' = makePrimary p imageId s in (Inr (sortedGallery p s'), s'))))"

record image_meta =
  imm_altText :: "string option option"
  imm_sortOrder :: "int option"

definition updateImageMeta :: "ident \<Rightarrow> ident \<Rightarrow> image_meta \<Rightarrow> db \<Rightarrow> product_image_row option res \<times> db" where
  "updateImageMeta pid imageId m s =
     (case resolveProductId pid s of
        Inl err \<Rightarrow> (Inl err, s)
      | Inr p \<Rightarrow>
         (case find_image p imageId s of
            None \<Rightarrow> (Inl (NotFoundError ''Image not found for this product''), s)
          | Some img \<Rightarrow>
              let s' = update_images (\<lambda>i. im_imageId i = imageId)
                (\<lambda>i. i\<lparr>im_altText := changed (imm_altText m) (im_altText i), im_sortOrder := changed (imm_sortOrder m) (im_sortOrder i)\<rparr>) s
              in (Inr (find_image p imageId s'), s')))"

text \<open>Each image with the variants it is shown with.\<close>

definition getGallery :: "ident \<Rightarrow> db \<Rightarrow> (product_image_row \<times> (ident \<times> string option) list) list res" where
  "getGallery pid s =
     (case resolveProductId pid s of
        Inl err \<Rightarrow> Inl err
      | Inr p \<Rightarrow> Inr (map (\<lambda>i. (i, map (\<lambda>x. (vi_variantId x, map_option va_sku (find_variant (vi_variantId x) s)))
            (filter (\<lambda>x. vi_imageId x = im_id i) (variantImages s)))) (sortedGallery p s)))"

section \<open>The images of a variant\<close>

definition requestedImages :: "ident \<Rightarrow> ident list \<Rightarrow> db \<Rightarrow> product_image_row list" where
  "requestedImages pid imageIds s = filter (\<lambda>i. im_imageId i \<in> set imageIds) (galleryOf pid s)"

text \<open>The images found are shown in the table's order, not in the order of the request.\<close>

definition setVariantImages :: "ident \<Rightarrow> ident list \<Rightarrow> db \<Rightarrow> variant_view option res \<times> db" where
  "setVariantImages vid imageIds s =
     (case find_variant vid s of
        None \<Rightarrow> (Inl (NotFoundError ''Variant not found''), s)
      | Some v \<Rightarrow>
         (case (if imageIds = [] then Inr []
                else (case resolveProductId (va_productId v) s of
                   Inl err \<Rightarrow> Inl err
                 | Inr p \<Rightarrow>
                     let found = requestedImages p imageIds s
                     in if length found \<noteq> length imageIds
                        then Inl (BadRequestError ''These image IDs do not belong to this product: '')
                        else Inr found)) of
            Inl err \<Rightarrow> (Inl err, s)
          | Inr found \<Rightarrow>
              let s1 = s\<lparr>variantImages := filter (\<lambda>x. vi_variantId x \<noteq> vid) (variantImages s)\<rparr>;
                  s2 = snd (attachImages vid (map im_id found) s1)
              in (Inr (readVariant vid s2), s2)))"

section \<open>One primary image\<close>

definition primariesOf :: "ident \<Rightarrow> product_image_row list \<Rightarrow> product_image_row list" where
  "primariesOf pid xs = filter (\<lambda>i. im_productId i = pid \<and> im_isPrimary i) xs"

definition gallery_ok :: "product_image_row list \<Rightarrow> bool" where
  "gallery_ok xs \<longleftrightarrow> distinct (map im_imageId xs) \<and>
     (\<forall>pid. pid \<in> im_productId ` set xs \<longrightarrow> length (primariesOf pid xs) = 1)"

inductive gallery_step :: "db \<Rightarrow> db \<Rightarrow> bool" where
  uploaded: "inj (env_uuid e) \<Longrightarrow> \<forall>k. env_uuid e k \<notin> im_imageId ` set (productImages s) \<Longrightarrow>
     gallery_step s (snd (uploadGalleryImages ups e pid alt s))"
| removed: "gallery_step s (snd (removeGalleryImage pid i s))"
| reordered: "gallery_step s (snd (reorderGalleryImages pid is' s))"
| chosen: "gallery_step s (snd (setPrimaryImage pid i s))"
| described: "gallery_step s (snd (updateImageMeta pid i m s))"
| shown: "gallery_step s (snd (setVariantImages vid is' s))"

lemma gallery_core:
  assumes "map (\<lambda>i. (im_imageId i, im_productId i, im_isPrimary i)) ys = map (\<lambda>i. (im_imageId i, im_productId i, im_isPrimary i)) xs"
    and "gallery_ok xs"
  shows "gallery_ok ys"
proof -
  have "map im_imageId ys = map im_imageId xs" "map im_productId ys = map im_productId xs"
    using arg_cong[OF assms(1), of "map fst"] arg_cong[OF assms(1), of "map (fst \<circ> snd)"] by (simp_all add: comp_def)
  moreover have "length (primariesOf p ys) = length (primariesOf p xs)" for p
    using arg_cong[OF assms(1), of "\<lambda>zs. length (filter (\<lambda>(_, q, b). q = p \<and> b) zs)"]
    by (simp add: primariesOf_def filter_map comp_def)
  ultimately show ?thesis using assms(2) by (metis gallery_ok_def list.set_map)
qed

lemma primariesOf_update:
  assumes "\<And>i. P i \<Longrightarrow> i \<in> set xs \<Longrightarrow> im_productId i = pid" "\<And>i. im_productId (f i) = im_productId i" "q \<noteq> pid"
  shows "primariesOf q (update_where P f xs) = primariesOf q xs"
  unfolding primariesOf_def using assms by (intro filter_update_where_inside) auto

lemma primariesOf_cleared:
  "primariesOf p (update_where (\<lambda>i. im_productId i = p \<and> im_isPrimary i) (\<lambda>i. i\<lparr>im_isPrimary := False\<rparr>) xs) = []"
  by (induction xs) (simp_all add: primariesOf_def row_simps)

text \<open>The image that takes over becomes the only primary one.\<close>

lemma promoted:
  assumes "distinct (map im_imageId ys)" "r \<in> set ys" "im_productId r = pid" "primariesOf pid ys = []"
    and "\<forall>q. q \<noteq> pid \<longrightarrow> q \<in> im_productId ` set ys \<longrightarrow> length (primariesOf q ys) = 1"
  shows "gallery_ok (update_where (\<lambda>i. im_imageId i = im_imageId r) (\<lambda>i. i\<lparr>im_isPrimary := True\<rparr>) ys)"
proof -
  let ?f = "\<lambda>i. i\<lparr>im_isPrimary := True\<rparr>"
  let ?zs = "update_where (\<lambda>i. im_imageId i = im_imageId r) ?f ys"
  obtain as bs where split: "ys = as @ r # bs" "?zs = as @ ?f r # bs"
    using update_where_key_split[OF assms(1,2)] by blast
  have "primariesOf pid ?zs = [?f r]" using assms(3,4) unfolding split(2) by (simp add: split(1) primariesOf_def split: if_splits)
  moreover have "primariesOf q ?zs = primariesOf q ys" if "q \<noteq> pid" for q
    using that assms(3) unfolding split(2) by (simp add: split(1) primariesOf_def)
  moreover have "im_productId ` set ?zs = im_productId ` set ys" unfolding split(2) by (simp add: split(1))
  moreover have "distinct (map im_imageId ?zs)" using assms(1) by (simp add: map_update_where)
  ultimately show ?thesis unfolding gallery_ok_def
  proof (intro conjI allI impI)
    fix q assume q: "q \<in> im_productId ` set ?zs" and zs: "primariesOf pid ?zs = [?f r]"
      "\<And>q. q \<noteq> pid \<Longrightarrow> primariesOf q ?zs = primariesOf q ys" "im_productId ` set ?zs = im_productId ` set ys"
    show "length (primariesOf q ?zs) = 1"
    proof (cases "q = pid")
      case True then show ?thesis using zs(1) by (simp only: list.size)
    next
      case False then show ?thesis using zs(2,3) q assms(5) by metis
    qed
  qed
qed

lemma find_image_set: "find_image p i s = Some r \<Longrightarrow> r \<in> set (productImages s) \<and> im_imageId r = i \<and> im_productId r = p"
  unfolding find_image_def by (drule find_set) simp

lemma makePrimary_keeps:
  assumes "gallery_ok (productImages s)" "find_image p i s = Some r"
  shows "gallery_ok (productImages (makePrimary p i s))"
proof -
  let ?ys = "update_where (\<lambda>i. im_productId i = p \<and> im_isPrimary i) (\<lambda>i. i\<lparr>im_isPrimary := False\<rparr>) (productImages s)"
  let ?r = "if im_isPrimary r then r\<lparr>im_isPrimary := False\<rparr> else r"
  note r = find_image_set[OF assms(2)]
  have "primariesOf p ?ys = []" by (rule primariesOf_cleared)
  moreover have "primariesOf q ?ys = primariesOf q (productImages s)" if "q \<noteq> p" for q
    using that by (intro primariesOf_update) auto
  moreover have "map im_productId ?ys = map im_productId (productImages s)" by (simp add: map_update_where)
  then have "im_productId ` set ?ys = im_productId ` set (productImages s)" by (metis list.set_map)
  moreover have "distinct (map im_imageId ?ys)" using assms(1) by (simp add: gallery_ok_def map_update_where)
  moreover have "?r \<in> set ?ys" using r by (auto simp: set_update_where image_iff)
  ultimately have "gallery_ok (update_where (\<lambda>i. im_imageId i = im_imageId ?r) (\<lambda>i. i\<lparr>im_isPrimary := True\<rparr>) ?ys)"
    using assms(1) r by (intro promoted) (auto simp: gallery_ok_def)
  moreover have "im_imageId ?r = i" using r by simp
  ultimately have "gallery_ok (update_where (\<lambda>x. im_imageId x = i) (\<lambda>i. i\<lparr>im_isPrimary := True\<rparr>) ?ys)" by (simp only:)
  then show ?thesis by (simp add: makePrimary_def update_images_def)
qed

lemma removeImage_keeps:
  assumes "gallery_ok (productImages s)" "find_image p i s = Some r"
  shows "gallery_ok (productImages (removeImageTx p r s))"
proof -
  let ?xs = "productImages s"
  let ?ys = "filter (\<lambda>x. im_imageId x \<noteq> im_imageId r) ?xs"
  note r = find_image_set[OF assms(2)]
  have only: "x = r" if "x \<in> set ?xs" "im_imageId x = im_imageId r" for x
    using that r assms(1) by (auto simp: gallery_ok_def distinct_map inj_on_def)
  have d: "distinct (map im_imageId ?ys)" using assms(1) by (simp add: gallery_ok_def distinct_map_filter)
  have other: "primariesOf q ?ys = primariesOf q ?xs" if "q \<noteq> p \<or> \<not> im_isPrimary r" for q
    unfolding primariesOf_def filter_filter using that only r by (intro filter_cong) auto
  have others: "\<forall>q. q \<noteq> p \<longrightarrow> q \<in> im_productId ` set ?ys \<longrightarrow> length (primariesOf q ?ys) = 1"
    using other assms(1) by (auto simp: gallery_ok_def)
  show ?thesis
  proof (cases "im_isPrimary r")
    case False
    then show ?thesis using other d assms(1) by (auto simp: removeImageTx_def gallery_ok_def Let_def)
  next
    case True
    have "length (primariesOf p ?xs) = 1" using assms(1) r by (auto simp: gallery_ok_def)
    moreover have "r \<in> set (primariesOf p ?xs)" using r True by (simp add: primariesOf_def)
    ultimately have "primariesOf p ?xs = [r]" by (cases "primariesOf p ?xs") auto
    moreover have "primariesOf p ?ys = filter (\<lambda>x. im_imageId x \<noteq> im_imageId r) (primariesOf p ?xs)"
      by (simp add: primariesOf_def conj_commute)
    ultimately have none: "primariesOf p ?ys = []" by simp
    let ?s1 = "s\<lparr>variantImages := filter (\<lambda>x. vi_imageId x \<noteq> im_id r) (variantImages s), productImages := ?ys\<rparr>"
    show ?thesis
    proof (cases "sortedGallery p ?s1")
      case Nil
      then have "galleryOf p ?s1 = []" by (metis length_0_conv length_sort sortedGallery_def)
      then have "p \<notin> im_productId ` set ?ys" by (auto simp: galleryOf_def filter_empty_conv simp del: filter_filter)
      then have "length (primariesOf q ?ys) = 1" if "q \<in> im_productId ` set ?ys" for q
        using others that by metis
      then have "gallery_ok ?ys" unfolding gallery_ok_def by (intro conjI allI impI d)
      then show ?thesis using True Nil by (simp add: removeImageTx_def Let_def)
    next
      case (Cons next' rest)
      have "next' \<in> set (sortedGallery p ?s1)" unfolding Cons by simp
      then have "next' \<in> set ?ys" "im_productId next' = p" by (auto simp: sortedGallery_def galleryOf_def)
      then have "gallery_ok (update_where (\<lambda>i. im_imageId i = im_imageId next') (\<lambda>i. i\<lparr>im_isPrimary := True\<rparr>) ?ys)"
        using promoted[OF d _ _ none others] by blast
      then show ?thesis using True Cons by (simp add: removeImageTx_def update_images_def Let_def)
    qed
  qed
qed

lemma uploadAll_ok: "uploadAll rs done' = Inr as \<Longrightarrow> length as = length done' + length rs"
  by (induction rs done' rule: uploadAll.induct) auto

lemma foldl_delete [simp]: "productImages (foldl (\<lambda>s a. deleteFromCloudinary (ur_public_id a) s) s as) = productImages s"
  by (induction as arbitrary: s) (simp_all add: deleteFromCloudinary_def)

lemma new_images:
  assumes "as \<noteq> []"
  shows "length (primariesOf p (map (new_image e p alt s) (enumerate 0 as))) = (if hasPrimary p s then 0 else 1)"
    and "q \<noteq> p \<Longrightarrow> primariesOf q (map (new_image e p alt s) (enumerate 0 as)) = []"
    and "map im_imageId (map (new_image e p alt s) (enumerate 0 as)) = map (env_uuid e) [0..<length as]"
    and "im_productId ` set (map (new_image e p alt s) (enumerate 0 as)) = {p}"
proof -
  obtain b bs where as: "as = b # bs" using assms by (cases as) auto
  have rest: "\<not> im_isPrimary (new_image e p alt s x)" if "x \<in> set (enumerate (Suc 0) bs)" for x
  proof (cases x)
    case (Pair i a) then show ?thesis using that by (auto simp: new_image_def in_set_enumerate_eq)
  qed
  then have "primariesOf p (map (new_image e p alt s) (enumerate (Suc 0) bs)) = []"
    by (auto simp: primariesOf_def filter_empty_conv)
  then show "length (primariesOf p (map (new_image e p alt s) (enumerate 0 as))) = (if hasPrimary p s then 0 else 1)"
    by (simp add: as primariesOf_def) (simp add: new_image_def)
  show "q \<noteq> p \<Longrightarrow> primariesOf q (map (new_image e p alt s) (enumerate 0 as)) = []"
    by (auto simp: primariesOf_def filter_empty_conv new_image_def)
  have "map im_imageId (map (new_image e p alt s) (enumerate 0 as)) = map (env_uuid e) (map fst (enumerate 0 as))"
    unfolding map_map by (rule map_cong) (auto simp: new_image_def)
  also have "map fst (enumerate 0 as) = [0..<length as]" using map_fst_enumerate[of 0 as] by simp
  finally show "map im_imageId (map (new_image e p alt s) (enumerate 0 as)) = map (env_uuid e) [0..<length as]" .
  show "im_productId ` set (map (new_image e p alt s) (enumerate 0 as)) = {p}"
    using assms by (auto simp: new_image_def as)
qed

lemma upload_keeps:
  assumes "inj (env_uuid e)" "\<forall>k. env_uuid e k \<notin> im_imageId ` set (productImages s)" "gallery_ok (productImages s)" "as \<noteq> []"
  shows "gallery_ok (productImages s @ map (new_image e p alt s) (enumerate 0 as))"
proof -
  let ?xs = "productImages s" and ?ns = "map (new_image e p alt s) (enumerate 0 as)"
  note new = new_images[OF assms(4), where e = e and p = p and alt = alt and s = s]
  have "distinct (map im_imageId ?ns)" unfolding new(3) using assms(1) by (simp add: distinct_map inj_on_subset[OF assms(1)])
  moreover have "set (map im_imageId ?ns) \<inter> set (map im_imageId ?xs) = {}" unfolding new(3) using assms(2) by auto
  ultimately have d: "distinct (map im_imageId (?xs @ ?ns))"
    using assms(3) by (auto simp: gallery_ok_def simp del: map_map set_map)
  have prim: "hasPrimary p s \<longleftrightarrow> primariesOf p ?xs \<noteq> []"
    by (simp add: hasPrimary_def count_where_def galleryOf_def primariesOf_def)
  have none: "primariesOf p ?xs = []" if "p \<notin> im_productId ` set ?xs"
    using that by (auto simp: primariesOf_def filter_empty_conv)
  have app: "primariesOf q (?xs @ ?ns) = primariesOf q ?xs @ primariesOf q ?ns" for q by (simp add: primariesOf_def)
  have "length (primariesOf q (?xs @ ?ns)) = 1" if "q \<in> im_productId ` set (?xs @ ?ns)" for q
  proof (cases "q = p")
    case True
    have "length (primariesOf p ?xs) = (if hasPrimary p s then 1 else 0)"
      using prim none assms(3) by (cases "p \<in> im_productId ` set ?xs") (auto simp: gallery_ok_def)
    then show ?thesis using new(1) True by (simp only: app length_append) simp
  next
    case False
    then have "q \<in> im_productId ` set ?xs" using that new(4) by (simp only: set_append image_Un Un_iff) blast
    then show ?thesis using new(2)[OF False] assms(3) by (simp only: app gallery_ok_def) simp
  qed
  then show ?thesis using d unfolding gallery_ok_def by (intro conjI allI impI)
qed

lemma foldl_order_core:
  "map (\<lambda>i. (im_imageId i, im_productId i, im_isPrimary i)) (productImages (foldl (\<lambda>s (idx, i). update_images (\<lambda>x. im_imageId x = i) (\<lambda>x. x\<lparr>im_sortOrder := int idx\<rparr>) s) s xs)) =
   map (\<lambda>i. (im_imageId i, im_productId i, im_isPrimary i)) (productImages s)"
  by (induction xs arbitrary: s) (auto simp: update_images_def map_update_where)

lemma gallery_step_keeps: "gallery_step s t \<Longrightarrow> gallery_ok (productImages s) \<Longrightarrow> gallery_ok (productImages t)"
proof (induction rule: gallery_step.induct)
  case (uploaded e s ups pid alt)
  have ne: "as \<noteq> []" if "uploadAll ups [] = Inr as" "ups \<noteq> []" for as using uploadAll_ok[OF that(1)] that(2) by auto
  show ?case unfolding uploadGalleryImages_def Let_def
    using upload_keeps[OF uploaded(1,2,3)] ne uploaded(3) by (auto split: sum.splits prod.splits)
next
  case (removed s pid i)
  then show ?case
    by (auto simp: removeGalleryImage_def Let_def deleteFromCloudinary_def removeImage_keeps split: sum.splits option.splits)
next
  case (reordered s pid is')
  have "gallery_ok (productImages (writeOrder is' s))"
    by (rule gallery_core[OF _ reordered]) (simp only: writeOrder_def foldl_order_core)
  then show ?case using reordered by (auto simp: reorderGalleryImages_def Let_def split: sum.splits)
next
  case (chosen s pid i)
  then show ?case by (auto simp: setPrimaryImage_def Let_def makePrimary_keeps split: sum.splits option.splits)
next
  case (described s pid i m)
  have "gallery_ok (productImages (update_images P (\<lambda>i. i\<lparr>im_altText := a i, im_sortOrder := b i\<rparr>) s))" for P a b
    by (rule gallery_core[OF _ described]) (simp add: update_images_def map_update_where)
  then show ?case using described by (auto simp: updateImageMeta_def Let_def split: sum.splits option.splits)
next
  case (shown s vid is')
  then show ?case by (auto simp: setVariantImages_def Let_def attachImages_def split: sum.splits option.splits)
qed

text \<open>C37: However images are uploaded, removed, reordered, described and chosen, a product that has images has
  exactly one primary image.
\<close>

theorem one_primary_image:
  assumes "gallery_step\<^sup>*\<^sup>* s t" "productImages s = []" "galleryOf pid t \<noteq> []"
  shows "\<exists>i. filter im_isPrimary (galleryOf pid t) = [i]"
proof -
  have "gallery_ok (productImages t)" using assms(1)
  proof (induction rule: rtranclp_induct)
    case base then show ?case using assms(2) by (simp add: gallery_ok_def)
  qed (rule gallery_step_keeps)
  moreover have "pid \<in> im_productId ` set (productImages t)" using assms(3) by (auto simp: galleryOf_def filter_empty_conv)
  ultimately have "length (primariesOf pid (productImages t)) = 1" by (simp add: gallery_ok_def)
  moreover have "primariesOf pid (productImages t) = filter im_isPrimary (galleryOf pid t)"
    by (simp add: primariesOf_def galleryOf_def conj_commute)
  ultimately show ?thesis by (cases "filter im_isPrimary (galleryOf pid t)") auto
qed

definition sample_pictures :: db where
  "sample_pictures = snd (uploadGalleryImages
     [Inr \<lparr>ur_url = ''u1'', ur_public_id = ''p1''\<rparr>, Inr \<lparr>ur_url = ''u2'', ur_public_id = ''p2''\<rparr>] sample_uuids ''u'' (\<lambda>_. None) sample_stocked)"

lemma sample_pictures_eval:
  "map im_isPrimary (galleryOf ''u'' sample_pictures) = [True, False]" "productImages sample_stocked = []"
  by code_simp+

theorem one_primary_image_witness:
  "\<exists>i. filter im_isPrimary (galleryOf ''u'' sample_pictures) = [i]"
proof (rule one_primary_image)
  show "gallery_step\<^sup>*\<^sup>* sample_stocked sample_pictures" unfolding sample_pictures_def
    by (rule r_into_rtranclp, rule gallery_step.uploaded) (simp_all add: sample_uuids_inj sample_pictures_eval)
  show "galleryOf ''u'' sample_pictures \<noteq> []" using sample_pictures_eval(1) by auto
qed (rule sample_pictures_eval)

end
