(* ===== verification/Customers.thy ===== *)
theory Customers
  imports Catalog Commission
begin

text \<open>
  Who may see which customer: \<open>src/core/services/customer-management.service.ts\<close>.  A contract has no
  creation date here; contracts are in creation order, so the latest one is the last.  The percentage is
  decimal arithmetic, only its last conversion to a number rounds.
\<close>

section \<open>Scopes\<close>

text \<open>\<open>customer.referredByMarketer?.createdById\<close>\<close>

definition adminOfCustomer :: "user_row \<Rightarrow> db \<Rightarrow> ident option" where
  "adminOfCustomer u s =
     (case u_referredByMarketerId u of None \<Rightarrow> None | Some m \<Rightarrow> Option.bind (find_user m s) u_createdById)"

definition validateCustomerScoping ::
  "ident \<Rightarrow> ident \<Rightarrow> Role \<Rightarrow> ident option \<Rightarrow> db \<Rightarrow> user_row res" where
  "validateCustomerScoping customerId reviewerId reviewerRole reviewerCompanyId s =
     (case find_user customerId s of
        None \<Rightarrow> Inl (NotFoundError ''Customer not found.'')
      | Some u \<Rightarrow>
          (case reviewerRole of
             MARKETER \<Rightarrow>
               if u_referredByMarketerId u \<noteq> Some reviewerId
               then Inl (UnauthorizedError ''Unauthorized: This customer is not within your referral scope.'') else Inr u
           | ADMIN \<Rightarrow>
               if adminOfCustomer u s \<noteq> Some reviewerId
               then Inl (UnauthorizedError ''Unauthorized: This customer's marketer is not assigned to you.'') else Inr u
           | SUPER_ADMIN \<Rightarrow> Inr u
           | COMPANY \<Rightarrow>
               if or_null reviewerCompanyId = None \<or> u_companyId u \<noteq> reviewerCompanyId
               then Inl (UnauthorizedError ''Unauthorized: This customer does not belong to your company.'') else Inr u
           | CUSTOMER \<Rightarrow>
               if customerId \<noteq> reviewerId then Inl (UnauthorizedError ''Unauthorized access.'') else Inr u))"

text \<open>\<open>whereClause\<close> of the list, apart from the search.\<close>

definition customerScope :: "ident \<Rightarrow> Role \<Rightarrow> ident option \<Rightarrow> db \<Rightarrow> (user_row \<Rightarrow> bool) res" where
  "customerScope reviewerId reviewerRole reviewerCompanyId s =
     (case reviewerRole of
        MARKETER \<Rightarrow> Inr (\<lambda>u. u_referredByMarketerId u = Some reviewerId)
      | ADMIN \<Rightarrow> Inr (\<lambda>u. adminOfCustomer u s = Some reviewerId)
      | SUPER_ADMIN \<Rightarrow> Inr (\<lambda>u. True)
      | COMPANY \<Rightarrow>
          if or_null reviewerCompanyId = None then Inl (UnauthorizedError ''Unauthorized: missing company context.'')
          else Inr (\<lambda>u. u_companyId u = reviewerCompanyId)
      | CUSTOMER \<Rightarrow> Inl (UnauthorizedError ''Unauthorized role.''))"

record customer_query =
  uq_page :: int
  uq_limit :: int
  uq_search :: "string option"

definition matchesCustomerSearch :: "string option \<Rightarrow> user_row \<Rightarrow> bool" where
  "matchesCustomerSearch search u =
     (case or_null search of
        None \<Rightarrow> True
      | Some t \<Rightarrow> containsInsensitive t (u_name u) \<or> containsInsensitive t (Some (u_email u)))"

record customer_listing =
  cl_user :: user_row
  cl_referredByMarketer :: "user_row option"

definition listCustomers ::
  "ident \<Rightarrow> Role \<Rightarrow> customer_query \<Rightarrow> ident option \<Rightarrow> db \<Rightarrow> (customer_listing list \<times> int \<times> int) res" where
  "listCustomers reviewerId reviewerRole q reviewerCompanyId s =
     (case customerScope reviewerId reviewerRole reviewerCompanyId s of
        Inl err \<Rightarrow> Inl err
      | Inr scope \<Rightarrow>
          let found = filter (\<lambda>u. u_role u = CUSTOMER \<and> matchesCustomerSearch (uq_search q) u \<and> scope u) (users s)
          in Inr (map (\<lambda>u. \<lparr>cl_user = u, cl_referredByMarketer = Option.bind (u_referredByMarketerId u) (\<lambda>m. find_user m s)\<rparr>)
                 (pageOf (uq_page q) (uq_limit q) (orderByTime True u_createdAt found)),
               int (length found), ceilPages (int (length found)) (uq_limit q)))"

section \<open>Progress\<close>

definition installmentsOf :: "ident \<Rightarrow> db \<Rightarrow> installment_row list" where
  "installmentsOf cid s = filter (\<lambda>i. in_financingContractId i = cid) (installments s)"

record progress =
  pg_percentagePaid :: rat
  pg_totalFinanced :: decimal
  pg_totalPaid :: decimal

definition calculateProgressPercentage :: "ident \<Rightarrow> db \<Rightarrow> progress res" where
  "calculateProgressPercentage cid s =
     (case find_contract cid s of
        None \<Rightarrow> Inl (NotFoundError ''Financing contract not found'')
      | Some f \<Rightarrow>
          let totalPaid = foldl (\<lambda>acc i. if in_status i = InstallmentStatus.PAID then acc + in_amount i else acc) 0 (installmentsOf cid s)
          in Inr \<lparr>pg_percentagePaid = (if fc_totalFinanced f = 0 then 0
                    else jsFixed2 (totalPaid / fc_totalFinanced f * 100)),
               pg_totalFinanced = fc_totalFinanced f, pg_totalPaid = totalPaid\<rparr>)"

record financed_product =
  fp_product :: "product_row option"
  fp_images :: "string list"
  fp_progress :: progress

text \<open>\<open>Promise.all\<close> over the contracts: the first one without a result fails the request.\<close>

fun progressEach :: "contract_row list \<Rightarrow> db \<Rightarrow> (contract_row \<times> progress) list res" where
  "progressEach [] s = Inr []"
| "progressEach (f # fs) s =
     (case calculateProgressPercentage (fc_contractId f) s of
        Inl err \<Rightarrow> Inl err
      | Inr p \<Rightarrow> (case progressEach fs s of Inl err \<Rightarrow> Inl err | Inr ps \<Rightarrow> Inr ((f, p) # ps)))"

definition productOfApplication :: "contract_row \<Rightarrow> db \<Rightarrow> product_row option" where
  "productOfApplication f s =
     Option.bind (find (\<lambda>a. ka_kycApplicationId a = fc_kycApplicationId f) (kycApplications s)) (\<lambda>a. find_product (ka_productId a) s)"

definition getCustomerProducts ::
  "ident \<Rightarrow> ident \<Rightarrow> Role \<Rightarrow> ident option \<Rightarrow> db \<Rightarrow> financed_product list res" where
  "getCustomerProducts customerId reviewerId reviewerRole reviewerCompanyId s =
     (case validateCustomerScoping customerId reviewerId reviewerRole reviewerCompanyId s of
        Inl err \<Rightarrow> Inl err
      | Inr _ \<Rightarrow>
         (case progressEach (filter (\<lambda>f. fc_userId f = Some customerId) (contracts s)) s of
            Inl err \<Rightarrow> Inl err
          | Inr ps \<Rightarrow> Inr (map (\<lambda>(f, p).
              let product = productOfApplication f s
              in \<lparr>fp_product = product,
                  fp_images = map im_imageUrl (case product of None \<Rightarrow> []
                    | Some q \<Rightarrow> filter (\<lambda>i. im_productId i = pr_productId q) (productImages s)),
                  fp_progress = p\<rparr>) ps)))"

record schedule_view =
  sv_progress :: progress
  sv_schedule :: "(installment_row \<times> payment_row list) list"

definition getInstallmentSchedule ::
  "ident \<Rightarrow> ident \<Rightarrow> ident \<Rightarrow> Role \<Rightarrow> ident option \<Rightarrow> db \<Rightarrow> schedule_view res" where
  "getInstallmentSchedule customerId productId reviewerId reviewerRole reviewerCompanyId s =
     (case validateCustomerScoping customerId reviewerId reviewerRole reviewerCompanyId s of
        Inl err \<Rightarrow> Inl err
      | Inr _ \<Rightarrow>
         (case find (\<lambda>f. fc_userId f = Some customerId \<and> fc_productId f = productId \<and>
              fc_status f \<in> {FinancingStatus.ACTIVE, PENDING_ACTIVATION}) (rev (contracts s)) of
            None \<Rightarrow> Inl (NotFoundError ''Financing contract not found'')
          | Some f \<Rightarrow>
             (case calculateProgressPercentage (fc_contractId f) s of
                Inl err \<Rightarrow> Inl err
              | Inr p \<Rightarrow> Inr \<lparr>sv_progress = p,
                  sv_schedule = map (\<lambda>i. (i, filter (\<lambda>m. pm_installmentId m = in_installmentId i) (payments s)))
                    (sort_key in_dueDate (installmentsOf (fc_contractId f) s))\<rparr>)))"

definition contractOfPayment :: "payment_row \<Rightarrow> db \<Rightarrow> contract_row option" where
  "contractOfPayment m s =
     Option.bind (find_installment (pm_installmentId m) s) (\<lambda>i. find_contract (in_financingContractId i) s)"

record payment_view =
  pw_payment :: payment_row
  pw_product :: "product_row option"
  pw_installment :: "installment_row option"

definition getCustomerPaymentHistory ::
  "ident \<Rightarrow> ident \<Rightarrow> Role \<Rightarrow> ident option \<Rightarrow> db \<Rightarrow> payment_view list res" where
  "getCustomerPaymentHistory customerId reviewerId reviewerRole reviewerCompanyId s =
     (case validateCustomerScoping customerId reviewerId reviewerRole reviewerCompanyId s of
        Inl err \<Rightarrow> Inl err
      | Inr _ \<Rightarrow> Inr (map (\<lambda>m. \<lparr>pw_payment = m,
            pw_product = Option.bind (contractOfPayment m s) (\<lambda>f. find_product (fc_productId f) s),
            pw_installment = find_installment (pm_installmentId m) s\<rparr>)
          (orderByTime True pm_createdAt
            (filter (\<lambda>m. Option.bind (contractOfPayment m s) fc_userId = Some customerId) (payments s)))))"

section \<open>The hierarchy\<close>

type_synonym hierarchy = "(user_row \<times> (user_row \<times> user_row list) list) list"

definition getCorporateHierarchy :: "Role \<Rightarrow> ident option \<Rightarrow> db \<Rightarrow> hierarchy res" where
  "getCorporateHierarchy reviewerRole reviewerCompanyId s =
     (if reviewerRole \<noteq> COMPANY \<and> reviewerRole \<noteq> SUPER_ADMIN
      then Inl (UnauthorizedError ''Corporate hierarchy view is restricted to Company accounts.'')
      else if reviewerRole = COMPANY \<and> or_null reviewerCompanyId = None
      then Inl (UnauthorizedError ''Unauthorized: missing company context.'')
      else Inr (map (\<lambda>a. (a, map (\<lambda>m. (m, filter (\<lambda>c. u_referredByMarketerId c = Some (u_userId m) \<and> u_role c = CUSTOMER) (users s)))
               (filter (\<lambda>m. u_createdById m = Some (u_userId a) \<and> u_role m = MARKETER) (users s))))
          (filter (\<lambda>a. u_role a = ADMIN \<and> (reviewerRole = COMPANY \<longrightarrow> u_companyId a = reviewerCompanyId)) (users s))))"

section \<open>The list and the details agree\<close>

lemma in_some_page:
  assumes "0 < limit"
  shows "(\<exists>page. x \<in> set (pageOf page limit xs)) \<longleftrightarrow> x \<in> set xs"
proof
  assume "\<exists>page. x \<in> set (pageOf page limit xs)"
  then show "x \<in> set xs" by (auto simp: pageOf_def dest!: in_set_takeD in_set_dropD)
next
  assume "x \<in> set xs"
  then have "x \<in> set (concat (map (\<lambda>p. pageOf p limit xs) [1..pg_totalPages (paginationOf 1 limit (int (length xs)))]))"
    using pages_cover_the_list[OF assms, of xs 1] by simp
  then show "\<exists>page. x \<in> set (pageOf page limit xs)" by auto
qed

lemma scope_is_validation:
  assumes "find_user (u_userId u) s = Some u" "role \<noteq> CUSTOMER"
  shows "(case customerScope r role c s of Inl err \<Rightarrow> False | Inr scope \<Rightarrow> scope u) \<longleftrightarrow>
    ok (validateCustomerScoping (u_userId u) r role c s)"
  using assms by (cases role) (auto simp: customerScope_def validateCustomerScoping_def)

text \<open>Of an existing customer, a scope can only fail as unauthorized.\<close>

lemma scoping_refusal:
  assumes "find_user i s = Some u"
  shows "validateCustomerScoping i r role c s = Inr u \<or> (\<exists>m. validateCustomerScoping i r role c s = Inl (UnauthorizedError m))"
  using assms by (cases role) (simp_all add: validateCustomerScoping_def)

text \<open>The progress of a stored contract exists, so a list of stored contracts never fails the request.\<close>

lemma progress_of_stored: "f \<in> set (contracts s) \<Longrightarrow> ok (calculateProgressPercentage (fc_contractId f) s)"
  by (cases "find_contract (fc_contractId f) s")
    (auto simp: calculateProgressPercentage_def find_contract_def find_None_iff Let_def)

lemma progressEach_of_stored: "set fs \<subseteq> set (contracts s) \<Longrightarrow> ok (progressEach fs s)"
proof (induction fs)
  case (Cons f fs)
  then obtain p ps where "calculateProgressPercentage (fc_contractId f) s = Inr p" "progressEach fs s = Inr ps"
    using progress_of_stored[of f s] by (auto elim!: ok_E)
  then show ?case by simp
qed simp

text \<open>What each read answers, by the outcome of the scope check.\<close>

definition openContract :: "ident \<Rightarrow> ident \<Rightarrow> contract_row \<Rightarrow> bool" where
  "openContract customerId productId f \<longleftrightarrow> fc_userId f = Some customerId \<and> fc_productId f = productId \<and>
     fc_status f \<in> {FinancingStatus.ACTIVE, PENDING_ACTIVATION}"

lemma reads_admitted:
  assumes "validateCustomerScoping i r role c s = Inr u"
  shows "ok (getCustomerProducts i r role c s)" "ok (getCustomerPaymentHistory i r role c s)"
    "ok (getInstallmentSchedule i p r role c s) \<longleftrightarrow> (\<exists>f \<in> set (contracts s). openContract i p f)"
proof -
  have "ok (progressEach (filter (\<lambda>f. fc_userId f = Some i) (contracts s)) s)"
    by (rule progressEach_of_stored) auto
  then show "ok (getCustomerProducts i r role c s)" by (rule ok_E) (simp add: getCustomerProducts_def assms)
  show "ok (getCustomerPaymentHistory i r role c s)" by (simp add: getCustomerPaymentHistory_def assms)
  have o: "(\<lambda>f. fc_userId f = Some i \<and> fc_productId f = p \<and> fc_status f \<in> {FinancingStatus.ACTIVE, PENDING_ACTIVATION}) = openContract i p"
    by (simp add: openContract_def[abs_def])
  note d = getInstallmentSchedule_def[of i p r role c s, unfolded o assms sum.case]
  show "ok (getInstallmentSchedule i p r role c s) \<longleftrightarrow> (\<exists>f \<in> set (contracts s). openContract i p f)"
  proof (cases "find (openContract i p) (rev (contracts s))")
    case None
    then have "\<not> (\<exists>f \<in> set (contracts s). openContract i p f)" by (simp add: find_None_iff)
    then show ?thesis unfolding d None by simp
  next
    case (Some f)
    then have f: "f \<in> set (contracts s)" "openContract i p f" by (auto dest: find_set)
    obtain g where "calculateProgressPercentage (fc_contractId f) s = Inr g" using progress_of_stored[OF f(1)] by (rule ok_E)
    then show ?thesis unfolding d using Some f by auto
  qed
qed

lemma reads_refused:
  assumes "validateCustomerScoping i r role c s = Inl err"
  shows "getCustomerProducts i r role c s = Inl err" "getCustomerPaymentHistory i r role c s = Inl err"
    "getInstallmentSchedule i p r role c s = Inl err"
  by (simp_all add: getCustomerProducts_def getCustomerPaymentHistory_def getInstallmentSchedule_def assms)

lemma listed_iff_valid:
  assumes "distinct (map u_userId (users s))" "u \<in> set (users s)" "u_role u = CUSTOMER" "role \<noteq> CUSTOMER" "0 < limit"
  shows "(\<exists>page. case listCustomers r role \<lparr>uq_page = page, uq_limit = limit, uq_search = None\<rparr> c s of
      Inl err \<Rightarrow> False | Inr (ls, _) \<Rightarrow> u \<in> cl_user ` set ls) \<longleftrightarrow> ok (validateCustomerScoping (u_userId u) r role c s)"
proof (cases "customerScope r role c s")
  case (Inl err)
  have f: "find_user (u_userId u) s = Some u" unfolding find_user_def by (rule find_unique_key[OF assms(1,2)])
  show ?thesis using scope_is_validation[OF f assms(4), of r c] Inl by (simp add: listCustomers_def)
next
  case (Inr scope)
  let ?found = "orderByTime True u_createdAt (filter (\<lambda>u. u_role u = CUSTOMER \<and> matchesCustomerSearch None u \<and> scope u) (users s))"
  have f: "find_user (u_userId u) s = Some u" unfolding find_user_def by (rule find_unique_key[OF assms(1,2)])
  have "(\<exists>page. case listCustomers r role \<lparr>uq_page = page, uq_limit = limit, uq_search = None\<rparr> c s of
      Inl err \<Rightarrow> False | Inr (ls, _) \<Rightarrow> u \<in> cl_user ` set ls) \<longleftrightarrow> (\<exists>page. u \<in> set (pageOf page limit ?found))"
    using Inr by (simp add: listCustomers_def Let_def image_image)
  also have "\<dots> \<longleftrightarrow> scope u"
    unfolding in_some_page[OF assms(5)] using assms(2,3) by (simp add: matchesCustomerSearch_def or_null_def)
  finally show ?thesis using scope_is_validation[OF f assms(4), of r c] Inr by simp
qed

text \<open>C39: A marketer, an admin, a company account and the platform find a customer on some page of their list exactly
  when they may read the customer's products and payments, and the schedule of every product the customer has
  an active or pending contract for; when they do not find the customer, all three requests end as
  unauthorized.
\<close>

theorem listed_customers_are_the_visible_ones:
  fixes r :: ident and c :: "ident option"
  assumes "distinct (map u_userId (users s))" "u \<in> set (users s)" "u_role u = CUSTOMER" "role \<noteq> CUSTOMER" "0 < limit"
  defines "listed \<equiv> (\<exists>page. case listCustomers r role \<lparr>uq_page = page, uq_limit = limit, uq_search = None\<rparr> c s of
      Inl err \<Rightarrow> False | Inr (ls, _) \<Rightarrow> u \<in> cl_user ` set ls)"
  shows "(listed \<longleftrightarrow> ok (validateCustomerScoping (u_userId u) r role c s)) \<and>
    (listed \<longleftrightarrow> ok (getCustomerProducts (u_userId u) r role c s)) \<and>
    (listed \<longleftrightarrow> ok (getCustomerPaymentHistory (u_userId u) r role c s)) \<and>
    (\<forall>p. ok (getInstallmentSchedule (u_userId u) p r role c s) \<longleftrightarrow>
       listed \<and> (\<exists>f \<in> set (contracts s). fc_userId f = Some (u_userId u) \<and> fc_productId f = p \<and>
         fc_status f \<in> {FinancingStatus.ACTIVE, PENDING_ACTIVATION})) \<and>
    (\<not> listed \<longrightarrow> (\<exists>m. getCustomerProducts (u_userId u) r role c s = Inl (UnauthorizedError m) \<and>
       getCustomerPaymentHistory (u_userId u) r role c s = Inl (UnauthorizedError m) \<and>
       (\<forall>p. getInstallmentSchedule (u_userId u) p r role c s = Inl (UnauthorizedError m))))"
proof -
  have l: "listed \<longleftrightarrow> ok (validateCustomerScoping (u_userId u) r role c s)"
    unfolding listed_def by (rule listed_iff_valid[OF assms(1-5)])
  have "find_user (u_userId u) s = Some u" unfolding find_user_def by (rule find_unique_key[OF assms(1,2)])
  from scoping_refusal[OF this, of r role c] show ?thesis
  proof (elim disjE exE)
    assume v: "validateCustomerScoping (u_userId u) r role c s = Inr u"
    show ?thesis using reads_admitted[OF v] l v by (simp add: openContract_def)
  next
    fix m assume v: "validateCustomerScoping (u_userId u) r role c s = Inl (UnauthorizedError m)"
    show ?thesis using reads_refused[OF v] l v by simp
  qed
qed

definition sample_person :: "ident \<Rightarrow> Role \<Rightarrow> ident option \<Rightarrow> ident option \<Rightarrow> user_row" where
  "sample_person i role creator marketer = \<lparr>u_userId = i, u_email = i, u_name = None, u_role = role, u_companyId = None,
     u_createdById = creator, u_referredByMarketerId = marketer, u_referralCode = None, u_password = [], u_active = True,
     u_forcePasswordChange = False, u_deletedAt = None, u_createdAt = 0\<rparr>"

definition sample_sales :: db where
  "sample_sales = empty_db\<lparr>users := [sample_person ''a'' ADMIN None None, sample_person ''b'' ADMIN None None,
     sample_person ''m'' MARKETER (Some ''a'') None, sample_person ''c'' CUSTOMER None (Some ''m'')]\<rparr>"

text \<open>The admin of the marketer reads the payments of the customer, the other admin does not.\<close>

theorem listed_customers_are_the_visible_ones_witness:
  "ok (getCustomerPaymentHistory ''c'' ''a'' ADMIN None sample_sales) \<and>
   (\<exists>page. case listCustomers ''a'' ADMIN \<lparr>uq_page = page, uq_limit = 10, uq_search = None\<rparr> None sample_sales of
      Inl err \<Rightarrow> False | Inr (ls, _) \<Rightarrow> sample_person ''c'' CUSTOMER None (Some ''m'') \<in> cl_user ` set ls) \<and>
   \<not> ok (getCustomerPaymentHistory ''c'' ''b'' ADMIN None sample_sales)"
proof -
  let ?c = "sample_person ''c'' CUSTOMER None (Some ''m'')"
  have h: "distinct (map u_userId (users sample_sales))" "?c \<in> set (users sample_sales)" "u_role ?c = CUSTOMER"
    by (simp_all add: sample_sales_def empty_db_def sample_person_def)
  have v: "ok (validateCustomerScoping ''c'' ''a'' ADMIN None sample_sales)" "\<not> ok (validateCustomerScoping ''c'' ''b'' ADMIN None sample_sales)"
    by (simp_all add: validateCustomerScoping_def adminOfCustomer_def find_user_def sample_sales_def empty_db_def sample_person_def)
  have i: "u_userId ?c = ''c''" by (simp add: sample_person_def)
  have p: "ADMIN \<noteq> CUSTOMER" "0 < (10 :: int)" by simp_all
  note t = listed_customers_are_the_visible_ones[OF h p, where c = None, unfolded i]
  note a = t[where r = "''a''"] and b = t[where r = "''b''"]
  show ?thesis using conjunct1[OF a] conjunct1[OF b] conjunct1[OF conjunct2[OF conjunct2[OF a]]]
    conjunct1[OF conjunct2[OF conjunct2[OF b]]] v by blast
qed

end
