(* ===== verification/Analytics.thy ===== *)
theory Analytics
  imports Customers
begin

text \<open>
  The dashboards: \<open>src/core/services/analytics.service.ts\<close>.  The database adds decimals exactly,
  \<open>toNumber\<close> rounds to binary64 and the arithmetic after it is binary64.  The counts of unread
  notifications, which live in a table of their own, are left out; rows without a creation date here are in
  creation order.
\<close>

section \<open>Numbers\<close>

definition sumNumber :: "decimal list \<Rightarrow> rat" where
  "sumNumber xs = fl (sum_list xs)"

definition sumField :: "decimal list \<Rightarrow> rat" where
  "sumField xs = foldl (\<lambda>acc x. fl (acc + fl x)) 0 xs"

text \<open>\<open>Number(((a / b) * 100).toFixed(2))\<close>, 0 when there is nothing to divide by.\<close>

definition percentOf :: "rat \<Rightarrow> rat \<Rightarrow> rat" where
  "percentOf a b = (if 0 < b then jsFixed2 (jsMul (jsDiv a b) 100) else 0)"

section \<open>Joins\<close>

definition companyOfContract :: "contract_row \<Rightarrow> db \<Rightarrow> ident option" where
  "companyOfContract f s = Option.bind (find_product (fc_productId f) s) pr_companyId"

definition contractsOfCompany :: "ident \<Rightarrow> db \<Rightarrow> contract_row list" where
  "contractsOfCompany c s = filter (\<lambda>f. companyOfContract f s = Some c) (contracts s)"

definition installmentsOfCompany :: "ident \<Rightarrow> db \<Rightarrow> installment_row list" where
  "installmentsOfCompany c s =
     filter (\<lambda>i. Option.bind (find_contract (in_financingContractId i) s) (\<lambda>f. companyOfContract f s) = Some c) (installments s)"

definition installmentsOfCustomer :: "ident \<Rightarrow> db \<Rightarrow> installment_row list" where
  "installmentsOfCustomer c s =
     filter (\<lambda>i. Option.bind (find_contract (in_financingContractId i) s) fc_userId = Some c) (installments s)"

definition amountsIn :: "InstallmentStatus set \<Rightarrow> installment_row list \<Rightarrow> decimal list" where
  "amountsIn sts is' = map in_amount (filter (\<lambda>i. in_status i \<in> sts) is')"

definition sessionOf :: "kyc_row \<Rightarrow> db \<Rightarrow> session_row option" where
  "sessionOf a s = Option.bind (ka_onboardingSessionId a) (\<lambda>i. find (\<lambda>x. os_sessionId x = i) (sessions s))"

definition sessionMarketer :: "kyc_row \<Rightarrow> db \<Rightarrow> user_row option" where
  "sessionMarketer a s = Option.bind (Option.bind (sessionOf a s) os_marketerId) (\<lambda>m. find_user m s)"

definition customerOfContract :: "contract_row \<Rightarrow> db \<Rightarrow> user_row option" where
  "customerOfContract f s = Option.bind (fc_userId f) (\<lambda>u. find_user u s)"

definition countContracts :: "FinancingStatus set \<Rightarrow> contract_row list \<Rightarrow> nat" where
  "countContracts sts fs = count_where (\<lambda>f. fc_status f \<in> sts) fs"

definition financedIn :: "FinancingStatus set \<Rightarrow> contract_row list \<Rightarrow> decimal list" where
  "financedIn sts fs = map fc_totalFinanced (filter (\<lambda>f. fc_status f \<in> sts) fs)"

definition runningStatuses :: "FinancingStatus set" where
  "runningStatuses = {FinancingStatus.ACTIVE, PENDING_ACTIVATION, RESTRUCTURED}"

section \<open>The company\<close>

record recent_contract =
  rc_contract :: contract_row
  rc_customer :: "user_row option"
  rc_product :: "product_row option"
  rc_totalFinanced :: rat
  rc_paidAmount :: rat

record company_overview =
  cov_totalFinanced :: rat
  cov_totalPaid :: rat
  cov_outstandingBalance :: rat
  cov_collectionRate :: rat
  cov_active :: nat
  cov_defaulted :: nat
  cov_pendingApprovals :: nat
  cov_pipeline :: "(CommissionPayoutStatus \<times> rat) list"
  cov_pendingAdmin :: rat
  cov_pendingCompany :: rat
  cov_approved :: rat
  cov_transferInitiated :: rat
  cov_paid :: rat
  cov_failed :: rat
  cov_subscription :: "subscription_row option"
  cov_recentContracts :: "recent_contract list"

definition payoutPipeline :: "ident \<Rightarrow> db \<Rightarrow> (CommissionPayoutStatus \<times> rat) list" where
  "payoutPipeline c s =
     (let ps = filter (\<lambda>p. po_companyId p = c) (payouts s)
      in map (\<lambda>st. (st, sumNumber (map po_amount (filter (\<lambda>p. po_status p = st) ps)))) (remdups (map po_status ps)))"

definition payoutValue :: "(CommissionPayoutStatus \<times> rat) list \<Rightarrow> CommissionPayoutStatus \<Rightarrow> rat" where
  "payoutValue pipeline st = (case map_of pipeline st of None \<Rightarrow> 0 | Some v \<Rightarrow> v)"

definition activeSubscription :: "ident \<Rightarrow> db \<Rightarrow> subscription_row option" where
  "activeSubscription c s =
     (case orderByTime True su_createdAt (filter (\<lambda>x. su_companyId x = c \<and> su_status x = SubscriptionStatus.ACTIVE) (subscriptions s)) of
        [] \<Rightarrow> None | x # _ \<Rightarrow> Some x)"

definition recentContract :: "db \<Rightarrow> contract_row \<Rightarrow> recent_contract" where
  "recentContract s f = \<lparr>rc_contract = f, rc_customer = customerOfContract f s, rc_product = find_product (fc_productId f) s,
     rc_totalFinanced = fl (fc_totalFinanced f),
     rc_paidAmount = sumField (amountsIn {InstallmentStatus.PAID} (installmentsOf (fc_contractId f) s))\<rparr>"

definition getCompanyOverview :: "ident \<Rightarrow> db \<Rightarrow> company_overview" where
  "getCompanyOverview c s =
     (let fs = contractsOfCompany c s;
          totalFinanced = sumNumber (financedIn runningStatuses fs);
          totalPaid = sumNumber (amountsIn {InstallmentStatus.PAID} (installmentsOfCompany c s));
          pipeline = payoutPipeline c s
      in \<lparr>cov_totalFinanced = totalFinanced, cov_totalPaid = totalPaid, cov_outstandingBalance = fl (totalFinanced - totalPaid),
          cov_collectionRate = percentOf totalPaid totalFinanced,
          cov_active = countContracts {FinancingStatus.ACTIVE} fs,
          cov_defaulted = countContracts {FinancingStatus.DEFAULTED, WRITTEN_OFF} fs,
          cov_pendingApprovals = count_where (\<lambda>a. ka_status a = APPROVAL_PROCESSING \<and>
            Option.bind (sessionOf a s) os_companyId = Some c) (kycApplications s),
          cov_pipeline = pipeline, cov_pendingAdmin = payoutValue pipeline PENDING_ADMIN_APPROVAL,
          cov_pendingCompany = payoutValue pipeline PENDING_COMPANY_APPROVAL,
          cov_approved = payoutValue pipeline CommissionPayoutStatus.APPROVED,
          cov_transferInitiated = payoutValue pipeline CommissionPayoutStatus.TRANSFER_INITIATED,
          cov_paid = payoutValue pipeline CommissionPayoutStatus.PAID,
          cov_failed = fl (payoutValue pipeline CommissionPayoutStatus.TRANSFER_FAILED + payoutValue pipeline CommissionPayoutStatus.TRANSFER_REVERSED),
          cov_subscription = (if find (\<lambda>x. co_companyId x = c) (companies s) = None then None else activeSubscription c s),
          cov_recentContracts = map (recentContract s) (take 10 (rev fs))\<rparr>)"

section \<open>The admin\<close>

definition createdBy :: "ident \<Rightarrow> user_row option \<Rightarrow> bool" where
  "createdBy a m = (Option.bind m u_createdById = Some a)"

definition referredBy :: "user_row \<Rightarrow> db \<Rightarrow> user_row option" where
  "referredBy u s = Option.bind (u_referredByMarketerId u) (\<lambda>m. find_user m s)"

record admin_overview =
  aov_marketers :: nat
  aov_totalReferrals :: nat
  aov_pendingApprovals :: nat
  aov_recentApplications :: "(kyc_row \<times> product_row option \<times> user_row option) list"
  aov_totalRevenue :: rat
  aov_pendingRequests :: nat

definition getAdminOverview :: "ident \<Rightarrow> db \<Rightarrow> admin_overview" where
  "getAdminOverview a s =
     (let apps = filter (\<lambda>k. ka_status k = APPROVAL_PROCESSING \<and> createdBy a (sessionMarketer k s)) (kycApplications s)
      in \<lparr>aov_marketers = count_where (\<lambda>u. u_role u = MARKETER \<and> u_createdById u = Some a \<and> u_active u) (users s),
          aov_totalReferrals = count_where (\<lambda>u. u_role u = CUSTOMER \<and> createdBy a (referredBy u s)) (users s),
          aov_pendingApprovals = length apps,
          aov_recentApplications = map (\<lambda>k. (k, find_product (ka_productId k) s, sessionMarketer k s))
            (take 10 (orderByTime True ka_createdAt apps)),
          aov_totalRevenue = sumNumber (financedIn {FinancingStatus.ACTIVE}
            (filter (\<lambda>f. createdBy a (Option.bind (customerOfContract f s) (\<lambda>u. referredBy u s))) (contracts s))),
          aov_pendingRequests = count_where (\<lambda>r. ar_targetUserId r = a \<and> ar_status r = ApprovalStatus.PENDING) (approvalRequests s)\<rparr>)"

section \<open>The marketer\<close>

definition contractOfCommission :: "commission_row \<Rightarrow> db \<Rightarrow> contract_row option" where
  "contractOfCommission c s =
     Option.bind (Option.bind (cm_paymentId c) (\<lambda>p. find (\<lambda>m. pm_paymentId m = p) (payments s))) (\<lambda>m. contractOfPayment m s)"

text \<open>A JavaScript \<open>Map\<close> keeps the order of insertion; the first entry of a key fixes its name.\<close>

fun addTotal :: "ident \<Rightarrow> 'a \<Rightarrow> decimal \<Rightarrow> (ident \<times> 'a \<times> rat) list \<Rightarrow> (ident \<times> 'a \<times> rat) list" where
  "addTotal k info x [] = [(k, info, fl (0 + fl x))]"
| "addTotal k info x ((k', i', t) # m) =
     (if k = k' then (k', i', fl (t + fl x)) # m else (k', i', t) # addTotal k info x m)"

definition totalsBy :: "(commission_row \<Rightarrow> (ident \<times> 'a) option) \<Rightarrow> commission_row list \<Rightarrow> (ident \<times> 'a \<times> rat) list" where
  "totalsBy key cs = foldl (\<lambda>m c. case key c of None \<Rightarrow> m | Some (k, info) \<Rightarrow> addTotal k info (cm_amount c) m) [] cs"

record marketer_overview =
  mov_total :: rat
  mov_available :: rat
  mov_pendingPayout :: rat
  mov_paidPayout :: rat
  mov_activeReferrals :: nat
  mov_pendingApplications :: nat
  mov_approvedContracts :: nat
  mov_byProduct :: "(ident \<times> string \<times> rat) list"
  mov_byCustomer :: "(ident \<times> (string \<times> string) \<times> rat) list"

definition payoutsIn :: "CommissionPayoutStatus set \<Rightarrow> ident \<Rightarrow> db \<Rightarrow> decimal list" where
  "payoutsIn sts m s = map po_amount (filter (\<lambda>p. po_userId p = m \<and> po_status p \<in> sts) (payouts s))"

definition openCommissions :: "ident \<Rightarrow> db \<Rightarrow> commission_row list" where
  "openCommissions m s = filter (\<lambda>c. cm_userId c = m \<and> cm_status c \<notin> {CommissionStatus.PAID, FROZEN}) (commissions s)"

definition getMarketerOverview :: "ident \<Rightarrow> db \<Rightarrow> marketer_overview" where
  "getMarketerOverview m s =
     (let mine = filter (\<lambda>c. cm_userId c = m) (commissions s); open' = openCommissions m s
      in \<lparr>mov_total = sumNumber (map cm_amount mine),
          mov_available = fl (sumNumber (map cm_amount open') - sumNumber (map cm_reservedAmount open')),
          mov_pendingPayout = sumNumber (payoutsIn {PENDING_ADMIN_APPROVAL, PENDING_COMPANY_APPROVAL,
            CommissionPayoutStatus.APPROVED, CommissionPayoutStatus.TRANSFER_INITIATED} m s),
          mov_paidPayout = sumNumber (payoutsIn {CommissionPayoutStatus.PAID} m s),
          mov_activeReferrals = count_where (\<lambda>u. u_role u = CUSTOMER \<and> u_referredByMarketerId u = Some m) (users s),
          mov_pendingApplications = count_where (\<lambda>k. ka_status k \<in> {KycApplicationStatus.PENDING, APPROVAL_PROCESSING} \<and>
            Option.bind (sessionOf k s) os_marketerId = Some m) (kycApplications s),
          mov_approvedContracts = count_where (\<lambda>f. fc_status f = FinancingStatus.ACTIVE \<and>
            Option.bind (customerOfContract f s) u_referredByMarketerId = Some m) (contracts s),
          mov_byProduct = totalsBy (\<lambda>c. map_option (\<lambda>p. (pr_productId p, pr_name p))
            (Option.bind (contractOfCommission c s) (\<lambda>f. find_product (fc_productId f) s))) mine,
          mov_byCustomer = totalsBy (\<lambda>c. map_option (\<lambda>u. (u_userId u, (case u_name u of None \<Rightarrow> [] | Some n \<Rightarrow> n), u_email u))
            (Option.bind (contractOfCommission c s) (\<lambda>f. customerOfContract f s))) mine\<rparr>)"

section \<open>The customer\<close>

record customer_overview =
  kov_activeContracts :: nat
  kov_totalFinanced :: rat
  kov_totalPaid :: rat
  kov_remainingBalance :: rat
  kov_overallProgress :: rat
  kov_overdueAmount :: rat
  kov_nextPayment :: "(ident \<times> rat \<times> time \<times> product_row option) option"
  kov_contracts :: "(ident \<times> product_row option \<times> rat \<times> rat \<times> FinancingStatus) list"
  kov_referredBy :: "user_row option"

definition nextInstallment :: "ident \<Rightarrow> db \<Rightarrow> installment_row option" where
  "nextInstallment c s =
     (case sort_key in_dueDate (filter (\<lambda>i. in_status i \<in> {InstallmentStatus.PENDING, InstallmentStatus.DUE}) (installmentsOfCustomer c s)) of
        [] \<Rightarrow> None | i # _ \<Rightarrow> Some i)"

definition getCustomerOverview :: "ident \<Rightarrow> db \<Rightarrow> customer_overview" where
  "getCustomerOverview c s =
     (let fs = filter (\<lambda>f. fc_userId f = Some c \<and> fc_status f \<in> runningStatuses) (contracts s);
          is' = installmentsOfCustomer c s;
          totalFinanced = sumNumber (map fc_totalFinanced fs);
          totalPaid = sumNumber (amountsIn {InstallmentStatus.PAID} is')
      in \<lparr>kov_activeContracts = length fs, kov_totalFinanced = totalFinanced, kov_totalPaid = totalPaid,
          kov_remainingBalance = fl (totalFinanced - totalPaid), kov_overallProgress = percentOf totalPaid totalFinanced,
          kov_overdueAmount = sumNumber (amountsIn {OVERDUE, InstallmentStatus.DEFAULTED} is'),
          kov_nextPayment = map_option (\<lambda>i. (in_installmentId i, fl (in_amount i), in_dueDate i,
            Option.bind (find_contract (in_financingContractId i) s) (\<lambda>f. productOfApplication f s))) (nextInstallment c s),
          kov_contracts = map (\<lambda>f. (fc_contractId f, productOfApplication f s, fl (fc_totalFinanced f),
            sumField (amountsIn {InstallmentStatus.PAID} (installmentsOf (fc_contractId f) s)), fc_status f)) fs,
          kov_referredBy = Option.bind (find_user c s) (\<lambda>u. referredBy u s)\<rparr>)"

section \<open>Shared statistics\<close>

record stats_scope =
  sc_companyId :: "ident option"
  sc_adminId :: "ident option"
  sc_marketerId :: "ident option"
  sc_customerId :: "ident option"

definition contractsInScope :: "stats_scope \<Rightarrow> db \<Rightarrow> contract_row list" where
  "contractsInScope x s =
     filter (\<lambda>f. case or_null (sc_companyId x) of
         Some c \<Rightarrow> companyOfContract f s = Some c
       | None \<Rightarrow> (case or_null (sc_adminId x) of
         Some a \<Rightarrow> createdBy a (Option.bind (customerOfContract f s) (\<lambda>u. referredBy u s))
       | None \<Rightarrow> (case or_null (sc_marketerId x) of
         Some m \<Rightarrow> Option.bind (customerOfContract f s) u_referredByMarketerId = Some m
       | None \<Rightarrow> (case or_null (sc_customerId x) of
         Some c \<Rightarrow> fc_userId f = Some c
       | None \<Rightarrow> True)))) (contracts s)"

record financing_stats =
  fs_totalContracts :: nat
  fs_activeContracts :: nat
  fs_completedContracts :: nat
  fs_defaultedContracts :: nat
  fs_writtenOffContracts :: nat
  fs_totalValue :: rat
  fs_activeValue :: rat
  fs_avgDurationMonths :: rat
  fs_defaultRate :: rat

definition averageOf :: "nat list \<Rightarrow> rat" where
  "averageOf xs = (if xs = [] then 0 else fl (of_nat (sum_list xs) / of_nat (length xs)))"

text \<open>The rate is text in the response unless it is 0; its value is modelled.\<close>

definition getFinancingStats :: "stats_scope \<Rightarrow> db \<Rightarrow> financing_stats" where
  "getFinancingStats x s =
     (let fs = contractsInScope x s;
          d = countContracts {FinancingStatus.DEFAULTED} fs; w = countContracts {WRITTEN_OFF} fs
      in \<lparr>fs_totalContracts = length fs, fs_activeContracts = countContracts {FinancingStatus.ACTIVE} fs,
          fs_completedContracts = countContracts {FinancingStatus.COMPLETED} fs,
          fs_defaultedContracts = d, fs_writtenOffContracts = w,
          fs_totalValue = sumNumber (map fc_totalFinanced fs),
          fs_activeValue = sumNumber (financedIn {FinancingStatus.ACTIVE} fs),
          fs_avgDurationMonths = averageOf (map fc_approvedDurationMonths (filter (\<lambda>f. fc_status f = FinancingStatus.COMPLETED) fs)),
          fs_defaultRate = percentOf (of_nat (d + w)) (of_nat (length fs))\<rparr>)"

definition applicationsInScope :: "stats_scope \<Rightarrow> db \<Rightarrow> kyc_row list" where
  "applicationsInScope x s =
     filter (\<lambda>a. case or_null (sc_companyId x) of
         Some c \<Rightarrow> Option.bind (sessionOf a s) os_companyId = Some c
       | None \<Rightarrow> (case or_null (sc_adminId x) of
         Some ad \<Rightarrow> createdBy ad (sessionMarketer a s)
       | None \<Rightarrow> (case or_null (sc_marketerId x) of
         Some m \<Rightarrow> Option.bind (sessionOf a s) os_marketerId = Some m
       | None \<Rightarrow> True))) (kycApplications s)"

record kyc_funnel =
  kf_total :: nat
  kf_pending :: nat
  kf_processing :: nat
  kf_approved :: nat
  kf_rejected :: nat
  kf_approvalRate :: rat

definition getKycFunnelStats :: "stats_scope \<Rightarrow> db \<Rightarrow> kyc_funnel" where
  "getKycFunnelStats x s =
     (let as = applicationsInScope x s;
          n = (\<lambda>st. count_where (\<lambda>a. ka_status a = st) as);
          approved = n KycApplicationStatus.APPROVED; rejected = n KycApplicationStatus.REJECTED
      in \<lparr>kf_total = length as, kf_pending = n KycApplicationStatus.PENDING, kf_processing = n APPROVAL_PROCESSING,
          kf_approved = approved, kf_rejected = rejected,
          kf_approvalRate = percentOf (of_nat (approved + rejected)) (of_nat (length as))\<rparr>)"

record collection_stats =
  ct_totalInstallments :: nat
  ct_paidInstallments :: nat
  ct_pendingInstallments :: nat
  ct_dueInstallments :: nat
  ct_overdueInstallments :: nat
  ct_defaultedInstallments :: nat
  ct_collectionRate :: rat
  ct_totalDue :: rat
  ct_totalPaid :: rat
  ct_totalOverdue :: rat

definition getCollectionStats :: "ident \<Rightarrow> db \<Rightarrow> collection_stats" where
  "getCollectionStats c s =
     (let is' = installmentsOfCompany c s; n = (\<lambda>st. count_where (\<lambda>i. in_status i = st) is')
      in \<lparr>ct_totalInstallments = length is', ct_paidInstallments = n InstallmentStatus.PAID,
          ct_pendingInstallments = n InstallmentStatus.PENDING, ct_dueInstallments = n InstallmentStatus.DUE,
          ct_overdueInstallments = n OVERDUE, ct_defaultedInstallments = n InstallmentStatus.DEFAULTED,
          ct_collectionRate = percentOf (of_nat (n InstallmentStatus.PAID)) (of_nat (length is')),
          ct_totalDue = sumNumber (map in_amount is'), ct_totalPaid = sumNumber (amountsIn {InstallmentStatus.PAID} is'),
          ct_totalOverdue = sumNumber (amountsIn {OVERDUE, InstallmentStatus.DEFAULTED} is')\<rparr>)"

definition commissionsOfProduct :: "ident \<Rightarrow> db \<Rightarrow> commission_row list" where
  "commissionsOfProduct pid s = filter (\<lambda>c. map_option fc_productId (contractOfCommission c s) = Some pid) (commissions s)"

record product_performance =
  pp_product :: product_row
  pp_contractsCount :: nat
  pp_totalFinanced :: rat
  pp_commissionsPaid :: rat

definition performanceOf :: "db \<Rightarrow> product_row \<Rightarrow> product_performance" where
  "performanceOf s p =
     (let fs = filter (\<lambda>f. fc_productId f = pr_productId p \<and> fc_status f \<in> {FinancingStatus.ACTIVE, FinancingStatus.COMPLETED}) (contracts s)
      in \<lparr>pp_product = p, pp_contractsCount = length fs, pp_totalFinanced = sumNumber (map fc_totalFinanced fs),
          pp_commissionsPaid = sumNumber (map cm_amount (commissionsOfProduct (pr_productId p) s))\<rparr>)"

definition getProductPerformance :: "stats_scope \<Rightarrow> db \<Rightarrow> product_performance list" where
  "getProductPerformance x s =
     map (performanceOf s) (take 20 (orderByTime True pr_createdAt
       (filter (\<lambda>p. pr_status p \<noteq> ARCHIVED \<and> (case or_null (sc_companyId x) of
            Some c \<Rightarrow> pr_companyId p = Some c
          | None \<Rightarrow> (case or_null (sc_adminId x) of
              Some a \<Rightarrow> (case pr_companyId p of None \<Rightarrow> False
                | Some c \<Rightarrow> \<exists>u \<in> set (users s). u_companyId u = Some c \<and> u_role u = MARKETER \<and> u_createdById u = Some a)
            | None \<Rightarrow> True))) (products s))))"

section \<open>What the figures say\<close>

lemma percentOf_all:
  assumes "0 < n"
  shows "percentOf (of_nat n) (of_nat n) = 100"
proof -
  have "fl 1 = 1" "fl 100 = 100" using fl_int[of 1] fl_int[of 100] by simp_all
  moreover have "\<lfloor>20001 / 2 :: rat\<rfloor> = 10000" by (simp add: floor_eq_iff)
  ultimately show ?thesis using assms by (simp add: percentOf_def jsDiv_def jsMul_def jsFixed2_def)
qed

text \<open>The four statuses of the funnel are all there are, and the rate of approval is 100 when all are rejected.\<close>

theorem funnel_is_a_partition:
  "let k = getKycFunnelStats x s in kf_total k = kf_pending k + kf_processing k + kf_approved k + kf_rejected k"
proof -
  have "length as = count_where (\<lambda>a. ka_status a = KycApplicationStatus.PENDING) as + count_where (\<lambda>a. ka_status a = APPROVAL_PROCESSING) as +
    count_where (\<lambda>a. ka_status a = KycApplicationStatus.APPROVED) as + count_where (\<lambda>a. ka_status a = KycApplicationStatus.REJECTED) as" for as
  proof (induction as)
    case (Cons a as)
    then show ?case by (cases "ka_status a") (simp_all add: count_where_def)
  qed (simp add: count_where_def)
  then show ?thesis by (simp add: getKycFunnelStats_def Let_def)
qed

theorem approval_rate_counts_rejections:
  assumes "applicationsInScope x s \<noteq> []" "\<forall>a \<in> set (applicationsInScope x s). ka_status a = KycApplicationStatus.REJECTED"
  shows "kf_approved (getKycFunnelStats x s) = 0 \<and> kf_approvalRate (getKycFunnelStats x s) = 100"
proof -
  let ?as = "applicationsInScope x s"
  have n: "count_where (\<lambda>a. ka_status a = KycApplicationStatus.APPROVED) ?as = 0" "count_where (\<lambda>a. ka_status a = KycApplicationStatus.REJECTED) ?as = length ?as"
    using assms(2) by (simp_all add: count_where_def filter_empty_conv)
  have "percentOf (of_nat (length ?as)) (of_nat (length ?as)) = 100" by (rule percentOf_all) (use assms(1) in simp)
  then show ?thesis by (simp add: getKycFunnelStats_def Let_def n)
qed

end
