(* ===== verification/Tenants.thy ===== *)
theory Tenants
  imports Analytics Subscriptions KycIntake
begin

text \<open>
  What the platform does with its tenants: \<open>src/core/services/tenant-management.service.ts\<close> (the list,
  the profile, suspension, the activity feed) and \<open>superadmin.service.ts\<close> (the subscription plans, with
  the defaults of \<open>src/shared/schemas/subscription.schema.ts\<close>).  A plan's description and discount
  percentage and a tenant's logo are left out.
\<close>

section \<open>Subscription plans\<close>

record plan_input =
  cp_name :: string
  cp_price :: decimal
  cp_discountPrice :: "decimal option"
  cp_interval :: "SubscriptionInterval option"
  cp_active :: "bool option"
  cp_gracePeriodDays :: "int option"

text \<open>Absent values take the defaults of the schema.\<close>

definition new_plan :: "env \<Rightarrow> plan_input \<Rightarrow> subscription_plan_row" where
  "new_plan e d = \<lparr>sp_planId = env_uuid e 0, sp_name = cp_name d, sp_price = cp_price d, sp_discountPrice = cp_discountPrice d,
     sp_interval = (case cp_interval d of None \<Rightarrow> MONTHLY | Some i \<Rightarrow> i),
     sp_active = (case cp_active d of None \<Rightarrow> True | Some a \<Rightarrow> a),
     sp_gracePeriodDays = (case cp_gracePeriodDays d of None \<Rightarrow> 7 | Some g \<Rightarrow> g), sp_createdAt = env_now e\<rparr>"

definition createSubscriptionPlan :: "env \<Rightarrow> plan_input \<Rightarrow> db \<Rightarrow> subscription_plan_row res \<times> db" where
  "createSubscriptionPlan e d s =
     (if \<exists>p \<in> set (subscriptionPlans s). sp_name p = cp_name d
      then (Inl (ConflictError ''A subscription plan with this name already exists''), s)
      else (Inr (new_plan e d), s\<lparr>subscriptionPlans := subscriptionPlans s @ [new_plan e d]\<rparr>))"

record plan_change =
  pc_name :: "string option"
  pc_price :: "decimal option"
  pc_discountPrice :: "decimal option"
  pc_interval :: "SubscriptionInterval option"
  pc_active :: "bool option"
  pc_gracePeriodDays :: "int option"

text \<open>
  \<open>UpdateSubscriptionPlanSchema\<close> is the partial of a schema with defaults: Zod 4 puts a default in for a
  key that is missing, and the grace period is no key of it.
\<close>

definition parsePlanChange :: "plan_change \<Rightarrow> plan_change" where
  "parsePlanChange d = d\<lparr>pc_interval := Some (case pc_interval d of None \<Rightarrow> MONTHLY | Some i \<Rightarrow> i),
     pc_active := Some (case pc_active d of None \<Rightarrow> True | Some a \<Rightarrow> a), pc_gracePeriodDays := None\<rparr>"

definition given :: "'a option \<Rightarrow> 'a \<Rightarrow> 'a" where
  "given x old = (case x of None \<Rightarrow> old | Some v \<Rightarrow> v)"

definition changedPlan :: "plan_change \<Rightarrow> subscription_plan_row \<Rightarrow> subscription_plan_row" where
  "changedPlan d p = p\<lparr>sp_name := given (pc_name d) (sp_name p), sp_price := given (pc_price d) (sp_price p),
     sp_discountPrice := (case pc_discountPrice d of None \<Rightarrow> sp_discountPrice p | Some x \<Rightarrow> Some x),
     sp_interval := given (pc_interval d) (sp_interval p), sp_active := given (pc_active d) (sp_active p),
     sp_gracePeriodDays := given (pc_gracePeriodDays d) (sp_gracePeriodDays p)\<rparr>"

definition update_plan :: "ident \<Rightarrow> (subscription_plan_row \<Rightarrow> subscription_plan_row) \<Rightarrow> db \<Rightarrow> db" where
  "update_plan pid f s = s\<lparr>subscriptionPlans := update_where (\<lambda>p. sp_planId p = pid) f (subscriptionPlans s)\<rparr>"

definition updateSubscriptionPlan :: "ident \<Rightarrow> plan_change \<Rightarrow> db \<Rightarrow> subscription_plan_row res \<times> db" where
  "updateSubscriptionPlan pid d s =
     (case find_plan pid s of
        None \<Rightarrow> (Inl (NotFoundError ''Subscription plan not found''), s)
      | Some p \<Rightarrow>
          if \<exists>q \<in> set (subscriptionPlans s). sp_planId q \<noteq> pid \<and> pc_name d = Some (sp_name q)
          then (Inl (UniqueViolation ''name''), s)
          else (Inr (changedPlan d p), update_plan pid (changedPlan d) s))"

definition getAllSubscriptionPlans :: "db \<Rightarrow> subscription_plan_row list" where
  "getAllSubscriptionPlans s = orderByTime True sp_createdAt (subscriptionPlans s)"

definition togglePlanStatus :: "ident \<Rightarrow> bool \<Rightarrow> db \<Rightarrow> subscription_plan_row res \<times> db" where
  "togglePlanStatus pid active s =
     (case find_plan pid s of
        None \<Rightarrow> (Inl (RecordNotFound ''SubscriptionPlan''), s)
      | Some p \<Rightarrow> (Inr (p\<lparr>sp_active := active\<rparr>), update_plan pid (\<lambda>p. p\<lparr>sp_active := active\<rparr>) s))"

text \<open>An application for an account refers to its plan; the database keeps a plan referred to.\<close>

definition deleteSubscriptionPlan :: "ident \<Rightarrow> db \<Rightarrow> subscription_plan_row res \<times> db" where
  "deleteSubscriptionPlan pid s =
     (case find_plan pid s of
        None \<Rightarrow> (Inl (NotFoundError ''Subscription plan not found''), s)
      | Some p \<Rightarrow>
          if \<exists>x \<in> set (subscriptions s). su_planId x = pid
          then (Inl (BadRequestError ''Cannot delete plan with active subscriptions. Deactivate it instead.''), s)
          else if \<exists>x \<in> set (onboardingIntents s). oi_planId x = pid then (Inl (ForeignKeyViolation ''planId''), s)
          else (Inr p, s\<lparr>subscriptionPlans := filter (\<lambda>p. sp_planId p \<noteq> pid) (subscriptionPlans s)\<rparr>))"

section \<open>Tenants\<close>

record revenue_snapshot =
  rv_platformRevenue :: rat
  rv_gmv :: rat

definition getRevenueSnapshot :: "ident \<Rightarrow> db \<Rightarrow> revenue_snapshot" where
  "getRevenueSnapshot c s = \<lparr>rv_platformRevenue =
       (case find_account (Some c) ''PLATFORM_REVENUE'' (book s) of None \<Rightarrow> 0 | Some a \<Rightarrow> fl (la_balance a)),
     rv_gmv = sumNumber (map fc_totalFinanced (contractsOfCompany c s))\<rparr>"

definition getUsersByRole :: "ident \<Rightarrow> db \<Rightarrow> (Role \<times> nat) list" where
  "getUsersByRole c s =
     (let us = filter (\<lambda>u. u_companyId u = Some c) (users s)
      in map (\<lambda>r. (r, count_where (\<lambda>u. u_role u = r) us)) (remdups (map u_role us)))"

record tenant =
  tn_company :: company_row
  tn_activeSubscription :: "(string \<times> SubscriptionStatus) option"
  tn_productCount :: nat
  tn_totalUsers :: nat
  tn_usersByRole :: "(Role \<times> nat) list"
  tn_revenue :: revenue_snapshot

definition planOf :: "subscription_row \<Rightarrow> db \<Rightarrow> subscription_plan_row option" where
  "planOf x s = find_plan (su_planId x) s"

definition tenantOf :: "db \<Rightarrow> company_row \<Rightarrow> tenant" where
  "tenantOf s co =
     (let c = co_companyId co
      in \<lparr>tn_company = co,
          tn_activeSubscription = Option.bind (activeSubscription c s) (\<lambda>x. map_option (\<lambda>p. (sp_name p, su_status x)) (planOf x s)),
          tn_productCount = count_where (\<lambda>p. pr_companyId p = Some c) (products s),
          tn_totalUsers = count_where (\<lambda>u. u_companyId u = Some c) (users s),
          tn_usersByRole = getUsersByRole c s, tn_revenue = getRevenueSnapshot c s\<rparr>)"

definition listTenants :: "int \<Rightarrow> int \<Rightarrow> string option \<Rightarrow> db \<Rightarrow> tenant list \<times> int \<times> int" where
  "listTenants page limit search s =
     (let found = filter (\<lambda>co. case or_null search of None \<Rightarrow> True | Some t \<Rightarrow> containsInsensitive t (Some (co_name co))) (companies s)
      in (map (tenantOf s) (pageOf page limit (orderByTime True co_createdAt found)),
          int (length found), ceilPages (int (length found)) limit))"

record tenant_profile =
  tp_tenant :: company_row
  tp_subscriptionHistory :: "(subscription_row \<times> subscription_plan_row option) list"
  tp_bankAccounts :: "company_bank_row list"
  tp_productCount :: nat
  tp_totalUsers :: nat
  tp_usersByRole :: "(Role \<times> nat) list"
  tp_financing :: financing_stats
  tp_kycFunnel :: kyc_funnel
  tp_revenue :: revenue_snapshot

definition companyScope :: "ident \<Rightarrow> stats_scope" where
  "companyScope c = \<lparr>sc_companyId = Some c, sc_adminId = None, sc_marketerId = None, sc_customerId = None\<rparr>"

definition getTenantProfile :: "ident \<Rightarrow> db \<Rightarrow> tenant_profile res" where
  "getTenantProfile c s =
     (case find_company c s of
        None \<Rightarrow> Inl (NotFoundError ''Tenant not found.'')
      | Some co \<Rightarrow> Inr \<lparr>tp_tenant = co,
          tp_subscriptionHistory = map (\<lambda>x. (x, planOf x s))
            (take 5 (orderByTime True su_createdAt (filter (\<lambda>x. su_companyId x = c) (subscriptions s)))),
          tp_bankAccounts = filter (\<lambda>b. cb_companyId b = c) (companyBanks s),
          tp_productCount = count_where (\<lambda>p. pr_companyId p = Some c) (products s),
          tp_totalUsers = count_where (\<lambda>u. u_companyId u = Some c) (users s),
          tp_usersByRole = getUsersByRole c s, tp_financing = getFinancingStats (companyScope c) s,
          tp_kycFunnel = getKycFunnelStats (companyScope c) s, tp_revenue = getRevenueSnapshot c s\<rparr>)"

definition setTenantStatus ::
  "time \<Rightarrow> ident \<Rightarrow> CompanyStatus \<Rightarrow> string option \<Rightarrow> ident \<Rightarrow> db \<Rightarrow> company_row res \<times> db" where
  "setTenantStatus now c status reason performedById s =
     (case find_company c s of
        None \<Rightarrow> (Inl (NotFoundError ''Tenant not found.''), s)
      | Some co \<Rightarrow>
          if status = SUSPENDED \<and> or_null reason = None
          then (Inl (BadRequestError ''A reason is required to suspend a tenant.''), s)
          else
            (let f = (\<lambda>x. x\<lparr>co_status := status,
               co_suspendedAt := (if status = SUSPENDED then Some now else None),
               co_suspendedReason := (if status = SUSPENDED then reason else None),
               co_suspendedById := (if status = SUSPENDED then Some performedById else None)\<rparr>)
             in (Inr (f co), s\<lparr>companies := update_where (\<lambda>x. co_companyId x = c) f (companies s)\<rparr>)))"

section \<open>The activity feed\<close>

text \<open>
  Columns the rows leave out are arguments: \<open>auditId\<close> and \<open>createdAt\<close> of the n-th audit entry,
  \<open>updatedAt\<close> of payouts and contracts.  Texts put together from values are kept as the values; the
  details of audit entries are left out.
\<close>

datatype ActivityType = KYC | SETTLEMENT | APPROVAL | PAYOUT | CONTRACT | LOGIN

record row_times =
  rt_kycAudit :: "nat \<Rightarrow> ident \<times> time"
  rt_settlementAudit :: "nat \<Rightarrow> ident \<times> time"
  rt_payoutUpdatedAt :: "ident \<Rightarrow> time"
  rt_contractUpdatedAt :: "ident \<Rightarrow> time"

datatype activity_action =
    ActionText string
  | RequestedFor ApprovalAction string
  | PayoutNow CommissionPayoutStatus
  | ContractNow FinancingStatus string

datatype activity_outcome =
    OutcomeText string
  | ApprovalOutcome ApprovalStatus
  | PayoutOutcome CommissionPayoutStatus
  | ContractOutcome FinancingStatus

datatype activity_actor = ActorUser user_row | ActorKind SettlementAuditActor

datatype activity_details = DetailText string | DetailAmount rat

record activity_event =
  ae_type :: string
  ae_action :: activity_action
  ae_outcome :: activity_outcome
  ae_actor :: "activity_actor option"
  ae_details :: "activity_details option"
  ae_occurredAt :: time
  ae_refId :: ident

definition userActor :: "ident option \<Rightarrow> db \<Rightarrow> activity_actor option" where
  "userActor i s = map_option ActorUser (Option.bind i (\<lambda>u. find_user u s))"

definition numbered :: "'a list \<Rightarrow> (nat \<times> 'a) list" where
  "numbered xs = zip [0..<length xs] xs"

definition kycEvents :: "row_times \<Rightarrow> ident \<Rightarrow> db \<Rightarrow> activity_event list" where
  "kycEvents rt c s =
     map (\<lambda>(n, r). \<lparr>ae_type = ''KYC'', ae_action = ActionText (kt_action r), ae_outcome = OutcomeText (kt_outcome r),
         ae_actor = userActor (kt_performedById r) s, ae_details = None, ae_occurredAt = snd (rt_kycAudit rt n), ae_refId = fst (rt_kycAudit rt n)\<rparr>)
       (filter (\<lambda>(n, r). Option.bind (Option.bind (find_application (kt_kycApplicationId r) s) (\<lambda>a. sessionOf a s)) os_companyId = Some c)
         (numbered (kycAudit s)))"

definition settlementEvents :: "row_times \<Rightarrow> ident \<Rightarrow> db \<Rightarrow> activity_event list" where
  "settlementEvents rt c s =
     map (\<lambda>(n, r). \<lparr>ae_type = ''SETTLEMENT'', ae_action = ActionText (sa_action r), ae_outcome = OutcomeText (sa_outcome r),
         ae_actor = Some (case userActor (sa_performedById r) s of Some u \<Rightarrow> u | None \<Rightarrow> ActorKind (sa_actorType r)), ae_details = None,
         ae_occurredAt = snd (rt_settlementAudit rt n), ae_refId = fst (rt_settlementAudit rt n)\<rparr>)
       (filter (\<lambda>(n, r). map_option ms_companyId (find_settlement (sa_settlementId r) s) = Some c) (numbered (settlementAudit s)))"

definition approvalEvents :: "ident \<Rightarrow> db \<Rightarrow> activity_event list" where
  "approvalEvents c s =
     map (\<lambda>r. \<lparr>ae_type = ''APPROVAL_REQUEST'',
         ae_action = RequestedFor (ar_action r) (case find_user (ar_targetUserId r) s of None \<Rightarrow> '''' | Some u \<Rightarrow>
           (case u_name u of None \<Rightarrow> u_email u | Some n \<Rightarrow> n)),
         ae_outcome = ApprovalOutcome (ar_status r), ae_actor = userActor (Some (ar_requestedById r)) s,
         ae_details = map_option DetailText (ar_reason r), ae_occurredAt = ar_createdAt r, ae_refId = ar_requestId r\<rparr>)
       (filter (\<lambda>r. ar_companyId r = c) (approvalRequests s))"

definition payoutEvents :: "row_times \<Rightarrow> ident \<Rightarrow> db \<Rightarrow> activity_event list" where
  "payoutEvents rt c s =
     map (\<lambda>r. \<lparr>ae_type = ''COMMISSION_PAYOUT'', ae_action = PayoutNow (po_status r), ae_outcome = PayoutOutcome (po_status r),
         ae_actor = userActor (Some (po_userId r)) s, ae_details = Some (DetailAmount (fl (po_amount r))),
         ae_occurredAt = rt_payoutUpdatedAt rt (po_payoutId r), ae_refId = po_payoutId r\<rparr>)
       (filter (\<lambda>r. po_companyId r = c) (payouts s))"

definition contractEvents :: "row_times \<Rightarrow> ident \<Rightarrow> db \<Rightarrow> activity_event list" where
  "contractEvents rt c s =
     map (\<lambda>r. \<lparr>ae_type = ''FINANCING_CONTRACT'',
         ae_action = ContractNow (fc_status r) (case find_product (fc_productId r) s of None \<Rightarrow> '''' | Some p \<Rightarrow> pr_name p),
         ae_outcome = ContractOutcome (fc_status r), ae_actor = userActor (fc_userId r) s, ae_details = None,
         ae_occurredAt = rt_contractUpdatedAt rt (fc_contractId r), ae_refId = fc_contractId r\<rparr>)
       (contractsOfCompany c s)"

definition loginEvents :: "ident \<Rightarrow> db \<Rightarrow> activity_event list" where
  "loginEvents c s =
     map (\<lambda>r. \<lparr>ae_type = ''LOGIN'', ae_action = ActionText ''User logged in'',
         ae_outcome = OutcomeText (if us_revoked r then ''REVOKED'' else ''ACTIVE''), ae_actor = userActor (Some (us_userId r)) s,
         ae_details = None, ae_occurredAt = us_createdAt r, ae_refId = us_sessionId r\<rparr>)
       (filter (\<lambda>r. Option.bind (find_user (us_userId r) s) u_companyId = Some c) (userSessions s))"

fun eventsOfType :: "row_times \<Rightarrow> ident \<Rightarrow> db \<Rightarrow> ActivityType \<Rightarrow> activity_event list" where
  "eventsOfType rt c s KYC = kycEvents rt c s"
| "eventsOfType rt c s SETTLEMENT = settlementEvents rt c s"
| "eventsOfType rt c s APPROVAL = approvalEvents c s"
| "eventsOfType rt c s PAYOUT = payoutEvents rt c s"
| "eventsOfType rt c s CONTRACT = contractEvents rt c s"
| "eventsOfType rt c s LOGIN = loginEvents c s"

record activity_query =
  aq_page :: int
  aq_limit :: int
  aq_type :: "ActivityType option"
  aq_from :: "time option"
  aq_to :: "time option"

definition inRange :: "activity_query \<Rightarrow> activity_event \<Rightarrow> bool" where
  "inRange q ev \<longleftrightarrow> (case aq_from q of None \<Rightarrow> True | Some a \<Rightarrow> a \<le> ae_occurredAt ev) \<and>
     (case aq_to q of None \<Rightarrow> True | Some b \<Rightarrow> ae_occurredAt ev \<le> b)"

definition activitySource :: "row_times \<Rightarrow> ident \<Rightarrow> activity_query \<Rightarrow> db \<Rightarrow> ActivityType \<Rightarrow> activity_event list" where
  "activitySource rt c q s ty =
     take (nat (aq_page q * aq_limit q)) (orderByTime True ae_occurredAt (filter (inRange q) (eventsOfType rt c s ty)))"

definition chosenTypes :: "activity_query \<Rightarrow> ActivityType list" where
  "chosenTypes q = (case aq_type q of None \<Rightarrow> [KYC, SETTLEMENT, APPROVAL, PAYOUT, CONTRACT, LOGIN] | Some ty \<Rightarrow> [ty])"

record activity_page =
  av_returned :: nat
  av_hasMore :: bool
  av_activities :: "activity_event list"

definition getTenantActivity :: "row_times \<Rightarrow> ident \<Rightarrow> activity_query \<Rightarrow> db \<Rightarrow> activity_page res" where
  "getTenantActivity rt c q s =
     (case find_company c s of
        None \<Rightarrow> Inl (NotFoundError ''Tenant not found.'')
      | Some _ \<Rightarrow>
          (let merged = orderByTime True ae_occurredAt (concat (map (activitySource rt c q s) (chosenTypes q)));
               start = (aq_page q - 1) * aq_limit q;
               paged = take (nat (aq_limit q)) (drop (nat start) merged)
           in Inr \<lparr>av_returned = length paged, av_hasMore = (start + aq_limit q < int (length merged)), av_activities = paged\<rparr>))"

end
