(* ===== verification/PlatformRevenue.thy ===== *)
theory PlatformRevenue
  imports Tenants
begin

text \<open>
  The platform's revenue reports: \<open>src/core/services/platform-revenue.service.ts\<close>.  Journal entries are
  kept in the order they are written; the times of their writing are an argument.  Groups come in the order of
  their first row where the query leaves it open.
\<close>

section \<open>One tenant\<close>

definition PLATFORM_REVENUE :: string where
  "PLATFORM_REVENUE = ''PLATFORM_REVENUE''"

record revenue_line =
  vl_reference :: string
  vl_description :: string
  vl_amount :: rat

record tenant_revenue =
  vr_tenant :: company_row
  vr_total :: rat
  vr_transactions :: "revenue_line list"
  vr_totalFinanced :: rat
  vr_totalCollected :: rat
  vr_activeContracts :: nat
  vr_completedContracts :: nat
  vr_totalPaidOut :: rat

definition revenueLine :: "ledger \<Rightarrow> journal_entry \<Rightarrow> revenue_line" where
  "revenueLine l j =
     (let t = find (\<lambda>t. ft_id t = je_transactionId j) (lg_transactions l)
      in \<lparr>vl_reference = (case t of None \<Rightarrow> [] | Some x \<Rightarrow> ft_reference x),
          vl_description = (case t of None \<Rightarrow> [] | Some x \<Rightarrow> ft_description x), vl_amount = fl (je_credit j)\<rparr>)"

definition getTenantRevenue :: "ident \<Rightarrow> db \<Rightarrow> tenant_revenue res" where
  "getTenantRevenue c s =
     (case find_company c s of
        None \<Rightarrow> Inl (NotFoundError ''Tenant not found.'')
      | Some co \<Rightarrow>
          (let account = find_account (Some c) PLATFORM_REVENUE (book s); stats = getFinancingStats (companyScope c) s
           in Inr \<lparr>vr_tenant = co, vr_total = (case account of None \<Rightarrow> 0 | Some a \<Rightarrow> fl (la_balance a)),
                vr_transactions = (case account of None \<Rightarrow> []
                  | Some a \<Rightarrow> map (revenueLine (book s)) (take 50 (rev (filter (\<lambda>j. je_ledgerAccountId j = la_id a) (lg_journal (book s)))))),
                vr_totalFinanced = fs_totalValue stats,
                vr_totalCollected = sumNumber (amountsIn {InstallmentStatus.PAID} (installmentsOfCompany c s)),
                vr_activeContracts = fs_activeContracts stats, vr_completedContracts = fs_completedContracts stats,
                vr_totalPaidOut = sumNumber (map ms_amount (filter (\<lambda>m. ms_companyId m = c \<and> ms_status m = TRANSFER_SUCCESS) (settlements s)))\<rparr>))"

section \<open>The rankings\<close>

definition revenueAccounts :: "db \<Rightarrow> ledger_account list" where
  "revenueAccounts s = filter (\<lambda>a. la_name a = PLATFORM_REVENUE \<and> la_companyId a \<noteq> None) (lg_accounts (book s))"

definition byBalance :: "bool \<Rightarrow> ledger_account list \<Rightarrow> ledger_account list" where
  "byBalance desc as = sort_key (\<lambda>a. if desc then - la_balance a else la_balance a) as"

record tenant_rank =
  tr_companyId :: "ident option"
  tr_company :: "company_row option"
  tr_platformRevenue :: rat
  tr_gmv :: rat

definition companyOfAccount :: "ledger_account \<Rightarrow> db \<Rightarrow> company_row option" where
  "companyOfAccount a s = Option.bind (la_companyId a) (\<lambda>c. find_company c s)"

definition tenantRank :: "db \<Rightarrow> ledger_account \<Rightarrow> tenant_rank" where
  "tenantRank s a = \<lparr>tr_companyId = la_companyId a, tr_company = companyOfAccount a s, tr_platformRevenue = fl (la_balance a),
     tr_gmv = (case la_companyId a of None \<Rightarrow> 0 | Some c \<Rightarrow> sumNumber (map fc_totalFinanced (contractsOfCompany c s)))\<rparr>"

definition getTenantRevenueLeaderboard :: "int \<Rightarrow> int \<Rightarrow> bool \<Rightarrow> db \<Rightarrow> tenant_rank list \<times> int \<times> int" where
  "getTenantRevenueLeaderboard page limit desc s =
     (let accounts = revenueAccounts s
      in (map (tenantRank s) (pageOf page limit (byBalance desc accounts)), int (length accounts), ceilPages (int (length accounts)) limit))"

definition activeOrCompleted :: "db \<Rightarrow> contract_row list" where
  "activeOrCompleted s = filter (\<lambda>f. fc_status f \<in> {FinancingStatus.ACTIVE, FinancingStatus.COMPLETED}) (contracts s)"

text \<open>\<open>groupBy productId\<close> with the sum and the count of its contracts, by the sum in descending order.\<close>

definition productGroups :: "db \<Rightarrow> (ident \<times> decimal \<times> nat) list" where
  "productGroups s =
     (let fs = activeOrCompleted s
      in sort_key (\<lambda>(p, t, n). - t) (map (\<lambda>p. (p, sum_list (map fc_totalFinanced (filter (\<lambda>f. fc_productId f = p) fs)),
          count_where (\<lambda>f. fc_productId f = p) fs)) (remdups (map fc_productId fs))))"

record product_rank =
  qr_productId :: ident
  qr_product :: "product_row option"
  qr_company :: "company_row option"
  qr_contractsCount :: nat
  qr_totalFinanced :: rat
  qr_commissionsPaid :: rat

definition companyOfProduct :: "ident \<Rightarrow> db \<Rightarrow> company_row option" where
  "companyOfProduct p s = Option.bind (Option.bind (find_product p s) pr_companyId) (\<lambda>c. find_company c s)"

definition getProductRevenueLeaderboard :: "int \<Rightarrow> int \<Rightarrow> db \<Rightarrow> product_rank list \<times> int \<times> int" where
  "getProductRevenueLeaderboard page limit s =
     (let totalDistinct = int (count_where (\<lambda>p. \<exists>f \<in> set (activeOrCompleted s). fc_productId f = pr_productId p) (products s))
      in (map (\<lambda>(p, t, n). \<lparr>qr_productId = p, qr_product = find_product p s, qr_company = companyOfProduct p s, qr_contractsCount = n,
             qr_totalFinanced = fl t, qr_commissionsPaid = sumNumber (map cm_amount (commissionsOfProduct p s))\<rparr>)
           (pageOf page limit (productGroups s)),
          totalDistinct, ceilPages totalDistinct limit))"

section \<open>The overview\<close>

record platform_overview =
  vo_tenants :: nat
  vo_byPlan :: "(string \<times> nat) list"
  vo_allTime :: rat
  vo_thisMonth :: rat
  vo_gmv :: rat
  vo_activeContracts :: nat
  vo_topTenants :: "(ident option \<times> company_row option \<times> rat) list"
  vo_topProducts :: "(ident \<times> product_row option \<times> company_row option \<times> rat) list"

definition startOfMonth :: "int \<Rightarrow> time \<Rightarrow> time" where
  "startOfMonth tz now = setHours0 tz (setDate tz now 1)"

definition tenantsByPlan :: "db \<Rightarrow> (string \<times> nat) list" where
  "tenantsByPlan s = map (\<lambda>p. (p, count_where (\<lambda>c. co_plan c = p) (companies s))) (remdups (map co_plan (companies s)))"

definition getPlatformOverview :: "int \<Rightarrow> time \<Rightarrow> (nat \<Rightarrow> time) \<Rightarrow> db \<Rightarrow> platform_overview" where
  "getPlatformOverview tz now writtenAt s =
     (let accounts = revenueAccounts s; byPlan = tenantsByPlan s
      in \<lparr>vo_tenants = foldl (\<lambda>acc (p, n). acc + n) 0 byPlan, vo_byPlan = byPlan,
          vo_allTime = sumNumber (map la_balance accounts),
          vo_thisMonth = sumNumber (map (\<lambda>(n, j). je_credit j) (filter (\<lambda>(n, j). je_ledgerAccountId j \<in> la_id ` set accounts \<and>
            startOfMonth tz now \<le> writtenAt n) (numbered (lg_journal (book s))))),
          vo_gmv = sumNumber (map fc_totalFinanced (contracts s)),
          vo_activeContracts = count_where (\<lambda>f. fc_status f = FinancingStatus.ACTIVE) (contracts s),
          vo_topTenants = map (\<lambda>a. (la_companyId a, companyOfAccount a s, fl (la_balance a))) (take 5 (byBalance True accounts)),
          vo_topProducts = map (\<lambda>(p, t, n). (p, find_product p s, companyOfProduct p s, fl t)) (take 5 (productGroups s))\<rparr>)"

section \<open>The groups are the rows\<close>

lemma sum_of_counts: "finite K \<Longrightarrow> k ` set xs \<subseteq> K \<Longrightarrow> (\<Sum>j \<in> K. count_where (\<lambda>x. k x = j) xs) = length xs"
proof (induction xs)
  case (Cons x xs)
  have "(\<Sum>j \<in> K. count_where (\<lambda>y. k y = j) (x # xs)) = (\<Sum>j \<in> K. (if j = k x then 1 else 0) + count_where (\<lambda>y. k y = j) xs)"
    by (rule sum.cong) (auto simp: count_where_def)
  then show ?case using Cons by (simp add: sum.distrib)
qed (simp add: count_where_def)

text \<open>
  Every company is counted under one plan, and the pages of the product ranking are as many as its groups fill,
  when every contract's product is there.
\<close>

theorem overview_counts_every_company:
  "vo_tenants (getPlatformOverview tz now writtenAt s) = length (companies s)"
proof -
  have f: "foldl (\<lambda>acc (p, n). acc + n) a (map (\<lambda>p. (p, g p)) ps) = a + sum_list (map g ps)" for a :: nat and g and ps :: "string list"
    by (induction ps arbitrary: a) (simp_all add: add.assoc)
  have "vo_tenants (getPlatformOverview tz now writtenAt s) =
    sum_list (map (\<lambda>p. count_where (\<lambda>c. co_plan c = p) (companies s)) (remdups (map co_plan (companies s))))"
    by (simp add: getPlatformOverview_def Let_def tenantsByPlan_def f)
  also have "\<dots> = (\<Sum>p \<in> co_plan ` set (companies s). count_where (\<lambda>c. co_plan c = p) (companies s))"
    by (simp add: sum_list_distinct_conv_sum_set)
  also have "\<dots> = length (companies s)" by (rule sum_of_counts) simp_all
  finally show ?thesis .
qed

theorem product_ranking_counts_its_groups:
  assumes "distinct (map pr_productId (products s))" "fc_productId ` set (contracts s) \<subseteq> pr_productId ` set (products s)"
  shows "fst (snd (getProductRevenueLeaderboard page limit s)) = int (length (productGroups s))"
proof -
  let ?fs = "activeOrCompleted s"
  have sub: "fc_productId ` set ?fs \<subseteq> pr_productId ` set (products s)" using assms(2) by (auto simp: activeOrCompleted_def)
  have "fc_productId f \<in> pr_productId ` {p \<in> set (products s). \<exists>f \<in> set ?fs. fc_productId f = pr_productId p}" if f: "f \<in> set ?fs" for f
  proof -
    obtain p where "p \<in> set (products s)" "fc_productId f = pr_productId p" using sub f by blast
    then show ?thesis using f by blast
  qed
  then have "fc_productId ` set ?fs \<subseteq> pr_productId ` {p \<in> set (products s). \<exists>f \<in> set ?fs. fc_productId f = pr_productId p}" by (rule image_subsetI)
  moreover have "pr_productId p \<in> fc_productId ` set ?fs" if p: "p \<in> {p \<in> set (products s). \<exists>f \<in> set ?fs. fc_productId f = pr_productId p}" for p
  proof -
    obtain f where "f \<in> set ?fs" "fc_productId f = pr_productId p" using p by auto
    then show ?thesis by (metis imageI)
  qed
  then have "pr_productId ` {p \<in> set (products s). \<exists>f \<in> set ?fs. fc_productId f = pr_productId p} \<subseteq> fc_productId ` set ?fs" by (rule image_subsetI)
  ultimately have im: "pr_productId ` {p \<in> set (products s). \<exists>f \<in> set ?fs. fc_productId f = pr_productId p} = fc_productId ` set ?fs" by (rule subset_antisym[rotated])
  have "inj_on pr_productId {p \<in> set (products s). \<exists>f \<in> set ?fs. fc_productId f = pr_productId p}"
    by (rule inj_on_subset[of _ "set (products s)"]) (use assms(1) in \<open>auto simp: distinct_map\<close>)
  then have "card {p \<in> set (products s). \<exists>f \<in> set ?fs. fc_productId f = pr_productId p} = card (fc_productId ` set ?fs)"
    unfolding im[symmetric] by (rule card_image[symmetric])
  moreover have "count_where P (products s) = card {p \<in> set (products s). P p}" for P
    using distinct_card[of "filter P (products s)"] assms(1) by (simp add: count_where_def distinct_map)
  moreover have "length (productGroups s) = card (fc_productId ` set ?fs)"
    by (simp add: productGroups_def Let_def length_remdups_card_conv)
  ultimately show ?thesis by (simp add: getProductRevenueLeaderboard_def Let_def)
qed

end
