(* ===== verification/Merging.thy ===== *)
theory Merging
  imports Prelude "HOL-Library.Multiset"
begin

text \<open>
  Merging sorted sources (the activity feed of \<open>src/core/services/tenant-management.service.ts\<close>):
  the first rows of the merge are the first rows of the merge of the first rows.
\<close>

section \<open>Cutting before merging\<close>

lemma sort_key_split:
  "sort_key f zs = sort_key f (filter (\<lambda>z. f z < c) zs) @ filter (\<lambda>z. f z = c) zs @ sort_key f (filter (\<lambda>z. c < f z) zs)"
    (is "_ = ?r") for f :: "'a \<Rightarrow> 'b :: linorder"
proof (rule properties_for_sort_key)
  show "mset ?r = mset zs" by (rule multiset_eqI) auto
  show "filter (\<lambda>x. f k = f x) ?r = filter (\<lambda>x. f k = f x) zs" if "k \<in> set ?r" for k
  proof -
    have s: "filter (\<lambda>x. f k = f x) (sort_key f xs) = filter (\<lambda>x. f k = f x) xs" for xs
      using sort_key_stable[of f "f k" xs] by (simp add: eq_commute)
    have "filter (\<lambda>x. f x < c \<and> f k = f x) zs @ filter (\<lambda>x. f x = c \<and> f k = f x) zs @
      filter (\<lambda>x. c < f x \<and> f k = f x) zs = filter (\<lambda>x. f k = f x) zs"
    proof -
      have "(\<lambda>x. f x < c \<and> f k = f x) = (\<lambda>x. f k < c \<and> f k = f x)" "(\<lambda>x. f x = c \<and> f k = f x) = (\<lambda>x. f k = c \<and> f k = f x)"
        "(\<lambda>x. c < f x \<and> f k = f x) = (\<lambda>x. c < f k \<and> f k = f x)" by auto
      then show ?thesis by (cases "f k" c rule: linorder_cases) (auto simp: filter_empty_conv)
    qed
    then show ?thesis by (simp add: s)
  qed
  show "sorted (map f ?r)" by (auto simp: sorted_append intro: sorted_map_same)
qed

lemma take_sort_without:
  fixes f :: "'a \<Rightarrow> 'b :: linorder"
  assumes "m \<le> length (filter (\<lambda>x. f x \<le> f b) xs)"
  shows "take m (sort_key f (xs @ b # ys)) = take m (sort_key f (xs @ ys))"
proof -
  have "length (filter (\<lambda>x. f x \<le> f b) xs) = length (filter (\<lambda>x. f x < f b) xs) + length (filter (\<lambda>x. f x = f b) xs)"
    by (induction xs) auto
  then have m: "m - length (filter (\<lambda>x. f x < f b) (xs @ ys)) \<le> length (filter (\<lambda>x. f x = f b) xs)"
    using assms by simp
  show ?thesis
    using m by (subst (1 2) sort_key_split[of f _ "f b"]) simp
qed

lemma take_sort_cut:
  fixes f :: "'a \<Rightarrow> 'b :: linorder"
  assumes "sorted (map f l)"
  shows "take m (sort_key f (xs @ take m l @ ys)) = take m (sort_key f (xs @ l @ ys))"
  using assms
proof (induction l rule: rev_induct)
  case (snoc b l)
  show ?case
  proof (cases "length l < m")
    case False
    have "\<forall>x \<in> set l. f x \<le> f b" using snoc.prems by (auto simp: sorted_append)
    then have "m \<le> length (filter (\<lambda>x. f x \<le> f b) (xs @ l))" using False by (simp cong: filter_cong)
    then have "take m (sort_key f ((xs @ l) @ b # ys)) = take m (sort_key f ((xs @ l) @ ys))" by (rule take_sort_without)
    then show ?thesis using snoc False by (simp add: sorted_append)
  qed simp
qed simp

lemma take_merge:
  fixes f :: "'a \<Rightarrow> 'b :: linorder"
  assumes "\<forall>l \<in> set ls. sorted (map f l)"
  shows "take m (sort_key f (xs @ concat (map (take m) ls))) = take m (sort_key f (xs @ concat ls))"
  using assms
proof (induction ls arbitrary: xs)
  case (Cons l ls)
  have "take m (sort_key f (xs @ take m l @ concat (map (take m) ls))) = take m (sort_key f (xs @ l @ concat (map (take m) ls)))"
    by (rule take_sort_cut) (use Cons.prems in simp)
  also have "\<dots> = take m (sort_key f (xs @ l @ concat ls))" using Cons.IH[of "xs @ l"] Cons.prems by simp
  finally show ?case by simp
qed simp

lemma sort_of_sorted:
  fixes f :: "'a \<Rightarrow> 'b :: linorder"
  shows "sort_key f (concat (map (sort_key f) ls)) = sort_key f (concat ls)"
proof (rule properties_for_sort_key)
  have s: "filter (\<lambda>x. f k = f x) (sort_key f xs) = filter (\<lambda>x. f k = f x) xs" for k xs
    using sort_key_stable[of f "f k" xs] by (simp add: eq_commute)
  show "mset (sort_key f (concat ls)) = mset (concat (map (sort_key f) ls))" by (induction ls) auto
  show "filter (\<lambda>x. f k = f x) (sort_key f (concat ls)) = filter (\<lambda>x. f k = f x) (concat (map (sort_key f) ls))" for k
    unfolding s by (induction ls) (auto simp: s)
  show "sorted (map f (sort_key f (concat ls)))" by simp
qed

text \<open>Whether more than \<open>m\<close> are left after the cut.\<close>

lemma sum_cut:
  assumes "0 < (m :: nat)"
  shows "m < length (concat (map (take m) ls)) \<longleftrightarrow> m < length (concat ls) \<and> (\<forall>l \<in> set ls. m < length l \<longrightarrow> length l < length (concat ls))"
proof (cases "\<exists>l \<in> set ls. m < length l")
  case False
  then have "map (take m) ls = ls" by (auto intro!: map_idI)
  then show ?thesis using False by auto
next
  case True
  then obtain us l vs where l: "ls = us @ l # vs" "m < length l" by (auto dest: split_list)
  have z: "length (concat (map (take m) us)) = 0 \<longleftrightarrow> length (concat us) = 0" for us :: "'a list list"
    using assms by auto
  have "m < length (concat (map (take m) ls)) \<longleftrightarrow> length (concat us) + length (concat vs) \<noteq> 0"
    using z[of us] z[of vs] l by auto
  moreover have "m < length (concat ls)" using l by simp
  moreover have "(\<forall>l \<in> set ls. m < length l \<longrightarrow> length l < length (concat ls)) \<longleftrightarrow> length (concat us) + length (concat vs) \<noteq> 0"
    (is "?a \<longleftrightarrow> ?b")
  proof
    assume ?a then show ?b using l by auto
  next
    assume b: ?b
    show ?a
    proof (intro ballI impI)
      fix k assume k: "k \<in> set ls" "m < length k"
      show "length k < length (concat ls)"
      proof (cases "k \<in> set us \<union> set vs")
        case True
        then have "length k \<le> length (concat us) + length (concat vs)"
          by (auto dest!: split_list)
        then show ?thesis using l by simp
      next
        case False
        then show ?thesis using k l b by auto
      qed
    qed
  qed
  ultimately show ?thesis by simp
qed

end
