(* ===== verification/TenantFeed.thy ===== *)
theory TenantFeed
  imports Tenants Merging
begin

text \<open>
  The pages of a tenant's activity feed, which are cut from as many of the newest events of every source as
  the page could need, are pages of the whole feed; and what the plan operations keep.
\<close>

section \<open>The feed\<close>

definition eventsInRange :: "row_times \<Rightarrow> ident \<Rightarrow> activity_query \<Rightarrow> db \<Rightarrow> ActivityType \<Rightarrow> activity_event list" where
  "eventsInRange rt c q s ty = filter (inRange q) (eventsOfType rt c s ty)"

text \<open>Every event of the tenant the query asks for, the newest first.\<close>

definition tenantFeed :: "row_times \<Rightarrow> ident \<Rightarrow> activity_query \<Rightarrow> db \<Rightarrow> activity_event list" where
  "tenantFeed rt c q s = orderByTime True ae_occurredAt (concat (map (eventsInRange rt c q s) (chosenTypes q)))"

lemma page_of_cut:
  assumes "1 \<le> page" "1 \<le> limit" "take (nat (page * limit)) xs = take (nat (page * limit)) ys"
  shows "take (nat limit) (drop (nat ((page - 1) * limit)) xs) = pageOf page limit ys"
proof -
  let ?k = "nat ((page - 1) * limit)"
  have "page * limit = (page - 1) * limit + limit" by (simp add: algebra_simps)
  moreover have "0 \<le> (page - 1) * limit" using assms(1,2) by simp
  ultimately have e: "nat (page * limit) = ?k + nat limit" using assms(2) by (simp add: nat_add_distrib)
  have "take (nat limit) (drop ?k zs) = drop ?k (take (nat (page * limit)) zs)" for zs :: "'a list"
    unfolding e by (simp add: take_drop add.commute)
  then show ?thesis using assms(3) by (simp add: pageOf_def)
qed

text \<open>C40: A page of a tenant's activity, put together from the newest page-times-limit events of each source, is
  exactly that page of the merged feed of all its events; it announces more when the feed goes on, unless one
  source with more than that many events is all of the feed.
\<close>

theorem activity_pages_are_pages_of_the_feed:
  fixes rt :: row_times
  assumes "find_company c s \<noteq> None" "1 \<le> aq_page q" "1 \<le> aq_limit q"
  defines "feed \<equiv> tenantFeed rt c q s" and "m \<equiv> nat (aq_page q * aq_limit q)"
  shows "\<exists>v. getTenantActivity rt c q s = Inr v \<and> av_activities v = pageOf (aq_page q) (aq_limit q) feed \<and>
    (av_hasMore v \<longleftrightarrow> m < length feed \<and>
      (\<forall>ty \<in> set (chosenTypes q). m < length (eventsInRange rt c q s ty) \<longrightarrow> length (eventsInRange rt c q s ty) < length feed))"
proof -
  let ?f = "\<lambda>ev. - ae_occurredAt ev" and ?E = "eventsInRange rt c q s"
  let ?ls = "map (\<lambda>ty. sort_key ?f (?E ty)) (chosenTypes q)"
  let ?merged = "sort_key ?f (concat (map (take m) ?ls))"
  have src: "map (activitySource rt c q s) (chosenTypes q) = map (take m) ?ls"
    by (simp add: activitySource_def orderByTime_def eventsInRange_def m_def comp_def)
  have feed: "feed = sort_key ?f (concat ?ls)"
    using sort_of_sorted[of ?f "map ?E (chosenTypes q)"] by (simp add: feed_def tenantFeed_def orderByTime_def comp_def)
  have t: "take m ?merged = take m feed"
    unfolding feed using take_merge[of ?ls ?f m "[]"] by simp
  have p: "0 < m" using assms(2,3) by (simp add: m_def)
  have l: "aq_page q * aq_limit q = (aq_page q - 1) * aq_limit q + aq_limit q" by (simp add: algebra_simps)
  have "m < length ?merged \<longleftrightarrow> m < length feed \<and> (\<forall>ty \<in> set (chosenTypes q). m < length (?E ty) \<longrightarrow> length (?E ty) < length feed)"
    using sum_cut[OF p, of ?ls] by (simp add: feed)
  moreover have "(aq_page q - 1) * aq_limit q + aq_limit q < int (length ?merged) \<longleftrightarrow> m < length ?merged"
    using p unfolding m_def l[symmetric] by linarith
  moreover have "take (nat (aq_limit q)) (drop (nat ((aq_page q - 1) * aq_limit q)) ?merged) = pageOf (aq_page q) (aq_limit q) feed"
    by (rule page_of_cut) (use assms(2,3) t in \<open>simp_all only: m_def[symmetric]\<close>)
  moreover obtain co where "find_company c s = Some co" using assms(1) by blast
  then have "getTenantActivity rt c q s = Inr \<lparr>av_returned = length (take (nat (aq_limit q)) (drop (nat ((aq_page q - 1) * aq_limit q)) ?merged)),
      av_hasMore = ((aq_page q - 1) * aq_limit q + aq_limit q < int (length ?merged)),
      av_activities = take (nat (aq_limit q)) (drop (nat ((aq_page q - 1) * aq_limit q)) ?merged)\<rparr>"
    unfolding getTenantActivity_def src Let_def orderByTime_def by simp
  ultimately show ?thesis by simp
qed

definition sample_query :: activity_query where
  "sample_query = \<lparr>aq_page = 1, aq_limit = 1, aq_type = Some APPROVAL, aq_from = None, aq_to = None\<rparr>"

definition sample_request :: "ident \<Rightarrow> time \<Rightarrow> approval_row" where
  "sample_request i t = \<lparr>ar_requestId = i, ar_companyId = ''c'', ar_requestedById = ''a'', ar_targetUserId = ''m'', ar_action = TOGGLE_ACTIVE,
     ar_reason = None, ar_status = ApprovalStatus.PENDING, ar_reviewReason = None, ar_reviewedAt = None, ar_createdAt = t\<rparr>"

definition sample_tenant :: db where
  "sample_tenant = empty_db\<lparr>companies := [\<lparr>co_companyId = ''c'', co_name = ''C'', co_plan = ''FREE'', co_publicSignupCode = None,
       co_status = CompanyStatus.ACTIVE, co_suspendedAt = None, co_suspendedReason = None, co_suspendedById = None, co_createdAt = 0\<rparr>],
     approvalRequests := [sample_request ''r1'' 1, sample_request ''r2'' 2]\<rparr>"

definition no_times :: row_times where
  "no_times = \<lparr>rt_kycAudit = (\<lambda>n. (''x'', 0)), rt_settlementAudit = (\<lambda>n. (''x'', 0)), rt_payoutUpdatedAt = (\<lambda>i. 0), rt_contractUpdatedAt = (\<lambda>i. 0)\<rparr>"

theorem activity_pages_are_pages_of_the_feed_witness:
  "\<exists>v. getTenantActivity no_times ''c'' sample_query sample_tenant = Inr v \<and> map ae_refId (av_activities v) = [''r2''] \<and> \<not> av_hasMore v"
proof -
  have e: "chosenTypes sample_query = [APPROVAL]" by (simp add: chosenTypes_def sample_query_def)
  have r: "eventsInRange no_times ''c'' sample_query sample_tenant APPROVAL = approvalEvents ''c'' sample_tenant"
    by (simp add: eventsInRange_def inRange_def sample_query_def)
  have l: "length (approvalEvents ''c'' sample_tenant) = 2"
    by (simp add: approvalEvents_def sample_tenant_def empty_db_def sample_request_def)
  have f: "tenantFeed no_times ''c'' sample_query sample_tenant = orderByTime True ae_occurredAt (approvalEvents ''c'' sample_tenant)"
    by (simp add: tenantFeed_def e r)
  have m: "map ae_refId (pageOf 1 1 (orderByTime True ae_occurredAt (approvalEvents ''c'' sample_tenant))) = [''r2'']"
    by (simp add: pageOf_def orderByTime_def approvalEvents_def sample_tenant_def empty_db_def sample_request_def)
  have "find_company ''c'' sample_tenant \<noteq> None" by (simp add: find_company_def sample_tenant_def)
  moreover have q: "aq_page sample_query = 1" "aq_limit sample_query = 1" by (simp_all add: sample_query_def)
  ultimately obtain v where "getTenantActivity no_times ''c'' sample_query sample_tenant = Inr v"
    "av_activities v = pageOf 1 1 (tenantFeed no_times ''c'' sample_query sample_tenant)"
    "av_hasMore v \<longleftrightarrow> 1 < length (tenantFeed no_times ''c'' sample_query sample_tenant) \<and> (\<forall>ty \<in> set (chosenTypes sample_query).
      1 < length (eventsInRange no_times ''c'' sample_query sample_tenant ty) \<longrightarrow>
      length (eventsInRange no_times ''c'' sample_query sample_tenant ty) < length (tenantFeed no_times ''c'' sample_query sample_tenant))"
    using activity_pages_are_pages_of_the_feed[of "''c''" sample_tenant sample_query no_times] unfolding q by auto
  with m show ?thesis by (simp add: e r f l)
qed

section \<open>The plans\<close>

text \<open>Plans have names of their own; subscriptions and applications refer to plans there are.\<close>

definition plans_ok :: "db \<Rightarrow> bool" where
  "plans_ok s \<longleftrightarrow> distinct (map sp_name (subscriptionPlans s)) \<and> distinct (map sp_planId (subscriptionPlans s)) \<and>
     su_planId ` set (subscriptions s) \<subseteq> sp_planId ` set (subscriptionPlans s) \<and>
     oi_planId ` set (onboardingIntents s) \<subseteq> sp_planId ` set (subscriptionPlans s)"

lemma update_plan_simps [simp]:
  "subscriptions (update_plan pid f s) = subscriptions s" "onboardingIntents (update_plan pid f s) = onboardingIntents s"
  "subscriptionPlans (update_plan pid f s) = update_where (\<lambda>p. sp_planId p = pid) f (subscriptionPlans s)"
  by (simp_all add: update_plan_def)

lemma distinct_renamed:
  assumes "distinct (map k xs)" "distinct (map i xs)" "\<And>x. x \<in> set xs \<Longrightarrow> i x \<noteq> j \<Longrightarrow> k x \<noteq> n"
    "\<And>x. x \<in> set xs \<Longrightarrow> i x = j \<Longrightarrow> k (f x) = n"
  shows "distinct (map k (update_where (\<lambda>x. i x = j) f xs))"
  using assms
proof (induction xs)
  case (Cons a xs)
  let ?ys = "update_where (\<lambda>x. i x = j) f xs"
  have IH: "distinct (map k ?ys)" by (rule Cons.IH) (use Cons.prems in auto)
  have old: "k x \<noteq> k a \<and> i x \<noteq> i a" if "x \<in> set xs" for x using Cons.prems(1,2) that by (auto simp: rev_image_eqI)
  show ?case
  proof (cases "i a = j")
    case True
    have "?ys = xs" by (rule update_where_no_match) (use old True in auto)
    moreover have "k (f a) = n" by (rule Cons.prems(4)) (use True in auto)
    moreover have "k b \<noteq> n" if "b \<in> set xs" for b by (rule Cons.prems(3)) (use old[OF that] that True in auto)
    then have "n \<notin> k ` set xs" by (metis imageE)
    ultimately show ?thesis using Cons.prems(1) True by (simp add: update_where_Cons)
  next
    case False
    have a: "k a \<noteq> n" by (rule Cons.prems(3)) (use False in auto)
    have "k y \<noteq> k a" if m: "y \<in> set ?ys" for y
    proof -
      obtain x where x: "x \<in> set xs" "y = (if i x = j then f x else x)" using m by (auto simp: set_update_where)
      show ?thesis using x a old[of x] Cons.prems(4)[of x] by (cases "i x = j") simp_all
    qed
    then have "k a \<notin> k ` set ?ys" by (metis imageE)
    then show ?thesis using IH False by (simp add: update_where_Cons)
  qed
qed simp

lemma same_ids: "(\<And>p. sp_planId (f p) = sp_planId p) \<Longrightarrow> map sp_planId (update_where b f xs) = map sp_planId xs"
  by (induction xs) (auto simp: update_where_Cons)

lemma ids_of_update: "map sp_planId xs = map sp_planId ys \<Longrightarrow> sp_planId ` set xs = sp_planId ` set ys"
  by (metis set_map)

theorem plan_operations_keep_plans_ok:
  assumes "plans_ok s" "env_uuid e 0 \<notin> sp_planId ` set (subscriptionPlans s)"
  shows "plans_ok (snd (createSubscriptionPlan e d s)) \<and> plans_ok (snd (updateSubscriptionPlan pid ch s)) \<and>
    plans_ok (snd (togglePlanStatus pid a s)) \<and> plans_ok (snd (deleteSubscriptionPlan pid s))"
proof (intro conjI)
  show "plans_ok (snd (createSubscriptionPlan e d s))"
    using assms by (auto simp: createSubscriptionPlan_def plans_ok_def new_plan_def)
  show "plans_ok (snd (deleteSubscriptionPlan pid s))"
    using assms(1) by (auto simp: deleteSubscriptionPlan_def plans_ok_def distinct_map_filter split: option.split) blast+
  have ids: "map sp_planId (update_where b (changedPlan ch) xs) = map sp_planId xs" "map sp_planId (update_where b (\<lambda>p. p\<lparr>sp_active := a\<rparr>) xs) = map sp_planId xs" for b xs
    by (rule same_ids; simp add: changedPlan_def)+
  have names: "map sp_name (update_where b (\<lambda>p. p\<lparr>sp_active := a\<rparr>) xs) = map sp_name xs" for b xs
    by (induction xs) (auto simp: update_where_Cons)
  show "plans_ok (snd (togglePlanStatus pid a s))"
    using assms(1) by (simp add: togglePlanStatus_def plans_ok_def ids names ids_of_update[OF ids(2)] split: option.split)
  show "plans_ok (snd (updateSubscriptionPlan pid ch s))"
  proof (cases "find_plan pid s = None \<or> (\<exists>q \<in> set (subscriptionPlans s). sp_planId q \<noteq> pid \<and> pc_name ch = Some (sp_name q))")
    case True
    then show ?thesis using assms(1) by (auto simp: updateSubscriptionPlan_def split: option.split)
  next
    case False
    then obtain p where p: "find_plan pid s = Some p" by auto
    then have pin: "p \<in> set (subscriptionPlans s)" "sp_planId p = pid" using find_set unfolding find_plan_def by fastforce+
    have d: "distinct (map sp_name (subscriptionPlans s))" "distinct (map sp_planId (subscriptionPlans s))"
      using assms(1) by (simp_all add: plans_ok_def)
    have same: "x = p" if "x \<in> set (subscriptionPlans s)" "sp_planId x = pid" for x
      using d(2) pin that by (auto simp: distinct_map inj_on_def)
    have "distinct (map sp_name (update_where (\<lambda>q. sp_planId q = pid) (changedPlan ch) (subscriptionPlans s)))"
    proof (rule distinct_renamed[OF d, where n = "given (pc_name ch) (sp_name p)"])
      fix x assume x: "x \<in> set (subscriptionPlans s)" "sp_planId x \<noteq> pid"
      have "sp_name x \<noteq> sp_name p" using d(1) pin x by (auto simp: distinct_map inj_on_def)
      then show "sp_name x \<noteq> given (pc_name ch) (sp_name p)" using False x by (auto simp: given_def split: option.splits)
    qed (use same in \<open>auto simp: changedPlan_def\<close>)
    then show ?thesis
      using assms(1) p False by (simp add: updateSubscriptionPlan_def plans_ok_def ids ids_of_update[OF ids(1)])
  qed
qed

text \<open>
  An update of a price alone, the way the platform's endpoint reads it, makes a yearly plan that was switched
  off a monthly plan on sale.
\<close>

theorem price_update_resets_the_plan:
  assumes "find_plan pid s = Some p"
  shows "\<exists>p'. updateSubscriptionPlan pid (parsePlanChange \<lparr>pc_name = None, pc_price = Some x, pc_discountPrice = None,
      pc_interval = None, pc_active = None, pc_gracePeriodDays = None\<rparr>) s = (Inr p', s\<lparr>subscriptionPlans :=
        update_where (\<lambda>p. sp_planId p = pid) (\<lambda>p. p\<lparr>sp_price := x, sp_interval := MONTHLY, sp_active := True\<rparr>) (subscriptionPlans s)\<rparr>) \<and>
    sp_interval p' = MONTHLY \<and> sp_active p'"
proof -
  let ?d = "parsePlanChange \<lparr>pc_name = None, pc_price = Some x, pc_discountPrice = None, pc_interval = None, pc_active = None, pc_gracePeriodDays = None\<rparr>"
  have "changedPlan ?d = (\<lambda>p. p\<lparr>sp_price := x, sp_interval := MONTHLY, sp_active := True\<rparr>)"
    by (rule ext) (simp add: changedPlan_def parsePlanChange_def given_def)
  then show ?thesis using assms by (simp add: updateSubscriptionPlan_def update_plan_def parsePlanChange_def)
qed

end
