(* ===== verification/LedgerCache.thy ===== *)
theory LedgerCache
  imports Ledger JsString
begin

text \<open>
  The results of the reconciliation job in the cache: the writes of
  \<open>src/job-workers/ledger-reconciliation.worker.ts\<close> and the reads of
  \<open>src/core/services/ledger-reconciliation.service.ts\<close>.  The cache is a list of keys with their values and
  the time they expire; a run takes no time; balances are kept as decimals, the text \<open>unchecked\<close> and
  \<open>never\<close> as \<open>None\<close>.
\<close>

section \<open>The cache\<close>

definition CACHE_TTL :: time where
  "CACHE_TTL = 25 * 60 * 60 * 1000"

record recon_cache =
  rd_accounts :: "(nat \<times> reconciliation_result \<times> time) list"
  rd_summary :: "(reconciliation_summary \<times> time) option"

definition empty_cache :: recon_cache where
  "empty_cache = \<lparr>rd_accounts = [], rd_summary = None\<rparr>"

text \<open>\<open>redis.set(key, value, "EX", ttl)\<close> and \<open>redis.get(key)\<close>.\<close>

definition setAccount :: "time \<Rightarrow> reconciliation_result \<Rightarrow> recon_cache \<Rightarrow> recon_cache" where
  "setAccount now r c = c\<lparr>rd_accounts :=
     (rr_accountId r, r, now + CACHE_TTL) # filter (\<lambda>x. fst x \<noteq> rr_accountId r) (rd_accounts c)\<rparr>"

definition getAccount :: "time \<Rightarrow> nat \<Rightarrow> recon_cache \<Rightarrow> reconciliation_result option" where
  "getAccount now i c = map_option (fst \<circ> snd) (find (\<lambda>x. fst x = i \<and> now < snd (snd x)) (rd_accounts c))"

definition runReconciliation :: "time \<Rightarrow> ledger \<Rightarrow> recon_cache \<Rightarrow> reconciliation_summary \<times> ledger \<times> recon_cache" where
  "runReconciliation now l c =
     (let (l', rs, sm) = reconcile now l
      in (sm, l', (foldl (\<lambda>c r. setAccount now r c) c rs)\<lparr>rd_summary := Some (sm, now + CACHE_TTL)\<rparr>))"

section \<open>Reading it\<close>

definition getSummary :: "time \<Rightarrow> recon_cache \<Rightarrow> reconciliation_summary option" where
  "getSummary now c = (case rd_summary c of None \<Rightarrow> None | Some (sm, expires) \<Rightarrow> if now < expires then Some sm else None)"

record account_result =
  xr_accountId :: nat
  xr_accountName :: string
  xr_companyId :: "ident option"
  xr_storedBalance :: decimal
  xr_computedBalance :: "decimal option"
  xr_discrepancy :: bool
  xr_corrected :: bool
  xr_reconciledAt :: "time option"

definition cachedResult :: "reconciliation_result \<Rightarrow> account_result" where
  "cachedResult r = \<lparr>xr_accountId = rr_accountId r, xr_accountName = rr_accountName r, xr_companyId = rr_companyId r,
     xr_storedBalance = rr_storedBalance r, xr_computedBalance = Some (rr_computedBalance r), xr_discrepancy = rr_discrepancy r,
     xr_corrected = rr_corrected r, xr_reconciledAt = Some (rr_reconciledAt r)\<rparr>"

definition stubResult :: "time option \<Rightarrow> ledger_account \<Rightarrow> account_result" where
  "stubResult checked a = \<lparr>xr_accountId = la_id a, xr_accountName = la_name a, xr_companyId = la_companyId a,
     xr_storedBalance = la_balance a, xr_computedBalance = None, xr_discrepancy = False, xr_corrected = False, xr_reconciledAt = checked\<rparr>"

datatype cache_status = Hot | Partial | Cold

definition getAllAccountResults ::
  "time \<Rightarrow> bool \<Rightarrow> string option \<Rightarrow> ledger \<Rightarrow> recon_cache \<Rightarrow> cache_status \<times> account_result list \<times> nat" where
  "getAllAccountResults now discrepancyOnly companyId l c =
     (if lg_accounts l = [] then (Hot, [], 0)
      else
        let results = map (\<lambda>a. case getAccount now (la_id a) c of Some r \<Rightarrow> cachedResult r | None \<Rightarrow> stubResult None a) (lg_accounts l);
            coldCount = count_where (\<lambda>a. getAccount now (la_id a) c = None) (lg_accounts l);
            shown = filter (\<lambda>r. (discrepancyOnly \<longrightarrow> xr_discrepancy r) \<and>
              (case companyId of None \<Rightarrow> True | Some t \<Rightarrow> xr_companyId r = (if t = ''global'' then None else Some t))) results
        in (if coldCount = 0 then Hot else if coldCount = length (lg_accounts l) then Cold else Partial, shown, length shown))"

definition getAccountResult :: "time \<Rightarrow> nat \<Rightarrow> ledger \<Rightarrow> recon_cache \<Rightarrow> (account_result \<times> cache_status) res" where
  "getAccountResult now i l c =
     (case getAccount now i c of
        Some r \<Rightarrow> Inr (cachedResult r, Hot)
      | None \<Rightarrow>
         (case find (\<lambda>a. la_id a = i) (lg_accounts l) of
            None \<Rightarrow> Inl (NotFoundError ''Ledger account not found'')
          | Some a \<Rightarrow> Inr (stubResult (la_lastReconciledAt a) a, Cold)))"

definition invalidateCache :: "time \<Rightarrow> recon_cache \<Rightarrow> nat \<times> recon_cache" where
  "invalidateCache now c =
     (count_where (\<lambda>x. now < snd (snd x)) (rd_accounts c) + (if getSummary now c = None then 0 else 1), empty_cache)"

section \<open>A day of the cache\<close>

lemma getAccount_set:
  "getAccount t i (setAccount now r c) = (if i = rr_accountId r \<and> t < now + CACHE_TTL then Some r
     else if i = rr_accountId r then None else getAccount t i c)"
proof -
  have "find (\<lambda>x. fst x = i \<and> t < snd (snd x)) (filter (\<lambda>x. fst x \<noteq> rr_accountId r) xs) =
    (if i = rr_accountId r then None else find (\<lambda>x. fst x = i \<and> t < snd (snd x)) xs)"
    for xs :: "(nat \<times> reconciliation_result \<times> time) list"
    by (induction xs) auto
  then show ?thesis by (cases "i = rr_accountId r") (simp_all add: getAccount_def setAccount_def)
qed

lemma getAccount_run:
  assumes "distinct (map rr_accountId rs)"
  shows "getAccount t i (foldl (\<lambda>c r. setAccount now r c) c rs) =
    (case find (\<lambda>r. rr_accountId r = i) rs of None \<Rightarrow> getAccount t i c | Some r \<Rightarrow> if t < now + CACHE_TTL then Some r else None)"
  using assms
proof (induction rs rule: rev_induct)
  case (snoc r rs)
  have "find (\<lambda>r. rr_accountId r = i) (rs @ [r]) = (case find (\<lambda>r. rr_accountId r = i) rs of None \<Rightarrow> if rr_accountId r = i then Some r else None | Some q \<Rightarrow> Some q)"
    by (induction rs) auto
  moreover have "find (\<lambda>q. rr_accountId q = i) rs = None" if "rr_accountId r = i"
    using snoc.prems that by (auto simp: find_None_iff rev_image_eqI)
  ultimately show ?case using snoc by (auto simp: getAccount_set split: option.splits)
qed simp

lemma runReconciliation_reads:
  assumes "distinct (map la_id (lg_accounts l))" "runReconciliation t0 l c = (sm, l', c')"
  shows "lg_accounts l' = map (reconciled_row t0 l) (lg_accounts l)" "rd_summary c' = Some (sm, t0 + CACHE_TTL)"
    "rs_discrepancies sm = count_where rr_discrepancy (map (reconcile_account t0 l) (lg_accounts l))"
    "a \<in> set (lg_accounts l) \<Longrightarrow> getAccount t (la_id a) c' = (if t < t0 + CACHE_TTL then Some (reconcile_account t0 l a) else None)"
proof -
  obtain rs where r: "reconcile t0 l = (l', rs, sm)" using assms(2) by (auto simp: runReconciliation_def split: prod.splits)
  note spec = reconcile_spec[OF assms(1) r]
  have c': "c' = (foldl (\<lambda>c r. setAccount t0 r c) c rs)\<lparr>rd_summary := Some (sm, t0 + CACHE_TTL)\<rparr>"
    using assms(2) by (simp add: runReconciliation_def r)
  show "lg_accounts l' = map (reconciled_row t0 l) (lg_accounts l)" by (rule spec(1))
  show "rd_summary c' = Some (sm, t0 + CACHE_TTL)" by (simp add: c')
  show "rs_discrepancies sm = count_where rr_discrepancy (map (reconcile_account t0 l) (lg_accounts l))" using spec by simp
  have i: "rr_accountId (reconcile_account t0 l a) = la_id a" for a by (simp add: reconcile_account_def Let_def)
  have d: "distinct (map rr_accountId rs)" using assms(1) by (simp add: spec(5) comp_def i)
  show "getAccount t (la_id a) c' = (if t < t0 + CACHE_TTL then Some (reconcile_account t0 l a) else None)" if "a \<in> set (lg_accounts l)"
  proof -
    have "find (\<lambda>r. rr_accountId r = rr_accountId (reconcile_account t0 l a)) rs = Some (reconcile_account t0 l a)"
      by (rule find_unique_key[OF d]) (use that in \<open>simp add: spec(5)\<close>)
    moreover have "getAccount t j (b\<lparr>rd_summary := x\<rparr>) = getAccount t j b" for j b x by (simp add: getAccount_def)
    ultimately show ?thesis by (simp add: c' getAccount_run[OF d] i)
  qed
qed

text \<open>
  For 25 hours after a run its reads give exactly the results of the run, with as many discrepancies as the
  summary counts; then every account reads as unchecked.
\<close>

theorem reads_show_the_last_run:
  assumes "distinct (map la_id (lg_accounts l))" "lg_accounts l \<noteq> []" "runReconciliation t0 l c = (sm, l', c')"
  shows "t < t0 + CACHE_TTL \<Longrightarrow>
      getAllAccountResults t False None l' c' =
        (Hot, map (\<lambda>a. cachedResult (reconcile_account t0 l a)) (lg_accounts l), length (lg_accounts l)) \<and>
      getSummary t c' = Some sm \<and> snd (snd (getAllAccountResults t True None l' c')) = rs_discrepancies sm"
    and "t0 + CACHE_TTL \<le> t \<Longrightarrow>
      getAllAccountResults t False None l' c' =
        (Cold, map (\<lambda>a. stubResult None (reconciled_row t0 l a)) (lg_accounts l), length (lg_accounts l)) \<and> getSummary t c' = None"
proof -
  note r = runReconciliation_reads[OF assms(1,3)]
  have f: "length (filter (\<lambda>r. xr_discrepancy r) (map (\<lambda>a. cachedResult (reconcile_account t0 l a)) as)) =
    count_where rr_discrepancy (map (reconcile_account t0 l) as)" for as
    by (induction as) (auto simp: cachedResult_def count_where_def)
  have z: "count_where P xs = 0" if "\<forall>x \<in> set xs. \<not> P x" for P and xs :: "ledger_account list"
    using that by (simp add: count_where_def filter_empty_conv)
  have full: "count_where P xs = length xs" if "\<forall>x \<in> set xs. P x" for P and xs :: "ledger_account list"
    using that by (simp add: count_where_def)
  have m: "map (\<lambda>a. case getAccount t (la_id a) c' of Some r \<Rightarrow> cachedResult r | None \<Rightarrow> stubResult None a) (lg_accounts l') =
    map (\<lambda>a. if t < t0 + CACHE_TTL then cachedResult (reconcile_account t0 l a) else stubResult None (reconciled_row t0 l a)) (lg_accounts l)"
    unfolding r(1) by (simp add: r(4))
  have ne: "lg_accounts l' \<noteq> []" using assms(2) r(1) by simp
  {
    assume t: "t < t0 + CACHE_TTL"
    have "count_where (\<lambda>a. getAccount t (la_id a) c' = None) (lg_accounts l') = 0" by (rule z) (use t in \<open>simp add: r(1,4)\<close>)
    then show "getAllAccountResults t False None l' c' =
        (Hot, map (\<lambda>a. cachedResult (reconcile_account t0 l a)) (lg_accounts l), length (lg_accounts l)) \<and>
      getSummary t c' = Some sm \<and> snd (snd (getAllAccountResults t True None l' c')) = rs_discrepancies sm"
      using t f[of "lg_accounts l"] by (simp add: getAllAccountResults_def ne m Let_def getSummary_def r(2,3))
  next
    assume t: "t0 + CACHE_TTL \<le> t"
    have "count_where (\<lambda>a. getAccount t (la_id a) c' = None) (lg_accounts l') = length (lg_accounts l')"
      by (rule full) (use t in \<open>simp add: r(1,4)\<close>)
    then show "getAllAccountResults t False None l' c' =
        (Cold, map (\<lambda>a. stubResult None (reconciled_row t0 l a)) (lg_accounts l), length (lg_accounts l)) \<and> getSummary t c' = None"
      using t by (simp add: getAllAccountResults_def ne m Let_def getSummary_def r(2))
  }
qed

end
