(* ===== verification/CommissionReports.thy ===== *)
theory CommissionReports
  imports Customers Analytics Merging
begin

text \<open>
  What marketers, companies and admins read of commissions and payouts: the reports of
  \<open>src/core/services/commission.service.ts\<close> and \<open>maskAccountNumber\<close>
  (\<open>src/shared/utils/helpers/misc.ts\<close>).  Payouts are kept in the order of their requests.
\<close>

section \<open>Commissions\<close>

definition commissionsOfMarketer :: "ident \<Rightarrow> db \<Rightarrow> commission_row list" where
  "commissionsOfMarketer m s = filter (\<lambda>c. cm_userId c = m) (commissions s)"

definition getAllTimeCommissions :: "ident \<Rightarrow> db \<Rightarrow> decimal \<times> nat \<times> commission_row list" where
  "getAllTimeCommissions m s =
     (let cs = orderByTime True cm_createdAt (commissionsOfMarketer m s)
      in (foldl (\<lambda>acc c. acc + cm_amount c) 0 cs, length cs, cs))"

text \<open>\<open>grouped[key]\<close>: the first row of a key opens its entry; \<open>Object.values\<close> keeps that order.\<close>

fun addCommission :: "ident \<Rightarrow> 'a \<Rightarrow> decimal \<Rightarrow> (ident \<times> 'a \<times> decimal) list \<Rightarrow> (ident \<times> 'a \<times> decimal) list" where
  "addCommission k info x [] = [(k, info, 0 + x)]"
| "addCommission k info x ((k', i', t) # g) = (if k = k' then (k', i', t + x) # g else (k', i', t) # addCommission k info x g)"

fun groupCommissions ::
  "(commission_row \<Rightarrow> (ident \<times> 'a) option) \<Rightarrow> commission_row list \<Rightarrow> (ident \<times> 'a \<times> decimal) list \<Rightarrow> (ident \<times> 'a \<times> decimal) list" where
  "groupCommissions key [] g = g"
| "groupCommissions key (c # cs) g =
     groupCommissions key cs (case key c of None \<Rightarrow> g | Some (k, info) \<Rightarrow> addCommission k info (cm_amount c) g)"

definition customerKey :: "db \<Rightarrow> commission_row \<Rightarrow> (ident \<times> string \<times> string) option" where
  "customerKey s c = map_option (\<lambda>u. (u_userId u, (case u_name u of None \<Rightarrow> '''' | Some n \<Rightarrow> n), u_email u))
     (Option.bind (contractOfCommission c s) (\<lambda>f. customerOfContract f s))"

definition productKey :: "db \<Rightarrow> commission_row \<Rightarrow> (ident \<times> string) option" where
  "productKey s c = map_option (\<lambda>p. (pr_productId p, pr_name p))
     (Option.bind (contractOfCommission c s) (\<lambda>f. find_product (fc_productId f) s))"

definition getCommissionPerCustomer :: "ident \<Rightarrow> db \<Rightarrow> (ident \<times> (string \<times> string) \<times> decimal) list" where
  "getCommissionPerCustomer m s = groupCommissions (customerKey s) (commissionsOfMarketer m s) []"

definition getCommissionPerProduct :: "ident \<Rightarrow> db \<Rightarrow> (ident \<times> string \<times> decimal) list" where
  "getCommissionPerProduct m s = groupCommissions (productKey s) (commissionsOfMarketer m s) []"

section \<open>Payouts\<close>

definition maskAccountNumber :: "nat \<Rightarrow> string \<Rightarrow> string" where
  "maskAccountNumber visibleDigits accountNumber =
     (let digits = filter (\<lambda>c. c \<in> set ''0123456789'') accountNumber in
      if digits = [] then ''''
      else
        let visible = (if visibleDigits = 0 then digits else drop (length digits - visibleDigits) digits)
        in replicate (length digits - length visible) CHR ''*'' @ visible)"

record masked_account =
  mk_bankName :: string
  mk_accountName :: string
  mk_accountNumber :: string

definition maskedAccount :: "payout_row \<Rightarrow> db \<Rightarrow> masked_account option" where
  "maskedAccount p s =
     map_option (\<lambda>b. \<lparr>mk_bankName = mb_bankName b, mk_accountName = mb_accountName b,
         mk_accountNumber = maskAccountNumber 4 (mb_accountNumber b)\<rparr>)
       (Option.bind (po_marketerBankAccountId p) (\<lambda>i. find (\<lambda>b. mb_id b = i) (marketerBanks s)))"

record payout_item =
  pt_payout :: payout_row
  pt_marketer :: "user_row option"
  pt_bankAccount :: "masked_account option"
  pt_allocationsCount :: nat

text \<open>The rows a role reads; a null company is no value for the required column.\<close>

definition payoutScope :: "ident \<Rightarrow> Role \<Rightarrow> ident option \<Rightarrow> (payout_row \<Rightarrow> bool) res" where
  "payoutScope uid role company =
     (case role of
        MARKETER \<Rightarrow> Inr (\<lambda>p. po_userId p = uid)
      | COMPANY \<Rightarrow> (case company of None \<Rightarrow> Inl (PlainError ''Argument companyId must not be null.'') | Some c \<Rightarrow> Inr (\<lambda>p. po_companyId p = c))
      | ADMIN \<Rightarrow> Inr (\<lambda>p. True)
      | CUSTOMER \<Rightarrow> Inl (ForbiddenError ''Unauthorized'')
      | SUPER_ADMIN \<Rightarrow> Inl (ForbiddenError ''Unauthorized''))"

record payout_query =
  yq_status :: "CommissionPayoutStatus option"
  yq_page :: "int option"
  yq_limit :: "int option"

definition getPayoutRequests :: "ident \<Rightarrow> Role \<Rightarrow> payout_query \<Rightarrow> db \<Rightarrow> (payout_item list \<times> pagination) res" where
  "getPayoutRequests uid role q s =
     (let page = (case yq_page q of None \<Rightarrow> 1 | Some p \<Rightarrow> p); limit = (case yq_limit q of None \<Rightarrow> 20 | Some l \<Rightarrow> l) in
      case find_user uid s of
        None \<Rightarrow> Inl (NotFoundError ''User not found'')
      | Some u \<Rightarrow>
         (case payoutScope uid role (u_companyId u) of
            Inl err \<Rightarrow> Inl err
          | Inr scope \<Rightarrow>
              let found = filter (\<lambda>p. (case yq_status q of None \<Rightarrow> True | Some st \<Rightarrow> po_status p = st) \<and> scope p) (payouts s)
              in Inr (map (\<lambda>p. \<lparr>pt_payout = p, pt_marketer = find_user (po_userId p) s, pt_bankAccount = maskedAccount p s,
                     pt_allocationsCount = count_where (\<lambda>a. al_payoutId a = po_payoutId p) (allocations s)\<rparr>)
                   (pageOf page limit (rev found)), paginationOf page limit (int (length found)))))"

record payout_detail =
  pd_payout :: payout_row
  pd_marketer :: "user_row option"
  pd_company :: "company_row option"
  pd_adminApprovedBy :: "user_row option"
  pd_companyApprovedBy :: "user_row option"
  pd_transferInitiatedBy :: "user_row option"
  pd_bankAccount :: "masked_account option"
  pd_allocations :: "(allocation_row \<times> commission_row option) list"

definition payoutDetail :: "payout_row \<Rightarrow> db \<Rightarrow> payout_detail" where
  "payoutDetail p s =
     (let user = (\<lambda>i. Option.bind i (\<lambda>u. find_user u s))
      in \<lparr>pd_payout = p, pd_marketer = find_user (po_userId p) s, pd_company = find (\<lambda>c. co_companyId c = po_companyId p) (companies s),
          pd_adminApprovedBy = user (po_adminApprovedById p), pd_companyApprovedBy = user (po_companyApprovedById p),
          pd_transferInitiatedBy = user (po_transferInitiatedById p), pd_bankAccount = maskedAccount p s,
          pd_allocations = map (\<lambda>a. (a, find_commission (al_commissionId a) s)) (filter (\<lambda>a. al_payoutId a = po_payoutId p) (allocations s))\<rparr>)"

definition getPayoutById :: "ident \<Rightarrow> ident \<Rightarrow> Role \<Rightarrow> db \<Rightarrow> payout_detail res" where
  "getPayoutById payoutId uid role s =
     (case find_user uid s of
        None \<Rightarrow> Inl (NotFoundError ''User not found'')
      | Some u \<Rightarrow>
         (case find_payout payoutId s of
            None \<Rightarrow> Inl (NotFoundError ''Payout request not found'')
          | Some p \<Rightarrow>
             (case role of
                MARKETER \<Rightarrow> if po_userId p \<noteq> uid then Inl (NotFoundError ''Payout request not found'') else Inr (payoutDetail p s)
              | COMPANY \<Rightarrow> if Some (po_companyId p) \<noteq> u_companyId u then Inl (NotFoundError ''Payout request not found'') else Inr (payoutDetail p s)
              | ADMIN \<Rightarrow> Inr (payoutDetail p s)
              | CUSTOMER \<Rightarrow> Inl (ForbiddenError ''Unauthorized'')
              | SUPER_ADMIN \<Rightarrow> Inl (ForbiddenError ''Unauthorized''))))"

section \<open>The breakdowns add up\<close>

lemma sum_list_foldl: "foldl (\<lambda>acc c. acc + cm_amount c) a cs = a + sum_list (map cm_amount cs)"
  by (induction cs arbitrary: a) (simp_all add: add.assoc)

lemma addCommission_keys: "fst ` set (addCommission k info x g) = insert k (fst ` set g)"
  by (induction k info x g rule: addCommission.induct) auto

lemma addCommission_distinct: "distinct (map fst g) \<Longrightarrow> distinct (map fst (addCommission k info x g))"
proof (induction k info x g rule: addCommission.induct)
  case (2 k info x k' i' t g)
  then show ?case using addCommission_keys[of k info x g] by (auto simp: image_iff)
qed simp

definition total_of :: "ident \<Rightarrow> (ident \<times> 'a \<times> decimal) list \<Rightarrow> decimal" where
  "total_of k g = sum_list (map (\<lambda>(k', i, t). if k' = k then t else 0) g)"

lemma total_of_add: "total_of k' (addCommission k info x g) = total_of k' g + (if k = k' then x else 0)"
  by (induction k info x g rule: addCommission.induct) (auto simp: total_of_def)

definition amountOfKey :: "(commission_row \<Rightarrow> (ident \<times> 'a) option) \<Rightarrow> ident \<Rightarrow> commission_row list \<Rightarrow> decimal" where
  "amountOfKey key k cs = sum_list (map cm_amount (filter (\<lambda>c. map_option fst (key c) = Some k) cs))"

lemma groupCommissions_spec:
  "total_of k (groupCommissions key cs g) = total_of k g + amountOfKey key k cs \<and>
   fst ` set (groupCommissions key cs g) = fst ` set g \<union> {k. Some k \<in> (\<lambda>c. map_option fst (key c)) ` set cs} \<and>
   (distinct (map fst g) \<longrightarrow> distinct (map fst (groupCommissions key cs g)))"
proof (induction cs arbitrary: g)
  case (Cons c cs)
  show ?case
  proof (cases "key c")
    case None
    then show ?thesis using Cons[of g] by (auto simp: amountOfKey_def)
  next
    case (Some ki)
    obtain j info where ki: "ki = (j, info)" by (cases ki)
    have "amountOfKey key k (c # cs) = (if j = k then cm_amount c else 0) + amountOfKey key k cs"
      using Some ki by (simp add: amountOfKey_def)
    moreover have "{k. Some k \<in> (\<lambda>c. map_option fst (key c)) ` set (c # cs)} = insert j {k. Some k \<in> (\<lambda>c. map_option fst (key c)) ` set cs}"
      using Some ki by (auto simp: image_iff)
    ultimately show ?thesis
      using Cons[of "addCommission j info (cm_amount c) g"] Some ki
      by (simp add: total_of_add addCommission_keys addCommission_distinct)
  qed
qed (simp add: amountOfKey_def)

lemma total_of_member: "distinct (map fst g) \<Longrightarrow> (k, i, t) \<in> set g \<Longrightarrow> total_of k g = t"
proof (induction g)
  case (Cons x g)
  have z: "total_of k h = 0" if "k \<notin> fst ` set h" for h :: "(ident \<times> 'a \<times> decimal) list"
    using that by (induction h) (auto simp: total_of_def)
  obtain k' i' t' where x: "x = (k', i', t')" by (cases x)
  have c: "total_of k (x # g) = (if k' = k then t' else 0) + total_of k g" by (simp add: total_of_def x)
  show ?case
  proof (cases "(k, i, t) = x")
    case True
    then have "k \<notin> fst ` set g" using Cons.prems(1) x by simp
    then show ?thesis using c z True x by simp
  next
    case False
    then have m: "(k, i, t) \<in> set g" using Cons.prems(2) by simp
    then have "k' \<noteq> k" using Cons.prems(1) x by (auto simp: rev_image_eqI)
    then show ?thesis using Cons.IH[OF _ m] Cons.prems(1) c by simp
  qed
qed simp

lemma sum_by_keys:
  assumes "distinct (map fst g)" "\<And>k i t. (k, i, t) \<in> set g \<Longrightarrow> t = amountOfKey key k cs"
    "fst ` set g = {k. Some k \<in> (\<lambda>c. map_option fst (key c)) ` set cs}"
  shows "sum_list (map (snd \<circ> snd) g) = sum_list (map cm_amount (filter (\<lambda>c. key c \<noteq> None) cs))"
proof -
  have e: "snd (snd x) = amountOfKey key (fst x) cs" if "x \<in> set g" for x
    using assms(2) that by (cases x) auto
  have "sum_list (map (snd \<circ> snd) g) = sum_list (map (\<lambda>k. amountOfKey key k cs) (map fst g))"
    using e by (simp add: comp_def cong: map_cong)
  also have "\<dots> = (\<Sum>k \<in> fst ` set g. amountOfKey key k cs)"
    using sum_list_distinct_conv_sum_set[OF assms(1), of "\<lambda>k. amountOfKey key k cs"] by simp
  also have "\<dots> = sum_list (map cm_amount (filter (\<lambda>c. map_option fst (key c) \<in> Some ` fst ` set g) cs))"
  proof -
    have "(\<Sum>k \<in> K. amountOfKey key k cs) = sum_list (map cm_amount (filter (\<lambda>c. map_option fst (key c) \<in> Some ` K) cs))" if "finite K" for K
      using that
    proof (induction K)
      case (insert k K)
      have "sum_list (map cm_amount (filter (\<lambda>c. map_option fst (key c) \<in> Some ` insert k K) ds)) =
        amountOfKey key k ds + sum_list (map cm_amount (filter (\<lambda>c. map_option fst (key c) \<in> Some ` K) ds))" for ds
        using insert(2) by (induction ds) (auto simp: amountOfKey_def)
      then show ?case using insert by simp
    qed simp
    then show ?thesis by simp
  qed
  also have "filter (\<lambda>c. map_option fst (key c) \<in> Some ` fst ` set g) cs = filter (\<lambda>c. key c \<noteq> None) cs"
  proof (rule filter_cong[OF refl])
    fix c assume "c \<in> set cs"
    then have "Some k \<in> (\<lambda>c. map_option fst (key c)) ` set cs" if "map_option fst (key c) = Some k" for k using that by (metis imageI)
    then show "map_option fst (key c) \<in> Some ` fst ` set g \<longleftrightarrow> key c \<noteq> None" unfolding assms(3) by (cases "key c") auto
  qed
  finally show ?thesis .
qed

lemma breakdown_adds_up:
  fixes key :: "commission_row \<Rightarrow> (ident \<times> 'a) option" and cs :: "commission_row list"
  defines "g \<equiv> groupCommissions key cs []"
  shows "distinct (map fst g) \<and> map (snd \<circ> snd) g = map (\<lambda>x. amountOfKey key (fst x) cs) g \<and>
    sum_list (map (snd \<circ> snd) g) + sum_list (map cm_amount (filter (\<lambda>c. key c = None) cs)) = sum_list (map cm_amount cs)"
proof -
  note spec = groupCommissions_spec[of _ key cs "[]", folded g_def, simplified]
  have d: "distinct (map fst g)" using spec by simp
  have t: "t = amountOfKey key k cs" if "(k, i, t) \<in> set g" for k i t
    using total_of_member[OF d that] spec by (simp add: total_of_def)
  have "sum_list (map (snd \<circ> snd) g) = sum_list (map cm_amount (filter (\<lambda>c. key c \<noteq> None) cs))"
    by (rule sum_by_keys[OF d t]) (use spec in auto)
  moreover have "sum_list (map cm_amount (filter (\<lambda>c. key c \<noteq> None) cs)) + sum_list (map cm_amount (filter (\<lambda>c. key c = None) cs)) =
      sum_list (map cm_amount cs)" by (induction cs) auto
  moreover have "map (snd \<circ> snd) g = map (\<lambda>x. amountOfKey key (fst x) cs) g" using t by (auto intro!: map_cong)
  ultimately show ?thesis using d by (intro conjI) (simp_all only:)
qed

lemma all_time_total: "fst (getAllTimeCommissions m s) = sum_list (map cm_amount (commissionsOfMarketer m s))"
proof -
  let ?cs = "commissionsOfMarketer m s"
  have "sum_mset (mset (map cm_amount (orderByTime True cm_createdAt ?cs))) = sum_mset (mset (map cm_amount ?cs))"
    by (simp only: mset_map orderByTime_def mset_sort)
  then have "sum_list (map cm_amount (orderByTime True cm_createdAt ?cs)) = sum_list (map cm_amount ?cs)" by (simp only: sum_mset_sum_list)
  then show ?thesis by (simp add: getAllTimeCommissions_def Let_def sum_list_foldl)
qed

text \<open>
  A marketer's breakdowns have one entry per customer and per product, holding exactly the sum of the commissions
  that customer or product brought; with the commissions that have none they add up to the all-time total.
\<close>

theorem commission_breakdowns_add_up:
  fixes m :: ident and s :: db
  defines "cs \<equiv> commissionsOfMarketer m s" and "byCustomer \<equiv> getCommissionPerCustomer m s" and "byProduct \<equiv> getCommissionPerProduct m s"
  shows "distinct (map fst byCustomer) \<and> map (snd \<circ> snd) byCustomer = map (\<lambda>x. amountOfKey (customerKey s) (fst x) cs) byCustomer \<and>
    sum_list (map (snd \<circ> snd) byCustomer) + sum_list (map cm_amount (filter (\<lambda>c. customerKey s c = None) cs)) = fst (getAllTimeCommissions m s) \<and>
    distinct (map fst byProduct) \<and> map (snd \<circ> snd) byProduct = map (\<lambda>x. amountOfKey (productKey s) (fst x) cs) byProduct \<and>
    sum_list (map (snd \<circ> snd) byProduct) + sum_list (map cm_amount (filter (\<lambda>c. productKey s c = None) cs)) = fst (getAllTimeCommissions m s)"
  using breakdown_adds_up[of "customerKey s" cs] breakdown_adds_up[of "productKey s" cs]
  by (simp add: all_time_total cs_def byCustomer_def byProduct_def getCommissionPerCustomer_def getCommissionPerProduct_def)

text \<open>
  The list of payouts and the details of one agree on who reads what, and an admin of any company reads every
  payout of every company.
\<close>

theorem admins_read_every_payout:
  assumes "find_user a s = Some u" "find_payout pid s = Some p"
  shows "getPayoutById pid a ADMIN s = Inr (payoutDetail p s) \<and>
    (\<exists>page items pg. getPayoutRequests a ADMIN \<lparr>yq_status = None, yq_page = Some page, yq_limit = None\<rparr> s = Inr (items, pg) \<and>
      p \<in> pt_payout ` set items)"
proof -
  have m: "p \<in> set (rev (payouts s))" using find_set[OF assms(2)[unfolded find_payout_def]] by simp
  obtain page where "p \<in> set (pageOf page 20 (rev (payouts s)))" using in_some_page[of 20 p "rev (payouts s)"] m by auto
  then have "\<exists>page items pg. getPayoutRequests a ADMIN \<lparr>yq_status = None, yq_page = Some page, yq_limit = None\<rparr> s = Inr (items, pg) \<and>
      p \<in> pt_payout ` set items"
    using assms(1) by (intro exI[of _ page]) (simp add: getPayoutRequests_def payoutScope_def Let_def image_image)
  moreover have "getPayoutById pid a ADMIN s = Inr (payoutDetail p s)" using assms by (simp add: getPayoutById_def)
  ultimately show ?thesis by blast
qed

text \<open>Four digits of an account number are shown, the rest is stars.\<close>

lemma masked_number:
  "filter (\<lambda>c. c \<in> set ''0123456789'') n = ds \<Longrightarrow> length (maskAccountNumber 4 n) = length ds \<and>
    drop (length ds - 4) (maskAccountNumber 4 n) = drop (length ds - 4) ds \<and>
    set (take (length ds - 4) (maskAccountNumber 4 n)) \<subseteq> {CHR ''*''}"
  by (auto simp: maskAccountNumber_def Let_def)

end
