(* ===== verification/Spec2Isabelle.thy ===== *)
theory Spec2Isabelle
  imports PayoutBooks Financing Settlement Reminders KycSafety SubscriptionSlots StaffSafety Banks Categories CatalogPages Gallery
    PlatformRevenue TenantFeed LedgerCache CommissionReports
begin

text \<open>
  The backend of Instalflow, modelled from its TypeScript sources (paths are relative to the repository).

  \<^bold>\<open>The program.\<close>  Companies (tenants) sell products in installments.  Marketers refer customers; a customer's
  application is signed by the marketer and by an admin of the company, which activates a financing contract
  with a schedule of installments.  Installments are paid through Paystack: the API reserves a payment intent,
  the webhook enqueues a job, and the worker collects the payment, posts it to a double-entry ledger and
  accrues the marketer's commission.  Commissions are paid out after two approvals by a transfer; what is left
  of the collected money is settled to the company.  Companies themselves pay the platform for a subscription.
  Daily jobs remind customers, expire intents and sessions, renew subscriptions, delete documents and
  reconcile the ledger.  All parts work on one PostgreSQL database; jobs and webhooks may be repeated, delayed
  and interleaved, and most properties here are about that.

  \<^bold>\<open>The state.\<close>  \<open>Database.db\<close> is a record of tables, one list of rows per model of
  \<open>prisma/schema.prisma\<close> in creation order, with the ledger, the Redis keys the code sets with \<open>NX\<close> and the
  outbox of emitted events and jobs.  An operation takes what it reads from outside (clock and identifiers in
  \<open>env\<close>, answers of Paystack and Cloudinary, random strings, the time zone as a fixed offset) and a \<open>db\<close> and
  returns an error or a value with the new \<open>db\<close>.  A transaction that fails gives back the old tables
  (\<open>Prelude.transaction\<close>).  Errors are the classes of \<open>src/shared/utils/AppError.ts\<close> with their fixed text, and
  the database's own (unique index, foreign key, missing row).

  \<^bold>\<open>Theories and sources.\<close>
  \<^item> \<open>Prelude\<close>, \<open>Database\<close>: results, tables and their updates; schema and \<open>AppError.ts\<close>.  \<open>JsNumber\<close>, \<open>JsDate\<close>,
    \<open>JsString\<close>, \<open>Paging\<close>: binary64 rounding, the calendar, strings and the pages the services share.  \<open>Merging\<close>:
    merging sorted lists.
  \<^item> \<open>Ledger\<close>: \<open>ledger.service.ts\<close>, \<open>ledger-correction.service.ts\<close>, the reconciliation job; \<open>LedgerCache\<close>: what the job
    leaves in the cache and \<open>ledger-reconciliation.service.ts\<close>.
  \<^item> \<open>Commission\<close>, \<open>PayoutTransfer\<close>: payouts of \<open>commission.service.ts\<close>, \<open>transfer.worker.ts\<close> and the transfer webhooks
    of \<open>webhook-processor.service.ts\<close>; \<open>PayoutLifecycle\<close>, \<open>PayoutBooks\<close>: their step relation and what they do to the
    books; \<open>CommissionReports\<close>: the reads of the same service.
  \<^item> \<open>PaymentIntent\<close>: \<open>payment-intent.service.ts\<close> and \<open>payment-recovery.worker.ts\<close>; \<open>PaymentWorker\<close>: the charge webhook
    and \<open>payment.worker.ts\<close>; \<open>Installments\<close>: \<open>installment.service.ts\<close> and the eligibility helper; \<open>Financing\<close>:
    \<open>financing.service.ts\<close>.
  \<^item> \<open>Settlement\<close>: \<open>merchant-settlement.service.ts\<close>, its transfer worker and webhooks.
  \<^item> \<open>KycIntake\<close>, \<open>KycReview\<close>: \<open>kyc.service.ts\<close>, \<open>onboarding.service.ts\<close> and the sweeper and retention jobs; \<open>KycSpec\<close>: the
    abstract onboarding machine; \<open>KycApproval\<close>, \<open>KycLifecycle\<close>, \<open>KycSafety\<close>: the approval, the refinement of the machine
    and what follows for customers and settlements.
  \<^item> \<open>ReminderSettings\<close>, \<open>Reminders\<close>: \<open>reminder-settings.service.ts\<close> and \<open>payment-reminder.worker.ts\<close>.
  \<^item> \<open>Subscriptions\<close>, \<open>SubscriptionRenewal\<close>: \<open>subscription.service.ts\<close>, \<open>onboarding.worker.ts\<close> and
    \<open>subscription-renewal.worker.ts\<close>; \<open>SubscriptionLife\<close>, \<open>CompanyOnboarding\<close>, \<open>SubscriptionSlots\<close>: their properties.
  \<^item> \<open>Auth\<close>, \<open>UserManagement\<close>: \<open>auth.service.ts\<close> and \<open>user-management.service.ts\<close>; \<open>AuthSafety\<close>, \<open>StaffSafety\<close>: their
    properties.  \<open>Banks\<close>: \<open>bank.service.ts\<close> and \<open>company-bank.service.ts\<close>.
  \<^item> \<open>Catalog\<close>, \<open>Variants\<close>, \<open>Categories\<close>, \<open>Gallery\<close>: \<open>product.service.ts\<close>, \<open>variant.service.ts\<close>,
    \<open>installment-plan.service.ts\<close>, \<open>category.service.ts\<close> and \<open>product-image.service.ts\<close>; \<open>CatalogSafety\<close>, \<open>CatalogPages\<close>:
    what products show and what cursor pages skip.
  \<^item> \<open>Customers\<close>: \<open>customer-management.service.ts\<close>; \<open>Analytics\<close>: \<open>analytics.service.ts\<close>; \<open>Tenants\<close>, \<open>TenantFeed\<close>:
    \<open>tenant-management.service.ts\<close> and \<open>superadmin.service.ts\<close>; \<open>PlatformRevenue\<close>: \<open>platform-revenue.service.ts\<close>.

  \<^bold>\<open>How the proofs are built.\<close>  Four interfaces are locales, interpreted on the model: \<open>ledger_book\<close> (balanced
  postings move exactly their entries and keep the books), \<open>allocation_loop\<close> (rewriting the allocations of a
  payout keeps the reserved sums, four interpretations), \<open>guarded_table\<close> (guarded updates never touch a
  terminal row), \<open>account_book\<close> (one primary account per owner, for both kinds of accounts).  State machines are
  inductive step relations over the handlers (payouts, intents, settlements, onboarding, subscriptions, account
  requests with the staff operations that revoke sessions, staff requests, the catalog, bank accounts) with invariants by rule induction; \<open>KycSpec\<close> and the payout status machine are
  abstract machines the handlers refine.  Numbered claims (C1 to C40) are the properties of the program;
  theorems without a number are further facts, many of them showing where the code does not do what it means
  to.  Lemma collections: \<open>row_simps\<close> for tables, \<open>inv_intros\<close> for invariants.

  \<^bold>\<open>Bounds and fuel.\<close>  The sums of a schedule are exact for totals of at most two decimals below 2 to the 50
  kobo, where binary64 arithmetic on kobo is exact; any other total up to a trillion, which a price and an interest
  with decimals can give, is met to within 0.6 hundredths.  The total a page shows and the financed total differ
  by at most 0.51 hundredths and a rounding that grows with the total, without a bound on price or interest.
  \<open>CatalogPages.followCursor\<close> has fuel for the requests of a client; its claim shows that one request per
  limit + 1 visible products and one more are enough.  Loops of the code over
  rows are structural recursions and always end.

  \<^bold>\<open>Simplifications.\<close>  Decimals are rationals, exact where the code uses \<open>Prisma.Decimal\<close> sums and products;
  columns the modelled code never reads, JSON attributes, links and the details of audit entries are left out;
  texts put together from values end at the first value; strings are ASCII; local time is at a fixed offset;
  concurrent requests interleave operation by operation (a transaction is one step), and a scan is one
  operation after the other; rows a query leaves tied keep the order of the table.  Passwords, tokens,
  Paystack, Cloudinary and the rank of the full-text search are parameters.

  \<^bold>\<open>Not modelled.\<close>  The generated Prisma client (\<open>prisma/generated\<close>), most of the repository's lines; controllers,
  routes and middleware (\<open>src/api\<close>), which parse, call one service and format; the delivery of notifications and
  e-mails (\<open>src/core/events\<close>, \<open>src/core/notifications\<close>, \<open>src/core/channels\<close>, \<open>src/infrastructure/internal_notification\<close>,
  \<open>email.service.ts\<close>, the Cloudflare workers in \<open>workers\<close> and \<open>mail-worker\<close>), of which only the emission is in the
  outbox; connections, queues, cron registration, logging and configuration (\<open>src/infrastructure\<close>, \<open>src/schedulers\<close>);
  scripts, seeds and migrations.  Large parts of \<open>commission.service.ts\<close>, \<open>product.service.ts\<close>,
  \<open>payment-intent.service.ts\<close> and \<open>installment.service.ts\<close> are code that is commented out.
\<close>

end
